(* ===== verification/HG_Prelude.thy ===== *)
theory HG_Prelude
  imports Main "HOL-Library.Word" "HOL-Library.Multiset"
begin

text \<open>
  Shared vocabulary of the development: the fixed-width integer types of
  \<^verbatim>\<open>Define.h\<close>, computations that may throw (an exception leaves the object in the
  state it had when the exception was raised), and the two ordered containers of the C++
  standard library that several components use (\<^verbatim>\<open>std::multimap\<close> and
  \<^verbatim>\<open>std::map\<close>, both as association lists in key order), with their laws.
\<close>

unbundle bit_operations_syntax

section \<open>Integer types\<close>

type_synonym uint8 = "8 word"
type_synonym uint16 = "16 word"
type_synonym uint32 = "32 word"
type_synonym uint64 = "64 word"
type_synonym int32 = "32 word"

text \<open>
  Sizes and positions (\<^verbatim>\<open>size_t\<close>) are natural numbers below
  \<open>2 ^ 64\<close>; a sum that the code computes in \<^verbatim>\<open>size_t\<close> is wrapped with
  \<open>sz\<close>.
\<close>

definition sz :: "nat \<Rightarrow> nat" where
  "sz n = n mod 2 ^ 64"

lemma sz_id [simp]: "n < 2 ^ 64 \<Longrightarrow> sz n = n"
  by (simp add: sz_def)

lemma sz_less [simp]: "sz n < 2 ^ 64"
  by (simp add: sz_def)

lemma sz_diff:
  assumes "b \<le> a" and "a < 2 ^ 64"
  shows "sz (a + 2 ^ 64 - b) = a - b"
proof -
  have "a + 2 ^ 64 - b = (a - b) + 2 ^ 64" using assms(1) by simp
  moreover have "a - b < 2 ^ 64" using assms(2) by simp
  ultimately show ?thesis by (simp only: sz_def mod_add_self2 mod_less)
qed

section \<open>Computations with exceptions\<close>

type_synonym ('e, 'a, 's) eff = "'s \<Rightarrow> ('e + 'a) \<times> 's"

definition ret :: "'a \<Rightarrow> ('e, 'a, 's) eff" where
  "ret x s = (Inr x, s)"

definition throw :: "'e \<Rightarrow> ('e, 'a, 's) eff" where
  "throw e s = (Inl e, s)"

definition bindE :: "('e, 'a, 's) eff \<Rightarrow> ('a \<Rightarrow> ('e, 'b, 's) eff) \<Rightarrow> ('e, 'b, 's) eff" where
  "bindE m f s = (case m s of (Inl e, s') \<Rightarrow> (Inl e, s') | (Inr x, s') \<Rightarrow> f x s')"

definition getE :: "('s \<Rightarrow> 'a) \<Rightarrow> ('e, 'a, 's) eff" where
  "getE f s = (Inr (f s), s)"

definition modE :: "('s \<Rightarrow> 's) \<Rightarrow> ('e, unit, 's) eff" where
  "modE f s = (Inr (), f s)"

lemma getE_apply [simp]: "getE f s = (Inr (f s), s)"
  by (simp add: getE_def)

lemma modE_apply [simp]: "modE f s = (Inr (), f s)"
  by (simp add: modE_def)

lemma ret_apply [simp]: "ret x s = (Inr x, s)"
  by (simp add: ret_def)

lemma throw_apply [simp]: "throw e s = (Inl e, s)"
  by (simp add: throw_def)

lemma bindE_ok: "m s = (Inr x, s') \<Longrightarrow> bindE m f s = f x s'"
  by (simp add: bindE_def)

lemma bindE_err: "m s = (Inl e, s') \<Longrightarrow> bindE m f s = (Inl e, s')"
  by (simp add: bindE_def)

lemma bindE_cases:
  assumes "bindE m f s = r"
  obtains (err) e s' where "m s = (Inl e, s')" "r = (Inl e, s')"
    | (ok) x s' where "m s = (Inr x, s')" "f x s' = r"
  using assms by (auto simp: bindE_def split: prod.splits sum.splits)

lemma bindE_assoc: "bindE (bindE m f) g = bindE m (\<lambda>x. bindE (f x) g)"
  by (rule ext) (simp add: bindE_def split: prod.split sum.split)

fun forE :: "('a \<Rightarrow> ('e, unit, 's) eff) \<Rightarrow> 'a list \<Rightarrow> ('e, unit, 's) eff" where
  "forE f [] = ret ()"
| "forE f (x # xs) = bindE (f x) (\<lambda>_. forE f xs)"

text \<open>
  Conditions that a computation keeps, whether it returns or throws. The rules for the
  combinators are collected in \<open>keeps_rules\<close>; a component adds those of its operations.
\<close>

definition keeps :: "('s \<Rightarrow> bool) \<Rightarrow> ('e, 'a, 's) eff \<Rightarrow> bool" where
  "keeps I m \<longleftrightarrow> (\<forall>s. I s \<longrightarrow> I (snd (m s)))"

named_theorems keeps_rules

lemma keepsI: "(\<And>s. I s \<Longrightarrow> I (snd (m s))) \<Longrightarrow> keeps I m"
  by (simp add: keeps_def)

lemma keepsD: "keeps I m \<Longrightarrow> I s \<Longrightarrow> I (snd (m s))"
  by (simp add: keeps_def)

lemma keeps_ret [keeps_rules]: "keeps I (ret x)"
  by (simp add: keeps_def)

lemma keeps_throw [keeps_rules]: "keeps I (throw e)"
  by (simp add: keeps_def)

lemma keeps_getE [keeps_rules]: "keeps I (getE f)"
  by (simp add: keeps_def)

lemma keeps_bindE [keeps_rules]:
  "keeps I m \<Longrightarrow> (\<And>x. keeps I (f x)) \<Longrightarrow> keeps I (bindE m f)"
  by (fastforce simp: keeps_def bindE_def split: prod.split sum.split)

lemma keeps_forE [keeps_rules]: "(\<And>x. keeps I (f x)) \<Longrightarrow> keeps I (forE f xs)"
  by (induction xs) (simp_all add: keeps_ret keeps_bindE)

lemma keeps_if [keeps_rules]: "(b \<Longrightarrow> keeps I m) \<Longrightarrow> (\<not> b \<Longrightarrow> keeps I m') \<Longrightarrow> keeps I (if b then m else m')"
  by simp

text \<open>A computation that looks at the state first is applied to a state in its definition.\<close>

lemma keeps_state: "(\<And>s. keeps I (f s)) \<Longrightarrow> keeps I (\<lambda>s. f s s)"
  by (simp add: keeps_def)

section \<open>Ordered containers\<close>

text \<open>
  \<^verbatim>\<open>std::multimap::insert\<close> places a pair behind every pair with an equal key
  (C++11, 23.4.5.4), so equal keys are visited in insertion order.
\<close>

type_synonym ('k, 'v) multimap = "('k \<times> 'v) list"

fun mm_insert :: "'k::linorder \<Rightarrow> 'v \<Rightarrow> ('k, 'v) multimap \<Rightarrow> ('k, 'v) multimap" where
  "mm_insert k v [] = [(k, v)]"
| "mm_insert k v ((k', v') # m) =
     (if k < k' then (k, v) # (k', v') # m else (k', v') # mm_insert k v m)"

definition mm_sorted :: "('k::linorder, 'v) multimap \<Rightarrow> bool" where
  "mm_sorted m \<longleftrightarrow> sorted (map fst m)"

lemma mm_insert_not_Nil [simp]: "mm_insert k v m \<noteq> []"
  by (induction k v m rule: mm_insert.induct) auto

lemma set_mm_insert [simp]: "set (mm_insert k v m) = insert (k, v) (set m)"
  by (induction k v m rule: mm_insert.induct) auto

lemma mset_mm_insert [simp]: "mset (mm_insert k v m) = add_mset (k, v) (mset m)"
  by (induction k v m rule: mm_insert.induct) auto

lemma mm_sorted_Nil [simp]: "mm_sorted []"
  by (simp add: mm_sorted_def)

lemma mm_sorted_insert [simp]: "mm_sorted m \<Longrightarrow> mm_sorted (mm_insert k v m)"
  unfolding mm_sorted_def
  by (induction k v m rule: mm_insert.induct) (auto simp: less_imp_le dest: order_trans)

lemma mm_sorted_tl: "mm_sorted (p # m) \<Longrightarrow> mm_sorted m"
  by (simp add: mm_sorted_def)

lemma mm_sorted_hd: "mm_sorted (p # m) \<Longrightarrow> q \<in> set m \<Longrightarrow> fst p \<le> fst q"
  by (auto simp: mm_sorted_def)

lemma mm_sorted_filter: "mm_sorted m \<Longrightarrow> mm_sorted (filter P m)"
  unfolding mm_sorted_def by (induction m) auto

lemma mm_insert_fifo:
  "mm_sorted m \<Longrightarrow>
   filter (\<lambda>p. fst p = k) (mm_insert k v m) = filter (\<lambda>p. fst p = k) m @ [(k, v)]"
proof (induction k v m rule: mm_insert.induct)
  case (1 k v)
  then show ?case by simp
next
  case (2 k v k' v' m)
  show ?case
  proof (cases "k < k'")
    case True
    with 2(2) have "filter (\<lambda>p. fst p = k) ((k', v') # m) = []"
      by (auto simp: mm_sorted_def filter_empty_conv)
    with True show ?thesis by simp
  next
    case False
    with 2 show ?thesis by (auto dest: mm_sorted_tl)
  qed
qed

end
