(* ===== verification/Byte_Buffer.thy ===== *)
theory Byte_Buffer
  imports HG_Prelude
begin

text \<open>
  \<^verbatim>\<open>ByteBuffer\<close> (src/Core/src/server/shared/Packets/ByteBuffer.h): the growable byte
  array with a read and a write position in which every packet is built and parsed.
  Values are written in little-endian order whatever the byte order of the host
  (\<^verbatim>\<open>ByteConverter.h\<close>).
\<close>

section \<open>State and errors\<close>

record bytebuffer =
  bb_rpos :: nat
  bb_wpos :: nat
  bb_storage :: "uint8 list"

text \<open>
  The exceptions of the class, the failing \<^verbatim>\<open>ASSERT\<close>, and reading or writing the
  vector past its end, which C++ leaves undefined.
\<close>

datatype bb_error =
    ByteBufferException
  | ByteBufferPositionException bool nat nat nat
  | ByteBufferSourceException nat nat nat
  | AssertionFailed
  | UndefinedBehaviour

type_synonym 'a bbop = "(bb_error, 'a, bytebuffer) eff"

abbreviation bb_size :: "bytebuffer \<Rightarrow> nat" where
  "bb_size b \<equiv> length (bb_storage b)"

definition bb_new :: bytebuffer where
  "bb_new = \<lparr>bb_rpos = 0, bb_wpos = 0, bb_storage = []\<rparr>"

definition bb_clear :: "bytebuffer \<Rightarrow> bytebuffer" where
  "bb_clear b = b\<lparr>bb_storage := [], bb_rpos := 0, bb_wpos := 0\<rparr>"

definition bb_empty :: "bytebuffer \<Rightarrow> bool" where
  "bb_empty b \<longleftrightarrow> bb_storage b = []"

definition bb_set_rpos :: "nat \<Rightarrow> bytebuffer \<Rightarrow> bytebuffer" where
  "bb_set_rpos p b = b\<lparr>bb_rpos := sz p\<rparr>"

definition bb_set_wpos :: "nat \<Rightarrow> bytebuffer \<Rightarrow> bytebuffer" where
  "bb_set_wpos p b = b\<lparr>bb_wpos := sz p\<rparr>"

definition bb_rfinish :: "bytebuffer \<Rightarrow> bytebuffer" where
  "bb_rfinish b = b\<lparr>bb_rpos := bb_wpos b\<rparr>"

text \<open>\<^verbatim>\<open>std::vector::resize(n, 0)\<close>: truncate, or pad with zero bytes.\<close>

definition vec_resize :: "nat \<Rightarrow> uint8 list \<Rightarrow> uint8 list" where
  "vec_resize n xs = take n xs @ replicate (n - length xs) 0"

lemma length_vec_resize [simp]: "length (vec_resize n xs) = n"
  by (simp add: vec_resize_def min_def)

definition bb_resize :: "nat \<Rightarrow> bytebuffer \<Rightarrow> bytebuffer" where
  "bb_resize n b = b\<lparr>bb_storage := vec_resize n (bb_storage b), bb_rpos := 0, bb_wpos := n\<rparr>"

section \<open>Byte order\<close>

text \<open>
  The bytes of a value of \<open>n\<close> bytes, least significant first, and the memory image
  of the value on a little-endian or a big-endian host.
\<close>

fun le_bytes :: "nat \<Rightarrow> 'a::len word \<Rightarrow> uint8 list" where
  "le_bytes 0 w = []"
| "le_bytes (Suc n) w = ucast w # le_bytes n (drop_bit 8 w)"

fun word_of_le :: "uint8 list \<Rightarrow> 'a::len word" where
  "word_of_le [] = 0"
| "word_of_le (x # xs) = ucast x OR push_bit 8 (word_of_le xs)"

definition mem_image :: "bool \<Rightarrow> nat \<Rightarrow> 'a::len word \<Rightarrow> uint8 list" where
  "mem_image big n w = (if big then rev (le_bytes n w) else le_bytes n w)"

definition of_mem_image :: "bool \<Rightarrow> uint8 list \<Rightarrow> 'a::len word" where
  "of_mem_image big xs = word_of_le (if big then rev xs else xs)"

text \<open>\<^verbatim>\<open>ByteConverter::convert<T>\<close>: swap the outer bytes and recurse inwards.\<close>

function bc_convert :: "uint8 list \<Rightarrow> uint8 list" where
  "bc_convert xs =
     (if length xs < 2 then xs
      else last xs # bc_convert (butlast (tl xs)) @ [hd xs])"
  by pat_completeness auto
termination
  by (relation "measure length") auto

declare bc_convert.simps [simp del]

definition EndianConvert :: "bool \<Rightarrow> uint8 list \<Rightarrow> uint8 list" where
  "EndianConvert big xs = (if big then bc_convert xs else xs)"

section \<open>Raw writes\<close>

text \<open>
  \<^verbatim>\<open>std::memcpy(&_storage[pos], src, cnt)\<close> when \<open>pos + cnt\<close> is within the
  vector.
\<close>

definition vec_write :: "nat \<Rightarrow> uint8 list \<Rightarrow> uint8 list \<Rightarrow> uint8 list" where
  "vec_write pos src xs = take pos xs @ src @ drop (pos + length src) xs"

text \<open>
  \<^verbatim>\<open>append(const uint8*, size_t)\<close>; the source is \<open>None\<close> for a null pointer and
  otherwise the \<open>cnt\<close> bytes it points to.
\<close>

definition bb_append_raw :: "uint8 list option \<Rightarrow> nat \<Rightarrow> unit bbop" where
  "bb_append_raw src cnt b =
     (if cnt = 0 then throw (ByteBufferSourceException (bb_wpos b) (bb_size b) cnt) b
      else case src of
        None \<Rightarrow> throw (ByteBufferSourceException (bb_wpos b) (bb_size b) cnt) b
      | Some bs \<Rightarrow>
          if \<not> bb_size b < 10000000 then throw AssertionFailed b
          else
            let b1 = (if bb_size b < sz (bb_wpos b + cnt)
                      then b\<lparr>bb_storage := vec_resize (sz (bb_wpos b + cnt)) (bb_storage b)\<rparr>
                      else b)
            in if bb_size b1 < bb_wpos b + cnt then throw UndefinedBehaviour b1
               else ret () (b1\<lparr>bb_storage := vec_write (bb_wpos b) bs (bb_storage b1),
                              bb_wpos := sz (bb_wpos b + cnt)\<rparr>))"

definition bb_append_bytes :: "uint8 list \<Rightarrow> unit bbop" where
  "bb_append_bytes bs = bb_append_raw (Some bs) (length bs)"

definition bb_put_raw :: "nat \<Rightarrow> uint8 list option \<Rightarrow> nat \<Rightarrow> unit bbop" where
  "bb_put_raw pos src cnt b =
     (if sz (pos + cnt) > bb_size b
      then throw (ByteBufferPositionException True pos cnt (bb_size b)) b
      else case src of
        None \<Rightarrow> throw (ByteBufferSourceException (bb_wpos b) (bb_size b) cnt) b
      | Some bs \<Rightarrow>
          if pos + cnt > bb_size b then throw UndefinedBehaviour b
          else ret () (b\<lparr>bb_storage := vec_write pos bs (bb_storage b)\<rparr>))"

section \<open>Typed writes\<close>

definition bb_append :: "bool \<Rightarrow> 'a::len word \<Rightarrow> unit bbop" where
  "bb_append big w =
     bb_append_bytes (EndianConvert big (mem_image big (LENGTH('a) div 8) w))"

definition bb_put :: "bool \<Rightarrow> nat \<Rightarrow> 'a::len word \<Rightarrow> unit bbop" where
  "bb_put big pos w =
     bb_put_raw pos (Some (EndianConvert big (mem_image big (LENGTH('a) div 8) w)))
       (LENGTH('a) div 8)"

text \<open>\<^verbatim>\<open>operator<<\<close> of the integer and floating-point types (the latter as bit images)\<close>

definition bb_shl :: "bool \<Rightarrow> 'a::len word \<Rightarrow> unit bbop" where
  [simp]: "bb_shl big value = bb_append big value"

text \<open>\<^verbatim>\<open>operator<<(const std::string&)\<close>: the characters, then a zero byte.\<close>

definition bb_put_string :: "bool \<Rightarrow> uint8 list \<Rightarrow> unit bbop" where
  "bb_put_string big s =
     bindE (if s = [] then ret () else bb_append_bytes s)
       (\<lambda>_. bb_append big (0 :: uint8))"

text \<open>
  \<^verbatim>\<open>operator<<(const char*)\<close>: a null pointer is written as the empty string,
  otherwise the bytes before the terminator.
\<close>

definition bb_put_cstr :: "bool \<Rightarrow> uint8 list option \<Rightarrow> unit bbop" where
  "bb_put_cstr big s =
     (let bs = (case s of None \<Rightarrow> [] | Some cs \<Rightarrow> takeWhile (\<lambda>c. c \<noteq> 0) cs)
      in bindE (if bs = [] then ret () else bb_append_bytes bs)
           (\<lambda>_. bb_append big (0 :: uint8)))"

definition bb_contents :: "bytebuffer \<Rightarrow> bb_error + uint8 list" where
  "bb_contents b = (if bb_storage b = [] then Inl ByteBufferException else Inr (bb_storage b))"

text \<open>
  \<^verbatim>\<open>append(const ByteBuffer&)\<close>: the first \<^verbatim>\<open>wpos\<close> bytes of the other
  buffer; reading past its end is undefined.
\<close>

definition bb_append_buffer :: "bytebuffer \<Rightarrow> unit bbop" where
  "bb_append_buffer other b =
     (if bb_wpos other = 0 then ret () b
      else case bb_contents other of
        Inl e \<Rightarrow> throw e b
      | Inr bs \<Rightarrow>
          if bb_wpos other > length bs then throw UndefinedBehaviour b
          else bb_append_raw (Some (take (bb_wpos other) bs)) (bb_wpos other) b)"

section \<open>Reads\<close>

definition bb_index :: "nat \<Rightarrow> bytebuffer \<Rightarrow> bb_error + uint8" where
  "bb_index pos b =
     (if pos \<ge> bb_size b then Inl (ByteBufferPositionException False pos 1 (bb_size b))
      else Inr (bb_storage b ! pos))"

definition bb_read_skip :: "nat \<Rightarrow> unit bbop" where
  "bb_read_skip skip b =
     (if sz (bb_rpos b + skip) > bb_size b
      then throw (ByteBufferPositionException False (bb_rpos b) skip (bb_size b)) b
      else ret () (b\<lparr>bb_rpos := sz (bb_rpos b + skip)\<rparr>))"

text \<open>\<^verbatim>\<open>T read(size_t pos) const\<close>\<close>

definition bb_read_at :: "bool \<Rightarrow> nat \<Rightarrow> bytebuffer \<Rightarrow> bb_error + 'a::len word" where
  "bb_read_at big pos b =
     (let n = LENGTH('a) div 8 in
      if sz (pos + n) > bb_size b
      then Inl (ByteBufferPositionException False pos n (bb_size b))
      else if pos + n > bb_size b then Inl UndefinedBehaviour
      else Inr (of_mem_image big (EndianConvert big (take n (drop pos (bb_storage b))))))"

definition bb_read :: "bool \<Rightarrow> 'a::len word bbop" where
  "bb_read big b =
     (case bb_read_at big (bb_rpos b) b of
        Inl e \<Rightarrow> throw e b
      | Inr r \<Rightarrow> ret r (b\<lparr>bb_rpos := sz (bb_rpos b + LENGTH('a) div 8)\<rparr>))"

text \<open>\<^verbatim>\<open>operator>>\<close> of the integer types\<close>

definition bb_shr :: "bool \<Rightarrow> 'a::len word bbop" where
  [simp]: "bb_shr big = bb_read big"

text \<open>\<^verbatim>\<open>void read(uint8* dest, size_t len)\<close>\<close>

definition bb_read_bytes :: "nat \<Rightarrow> uint8 list bbop" where
  "bb_read_bytes len b =
     (if sz (bb_rpos b + len) > bb_size b
      then throw (ByteBufferPositionException False (bb_rpos b) len (bb_size b)) b
      else if bb_rpos b + len > bb_size b then throw UndefinedBehaviour b
      else ret (take len (drop (bb_rpos b) (bb_storage b)))
             (b\<lparr>bb_rpos := sz (bb_rpos b + len)\<rparr>))"

text \<open>
  \<^verbatim>\<open>operator>>(bool&)\<close>: the byte is read as a (signed) \<^verbatim>\<open>char\<close> and compared
  with zero.
\<close>

definition bb_get_bool :: "bool \<Rightarrow> bool bbop" where
  "bb_get_bool big =
     bindE (bb_read big :: uint8 bbop) (\<lambda>c. ret (sint c > 0))"

text \<open>
  \<^verbatim>\<open>operator>>(float&)\<close> and \<^verbatim>\<open>operator>>(double&)\<close>, on the IEEE 754 bit
  pattern: a value whose exponent bits are all ones is not finite. The position has
  advanced when the exception is thrown.
\<close>

definition isfinite_float :: "uint32 \<Rightarrow> bool" where
  "isfinite_float w \<longleftrightarrow> w AND 0x7F800000 \<noteq> 0x7F800000"

definition isfinite_double :: "uint64 \<Rightarrow> bool" where
  "isfinite_double w \<longleftrightarrow> w AND 0x7FF0000000000000 \<noteq> 0x7FF0000000000000"

definition bb_get_float :: "bool \<Rightarrow> uint32 bbop" where
  "bb_get_float big =
     bindE (bb_read big :: uint32 bbop)
       (\<lambda>v. if \<not> isfinite_float v then throw ByteBufferException else ret v)"

definition bb_get_double :: "bool \<Rightarrow> uint64 bbop" where
  "bb_get_double big =
     bindE (bb_read big :: uint64 bbop)
       (\<lambda>v. if \<not> isfinite_double v then throw ByteBufferException else ret v)"

text \<open>
  \<^verbatim>\<open>operator>>(std::string&)\<close>: read characters while the read position is inside
  the buffer and the character is not zero. The bound is the number of bytes left, and
  one read advances the position by one, so the loop stops.
\<close>

function bb_get_string_loop :: "bool \<Rightarrow> uint8 list \<Rightarrow> uint8 list bbop" where
  "bb_get_string_loop big acc b =
     (if bb_rpos b < bb_size b \<and> bb_size b < 2 ^ 64
      then case (bb_read big :: uint8 bbop) b of
             (Inl e, b') \<Rightarrow> (Inl e, b')
           | (Inr c, b') \<Rightarrow>
               if c = 0 then ret acc b' else bb_get_string_loop big (acc @ [c]) b'
      else ret acc b)"
  by pat_completeness auto
termination
  by (relation "measure (\<lambda>(big, acc, b). bb_size b - bb_rpos b)")
     (auto simp: bb_read_def split: sum.splits)

declare bb_get_string_loop.simps [simp del]

definition bb_get_string :: "bool \<Rightarrow> uint8 list bbop" where
  "bb_get_string big = bb_get_string_loop big []"


section \<open>Packed values\<close>

text \<open>
  \<^verbatim>\<open>readPackGUID\<close>: a mark byte says which of the eight bytes of the identifier
  follow. The loop body for the indices \<open>i, i + 1, \<dots>, 7\<close>.
\<close>

fun bb_readPackGUID_loop :: "bool \<Rightarrow> uint8 \<Rightarrow> nat list \<Rightarrow> uint64 \<Rightarrow> uint64 bbop" where
  "bb_readPackGUID_loop big guidmark [] guid = ret guid"
| "bb_readPackGUID_loop big guidmark (i # is) guid =
     (if guidmark AND push_bit i 1 \<noteq> 0
      then \<lambda>b.
        if sz (bb_rpos b + 1) > bb_size b
        then throw (ByteBufferPositionException False (bb_rpos b) 1 (bb_size b)) b
        else bindE (bb_read big :: uint8 bbop)
               (\<lambda>bt. bb_readPackGUID_loop big guidmark is (guid OR push_bit (i * 8) (ucast bt))) b
      else bb_readPackGUID_loop big guidmark is guid)"

definition bb_readPackGUID :: "bool \<Rightarrow> uint64 bbop" where
  "bb_readPackGUID big b =
     (if sz (bb_rpos b + 1) > bb_size b
      then throw (ByteBufferPositionException False (bb_rpos b) 1 (bb_size b)) b
      else bindE (bb_read big :: uint8 bbop)
             (\<lambda>guidmark. bb_readPackGUID_loop big guidmark [0..<8] 0) b)"

lemma unat_drop_bit_8_less:
  fixes w :: "'a::len word"
  shows "w \<noteq> 0 \<Longrightarrow> unat (drop_bit 8 w) < unat w"
  by (subst unat_drop_bit_eq) (simp add: drop_bit_eq_div unat_gt_0)

text \<open>
  \<^verbatim>\<open>appendPackGUID\<close>: the loop runs while the shifted identifier is not zero, so at
  most eight times; it collects the mark and the bytes that are not zero.
\<close>

function bb_packGUID_loop :: "nat \<Rightarrow> uint64 \<Rightarrow> uint8 \<Rightarrow> uint8 list \<Rightarrow> uint8 \<times> uint8 list" where
  "bb_packGUID_loop i guid mark bytes =
     (if guid = 0 then (mark, bytes)
      else if guid AND 0xFF \<noteq> 0
      then bb_packGUID_loop (Suc i) (drop_bit 8 guid)
             (mark OR push_bit i 1) (bytes @ [ucast (guid AND 0xFF)])
      else bb_packGUID_loop (Suc i) (drop_bit 8 guid) mark bytes)"
  by pat_completeness auto
termination
  by (relation "measure (\<lambda>(i, guid, mark, bytes). unat guid)")
     (auto simp: unat_drop_bit_8_less)

declare bb_packGUID_loop.simps [simp del]

definition packGUID :: "uint64 \<Rightarrow> uint8 list" where
  "packGUID guid = (case bb_packGUID_loop 0 guid 0 [] of (mark, bytes) \<Rightarrow> mark # bytes)"

definition bb_appendPackGUID :: "uint64 \<Rightarrow> unit bbop" where
  "bb_appendPackGUID guid = bb_append_bytes (packGUID guid)"

text \<open>
  Packed dates. The calendar functions of the C library are parameters
  (\<open>localtime\<close>, \<open>mktime\<close> and the \<open>timezone\<close> offset); the packing is
  computed on \<^verbatim>\<open>int\<close> and converted to \<^verbatim>\<open>uint32\<close>.
\<close>

record tm =
  tm_min :: int
  tm_hour :: int
  tm_mday :: int
  tm_mon :: int
  tm_year :: int
  tm_wday :: int

definition pack_tm :: "tm \<Rightarrow> uint32" where
  "pack_tm lt = word_of_int
     (push_bit 24 (tm_year lt - 100) OR push_bit 20 (tm_mon lt) OR push_bit 14 (tm_mday lt - 1)
      OR push_bit 11 (tm_wday lt) OR push_bit 6 (tm_hour lt) OR tm_min lt)"

definition unpack_tm :: "uint32 \<Rightarrow> tm" where
  "unpack_tm packedDate =
     \<lparr>tm_min = uint (packedDate AND 0x3F),
      tm_hour = uint (drop_bit 6 packedDate AND 0x1F),
      tm_mday = uint (drop_bit 14 packedDate AND 0x3F) + 1,
      tm_mon = uint (drop_bit 20 packedDate AND 0xF),
      tm_year = uint (drop_bit 24 packedDate AND 0x1F) + 100,
      tm_wday = 0\<rparr>"

definition bb_AppendPackedTime :: "(int \<Rightarrow> tm) \<Rightarrow> bool \<Rightarrow> int \<Rightarrow> unit bbop" where
  "bb_AppendPackedTime localtime big time = bb_append big (pack_tm (localtime time))"

definition bb_ReadPackedTime :: "(tm \<Rightarrow> int) \<Rightarrow> int \<Rightarrow> bool \<Rightarrow> uint32 bbop" where
  "bb_ReadPackedTime mktime timezone big =
     bindE (bb_read big :: uint32 bbop)
       (\<lambda>packedDate. ret (word_of_int (mktime (unpack_tm packedDate) + timezone)))"

section \<open>Containers\<close>

text \<open>
  The \<^verbatim>\<open>operator<<\<close> and \<^verbatim>\<open>operator>>\<close> templates for \<^verbatim>\<open>std::vector\<close>,
  \<^verbatim>\<open>std::list\<close> and \<^verbatim>\<open>std::map\<close>: a 32-bit count and then the elements, written
  and read with the element's own operators.
\<close>

definition bb_put_vector :: "bool \<Rightarrow> ('a \<Rightarrow> unit bbop) \<Rightarrow> 'a list \<Rightarrow> unit bbop" where
  "bb_put_vector big put v =
     bindE (bb_append big (of_nat (length v) :: uint32)) (\<lambda>_. forE put v)"

fun bb_get_n :: "'a bbop \<Rightarrow> nat \<Rightarrow> 'a list \<Rightarrow> 'a list bbop" where
  "bb_get_n get 0 acc = ret acc"
| "bb_get_n get (Suc n) acc = bindE get (\<lambda>t. bb_get_n get n (acc @ [t]))"

definition bb_get_vector :: "bool \<Rightarrow> 'a bbop \<Rightarrow> 'a list bbop" where
  "bb_get_vector big get =
     bindE (bb_read big :: uint32 bbop) (\<lambda>vsize. bb_get_n get (unat vsize) [])"

text \<open>
  A \<^verbatim>\<open>std::map\<close> is its list of pairs in key order; \<^verbatim>\<open>map::insert\<close> does not
  replace the value of a key that is present.
\<close>

definition bb_put_pair :: "('k \<Rightarrow> unit bbop) \<Rightarrow> ('v \<Rightarrow> unit bbop) \<Rightarrow> 'k \<times> 'v \<Rightarrow> unit bbop" where
  "bb_put_pair putk putv p = bindE (putk (fst p)) (\<lambda>_. putv (snd p))"

definition bb_get_pair :: "'k bbop \<Rightarrow> 'v bbop \<Rightarrow> ('k \<times> 'v) bbop" where
  "bb_get_pair getk getv = bindE getk (\<lambda>k. bindE getv (\<lambda>v. ret (k, v)))"

definition bb_put_map ::
  "bool \<Rightarrow> ('k \<Rightarrow> unit bbop) \<Rightarrow> ('v \<Rightarrow> unit bbop) \<Rightarrow> ('k \<times> 'v) list \<Rightarrow> unit bbop" where
  "bb_put_map big putk putv m =
     bindE (bb_append big (of_nat (length m) :: uint32)) (\<lambda>_. forE (bb_put_pair putk putv) m)"

fun std_map_insert :: "'k::linorder \<Rightarrow> 'v \<Rightarrow> ('k \<times> 'v) list \<Rightarrow> ('k \<times> 'v) list" where
  "std_map_insert k v [] = [(k, v)]"
| "std_map_insert k v ((k', v') # m) =
     (if k < k' then (k, v) # (k', v') # m
      else if k = k' then (k', v') # m
      else (k', v') # std_map_insert k v m)"

fun bb_get_map_n :: "'k::linorder bbop \<Rightarrow> 'v bbop \<Rightarrow> nat \<Rightarrow> ('k \<times> 'v) list \<Rightarrow> ('k \<times> 'v) list bbop" where
  "bb_get_map_n getk getv 0 m = ret m"
| "bb_get_map_n getk getv (Suc n) m =
     bindE (bb_get_pair getk getv)
       (\<lambda>p. bb_get_map_n getk getv n (std_map_insert (fst p) (snd p) m))"

definition bb_get_map :: "bool \<Rightarrow> 'k::linorder bbop \<Rightarrow> 'v bbop \<Rightarrow> ('k \<times> 'v) list bbop" where
  "bb_get_map big getk getv =
     bindE (bb_read big :: uint32 bbop) (\<lambda>msize. bb_get_map_n getk getv (unat msize) [])"

section \<open>Byte order lemmas\<close>

lemma length_le_bytes [simp]: "length (le_bytes n w) = n"
  by (induction n w rule: le_bytes.induct) auto

lemma word_of_le_bytes: "word_of_le (le_bytes n (w :: 'a::len word)) = take_bit (8 * n) w"
proof (induction n w rule: le_bytes.induct)
  case (1 w)
  then show ?case by simp
next
  case (2 n w)
  show ?case
    unfolding le_bytes.simps word_of_le.simps 2
    by (rule bit_word_eqI) (auto simp: bit_simps)
qed

lemma bc_convert_rev: "bc_convert xs = rev xs"
proof (induction xs rule: bc_convert.induct)
  case (1 xs)
  show ?case
  proof (cases "length xs < 2")
    case True
    then have "rev xs = xs"
      by (cases xs) (auto simp: less_Suc_eq numeral_2_eq_2)
    with True show ?thesis by (simp add: bc_convert.simps)
  next
    case False
    then obtain a ys z where "xs = a # ys @ [z]"
      by (metis One_nat_def Suc_1 append_butlast_last_id length_0_conv length_Suc_conv
            less_2_cases_iff list.exhaust)
    with 1 False show ?thesis by (subst bc_convert.simps) simp
  qed
qed

lemma EndianConvert_mem_image [simp]: "EndianConvert big (mem_image big n w) = le_bytes n w"
  by (simp add: EndianConvert_def mem_image_def bc_convert_rev)

lemma of_mem_image_EndianConvert [simp]:
  "of_mem_image big (EndianConvert big xs) = word_of_le xs"
  by (simp add: EndianConvert_def of_mem_image_def bc_convert_rev)

lemma word_of_le_bytes_full:
  "8 dvd LENGTH('a) \<Longrightarrow>
   word_of_le (le_bytes (LENGTH('a) div 8) (w :: 'a::len word)) = w"
  by (simp add: word_of_le_bytes take_bit_word_eq_self)

section \<open>Writing at the end and reading inside the buffer\<close>

text \<open>
  The buffer of a packet under construction has its write position at its end; \<open>bb_room b n\<close>
  says that \<open>n\<close> more bytes stay below the size the \<^verbatim>\<open>ASSERT\<close> allows.
  \<open>bb_at b bs\<close> says that the next bytes to be read are \<open>bs\<close>.
\<close>

definition bb_room :: "bytebuffer \<Rightarrow> nat \<Rightarrow> bool" where
  "bb_room b n \<longleftrightarrow> bb_wpos b = bb_size b \<and> bb_size b + n \<le> 10000000"

definition bb_at :: "bytebuffer \<Rightarrow> uint8 list \<Rightarrow> bool" where
  "bb_at b bs \<longleftrightarrow> bb_size b < 2 ^ 63 \<and> bb_rpos b + length bs \<le> bb_size b
     \<and> take (length bs) (drop (bb_rpos b) (bb_storage b)) = bs"

definition bb_extend :: "uint8 list \<Rightarrow> bytebuffer \<Rightarrow> bytebuffer" where
  "bb_extend bs b = b\<lparr>bb_storage := bb_storage b @ bs, bb_wpos := bb_wpos b + length bs\<rparr>"

definition bb_advance :: "nat \<Rightarrow> bytebuffer \<Rightarrow> bytebuffer" where
  "bb_advance n b = b\<lparr>bb_rpos := bb_rpos b + n\<rparr>"

lemma bb_extend_simps [simp]:
  "bb_storage (bb_extend bs b) = bb_storage b @ bs"
  "bb_wpos (bb_extend bs b) = bb_wpos b + length bs"
  "bb_rpos (bb_extend bs b) = bb_rpos b"
  "bb_extend [] b = b"
  by (simp_all add: bb_extend_def)

lemma bb_extend_extend [simp]: "bb_extend ys (bb_extend xs b) = bb_extend (xs @ ys) b"
  by (simp add: bb_extend_def)

lemma bb_advance_simps [simp]:
  "bb_storage (bb_advance n b) = bb_storage b"
  "bb_wpos (bb_advance n b) = bb_wpos b"
  "bb_rpos (bb_advance n b) = bb_rpos b + n"
  "bb_advance 0 b = b"
  by (simp_all add: bb_advance_def)

lemma bb_advance_advance [simp]: "bb_advance m (bb_advance n b) = bb_advance (n + m) b"
  by (simp add: bb_advance_def add.assoc)

lemma bb_room_append:
  "bb_room b (length xs + n) \<longleftrightarrow> bb_room b (length xs) \<and> bb_room (bb_extend xs b) n"
  by (auto simp: bb_room_def)

lemma bb_room_mono: "bb_room b n \<Longrightarrow> m \<le> n \<Longrightarrow> bb_room b m"
  by (simp add: bb_room_def)

lemma bb_at_append:
  "bb_at b (xs @ ys) \<longleftrightarrow> bb_at b xs \<and> bb_at (bb_advance (length xs) b) ys"
  by (auto simp: bb_at_def take_add add.commute [of "length xs" "bb_rpos b"])

lemma bb_append_bytes_end:
  assumes "bs \<noteq> []" and "bb_room b (length bs)"
  shows "bb_append_bytes bs b = (Inr (), bb_extend bs b)"
proof -
  from assms have "0 < length bs" and r: "bb_size b + length bs \<le> 10000000" "bb_wpos b = bb_size b"
    by (auto simp: bb_room_def)
  then have "bb_size b < 10000000" by linarith
  with r assms(1) show ?thesis
    by (simp add: bb_append_bytes_def bb_append_raw_def vec_resize_def vec_write_def
        bb_extend_def Let_def)
qed

lemma bb_append_end:
  assumes "8 \<le> LENGTH('a)" and "bb_room b (LENGTH('a) div 8)"
  shows "bb_append big (w :: 'a::len word) b =
           (Inr (), bb_extend (le_bytes (LENGTH('a) div 8) w) b)"
proof -
  have "le_bytes (LENGTH('a) div 8) w \<noteq> []"
    using assms(1) by (metis div_greater_zero_iff length_0_conv length_le_bytes neq0_conv zero_less_numeral)
  with assms(2) show ?thesis by (simp add: bb_append_def bb_append_bytes_end)
qed

lemma bb_read_at_word:
  assumes "8 dvd LENGTH('a)" and "bb_at b (le_bytes (LENGTH('a) div 8) (w :: 'a::len word))"
  shows "bb_read big b = (Inr w, bb_advance (LENGTH('a) div 8) b)"
  using assms
  by (simp add: bb_read_def bb_read_at_def bb_at_def bb_advance_def word_of_le_bytes_full Let_def)

section \<open>Codecs\<close>

text \<open>
  The contract between a value's \<^verbatim>\<open>operator<<\<close> and its \<^verbatim>\<open>operator>>\<close>: writing a
  value that is \<open>ok\<close> appends its encoding, and reading where that encoding stands
  returns the value and moves the read position behind it. Containers of a codec are
  codecs.
\<close>

locale codec =
  fixes put :: "'a \<Rightarrow> unit bbop"
    and get :: "'a bbop"
    and enc :: "'a \<Rightarrow> uint8 list"
    and ok :: "'a \<Rightarrow> bool"
  assumes put_end: "ok x \<Longrightarrow> bb_room b (length (enc x)) \<Longrightarrow>
      put x b = (Inr (), bb_extend (enc x) b)"
    and get_at: "ok x \<Longrightarrow> bb_at b (enc x) \<Longrightarrow>
      get b = (Inr x, bb_advance (length (enc x)) b)"
begin

lemma round_trip:
  assumes "ok x" and "bb_room b (length (enc x))" and "bb_rpos b = bb_wpos b"
  shows "bindE (put x) (\<lambda>_. get) b =
           (Inr x, bb_advance (length (enc x)) (bb_extend (enc x) b))"
proof -
  from assms(2,3) have "bb_at (bb_extend (enc x) b) (enc x)"
    by (auto simp: bb_room_def bb_at_def)
  with assms(1,2) show ?thesis by (simp add: bindE_ok [OF put_end] get_at)
qed

lemma put_all:
  "\<forall>x \<in> set xs. ok x \<Longrightarrow> bb_room b (length (concat (map enc xs))) \<Longrightarrow>
   forE put xs b = (Inr (), bb_extend (concat (map enc xs)) b)"
proof (induction xs arbitrary: b)
  case Nil
  then show ?case by simp
next
  case (Cons x xs)
  then have "bb_room b (length (enc x))"
    and "bb_room (bb_extend (enc x) b) (length (concat (map enc xs)))"
    by (simp_all add: bb_room_append)
  with Cons show ?case by (simp add: bindE_ok [OF put_end])
qed

lemma get_all:
  "\<forall>x \<in> set xs. ok x \<Longrightarrow> bb_at b (concat (map enc xs)) \<Longrightarrow>
   bb_get_n get (length xs) acc b = (Inr (acc @ xs), bb_advance (length (concat (map enc xs))) b)"
proof (induction xs arbitrary: b acc)
  case Nil
  then show ?case by simp
next
  case (Cons x xs)
  then have "bb_at b (enc x)" and "bb_at (bb_advance (length (enc x)) b) (concat (map enc xs))"
    by (simp_all add: bb_at_append)
  with Cons get_at [of x b] show ?case by (simp add: bindE_ok)
qed

lemma vector_codec:
  "codec (bb_put_vector big put) (bb_get_vector big get)
     (\<lambda>v. le_bytes 4 (of_nat (length v) :: uint32) @ concat (map enc v))
     (\<lambda>v. (\<forall>x \<in> set v. ok x) \<and> length v < 2 ^ 32)"
proof
  fix v :: "'a list" and b :: bytebuffer
  let ?n = "le_bytes 4 (of_nat (length v) :: uint32)"
  assume ok: "(\<forall>x \<in> set v. ok x) \<and> length v < 2 ^ 32"
  {
    assume "bb_room b (length (?n @ concat (map enc v)))"
    then have "bb_room b 4" and "bb_room (bb_extend ?n b) (length (concat (map enc v)))"
      using bb_room_append [of b ?n] by simp_all
    with ok show "bb_put_vector big put v b = (Inr (), bb_extend (?n @ concat (map enc v)) b)"
      by (simp add: bb_put_vector_def bindE_ok [OF bb_append_end] put_all)
  next
    assume "bb_at b (?n @ concat (map enc v))"
    then have "bb_at b ?n" and "bb_at (bb_advance 4 b) (concat (map enc v))"
      by (simp_all add: bb_at_append)
    moreover have "unat (of_nat (length v) :: uint32) = length v"
      using ok by (simp add: unat_of_nat)
    ultimately show "bb_get_vector big get b =
        (Inr v, bb_advance (length (?n @ concat (map enc v))) b)"
      using ok bb_read_at_word [of b "of_nat (length v) :: uint32" big] get_all [of v]
      by (simp add: bb_get_vector_def bindE_ok)
  }
qed

end

interpretation u8: codec "bb_append big :: uint8 \<Rightarrow> unit bbop" "bb_read big" "le_bytes 1" "\<lambda>_. True"
  for big
  by unfold_locales
    (simp_all add: bb_append_end bb_read_at_word [where 'a = 8, simplified])

interpretation u16: codec "bb_append big :: uint16 \<Rightarrow> unit bbop" "bb_read big" "le_bytes 2" "\<lambda>_. True"
  for big
  by unfold_locales
    (simp_all add: bb_append_end bb_read_at_word [where 'a = 16, simplified])

interpretation u32: codec "bb_append big :: uint32 \<Rightarrow> unit bbop" "bb_read big" "le_bytes 4" "\<lambda>_. True"
  for big
  by unfold_locales
    (simp_all add: bb_append_end bb_read_at_word [where 'a = 32, simplified])

interpretation u64: codec "bb_append big :: uint64 \<Rightarrow> unit bbop" "bb_read big" "le_bytes 8" "\<lambda>_. True"
  for big
  by unfold_locales
    (simp_all add: bb_append_end bb_read_at_word [where 'a = 64, simplified])

section \<open>Strings\<close>

lemma bb_get_string_loop_at:
  "0 \<notin> set s \<Longrightarrow> bb_at b (s @ [0]) \<Longrightarrow>
   bb_get_string_loop big acc b = (Inr (acc @ s), bb_advance (length s + 1) b)"
proof (induction s arbitrary: acc b)
  case Nil
  then have at: "bb_at b (le_bytes 1 (0 :: uint8))" by simp
  then have "bb_rpos b < bb_size b \<and> bb_size b < 2 ^ 64" by (auto simp: bb_at_def)
  then show ?case
    using u8.get_at [OF TrueI at, of big] by (subst bb_get_string_loop.simps) simp
next
  case (Cons c s)
  then have at: "bb_at b (le_bytes 1 c)" and rest: "bb_at (bb_advance 1 b) (s @ [0])"
    using bb_at_append [of b "[c]" "s @ [0]"] by simp_all
  then have "bb_rpos b < bb_size b \<and> bb_size b < 2 ^ 64" by (auto simp: bb_at_def)
  then show ?case
    using u8.get_at [OF TrueI at, of big] Cons.IH [OF _ rest] Cons.prems(1)
    by (subst bb_get_string_loop.simps) simp
qed

interpretation str: codec "bb_put_string big" "bb_get_string big" "\<lambda>s. s @ [0]" "\<lambda>s. 0 \<notin> set s"
  for big
proof
  fix s :: "uint8 list" and b
  assume "0 \<notin> set s" and room: "bb_room b (length (s @ [0]))"
  have 0: "le_bytes 1 (0 :: uint8) = [0]" by simp
  show "bb_put_string big s b = (Inr (), bb_extend (s @ [0]) b)"
  proof (cases "s = []")
    case True
    with room show ?thesis
      using u8.put_end [where x = 0 and b = b and big = big] by (simp add: bb_put_string_def bindE_ok [OF ret_apply])
  next
    case False
    from room have "bb_room b (length s)" and "bb_room (bb_extend s b) 1"
      using bb_room_append [of b s 1] by simp_all
    with False show ?thesis
      using u8.put_end [where x = 0 and b = "bb_extend s b" and big = big]
      by (simp add: bb_put_string_def bindE_ok [OF bb_append_bytes_end])
  qed
next
  fix s :: "uint8 list" and b
  assume "0 \<notin> set s" and "bb_at b (s @ [0])"
  then show "bb_get_string big b = (Inr s, bb_advance (length (s @ [0])) b)"
    by (simp add: bb_get_string_def bb_get_string_loop_at)
qed

text \<open>A string read never throws, whatever the packet holds.\<close>

lemma bb_get_string_loop_total:
  "bb_size b < 2 ^ 63 \<Longrightarrow>
   \<exists>s b'. bb_get_string_loop big acc b = (Inr s, b') \<and> bb_storage b' = bb_storage b
     \<and> (bb_rpos b \<le> bb_size b \<longrightarrow> bb_rpos b' \<le> bb_size b)"
proof (induction big acc b rule: bb_get_string_loop.induct)
  case (1 big acc b)
  show ?case
  proof (cases "bb_rpos b < bb_size b")
    case False
    then show ?thesis by (subst bb_get_string_loop.simps) simp
  next
    case True
    let ?c = "bb_storage b ! bb_rpos b"
    have at: "bb_at b (le_bytes 1 ?c)"
      using True 1(2) by (simp add: bb_at_def take_Suc_conv_app_nth hd_drop_conv_nth take_Suc)
    have rd: "bb_read big b = (Inr ?c, bb_advance 1 b)"
      using u8.get_at [OF TrueI at, of big] by simp
    have sizes: "bb_rpos b < bb_size b \<and> bb_size b < 2 ^ 64" using True 1(2) by simp
    have unfold: "bb_get_string_loop big acc b =
        (if ?c = 0 then ret acc (bb_advance 1 b)
         else bb_get_string_loop big (acc @ [?c]) (bb_advance 1 b))"
      using sizes rd by (subst bb_get_string_loop.simps) simp
    show ?thesis
    proof (cases "?c = 0")
      case True
      then show ?thesis using sizes by (simp add: unfold)
    next
      case False
      have "\<exists>s b'. bb_get_string_loop big (acc @ [?c]) (bb_advance 1 b) = (Inr s, b')
          \<and> bb_storage b' = bb_storage (bb_advance 1 b)
          \<and> (bb_rpos (bb_advance 1 b) \<le> bb_size (bb_advance 1 b) \<longrightarrow>
             bb_rpos b' \<le> bb_size (bb_advance 1 b))"
        by (rule 1(1) [OF sizes rd [symmetric] refl False]) (use 1(2) in simp)
      with False sizes show ?thesis by (auto simp: unfold)
    qed
  qed
qed

section \<open>Packed identifiers\<close>

definition guid_byte :: "uint64 \<Rightarrow> nat \<Rightarrow> uint8" where
  "guid_byte g i = ucast (drop_bit (8 * i) g)"

definition guid_bytes_from :: "nat \<Rightarrow> uint64 \<Rightarrow> uint8 list" where
  "guid_bytes_from i g = map (guid_byte g) (filter (\<lambda>j. guid_byte g j \<noteq> 0) [i..<8])"

lemma guid_bytes_from_step:
  "i < 8 \<Longrightarrow> guid_bytes_from i g =
     (if guid_byte g i \<noteq> 0 then guid_byte g i # guid_bytes_from (Suc i) g
      else guid_bytes_from (Suc i) g)"
  by (simp add: guid_bytes_from_def upt_conv_Cons)

lemma guid_bytes_from_8 [simp]: "guid_bytes_from 8 g = []"
  by (simp add: guid_bytes_from_def)

lemma and_FF: "(g :: uint64) AND 0xFF = take_bit 8 g"
  by (simp add: take_bit_eq_mask mask_eq_exp_minus_1)

lemma ucast_and_FF: "(ucast ((g :: uint64) AND 0xFF) :: uint8) = ucast g"
  unfolding and_FF by (rule bit_word_eqI) (simp add: bit_simps)

lemma and_FF_eq_0: "(g :: uint64) AND 0xFF = 0 \<longleftrightarrow> (ucast g :: uint8) = 0"
  unfolding and_FF by (auto simp: bit_eq_iff bit_simps)

text \<open>
  The loop of \<^verbatim>\<open>appendPackGUID\<close> from index \<open>i\<close>: it appends exactly the bytes that
  are not zero and sets exactly their bits in the mark.
\<close>

lemma packGUID_loop:
  "i \<le> 8 \<Longrightarrow>
   \<exists>m. bb_packGUID_loop i (drop_bit (8 * i) g) mark bytes = (m, bytes @ guid_bytes_from i g)
     \<and> (\<forall>j < 8. bit m j \<longleftrightarrow> bit mark j \<or> (i \<le> j \<and> guid_byte g j \<noteq> 0))"
proof (induction "8 - i" arbitrary: i mark bytes)
  case 0
  then have "i = 8" by simp
  moreover have "drop_bit 64 g = 0" by (rule bit_word_eqI) (simp add: bit_simps)
  ultimately show ?case by (auto simp: bb_packGUID_loop.simps)
next
  case (Suc n)
  then have i: "i < 8" by simp
  let ?h = "drop_bit (8 * i) g"
  let ?m = "if guid_byte g i \<noteq> 0 then mark OR push_bit i 1 else mark"
  let ?bs = "if guid_byte g i \<noteq> 0 then bytes @ [guid_byte g i] else bytes"
  have step: "bb_packGUID_loop i ?h mark bytes =
      bb_packGUID_loop (Suc i) (drop_bit (8 * Suc i) g) ?m ?bs"
  proof (cases "?h = 0")
    case True
    then have z: "guid_byte g i = 0" "drop_bit (8 * Suc i) g = 0"
      by (simp_all add: guid_byte_def drop_bit_drop_bit [symmetric] add.commute)
    with True show ?thesis by (simp add: bb_packGUID_loop.simps)
  next
    case False
    then show ?thesis
      by (subst bb_packGUID_loop.simps)
        (auto simp: guid_byte_def ucast_and_FF and_FF_eq_0 drop_bit_drop_bit add.commute)
  qed
  have "n = 8 - Suc i" "Suc i \<le> 8" using Suc(2) i by auto
  from Suc(1) [OF this, of ?m ?bs] obtain m where
    m: "bb_packGUID_loop (Suc i) (drop_bit (8 * Suc i) g) ?m ?bs
          = (m, ?bs @ guid_bytes_from (Suc i) g)"
    and bits: "\<forall>j < 8. bit m j \<longleftrightarrow> bit ?m j \<or> (Suc i \<le> j \<and> guid_byte g j \<noteq> 0)"
    by blast
  have "\<forall>j < 8. bit m j \<longleftrightarrow> bit mark j \<or> (i \<le> j \<and> guid_byte g j \<noteq> 0)"
    using bits by (auto simp: bit_simps Suc_le_eq le_less)
  with m step show ?case by (auto simp: guid_bytes_from_step [OF i])
qed

lemma packGUID_eq:
  obtains m where "packGUID g = m # guid_bytes_from 0 g"
    and "\<forall>j < 8. bit m j \<longleftrightarrow> guid_byte g j \<noteq> 0"
  using packGUID_loop [of 0 g 0 "[]"] by (auto simp: packGUID_def)

lemma readPackGUID_loop:
  assumes "\<forall>j < 8. bit mark j \<longleftrightarrow> guid_byte g j \<noteq> 0"
  shows "i \<le> 8 \<Longrightarrow> bb_at b (guid_bytes_from i g) \<Longrightarrow>
    bb_readPackGUID_loop big mark [i..<8] (take_bit (8 * i) g) b =
      (Inr g, bb_advance (length (guid_bytes_from i g)) b)"
proof (induction "8 - i" arbitrary: i b)
  case 0
  then have "i = 8" by simp
  then show ?case by (simp add: take_bit_word_eq_self)
next
  case (Suc n)
  then have i: "i < 8" and IH: "n = 8 - Suc i" "Suc i \<le> 8" by auto
  have acc: "take_bit (8 * i) g OR push_bit (i * 8) (ucast (guid_byte g i)) = take_bit (8 * Suc i) g"
    by (rule bit_word_eqI) (auto simp: guid_byte_def bit_simps)
  show ?case
  proof (cases "guid_byte g i = 0")
    case True
    then have "take_bit (8 * i) g = take_bit (8 * Suc i) g" using acc by simp
    moreover have "\<not> (mark AND push_bit i 1 \<noteq> 0)"
      using assms i True by (metis bit_iff_and_push_bit_not_eq_0)
    ultimately have "bb_readPackGUID_loop big mark (i # [Suc i..<8]) (take_bit (8 * i) g) b =
        bb_readPackGUID_loop big mark [Suc i..<8] (take_bit (8 * Suc i) g) b"
      by (simp only: bb_readPackGUID_loop.simps if_False not_False_eq_True)
    moreover have same: "guid_bytes_from i g = guid_bytes_from (Suc i) g"
      using True by (simp add: guid_bytes_from_step [OF i])
    ultimately show ?thesis
      using Suc(1) [OF IH] Suc.prems(2) by (simp only: upt_conv_Cons [OF i] same)
  next
    case False
    then have at: "bb_at b (le_bytes 1 (guid_byte g i))"
      and rest: "bb_at (bb_advance 1 b) (guid_bytes_from (Suc i) g)"
      using Suc.prems(2) bb_at_append [of b "[guid_byte g i]" "guid_bytes_from (Suc i) g"] False
      by (simp_all add: guid_bytes_from_step [OF i])
    from at have "\<not> sz (bb_rpos b + 1) > bb_size b" by (simp add: bb_at_def)
    moreover have "mark AND push_bit i 1 \<noteq> 0"
      using assms i False by (metis bit_iff_and_push_bit_not_eq_0)
    moreover have "bb_read big b = (Inr (guid_byte g i), bb_advance 1 b)"
      using u8.get_at [OF TrueI at, of big] by simp
    ultimately have "bb_readPackGUID_loop big mark (i # [Suc i..<8]) (take_bit (8 * i) g) b =
        bb_readPackGUID_loop big mark [Suc i..<8] (take_bit (8 * Suc i) g) (bb_advance 1 b)"
      by (simp only: bb_readPackGUID_loop.simps if_True if_False not_False_eq_True bindE_ok acc)
    with Suc(1) [OF IH rest]
    have "bb_readPackGUID_loop big mark [i..<8] (take_bit (8 * i) g) b =
        (Inr g, bb_advance (length (guid_bytes_from (Suc i) g)) (bb_advance 1 b))"
      by (simp only: upt_conv_Cons [OF i])
    with False show ?thesis by (simp add: guid_bytes_from_step [OF i])
  qed
qed

interpretation packed_guid: codec bb_appendPackGUID "bb_readPackGUID big" packGUID "\<lambda>_. True"
  for big
proof
  fix g b
  assume "bb_room b (length (packGUID g))"
  then show "bb_appendPackGUID g b = (Inr (), bb_extend (packGUID g) b)"
    by (metis bb_appendPackGUID_def bb_append_bytes_end list.distinct(1) packGUID_eq)
next
  fix g b
  assume at: "bb_at b (packGUID g)"
  obtain m where m: "packGUID g = m # guid_bytes_from 0 g"
    and bits: "\<forall>j < 8. bit m j \<longleftrightarrow> guid_byte g j \<noteq> 0"
    by (rule packGUID_eq)
  have at1: "bb_at b (le_bytes 1 m)" and at2: "bb_at (bb_advance 1 b) (guid_bytes_from 0 g)"
    using at bb_at_append [of b "[m]" "guid_bytes_from 0 g"] by (simp_all add: m)
  from at1 have "\<not> sz (bb_rpos b + 1) > bb_size b" by (simp add: bb_at_def)
  then show "bb_readPackGUID big b = (Inr g, bb_advance (length (packGUID g)) b)"
    using u8.get_at [OF TrueI at1, of big] readPackGUID_loop [OF bits _ at2, of big]
    by (simp add: bb_readPackGUID_def bindE_ok m)
qed

section \<open>Maps of two codecs\<close>

lemma std_map_insert_last:
  "sorted_wrt (<) (map fst (m @ [(k, v)])) \<Longrightarrow> std_map_insert k v m = m @ [(k, v)]"
  by (induction k v m rule: std_map_insert.induct) auto

locale map_codec = k: codec putk getk enck okk + v: codec putv getv encv okv
  for putk :: "'k::linorder \<Rightarrow> unit bbop" and getk enck okk
    and putv :: "'v \<Rightarrow> unit bbop" and getv encv okv
begin

lemma pair_codec:
  "codec (bb_put_pair putk putv) (bb_get_pair getk getv) (\<lambda>(k, v). enck k @ encv v)
     (\<lambda>(k, v). okk k \<and> okv v)"
proof
  fix p :: "'k \<times> 'v" and b
  obtain k v where p: "p = (k, v)" by (cases p)
  assume ok: "case p of (k, v) \<Rightarrow> okk k \<and> okv v"
  {
    assume "bb_room b (length (case p of (k, v) \<Rightarrow> enck k @ encv v))"
    then have "bb_room b (length (enck k))" "bb_room (bb_extend (enck k) b) (length (encv v))"
      by (simp_all add: p bb_room_append)
    with ok show "bb_put_pair putk putv p b =
        (Inr (), bb_extend (case p of (k, v) \<Rightarrow> enck k @ encv v) b)"
      by (simp add: p bb_put_pair_def bindE_ok [OF k.put_end] v.put_end)
  next
    assume "bb_at b (case p of (k, v) \<Rightarrow> enck k @ encv v)"
    then have "bb_at b (enck k)" "bb_at (bb_advance (length (enck k)) b) (encv v)"
      by (simp_all add: p bb_at_append)
    with ok show "bb_get_pair getk getv b =
        (Inr p, bb_advance (length (case p of (k, v) \<Rightarrow> enck k @ encv v)) b)"
      using k.get_at [of k b] v.get_at [of v "bb_advance (length (enck k)) b"]
      by (simp add: p bb_get_pair_def bindE_ok)
  }
qed

sublocale pair: codec "bb_put_pair putk putv" "bb_get_pair getk getv"
  "\<lambda>(k, v). enck k @ encv v" "\<lambda>(k, v). okk k \<and> okv v"
  by (rule pair_codec)

lemma get_map_all:
  "\<forall>(k, v) \<in> set m. okk k \<and> okv v \<Longrightarrow> sorted_wrt (<) (map fst (acc @ m)) \<Longrightarrow>
   bb_at b (concat (map (\<lambda>(k, v). enck k @ encv v) m)) \<Longrightarrow>
   bb_get_map_n getk getv (length m) acc b =
     (Inr (acc @ m), bb_advance (length (concat (map (\<lambda>(k, v). enck k @ encv v) m))) b)"
proof (induction m arbitrary: acc b)
  case Nil
  then show ?case by simp
next
  case (Cons p m)
  let ?e = "case p of (k, v) \<Rightarrow> enck k @ encv v"
  have at: "bb_at b ?e" "bb_at (bb_advance (length ?e) b) (concat (map (\<lambda>(k, v). enck k @ encv v) m))"
    using Cons.prems(3) by (simp_all add: bb_at_append)
  have ins: "std_map_insert (fst p) (snd p) acc = acc @ [p]"
    using Cons.prems(2) by (subst std_map_insert_last) (auto simp: sorted_wrt_append)
  have "bb_get_pair getk getv b = (Inr p, bb_advance (length ?e) b)"
    using pair.get_at [OF _ at(1)] Cons.prems(1) by simp
  with Cons.IH [of "acc @ [p]", OF _ _ at(2)] Cons.prems show ?case
    by (simp add: bindE_ok ins)
qed

lemma map_codec:
  "codec (bb_put_map big putk putv) (bb_get_map big getk getv)
     (\<lambda>m. le_bytes 4 (of_nat (length m) :: uint32) @ concat (map (\<lambda>(k, v). enck k @ encv v) m))
     (\<lambda>m. (\<forall>(k, v) \<in> set m. okk k \<and> okv v) \<and> sorted_wrt (<) (map fst m) \<and> length m < 2 ^ 32)"
proof
  fix m :: "('k \<times> 'v) list" and b
  let ?n = "le_bytes 4 (of_nat (length m) :: uint32)"
  let ?es = "concat (map (\<lambda>(k, v). enck k @ encv v) m)"
  assume ok: "(\<forall>(k, v) \<in> set m. okk k \<and> okv v) \<and> sorted_wrt (<) (map fst m) \<and> length m < 2 ^ 32"
  {
    assume "bb_room b (length (?n @ ?es))"
    then have "bb_room b 4" and "bb_room (bb_extend ?n b) (length ?es)"
      using bb_room_append [of b ?n] by simp_all
    with ok pair.put_all [of m "bb_extend ?n b"]
    show "bb_put_map big putk putv m b = (Inr (), bb_extend (?n @ ?es) b)"
      by (simp add: bb_put_map_def bindE_ok [OF bb_append_end])
  next
    assume "bb_at b (?n @ ?es)"
    then have at: "bb_at b ?n" "bb_at (bb_advance 4 b) ?es"
      by (simp_all add: bb_at_append)
    have "unat (of_nat (length m) :: uint32) = length m"
      using ok by (simp add: unat_of_nat)
    then show "bb_get_map big getk getv b = (Inr m, bb_advance (length (?n @ ?es)) b)"
      using ok bb_read_at_word [of b "of_nat (length m) :: uint32" big] at
        get_map_all [of m "[]" "bb_advance 4 b"]
      by (simp add: bb_get_map_def bindE_ok)
  }
qed

end

interpretation u32_string_map: map_codec
  "bb_append big :: uint32 \<Rightarrow> unit bbop" "bb_read big" "le_bytes 4" "\<lambda>_. True"
  "bb_put_string big" "bb_get_string big" "\<lambda>s. s @ [0]" "\<lambda>s. 0 \<notin> set s"
  for big
  by unfold_locales

section \<open>Packed dates\<close>

lemma uint_take_bit_AND:
  "uint (drop_bit n (w :: uint32) AND mask k) = take_bit k (drop_bit n (uint w))"
  by (rule bit_eqI) (auto simp: bit_simps dest: bit_imp_le_length)

lemma field_bits: "0 \<le> (x :: int) \<Longrightarrow> x < 2 ^ n \<Longrightarrow> n \<le> i \<Longrightarrow> \<not> bit x i"
  by (metis bit_take_bit_iff linorder_not_le take_bit_int_eq_self)

definition tm_in_range :: "tm \<Rightarrow> bool" where
  "tm_in_range lt \<longleftrightarrow>
     0 \<le> tm_min lt \<and> tm_min lt < 60 \<and> 0 \<le> tm_hour lt \<and> tm_hour lt < 24
     \<and> 1 \<le> tm_mday lt \<and> tm_mday lt \<le> 31 \<and> 0 \<le> tm_mon lt \<and> tm_mon lt < 12
     \<and> 100 \<le> tm_year lt \<and> tm_year lt < 132 \<and> 0 \<le> tm_wday lt \<and> tm_wday lt < 7"

lemma unpack_fields:
  fixes y mo d wd h mi :: int
  assumes "0 \<le> y" "y < 2 ^ 5" "0 \<le> mo" "mo < 2 ^ 4" "0 \<le> d" "d < 2 ^ 6"
    "0 \<le> wd" "wd < 2 ^ 3" "0 \<le> h" "h < 2 ^ 5" "0 \<le> mi" "mi < 2 ^ 6"
  defines "p \<equiv> take_bit 32 (push_bit 24 y OR push_bit 20 mo OR push_bit 14 d
      OR push_bit 11 wd OR push_bit 6 h OR mi)"
  shows "take_bit 6 p = mi" "take_bit 5 (drop_bit 6 p) = h" "take_bit 6 (drop_bit 14 p) = d"
    "take_bit 4 (drop_bit 20 p) = mo" "take_bit 5 (drop_bit 24 p) = y"
proof -
  note fb = field_bits [OF assms(1,2)] field_bits [OF assms(3,4)] field_bits [OF assms(5,6)]
    field_bits [OF assms(7,8)] field_bits [OF assms(9,10)] field_bits [OF assms(11,12)]
  show "take_bit 6 p = mi"
    by (rule bit_eqI, rename_tac i, case_tac "i < 6") (simp_all add: p_def bit_simps fb)
  show "take_bit 5 (drop_bit 6 p) = h"
    by (rule bit_eqI, rename_tac i, case_tac "i < 5") (simp_all add: p_def bit_simps fb)
  show "take_bit 6 (drop_bit 14 p) = d"
    by (rule bit_eqI, rename_tac i, case_tac "i < 6") (simp_all add: p_def bit_simps fb)
  show "take_bit 4 (drop_bit 20 p) = mo"
    by (rule bit_eqI, rename_tac i, case_tac "i < 4") (simp_all add: p_def bit_simps fb)
  show "take_bit 5 (drop_bit 24 p) = y"
    by (rule bit_eqI, rename_tac i, case_tac "i < 5") (simp_all add: p_def bit_simps fb)
qed

lemma unpack_pack_tm:
  assumes "tm_in_range lt"
  shows "unpack_tm (pack_tm lt) = lt\<lparr>tm_wday := 0\<rparr>"
proof -
  note r = assms [unfolded tm_in_range_def]
  have masks: "(0x3F :: uint32) = mask 6" "(0x1F :: uint32) = mask 5" "(0xF :: uint32) = mask 4"
    by (simp_all add: mask_eq_exp_minus_1)
  have 0: "uint (pack_tm lt AND mask 6) = take_bit 6 (uint (pack_tm lt))"
    using uint_take_bit_AND [of 0 "pack_tm lt" 6] by simp
  have up: "uint (pack_tm lt) = take_bit 32 (push_bit 24 (tm_year lt - 100) OR
      push_bit 20 (tm_mon lt) OR push_bit 14 (tm_mday lt - 1) OR push_bit 11 (tm_wday lt) OR
      push_bit 6 (tm_hour lt) OR tm_min lt)"
    unfolding pack_tm_def uint_word_of_int_eq by simp
  have "0 \<le> tm_year lt - 100" "tm_year lt - 100 < 2 ^ 5" "0 \<le> tm_mon lt" "tm_mon lt < 2 ^ 4"
    "0 \<le> tm_mday lt - 1" "tm_mday lt - 1 < 2 ^ 6" "0 \<le> tm_wday lt" "tm_wday lt < 2 ^ 3"
    "0 \<le> tm_hour lt" "tm_hour lt < 2 ^ 5" "0 \<le> tm_min lt" "tm_min lt < 2 ^ 6"
    using r by simp_all
  note fields = unpack_fields [OF this, folded up]
  show ?thesis
    unfolding unpack_tm_def masks uint_take_bit_AND 0 fields by simp
qed

section \<open>Properties\<close>



text \<open>
  Round trip of packed identifiers: what \<^verbatim>\<open>appendPackGUID\<close> writes at the end of
  a buffer, \<^verbatim>\<open>readPackGUID\<close> reads back, for every 64-bit identifier and on hosts of
  either byte order.
\<close>

theorem packed_guid_round_trip:
  assumes "bb_room b (length (packGUID g))" and "bb_rpos b = bb_wpos b"
  shows "bindE (bb_appendPackGUID g) (\<lambda>_. bb_readPackGUID big) b =
    (Inr g, bb_advance (length (packGUID g)) (bb_extend (packGUID g) b))"
  using assms by (rule packed_guid.round_trip [OF TrueI])

theorem packed_guid_round_trip_witness:
  "fst (bindE (bb_appendPackGUID 0xF130001D00000102) (\<lambda>_. bb_readPackGUID False) bb_new)
     = Inr 0xF130001D00000102"
proof -
  obtain m where m: "packGUID 0xF130001D00000102 = m # guid_bytes_from 0 0xF130001D00000102"
    by (rule packGUID_eq)
  have "length (packGUID 0xF130001D00000102) \<le> 9"
    unfolding m guid_bytes_from_def using length_filter_le [of _ "[0..<8]"]
    by (simp add: le_SucI del: upt.simps length_filter_le)
  then have "bb_room bb_new (length (packGUID 0xF130001D00000102))"
    by (simp add: bb_room_def bb_new_def)
  then show ?thesis
    using packed_guid_round_trip [of bb_new "0xF130001D00000102" False] by (simp add: bb_new_def)
qed

text \<open>
  Size of packed identifiers: the packed form of an identifier is its mark byte and
  one byte per non-zero byte of the identifier, so never more than nine bytes, the size of
  the local array of \<^verbatim>\<open>appendPackGUID\<close>.
\<close>

theorem packGUID_length:
  "length (packGUID g) = 1 + card {i. i < 8 \<and> guid_byte g i \<noteq> 0} \<and> length (packGUID g) \<le> 9"
proof -
  obtain m where m: "packGUID g = m # guid_bytes_from 0 g"
    by (rule packGUID_eq)
  have "length (guid_bytes_from 0 g) = card {i. i < 8 \<and> guid_byte g i \<noteq> 0}"
    unfolding guid_bytes_from_def length_map length_filter_conv_card
    by (rule arg_cong [where f = card]) (auto simp del: upt.simps simp: nth_upt)
  moreover have "card {i. i < 8 \<and> guid_byte g i \<noteq> 0} \<le> card {..< (8 :: nat)}"
    by (rule card_mono) auto
  ultimately show ?thesis by (simp add: m)
qed

text \<open>
  Round trip of a container: a \<^verbatim>\<open>std::map<uint32, std::string>\<close> in key order whose
  strings hold no zero byte, written with \<^verbatim>\<open>operator<<\<close>, is read back unchanged by
  \<^verbatim>\<open>operator>>\<close>, which inserts the pairs one by one.
\<close>

theorem map_round_trip:
  assumes "\<forall>p \<in> set m. 0 \<notin> set (snd p)" and "sorted_wrt (<) (map fst m)" and "length m < 2 ^ 32"
    and "bb_room b (4 + length (concat (map (\<lambda>(k, s). le_bytes 4 k @ s @ [0]) m)))"
    and "bb_rpos b = bb_wpos b"
  shows "fst (bindE (bb_put_map big (bb_append big :: uint32 \<Rightarrow> unit bbop) (bb_put_string big) m)
           (\<lambda>_. bb_get_map big (bb_read big) (bb_get_string big)) b) = Inr m"
proof -
  have ok: "(\<forall>(k :: uint32, s) \<in> set m. True \<and> 0 \<notin> set s) \<and> sorted_wrt (<) (map fst m)
      \<and> length m < 2 ^ 32"
    using assms(1-3) by auto
  show ?thesis
    by (subst codec.round_trip [OF u32_string_map.map_codec ok]) (use assms(4,5) in simp_all)
qed

theorem map_round_trip_witness:
  "fst (bindE (bb_put_map True (bb_append True :: uint32 \<Rightarrow> unit bbop) (bb_put_string True)
          [(1, [72, 71]), (5, [])])
         (\<lambda>_. bb_get_map True (bb_read True) (bb_get_string True)) bb_new)
     = Inr [(1 :: uint32, [72, 71]), (5, [])]"
  by (rule map_round_trip) (simp_all add: bb_room_def bb_new_def)

text \<open>
  Reading a string from a packet of any content neither throws nor changes the bytes,
  and leaves the read position inside the buffer: the loop stops at the first zero byte or
  at the end.
\<close>

theorem string_read_total:
  assumes "bb_size b < 2 ^ 63" and "bb_rpos b \<le> bb_size b"
  shows "\<exists>s b'. bb_get_string big b = (Inr s, b') \<and> bb_storage b' = bb_storage b
    \<and> bb_rpos b' \<le> bb_size b'"
  using bb_get_string_loop_total [OF assms(1), of big "[]"] assms(2)
  by (auto simp: bb_get_string_def)

theorem string_read_total_witness:
  "\<exists>s b'. bb_get_string False \<lparr>bb_rpos = 1, bb_wpos = 3, bb_storage = [0, 65, 66]\<rparr> = (Inr s, b')
     \<and> bb_storage b' = [0, 65, 66] \<and> bb_rpos b' \<le> bb_size b'"
  using string_read_total [of "\<lparr>bb_rpos = 1, bb_wpos = 3, bb_storage = [0, 65, 66]\<rparr>" False]
  by simp

text \<open>
  Packed dates: for a calendar date of the years 2000 to 2031 the fields that
  \<^verbatim>\<open>ReadPackedTime\<close> extracts are the fields \<^verbatim>\<open>AppendPackedTime\<close> packed, the
  week day excepted, which the reader drops.
\<close>

theorem packed_time_round_trip:
  assumes "tm_in_range (localtime t)" and "bb_room b 4" and "bb_rpos b = bb_wpos b"
  shows "fst (bindE (bb_AppendPackedTime localtime big t)
           (\<lambda>_. bb_ReadPackedTime mktime timezone big) b)
         = Inr (word_of_int (mktime ((localtime t)\<lparr>tm_wday := 0\<rparr>) + timezone))"
proof -
  have at: "bb_at (bb_extend (le_bytes 4 (pack_tm (localtime t))) b) (le_bytes 4 (pack_tm (localtime t)))"
    using assms(2,3) by (auto simp: bb_room_def bb_at_def)
  show ?thesis
    using u32.put_end [of b "pack_tm (localtime t)" big] u32.get_at [OF TrueI at, of big] assms(2)
    by (simp add: bb_AppendPackedTime_def bb_ReadPackedTime_def bindE_ok unpack_pack_tm [OF assms(1)])
qed

theorem packed_time_round_trip_witness:
  "fst (bindE (bb_AppendPackedTime (\<lambda>_. \<lparr>tm_min = 59, tm_hour = 23, tm_mday = 31, tm_mon = 11,
            tm_year = 114, tm_wday = 3\<rparr>) False 0)
          (\<lambda>_. bb_ReadPackedTime tm_mday 7 False) bb_new) = Inr 38"
  by (subst packed_time_round_trip) (simp_all add: tm_in_range_def bb_room_def bb_new_def)

end
