(* ===== verification/Message_Buffer.thy ===== *)
theory Message_Buffer
  imports Byte_Buffer
begin

text \<open>
  \<^verbatim>\<open>MessageBuffer\<close> (src/Core/src/server/shared/Networking/MessageBuffer.h), the byte
  queue of a socket, and \<^verbatim>\<open>WorldPacket\<close>
  (src/Core/src/server/shared/Packets/WorldPacket.h). The class does no bounds checks of
  its own: copying outside the vector is undefined in C++ and the result \<open>None\<close> here.
  The locale \<open>byte_queue\<close> states what the sockets rely on, a first-in first-out queue of
  bytes, and is interpreted on the operations below.
\<close>

section \<open>MessageBuffer\<close>

record msgbuf =
  mb_wpos :: nat
  mb_rpos :: nat
  mb_storage :: "uint8 list"

abbreviation mb_GetBufferSize :: "msgbuf \<Rightarrow> nat" where
  "mb_GetBufferSize m \<equiv> length (mb_storage m)"

definition mb_new :: "nat \<Rightarrow> msgbuf" where
  "mb_new initialSize = \<lparr>mb_wpos = 0, mb_rpos = 0, mb_storage = vec_resize initialSize []\<rparr>"

definition mb_Reset :: "msgbuf \<Rightarrow> msgbuf" where
  "mb_Reset m = m\<lparr>mb_wpos := 0, mb_rpos := 0\<rparr>"

definition mb_Resize :: "nat \<Rightarrow> msgbuf \<Rightarrow> msgbuf" where
  "mb_Resize bytes m = m\<lparr>mb_storage := vec_resize bytes (mb_storage m)\<rparr>"

definition mb_ReadCompleted :: "nat \<Rightarrow> msgbuf \<Rightarrow> msgbuf" where
  "mb_ReadCompleted bytes m = m\<lparr>mb_rpos := sz (mb_rpos m + bytes)\<rparr>"

definition mb_WriteCompleted :: "nat \<Rightarrow> msgbuf \<Rightarrow> msgbuf" where
  "mb_WriteCompleted bytes m = m\<lparr>mb_wpos := sz (mb_wpos m + bytes)\<rparr>"

text \<open>The differences of two \<^verbatim>\<open>size_t\<close> wrap around below zero.\<close>

definition mb_GetActiveSize :: "msgbuf \<Rightarrow> nat" where
  "mb_GetActiveSize m = sz (mb_wpos m + 2 ^ 64 - mb_rpos m)"

definition mb_GetRemainingSpace :: "msgbuf \<Rightarrow> nat" where
  "mb_GetRemainingSpace m = sz (mb_GetBufferSize m + 2 ^ 64 - mb_wpos m)"

text \<open>\<open>n\<close> bytes at \<^verbatim>\<open>GetReadPointer()\<close>\<close>

definition mb_peek :: "nat \<Rightarrow> msgbuf \<Rightarrow> uint8 list option" where
  "mb_peek n m =
     (if mb_rpos m + n \<le> mb_GetBufferSize m
      then Some (take n (drop (mb_rpos m) (mb_storage m))) else None)"

text \<open>Overwriting bytes at \<^verbatim>\<open>GetWritePointer()\<close>, as a socket read does.\<close>

definition mb_poke :: "uint8 list \<Rightarrow> msgbuf \<Rightarrow> msgbuf option" where
  "mb_poke bs m =
     (if mb_wpos m + length bs \<le> mb_GetBufferSize m
      then Some (m\<lparr>mb_storage := vec_write (mb_wpos m) bs (mb_storage m)\<rparr>) else None)"

definition mb_Normalize :: "msgbuf \<Rightarrow> msgbuf option" where
  "mb_Normalize m =
     (if mb_rpos m \<noteq> 0
      then map_option
             (\<lambda>m'. m'\<lparr>mb_wpos := mb_GetActiveSize m, mb_rpos := 0\<rparr>)
             (if mb_rpos m \<noteq> mb_wpos m
              then map_option (\<lambda>bs. m\<lparr>mb_storage := vec_write 0 bs (mb_storage m)\<rparr>)
                     (mb_peek (mb_GetActiveSize m) m)
              else Some m)
      else Some m)"

definition mb_Write :: "uint8 list \<Rightarrow> msgbuf \<Rightarrow> msgbuf option" where
  "mb_Write data m =
     (if data \<noteq> [] then map_option (mb_WriteCompleted (length data)) (mb_poke data m) else Some m)"

text \<open>
  \<^verbatim>\<open>Move()\<close> as its callers use it: the vector is moved out, which leaves it empty.
\<close>

definition mb_Move :: "msgbuf \<Rightarrow> uint8 list \<times> msgbuf" where
  "mb_Move m = (mb_storage m, m\<lparr>mb_wpos := 0, mb_rpos := 0, mb_storage := []\<rparr>)"

section \<open>WorldPacket\<close>

record worldpacket = bytebuffer +
  wp_opcode :: uint16

definition wp_new :: "uint16 \<Rightarrow> worldpacket" where
  "wp_new opcode = \<lparr>bb_rpos = 0, bb_wpos = 0, bb_storage = [], wp_opcode = opcode\<rparr>"

text \<open>\<^verbatim>\<open>WorldPacket(uint16, MessageBuffer&&)\<close>: both positions start at zero.\<close>

definition wp_of_msgbuf :: "uint16 \<Rightarrow> msgbuf \<Rightarrow> worldpacket \<times> msgbuf" where
  "wp_of_msgbuf opcode m =
     (case mb_Move m of (st, m') \<Rightarrow>
        (\<lparr>bb_rpos = 0, bb_wpos = 0, bb_storage = st, wp_opcode = opcode\<rparr>, m'))"

definition wp_Initialize :: "uint16 \<Rightarrow> worldpacket \<Rightarrow> worldpacket" where
  "wp_Initialize opcode p =
     p\<lparr>bb_storage := [], bb_rpos := 0, bb_wpos := 0, wp_opcode := opcode\<rparr>"

text \<open>A packet whose content is the given bytes, as the \<^verbatim>\<open><<\<close> operators build it.\<close>

definition packet_of :: "uint16 \<Rightarrow> uint8 list \<Rightarrow> worldpacket" where
  "packet_of opcode bs = (wp_new opcode)\<lparr>bb_storage := bs, bb_wpos := length bs\<rparr>"

lemma storage_packet_of [simp]: "bb_storage (packet_of opcode bs) = bs"
  by (simp add: packet_of_def)

section \<open>The queue of bytes\<close>

definition mb_inv :: "msgbuf \<Rightarrow> bool" where
  "mb_inv m \<longleftrightarrow> mb_rpos m \<le> mb_wpos m \<and> mb_wpos m \<le> mb_GetBufferSize m
     \<and> mb_GetBufferSize m < 2 ^ 63"

definition mb_active :: "msgbuf \<Rightarrow> uint8 list" where
  "mb_active m = take (mb_wpos m - mb_rpos m) (drop (mb_rpos m) (mb_storage m))"

definition mb_space :: "msgbuf \<Rightarrow> nat" where
  "mb_space m = mb_GetBufferSize m - mb_wpos m"

locale byte_queue =
  fixes inv :: "'q \<Rightarrow> bool"
    and active :: "'q \<Rightarrow> uint8 list"
    and space :: "'q \<Rightarrow> nat"
    and wr :: "uint8 list \<Rightarrow> 'q \<Rightarrow> 'q option"
    and rd :: "nat \<Rightarrow> 'q \<Rightarrow> 'q"
    and nrm :: "'q \<Rightarrow> 'q option"
  assumes write_ok: "inv q \<Longrightarrow> length bs \<le> space q \<Longrightarrow>
      \<exists>q'. wr bs q = Some q' \<and> inv q' \<and> active q' = active q @ bs \<and> space q' = space q - length bs"
    and read_ok: "inv q \<Longrightarrow> n \<le> length (active q) \<Longrightarrow>
      inv (rd n q) \<and> active (rd n q) = drop n (active q) \<and> space (rd n q) = space q"
    and norm_ok: "inv q \<Longrightarrow>
      \<exists>q'. nrm q = Some q' \<and> inv q' \<and> active q' = active q \<and> space q \<le> space q'"
begin

text \<open>Two writes that fit are one write of both.\<close>

lemma write_write:
  assumes "inv q" and "length xs + length ys \<le> space q"
  shows "\<exists>q1 q2. wr xs q = Some q1 \<and> wr ys q1 = Some q2 \<and> inv q2
    \<and> active q2 = active q @ xs @ ys \<and> space q2 = space q - (length xs + length ys)"
proof -
  obtain q1 where q1: "wr xs q = Some q1" "inv q1" "active q1 = active q @ xs"
    "space q1 = space q - length xs"
    using write_ok [of q xs] assms by auto
  moreover have "length ys \<le> space q1" using assms q1 by simp
  moreover obtain q2 where "wr ys q1 = Some q2" "inv q2" "active q2 = active q1 @ ys"
    "space q2 = space q1 - length ys"
    using write_ok [of q1 ys] q1 calculation by auto
  ultimately show ?thesis by auto
qed

end

lemma mb_GetActiveSize_inv [simp]:
  "mb_inv m \<Longrightarrow> mb_GetActiveSize m = mb_wpos m - mb_rpos m"
  unfolding mb_GetActiveSize_def by (rule sz_diff) (auto simp: mb_inv_def)

lemma mb_GetRemainingSpace_inv [simp]: "mb_inv m \<Longrightarrow> mb_GetRemainingSpace m = mb_space m"
  unfolding mb_GetRemainingSpace_def mb_space_def by (rule sz_diff) (auto simp: mb_inv_def)

lemma length_mb_active [simp]: "mb_inv m \<Longrightarrow> length (mb_active m) = mb_wpos m - mb_rpos m"
  by (auto simp: mb_active_def mb_inv_def min_def)

lemma mb_peek_active:
  "mb_inv m \<Longrightarrow> n \<le> length (mb_active m) \<Longrightarrow> mb_peek n m = Some (take n (mb_active m))"
  by (simp only: length_mb_active) (auto simp: mb_peek_def mb_active_def mb_inv_def min_def)

lemma mb_poke_WriteCompleted:
  assumes "mb_inv m" and "length bs \<le> mb_space m"
  shows "\<exists>m'. map_option (mb_WriteCompleted (length bs)) (mb_poke bs m) = Some m' \<and> mb_inv m'
    \<and> mb_active m' = mb_active m @ bs \<and> mb_space m' = mb_space m - length bs
    \<and> mb_GetBufferSize m' = mb_GetBufferSize m"
proof -
  let ?s = "vec_write (mb_wpos m) bs (mb_storage m)"
  let ?m' = "m\<lparr>mb_storage := ?s, mb_wpos := mb_wpos m + length bs\<rparr>"
  have b: "mb_rpos m \<le> mb_wpos m" "mb_wpos m + length bs \<le> mb_GetBufferSize m"
    "mb_GetBufferSize m < 2 ^ 63"
    using assms by (auto simp: mb_inv_def mb_space_def)
  then have len: "length ?s = mb_GetBufferSize m" by (simp add: vec_write_def)
  have "drop (mb_rpos m) ?s = mb_active m @ bs @ drop (mb_wpos m + length bs) (mb_storage m)"
    using b by (simp add: vec_write_def mb_active_def drop_take)
  then have "mb_active ?m' = take (length (mb_active m) + length bs)
      (mb_active m @ bs @ drop (mb_wpos m + length bs) (mb_storage m))"
    using assms(1) b by (simp add: mb_active_def [of ?m'])
  then have act: "mb_active ?m' = mb_active m @ bs" by simp
  have "map_option (mb_WriteCompleted (length bs)) (mb_poke bs m) = Some ?m'"
    using b by (simp add: mb_poke_def mb_WriteCompleted_def)
  moreover have "mb_inv ?m'" "mb_space ?m' = mb_space m - length bs"
    using b len by (auto simp: mb_inv_def mb_space_def)
  ultimately show ?thesis using act len by auto
qed

lemma mb_Normalize_inv:
  assumes "mb_inv m"
  shows "\<exists>m'. mb_Normalize m = Some m' \<and> mb_inv m' \<and> mb_active m' = mb_active m
    \<and> mb_rpos m' = 0 \<and> mb_GetBufferSize m' = mb_GetBufferSize m"
proof (cases "mb_rpos m = 0")
  case True
  with assms show ?thesis by (simp add: mb_Normalize_def)
next
  case False
  let ?s = "if mb_rpos m \<noteq> mb_wpos m then vec_write 0 (mb_active m) (mb_storage m) else mb_storage m"
  let ?m' = "m\<lparr>mb_storage := ?s, mb_wpos := mb_wpos m - mb_rpos m, mb_rpos := 0\<rparr>"
  have b: "mb_rpos m \<le> mb_wpos m" "mb_wpos m \<le> mb_GetBufferSize m" "mb_GetBufferSize m < 2 ^ 63"
    using assms by (auto simp: mb_inv_def)
  have "mb_Normalize m = Some ?m'"
    using False assms mb_peek_active [OF assms, of "mb_wpos m - mb_rpos m"]
    by (simp add: mb_Normalize_def)
  moreover have "length ?s = mb_GetBufferSize m"
    using b assms by (simp add: vec_write_def)
  moreover have "mb_active ?m' = mb_active m"
    using assms length_mb_active [OF assms]
    by (auto simp: mb_active_def [of ?m'] vec_write_def) (simp add: mb_active_def)
  ultimately show ?thesis using b by (auto simp: mb_inv_def)
qed

interpretation mb: byte_queue mb_inv mb_active mb_space mb_Write mb_ReadCompleted mb_Normalize
proof
  fix m and bs :: "uint8 list"
  assume "mb_inv m" and "length bs \<le> mb_space m"
  then show "\<exists>q'. mb_Write bs m = Some q' \<and> mb_inv q' \<and> mb_active q' = mb_active m @ bs
      \<and> mb_space q' = mb_space m - length bs"
    using mb_poke_WriteCompleted [of m bs] by (auto simp: mb_Write_def)
next
  fix m n
  assume m: "mb_inv m" and n: "n \<le> length (mb_active m)"
  then have "mb_rpos m + n \<le> mb_wpos m" "mb_wpos m < 2 ^ 63" by (auto simp: mb_inv_def)
  with m show "mb_inv (mb_ReadCompleted n m) \<and> mb_active (mb_ReadCompleted n m) = drop n (mb_active m)
      \<and> mb_space (mb_ReadCompleted n m) = mb_space m"
    by (auto simp: mb_inv_def mb_active_def mb_space_def mb_ReadCompleted_def drop_take
        add.commute [of n])
next
  fix m
  assume "mb_inv m"
  then obtain m' where m': "mb_Normalize m = Some m'" "mb_inv m'" "mb_active m' = mb_active m"
    "mb_rpos m' = 0" "mb_GetBufferSize m' = mb_GetBufferSize m"
    using mb_Normalize_inv by blast
  have "mb_wpos m' = mb_wpos m - mb_rpos m"
    using length_mb_active [OF m'(2)] length_mb_active [OF \<open>mb_inv m\<close>] m'(3,4) by simp
  with m' show "\<exists>q'. mb_Normalize m = Some q' \<and> mb_inv q' \<and> mb_active q' = mb_active m
      \<and> mb_space m \<le> mb_space q'"
    by (auto simp: mb_space_def)
qed

lemma mb_new_inv:
  "n < 2 ^ 63 \<Longrightarrow> mb_inv (mb_new n) \<and> mb_active (mb_new n) = [] \<and> mb_space (mb_new n) = n"
  by (simp add: mb_inv_def mb_active_def mb_space_def mb_new_def vec_resize_def)

lemma mb_Reset_inv:
  "mb_inv m \<Longrightarrow> mb_inv (mb_Reset m) \<and> mb_active (mb_Reset m) = []
     \<and> mb_space (mb_Reset m) = mb_GetBufferSize m"
  by (simp add: mb_inv_def mb_active_def mb_space_def mb_Reset_def)

section \<open>Property\<close>

text \<open>
  C6. \<^verbatim>\<open>MessageBuffer\<close> is a first-in first-out queue of bytes: after any write that
  fits, a partial read and a \<^verbatim>\<open>Normalize\<close>, none of which copies outside the vector,
  the active bytes are what was there and what was written, less what was read, and the
  freed space is available again in full.
\<close>

theorem message_buffer_fifo:
  assumes "mb_inv m" and "length bs \<le> mb_space m" and "n \<le> length (mb_active m) + length bs"
  shows "\<exists>m1 m2. mb_Write bs m = Some m1 \<and> mb_Normalize (mb_ReadCompleted n m1) = Some m2
    \<and> mb_inv m2 \<and> mb_active m2 = drop n (mb_active m @ bs)
    \<and> mb_GetActiveSize m2 + mb_GetRemainingSpace m2 = mb_GetBufferSize m"
proof -
  obtain m1 where m1: "mb_Write bs m = Some m1" "mb_inv m1" "mb_active m1 = mb_active m @ bs"
    using mb.write_ok assms(1,2) by blast
  have size: "mb_GetBufferSize m1 = mb_GetBufferSize m"
    using m1(1) mb_poke_WriteCompleted [OF assms(1,2)] by (auto simp: mb_Write_def split: if_splits)
  let ?r = "mb_ReadCompleted n m1"
  have r: "mb_inv ?r" "mb_active ?r = drop n (mb_active m @ bs)"
    using mb.read_ok [OF m1(2), of n] m1(3) assms(3) by simp_all
  obtain m2 where m2: "mb_Normalize ?r = Some m2" "mb_inv m2" "mb_active m2 = mb_active ?r"
    and "mb_rpos m2 = 0" "mb_GetBufferSize m2 = mb_GetBufferSize m"
    using mb_Normalize_inv [OF r(1)] size by (auto simp: mb_ReadCompleted_def)
  then have "mb_GetActiveSize m2 + mb_GetRemainingSpace m2 = mb_GetBufferSize m"
    using m2(2) by (simp add: mb_space_def mb_inv_def)
  with m1(1) m2 r(2) show ?thesis by auto
qed

theorem message_buffer_fifo_witness:
  "\<exists>m1 m2. mb_Write [1, 2, 3] (mb_new 4) = Some m1
    \<and> mb_Normalize (mb_ReadCompleted 2 m1) = Some m2
    \<and> mb_inv m2 \<and> mb_active m2 = [3] \<and> mb_GetActiveSize m2 + mb_GetRemainingSpace m2 = 4"
  using message_buffer_fifo [of "mb_new 4" "[1, 2, 3]" 2] mb_new_inv [of 4]
  by (simp add: mb_new_def vec_resize_def)

end
