(* ===== verification/World_Socket.thy ===== *)
theory World_Socket
  imports Message_Buffer
begin

text \<open>
  The world server's side of a client connection: \<^verbatim>\<open>Socket\<close>
  (src/Core/src/server/shared/Networking/Socket.h), \<^verbatim>\<open>AuthCrypt\<close>
  (src/Core/src/server/shared/Cryptography/Authentication/AuthCrypt.cpp) and
  \<^verbatim>\<open>WorldSocket\<close> (src/Core/src/server/game/Server/WorldSocket.cpp): reassembly of
  packets from the byte stream, decryption of headers, dispatch of opcodes, the session
  handshake, the ping check and the ordered output queue.

  The ciphers and digests of OpenSSL, the account database, the clock and the
  configuration of the world are the fields of the environment \<open>ws_env\<close>, an argument of
  the operations. Calls into other components (database writes, script hooks, the
  session's loaders) are recorded in the list of events.
\<close>

section \<open>Encryption\<close>

record 'c crypto =
  cr_rc4_key :: "uint8 list \<Rightarrow> 'c"
  cr_rc4_update :: "uint8 list \<Rightarrow> 'c \<Rightarrow> uint8 list \<times> 'c"
  cr_hmac_sha1 :: "uint8 list \<Rightarrow> uint8 list \<Rightarrow> uint8 list"
  cr_sha1 :: "uint8 list \<Rightarrow> uint8 list"

record 'c authcrypt =
  ac_clientDecrypt :: 'c
  ac_serverEncrypt :: 'c
  ac_initialized :: bool

definition ServerEncryptionKey :: "uint8 list" where
  "ServerEncryptionKey = [0xCC, 0x98, 0xAE, 0x04, 0xE8, 0x97, 0xEA, 0xCA,
                          0x12, 0xDD, 0xC0, 0x93, 0x42, 0x91, 0x53, 0x57]"

definition ServerDecryptionKey :: "uint8 list" where
  "ServerDecryptionKey = [0xC2, 0xB3, 0x72, 0x3C, 0xC6, 0xAE, 0xD9, 0xB5,
                          0x34, 0x3C, 0x53, 0xEE, 0x2F, 0x43, 0x67, 0xCE]"

text \<open>\<^verbatim>\<open>Init\<close>: key both ciphers and drop the first 1024 bytes of their streams.\<close>

definition ac_Init :: "'c crypto \<Rightarrow> uint8 list \<Rightarrow> 'c authcrypt \<Rightarrow> 'c authcrypt" where
  "ac_Init cr K ac =
     (let encryptHash = cr_hmac_sha1 cr ServerEncryptionKey K;
          decryptHash = cr_hmac_sha1 cr ServerDecryptionKey K;
          syncBuf = replicate 1024 0
      in ac\<lparr>ac_clientDecrypt := snd (cr_rc4_update cr syncBuf (cr_rc4_key cr decryptHash)),
           ac_serverEncrypt := snd (cr_rc4_update cr syncBuf (cr_rc4_key cr encryptHash)),
           ac_initialized := True\<rparr>)"

definition ac_DecryptRecv :: "'c crypto \<Rightarrow> uint8 list \<Rightarrow> 'c authcrypt \<Rightarrow> uint8 list \<times> 'c authcrypt" where
  "ac_DecryptRecv cr data ac =
     (if \<not> ac_initialized ac then (data, ac)
      else case cr_rc4_update cr data (ac_clientDecrypt ac) of
             (d, c) \<Rightarrow> (d, ac\<lparr>ac_clientDecrypt := c\<rparr>))"

definition ac_EncryptSend :: "'c crypto \<Rightarrow> uint8 list \<Rightarrow> 'c authcrypt \<Rightarrow> uint8 list \<times> 'c authcrypt" where
  "ac_EncryptSend cr data ac =
     (if \<not> ac_initialized ac then (data, ac)
      else case cr_rc4_update cr data (ac_serverEncrypt ac) of
             (d, c) \<Rightarrow> (d, ac\<lparr>ac_serverEncrypt := c\<rparr>))"

section \<open>Packet headers\<close>

record client_header =
  ch_size :: uint16
  ch_cmd :: uint32

definition ch_IsValidSize :: "client_header \<Rightarrow> bool" where
  "ch_IsValidSize h \<longleftrightarrow> ch_size h \<ge> 4 \<and> ch_size h < 10240"

definition NUM_MSG_TYPES :: uint32 where "NUM_MSG_TYPES = 0x51F"

definition ch_IsValidOpcode :: "client_header \<Rightarrow> bool" where
  "ch_IsValidOpcode h \<longleftrightarrow> ch_cmd h < NUM_MSG_TYPES"

text \<open>
  The six header bytes as they arrive: the size in network (big-endian) order, which
  \<^verbatim>\<open>EndianConvertReverse\<close> turns, the opcode in little-endian order.
\<close>

definition parse_client_header :: "uint8 list \<Rightarrow> client_header" where
  "parse_client_header bs =
     \<lparr>ch_size = word_of_le (rev (take 2 bs)), ch_cmd = word_of_le (drop 2 bs)\<rparr>"

text \<open>The header as it lies in memory after the conversions, in the host's byte order.\<close>

definition header_image :: "bool \<Rightarrow> client_header \<Rightarrow> uint8 list" where
  "header_image big h = mem_image big 2 (ch_size h) @ mem_image big 4 (ch_cmd h)"

definition header_cmd :: "bool \<Rightarrow> uint8 list \<Rightarrow> uint32" where
  "header_cmd big bs = of_mem_image big (take 4 (drop 2 bs))"

text \<open>\<^verbatim>\<open>ServerPktHeader\<close>: three size bytes with the top bit set above 0x7FFF.\<close>

definition sh_isLargePacket :: "uint32 \<Rightarrow> bool" where
  "sh_isLargePacket sze \<longleftrightarrow> sze > 0x7FFF"

definition sh_getHeaderLength :: "uint32 \<Rightarrow> nat" where
  "sh_getHeaderLength sze = 2 + (if sh_isLargePacket sze then 3 else 2)"

definition server_header :: "uint32 \<Rightarrow> uint16 \<Rightarrow> uint8 list" where
  "server_header sze cmd =
     (if sh_isLargePacket sze then [0x80 OR ucast (0xFF AND drop_bit 16 sze)] else [])
     @ [ucast (0xFF AND drop_bit 8 sze), ucast (0xFF AND sze),
        ucast (0xFF AND cmd), ucast (0xFF AND drop_bit 8 cmd)]"

section \<open>State\<close>

record account_row =
  ar_id :: uint32
  ar_sessionkey :: "uint8 list"
  ar_last_ip :: string
  ar_locked :: uint8
  ar_expansion :: uint8
  ar_mutetime :: int
  ar_locale :: uint8
  ar_recruiter :: uint32
  ar_os :: string

record session =
  se_accountId :: uint32
  se_security :: uint8
  se_expansion :: uint8
  se_muteTime :: int
  se_locale :: uint8
  se_recruiterId :: uint32
  se_isRecruiter :: bool
  se_latency :: uint32
  se_clientTimeDelay :: uint32
  se_timeOutTime :: int32
  se_recvQueue :: "worldpacket list"

datatype ws_event =
    UpdLastAttemptIp string "uint8 list"
  | UpdMuteTime int uint32
  | UpdLastIp string "uint8 list"
  | UpdOnline uint32
  | OnFailedAccountLogin uint32
  | OnAccountLogin uint32
  | OnPacketReceive worldpacket
  | SessionLoaded bytebuffer
  | InitWarden "uint8 list" string
  | AddSession uint32
  | StartAsyncWrite

record 'c wcore =
  ws_closed :: bool
  ws_closing :: bool
  ws_isWritingAsync :: bool
  ws_writeBuffer :: msgbuf
  ws_writeQueue :: "msgbuf list"
  ws_headerBuffer :: msgbuf
  ws_packetBuffer :: msgbuf
  ws_authSeed :: uint32
  ws_authCrypt :: "'c authcrypt"
  ws_LastPingTime :: int
  ws_OverSpeedPings :: uint32
  ws_worldSession :: "session option"
  ws_events :: "ws_event list"

text \<open>
  The environment of one call: the byte order of the host, the remote address, the clock
  (nanoseconds of the steady clock, seconds of the wall clock), the configuration, the
  answers of the account database and the ciphers.
\<close>

record 'c ws_env =
  we_big :: bool
  we_crypto :: "'c crypto"
  we_address :: string
  we_steady_now :: int
  we_time :: int
  we_maxOverspeedPings :: uint32
  we_skipOverspeedCheck :: bool
  we_socketTimeOut :: int32
  we_worldClosed :: bool
  we_realmID :: uint32
  we_wardenActive :: bool
  we_expansion :: uint32
  we_securityLimit :: uint8
  we_account :: "uint8 list \<Rightarrow> account_row option"
  we_gmlevel :: "uint32 \<Rightarrow> uint8 option"
  we_banned :: "uint32 \<Rightarrow> bool"
  we_isRecruiter :: "uint32 \<Rightarrow> bool"

datatype ws_error =
    PacketException bb_error
  | SocketAssertionFailed
  | SocketUndefinedBehaviour
  | OutOfFuel

type_synonym ('a, 'c) wsop = "(ws_error, 'a, 'c wcore) eff"

definition ws_IsOpen :: "'c wcore \<Rightarrow> bool" where
  "ws_IsOpen c \<longleftrightarrow> \<not> ws_closed c \<and> \<not> ws_closing c"

definition ws_CloseSocket :: "'c wcore \<Rightarrow> 'c wcore" where
  "ws_CloseSocket c = c\<lparr>ws_closed := True\<rparr>"

definition ws_DelayedCloseSocket :: "'c wcore \<Rightarrow> 'c wcore" where
  "ws_DelayedCloseSocket c = c\<lparr>ws_closing := True\<rparr>"

definition ws_event :: "ws_event \<Rightarrow> 'c wcore \<Rightarrow> 'c wcore" where
  "ws_event e c = c\<lparr>ws_events := ws_events c @ [e]\<rparr>"

definition ofUB :: "'a option \<Rightarrow> ('a, 'c) wsop" where
  "ofUB x = (case x of None \<Rightarrow> throw SocketUndefinedBehaviour | Some y \<Rightarrow> ret y)"

section \<open>Output\<close>

definition ws_QueuePacket :: "msgbuf \<Rightarrow> (unit, 'c) wsop" where
  "ws_QueuePacket buffer = modE (\<lambda>c. c\<lparr>ws_writeQueue := ws_writeQueue c @ [buffer]\<rparr>)"

text \<open>
  \<^verbatim>\<open>SendPacket\<close>, in the build without completion ports: into the write buffer when
  nothing is queued and the packet fits, otherwise as a buffer of its own behind the
  queue.
\<close>

definition ws_SendPacket :: "'c ws_env \<Rightarrow> worldpacket \<Rightarrow> (unit, 'c) wsop" where
  "ws_SendPacket env packet c =
     (if \<not> ws_IsOpen c then ret () c
      else
        let sze = of_nat (length (bb_storage packet) + 2) :: uint32;
            len = sh_getHeaderLength sze;
            (hdr, ac) = ac_EncryptSend (we_crypto env) (server_header sze (wp_opcode packet))
                          (ws_authCrypt c);
            body = bb_storage packet;
            c1 = c\<lparr>ws_authCrypt := ac\<rparr>
        in if ws_writeQueue c1 = []
              \<and> mb_GetRemainingSpace (ws_writeBuffer c1) \<ge> sz (len + length body)
           then bindE (ofUB (mb_Write hdr (ws_writeBuffer c1)))
                  (\<lambda>w1. bindE (if body \<noteq> [] then ofUB (mb_Write body w1) else ret w1)
                    (\<lambda>w2. modE (\<lambda>c. c\<lparr>ws_writeBuffer := w2\<rparr>))) c1
           else bindE (ofUB (mb_Write hdr (mb_new (sz (len + length body)))))
                  (\<lambda>w1. bindE (if body \<noteq> [] then ofUB (mb_Write body w1) else ret w1)
                    ws_QueuePacket) c1)"

definition AUTH_FAILED :: uint8 where "AUTH_FAILED = 13"
definition AUTH_REJECT :: uint8 where "AUTH_REJECT = 14"
definition AUTH_UNAVAILABLE :: uint8 where "AUTH_UNAVAILABLE = 16"
definition AUTH_UNKNOWN_ACCOUNT :: uint8 where "AUTH_UNKNOWN_ACCOUNT = 21"
definition AUTH_BANNED :: uint8 where "AUTH_BANNED = 28"
definition REALM_LIST_REALM_NOT_FOUND :: uint8 where "REALM_LIST_REALM_NOT_FOUND = 39"

definition CMSG_PING :: uint16 where "CMSG_PING = 0x1DC"
definition SMSG_PONG :: uint16 where "SMSG_PONG = 0x1DD"
definition SMSG_AUTH_CHALLENGE :: uint16 where "SMSG_AUTH_CHALLENGE = 0x1EC"
definition CMSG_AUTH_SESSION :: uint16 where "CMSG_AUTH_SESSION = 0x1ED"
definition SMSG_AUTH_RESPONSE :: uint16 where "SMSG_AUTH_RESPONSE = 0x1EE"
definition CMSG_KEEP_ALIVE :: uint16 where "CMSG_KEEP_ALIVE = 0x407"

definition ws_SendAuthResponseError :: "'c ws_env \<Rightarrow> uint8 \<Rightarrow> (unit, 'c) wsop" where
  "ws_SendAuthResponseError env code = ws_SendPacket env (packet_of SMSG_AUTH_RESPONSE [code])"

text \<open>\<^verbatim>\<open>HandleSendAuthSession\<close>; the two random seeds of 16 bytes are arguments.\<close>

definition ws_HandleSendAuthSession ::
  "'c ws_env \<Rightarrow> uint8 list \<Rightarrow> uint8 list \<Rightarrow> (unit, 'c) wsop" where
  "ws_HandleSendAuthSession env seed1 seed2 c =
     ws_SendPacket env
       (packet_of SMSG_AUTH_CHALLENGE
          (le_bytes 4 (1 :: uint32) @ le_bytes 4 (ws_authSeed c) @ seed1 @ seed2)) c"

section \<open>The session handshake\<close>

record auth_request =
  aq_clientBuild :: uint32
  aq_serverId :: uint32
  aq_account :: "uint8 list"
  aq_loginServerType :: uint32
  aq_clientSeed :: uint32
  aq_region :: uint32
  aq_battlegroup :: uint32
  aq_realmIndex :: uint32
  aq_unk4 :: uint64
  aq_digest :: "uint8 list"

definition read_auth_request :: "bool \<Rightarrow> auth_request bbop" where
  "read_auth_request big =
     bindE (bb_shr big) (\<lambda>clientBuild.
     bindE (bb_shr big) (\<lambda>serverId.
     bindE (bb_get_string big) (\<lambda>account.
     bindE (bb_shr big) (\<lambda>loginServerType.
     bindE (bb_shr big) (\<lambda>clientSeed.
     bindE (bb_shr big) (\<lambda>region.
     bindE (bb_shr big) (\<lambda>battlegroup.
     bindE (bb_shr big) (\<lambda>realmIndex.
     bindE (bb_shr big) (\<lambda>unk4.
     bindE (bb_read_bytes 20) (\<lambda>digest.
       ret \<lparr>aq_clientBuild = clientBuild, aq_serverId = serverId, aq_account = account,
            aq_loginServerType = loginServerType, aq_clientSeed = clientSeed, aq_region = region,
            aq_battlegroup = battlegroup, aq_realmIndex = realmIndex, aq_unk4 = unk4,
            aq_digest = digest\<rparr>))))))))))"

text \<open>The digest the client has to present, over native images of the seeds.\<close>

definition auth_digest :: "'c ws_env \<Rightarrow> uint8 list \<Rightarrow> uint32 \<Rightarrow> uint32 \<Rightarrow> uint8 list \<Rightarrow> uint8 list" where
  "auth_digest env account clientSeed authSeed K =
     cr_sha1 (we_crypto env)
       (account @ replicate 4 0 @ mem_image (we_big env) 4 clientSeed
        @ mem_image (we_big env) 4 authSeed @ K)"

text \<open>
  The checks of \<^verbatim>\<open>HandleAuthSession\<close> after the account is known, in the order of the
  code: \<open>Inl (code, hook)\<close> is the response of the first check that fails and whether the
  failed-login hook is called, \<open>Inr\<close> the security level of the account.
\<close>

definition auth_checks ::
  "'c ws_env \<Rightarrow> uint32 \<Rightarrow> auth_request \<Rightarrow> account_row \<Rightarrow> (uint8 \<times> bool) + uint8" where
  "auth_checks env authSeed rq row =
     (if we_worldClosed env then Inl (AUTH_REJECT, False)
      else if aq_realmIndex rq \<noteq> we_realmID env then Inl (REALM_LIST_REALM_NOT_FOUND, False)
      else if we_wardenActive env \<and> ar_os row \<noteq> ''Win'' \<and> ar_os row \<noteq> ''OSX''
      then Inl (AUTH_REJECT, False)
      else if auth_digest env (aq_account rq) (aq_clientSeed rq) authSeed (ar_sessionkey row)
                \<noteq> aq_digest rq
      then Inl (AUTH_FAILED, False)
      else if ar_locked row = 1 \<and> ar_last_ip row \<noteq> we_address env then Inl (AUTH_FAILED, True)
      else
        let security = (case we_gmlevel env (ar_id row) of None \<Rightarrow> 0 | Some l \<Rightarrow> l)
        in if we_banned env (ar_id row) then Inl (AUTH_BANNED, True)
           else if we_securityLimit env > 0 \<and> security < we_securityLimit env
           then Inl (AUTH_UNAVAILABLE, True)
           else Inr security)"

definition auth_mutetime :: "'c ws_env \<Rightarrow> account_row \<Rightarrow> int" where
  "auth_mutetime env row =
     (if ar_mutetime row < 0 then we_time env + \<bar>ar_mutetime row\<bar> else ar_mutetime row)"

text \<open>
  The mute time is written back once the digest and the address have been accepted, before
  the ban and security checks.
\<close>

definition auth_reaches_mutetime :: "'c ws_env \<Rightarrow> uint32 \<Rightarrow> auth_request \<Rightarrow> account_row \<Rightarrow> bool" where
  "auth_reaches_mutetime env authSeed rq row \<longleftrightarrow>
     (case auth_checks env authSeed rq row of
        Inr _ \<Rightarrow> True
      | Inl (code, _) \<Rightarrow> code = AUTH_BANNED \<or> code = AUTH_UNAVAILABLE)"

definition new_session ::
  "'c ws_env \<Rightarrow> uint8 \<Rightarrow> account_row \<Rightarrow> session" where
  "new_session env security row =
     \<lparr>se_accountId = ar_id row, se_security = security,
      se_expansion = (if ucast (ar_expansion row) > we_expansion env
                      then ucast (we_expansion env) else ar_expansion row),
      se_muteTime = auth_mutetime env row,
      se_locale = (if ar_locale row \<ge> 9 then 0 else ar_locale row),
      se_recruiterId = ar_recruiter row, se_isRecruiter = we_isRecruiter env (ar_id row),
      se_latency = 0, se_clientTimeDelay = 0, se_timeOutTime = we_socketTimeOut env,
      se_recvQueue = []\<rparr>"

definition ws_HandleAuthSession :: "'c ws_env \<Rightarrow> bytebuffer \<Rightarrow> (unit, 'c) wsop" where
  "ws_HandleAuthSession env recvPacket c =
     (case read_auth_request (we_big env) recvPacket of
        (Inl e, _) \<Rightarrow> throw (PacketException e) c
      | (Inr rq, rest) \<Rightarrow>
          (case we_account env (aq_account rq) of
             None \<Rightarrow>
               bindE (ws_SendAuthResponseError env AUTH_UNKNOWN_ACCOUNT)
                 (\<lambda>_. modE ws_DelayedCloseSocket) c
           | Some row \<Rightarrow>
               let c1 = ws_event (UpdLastAttemptIp (we_address env) (aq_account rq)) c;
                   c2 = c1\<lparr>ws_authCrypt := ac_Init (we_crypto env) (ar_sessionkey row) (ws_authCrypt c1)\<rparr>;
                   c3 = (if auth_reaches_mutetime env (ws_authSeed c) rq row \<and> ar_mutetime row < 0
                         then ws_event (UpdMuteTime (auth_mutetime env row) (ar_id row)) c2 else c2)
               in (case auth_checks env (ws_authSeed c) rq row of
                     Inl (code, hook) \<Rightarrow>
                       bindE (ws_SendAuthResponseError env code)
                         (\<lambda>_. modE (\<lambda>c. ws_DelayedCloseSocket
                            (if hook then ws_event (OnFailedAccountLogin (ar_id row)) c else c))) c3
                   | Inr security \<Rightarrow>
                       let c4 = ws_event (OnAccountLogin (ar_id row))
                                  (ws_event (UpdLastIp (we_address env) (aq_account rq)) c3);
                           c5 = ws_event (SessionLoaded rest)
                                  (ws_event (UpdOnline (ar_id row))
                                    (c4\<lparr>ws_worldSession := Some (new_session env security row)\<rparr>));
                           c6 = (if we_wardenActive env
                                 then ws_event (InitWarden (ar_sessionkey row) (ar_os row)) c5 else c5)
                       in ret () (ws_event (AddSession (ar_id row)) c6))))"

section \<open>Ping\<close>

definition ws_HandlePing :: "'c ws_env \<Rightarrow> bytebuffer \<Rightarrow> (unit, 'c) wsop" where
  "ws_HandlePing env recvPacket c =
     (case bindE (bb_shr (we_big env) :: uint32 bbop)
             (\<lambda>ping. bindE (bb_shr (we_big env) :: uint32 bbop) (\<lambda>latency. ret (ping, latency)))
             recvPacket of
        (Inl e, _) \<Rightarrow> throw (PacketException e) c
      | (Inr (ping, latency), _) \<Rightarrow>
          let now = we_steady_now env;
              fast = (ws_LastPingTime c \<noteq> 0 \<and> now - ws_LastPingTime c < 27 * 1000000000);
              c1 = (if ws_LastPingTime c = 0 then c\<lparr>ws_LastPingTime := now\<rparr>
                    else if fast
                    then c\<lparr>ws_LastPingTime := now, ws_OverSpeedPings := ws_OverSpeedPings c + 1\<rparr>
                    else c\<lparr>ws_LastPingTime := now, ws_OverSpeedPings := 0\<rparr>);
              maxAllowed = we_maxOverspeedPings env
          in if fast \<and> maxAllowed \<noteq> 0 \<and> ws_OverSpeedPings c1 > maxAllowed
                \<and> ws_worldSession c1 \<noteq> None \<and> \<not> we_skipOverspeedCheck env
             then ret () (ws_CloseSocket c1)
             else (case ws_worldSession c1 of
                     None \<Rightarrow> ret () (ws_CloseSocket c1)
                   | Some ses \<Rightarrow>
                       ws_SendPacket env (packet_of SMSG_PONG (le_bytes 4 ping))
                         (c1\<lparr>ws_worldSession := Some (ses\<lparr>se_latency := latency,
                                                        se_clientTimeDelay := 0\<rparr>)\<rparr>)))"

section \<open>Input\<close>

definition ws_ReadHeaderHandler :: "'c ws_env \<Rightarrow> (bool, 'c) wsop" where
  "ws_ReadHeaderHandler env c =
     (if mb_GetActiveSize (ws_headerBuffer c) \<noteq> 6 then throw SocketAssertionFailed c
      else case mb_peek 6 (ws_headerBuffer c) of
        None \<Rightarrow> throw SocketUndefinedBehaviour c
      | Some raw \<Rightarrow>
          let (bs, ac) = ac_DecryptRecv (we_crypto env) raw (ws_authCrypt c);
              header = parse_client_header bs;
              store = (\<lambda>h. (ws_headerBuffer c)\<lparr>mb_storage :=
                         vec_write (mb_rpos (ws_headerBuffer c)) (header_image (we_big env) h)
                           (mb_storage (ws_headerBuffer c))\<rparr>);
              c1 = c\<lparr>ws_authCrypt := ac, ws_headerBuffer := store header\<rparr>
          in if \<not> ch_IsValidSize header \<or> \<not> ch_IsValidOpcode header
             then ret False (ws_CloseSocket c1)
             else
               let header' = header\<lparr>ch_size := ch_size header - 4\<rparr>
               in ret True (c1\<lparr>ws_headerBuffer := store header',
                               ws_packetBuffer := mb_Resize (unat (ch_size header')) (ws_packetBuffer c1)\<rparr>))"

definition ws_ReadDataHandler :: "'c ws_env \<Rightarrow> (bool, 'c) wsop" where
  "ws_ReadDataHandler env c =
     (case mb_peek 6 (ws_headerBuffer c) of
        None \<Rightarrow> throw SocketUndefinedBehaviour c
      | Some raw \<Rightarrow>
          let opcode = ucast (header_cmd (we_big env) raw) :: uint16;
              (packet, pb) = wp_of_msgbuf opcode (ws_packetBuffer c);
              body = bytebuffer.truncate packet;
              c1 = c\<lparr>ws_packetBuffer := pb\<rparr>
          in if opcode = CMSG_PING
             then bindE (ws_HandlePing env body) (\<lambda>_. ret True) c1
             else if opcode = CMSG_AUTH_SESSION
             then (if ws_worldSession c1 \<noteq> None then ret True c1
                   else bindE (ws_HandleAuthSession env body) (\<lambda>_. ret True) c1)
             else if opcode = CMSG_KEEP_ALIVE
             then ret True (ws_event (OnPacketReceive packet) c1)
             else (case ws_worldSession c1 of
                     None \<Rightarrow> ret False (ws_CloseSocket c1)
                   | Some ses \<Rightarrow>
                       ret True (c1\<lparr>ws_worldSession := Some (ses\<lparr>
                         se_timeOutTime := we_socketTimeOut env,
                         se_recvQueue := se_recvQueue ses @ [packet]\<rparr>)\<rparr>)))"

text \<open>
  One iteration of the loop of \<^verbatim>\<open>ReadHandler\<close>. The outcome says how the loop goes on:
  \<open>Return\<close> leaves the handler, \<open>Break\<close> leaves the loop, \<open>Continue\<close> starts the next
  iteration.
\<close>

datatype rh_outcome = Return | Break | Continue

type_synonym 'c rh_state = "msgbuf \<times> 'c wcore"

text \<open>
  The part after the header: fill the payload from the read buffer and, when it is
  complete, handle the packet.
\<close>

definition rh_payload :: "'c ws_env \<Rightarrow> (ws_error, rh_outcome, 'c rh_state) eff" where
  "rh_payload env = (\<lambda>(packet, c).
     let handle = (\<lambda>(packet, c).
           case ws_ReadDataHandler env c of
             (Inl e, c') \<Rightarrow> (Inl e, packet, c')
           | (Inr False, c') \<Rightarrow> (Inr Return, packet, c')
           | (Inr True, c') \<Rightarrow>
               (Inr Continue, packet, c'\<lparr>ws_headerBuffer := mb_Reset (ws_headerBuffer c')\<rparr>))
     in if mb_GetRemainingSpace (ws_packetBuffer c) > 0
        then let n = min (mb_GetActiveSize packet) (mb_GetRemainingSpace (ws_packetBuffer c))
             in (case Option.bind (mb_peek n packet) (\<lambda>bs. mb_Write bs (ws_packetBuffer c)) of
                   None \<Rightarrow> (Inl SocketUndefinedBehaviour, packet, c)
                 | Some pb \<Rightarrow>
                     let packet' = mb_ReadCompleted n packet; c' = c\<lparr>ws_packetBuffer := pb\<rparr>
                     in if mb_GetRemainingSpace pb > 0
                        then (if mb_GetActiveSize packet' \<noteq> 0
                              then (Inl SocketAssertionFailed, packet', c')
                              else (Inr Break, packet', c'))
                        else handle (packet', c'))
        else handle (packet, c))"

definition rh_body :: "'c ws_env \<Rightarrow> (ws_error, rh_outcome, 'c rh_state) eff" where
  "rh_body env = (\<lambda>(packet, c).
     if mb_GetRemainingSpace (ws_headerBuffer c) > 0
     then let n = min (mb_GetActiveSize packet) (mb_GetRemainingSpace (ws_headerBuffer c))
          in (case Option.bind (mb_peek n packet) (\<lambda>bs. mb_Write bs (ws_headerBuffer c)) of
                None \<Rightarrow> (Inl SocketUndefinedBehaviour, packet, c)
              | Some hb \<Rightarrow>
                  let packet' = mb_ReadCompleted n packet; c' = c\<lparr>ws_headerBuffer := hb\<rparr>
                  in if mb_GetRemainingSpace hb > 0
                     then (if mb_GetActiveSize packet' \<noteq> 0
                           then (Inl SocketAssertionFailed, packet', c')
                           else (Inr Break, packet', c'))
                     else (case ws_ReadHeaderHandler env c' of
                             (Inl e, c2) \<Rightarrow> (Inl e, packet', c2)
                           | (Inr False, c2) \<Rightarrow> (Inr Return, packet', c2)
                           | (Inr True, c2) \<Rightarrow> rh_payload env (packet', c2)))
     else rh_payload env (packet, c))"

text \<open>
  The loop. Its fuel is spent one unit per iteration; \<open>rh_fuel\<close> is shown to be enough.
\<close>

fun rh_loop :: "nat \<Rightarrow> 'c ws_env \<Rightarrow> (ws_error, rh_outcome, 'c rh_state) eff" where
  "rh_loop 0 env st = (Inl OutOfFuel, st)"
| "rh_loop (Suc fuel) env st =
     (if mb_GetActiveSize (fst st) > 0
      then case rh_body env st of
             (Inr Continue, st') \<Rightarrow> rh_loop fuel env st'
           | r \<Rightarrow> r
      else (Inr Break, st))"

definition rh_fuel :: "msgbuf \<Rightarrow> nat" where
  "rh_fuel packet = mb_GetActiveSize packet + 2"

text \<open>
  \<^verbatim>\<open>AsyncRead\<close> hands 4096 bytes at the write position to the operating system, which
  must lie inside the vector. The result says whether a read is under way.
\<close>

definition ws_AsyncRead :: "(ws_error, bool, 'c rh_state) eff" where
  "ws_AsyncRead = (\<lambda>(rb, c).
     if \<not> ws_IsOpen c then (Inr False, rb, c)
     else case mb_Normalize rb of
            None \<Rightarrow> (Inl SocketUndefinedBehaviour, rb, c)
          | Some rb' \<Rightarrow>
              if mb_wpos rb' + 4096 > mb_GetBufferSize rb' then (Inl SocketUndefinedBehaviour, rb', c)
              else (Inr True, rb', c))"

definition ws_ReadHandler :: "'c ws_env \<Rightarrow> (ws_error, bool, 'c rh_state) eff" where
  "ws_ReadHandler env = (\<lambda>(rb, c).
     if \<not> ws_IsOpen c then (Inr False, rb, c)
     else case rh_loop (rh_fuel rb) env (rb, c) of
            (Inl e, st) \<Rightarrow> (Inl e, st)
          | (Inr Return, st) \<Rightarrow> (Inr False, st)
          | (Inr _, st) \<Rightarrow> ws_AsyncRead st)"

text \<open>
  \<^verbatim>\<open>ReadHandlerInternal\<close>: \<open>None\<close> is a transport error, \<open>Some bs\<close> the bytes the
  operating system has placed at the write position.
\<close>

definition ws_ReadHandlerInternal ::
  "'c ws_env \<Rightarrow> uint8 list option \<Rightarrow> (ws_error, bool, 'c rh_state) eff" where
  "ws_ReadHandlerInternal env transferred = (\<lambda>(rb, c).
     case transferred of
       None \<Rightarrow> (Inr False, rb, ws_CloseSocket c)
     | Some bs \<Rightarrow>
         (case mb_poke bs rb of
            None \<Rightarrow> (Inl SocketUndefinedBehaviour, rb, c)
          | Some rb' \<Rightarrow> ws_ReadHandler env (mb_WriteCompleted (length bs) rb', c)))"

text \<open>
  \<^verbatim>\<open>ReadData\<close>: a blocking read of \<open>len\<close> bytes into the read buffer; the transport
  delivers \<open>bs\<close> and says whether it failed.
\<close>

definition ws_ReadData :: "nat \<Rightarrow> uint8 list \<times> bool \<Rightarrow> (ws_error, unit, 'c rh_state) eff" where
  "ws_ReadData len got = (\<lambda>(rb, c).
     if \<not> ws_IsOpen c then (Inr (), rb, c)
     else if mb_wpos rb + len > mb_GetBufferSize rb then (Inl SocketUndefinedBehaviour, rb, c)
     else case mb_poke (fst got) rb of
            None \<Rightarrow> (Inl SocketUndefinedBehaviour, rb, c)
          | Some rb' \<Rightarrow>
              (Inr (), mb_WriteCompleted (length (fst got)) rb',
               if snd got \<or> length (fst got) \<noteq> len then ws_CloseSocket c else c))"

text \<open>The constructor and \<^verbatim>\<open>Start\<close>\<close>

definition ws_new :: "uint32 \<Rightarrow> 'c \<Rightarrow> 'c rh_state" where
  "ws_new authSeed k =
     (mb_Resize 4096 (mb_new 4096),
      \<lparr>ws_closed = False, ws_closing = False, ws_isWritingAsync = False,
       ws_writeBuffer = mb_new 4096, ws_writeQueue = [],
       ws_headerBuffer = mb_Resize 6 (mb_new 4096), ws_packetBuffer = mb_new 4096,
       ws_authSeed = authSeed,
       ws_authCrypt = \<lparr>ac_clientDecrypt = k, ac_serverEncrypt = k, ac_initialized = False\<rparr>,
       ws_LastPingTime = 0, ws_OverSpeedPings = 0, ws_worldSession = None, ws_events = []\<rparr>)"

definition ws_Start ::
  "'c ws_env \<Rightarrow> uint8 list \<Rightarrow> uint8 list \<Rightarrow> (ws_error, bool, 'c rh_state) eff" where
  "ws_Start env seed1 seed2 =
     bindE ws_AsyncRead (\<lambda>b (rb, c).
       case ws_HandleSendAuthSession env seed1 seed2 c of
         (Inl e, c') \<Rightarrow> (Inl e, rb, c')
       | (Inr _, c') \<Rightarrow> (Inr b, rb, c'))"

section \<open>The write side\<close>

text \<open>
  The answer of \<^verbatim>\<open>write_some\<close>: the socket would block, another error, or the number of
  bytes taken.
\<close>

datatype wr_result = WouldBlock | WriteError | Wrote nat

definition ws_AsyncProcessQueue :: "'c wcore \<Rightarrow> bool \<times> 'c wcore" where
  "ws_AsyncProcessQueue c =
     (if ws_isWritingAsync c then (False, c)
      else (False, ws_event StartAsyncWrite (c\<lparr>ws_isWritingAsync := True\<rparr>)))"

text \<open>
  \<^verbatim>\<open>HandleQueue\<close> returns whether the caller should go on, the bytes that left through
  the socket, and the new state.
\<close>

definition ws_HandleQueue :: "(uint8 list \<Rightarrow> wr_result) \<Rightarrow> 'c wcore \<Rightarrow> bool \<times> uint8 list \<times> 'c wcore" where
  "ws_HandleQueue wr c =
     (case ws_writeQueue c of
        [] \<Rightarrow> (False, [], c)
      | queuedMessage # queue \<Rightarrow>
          let data = mb_active queuedMessage; bytesToSend = mb_GetActiveSize queuedMessage
          in (case wr data of
                WouldBlock \<Rightarrow> (case ws_AsyncProcessQueue c of (b, c') \<Rightarrow> (b, [], c'))
              | WriteError \<Rightarrow> (False, [], c\<lparr>ws_writeQueue := queue\<rparr>)
              | Wrote bytesSent \<Rightarrow>
                  if bytesSent = 0 then (False, [], c\<lparr>ws_writeQueue := queue\<rparr>)
                  else if bytesSent < bytesToSend
                  then (case ws_AsyncProcessQueue
                          (c\<lparr>ws_writeQueue := mb_ReadCompleted bytesSent queuedMessage # queue\<rparr>) of
                          (b, c') \<Rightarrow> (b, take bytesSent data, c'))
                  else (queue \<noteq> [], take bytesSent data, c\<lparr>ws_writeQueue := queue\<rparr>)))"

definition ws_WriteHandler ::
  "(uint8 list \<Rightarrow> wr_result) \<Rightarrow> 'c wcore \<Rightarrow> ws_error + (bool \<times> uint8 list \<times> 'c wcore)" where
  "ws_WriteHandler wr c =
     (if \<not> ws_IsOpen c then Inr (False, [], c)
      else
        let data = mb_active (ws_writeBuffer c); bytesToSend = mb_GetActiveSize (ws_writeBuffer c)
        in if bytesToSend = 0 then Inr (ws_HandleQueue wr c)
           else (case wr data of
                   WouldBlock \<Rightarrow> (case ws_AsyncProcessQueue c of (b, c') \<Rightarrow> Inr (b, [], c'))
                 | WriteError \<Rightarrow> Inr (False, [], c)
                 | Wrote bytesWritten \<Rightarrow>
                     if bytesWritten = 0 then Inr (False, [], c)
                     else if bytesWritten < bytesToSend
                     then (case mb_Normalize (mb_ReadCompleted bytesWritten (ws_writeBuffer c)) of
                             None \<Rightarrow> Inl SocketUndefinedBehaviour
                           | Some wb \<Rightarrow>
                               (case ws_AsyncProcessQueue (c\<lparr>ws_writeBuffer := wb\<rparr>) of
                                  (b, c') \<Rightarrow> Inr (b, take bytesWritten data, c')))
                     else (case ws_HandleQueue wr (c\<lparr>ws_writeBuffer := mb_Reset (ws_writeBuffer c)\<rparr>) of
                             (b, sent, c') \<Rightarrow> Inr (b, take bytesWritten data @ sent, c'))))"

text \<open>\<^verbatim>\<open>Update\<close>: the loop runs while \<^verbatim>\<open>WriteHandler\<close> says so.\<close>

lemma ws_HandleQueue_again:
  "ws_HandleQueue wr c = (True, sent, c') \<Longrightarrow>
   length (ws_writeQueue c') < length (ws_writeQueue c)"
  by (auto simp: ws_HandleQueue_def ws_AsyncProcessQueue_def Let_def
      split: list.splits wr_result.splits if_splits prod.splits)

lemma ws_WriteHandler_again:
  "ws_WriteHandler wr c = Inr (True, sent, c') \<Longrightarrow>
   length (ws_writeQueue c') < length (ws_writeQueue c)"
  by (auto simp: ws_WriteHandler_def ws_AsyncProcessQueue_def Let_def dest: ws_HandleQueue_again
      split: wr_result.splits if_splits prod.splits option.splits)

function ws_write_loop ::
  "(nat \<Rightarrow> uint8 list \<Rightarrow> wr_result) \<Rightarrow> 'c wcore \<Rightarrow> ws_error + (uint8 list \<times> 'c wcore)" where
  "ws_write_loop wr c =
     (case ws_WriteHandler (wr 0) c of
        Inl e \<Rightarrow> Inl e
      | Inr (False, sent, c') \<Rightarrow> Inr (sent, c')
      | Inr (True, sent, c') \<Rightarrow>
          (case ws_write_loop (\<lambda>i. wr (Suc i)) c' of
             Inl e \<Rightarrow> Inl e
           | Inr (sent', c'') \<Rightarrow> Inr (sent @ sent', c'')))"
  by pat_completeness auto
termination
  by (relation "measure (\<lambda>(wr, c). length (ws_writeQueue c))") (auto dest: ws_WriteHandler_again)

declare ws_write_loop.simps [simp del]

definition ws_Update ::
  "(nat \<Rightarrow> uint8 list \<Rightarrow> wr_result) \<Rightarrow> 'c wcore \<Rightarrow> ws_error + (bool \<times> uint8 list \<times> 'c wcore)" where
  "ws_Update wr c =
     (if \<not> ws_IsOpen c then Inr (False, [], c)
      else if ws_isWritingAsync c
              \<or> (mb_GetActiveSize (ws_writeBuffer c) = 0 \<and> ws_writeQueue c = [])
      then Inr (True, [], c)
      else (case ws_write_loop wr c of
              Inl e \<Rightarrow> Inl e
            | Inr (sent, c') \<Rightarrow> Inr (True, sent, c')))"

text \<open>The socket has become writable again after \<^verbatim>\<open>AsyncProcessQueue\<close>.\<close>

definition ws_WriteHandlerWrapper ::
  "(uint8 list \<Rightarrow> wr_result) \<Rightarrow> 'c wcore \<Rightarrow> ws_error + (bool \<times> uint8 list \<times> 'c wcore)" where
  "ws_WriteHandlerWrapper wr c = ws_WriteHandler wr (c\<lparr>ws_isWritingAsync := False\<rparr>)"

section \<open>Output order\<close>

definition ws_pending :: "'c wcore \<Rightarrow> uint8 list" where
  "ws_pending c = mb_active (ws_writeBuffer c) @ concat (map mb_active (ws_writeQueue c))"

definition ws_out_inv :: "'c wcore \<Rightarrow> bool" where
  "ws_out_inv c \<longleftrightarrow> mb_inv (ws_writeBuffer c) \<and> (\<forall>q \<in> set (ws_writeQueue c). mb_inv q)"

text \<open>What the sockets rely on of the stream cipher: it keeps the length of the data.\<close>

definition rc4_keeps_length :: "'c crypto \<Rightarrow> bool" where
  "rc4_keeps_length cr \<longleftrightarrow> (\<forall>d k. length (fst (cr_rc4_update cr d k)) = length d)"

lemma length_ac_EncryptSend:
  "rc4_keeps_length cr \<Longrightarrow> length (fst (ac_EncryptSend cr d ac)) = length d"
  by (auto simp: ac_EncryptSend_def rc4_keeps_length_def split: prod.splits) (metis fst_conv)

lemma length_ac_DecryptRecv:
  "rc4_keeps_length cr \<Longrightarrow> length (fst (ac_DecryptRecv cr d ac)) = length d"
  by (auto simp: ac_DecryptRecv_def rc4_keeps_length_def split: prod.splits) (metis fst_conv)

lemma length_server_header [simp]: "length (server_header sze cmd) = sh_getHeaderLength sze"
  by (simp add: server_header_def sh_getHeaderLength_def)

lemma write_two:
  assumes "mb_inv w" and "length hdr + length body \<le> mb_space w"
  shows "\<exists>w1 w2. mb_Write hdr w = Some w1 \<and> (if body \<noteq> [] then mb_Write body w1 else Some w1) = Some w2
    \<and> mb_inv w2 \<and> mb_active w2 = mb_active w @ hdr @ body"
  using mb.write_write [OF assms] by (cases "body = []") (auto simp: mb_Write_def)

definition wire_image :: "'c ws_env \<Rightarrow> worldpacket \<Rightarrow> 'c wcore \<Rightarrow> uint8 list" where
  "wire_image env packet c =
     fst (ac_EncryptSend (we_crypto env)
            (server_header (of_nat (length (bb_storage packet) + 2)) (wp_opcode packet))
            (ws_authCrypt c)) @ bb_storage packet"

lemma ws_SendPacket_appends:
  assumes opn: "ws_IsOpen c" and inv: "ws_out_inv c" and len: "rc4_keeps_length (we_crypto env)"
    and small: "length (bb_storage packet) < 2 ^ 62"
  shows "\<exists>c'. ws_SendPacket env packet c = (Inr (), c') \<and> ws_out_inv c'
    \<and> ws_pending c' = ws_pending c @ wire_image env packet c"
proof -
  let ?sze = "of_nat (length (bb_storage packet) + 2) :: uint32"
  let ?body = "bb_storage packet"
  obtain hdr ac where e: "ac_EncryptSend (we_crypto env) (server_header ?sze (wp_opcode packet))
      (ws_authCrypt c) = (hdr, ac)" by fastforce
  have hl: "length hdr = sh_getHeaderLength ?sze"
    using length_ac_EncryptSend [OF len, of "server_header ?sze (wp_opcode packet)" "ws_authCrypt c"]
    by (simp only: e fst_conv length_server_header)
  have "sh_getHeaderLength ?sze \<le> 5" by (simp add: sh_getHeaderLength_def)
  with hl small have sum: "sz (sh_getHeaderLength ?sze + length ?body) = length hdr + length ?body"
    and lim: "length hdr + length ?body < 2 ^ 63"
    by simp_all
  have wb: "mb_inv (ws_writeBuffer c)" using inv by (simp add: ws_out_inv_def)
  have wi: "wire_image env packet c = hdr @ ?body" unfolding wire_image_def e by simp
  show ?thesis
  proof (cases "ws_writeQueue c = [] \<and> mb_GetRemainingSpace (ws_writeBuffer c) \<ge> length hdr + length ?body")
    case True
    then have "length hdr + length ?body \<le> mb_space (ws_writeBuffer c)" using wb by simp
    from write_two [OF wb this] obtain w1 w2 where w: "mb_Write hdr (ws_writeBuffer c) = Some w1"
      "(if ?body \<noteq> [] then mb_Write ?body w1 else Some w1) = Some w2" "mb_inv w2"
      "mb_active w2 = mb_active (ws_writeBuffer c) @ hdr @ ?body" by blast
    with True opn inv show ?thesis
      unfolding ws_SendPacket_def ws_QueuePacket_def Let_def e prod.case sum wi
      by (auto simp: bindE_def ofUB_def ws_out_inv_def ws_pending_def split: if_splits)
  next
    case False
    have new: "mb_inv (mb_new (length hdr + length ?body))" "mb_active (mb_new (length hdr + length ?body)) = []"
      "mb_space (mb_new (length hdr + length ?body)) = length hdr + length ?body"
      using mb_new_inv [OF lim] by auto
    from write_two [OF new(1), of hdr ?body] new obtain w1 w2 where
      w: "mb_Write hdr (mb_new (length hdr + length ?body)) = Some w1"
      "(if ?body \<noteq> [] then mb_Write ?body w1 else Some w1) = Some w2" "mb_inv w2"
      "mb_active w2 = hdr @ ?body" by auto
    with False opn inv show ?thesis
      unfolding ws_SendPacket_def ws_QueuePacket_def Let_def e prod.case sum wi
      by (auto simp: bindE_def ofUB_def ws_out_inv_def ws_pending_def split: if_splits)
  qed
qed

text \<open>
  A call of \<^verbatim>\<open>WriteHandler\<close> sends a prefix of the pending bytes and keeps the rest, unless
  the transport fails on a queued buffer, which is then dropped.
\<close>

definition wr_ok :: "(uint8 list \<Rightarrow> wr_result) \<Rightarrow> bool" where
  "wr_ok wr \<longleftrightarrow> (\<forall>d n. wr d = Wrote n \<longrightarrow> 0 < n \<and> n \<le> length d) \<and> (\<forall>d. wr d \<noteq> WriteError)"

lemma AsyncProcessQueue_pending:
  "ws_AsyncProcessQueue c = (b, c') \<Longrightarrow> ws_pending c' = ws_pending c \<and> ws_out_inv c' = ws_out_inv c"
  by (auto simp: ws_AsyncProcessQueue_def ws_pending_def ws_out_inv_def ws_event_def split: if_splits)

lemma ws_HandleQueue_pending:
  assumes "ws_out_inv c" and "wr_ok wr" and "mb_active (ws_writeBuffer c) = []"
    and "ws_HandleQueue wr c = (again, sent, c')"
  shows "ws_out_inv c' \<and> sent @ ws_pending c' = ws_pending c"
proof (cases "ws_writeQueue c")
  case Nil
  with assms show ?thesis by (simp add: ws_HandleQueue_def)
next
  case (Cons q qs)
  have q: "mb_inv q" using assms(1) Cons by (simp add: ws_out_inv_def)
  show ?thesis
  proof (cases "wr (mb_active q)")
    case (Wrote n)
    then have n: "0 < n" "n \<le> length (mb_active q)" using assms(2) by (auto simp: wr_ok_def)
    let ?c1 = "c\<lparr>ws_writeQueue := mb_ReadCompleted n q # qs\<rparr>"
    have c1: "ws_out_inv ?c1" "take n (mb_active q) @ ws_pending ?c1 = ws_pending c"
      using mb.read_ok [OF q n(2)] assms(1,3) Cons by (auto simp: ws_out_inv_def ws_pending_def)
    show ?thesis
    proof (cases "n < mb_GetActiveSize q")
      case True
      then obtain b where "ws_AsyncProcessQueue ?c1 = (b, c')" "sent = take n (mb_active q)"
        using assms(4) Cons Wrote n by (auto simp: ws_HandleQueue_def split: prod.splits)
      with c1 AsyncProcessQueue_pending show ?thesis by metis
    next
      case False
      with n q have "n = length (mb_active q)" by simp
      with False assms Cons Wrote n q show ?thesis
        by (auto simp: ws_HandleQueue_def ws_out_inv_def ws_pending_def)
    qed
  qed (use assms Cons in \<open>auto simp: ws_HandleQueue_def wr_ok_def Let_def ws_AsyncProcessQueue_def
         ws_out_inv_def ws_pending_def ws_event_def split: if_splits\<close>)
qed

lemma ws_WriteHandler_pending:
  assumes "ws_out_inv c" and "wr_ok wr"
  shows "\<exists>again sent c'. ws_WriteHandler wr c = Inr (again, sent, c') \<and> ws_out_inv c'
    \<and> sent @ ws_pending c' = ws_pending c"
proof -
  let ?wb = "ws_writeBuffer c"
  have wb: "mb_inv ?wb" using assms(1) by (simp add: ws_out_inv_def)
  show ?thesis
  proof (cases "\<not> ws_IsOpen c \<or> mb_GetActiveSize ?wb = 0")
    case True
    moreover have "mb_GetActiveSize ?wb = 0 \<Longrightarrow> mb_active ?wb = []"
      using wb length_mb_active [OF wb] by (metis length_0_conv mb_GetActiveSize_inv)
    ultimately show ?thesis
      using assms ws_HandleQueue_pending [OF assms]
      by (cases "ws_HandleQueue wr c") (auto simp: ws_WriteHandler_def)
  next
    case False
    show ?thesis
    proof (cases "wr (mb_active ?wb)")
      case (Wrote n)
      then have n: "0 < n" "n \<le> length (mb_active ?wb)" using assms(2) by (auto simp: wr_ok_def)
      show ?thesis
      proof (cases "n < mb_GetActiveSize ?wb")
        case True
        obtain wb' where wb': "mb_Normalize (mb_ReadCompleted n ?wb) = Some wb'" "mb_inv wb'"
          "mb_active wb' = drop n (mb_active ?wb)"
          using mb.read_ok [OF wb n(2)] mb.norm_ok by metis
        let ?c1 = "c\<lparr>ws_writeBuffer := wb'\<rparr>"
        have "ws_out_inv ?c1" "take n (mb_active ?wb) @ ws_pending ?c1 = ws_pending c"
          using wb' assms(1) by (auto simp: ws_out_inv_def ws_pending_def)
        then show ?thesis
          using False True Wrote n wb'
          by (cases "ws_AsyncProcessQueue ?c1")
            (auto simp: ws_WriteHandler_def dest!: AsyncProcessQueue_pending)
      next
        case full: False
        let ?c1 = "c\<lparr>ws_writeBuffer := mb_Reset ?wb\<rparr>"
        obtain again sent c' where hq: "ws_HandleQueue wr ?c1 = (again, sent, c')"
          by (metis prod.exhaust)
        have "ws_out_inv ?c1" "mb_active (ws_writeBuffer ?c1) = []"
          "mb_active ?wb @ ws_pending ?c1 = ws_pending c"
          using mb_Reset_inv [OF wb] assms(1) by (auto simp: ws_out_inv_def ws_pending_def)
        moreover have "n = length (mb_active ?wb)" using full n wb by simp
        ultimately show ?thesis
          using ws_HandleQueue_pending [OF _ assms(2) _ hq] False full Wrote n hq
          by (auto simp: ws_WriteHandler_def)
      qed
    qed (use assms False in \<open>auto simp: ws_WriteHandler_def wr_ok_def Let_def
           ws_AsyncProcessQueue_def ws_out_inv_def ws_pending_def ws_event_def\<close>)
  qed
qed

lemma ws_write_loop_pending:
  assumes "\<And>i. wr_ok (wr i)"
  shows "ws_out_inv c \<Longrightarrow> \<exists>sent c'. ws_write_loop wr c = Inr (sent, c') \<and> ws_out_inv c'
    \<and> sent @ ws_pending c' = ws_pending c"
  using assms
proof (induction wr c rule: ws_write_loop.induct)
  case (1 wr c)
  obtain again sent c' where w: "ws_WriteHandler (wr 0) c = Inr (again, sent, c')" "ws_out_inv c'"
    "sent @ ws_pending c' = ws_pending c"
    using ws_WriteHandler_pending [OF 1(2) 1(3)] by blast
  show ?case
  proof (cases again)
    case False
    with w show ?thesis by (subst ws_write_loop.simps) simp
  next
    case True
    from 1(1) [OF w(1) refl _ refl w(2) 1(3)] True obtain sent' c'' where
      "ws_write_loop (\<lambda>i. wr (Suc i)) c' = Inr (sent', c'')" "ws_out_inv c''"
      "sent' @ ws_pending c'' = ws_pending c'" by auto
    with True w show ?thesis by (subst ws_write_loop.simps) (auto simp flip: w(3))
  qed
qed

section \<open>Input: invariant of the handlers\<close>

text \<open>
  Between two iterations the header buffer holds fewer than six bytes and no payload has
  been stored, or the header is complete and the payload is not.
\<close>

definition ws_rx_inv :: "'c wcore \<Rightarrow> bool" where
  "ws_rx_inv c \<longleftrightarrow>
     mb_inv (ws_headerBuffer c) \<and> mb_GetBufferSize (ws_headerBuffer c) = 6
     \<and> mb_rpos (ws_headerBuffer c) = 0
     \<and> mb_inv (ws_packetBuffer c) \<and> mb_rpos (ws_packetBuffer c) = 0
     \<and> (if mb_space (ws_headerBuffer c) > 0 then mb_wpos (ws_packetBuffer c) = 0
        else mb_space (ws_packetBuffer c) > 0)"

definition ws_inv :: "'c wcore \<Rightarrow> bool" where
  "ws_inv c \<longleftrightarrow> ws_rx_inv c \<and> ws_out_inv c"

definition rx_same :: "'c wcore \<Rightarrow> 'c wcore \<Rightarrow> bool" where
  "rx_same c c' \<longleftrightarrow> ws_headerBuffer c' = ws_headerBuffer c \<and> ws_packetBuffer c' = ws_packetBuffer c"

lemma rx_same_trans: "rx_same a b \<Longrightarrow> rx_same b c \<Longrightarrow> rx_same a c"
  by (simp add: rx_same_def)

definition handled :: "'c wcore \<Rightarrow> (ws_error + unit) \<times> 'c wcore \<Rightarrow> bool" where
  "handled c rc \<longleftrightarrow> rx_same c (snd rc) \<and> ws_out_inv (snd rc)
     \<and> (fst rc = Inr () \<or> (\<exists>e. fst rc = Inl (PacketException e)))"

lemma handledI:
  "rx_same c c' \<Longrightarrow> ws_out_inv c' \<Longrightarrow> handled c (Inr (), c')"
  "rx_same c c' \<Longrightarrow> ws_out_inv c' \<Longrightarrow> handled c (Inl (PacketException e), c')"
  by (simp_all add: handled_def)

lemma rx_out_frame [simp]:
  "rx_same c (ws_event e c') = rx_same c c'" "ws_out_inv (ws_event e c') = ws_out_inv c'"
  "rx_same c (ws_CloseSocket c') = rx_same c c'" "ws_out_inv (ws_CloseSocket c') = ws_out_inv c'"
  "rx_same c (ws_DelayedCloseSocket c') = rx_same c c'"
  "ws_out_inv (ws_DelayedCloseSocket c') = ws_out_inv c'"
  "rx_same c (c'\<lparr>ws_authCrypt := ac\<rparr>) = rx_same c c'"
  "ws_out_inv (c'\<lparr>ws_authCrypt := ac\<rparr>) = ws_out_inv c'"
  "rx_same c (c'\<lparr>ws_worldSession := ses\<rparr>) = rx_same c c'"
  "ws_out_inv (c'\<lparr>ws_worldSession := ses\<rparr>) = ws_out_inv c'"
  "rx_same c (c'\<lparr>ws_LastPingTime := t\<rparr>) = rx_same c c'"
  "ws_out_inv (c'\<lparr>ws_LastPingTime := t\<rparr>) = ws_out_inv c'"
  "rx_same c (c'\<lparr>ws_OverSpeedPings := n\<rparr>) = rx_same c c'"
  "ws_out_inv (c'\<lparr>ws_OverSpeedPings := n\<rparr>) = ws_out_inv c'"
  "rx_same c c"
  by (simp_all add: rx_same_def ws_out_inv_def ws_event_def ws_CloseSocket_def
      ws_DelayedCloseSocket_def)

definition rx_keeps :: "('a, 'c) wsop \<Rightarrow> bool" where
  "rx_keeps m \<longleftrightarrow> (\<forall>c. rx_same c (snd (m c)))"

lemma rx_keeps_intros:
  "rx_keeps (ret x)" "rx_keeps (throw e)" "rx_keeps (ofUB y)"
  "(\<And>c. rx_same c (f c)) \<Longrightarrow> rx_keeps (modE f)"
  "rx_keeps m \<Longrightarrow> (\<And>x. rx_keeps (g x)) \<Longrightarrow> rx_keeps (bindE m g)"
  by (auto simp: rx_keeps_def rx_same_def ofUB_def bindE_def split: option.splits prod.splits sum.splits)
    (metis snd_conv)+

lemma rx_keepsD: "rx_keeps m \<Longrightarrow> rx_same c c1 \<Longrightarrow> rx_same c (snd (m c1))"
  unfolding rx_keeps_def using rx_same_trans by blast

lemma ws_SendPacket_rx_same: "rx_same c (snd (ws_SendPacket env packet c))"
proof -
  have w: "rx_keeps (bindE (ofUB x) (\<lambda>w1. bindE (if bs \<noteq> [] then ofUB (y w1) else ret w1)
      (\<lambda>w2. modE (\<lambda>c. c\<lparr>ws_writeBuffer := w2\<rparr>))))"
    "rx_keeps (bindE (ofUB x) (\<lambda>w1. bindE (if bs \<noteq> [] then ofUB (y w1) else ret w1)
      (\<lambda>w2. modE (\<lambda>c. c\<lparr>ws_writeQueue := ws_writeQueue c @ [w2]\<rparr>))))"
    for x bs and y :: "msgbuf \<Rightarrow> msgbuf option"
    by (intro rx_keeps_intros; simp add: rx_keeps_intros rx_same_def)+
  show ?thesis
    unfolding ws_SendPacket_def ws_QueuePacket_def Let_def
    by (auto intro!: rx_keepsD [OF w(1)] rx_keepsD [OF w(2)] split: prod.split)
qed

lemma ws_SendPacket_handled:
  assumes "ws_out_inv c" and "rc4_keeps_length (we_crypto env)"
    and "length (bb_storage packet) < 2 ^ 62"
  shows "\<exists>c'. ws_SendPacket env packet c = (Inr (), c') \<and> rx_same c c' \<and> ws_out_inv c'"
proof (cases "ws_IsOpen c")
  case False
  then show ?thesis using assms(1) by (simp add: ws_SendPacket_def rx_same_def)
next
  case True
  from ws_SendPacket_appends [OF this assms] obtain c' where
    "ws_SendPacket env packet c = (Inr (), c')" "ws_out_inv c'" by blast
  with ws_SendPacket_rx_same [of c env packet] show ?thesis by auto
qed

lemma send_then_handled:
  assumes "ws_out_inv c" and "rx_same c0 c" and "rc4_keeps_length (we_crypto env)"
    and "length (bb_storage packet) < 2 ^ 62"
    and "\<And>c'. rx_same c0 c' \<Longrightarrow> ws_out_inv c' \<Longrightarrow> handled c0 (f () c')"
  shows "handled c0 (bindE (ws_SendPacket env packet) f c)"
proof -
  from ws_SendPacket_handled [OF assms(1,3,4)] obtain c' where
    c': "ws_SendPacket env packet c = (Inr (), c')" "rx_same c c'" "ws_out_inv c'" by blast
  have "rx_same c0 c'" using assms(2) c'(2) by (rule rx_same_trans)
  with c' assms(5) show ?thesis by (simp add: bindE_ok)
qed

lemma ws_HandlePing_handled:
  assumes "ws_out_inv c" and "rc4_keeps_length (we_crypto env)"
  shows "handled c (ws_HandlePing env p c)"
proof -
  have fin: "handled c (ws_SendPacket env (packet_of SMSG_PONG (le_bytes 4 (x :: uint32))) c1)"
    if "rx_same c c1" "ws_out_inv c1" for c1 x
    using ws_SendPacket_handled [OF that(2) assms(2), of "packet_of SMSG_PONG (le_bytes 4 x)"]
    by (auto simp: handled_def dest: rx_same_trans [OF that(1)])
  show ?thesis
    using assms(1)
    by (auto simp: ws_HandlePing_def Let_def intro!: handledI fin
        split: prod.splits sum.splits option.splits)
qed

lemma ws_HandleAuthSession_handled:
  assumes "ws_out_inv c" and "rc4_keeps_length (we_crypto env)"
  shows "handled c (ws_HandleAuthSession env p c)"
  using assms
  by (auto simp: ws_HandleAuthSession_def ws_SendAuthResponseError_def Let_def
      intro!: handledI send_then_handled split: prod.splits sum.splits option.splits)

lemma ws_ReadDataHandler_ok:
  assumes "ws_out_inv c" and "rc4_keeps_length (we_crypto env)"
    and "mb_GetBufferSize (ws_headerBuffer c) = 6" and "mb_rpos (ws_headerBuffer c) = 0"
  shows "\<exists>r c'. ws_ReadDataHandler env c = (r, c') \<and> ws_out_inv c'
    \<and> ws_headerBuffer c' = ws_headerBuffer c
    \<and> ws_packetBuffer c' = (ws_packetBuffer c)\<lparr>mb_wpos := 0, mb_rpos := 0, mb_storage := []\<rparr>
    \<and> (r \<in> range Inr \<or> (\<exists>e. r = Inl (PacketException e)))"
proof -
  let ?pb = "(ws_packetBuffer c)\<lparr>mb_wpos := 0, mb_rpos := 0, mb_storage := []\<rparr>"
  let ?c1 = "c\<lparr>ws_packetBuffer := ?pb\<rparr>"
  have inv1: "ws_out_inv ?c1" using assms(1) by (simp add: ws_out_inv_def)
  have lift: "\<exists>r c'. bindE h (\<lambda>_. ret True) ?c1 = (r, c') \<and> ws_out_inv c'
      \<and> ws_headerBuffer c' = ws_headerBuffer c \<and> ws_packetBuffer c' = ?pb
      \<and> (r \<in> range Inr \<or> (\<exists>e. r = Inl (PacketException e)))"
    if "handled ?c1 (h ?c1)" for h
    using that by (cases "h ?c1") (auto simp: handled_def bindE_def rx_same_def)
  show ?thesis
    using assms(3,4) inv1 lift [of "ws_HandlePing env p" for p, OF ws_HandlePing_handled [OF inv1 assms(2)]]
      lift [of "ws_HandleAuthSession env p" for p, OF ws_HandleAuthSession_handled [OF inv1 assms(2)]]
    by (auto simp: ws_ReadDataHandler_def mb_peek_def wp_of_msgbuf_def mb_Move_def Let_def
        ws_event_def ws_out_inv_def ws_CloseSocket_def split: option.splits)
qed

lemma length_header_image [simp]: "length (header_image big h) = 6"
  by (simp add: header_image_def mem_image_def)

lemma ws_ReadHeaderHandler_ok:
  assumes "mb_inv (ws_headerBuffer c)" and "mb_GetBufferSize (ws_headerBuffer c) = 6"
    and "mb_rpos (ws_headerBuffer c) = 0" and "mb_wpos (ws_headerBuffer c) = 6"
    and "mb_inv (ws_packetBuffer c)" and "mb_rpos (ws_packetBuffer c) = 0"
    and "mb_wpos (ws_packetBuffer c) = 0" and "ws_out_inv c"
  shows "\<exists>ok c'. ws_ReadHeaderHandler env c = (Inr ok, c') \<and> ws_out_inv c'
    \<and> mb_inv (ws_headerBuffer c') \<and> mb_GetBufferSize (ws_headerBuffer c') = 6
    \<and> mb_rpos (ws_headerBuffer c') = 0 \<and> mb_wpos (ws_headerBuffer c') = 6
    \<and> mb_inv (ws_packetBuffer c') \<and> mb_rpos (ws_packetBuffer c') = 0
    \<and> mb_wpos (ws_packetBuffer c') = 0"
proof -
  have "unat w < 2 ^ 16" for w :: uint16
    using unsigned_less [of w, where 'a = nat] by simp
  then have small: "unat w < 2 ^ 63" for w :: uint16
    by (rule less_le_trans) simp
  show ?thesis
    using assms small
    by (auto simp: ws_ReadHeaderHandler_def mb_peek_def Let_def ws_CloseSocket_def mb_inv_def
        vec_write_def mb_Resize_def ws_out_inv_def split: prod.splits)
qed

section \<open>Input: the loop over the bytes received\<close>

text \<open>
  The same iteration over the list of bytes that have been received and not yet consumed,
  without the read buffer.
\<close>

definition mb_put :: "uint8 list \<Rightarrow> msgbuf \<Rightarrow> msgbuf" where
  "mb_put bs m = m\<lparr>mb_storage := vec_write (mb_wpos m) bs (mb_storage m),
                   mb_wpos := mb_wpos m + length bs\<rparr>"

definition sp_handle :: "'c ws_env \<Rightarrow> uint8 list \<Rightarrow> 'c wcore \<Rightarrow>
    (ws_error + rh_outcome) \<times> uint8 list \<times> 'c wcore" where
  "sp_handle env bs c =
     (case ws_ReadDataHandler env c of
        (Inl e, c') \<Rightarrow> (Inl e, bs, c')
      | (Inr False, c') \<Rightarrow> (Inr Return, bs, c')
      | (Inr True, c') \<Rightarrow> (Inr Continue, bs, c'\<lparr>ws_headerBuffer := mb_Reset (ws_headerBuffer c')\<rparr>))"

definition sp_payload :: "'c ws_env \<Rightarrow> uint8 list \<Rightarrow> 'c wcore \<Rightarrow>
    (ws_error + rh_outcome) \<times> uint8 list \<times> 'c wcore" where
  "sp_payload env bs c =
     (let n = mb_space (ws_packetBuffer c);
          c' = c\<lparr>ws_packetBuffer := mb_put (take n bs) (ws_packetBuffer c)\<rparr>
      in if length bs < n then (Inr Break, [], c') else sp_handle env (drop n bs) c')"

definition sp_body :: "'c ws_env \<Rightarrow> uint8 list \<Rightarrow> 'c wcore \<Rightarrow>
    (ws_error + rh_outcome) \<times> uint8 list \<times> 'c wcore" where
  "sp_body env bs c =
     (let n = mb_space (ws_headerBuffer c);
          c' = c\<lparr>ws_headerBuffer := mb_put (take n bs) (ws_headerBuffer c)\<rparr>
      in if n = 0 then sp_payload env bs c
         else if length bs < n then (Inr Break, [], c')
         else case ws_ReadHeaderHandler env c' of
                (Inl e, c2) \<Rightarrow> (Inl e, drop n bs, c2)
              | (Inr False, c2) \<Rightarrow> (Inr Return, drop n bs, c2)
              | (Inr True, c2) \<Rightarrow> sp_payload env (drop n bs) c2)"

text \<open>Running the iteration until it stops, as a relation.\<close>

inductive feeds :: "'c ws_env \<Rightarrow> uint8 list \<Rightarrow> 'c wcore \<Rightarrow>
    ws_error + rh_outcome \<Rightarrow> uint8 list \<Rightarrow> 'c wcore \<Rightarrow> bool" for env where
  feeds_nil: "feeds env [] c (Inr Break) [] c"
| feeds_stop: "bs \<noteq> [] \<Longrightarrow> sp_body env bs c = (r, bs', c') \<Longrightarrow> r \<noteq> Inr Continue \<Longrightarrow>
    feeds env bs c r bs' c'"
| feeds_next: "bs \<noteq> [] \<Longrightarrow> sp_body env bs c = (Inr Continue, bs1, c1) \<Longrightarrow>
    feeds env bs1 c1 r bs' c' \<Longrightarrow> feeds env bs c r bs' c'"

inductive_cases feeds_NilE: "feeds env [] c r bs' c'"

lemma mb_put_Nil [simp]: "mb_put [] m = m"
  by (simp add: mb_put_def vec_write_def)

lemma mb_Write_put:
  "mb_inv m \<Longrightarrow> length bs \<le> mb_space m \<Longrightarrow> mb_Write bs m = Some (mb_put bs m)"
  by (auto simp: mb_Write_def mb_poke_def mb_WriteCompleted_def mb_put_def mb_inv_def mb_space_def
      vec_write_def)

lemma mb_put_put:
  assumes "mb_inv m" and "length xs + length ys \<le> mb_space m"
  shows "mb_put ys (mb_put xs m) = mb_put (xs @ ys) m"
proof -
  have "mb_wpos m + length xs \<le> mb_GetBufferSize m" using assms by (auto simp: mb_inv_def mb_space_def)
  then have "min (mb_GetBufferSize m) (mb_wpos m) = mb_wpos m" by simp
  then show ?thesis by (simp add: mb_put_def vec_write_def ac_simps)
qed

lemma mb_put_inv:
  assumes "mb_inv m" and "length bs \<le> mb_space m"
  shows "mb_inv (mb_put bs m)" "mb_space (mb_put bs m) = mb_space m - length bs"
    "mb_rpos (mb_put bs m) = mb_rpos m" "mb_GetBufferSize (mb_put bs m) = mb_GetBufferSize m"
    "mb_wpos (mb_put bs m) = mb_wpos m + length bs"
  using assms by (auto simp: mb_put_def mb_inv_def mb_space_def vec_write_def)

definition header_full :: "'c wcore \<Rightarrow> bool" where
  "header_full c \<longleftrightarrow> mb_inv (ws_headerBuffer c) \<and> mb_GetBufferSize (ws_headerBuffer c) = 6
     \<and> mb_rpos (ws_headerBuffer c) = 0 \<and> mb_wpos (ws_headerBuffer c) = 6
     \<and> mb_inv (ws_packetBuffer c) \<and> mb_rpos (ws_packetBuffer c) = 0 \<and> ws_out_inv c"

lemma ws_out_inv_buffers [simp]:
  "ws_out_inv (c\<lparr>ws_headerBuffer := h\<rparr>) = ws_out_inv c"
  "ws_out_inv (c\<lparr>ws_packetBuffer := h\<rparr>) = ws_out_inv c"
  by (simp_all add: ws_out_inv_def)

text \<open>How an iteration can end.\<close>

definition sp_result :: "nat \<Rightarrow> (ws_error + rh_outcome) \<times> uint8 list \<times> 'c wcore \<Rightarrow> bool" where
  "sp_result n res \<longleftrightarrow> (case res of (r, bs', c') \<Rightarrow>
     (r = Inr Continue \<and> ws_inv c' \<and> length bs' < n)
     \<or> (r = Inr Break \<and> bs' = [] \<and> ws_inv c') \<or> r = Inr Return
     \<or> (\<exists>e. r = Inl (PacketException e)))"

lemma sp_handle_result:
  assumes "header_full c" and "rc4_keeps_length (we_crypto env)" and "length bs < n"
  shows "sp_result n (sp_handle env bs c)"
proof -
  from ws_ReadDataHandler_ok [of c env] assms obtain r c' where
    c': "ws_ReadDataHandler env c = (r, c')" "ws_out_inv c'" "ws_headerBuffer c' = ws_headerBuffer c"
    "ws_packetBuffer c' = (ws_packetBuffer c)\<lparr>mb_wpos := 0, mb_rpos := 0, mb_storage := []\<rparr>"
    "r \<in> range Inr \<or> (\<exists>e. r = Inl (PacketException e))"
    by (auto simp: header_full_def)
  have "ws_inv (c'\<lparr>ws_headerBuffer := mb_Reset (ws_headerBuffer c')\<rparr>)"
    using c' assms(1) mb_Reset_inv [of "ws_headerBuffer c"]
    by (simp add: ws_inv_def ws_rx_inv_def header_full_def mb_inv_def mb_Reset_def)
  with c' assms(3) show ?thesis
    by (auto simp: sp_handle_def sp_result_def split: bool.splits)
qed

lemma sp_payload_result:
  assumes "header_full c" and "rc4_keeps_length (we_crypto env)"
    and "length bs < n \<or> (length bs \<le> n \<and> bs \<noteq> [] \<and> mb_space (ws_packetBuffer c) > 0)"
  shows "sp_result n (sp_payload env bs c)"
proof -
  let ?n = "mb_space (ws_packetBuffer c)"
  let ?c' = "c\<lparr>ws_packetBuffer := mb_put (take ?n bs) (ws_packetBuffer c)\<rparr>"
  have pb: "mb_inv (ws_packetBuffer c)" using assms(1) by (simp add: header_full_def)
  note put = mb_put_inv [OF pb, of "take ?n bs"]
  show ?thesis
  proof (cases "length bs < ?n")
    case True
    then have "ws_inv ?c'"
      using assms(1) put by (auto simp: ws_inv_def ws_rx_inv_def header_full_def mb_space_def)
    with True show ?thesis by (simp add: sp_payload_def sp_result_def)
  next
    case False
    have "header_full ?c'" using assms(1) put by (simp add: header_full_def)
    moreover have "length (drop ?n bs) < n" using assms(3) False by auto
    ultimately show ?thesis
      using sp_handle_result [OF _ assms(2)] False by (simp add: sp_payload_def Let_def)
  qed
qed

lemma sp_body_result:
  assumes "ws_inv c" and "rc4_keeps_length (we_crypto env)" and "bs \<noteq> []"
  shows "sp_result (length bs) (sp_body env bs c)"
proof -
  let ?n = "mb_space (ws_headerBuffer c)"
  let ?c' = "c\<lparr>ws_headerBuffer := mb_put (take ?n bs) (ws_headerBuffer c)\<rparr>"
  have hb: "mb_inv (ws_headerBuffer c)" using assms(1) by (simp add: ws_inv_def ws_rx_inv_def)
  note put = mb_put_inv [OF hb, of "take ?n bs"]
  show ?thesis
  proof (cases "?n = 0")
    case True
    then have "header_full c" "mb_space (ws_packetBuffer c) > 0"
      using assms(1) by (auto simp: ws_inv_def ws_rx_inv_def header_full_def mb_space_def mb_inv_def)
    with True assms(2,3) sp_payload_result [of c env bs "length bs"] show ?thesis
      by (simp add: sp_body_def)
  next
    case n: False
    show ?thesis
    proof (cases "length bs < ?n")
      case True
      then have "ws_inv ?c'" using assms(1) put n by (simp add: ws_inv_def ws_rx_inv_def)
      with True n show ?thesis by (simp add: sp_body_def sp_result_def)
    next
      case False
      have full: "mb_wpos (mb_put (take ?n bs) (ws_headerBuffer c)) = 6"
        using put False assms(1) by (simp add: ws_inv_def ws_rx_inv_def mb_space_def mb_inv_def min_def)
      obtain ok c2 where rh: "ws_ReadHeaderHandler env ?c' = (Inr ok, c2)"
        and hf: "header_full c2"
        using ws_ReadHeaderHandler_ok [of ?c' env] put assms(1) n full
        by (auto simp: ws_inv_def ws_rx_inv_def header_full_def)
      have "length (drop ?n bs) < length bs" using n assms(3) by simp
      with n False rh sp_payload_result [OF hf assms(2)] show ?thesis
        by (cases ok) (auto simp: sp_body_def sp_result_def Let_def)
    qed
  qed
qed

text \<open>The code's iteration, over the read buffer, is this iteration over its active bytes.\<close>

definition rb_ok :: "msgbuf \<Rightarrow> uint8 list \<Rightarrow> bool" where
  "rb_ok rb bs \<longleftrightarrow> mb_inv rb \<and> mb_active rb = bs \<and> mb_GetBufferSize rb = 4096"

lemma rb_ok_read: "rb_ok rb bs \<Longrightarrow> n \<le> length bs \<Longrightarrow> rb_ok (mb_ReadCompleted n rb) (drop n bs)"
  using mb.read_ok [of rb n] by (auto simp: rb_ok_def mb_ReadCompleted_def)

lemma rb_ok_size [simp]: "rb_ok rb bs \<Longrightarrow> mb_GetActiveSize rb = length bs"
  by (auto simp: rb_ok_def)

definition rb_sim :: "(ws_error + rh_outcome) \<times> 'c rh_state \<Rightarrow>
    (ws_error + rh_outcome) \<times> uint8 list \<times> 'c wcore \<Rightarrow> bool" where
  "rb_sim a b \<longleftrightarrow> (case (a, b) of ((r, rb, c), (r', bs, c')) \<Rightarrow> r = r' \<and> c = c' \<and> rb_ok rb bs)"

lemma fill_from_read_buffer:
  assumes "rb_ok rb bs" and "mb_inv m"
  shows "Option.bind (mb_peek (min (length bs) (mb_space m)) rb) (\<lambda>xs. mb_Write xs m) =
      Some (mb_put (take (mb_space m) bs) m)"
proof -
  have "mb_peek (min (length bs) (mb_space m)) rb = Some (take (mb_space m) bs)"
    using mb_peek_active [of rb "min (length bs) (mb_space m)"] assms(1)
    by (auto simp: rb_ok_def min_def)
  then show ?thesis using mb_Write_put [OF assms(2), of "take (mb_space m) bs"] by simp
qed

lemma rh_payload_sim:
  assumes "rb_ok rb bs" and "mb_inv (ws_packetBuffer c)"
  shows "rb_sim (rh_payload env (rb, c)) (sp_payload env bs c)"
proof -
  let ?m = "ws_packetBuffer c" and ?n = "mb_space (ws_packetBuffer c)"
  note put = mb_put_inv [OF assms(2), of "take ?n bs"]
  have rd: "rb_ok (mb_ReadCompleted (min (length bs) ?n) rb) (drop (min (length bs) ?n) bs)"
    using rb_ok_read [OF assms(1)] by simp
  have rd': "rb_ok (mb_ReadCompleted (min (length bs) ?n) rb) (drop ?n bs)"
    using rd by (auto simp: min_def split: if_splits)
  have handle: "rb_sim (case ws_ReadDataHandler env c' of
        (Inl e, c'') \<Rightarrow> (Inl e, rb', c'')
      | (Inr False, c'') \<Rightarrow> (Inr Return, rb', c'')
      | (Inr True, c'') \<Rightarrow> (Inr Continue, rb', c''\<lparr>ws_headerBuffer := mb_Reset (ws_headerBuffer c'')\<rparr>))
      (sp_handle env bs' c')" if "rb_ok rb' bs'" for rb' bs' and c' :: "'a wcore"
    using that by (auto simp: rb_sim_def sp_handle_def split: prod.splits sum.splits bool.splits)
  show ?thesis
  proof (cases "?n > 0")
    case n: True
    show ?thesis
    proof (cases "length bs < ?n")
      case True
      then show ?thesis
        using fill_from_read_buffer [OF assms] put rd' n assms
        by (auto simp: rh_payload_def sp_payload_def Let_def rb_sim_def)
    next
      case False
      then have mn: "min (length bs) ?n = ?n" by simp
      show ?thesis
        using False fill_from_read_buffer [OF assms] put n assms
          handle [OF rd' [unfolded mn], of "c\<lparr>ws_packetBuffer := mb_put (take ?n bs) ?m\<rparr>"]
        by (simp add: rh_payload_def sp_payload_def Let_def)
    qed
  next
    case False
    then show ?thesis
      using handle [OF assms(1)] assms by (simp add: rh_payload_def sp_payload_def Let_def)
  qed
qed

lemma rh_body_sim:
  assumes "rb_ok rb bs" and "ws_inv c"
  shows "rb_sim (rh_body env (rb, c)) (sp_body env bs c)"
proof -
  let ?m = "ws_headerBuffer c" and ?n = "mb_space (ws_headerBuffer c)"
  let ?c' = "c\<lparr>ws_headerBuffer := mb_put (take ?n bs) ?m\<rparr>"
  have m: "mb_inv ?m" and p: "mb_inv (ws_packetBuffer c)"
    using assms(2) by (auto simp: ws_inv_def ws_rx_inv_def)
  note put = mb_put_inv [OF m, of "take ?n bs"]
  have rd: "rb_ok (mb_ReadCompleted (min (length bs) ?n) rb) (drop ?n bs)"
    using rb_ok_read [OF assms(1), of "min (length bs) ?n"] by (auto simp: min_def split: if_splits)
  show ?thesis
  proof (cases "?n > 0")
    case False
    then show ?thesis
      using rh_payload_sim [OF assms(1) p] m by (simp add: rh_body_def sp_body_def Let_def)
  next
    case n: True
    show ?thesis
    proof (cases "length bs < ?n")
      case True
      then show ?thesis
        using fill_from_read_buffer [OF assms(1) m] put rd n m assms(1)
        by (auto simp: rh_body_def sp_body_def Let_def rb_sim_def)
    next
      case False
      have full: "mb_wpos (mb_put (take ?n bs) ?m) = 6"
        using put False assms(2) by (simp add: ws_inv_def ws_rx_inv_def mb_space_def mb_inv_def min_def)
      obtain ok c2 where rh: "ws_ReadHeaderHandler env ?c' = (Inr ok, c2)"
        and c2: "mb_inv (ws_packetBuffer c2)"
        using ws_ReadHeaderHandler_ok [of ?c' env] put assms(2) n full
        by (auto simp: ws_inv_def ws_rx_inv_def)
      show ?thesis
        using fill_from_read_buffer [OF assms(1) m] put rd n m False assms(1) rh
          rh_payload_sim [OF rd c2, of env]
        by (cases ok) (auto simp: rh_body_def sp_body_def Let_def rb_sim_def)
    qed
  qed
qed

lemma rh_loop_feeds:
  assumes "rc4_keeps_length (we_crypto env)"
  shows "rb_ok rb bs \<Longrightarrow> ws_inv c \<Longrightarrow> length bs < fuel \<Longrightarrow>
    \<exists>r rb' bs' c'. rh_loop fuel env (rb, c) = (r, rb', c') \<and> rb_ok rb' bs' \<and> feeds env bs c r bs' c'
      \<and> (r = Inr Break \<and> bs' = [] \<and> ws_inv c' \<or> r = Inr Return \<or> (\<exists>e. r = Inl (PacketException e)))"
proof (induction fuel arbitrary: rb bs c)
  case 0
  then show ?case by simp
next
  case (Suc fuel)
  show ?case
  proof (cases "bs = []")
    case True
    with Suc.prems show ?thesis by (auto intro: feeds_nil)
  next
    case False
    obtain r bs1 c1 where sp: "sp_body env bs c = (r, bs1, c1)" by (metis prod.exhaust)
    then obtain rb1 where rh: "rh_body env (rb, c) = (r, rb1, c1)" and ok: "rb_ok rb1 bs1"
      using rh_body_sim [OF Suc.prems(1,2), of env] by (auto simp: rb_sim_def split: prod.splits)
    have res: "sp_result (length bs) (r, bs1, c1)"
      using sp_body_result [OF Suc.prems(2) assms False] by (simp add: sp)
    show ?thesis
    proof (cases "r = Inr Continue")
      case True
      with res Suc.prems(3) have "ws_inv c1" "length bs1 < fuel" by (auto simp: sp_result_def)
      from Suc.IH [OF ok this] obtain r' rb' bs' c' where
        "rh_loop fuel env (rb1, c1) = (r', rb', c')" "rb_ok rb' bs'" "feeds env bs1 c1 r' bs' c'"
        "r' = Inr Break \<and> bs' = [] \<and> ws_inv c' \<or> r' = Inr Return \<or> (\<exists>e. r' = Inl (PacketException e))"
        by blast
      with True False rh sp Suc.prems show ?thesis
        by (auto intro: feeds_next)
    next
      case stop: False
      then have "rh_loop (Suc fuel) env (rb, c) = (r, rb1, c1)"
        using rh False Suc.prems by (auto split: sum.split rh_outcome.split)
      with stop res ok sp False show ?thesis
        by (auto simp: sp_result_def intro: feeds_stop)
    qed
  qed
qed

text \<open>The relation is a function, and a run can be cut where the bytes run out.\<close>

lemma feeds_deterministic:
  "feeds env bs c r bs' c' \<Longrightarrow> feeds env bs c r2 bs2 c2 \<Longrightarrow> r = r2 \<and> bs' = bs2 \<and> c' = c2"
proof (induction rule: feeds.induct)
  case (feeds_nil c)
  then show ?case by (auto elim: feeds_NilE)
next
  case (feeds_stop bs c r bs' c')
  from feeds_stop(4) feeds_stop(1-3) show ?case by (cases rule: feeds.cases) auto
next
  case (feeds_next bs c bs1 c1 r bs' c')
  from feeds_next(5) feeds_next(1-4) show ?case by (cases rule: feeds.cases) auto
qed

lemma sp_handle_no_break: "fst (sp_handle env bs c) \<noteq> Inr Break"
  by (auto simp: sp_handle_def split: prod.splits sum.splits bool.splits)

lemma sp_handle_not_break: "sp_handle env bs c \<noteq> (Inr Break, bs', c')"
  using sp_handle_no_break [of env bs c] by auto

lemma sp_payload_break_header:
  assumes "sp_payload env bs c = (Inr Break, bs', c')"
  shows "ws_headerBuffer c' = ws_headerBuffer c"
  using assms by (auto simp: sp_payload_def Let_def sp_handle_not_break split: if_splits)

lemma sp_payload_append:
  assumes "mb_inv (ws_packetBuffer c)" and "sp_payload env xs c = (r, xs', c')"
  shows "r \<noteq> Inr Break \<Longrightarrow> sp_payload env (xs @ ys) c = (r, xs' @ ys, c')"
    and "r = Inr Break \<Longrightarrow> sp_payload env (xs @ ys) c = sp_payload env ys c'"
proof -
  let ?m = "ws_packetBuffer c" and ?n = "mb_space (ws_packetBuffer c)"
  have app: "sp_handle env (bs @ ys) k = (case sp_handle env bs k of (r, bs', k') \<Rightarrow> (r, bs' @ ys, k'))"
    for bs and k :: "'a wcore"
    by (auto simp: sp_handle_def split: prod.splits sum.splits bool.splits)
  show "sp_payload env (xs @ ys) c = (r, xs' @ ys, c')" if "r \<noteq> Inr Break"
    using assms(2) that app [of "drop ?n xs"]
    by (auto simp: sp_payload_def Let_def split: if_splits)
  show "sp_payload env (xs @ ys) c = sp_payload env ys c'" if "r = Inr Break"
  proof -
    have short: "length xs < ?n"
      using assms(2) that
      by (auto simp: sp_payload_def Let_def sp_handle_not_break split: if_splits)
    then have c': "c' = c\<lparr>ws_packetBuffer := mb_put xs ?m\<rparr>"
      using assms(2) by (simp add: sp_payload_def Let_def)
    have sp: "mb_space (mb_put xs ?m) = ?n - length xs"
      using mb_put_inv(2) [OF assms(1), of xs] short by simp
    have "mb_put (take (?n - length xs) ys) (mb_put xs ?m) = mb_put (take ?n (xs @ ys)) ?m"
      using mb_put_put [OF assms(1), of xs "take (?n - length xs) ys"] short by simp
    moreover have "mb_put ys (mb_put xs ?m) = mb_put (xs @ ys) ?m" if "length xs + length ys < ?n"
      using mb_put_put [OF assms(1), of xs ys] that by simp
    ultimately show ?thesis using short c' sp
      by (auto simp: sp_payload_def Let_def less_diff_conv add.commute)
  qed
qed

lemma sp_body_append:
  assumes "ws_inv c" and "sp_body env xs c = (r, xs', c')" and "ys \<noteq> []"
  shows "r \<noteq> Inr Break \<Longrightarrow> sp_body env (xs @ ys) c = (r, xs' @ ys, c')"
    and "r = Inr Break \<Longrightarrow> sp_body env (xs @ ys) c = sp_body env ys c'"
proof -
  let ?m = "ws_headerBuffer c" and ?n = "mb_space (ws_headerBuffer c)"
  let ?c1 = "c\<lparr>ws_headerBuffer := mb_put (take ?n xs) ?m\<rparr>"
  have m: "mb_inv ?m" and p: "mb_inv (ws_packetBuffer c)"
    using assms(1) by (auto simp: ws_inv_def ws_rx_inv_def)
  have both: "(r \<noteq> Inr Break \<longrightarrow> sp_body env (xs @ ys) c = (r, xs' @ ys, c'))
      \<and> (r = Inr Break \<longrightarrow> sp_body env (xs @ ys) c = sp_body env ys c')"
  proof (cases "?n = 0")
    case True
    then have pay: "sp_body env bs c = sp_payload env bs c" for bs by (simp add: sp_body_def)
    have "sp_body env ys c' = sp_payload env ys c'" if "r = Inr Break"
    proof -
      have "ws_headerBuffer c' = ?m"
        using assms(2) that pay sp_payload_break_header [of env xs c xs' c'] by simp
      with True show ?thesis by (simp add: sp_body_def)
    qed
    with sp_payload_append [OF p, of env xs r xs' c' ys] assms(2) pay show ?thesis by auto
  next
    case n: False
    show ?thesis
    proof (cases "length xs < ?n")
      case True
      then have res: "r = Inr Break" "xs' = []" "c' = c\<lparr>ws_headerBuffer := mb_put xs ?m\<rparr>"
        using assms(2) n by (auto simp: sp_body_def)
      have sp: "mb_space (mb_put xs ?m) = ?n - length xs"
        using mb_put_inv(2) [OF m, of xs] True by simp
      have eq: "mb_put (take (?n - length xs) ys) (mb_put xs ?m) = mb_put (take ?n (xs @ ys)) ?m"
        using mb_put_put [OF m, of xs "take (?n - length xs) ys"] True by simp
      have "mb_put ys (mb_put xs ?m) = mb_put (xs @ ys) ?m" if "length xs + length ys < ?n"
        using mb_put_put [OF m, of xs ys] that by simp
      moreover have "drop ?n (xs @ ys) = drop (?n - length xs) ys" using True by simp
      ultimately show ?thesis
        using eq True n res sp
        by (auto simp: sp_body_def Let_def less_diff_conv add.commute
            split: prod.split sum.split bool.split)
    next
      case False
      have full: "mb_wpos (mb_put (take ?n xs) ?m) = 6"
        using mb_put_inv [OF m, of "take ?n xs"] False assms(1)
        by (simp add: ws_inv_def ws_rx_inv_def mb_space_def mb_inv_def min_def)
      obtain ok c2 where rh: "ws_ReadHeaderHandler env ?c1 = (Inr ok, c2)"
        and c2: "mb_inv (ws_packetBuffer c2)" "mb_space (ws_headerBuffer c2) = 0"
        using ws_ReadHeaderHandler_ok [of ?c1 env] mb_put_inv [OF m, of "take ?n xs"] assms(1) n full
        by (auto simp: ws_inv_def ws_rx_inv_def mb_space_def)
      have body: "sp_body env (xs @ bs) c =
          (if ok then sp_payload env (drop ?n xs @ bs) c2 else (Inr Return, drop ?n xs @ bs, c2))" for bs
        using n False rh by (simp add: sp_body_def Let_def)
      have "sp_body env ys c' = sp_payload env ys c'" if "r = Inr Break"
      proof -
        have "ws_headerBuffer c' = ws_headerBuffer c2"
          using assms(2) that body [of "[]"] sp_payload_break_header [of env "drop ?n xs" c2 xs' c']
          by (simp split: if_splits)
        with c2(2) show ?thesis by (simp add: sp_body_def)
      qed
      note eqs = this
      show ?thesis
      proof (cases ok)
        case True
        then have "sp_payload env (drop ?n xs) c2 = (r, xs', c')"
          using assms(2) body [of "[]"] by simp
        with sp_payload_append [OF c2(1) this, of ys] eqs body [of ys] True show ?thesis by simp
      next
        case False
        with assms(2) body [of "[]"] have "r = Inr Return \<and> xs' = drop ?n xs \<and> c' = c2" by simp
        with body [of ys] False show ?thesis by simp
      qed
    qed
  qed
  show "r \<noteq> Inr Break \<Longrightarrow> sp_body env (xs @ ys) c = (r, xs' @ ys, c')"
    and "r = Inr Break \<Longrightarrow> sp_body env (xs @ ys) c = sp_body env ys c'"
    using both by auto
qed

lemma feeds_append:
  assumes "rc4_keeps_length (we_crypto env)"
  shows "feeds env xs c r xs' c' \<Longrightarrow> ws_inv c \<Longrightarrow> r = Inr Break \<Longrightarrow> feeds env ys c' r2 ys' c2 \<Longrightarrow>
    feeds env (xs @ ys) c r2 ys' c2"
proof (induction rule: feeds.induct)
  case (feeds_nil c)
  then show ?case by simp
next
  case (feeds_stop xs c r xs' c')
  show ?case
  proof (cases "ys = []")
    case True
    have "xs' = []"
      using sp_body_result [OF feeds_stop(4) assms feeds_stop(1)] feeds_stop(2,5)
      by (auto simp: sp_result_def)
    then have "feeds env xs c (Inr Break) [] c'"
      using feeds_stop by (auto intro: feeds.feeds_stop)
    with True feeds_stop(6) show ?thesis by (auto elim: feeds_NilE)
  next
    case False
    have eq: "sp_body env (xs @ ys) c = sp_body env ys c'"
      by (rule sp_body_append(2) [OF feeds_stop(4,2) False feeds_stop(5)])
    from feeds_stop(6) show ?thesis
      by (cases rule: feeds.cases) (use False eq in \<open>auto intro: feeds.intros\<close>)
  qed
next
  case (feeds_next xs c xs1 c1 r xs' c')
  have "ws_inv c1"
    using sp_body_result [OF feeds_next(5) assms feeds_next(1)] feeds_next(2)
    by (auto simp: sp_result_def)
  then have rest: "feeds env (xs1 @ ys) c1 r2 ys' c2"
    using feeds_next by blast
  show ?case
  proof (cases "ys = []")
    case True
    with rest feeds_next show ?thesis by (auto intro: feeds.feeds_next)
  next
    case False
    have "sp_body env (xs @ ys) c = (Inr Continue, xs1 @ ys, c1)"
      using sp_body_append(1) [OF feeds_next(5,2) False] by simp
    with rest feeds_next(1) show ?thesis by (auto intro: feeds.feeds_next)
  qed
qed

text \<open>
  \<open>ws_ready\<close>: a read is under way; the read buffer is empty and at its start.
\<close>

definition ws_ready :: "'c rh_state \<Rightarrow> bool" where
  "ws_ready st \<longleftrightarrow> rb_ok (fst st) [] \<and> mb_wpos (fst st) = 0 \<and> ws_inv (snd st)"

lemma ws_AsyncRead_drained:
  assumes "rb_ok rb []" and "ws_inv c"
  shows "\<exists>rb'. ws_AsyncRead (rb, c) = (Inr (ws_IsOpen c), rb', c) \<and> (ws_IsOpen c \<longrightarrow> ws_ready (rb', c))"
proof -
  obtain rb' where rb': "mb_Normalize rb = Some rb'" "mb_inv rb'" "mb_active rb' = []" "mb_rpos rb' = 0"
    "mb_GetBufferSize rb' = 4096"
    using mb_Normalize_inv [of rb] assms(1) by (auto simp: rb_ok_def)
  then have "mb_wpos rb' = 0" using length_mb_active [OF rb'(2)] by simp
  with rb' assms(2) show ?thesis by (simp add: ws_AsyncRead_def ws_ready_def rb_ok_def)
qed

lemma ws_ReadHandlerInternal_feeds:
  assumes ready: "ws_ready (rb, c)" and opn: "ws_IsOpen c" and len: "length bs \<le> 4096"
    and cipher: "rc4_keeps_length (we_crypto env)"
  shows "\<exists>r bs' c' rb'. feeds env bs c r bs' c' \<and>
    ws_ReadHandlerInternal env (Some bs) (rb, c) =
      ((case r of Inl e \<Rightarrow> Inl e | Inr Return \<Rightarrow> Inr False | Inr _ \<Rightarrow> Inr (ws_IsOpen c')), rb', c')
    \<and> (r = Inr Break \<and> (ws_IsOpen c' \<longrightarrow> ws_ready (rb', c')) \<or> r = Inr Return
       \<or> (\<exists>e. r = Inl (PacketException e)))"
proof -
  have rb: "mb_inv rb" "mb_active rb = []" "mb_GetBufferSize rb = 4096" "mb_wpos rb = 0" "ws_inv c"
    using ready by (auto simp: ws_ready_def rb_ok_def)
  then have "length bs \<le> mb_space rb" using len by (simp add: mb_space_def)
  from mb_poke_WriteCompleted [OF rb(1) this] obtain rb0 where
    rb0: "mb_poke bs rb = Some rb0" "rb_ok (mb_WriteCompleted (length bs) rb0) bs"
    using rb by (auto simp: rb_ok_def)
  let ?rb1 = "mb_WriteCompleted (length bs) rb0"
  have "length bs < rh_fuel ?rb1" using rb0(2) by (simp add: rh_fuel_def)
  from rh_loop_feeds [OF cipher rb0(2) rb(5) this] obtain r rb2 bs' c' where
    loop: "rh_loop (rh_fuel ?rb1) env (?rb1, c) = (r, rb2, c')" "rb_ok rb2 bs'" "feeds env bs c r bs' c'"
    "r = Inr Break \<and> bs' = [] \<and> ws_inv c' \<or> r = Inr Return \<or> (\<exists>e. r = Inl (PacketException e))"
    by blast
  show ?thesis
  proof (cases "r = Inr Break")
    case True
    with loop obtain rb' where "ws_AsyncRead (rb2, c') = (Inr (ws_IsOpen c'), rb', c')"
      "ws_IsOpen c' \<longrightarrow> ws_ready (rb', c')"
      using ws_AsyncRead_drained [of rb2 c'] by auto
    with True loop rb0(1) opn show ?thesis
      by (intro exI [of _ r] exI [of _ bs'] exI [of _ c'] exI [of _ rb'])
        (simp add: ws_ReadHandlerInternal_def ws_ReadHandler_def)
  next
    case False
    with loop rb0(1) opn show ?thesis
      by (intro exI [of _ r] exI [of _ bs'] exI [of _ c'] exI [of _ rb2])
        (auto simp: ws_ReadHandlerInternal_def ws_ReadHandler_def)
  qed
qed

end
