(* ===== verification/World_Socket_Props.thy ===== *)
theory World_Socket_Props
  imports World_Socket
begin

text \<open>
  What the connection handling guarantees: reassembly independent of the segmentation of the
  stream, safety of the read handler, order of the output, the checks before a session
  exists, and the outcome of malformed pings.
\<close>

section \<open>What sending leaves alone\<close>

definition keepsE :: "('c wcore \<Rightarrow> 'b) \<Rightarrow> ('a, 'c) wsop \<Rightarrow> bool" where
  "keepsE f m \<longleftrightarrow> (\<forall>c. f (snd (m c)) = f c)"

lemma keepsE_intros:
  "keepsE f (ret x)" "keepsE f (throw e)" "keepsE f (ofUB y)"
  "(\<And>c. f (g c) = f c) \<Longrightarrow> keepsE f (modE g)"
  "keepsE f m \<Longrightarrow> (\<And>x. keepsE f (h x)) \<Longrightarrow> keepsE f (bindE m h)"
  by (auto simp: keepsE_def ofUB_def bindE_def split: option.splits prod.splits sum.splits)
    (metis snd_conv)+

definition ws_session_part :: "'c wcore \<Rightarrow> bool \<times> session option \<times> ws_event list" where
  "ws_session_part c = (ws_IsOpen c, ws_worldSession c, ws_events c)"

lemma ws_SendPacket_session_part: "ws_session_part (snd (ws_SendPacket env packet c)) = ws_session_part c"
proof -
  have w: "keepsE ws_session_part (bindE (ofUB x) (\<lambda>w1. bindE (if bs \<noteq> [] then ofUB (y w1) else ret w1)
      (\<lambda>w2. modE (\<lambda>c. c\<lparr>ws_writeBuffer := w2\<rparr>))))"
    "keepsE ws_session_part (bindE (ofUB x) (\<lambda>w1. bindE (if bs \<noteq> [] then ofUB (y w1) else ret w1)
      (\<lambda>w2. modE (\<lambda>c. c\<lparr>ws_writeQueue := ws_writeQueue c @ [w2]\<rparr>))))"
    for x bs and y :: "msgbuf \<Rightarrow> msgbuf option"
    by (intro keepsE_intros; simp add: keepsE_intros ws_session_part_def ws_IsOpen_def)+
  have u: "ws_session_part (c\<lparr>ws_authCrypt := a\<rparr>) = ws_session_part c" for a
    by (simp add: ws_session_part_def ws_IsOpen_def)
  show ?thesis
    unfolding ws_SendPacket_def ws_QueuePacket_def Let_def
    by (auto simp: w [unfolded keepsE_def, rule_format] u split: prod.split)
qed

lemma ws_SendPacket_keeps:
  "ws_IsOpen (snd (ws_SendPacket env packet c)) = ws_IsOpen c"
  "ws_worldSession (snd (ws_SendPacket env packet c)) = ws_worldSession c"
  "ws_events (snd (ws_SendPacket env packet c)) = ws_events c"
  using ws_SendPacket_session_part [of env packet c] by (simp_all add: ws_session_part_def)

section \<open>A concrete connection\<close>

text \<open>
  A concrete connection for the witnesses: the identity as the cipher, one account with an
  empty session key, and a ping right after the constructor.
\<close>

definition plain_crypto :: "unit crypto" where
  "plain_crypto = \<lparr>cr_rc4_key = \<lambda>_. (), cr_rc4_update = \<lambda>d k. (d, k),
     cr_hmac_sha1 = \<lambda>_ d. d, cr_sha1 = \<lambda>d. take 20 d\<rparr>"

definition sample_row :: account_row where
  "sample_row = \<lparr>ar_id = 7, ar_sessionkey = [], ar_last_ip = ''127.0.0.1'', ar_locked = 0,
     ar_expansion = 2, ar_mutetime = 0, ar_locale = 0, ar_recruiter = 0, ar_os = ''Win''\<rparr>"

definition sample_env :: "unit ws_env" where
  "sample_env = \<lparr>we_big = False, we_crypto = plain_crypto, we_address = ''127.0.0.1'',
     we_steady_now = 1, we_time = 1, we_maxOverspeedPings = 2, we_skipOverspeedCheck = False,
     we_socketTimeOut = 60000, we_worldClosed = False, we_realmID = 1, we_wardenActive = False,
     we_expansion = 2, we_securityLimit = 0,
     we_account = \<lambda>name. (if name = [65] then Some sample_row else None),
     we_gmlevel = \<lambda>_. None, we_banned = \<lambda>_. False, we_isRecruiter = \<lambda>_. False\<rparr>"

definition sample_socket :: "unit rh_state" where
  "sample_socket = ws_new 5 ()"

definition sample_core :: "unit wcore" where
  "sample_core = (snd sample_socket)\<lparr>ws_writeBuffer := mb_new 8\<rparr>"

lemma plain_crypto_ok: "rc4_keeps_length (we_crypto sample_env)"
  by (simp add: rc4_keeps_length_def sample_env_def plain_crypto_def)

lemma sample_socket_ready:
  "ws_ready (fst sample_socket, snd sample_socket)" "ws_IsOpen (snd sample_socket)"
  by (simp_all add: sample_socket_def ws_ready_def ws_new_def rb_ok_def ws_inv_def ws_rx_inv_def
      ws_out_inv_def mb_inv_def mb_new_def mb_Resize_def mb_space_def mb_active_def ws_IsOpen_def)

lemma sample_core_ok: "ws_out_inv sample_core" "ws_IsOpen sample_core"
  by (simp_all add: sample_core_def sample_socket_def ws_new_def
      ws_out_inv_def mb_inv_def mb_new_def mb_active_def ws_IsOpen_def)

section \<open>Properties\<close>

text \<open>
  C1. Packet reassembly does not depend on how the transport cuts the byte stream. When a
  read of \<open>xs\<close> has been handled and the next read started, handling the following bytes
  \<open>ys\<close> leaves the connection in the same state, with the same outcome, as handling
  \<open>xs @ ys\<close> in one read: the same packets are decrypted, dispatched and answered, whatever
  part of a header or payload the cut falls into.
\<close>

theorem segmentation_transparent:
  assumes "ws_ready (rb, c)" and "ws_IsOpen c" and "length (xs @ ys) \<le> 4096"
    and "rc4_keeps_length (we_crypto env)"
    and "ws_ReadHandlerInternal env (Some xs) (rb, c) = (Inr True, rb1, c1)"
  shows "\<exists>r rb2 rb3 c2. ws_ReadHandlerInternal env (Some ys) (rb1, c1) = (r, rb2, c2)
    \<and> ws_ReadHandlerInternal env (Some (xs @ ys)) (rb, c) = (r, rb3, c2)"
proof -
  have "length xs \<le> 4096" using assms(3) by simp
  from ws_ReadHandlerInternal_feeds [OF assms(1,2) this assms(4)] obtain r1 xs' c1' rb1' where
    f: "feeds env xs c r1 xs' c1'"
    "ws_ReadHandlerInternal env (Some xs) (rb, c) =
      ((case r1 of Inl e \<Rightarrow> Inl e | Inr Return \<Rightarrow> Inr False | Inr _ \<Rightarrow> Inr (ws_IsOpen c1')), rb1', c1')"
    "r1 = Inr Break \<and> (ws_IsOpen c1' \<longrightarrow> ws_ready (rb1', c1')) \<or> r1 = Inr Return
       \<or> (\<exists>e. r1 = Inl (PacketException e))"
    by blast
  with assms(5) have f1: "feeds env xs c r1 xs' c1" "r1 = Inr Break" "ws_IsOpen c1" "ws_ready (rb1, c1)"
    by auto
  from ws_ReadHandlerInternal_feeds [OF f1(4,3) _ assms(4), of ys] assms(3) obtain r2 ys' c2 rb2 where
    f2: "feeds env ys c1 r2 ys' c2"
    and e2: "ws_ReadHandlerInternal env (Some ys) (rb1, c1) =
      ((case r2 of Inl e \<Rightarrow> Inl e | Inr Return \<Rightarrow> Inr False | Inr _ \<Rightarrow> Inr (ws_IsOpen c2)), rb2, c2)"
    by auto
  from ws_ReadHandlerInternal_feeds [OF assms(1,2,3,4)] obtain r3 zs' c3 rb3 where
    f3: "feeds env (xs @ ys) c r3 zs' c3"
    and e3: "ws_ReadHandlerInternal env (Some (xs @ ys)) (rb, c) =
      ((case r3 of Inl e \<Rightarrow> Inl e | Inr Return \<Rightarrow> Inr False | Inr _ \<Rightarrow> Inr (ws_IsOpen c3)), rb3, c3)"
    by auto
  have "ws_inv c" using assms(1) by (simp add: ws_ready_def)
  from feeds_append [OF assms(4) f1(1) this f1(2) f2] f3 have "r3 = r2 \<and> c3 = c2"
    using feeds_deterministic by blast
  with e2 e3 show ?thesis by auto
qed

lemma sample_partial_header:
  "\<exists>rb c. ws_ReadHandlerInternal sample_env (Some [0, 4, 0xDC]) (fst sample_socket, snd sample_socket)
     = (Inr True, rb, c)"
proof -
  obtain r bs' c' rb' where f: "feeds sample_env [0, 4, 0xDC] (snd sample_socket) r bs' c'"
    and e: "ws_ReadHandlerInternal sample_env (Some [0, 4, 0xDC]) (fst sample_socket, snd sample_socket) =
      ((case r of Inl e \<Rightarrow> Inl e | Inr Return \<Rightarrow> Inr False | Inr _ \<Rightarrow> Inr (ws_IsOpen c')), rb', c')"
    using ws_ReadHandlerInternal_feeds [OF sample_socket_ready, of "[0, 4, 0xDC]" sample_env] plain_crypto_ok
    by auto
  have b: "sp_body sample_env [0, 4, 0xDC] (snd sample_socket) =
    (Inr Break, [], (snd sample_socket)\<lparr>ws_headerBuffer := mb_put [0, 4, 0xDC] (ws_headerBuffer (snd sample_socket))\<rparr>)"
    by (simp add: sp_body_def sample_socket_def ws_new_def mb_space_def mb_Resize_def mb_new_def)
  have "r = Inr Break \<and> ws_IsOpen c'"
    using f b sample_socket_ready(2) by cases (auto simp: ws_IsOpen_def)
  with e show ?thesis by auto
qed

theorem segmentation_transparent_witness:
  "\<exists>rb1 c1 r rb2 rb3 c2.
    ws_ReadHandlerInternal sample_env (Some [0, 4, 0xDC]) (fst sample_socket, snd sample_socket) = (Inr True, rb1, c1)
    \<and> ws_ReadHandlerInternal sample_env (Some [1, 0, 0]) (rb1, c1) = (r, rb2, c2)
    \<and> ws_ReadHandlerInternal sample_env (Some ([0, 4, 0xDC] @ [1, 0, 0])) (fst sample_socket, snd sample_socket)
        = (r, rb3, c2)"
proof -
  obtain rb1 c1 where 1: "ws_ReadHandlerInternal sample_env (Some [0, 4, 0xDC])
      (fst sample_socket, snd sample_socket) = (Inr True, rb1, c1)"
    using sample_partial_header by blast
  from segmentation_transparent [OF sample_socket_ready _ plain_crypto_ok 1, of "[1, 0, 0]"] 1
  show ?thesis by auto
qed



text \<open>
  C4. Packets leave in the order in which they were sent. After \<^verbatim>\<open>SendPacket\<close> of two
  packets, the bytes that \<^verbatim>\<open>Update\<close> passes to the operating system, followed by the bytes
  still held back, are the bytes held before followed by the image of the first and of the
  second packet, for every pattern of partial writes and blocking; no byte is lost,
  duplicated or reordered between the write buffer and the queue behind it.
\<close>

theorem send_order:
  assumes "ws_IsOpen c" and "ws_out_inv c" and "rc4_keeps_length (we_crypto env)"
    and "length (bb_storage p) < 2 ^ 62" and "length (bb_storage q) < 2 ^ 62"
    and "\<And>i. wr_ok (wr i)"
  shows "\<exists>c1 c2 b sent c3. ws_SendPacket env p c = (Inr (), c1) \<and> ws_SendPacket env q c1 = (Inr (), c2)
    \<and> ws_Update wr c2 = Inr (b, sent, c3)
    \<and> sent @ ws_pending c3 = ws_pending c @ wire_image env p c @ wire_image env q c1"
proof -
  obtain c1 where 1: "ws_SendPacket env p c = (Inr (), c1)" "ws_out_inv c1"
    "ws_pending c1 = ws_pending c @ wire_image env p c"
    using ws_SendPacket_appends [OF assms(1-4)] by blast
  have "ws_IsOpen c1" using ws_SendPacket_keeps(1) [of env p c] 1(1) assms(1) by simp
  then obtain c2 where 2: "ws_SendPacket env q c1 = (Inr (), c2)" "ws_out_inv c2"
    "ws_pending c2 = ws_pending c1 @ wire_image env q c1"
    using ws_SendPacket_appends [OF _ 1(2) assms(3,5)] by blast
  from ws_write_loop_pending [of wr c2, OF assms(6) 2(2)] obtain s d where
    "ws_write_loop wr c2 = Inr (s, d)" "s @ ws_pending d = ws_pending c2" by blast
  then have "\<exists>b sent c3. ws_Update wr c2 = Inr (b, sent, c3) \<and> sent @ ws_pending c3 = ws_pending c2"
    by (auto simp: ws_Update_def)
  then obtain b sent c3 where "ws_Update wr c2 = Inr (b, sent, c3)" "sent @ ws_pending c3 = ws_pending c2"
    by blast
  with 1 2 show ?thesis by auto
qed

theorem send_order_witness:
  "\<exists>c1 c2 b sent c3. ws_SendPacket sample_env (packet_of SMSG_PONG [1, 2, 3, 4]) sample_core = (Inr (), c1)
    \<and> ws_SendPacket sample_env (packet_of SMSG_PONG [5, 6, 7, 8]) c1 = (Inr (), c2)
    \<and> ws_Update (\<lambda>i d. if d = [] then WouldBlock else Wrote 1) c2 = Inr (b, sent, c3)
    \<and> sent @ ws_pending c3 = ws_pending sample_core
        @ wire_image sample_env (packet_of SMSG_PONG [1, 2, 3, 4]) sample_core
        @ wire_image sample_env (packet_of SMSG_PONG [5, 6, 7, 8]) c1"
proof (rule send_order [OF sample_core_ok(2,1) plain_crypto_ok])
  show "wr_ok (\<lambda>d. if d = [] then WouldBlock else Wrote 1)"
    by (auto simp: wr_ok_def Suc_le_eq)
qed simp_all

lemma byte_low: fixes b :: "8 word" assumes "unat b < 128"
  shows "b AND 0x80 = 0" "(0x80 OR b) AND 0x7F = b" "(0x80 OR b) AND 0x80 \<noteq> 0"
proof -
  have t: "take_bit 7 b = b" using assms by (simp only: word_unat_eq_iff unsigned_take_bit_eq) (simp add: take_bit_eq_mod)
  have m: "(0x7F :: 8 word) = mask 7" by (simp add: mask_eq_exp_minus_1)
  have "b AND 0x80 = take_bit 7 b AND 0x80" by (simp only: t)
  also have "\<dots> = take_bit 7 (b AND 0x80)" by (simp add: take_bit_eq_mask ac_simps flip: m)
  also have "\<dots> = b AND take_bit 7 0x80" by (simp add: take_bit_eq_mask ac_simps flip: m)
  finally show "b AND 0x80 = 0" by (simp add: take_bit_eq_mask flip: m)
  have "(0x80 OR b) AND 0x7F = take_bit 7 0x80 OR take_bit 7 b"
    by (simp only: m flip: take_bit_eq_mask) simp
  then show "(0x80 OR b) AND 0x7F = b" by (simp add: t)
  have "bit ((0x80 OR b) AND 0x80) 7" by (simp add: bit_simps)
  then show "(0x80 OR b) AND 0x80 \<noteq> 0" by auto
qed
lemma unat_byte: "unat (ucast (0xFF AND drop_bit k (w :: 32 word)) :: 8 word) = unat w div 2 ^ k mod 256"
proof -
  have m: "(0xFF :: 32 word) = mask 8" by (simp add: mask_eq_exp_minus_1)
  have "0xFF AND drop_bit k w = take_bit 8 (drop_bit k w)"
    unfolding m by (simp only: take_bit_eq_mask and.commute)
  moreover have u: "unat w mod 4294967296 = unat w"
    using unsigned_less [of w, where 'a = nat] by simp
  ultimately show ?thesis
    by (simp only: unsigned_ucast_eq unsigned_take_bit_eq unsigned_drop_bit_eq)
      (simp add: drop_bit_eq_div take_bit_eq_mod u)
qed
lemma unat_byte0: "unat (ucast (0xFF AND (w :: 32 word)) :: 8 word) = unat w mod 256"
  using unat_byte [of 0 w] by simp

lemma le_two: "word_of_le [ucast (0xFF AND cmd), ucast (0xFF AND drop_bit 8 cmd)] = (cmd :: uint16)"
proof -
  have m: "(0xFF :: uint16) = mask 8" by (simp add: mask_eq_exp_minus_1)
  have "[ucast (0xFF AND cmd), ucast (0xFF AND drop_bit 8 cmd)] = le_bytes 2 cmd"
    unfolding m numeral_2_eq_2 le_bytes.simps by (auto intro!: bit_word_eqI simp: bit_simps)
  then show ?thesis using word_of_le_bytes_full [of cmd] by simp
qed

lemma three_digits:
  fixes n :: nat
  assumes "n < 128 * 65536"
  shows "n div 65536 mod 256 * 65536 + n div 256 mod 256 * 256 + n mod 256 = n"
proof -
  have "n div 65536 < 128" using assms by (simp add: less_mult_imp_div_less)
  then have "n div 65536 mod 256 = n div 65536" by simp
  moreover have "n div 256 = n div 256 div 256 * 256 + n div 256 mod 256" by simp
  moreover have "n = n div 256 * 256 + n mod 256" by simp
  moreover have "n div 256 div 256 = n div 65536" by (simp flip: div_mult2_eq)
  ultimately show ?thesis by linarith
qed

text \<open>How the client reads the header.\<close>

definition client_decodes :: "uint8 list \<Rightarrow> nat \<times> uint16" where
  "client_decodes h =
     (if h ! 0 AND 0x80 \<noteq> 0
      then (unat (h ! 0 AND 0x7F) * 65536 + unat (h ! 1) * 256 + unat (h ! 2), word_of_le (drop 3 h))
      else (unat (h ! 0) * 256 + unat (h ! 1), word_of_le (drop 2 h)))"

lemma client_decodes_large:
  "h AND 0x80 \<noteq> 0 \<Longrightarrow> client_decodes [h, a, b, x, y] =
     (unat (h AND 0x7F) * 65536 + unat a * 256 + unat b, word_of_le [x, y])"
  by (simp add: client_decodes_def numeral_2_eq_2 del: word_of_le.simps)

lemma client_decodes_small:
  "h AND 0x80 = 0 \<Longrightarrow> client_decodes [h, a, x, y] = (unat h * 256 + unat a, word_of_le [x, y])"
  by (simp add: client_decodes_def del: word_of_le.simps)

text \<open>
  C5. The size field of a server packet header is readable for the client: below
  \<open>2 ^ 23\<close> the header starts with the size in big-endian order, in two bytes with a clear top
  bit or in three bytes with a set top bit, so the first byte tells which, and the opcode
  follows in little-endian order. (From \<open>2 ^ 23\<close> on the mark and the size overlap.)
\<close>

theorem server_header_round_trip:
  assumes "sze < 0x800000"
  shows "client_decodes (server_header sze cmd) = (unat sze, cmd)
    \<and> length (server_header sze cmd) = sh_getHeaderLength sze"
proof -
  have n: "unat sze < 128 * 65536" using assms by (simp add: word_less_nat_alt)
  show ?thesis
  proof (cases "sh_isLargePacket sze")
    case True
    let ?b = "ucast (0xFF AND drop_bit 16 sze) :: uint8"
    have "unat ?b < 128" using n unfolding unat_byte by (simp add: less_mult_imp_div_less)
    note low = byte_low [OF this]
    have "server_header sze cmd = [0x80 OR ?b, ucast (0xFF AND drop_bit 8 sze), ucast (0xFF AND sze),
        ucast (0xFF AND cmd), ucast (0xFF AND drop_bit 8 cmd)]"
      using True by (simp only: server_header_def if_True append.simps)
    moreover have "client_decodes \<dots> = (unat sze, cmd)"
      unfolding client_decodes_large [OF low(3)] low(2) unat_byte [of 16] unat_byte [of 8]
        unat_byte0 [of sze] le_two
      using three_digits [OF n] n by (simp add: less_mult_imp_div_less)
    ultimately show ?thesis by (metis length_server_header)
  next
    case False
    let ?b = "ucast (0xFF AND drop_bit 8 sze) :: uint8"
    have small: "unat sze < 32768"
      using False by (simp add: sh_isLargePacket_def word_less_nat_alt not_less word_le_nat_alt)
    then have lt: "unat sze div 256 < 128" by (simp add: less_mult_imp_div_less)
    then have "unat ?b < 128" unfolding unat_byte by simp
    note low = byte_low(1) [OF this]
    have "server_header sze cmd = [?b, ucast (0xFF AND sze), ucast (0xFF AND cmd),
        ucast (0xFF AND drop_bit 8 cmd)]"
      using False by (simp only: server_header_def if_False append.simps)
    moreover have "client_decodes \<dots> = (unat sze, cmd)"
      unfolding client_decodes_small [OF low] unat_byte [of 8] unat_byte0 [of sze] le_two
      using lt by simp
    ultimately show ?thesis by (metis length_server_header)
  qed
qed

theorem server_header_round_trip_witness:
  "(40000 :: uint32) < 0x800000 \<and> client_decodes (server_header 40000 SMSG_PONG) = (unat (40000 :: uint32), SMSG_PONG)
    \<and> length (server_header 40000 SMSG_PONG) = sh_getHeaderLength 40000"
  using server_header_round_trip [of 40000 SMSG_PONG] by simp


lemma auth_checks_Inr:
  "auth_checks env seed rq row = Inr security \<longleftrightarrow>
     \<not> we_worldClosed env \<and> aq_realmIndex rq = we_realmID env
     \<and> (we_wardenActive env \<longrightarrow> ar_os row \<in> {''Win'', ''OSX''})
     \<and> aq_digest rq = auth_digest env (aq_account rq) (aq_clientSeed rq) seed (ar_sessionkey row)
     \<and> (ar_locked row = 1 \<longrightarrow> ar_last_ip row = we_address env)
     \<and> \<not> we_banned env (ar_id row)
     \<and> security = (case we_gmlevel env (ar_id row) of None \<Rightarrow> 0 | Some l \<Rightarrow> l)
     \<and> we_securityLimit env \<le> security"
  by (auto simp: auth_checks_def Let_def not_less word_gt_0)

lemma modE_keeps_session:
  "ws_worldSession (snd (bindE (ws_SendAuthResponseError env code) (\<lambda>_. modE f) c)) = ws_worldSession c"
  if "\<And>c. ws_worldSession (f c) = ws_worldSession c"
  using ws_SendPacket_keeps(2) [of env "packet_of SMSG_AUTH_RESPONSE [code]" c] that
  by (auto simp: bindE_def ws_SendAuthResponseError_def split: prod.splits sum.splits)

lemma ws_event_fields [simp]:
  "ws_worldSession (ws_event e c) = ws_worldSession c" "ws_IsOpen (ws_event e c) = ws_IsOpen c"
  "ws_worldSession (ws_DelayedCloseSocket c) = ws_worldSession c"
  "ws_authCrypt (ws_event e c) = ws_authCrypt c" "ws_pending (ws_event e c) = ws_pending c"
  by (simp_all add: ws_event_def ws_DelayedCloseSocket_def ws_IsOpen_def ws_pending_def)

lemma HandleAuthSession_session:
  assumes "read_auth_request (we_big env) p = (Inr rq, rest)" and "we_account env (aq_account rq) = Some row"
  shows "ws_worldSession (snd (ws_HandleAuthSession env p c)) =
    (case auth_checks env (ws_authSeed c) rq row of
       Inl _ \<Rightarrow> ws_worldSession c | Inr security \<Rightarrow> Some (new_session env security row))"
  using assms
  by (simp add: ws_HandleAuthSession_def Let_def modE_keeps_session split: sum.split prod.split)

lemma HandleAuthSession_no_session:
  assumes "\<And>rq rest. read_auth_request (we_big env) p = (Inr rq, rest) \<Longrightarrow> we_account env (aq_account rq) = None"
  shows "ws_worldSession (snd (ws_HandleAuthSession env p c)) = ws_worldSession c"
  using assms
  by (auto simp: ws_HandleAuthSession_def modE_keeps_session split: sum.split prod.split option.split)

text \<open>
  C3. A session exists only after every check of the handshake. Handling
  \<^verbatim>\<open>CMSG_AUTH_SESSION\<close> on a connection without a session leaves one exactly when the
  request is well formed, the account exists, the world accepts the realm and the client,
  the digest over both seeds and the session key is the one the client sent, a locked
  account comes from its last address, the account is not banned and its security level is
  high enough; and the session is the one of that account.
\<close>

theorem session_iff_authenticated:
  assumes "ws_worldSession c = None"
  shows "ws_worldSession (snd (ws_HandleAuthSession env p c)) = Some s \<longleftrightarrow>
    (\<exists>rq rest row security.
       read_auth_request (we_big env) p = (Inr rq, rest) \<and> we_account env (aq_account rq) = Some row
       \<and> \<not> we_worldClosed env \<and> aq_realmIndex rq = we_realmID env
       \<and> (we_wardenActive env \<longrightarrow> ar_os row \<in> {''Win'', ''OSX''})
       \<and> aq_digest rq = auth_digest env (aq_account rq) (aq_clientSeed rq) (ws_authSeed c) (ar_sessionkey row)
       \<and> (ar_locked row = 1 \<longrightarrow> ar_last_ip row = we_address env)
       \<and> \<not> we_banned env (ar_id row)
       \<and> security = (case we_gmlevel env (ar_id row) of None \<Rightarrow> 0 | Some l \<Rightarrow> l)
       \<and> we_securityLimit env \<le> security \<and> s = new_session env security row)"
proof (cases "\<exists>rq rest row. read_auth_request (we_big env) p = (Inr rq, rest)
    \<and> we_account env (aq_account rq) = Some row")
  case True
  then obtain rq rest row where r: "read_auth_request (we_big env) p = (Inr rq, rest)"
    "we_account env (aq_account rq) = Some row" by blast
  have "ws_worldSession (snd (ws_HandleAuthSession env p c)) = Some s \<longleftrightarrow>
      (\<exists>security. auth_checks env (ws_authSeed c) rq row = Inr security \<and> s = new_session env security row)"
    using assms HandleAuthSession_session [OF r, of c]
    by (cases "auth_checks env (ws_authSeed c) rq row") auto
  with r show ?thesis unfolding auth_checks_Inr by simp
next
  case False
  with assms HandleAuthSession_no_session [of env p c] show ?thesis by fastforce
qed

definition sample_auth_packet :: bytebuffer where
  "sample_auth_packet = \<lparr>bb_rpos = 0, bb_wpos = 58, bb_storage =
     [0x34, 0x30, 0, 0,  0, 0, 0, 0,  65, 0,  0, 0, 0, 0,  9, 0, 0, 0,  0, 0, 0, 0,
      0, 0, 0, 0,  1, 0, 0, 0,  0, 0, 0, 0, 0, 0, 0, 0,
      65, 0, 0, 0, 0, 9, 0, 0, 0, 5, 0, 0, 0, 0, 0, 0, 0, 0, 0, 0]\<rparr>"

definition sample_request :: auth_request where
  "sample_request = \<lparr>aq_clientBuild = 12340, aq_serverId = 0, aq_account = [65], aq_loginServerType = 0,
     aq_clientSeed = 9, aq_region = 0, aq_battlegroup = 0, aq_realmIndex = 1, aq_unk4 = 0,
     aq_digest = [65, 0, 0, 0, 0, 9, 0, 0, 0, 5, 0, 0, 0, 0, 0, 0, 0, 0, 0, 0]\<rparr>"

lemma sample_auth_packet_read:
  "read_auth_request False sample_auth_packet = (Inr sample_request, sample_auth_packet\<lparr>bb_rpos := 58\<rparr>)"
  by (simp add: read_auth_request_def sample_auth_packet_def sample_request_def bindE_def bb_read_def
      bb_read_at_def of_mem_image_def EndianConvert_def bb_get_string_def bb_get_string_loop.simps
      bb_read_bytes_def Let_def)

definition longer_crypto :: "unit crypto" where
  "longer_crypto = plain_crypto\<lparr>cr_sha1 := \<lambda>d. take 20 (d @ replicate 20 0)\<rparr>"

definition auth_env :: "unit ws_env" where
  "auth_env = sample_env\<lparr>we_crypto := longer_crypto\<rparr>"

theorem session_iff_authenticated_witness:
  "ws_worldSession (snd sample_socket) = None
   \<and> ws_worldSession (snd (ws_HandleAuthSession auth_env sample_auth_packet (snd sample_socket)))
       = Some (new_session auth_env 0 sample_row)"
proof -
  have none: "ws_worldSession (snd sample_socket) = None"
    by (simp add: sample_socket_def ws_new_def)
  have le4: "le_bytes 4 w = [ucast w, ucast (drop_bit 8 w), ucast (drop_bit 16 w), ucast (drop_bit 24 w)]"
    for w :: uint32
  proof -
    have "4 = Suc (Suc (Suc (Suc 0)))" by simp
    then show ?thesis by (simp only: le_bytes.simps drop_bit_drop_bit) simp
  qed
  have "aq_digest sample_request = auth_digest auth_env (aq_account sample_request)
      (aq_clientSeed sample_request) (ws_authSeed (snd sample_socket)) (ar_sessionkey sample_row)"
    by (simp add: auth_digest_def auth_env_def sample_env_def longer_crypto_def sample_request_def
        sample_row_def sample_socket_def ws_new_def mem_image_def le4,
        simp add: numeral_eq_Suc)
  then have "\<exists>rq rest row security.
       read_auth_request (we_big auth_env) sample_auth_packet = (Inr rq, rest)
       \<and> we_account auth_env (aq_account rq) = Some row
       \<and> \<not> we_worldClosed auth_env \<and> aq_realmIndex rq = we_realmID auth_env
       \<and> (we_wardenActive auth_env \<longrightarrow> ar_os row \<in> {''Win'', ''OSX''})
       \<and> aq_digest rq = auth_digest auth_env (aq_account rq) (aq_clientSeed rq)
            (ws_authSeed (snd sample_socket)) (ar_sessionkey row)
       \<and> (ar_locked row = 1 \<longrightarrow> ar_last_ip row = we_address auth_env)
       \<and> \<not> we_banned auth_env (ar_id row)
       \<and> security = (case we_gmlevel auth_env (ar_id row) of None \<Rightarrow> 0 | Some l \<Rightarrow> l)
       \<and> we_securityLimit auth_env \<le> security
       \<and> new_session auth_env 0 sample_row = new_session auth_env security row"
    by (intro exI [of _ sample_request] exI [of _ "sample_auth_packet\<lparr>bb_rpos := 58\<rparr>"]
        exI [of _ sample_row] exI [of _ 0])
      (simp add: auth_env_def sample_env_def sample_auth_packet_read, simp add: sample_request_def sample_row_def)
  with session_iff_authenticated [OF none, of auth_env sample_auth_packet "new_session auth_env 0 sample_row"]
    none show ?thesis by blast
qed

text \<open>
  A failed check is answered and the connection is given up: the client gets
  \<^verbatim>\<open>SMSG_AUTH_RESPONSE\<close> with the code of the first check that fails, under the cipher
  keyed with the account's session key, behind everything queued before; no session is
  created and the socket is closing.
\<close>

theorem auth_rejection:
  assumes "ws_IsOpen c" and "ws_out_inv c" and "rc4_keeps_length (we_crypto env)"
    and "read_auth_request (we_big env) p = (Inr rq, rest)"
    and "we_account env (aq_account rq) = Some row"
    and "auth_checks env (ws_authSeed c) rq row = Inl (code, hook)"
  shows "\<exists>c'. ws_HandleAuthSession env p c = (Inr (), c') \<and> ws_closing c'
    \<and> ws_worldSession c' = ws_worldSession c
    \<and> ws_pending c' = ws_pending c @ wire_image env (packet_of SMSG_AUTH_RESPONSE [code])
        (c\<lparr>ws_authCrypt := ac_Init (we_crypto env) (ar_sessionkey row) (ws_authCrypt c)\<rparr>)"
proof -
  let ?ac = "ac_Init (we_crypto env) (ar_sessionkey row) (ws_authCrypt c)"
  let ?p = "packet_of SMSG_AUTH_RESPONSE [code]"
  define c2 where "c2 = (ws_event (UpdLastAttemptIp (we_address env) (aq_account rq)) c)\<lparr>ws_authCrypt := ?ac\<rparr>"
  define c3 where "c3 = (if auth_reaches_mutetime env (ws_authSeed c) rq row \<and> ar_mutetime row < 0
    then ws_event (UpdMuteTime (auth_mutetime env row) (ar_id row)) c2 else c2)"
  have c3: "ws_IsOpen c3" "ws_out_inv c3" "ws_pending c3 = ws_pending c"
    "ws_authCrypt c3 = ?ac" "ws_worldSession c3 = ws_worldSession c"
    using assms(1,2) by (auto simp: c3_def c2_def ws_event_def ws_IsOpen_def ws_out_inv_def ws_pending_def)
  from ws_SendPacket_appends [OF c3(1,2) assms(3), of ?p] obtain c4 where
    c4: "ws_SendPacket env ?p c3 = (Inr (), c4)" "ws_pending c4 = ws_pending c3 @ wire_image env ?p c3"
    by auto
  have run: "ws_HandleAuthSession env p c = (Inr (), ws_DelayedCloseSocket
      (if hook then ws_event (OnFailedAccountLogin (ar_id row)) c4 else c4))"
  proof -
    have "ws_HandleAuthSession env p c = bindE (ws_SendPacket env ?p)
        (\<lambda>_. modE (\<lambda>c. ws_DelayedCloseSocket
           (if hook then ws_event (OnFailedAccountLogin (ar_id row)) c else c))) c3"
      using assms(4-6)
      by (simp add: ws_HandleAuthSession_def ws_SendAuthResponseError_def c3_def c2_def Let_def)
    then show ?thesis using c4(1) by (simp add: bindE_def)
  qed
  have "ws_worldSession c4 = ws_worldSession c"
    using ws_SendPacket_keeps(2) [of env ?p c3] c4(1) c3(5) by simp
  then show ?thesis
    using c3(3,4) c4(2) unfolding run
    by (simp add: wire_image_def ws_DelayedCloseSocket_def ws_pending_def ws_event_def)
qed

definition closed_env :: "unit ws_env" where
  "closed_env = sample_env\<lparr>we_worldClosed := True\<rparr>"

theorem auth_rejection_witness:
  "\<exists>c'. ws_HandleAuthSession closed_env sample_auth_packet sample_core = (Inr (), c') \<and> ws_closing c'
    \<and> ws_worldSession c' = ws_worldSession sample_core
    \<and> ws_pending c' = ws_pending sample_core @ wire_image closed_env (packet_of SMSG_AUTH_RESPONSE [AUTH_REJECT])
        (sample_core\<lparr>ws_authCrypt := ac_Init (we_crypto closed_env) (ar_sessionkey sample_row) (ws_authCrypt sample_core)\<rparr>)"
proof (rule auth_rejection [OF sample_core_ok(2,1)])
  show "rc4_keeps_length (we_crypto closed_env)"
    using plain_crypto_ok by (simp add: closed_env_def)
  show "read_auth_request (we_big closed_env) sample_auth_packet
      = (Inr sample_request, sample_auth_packet\<lparr>bb_rpos := 58\<rparr>)"
    using sample_auth_packet_read by (simp add: closed_env_def sample_env_def)
  show "we_account closed_env (aq_account sample_request) = Some sample_row"
    by (simp add: closed_env_def sample_env_def sample_request_def)
  show "auth_checks closed_env (ws_authSeed sample_core) sample_request sample_row = Inl (AUTH_REJECT, False)"
    by (simp add: auth_checks_def closed_env_def)
qed

text \<open>
  A ping too short for its two fields makes \<^verbatim>\<open>ReadDataHandler\<close> throw: unlike the packets
  handed to a session, which run under the handler of \<^verbatim>\<open>WorldSession::Update\<close>, the
  exception leaves the socket's callback. No session and no authentication is needed.
\<close>

theorem short_ping_throws:
  assumes "mb_peek 6 (ws_headerBuffer c) = Some raw"
    and "ucast (header_cmd (we_big env) raw) = CMSG_PING"
    and "length (mb_storage (ws_packetBuffer c)) < 8"
  shows "\<exists>e c'. ws_ReadDataHandler env c = (Inl (PacketException e), c')"
proof -
  let ?n = "length (mb_storage (ws_packetBuffer c))"
  have "ws_HandlePing env b k = (Inl (PacketException e), k)"
    if "bindE (bb_read (we_big env) :: uint32 bbop)
      (\<lambda>x. bindE (bb_read (we_big env) :: uint32 bbop) (\<lambda>y. ret (x, y))) b = (Inl e, b')" for b e b' k
    using that by (simp add: ws_HandlePing_def)
  moreover have "\<exists>e b'. bindE (bb_read (we_big env) :: uint32 bbop)
      (\<lambda>x. bindE (bb_read (we_big env) :: uint32 bbop) (\<lambda>y. ret (x, y))) b = (Inl e, b')"
    if "bb_rpos b = 0" "length (bb_storage b) < 8" for b
    using that by (auto simp: bindE_def bb_read_def bb_read_at_def Let_def split: sum.split)
  ultimately have ping: "\<exists>e. ws_HandlePing env b k = (Inl (PacketException e), k)"
    if "bb_rpos b = 0" "length (bb_storage b) < 8" for b k
    using that by blast
  show ?thesis
    using assms ping [of "bytebuffer.truncate (fst (wp_of_msgbuf CMSG_PING (ws_packetBuffer c)))"
        "c\<lparr>ws_packetBuffer := snd (wp_of_msgbuf CMSG_PING (ws_packetBuffer c))\<rparr>"]
    by (auto simp: ws_ReadDataHandler_def wp_of_msgbuf_def mb_Move_def bytebuffer.truncate_def bindE_err)
qed

definition ping_core :: "unit wcore" where
  "ping_core = (snd sample_socket)\<lparr>ws_headerBuffer := \<lparr>mb_wpos = 6, mb_rpos = 0, mb_storage = [0, 0, 0xDC, 1, 0, 0]\<rparr>,
     ws_packetBuffer := \<lparr>mb_wpos = 0, mb_rpos = 0, mb_storage = []\<rparr>\<rparr>"

theorem short_ping_throws_witness:
  "mb_peek 6 (ws_headerBuffer ping_core) = Some [0, 0, 0xDC, 1, 0, 0]
   \<and> (\<exists>e c'. ws_ReadDataHandler sample_env ping_core = (Inl (PacketException e), c'))"
proof
  show peek: "mb_peek 6 (ws_headerBuffer ping_core) = Some [0, 0, 0xDC, 1, 0, 0]"
    by (simp add: ping_core_def mb_peek_def)
  show "\<exists>e c'. ws_ReadDataHandler sample_env ping_core = (Inl (PacketException e), c')"
    by (rule short_ping_throws [OF peek])
      (simp_all add: sample_env_def header_cmd_def of_mem_image_def CMSG_PING_def ping_core_def)
qed

end
