(* ===== verification/Std_Containers.thy ===== *)
theory Std_Containers
  imports HG_Prelude
begin

text \<open>
  \<^verbatim>\<open>std::set\<close> and \<^verbatim>\<open>std::map\<close> as lists in key order, which is the order in which the
  code iterates over them, and the contracts the clients rely on as locales:
  \<open>ordered_set\<close> and \<open>ordered_map\<close>, interpreted on the list operations.
\<close>

section \<open>std::set\<close>

fun ss_insert :: "'a::linorder \<Rightarrow> 'a list \<Rightarrow> 'a list" where
  "ss_insert x [] = [x]"
| "ss_insert x (y # ys) = (if x < y then x # y # ys else if x = y then y # ys else y # ss_insert x ys)"

definition ss_erase :: "'a::linorder \<Rightarrow> 'a list \<Rightarrow> 'a list" where
  "ss_erase x xs = filter (\<lambda>y. y \<noteq> x) xs"

definition ss_ok :: "'a::linorder list \<Rightarrow> bool" where
  "ss_ok xs \<longleftrightarrow> sorted_wrt (<) xs"

text \<open>
  The contract: what the elements are after an insertion and a removal, and that both keep
  the representation.
\<close>

locale ordered_set =
  fixes ins :: "'a \<Rightarrow> 's \<Rightarrow> 's"
    and del :: "'a \<Rightarrow> 's \<Rightarrow> 's"
    and elems :: "'s \<Rightarrow> 'a set"
    and ok :: "'s \<Rightarrow> bool"
  assumes elems_ins: "elems (ins x s) = insert x (elems s)"
    and elems_del: "elems (del x s) = elems s - {x}"
    and ok_ins: "ok s \<Longrightarrow> ok (ins x s)"
    and ok_del: "ok s \<Longrightarrow> ok (del x s)"
begin

text \<open>Loops that insert or erase a whole range.\<close>

lemma elems_fold_ins: "elems (fold ins xs s) = set xs \<union> elems s"
  by (induction xs arbitrary: s) (auto simp: elems_ins)

lemma ok_fold_ins: "ok s \<Longrightarrow> ok (fold ins xs s)"
  by (induction xs arbitrary: s) (auto simp: ok_ins)

lemma elems_fold_del: "elems (fold del xs s) = elems s - set xs"
  by (induction xs arbitrary: s) (auto simp: elems_del)

lemma ok_fold_del: "ok s \<Longrightarrow> ok (fold del xs s)"
  by (induction xs arbitrary: s) (auto simp: ok_del)

end

lemma set_ss_insert [simp]: "set (ss_insert x xs) = insert x (set xs)"
  by (induction x xs rule: ss_insert.induct) auto

lemma set_ss_erase [simp]: "set (ss_erase x xs) = set xs - {x}"
  by (auto simp: ss_erase_def)

lemma ss_ok_Nil [simp]: "ss_ok []"
  by (simp add: ss_ok_def)

lemma ss_ok_insert [simp]: "ss_ok xs \<Longrightarrow> ss_ok (ss_insert x xs)"
  unfolding ss_ok_def by (induction x xs rule: ss_insert.induct) (auto intro: order.strict_trans)

lemma ss_ok_erase [simp]: "ss_ok xs \<Longrightarrow> ss_ok (ss_erase x xs)"
  by (simp add: ss_ok_def ss_erase_def sorted_wrt_filter)

lemma ss_ok_tl: "ss_ok (x # xs) \<Longrightarrow> ss_ok xs"
  by (simp add: ss_ok_def)

lemma ss_ok_distinct: "ss_ok xs \<Longrightarrow> distinct xs"
  by (simp add: ss_ok_def strict_sorted_iff)

lemma ss_insert_mem: "x \<in> set xs \<Longrightarrow> ss_ok xs \<Longrightarrow> ss_insert x xs = xs"
  unfolding ss_ok_def by (induction x xs rule: ss_insert.induct) auto

lemma length_filter_ss_insert: "\<not> P x \<Longrightarrow> length (filter P (ss_insert x xs)) = length (filter P xs)"
  by (induction x xs rule: ss_insert.induct) auto

interpretation ss: ordered_set ss_insert ss_erase set ss_ok
  by unfold_locales auto

section \<open>std::map\<close>

type_synonym ('k, 'v) omap = "('k \<times> 'v) list"

text \<open>\<^verbatim>\<open>m[k] = v\<close>, \<^verbatim>\<open>m.erase(k)\<close>, \<^verbatim>\<open>m.find(k)\<close>\<close>

fun om_set :: "'k::linorder \<Rightarrow> 'v \<Rightarrow> ('k, 'v) omap \<Rightarrow> ('k, 'v) omap" where
  "om_set k v [] = [(k, v)]"
| "om_set k v ((k', v') # m) =
     (if k < k' then (k, v) # (k', v') # m else if k = k' then (k, v) # m else (k', v') # om_set k v m)"

definition om_erase :: "'k::linorder \<Rightarrow> ('k, 'v) omap \<Rightarrow> ('k, 'v) omap" where
  "om_erase k m = filter (\<lambda>e. fst e \<noteq> k) m"

abbreviation om_find :: "'k::linorder \<Rightarrow> ('k, 'v) omap \<Rightarrow> 'v option" where
  "om_find k m \<equiv> map_of m k"

definition om_keys :: "('k::linorder, 'v) omap \<Rightarrow> 'k set" where
  "om_keys m = fst ` set m"

definition om_ok :: "('k::linorder, 'v) omap \<Rightarrow> bool" where
  "om_ok m \<longleftrightarrow> sorted_wrt (<) (map fst m)"

locale ordered_map =
  fixes upd :: "'k \<Rightarrow> 'v \<Rightarrow> 'm \<Rightarrow> 'm"
    and del :: "'k \<Rightarrow> 'm \<Rightarrow> 'm"
    and look :: "'m \<Rightarrow> 'k \<Rightarrow> 'v option"
    and ok :: "'m \<Rightarrow> bool"
  assumes look_upd: "look (upd k v m) = (look m)(k \<mapsto> v)"
    and look_del: "look (del k m) = (look m)(k := None)"
    and ok_upd: "ok m \<Longrightarrow> ok (upd k v m)"
    and ok_del: "ok m \<Longrightarrow> ok (del k m)"
begin

lemma look_upd_same: "look (upd k v m) k = Some v"
  by (simp add: look_upd)

lemma look_upd_other: "k' \<noteq> k \<Longrightarrow> look (upd k v m) k' = look m k'"
  by (simp add: look_upd)

lemma look_fold_upd: "look (fold (\<lambda>(k, v). upd k v) es m) = fold (\<lambda>(k, v) f. f(k \<mapsto> v)) es (look m)"
  by (induction es arbitrary: m) (auto simp: look_upd)

lemma dom_del: "dom (look (del k m)) = dom (look m) - {k}"
  by (simp add: look_del)

end

lemma om_keys_simps [simp]: "om_keys [] = {}" "om_keys ((k, v) # m) = insert k (om_keys m)"
  by (simp_all add: om_keys_def)

lemma om_keys_set [simp]: "om_keys (om_set k v m) = insert k (om_keys m)"
  by (induction k v m rule: om_set.induct) auto

lemma om_keys_erase [simp]: "om_keys (om_erase k m) = om_keys m - {k}"
  by (auto simp: om_erase_def om_keys_def)

lemma om_find_set [simp]: "map_of (om_set k v m) = (map_of m)(k \<mapsto> v)"
  by (induction k v m rule: om_set.induct) (auto simp: fun_upd_twist)

lemma om_find_erase [simp]: "map_of (om_erase k m) = (map_of m)(k := None)"
  by (induction m) (auto simp: om_erase_def fun_eq_iff)

lemma om_find_dom: "dom (map_of m) = om_keys m"
  by (simp add: om_keys_def dom_map_of_conv_image_fst)

lemma om_find_None: "map_of m k = None \<longleftrightarrow> k \<notin> om_keys m"
  by (simp add: om_keys_def map_of_eq_None_iff)

lemma om_ok_Nil [simp]: "om_ok []"
  by (simp add: om_ok_def)

lemma om_ok_set [simp]: "om_ok m \<Longrightarrow> om_ok (om_set k v m)"
proof (induction k v m rule: om_set.induct)
  case (2 k v k' v' m)
  have "x \<in> om_keys m \<Longrightarrow> k' < x" for x
    using 2(2) by (auto simp: om_ok_def om_keys_def)
  then have "x \<in> om_keys (om_set k v m) \<Longrightarrow> x = k \<or> k' < x" for x by auto
  then have "(a, b) \<in> set (om_set k v m) \<Longrightarrow> a = k \<or> k' < a" for a b
    by (force simp: om_keys_def)
  with 2 show ?case by (fastforce simp: om_ok_def intro: order.strict_trans)
qed (simp add: om_ok_def)

lemma om_ok_erase [simp]: "om_ok m \<Longrightarrow> om_ok (om_erase k m)"
  unfolding om_ok_def om_erase_def
  by (simp add: sorted_wrt_map sorted_wrt_filter)

lemma om_ok_distinct: "om_ok m \<Longrightarrow> distinct (map fst m)"
  by (simp add: om_ok_def strict_sorted_iff)

text \<open>How many entries satisfy a condition\<close>

lemma om_count_new:
  "om_find k m = None \<Longrightarrow> length (filter Q (om_set k v m)) = length (filter Q m) + (if Q (k, v) then 1 else 0)"
  by (induction k v m rule: om_set.induct) (auto split: if_splits)

lemma om_ok_Cons_less: "om_ok ((k', v') # m) \<Longrightarrow> k < k' \<Longrightarrow> om_find k ((k', v') # m) = None"
  by (auto simp: om_ok_def map_of_eq_None_iff)

lemma om_count_old:
  "om_ok m \<Longrightarrow> om_find k m = Some u \<Longrightarrow>
   length (filter Q (om_set k v m)) + (if Q (k, u) then 1 else 0) = length (filter Q m) + (if Q (k, v) then 1 else 0)"
proof (induction k v m rule: om_set.induct)
  case (2 k v k' v' m)
  have "om_ok m" using 2(2) by (simp add: om_ok_def)
  moreover have "\<not> k < k'" using om_ok_Cons_less [OF 2(2)] 2(3) by auto
  ultimately show ?case using 2(1,3) by (auto split: if_splits)
qed simp

lemma om_count_erase:
  "om_ok m \<Longrightarrow> om_find k m = Some u \<Longrightarrow>
   length (filter Q m) = length (filter Q (om_erase k m)) + (if Q (k, u) then 1 else 0)"
proof (induction m)
  case (Cons e m)
  obtain k' v' where e: "e = (k', v')" by (cases e)
  have m: "om_ok m" using Cons.prems(1) by (simp add: om_ok_def)
  show ?case
  proof (cases "k' = k")
    case True
    then have "om_erase k m = m"
      using Cons.prems(1) e unfolding om_erase_def om_ok_def by (auto simp: filter_id_conv)
    then show ?thesis using True Cons.prems(2) e by (simp add: om_erase_def)
  next
    case False
    then show ?thesis using Cons.IH [OF m] Cons.prems(2) e by (simp add: om_erase_def)
  qed
qed simp

interpretation om: ordered_map om_set om_erase map_of om_ok
  by unfold_locales auto

end
