(* ===== verification/RBAC.thy ===== *)
theory RBAC
  imports Std_Containers
begin

text \<open>
  Role-based access control: \<^verbatim>\<open>RBACData\<close> and \<^verbatim>\<open>RBACPermission\<close>
  (src/Core/src/server/game/Accounts/RBAC.cpp, RBAC.h) and the tables of
  \<^verbatim>\<open>AccountMgr\<close> (AccountMgr.cpp) they read. The rows of the account database are
  arguments; the statements executed are recorded in order.
\<close>

section \<open>Permissions and their tables\<close>

record rbac_permission =
  rp_id :: uint32
  rp_name :: string
  rp_perms :: "uint32 list"

definition rp_new :: "uint32 \<Rightarrow> string \<Rightarrow> rbac_permission" where
  "rp_new i name = \<lparr>rp_id = i, rp_name = name, rp_perms = []\<rparr>"

definition rp_AddLinkedPermission :: "uint32 \<Rightarrow> rbac_permission \<Rightarrow> rbac_permission" where
  "rp_AddLinkedPermission i p = p\<lparr>rp_perms := ss_insert i (rp_perms p)\<rparr>"

definition rp_RemoveLinkedPermission :: "uint32 \<Rightarrow> rbac_permission \<Rightarrow> rbac_permission" where
  "rp_RemoveLinkedPermission i p = p\<lparr>rp_perms := ss_erase i (rp_perms p)\<rparr>"

text \<open>
  \<^verbatim>\<open>_permissions\<close> maps ids to pointers; \<open>None\<close> is an absent entry or a null pointer, which
  no operation tells apart.
\<close>

record account_mgr =
  am_permissions :: "uint32 \<Rightarrow> rbac_permission option"
  am_defaultPermissions :: "uint8 \<Rightarrow> uint32 list"

definition am_ClearRBAC :: "account_mgr \<Rightarrow> account_mgr" where
  "am_ClearRBAC am = am\<lparr>am_permissions := \<lambda>_. None, am_defaultPermissions := \<lambda>_. []\<rparr>"

definition am_GetRBACPermission :: "account_mgr \<Rightarrow> uint32 \<Rightarrow> rbac_permission option" where
  "am_GetRBACPermission am permissionId = am_permissions am permissionId"

definition am_GetRBACDefaultPermissions :: "account_mgr \<Rightarrow> uint8 \<Rightarrow> uint32 list" where
  "am_GetRBACDefaultPermissions am secLevel = am_defaultPermissions am secLevel"

fun am_load_permissions :: "(uint32 \<times> string) list \<Rightarrow> account_mgr \<Rightarrow> account_mgr" where
  "am_load_permissions [] am = am"
| "am_load_permissions ((i, name) # rows) am =
     am_load_permissions rows
       (am\<lparr>am_permissions := (am_permissions am)(i := Some (rp_new i name))\<rparr>)"

text \<open>
  The loop over the linked permissions carries the id of the current permission and the
  pointer fetched for it, here the key of the permission it points to. Following a null
  pointer is an error.
\<close>

datatype rbac_error = NullPermission

fun am_load_links ::
  "(uint32 \<times> uint32) list \<Rightarrow> uint32 \<Rightarrow> uint32 option \<Rightarrow> account_mgr \<Rightarrow> rbac_error + account_mgr" where
  "am_load_links [] permissionId permission am = Inr am"
| "am_load_links ((newId, linkedPermissionId) # rows) permissionId permission am =
     (let permission' = (if permissionId \<noteq> newId
                         then (if am_permissions am newId = None then None else Some newId)
                         else permission)
      in if linkedPermissionId = newId then am_load_links rows newId permission' am
         else (case permission' of
                 None \<Rightarrow> Inl NullPermission
               | Some k \<Rightarrow>
                   am_load_links rows newId permission'
                     (am\<lparr>am_permissions := (am_permissions am)
                       (k := map_option (rp_AddLinkedPermission linkedPermissionId)
                               (am_permissions am k))\<rparr>)))"

text \<open>
  \<^verbatim>\<open>secId\<close> is a byte compared with the 32-bit id of the row, \<^verbatim>\<open>permissions\<close> a pointer into
  the table of defaults, here the key it points at.
\<close>

fun am_load_defaults ::
  "(uint32 \<times> uint32) list \<Rightarrow> uint8 \<Rightarrow> uint8 option \<Rightarrow> account_mgr \<Rightarrow> account_mgr" where
  "am_load_defaults [] secId permissions am = am"
| "am_load_defaults ((newId, p) # rows) secId permissions am =
     (let change = (ucast secId \<noteq> newId \<or> permissions = None);
          secId' = (if change then ucast newId else secId);
          key = (if change then secId' else the permissions)
      in am_load_defaults rows secId' (Some key)
           (am\<lparr>am_defaultPermissions := (am_defaultPermissions am)
              (key := ss_insert p (am_defaultPermissions am key))\<rparr>))"

definition am_LoadRBAC ::
  "(uint32 \<times> string) list \<Rightarrow> (uint32 \<times> uint32) list \<Rightarrow> (uint32 \<times> uint32) list
   \<Rightarrow> account_mgr \<Rightarrow> rbac_error + account_mgr" where
  "am_LoadRBAC permRows linkRows defaultRows am =
     (let am0 = am_ClearRBAC am in
      if permRows = [] then Inr am0
      else let am1 = am_load_permissions permRows am0 in
           if linkRows = [] then Inr am1
           else case am_load_links linkRows 0 None am1 of
                  Inl e \<Rightarrow> Inl e
                | Inr am2 \<Rightarrow>
                    Inr (if defaultRows = [] then am2 else am_load_defaults defaultRows 255 None am2))"

section \<open>The data of an account\<close>

datatype rbac_result =
    RBAC_OK
  | RBAC_CANT_ADD_ALREADY_ADDED
  | RBAC_CANT_REVOKE_NOT_IN_LIST
  | RBAC_IN_GRANTED_LIST
  | RBAC_IN_DENIED_LIST
  | RBAC_ID_DOES_NOT_EXISTS

datatype rbac_stmt =
    InsRbacAccountPermission uint32 uint32 bool int32
  | DelRbacAccountPermission uint32 uint32 int32

record rbac_data =
  rd_id :: uint32
  rd_name :: string
  rd_realmId :: int32
  rd_secLevel :: uint8
  rd_grantedPerms :: "uint32 list"
  rd_deniedPerms :: "uint32 list"
  rd_globalPerms :: "uint32 list"
  rd_stmts :: "rbac_stmt list"

definition rd_new :: "uint32 \<Rightarrow> string \<Rightarrow> int32 \<Rightarrow> uint8 \<Rightarrow> rbac_data" where
  "rd_new i name realmId secLevel =
     \<lparr>rd_id = i, rd_name = name, rd_realmId = realmId, rd_secLevel = secLevel,
      rd_grantedPerms = [], rd_deniedPerms = [], rd_globalPerms = [], rd_stmts = []\<rparr>"

definition rd_HasPermission :: "uint32 \<Rightarrow> rbac_data \<Rightarrow> bool" where
  "rd_HasPermission p d \<longleftrightarrow> p \<in> set (rd_globalPerms d)"

definition rd_HasGrantedPermission :: "uint32 \<Rightarrow> rbac_data \<Rightarrow> bool" where
  "rd_HasGrantedPermission p d \<longleftrightarrow> p \<in> set (rd_grantedPerms d)"

definition rd_HasDeniedPermission :: "uint32 \<Rightarrow> rbac_data \<Rightarrow> bool" where
  "rd_HasDeniedPermission p d \<longleftrightarrow> p \<in> set (rd_deniedPerms d)"

definition rd_AddGrantedPermission :: "uint32 \<Rightarrow> rbac_data \<Rightarrow> rbac_data" where
  "rd_AddGrantedPermission p d = d\<lparr>rd_grantedPerms := ss_insert p (rd_grantedPerms d)\<rparr>"

definition rd_RemoveGrantedPermission :: "uint32 \<Rightarrow> rbac_data \<Rightarrow> rbac_data" where
  "rd_RemoveGrantedPermission p d = d\<lparr>rd_grantedPerms := ss_erase p (rd_grantedPerms d)\<rparr>"

definition rd_AddDeniedPermission :: "uint32 \<Rightarrow> rbac_data \<Rightarrow> rbac_data" where
  "rd_AddDeniedPermission p d = d\<lparr>rd_deniedPerms := ss_insert p (rd_deniedPerms d)\<rparr>"

definition rd_RemoveDeniedPermission :: "uint32 \<Rightarrow> rbac_data \<Rightarrow> rbac_data" where
  "rd_RemoveDeniedPermission p d = d\<lparr>rd_deniedPerms := ss_erase p (rd_deniedPerms d)\<rparr>"

definition rd_ClearData :: "rbac_data \<Rightarrow> rbac_data" where
  "rd_ClearData d = d\<lparr>rd_grantedPerms := [], rd_deniedPerms := [], rd_globalPerms := []\<rparr>"

text \<open>The second argument of both is the container that changes.\<close>

definition rd_AddPermissions :: "uint32 list \<Rightarrow> uint32 list \<Rightarrow> uint32 list" where
  "rd_AddPermissions permsFrom permsTo = fold ss_insert permsFrom permsTo"

definition rd_RemovePermissions :: "uint32 list \<Rightarrow> uint32 list \<Rightarrow> uint32 list" where
  "rd_RemovePermissions permsFrom permsTo = fold ss_erase permsFrom permsTo"

text \<open>
  The loop of \<^verbatim>\<open>ExpandPermissions\<close>. It ends on every table: an iteration that expands a new
  permission shrinks the complement of the result, one that meets an expanded permission
  again removes it for good, any other one shrinks the list.
\<close>

definition expand_links :: "uint32 list \<Rightarrow> uint32 list \<Rightarrow> uint32 list \<Rightarrow> uint32 list" where
  "expand_links linkedPerms permissions toCheck =
     fold (\<lambda>l t. if l \<in> set permissions then t else ss_insert l t) linkedPerms toCheck"

lemma length_filter_expand_links:
  "length (filter (\<lambda>x. x \<in> set ps) (expand_links ls ps toCheck)) = length (filter (\<lambda>x. x \<in> set ps) toCheck)"
  unfolding expand_links_def
  by (induction ls arbitrary: toCheck) (simp_all add: length_filter_ss_insert)

lemma card_compl_insert: "x \<notin> A \<Longrightarrow> card (- insert x A) < card (- (A :: 'a::finite set))"
  by (rule psubset_card_mono) auto

function expand_loop :: "account_mgr \<Rightarrow> uint32 list \<Rightarrow> uint32 list \<Rightarrow> uint32 list" where
  "expand_loop am [] permissions = permissions"
| "expand_loop am (permissionId # toCheck) permissions =
     (case am_GetRBACPermission am permissionId of
        None \<Rightarrow> expand_loop am toCheck permissions
      | Some permission \<Rightarrow>
          let permissions' = ss_insert permissionId permissions
          in expand_loop am (expand_links (rp_perms permission) permissions' toCheck) permissions')"
  by pat_completeness auto
termination
proof (relation "measures [\<lambda>(am, t, ps). card (- set ps), \<lambda>(am, t, ps). length (filter (\<lambda>x. x \<in> set ps) t),
    \<lambda>(am, t, ps). length t]", goal_cases)
  case (3 am p t ps perm ps')
  show ?case
  proof (cases "p \<in> set ps")
    case True
    then have "set ps' = set ps" using 3 by auto
    with True length_filter_expand_links [of ps "rp_perms perm" t] show ?thesis
      by (simp add: expand_links_def)
  next
    case False
    with 3 card_compl_insert [OF False] show ?thesis by simp
  qed
qed auto

definition rd_ExpandPermissions :: "account_mgr \<Rightarrow> uint32 list \<Rightarrow> uint32 list" where
  "rd_ExpandPermissions am permissions = expand_loop am permissions []"

definition rd_CalculateNewPermissions :: "account_mgr \<Rightarrow> rbac_data \<Rightarrow> rbac_data" where
  "rd_CalculateNewPermissions am d =
     (let d1 = d\<lparr>rd_globalPerms := rd_ExpandPermissions am (rd_grantedPerms d)\<rparr>;
          revoked = rd_ExpandPermissions am (rd_deniedPerms d1);
          revoked' = rd_RemovePermissions (rd_globalPerms d1) revoked
      in d1)"

definition rd_SavePermission :: "uint32 \<Rightarrow> bool \<Rightarrow> int32 \<Rightarrow> rbac_data \<Rightarrow> rbac_data" where
  "rd_SavePermission permission granted realmId d =
     d\<lparr>rd_stmts := rd_stmts d @ [InsRbacAccountPermission (rd_id d) permission granted realmId]\<rparr>"

definition rd_GrantPermission ::
  "account_mgr \<Rightarrow> uint32 \<Rightarrow> int32 \<Rightarrow> rbac_data \<Rightarrow> rbac_result \<times> rbac_data" where
  "rd_GrantPermission am permissionId realmId d =
     (if am_GetRBACPermission am permissionId = None then (RBAC_ID_DOES_NOT_EXISTS, d)
      else if rd_HasDeniedPermission permissionId d then (RBAC_IN_DENIED_LIST, d)
      else if rd_HasGrantedPermission permissionId d then (RBAC_CANT_ADD_ALREADY_ADDED, d)
      else let d1 = rd_AddGrantedPermission permissionId d
           in (RBAC_OK,
               if realmId \<noteq> 0
               then rd_CalculateNewPermissions am (rd_SavePermission permissionId True realmId d1)
               else d1))"

definition rd_DenyPermission ::
  "account_mgr \<Rightarrow> uint32 \<Rightarrow> int32 \<Rightarrow> rbac_data \<Rightarrow> rbac_result \<times> rbac_data" where
  "rd_DenyPermission am permissionId realmId d =
     (if am_GetRBACPermission am permissionId = None then (RBAC_ID_DOES_NOT_EXISTS, d)
      else if rd_HasGrantedPermission permissionId d then (RBAC_IN_GRANTED_LIST, d)
      else if rd_HasDeniedPermission permissionId d then (RBAC_CANT_ADD_ALREADY_ADDED, d)
      else let d1 = rd_AddDeniedPermission permissionId d
           in (RBAC_OK,
               if realmId \<noteq> 0
               then rd_CalculateNewPermissions am (rd_SavePermission permissionId False realmId d1)
               else d1))"

definition rd_RevokePermission ::
  "account_mgr \<Rightarrow> uint32 \<Rightarrow> int32 \<Rightarrow> rbac_data \<Rightarrow> rbac_result \<times> rbac_data" where
  "rd_RevokePermission am permissionId realmId d =
     (if \<not> rd_HasGrantedPermission permissionId d \<and> \<not> rd_HasDeniedPermission permissionId d
      then (RBAC_CANT_REVOKE_NOT_IN_LIST, d)
      else let d1 = rd_RemoveDeniedPermission permissionId (rd_RemoveGrantedPermission permissionId d)
           in (RBAC_OK,
               if realmId \<noteq> 0
               then rd_CalculateNewPermissions am
                      (d1\<lparr>rd_stmts := rd_stmts d1
                         @ [DelRbacAccountPermission (rd_id d1) permissionId realmId]\<rparr>)
               else d1))"

definition rd_load_row :: "account_mgr \<Rightarrow> uint32 \<times> bool \<Rightarrow> rbac_data \<Rightarrow> rbac_data" where
  "rd_load_row am row d =
     snd (if snd row then rd_GrantPermission am (fst row) 0 d else rd_DenyPermission am (fst row) 0 d)"

text \<open>\<^verbatim>\<open>LoadFromDB\<close>; the query takes the account and the realm and yields the rows.\<close>

definition rd_LoadFromDB ::
  "(uint32 \<Rightarrow> int32 \<Rightarrow> (uint32 \<times> bool) list) \<Rightarrow> account_mgr \<Rightarrow> rbac_data \<Rightarrow> rbac_data" where
  "rd_LoadFromDB query am d =
     (let d0 = rd_ClearData d;
          d1 = fold (rd_load_row am) (query (rd_id d0) (rd_realmId d0)) d0;
          d2 = fold (\<lambda>p d. snd (rd_GrantPermission am p 0 d))
                 (am_GetRBACDefaultPermissions am (rd_secLevel d1)) d1
      in rd_CalculateNewPermissions am d2)"

definition rd_SetSecurityLevel ::
  "(uint32 \<Rightarrow> int32 \<Rightarrow> (uint32 \<times> bool) list) \<Rightarrow> account_mgr \<Rightarrow> uint8 \<Rightarrow> rbac_data \<Rightarrow> rbac_data" where
  "rd_SetSecurityLevel query am i d = rd_LoadFromDB query am (d\<lparr>rd_secLevel := i\<rparr>)"

text \<open>\<^verbatim>\<open>AccountMgr::HasPermission\<close>\<close>

definition am_HasPermission ::
  "(uint32 \<Rightarrow> int32 \<Rightarrow> (uint32 \<times> bool) list) \<Rightarrow> (uint32 \<Rightarrow> uint8) \<Rightarrow> account_mgr
   \<Rightarrow> uint32 \<Rightarrow> uint32 \<Rightarrow> uint32 \<Rightarrow> bool" where
  "am_HasPermission query security am accountId permissionId realmId \<longleftrightarrow>
     accountId \<noteq> 0
     \<and> rd_HasPermission permissionId
         (rd_LoadFromDB query am (rd_new accountId [] realmId (security accountId)))"

section \<open>The closure under links\<close>

text \<open>
  The specification of the expansion: the known permissions that are reached from the given
  ones over links between known permissions.
\<close>

inductive rbac_reach :: "account_mgr \<Rightarrow> uint32 set \<Rightarrow> uint32 \<Rightarrow> bool" for am S where
  reach_base: "p \<in> S \<Longrightarrow> am_GetRBACPermission am p \<noteq> None \<Longrightarrow> rbac_reach am S p"
| reach_step: "rbac_reach am S q \<Longrightarrow> am_GetRBACPermission am q = Some r \<Longrightarrow> p \<in> set (rp_perms r) \<Longrightarrow>
    am_GetRBACPermission am p \<noteq> None \<Longrightarrow> rbac_reach am S p"

inductive_cases rbac_reachE: "rbac_reach am S p"

lemma rbac_reach_known: "rbac_reach am S p \<Longrightarrow> am_GetRBACPermission am p \<noteq> None"
  by (erule rbac_reachE) auto

lemma rbac_reach_trans:
  assumes "rbac_reach am S p" and "\<And>q. q \<in> S \<Longrightarrow> am_GetRBACPermission am q \<noteq> None \<Longrightarrow> rbac_reach am T q"
  shows "rbac_reach am T p"
  using assms(1) by (induction rule: rbac_reach.induct) (auto intro: assms(2) rbac_reach.intros)

lemma rbac_reach_mono: "rbac_reach am S p \<Longrightarrow> S \<subseteq> T \<Longrightarrow> rbac_reach am T p"
  by (erule rbac_reach_trans) (auto intro: rbac_reach.intros)

definition links_covered :: "account_mgr \<Rightarrow> uint32 set \<Rightarrow> uint32 set \<Rightarrow> bool" where
  "links_covered am ps t \<longleftrightarrow>
     (\<forall>q \<in> ps. \<exists>r. am_GetRBACPermission am q = Some r
        \<and> (\<forall>l \<in> set (rp_perms r). am_GetRBACPermission am l \<noteq> None \<longrightarrow> l \<in> ps \<union> t))"

lemma reach_covered:
  assumes "links_covered am ps t" and "rbac_reach am (ps \<union> t) p"
  shows "p \<in> ps \<or> rbac_reach am t p"
  using assms(2)
proof (induction rule: rbac_reach.induct)
  case (reach_base p)
  then show ?case by (auto intro: rbac_reach.reach_base)
next
  case (reach_step q r p)
  show ?case
  proof (cases "q \<in> ps")
    case True
    then have "p \<in> ps \<union> t" using reach_step assms(1) by (fastforce simp: links_covered_def)
    then show ?thesis using reach_step(4) by (auto intro: rbac_reach.reach_base)
  next
    case False
    with reach_step show ?thesis by (auto intro: rbac_reach.reach_step)
  qed
qed

lemma set_expand_links: "set (expand_links ls ps t) = set t \<union> (set ls - set ps)"
  unfolding expand_links_def by (induction ls arbitrary: t) auto

lemma expand_loop_reach:
  "links_covered am (set ps) (set t) \<Longrightarrow>
   set (expand_loop am t ps) = set ps \<union> {p. rbac_reach am (set t) p}"
proof (induction am t ps rule: expand_loop.induct)
  case (1 am ps)
  have "\<not> rbac_reach am {} p" for p
    by (rule notI, erule rbac_reach.induct) auto
  then show ?case by simp
next
  case (2 am x t ps)
  show ?case
  proof (cases "am_GetRBACPermission am x")
    case None
    then have "links_covered am (set ps) (set t)" using 2(3) by (fastforce simp: links_covered_def)
    moreover have "rbac_reach am (insert x (set t)) p = rbac_reach am (set t) p" for p
      using None by (auto intro: rbac_reach_mono elim!: rbac_reach_trans intro: rbac_reach.reach_base)
    ultimately show ?thesis using 2(1) [OF None] None by simp
  next
    case (Some r)
    define ps' where "ps' = ss_insert x ps"
    define t' where "t' = expand_links (rp_perms r) ps' t"
    have sets: "set ps' = insert x (set ps)" "set t' = set t \<union> (set (rp_perms r) - set ps')"
      by (simp_all add: ps'_def t'_def set_expand_links)
    have cov: "links_covered am (set ps') (set t')"
      using 2(3) Some unfolding links_covered_def sets by fastforce
    have "rbac_reach am (insert x (set t)) q" if "rbac_reach am (set t') q" for q
      using that
    proof (rule rbac_reach_trans)
      fix p assume "p \<in> set t'" "am_GetRBACPermission am p \<noteq> None"
      moreover have "rbac_reach am (insert x (set t)) x" using Some by (auto intro: rbac_reach.reach_base)
      ultimately show "rbac_reach am (insert x (set t)) p"
        using Some unfolding sets by (auto intro: rbac_reach.intros)
    qed
    moreover have "q \<in> set ps' \<or> rbac_reach am (set t') q" if "rbac_reach am (insert x (set t)) q" for q
      using reach_covered [OF cov, of q] rbac_reach_mono [OF that, of "set ps' \<union> set t'"] sets by auto
    moreover have "rbac_reach am (insert x (set t)) x" using Some by (auto intro: rbac_reach.reach_base)
    moreover have "set (expand_loop am t' ps') = set ps' \<union> {p. rbac_reach am (set t') p}"
      using 2(2) [OF Some ps'_def] cov by (simp add: t'_def)
    ultimately show ?thesis using Some sets(1) by (auto simp: Let_def t'_def ps'_def)
  qed
qed

lemma ss_ok_expand_loop: "ss_ok ps \<Longrightarrow> ss_ok (expand_loop am t ps)"
  by (induction am t ps rule: expand_loop.induct) (auto simp: Let_def split: option.split)

lemma set_ExpandPermissions: "set (rd_ExpandPermissions am ps) = {p. rbac_reach am (set ps) p}"
  using expand_loop_reach [of am "[]" ps] by (simp add: rd_ExpandPermissions_def links_covered_def)

lemma CalculateNewPermissions_simps [simp]:
  "rd_grantedPerms (rd_CalculateNewPermissions am d) = rd_grantedPerms d"
  "rd_deniedPerms (rd_CalculateNewPermissions am d) = rd_deniedPerms d"
  "rd_globalPerms (rd_CalculateNewPermissions am d) = rd_ExpandPermissions am (rd_grantedPerms d)"
  by (simp_all add: rd_CalculateNewPermissions_def)

lemma SavePermission_simps [simp]:
  "rd_grantedPerms (rd_SavePermission p g r d) = rd_grantedPerms d"
  "rd_deniedPerms (rd_SavePermission p g r d) = rd_deniedPerms d"
  "rd_globalPerms (rd_SavePermission p g r d) = rd_globalPerms d"
  by (simp_all add: rd_SavePermission_def)

section \<open>Invariant\<close>

text \<open>
  No permission is both granted and denied, both lists hold known permissions only, and the
  containers are sets.
\<close>

definition rbac_inv :: "account_mgr \<Rightarrow> rbac_data \<Rightarrow> bool" where
  "rbac_inv am d \<longleftrightarrow> ss_ok (rd_grantedPerms d) \<and> ss_ok (rd_deniedPerms d)
     \<and> set (rd_grantedPerms d) \<inter> set (rd_deniedPerms d) = {}
     \<and> (\<forall>p \<in> set (rd_grantedPerms d) \<union> set (rd_deniedPerms d). am_GetRBACPermission am p \<noteq> None)"

lemmas rbac_ops =
  rd_GrantPermission_def rd_DenyPermission_def rd_RevokePermission_def rd_AddGrantedPermission_def
  rd_AddDeniedPermission_def rd_RemoveGrantedPermission_def rd_RemoveDeniedPermission_def
  rd_HasGrantedPermission_def rd_HasDeniedPermission_def rd_HasPermission_def

lemma rbac_inv_Calculate [simp]: "rbac_inv am (rd_CalculateNewPermissions am' d) = rbac_inv am d"
  by (simp add: rbac_inv_def)

lemma rbac_inv_Save [simp]:
  "rbac_inv am (rd_SavePermission p g r d) = rbac_inv am d"
  "rbac_inv am (d\<lparr>rd_stmts := s\<rparr>) = rbac_inv am d"
  by (simp_all add: rbac_inv_def rd_SavePermission_def)

lemma rbac_inv_Grant: "rbac_inv am d \<Longrightarrow> rbac_inv am (snd (rd_GrantPermission am p r d))"
  by (simp add: rbac_ops Let_def) (auto simp: rbac_inv_def)

lemma rbac_inv_Deny: "rbac_inv am d \<Longrightarrow> rbac_inv am (snd (rd_DenyPermission am p r d))"
  by (simp add: rbac_ops Let_def) (auto simp: rbac_inv_def)

lemma rbac_inv_Revoke: "rbac_inv am d \<Longrightarrow> rbac_inv am (snd (rd_RevokePermission am p r d))"
  by (simp add: rbac_ops Let_def) (auto simp: rbac_inv_def)

lemma rbac_inv_load_row: "rbac_inv am d \<Longrightarrow> rbac_inv am (rd_load_row am row d)"
  by (simp add: rd_load_row_def rbac_inv_Grant rbac_inv_Deny)

lemma rbac_inv_fold:
  assumes "\<And>x d. rbac_inv am d \<Longrightarrow> rbac_inv am (f x d)"
  shows "rbac_inv am d \<Longrightarrow> rbac_inv am (fold f xs d)"
  by (induction xs arbitrary: d) (auto intro: assms)

lemma rbac_inv_Load: "rbac_inv am (rd_LoadFromDB query am d)"
proof -
  have "rbac_inv am (rd_ClearData d)" by (simp add: rbac_inv_def rd_ClearData_def)
  then show ?thesis
    unfolding rd_LoadFromDB_def Let_def rbac_inv_Calculate
    by (intro rbac_inv_fold rbac_inv_Grant rbac_inv_load_row)
qed

text \<open>The life of an account: loaded from the database, then changed by commands.\<close>

inductive rbac_life :: "account_mgr \<Rightarrow> rbac_data \<Rightarrow> bool" for am where
  life_load: "rbac_life am (rd_LoadFromDB query am d)"
| life_grant: "rbac_life am d \<Longrightarrow> rbac_life am (snd (rd_GrantPermission am p r d))"
| life_deny: "rbac_life am d \<Longrightarrow> rbac_life am (snd (rd_DenyPermission am p r d))"
| life_revoke: "rbac_life am d \<Longrightarrow> rbac_life am (snd (rd_RevokePermission am p r d))"
| life_level: "rbac_life am d \<Longrightarrow> rbac_life am (rd_SetSecurityLevel query am i d)"

section \<open>Loading the tables\<close>

definition am_linked :: "account_mgr \<Rightarrow> uint32 \<Rightarrow> uint32 set" where
  "am_linked am p = (case am_permissions am p of None \<Rightarrow> {} | Some r \<Rightarrow> set (rp_perms r))"

definition am_known :: "account_mgr \<Rightarrow> uint32 set" where
  "am_known am = {p. am_GetRBACPermission am p \<noteq> None}"

lemma load_permissions:
  "am_known (am_load_permissions rows am) = am_known am \<union> fst ` set rows"
  "(\<And>p. am_linked am p = {}) \<Longrightarrow> am_linked (am_load_permissions rows am) p = {}"
  "am_defaultPermissions (am_load_permissions rows am) = am_defaultPermissions am"
  by (induction rows am rule: am_load_permissions.induct)
    (auto simp: am_known_def am_linked_def am_GetRBACPermission_def rp_new_def)

lemma linked_upd:
  assumes "am_permissions am k = Some r"
  shows "am_linked (am\<lparr>am_permissions := (am_permissions am)
      (k := map_option (rp_AddLinkedPermission l) (am_permissions am k))\<rparr>) p =
    am_linked am p \<union> (if p = k then {l} else {})"
  using assms by (auto simp: am_linked_def rp_AddLinkedPermission_def)

lemma load_links:
  assumes "am_load_links rows pid ptr am = Inr am'"
    and "ptr = None \<or> ptr = Some pid \<and> am_permissions am pid \<noteq> None"
  shows "am_linked am' p = am_linked am p \<union> {l. (p, l) \<in> set rows \<and> l \<noteq> p}
    \<and> am_known am' = am_known am \<and> am_defaultPermissions am' = am_defaultPermissions am"
  using assms
proof (induction rows pid ptr am rule: am_load_links.induct)
  case (1 pid ptr am)
  then show ?case by simp
next
  case (2 i l rows pid ptr am)
  define ptr' where "ptr' = (if pid \<noteq> i then (if am_permissions am i = None then None else Some i) else ptr)"
  have ptr': "ptr' = None \<or> ptr' = Some i \<and> am_permissions am i \<noteq> None"
    using 2(4) by (auto simp: ptr'_def)
  show ?case
  proof (cases "l = i")
    case True
    with 2(1) [OF ptr'_def True] 2(3) ptr' show ?thesis by (auto simp: ptr'_def)
  next
    case False
    with 2(3) ptr' obtain r where p: "ptr' = Some i" "am_permissions am i = Some r"
      by (auto simp: ptr'_def Let_def split: option.splits if_splits)
    let ?am = "am\<lparr>am_permissions := (am_permissions am)
        (i := map_option (rp_AddLinkedPermission l) (am_permissions am i))\<rparr>"
    have "am_load_links rows i ptr' ?am = Inr am'"
      using 2(3) False p by (simp add: ptr'_def [symmetric])
    moreover have "am_known ?am = am_known am"
      using p(2) by (auto simp: am_known_def am_GetRBACPermission_def)
    ultimately show ?thesis
      using 2(2) [OF ptr'_def False p(1)] p False linked_upd [OF p(2), of l p] by auto
  qed
qed

lemma load_defaults:
  assumes "ptr = None \<or> ptr = Some sec"
  shows "set (am_defaultPermissions (am_load_defaults rows sec ptr am) s) =
      set (am_defaultPermissions am s) \<union> {p. \<exists>i. (i, p) \<in> set rows \<and> ucast i = s}
    \<and> am_permissions (am_load_defaults rows sec ptr am) = am_permissions am"
  using assms
proof (induction rows sec ptr am rule: am_load_defaults.induct)
  case (1 sec ptr am)
  then show ?case by simp
next
  case (2 i p rows sec ptr am)
  have "ucast (ucast sec :: uint32) = sec" by (rule bit_word_eqI) (auto simp: bit_simps)
  then have key: "(if ucast sec \<noteq> i \<or> ptr = None then ucast i else the ptr) = (ucast i :: uint8)"
    "(if ucast sec \<noteq> i \<or> ptr = None then ucast i else sec) = (ucast i :: uint8)"
    using 2(2) by auto
  from 2(1) [OF refl refl refl] show ?case
    unfolding am_load_defaults.simps Let_def key by (auto split: if_splits)
qed

section \<open>Properties\<close>

text \<open>
  C12. \<^verbatim>\<open>ExpandPermissions\<close> computes the closure: for every table of links, cyclic ones
  included, the loop ends with exactly the known permissions that are reached from the given
  ones over links, each once and in order.
\<close>

theorem expand_permissions_closure:
  "set (rd_ExpandPermissions am ps) = {p. rbac_reach am (set ps) p} \<and> ss_ok (rd_ExpandPermissions am ps)"
  using ss_ok_expand_loop [of "[]" am ps] by (simp add: set_ExpandPermissions) (simp add: rd_ExpandPermissions_def)

text \<open>
  Denying has no effect on what an account may do. The documentation of
  \<^verbatim>\<open>CalculateNewPermissions\<close> says \<open>Granted - Denied\<close>, but the call
  \<^verbatim>\<open>RemovePermissions(_globalPerms, revoked)\<close> erases the granted permissions from the local
  set of revoked ones, so the effective permissions are the closure of the granted ones and
  a denied permission that some granted one links to stays effective.
\<close>

theorem denied_permissions_ignored:
  "rd_HasPermission p (rd_CalculateNewPermissions am d) \<longleftrightarrow> rbac_reach am (set (rd_grantedPerms d)) p"
  by (simp add: rd_HasPermission_def set_ExpandPermissions)

text \<open>
  The lists of an account stay consistent. After loading and any sequence of grants,
  denials, revocations and changes of the security level, no permission is both granted and
  denied, every listed permission exists and the containers have no duplicates.
\<close>

theorem rbac_life_consistent:
  assumes "rbac_life am d"
  shows "rbac_inv am d"
  using assms
  by induction (auto simp: rbac_inv_Load rbac_inv_Grant rbac_inv_Deny rbac_inv_Revoke rd_SetSecurityLevel_def)

text \<open>
  A grant on every branch: it succeeds exactly for a known permission in neither list,
  otherwise the reason is the first failing check and nothing changes; after a grant on a
  realm the account has the permission, all it had through grants before, and the statement
  that stores the grant has been executed.
\<close>

theorem grant_permission_result:
  "rd_GrantPermission am p realm d =
    (if am_GetRBACPermission am p = None then (RBAC_ID_DOES_NOT_EXISTS, d)
     else if p \<in> set (rd_deniedPerms d) then (RBAC_IN_DENIED_LIST, d)
     else if p \<in> set (rd_grantedPerms d) then (RBAC_CANT_ADD_ALREADY_ADDED, d)
     else (RBAC_OK, snd (rd_GrantPermission am p realm d)))
   \<and> (am_GetRBACPermission am p \<noteq> None \<and> p \<notin> set (rd_deniedPerms d) \<and> p \<notin> set (rd_grantedPerms d)
        \<and> realm \<noteq> 0 \<longrightarrow>
      (let d' = snd (rd_GrantPermission am p realm d) in
        set (rd_grantedPerms d') = insert p (set (rd_grantedPerms d)) \<and> rd_HasPermission p d'
        \<and> (\<forall>q. rbac_reach am (set (rd_grantedPerms d)) q \<longrightarrow> rd_HasPermission q d')
        \<and> rd_stmts d' = rd_stmts d @ [InsRbacAccountPermission (rd_id d) p True realm]))"
proof -
  have "rbac_reach am (insert p S) p" if "am_GetRBACPermission am p \<noteq> None" for S
    using that by (auto intro: rbac_reach.reach_base)
  moreover have "rbac_reach am (insert p S) q" if "rbac_reach am S q" for S q
    using that by (rule rbac_reach_mono) auto
  ultimately show ?thesis
    by (simp add: rbac_ops Let_def set_ExpandPermissions)
      (simp add: rd_CalculateNewPermissions_def rd_SavePermission_def)
qed

text \<open>
  What \<^verbatim>\<open>LoadRBAC\<close> leaves in the tables when it returns: the known permissions are those
  of the first table, the links of each are the rows of the second one without the links of
  a permission to itself, and the defaults of a security level are the rows of the third one
  (whose ids are cut to a byte). A row that links from an unknown permission never gets that
  far: its null pointer is followed.
\<close>

theorem load_rbac_tables:
  assumes "am_LoadRBAC permRows linkRows defaultRows am = Inr am'"
    and "permRows \<noteq> []" and "linkRows \<noteq> []"
  shows "am_known am' = fst ` set permRows
    \<and> (\<forall>p. am_linked am' p = {l. (p, l) \<in> set linkRows \<and> l \<noteq> p})
    \<and> (\<forall>s. set (am_GetRBACDefaultPermissions am' s) = {p. \<exists>i. (i, p) \<in> set defaultRows \<and> ucast i = s})"
proof -
  let ?am0 = "am_ClearRBAC am"
  let ?am1 = "am_load_permissions permRows ?am0"
  obtain am2 where am2: "am_load_links linkRows 0 None ?am1 = Inr am2"
    and am': "am' = (if defaultRows = [] then am2 else am_load_defaults defaultRows 255 None am2)"
    using assms by (auto simp: am_LoadRBAC_def Let_def split: sum.splits)
  have "am_linked ?am0 p = {}" "am_known ?am0 = {}" "am_defaultPermissions ?am0 s = []" for p s
    by (simp_all add: am_ClearRBAC_def am_linked_def am_known_def am_GetRBACPermission_def)
  then have "am_linked ?am1 p = {}" "am_known ?am1 = fst ` set permRows" "am_defaultPermissions ?am1 s = []" for p s
    using load_permissions [where rows = permRows and am = ?am0] by auto
  then have two: "am_linked am2 p = {l. (p, l) \<in> set linkRows \<and> l \<noteq> p}" "am_known am2 = fst ` set permRows"
    "am_defaultPermissions am2 s = []" for p s
    using load_links [OF am2, of p] by auto
  have perms: "am_permissions am' = am_permissions am2"
    using load_defaults [of None 255 defaultRows am2] by (auto simp: am')
  then have "am_linked am' p = am_linked am2 p" "am_known am' = am_known am2" for p
    by (simp_all add: am_linked_def am_known_def am_GetRBACPermission_def)
  moreover have "set (am_defaultPermissions am' s) = {p. \<exists>i. (i, p) \<in> set defaultRows \<and> ucast i = s}" for s
    using load_defaults [of None 255 defaultRows am2 s] two(3) [of s] by (simp add: am')
  ultimately show ?thesis using two by (simp add: am_GetRBACDefaultPermissions_def)
qed

definition sample_tables :: account_mgr where
  "sample_tables = \<lparr>am_permissions = (\<lambda>_. None)
      (1 \<mapsto> \<lparr>rp_id = 1, rp_name = ''mod'', rp_perms = [2, 3]\<rparr>, 2 \<mapsto> \<lparr>rp_id = 2, rp_name = ''gm'', rp_perms = [1]\<rparr>),
    am_defaultPermissions = (\<lambda>_. [])(0 := [2])\<rparr>"

definition no_rows :: "uint32 \<Rightarrow> int32 \<Rightarrow> (uint32 \<times> bool) list" where
  "no_rows i r = []"

theorem rbac_life_consistent_witness:
  "rbac_inv sample_tables (snd (rd_DenyPermission sample_tables 1 5
     (rd_LoadFromDB no_rows sample_tables (rd_new 9 ''A'' 5 0))))"
  by (rule rbac_life_consistent) (intro rbac_life.intros)

theorem grant_permission_result_witness:
  "let d = rd_new 9 ''A'' 5 0; d' = snd (rd_GrantPermission sample_tables 1 5 d) in
     fst (rd_GrantPermission sample_tables 1 5 d) = RBAC_OK
     \<and> rd_HasPermission 1 d' \<and> rd_stmts d' = [InsRbacAccountPermission 9 1 True 5]"
  using grant_permission_result [of sample_tables 1 5 "rd_new 9 ''A'' 5 0"]
  by (simp add: sample_tables_def rd_new_def am_GetRBACPermission_def Let_def prod_eq_iff)

theorem load_rbac_tables_witness:
  "\<exists>am'. am_LoadRBAC [(1, ''mod''), (2, ''gm'')] [(1, 2), (1, 1), (2, 1)] [(0, 1), (256, 2)] sample_tables = Inr am'
    \<and> am_linked am' 1 = {2} \<and> set (am_GetRBACDefaultPermissions am' 0) = {1, 2}"
proof -
  obtain am' where l: "am_LoadRBAC [(1, ''mod''), (2, ''gm'')] [(1, 2), (1, 1), (2, 1)] [(0, 1), (256, 2)]
      sample_tables = Inr am'"
    by (simp add: am_LoadRBAC_def am_ClearRBAC_def Let_def)
  have "am_linked am' 1 = {2}" "set (am_GetRBACDefaultPermissions am' 0) = {1, 2}"
    using load_rbac_tables [OF l] by auto
  with l show ?thesis by blast
qed

end
