(* ===== verification/Timers.thy ===== *)
theory Timers
  imports HG_Prelude
begin

text \<open>
  The timers of src/Core/src/server/shared/Utilities/Timer.h. A \<^verbatim>\<open>time_t\<close> is an integer
  (its 64 bits are not exhausted by sums of update intervals), \<^verbatim>\<open>uint32\<close> and \<^verbatim>\<open>int32\<close>
  are words of 32 bits, the latter read with \<open>sint\<close>.
\<close>

section \<open>Differences of millisecond clocks\<close>

definition getMSTimeDiff :: "uint32 \<Rightarrow> uint32 \<Rightarrow> uint32" where
  "getMSTimeDiff oldMSTime newMSTime =
     (if oldMSTime > newMSTime then (0xFFFFFFFF - oldMSTime) + newMSTime
      else newMSTime - oldMSTime)"

definition GetMSTimeDiffToNow :: "uint32 \<Rightarrow> uint32 \<Rightarrow> uint32" where
  "GetMSTimeDiffToNow getMSTime oldMSTime = getMSTimeDiff oldMSTime getMSTime"

section \<open>IntervalTimer\<close>

record interval_timer =
  it_interval :: int
  it_current :: int

definition it_new :: interval_timer where
  "it_new = \<lparr>it_interval = 0, it_current = 0\<rparr>"

definition it_Update :: "int \<Rightarrow> interval_timer \<Rightarrow> interval_timer" where
  "it_Update diff t =
     (let current = it_current t + diff in t\<lparr>it_current := if current < 0 then 0 else current\<rparr>)"

definition it_Passed :: "interval_timer \<Rightarrow> bool" where
  "it_Passed t \<longleftrightarrow> it_current t \<ge> it_interval t"

text \<open>
  \<^verbatim>\<open>%\<close> truncates towards zero; a division by zero, which a timer without an interval
  reaches, is \<open>None\<close>.
\<close>

definition c_mod :: "int \<Rightarrow> int \<Rightarrow> int option" where
  "c_mod a b = (if b = 0 then None else Some (sgn a * (\<bar>a\<bar> mod \<bar>b\<bar>)))"

definition it_Reset :: "interval_timer \<Rightarrow> interval_timer option" where
  "it_Reset t =
     (if it_current t \<ge> it_interval t
      then map_option (\<lambda>c. t\<lparr>it_current := c\<rparr>) (c_mod (it_current t) (it_interval t))
      else Some t)"

definition it_SetCurrent :: "int \<Rightarrow> interval_timer \<Rightarrow> interval_timer" where
  "it_SetCurrent current t = t\<lparr>it_current := current\<rparr>"

definition it_SetInterval :: "int \<Rightarrow> interval_timer \<Rightarrow> interval_timer" where
  "it_SetInterval interval t = t\<lparr>it_interval := interval\<rparr>"

section \<open>TimeTracker and TimeTrackerSmall\<close>

record time_tracker =
  tt_expiryTime :: int

definition tt_new :: "int \<Rightarrow> time_tracker" where
  "tt_new expiry = \<lparr>tt_expiryTime = expiry\<rparr>"

definition tt_Update :: "int \<Rightarrow> time_tracker \<Rightarrow> time_tracker" where
  "tt_Update diff t = t\<lparr>tt_expiryTime := tt_expiryTime t - diff\<rparr>"

definition tt_Passed :: "time_tracker \<Rightarrow> bool" where
  "tt_Passed t \<longleftrightarrow> tt_expiryTime t \<le> 0"

definition tt_Reset :: "int \<Rightarrow> time_tracker \<Rightarrow> time_tracker" where
  "tt_Reset interval t = t\<lparr>tt_expiryTime := interval\<rparr>"

record time_tracker_small =
  ts_expiryTime :: int32

definition ts_new :: "uint32 \<Rightarrow> time_tracker_small" where
  "ts_new expiry = \<lparr>ts_expiryTime = expiry\<rparr>"

definition ts_Update :: "int32 \<Rightarrow> time_tracker_small \<Rightarrow> time_tracker_small" where
  "ts_Update diff t = t\<lparr>ts_expiryTime := ts_expiryTime t - diff\<rparr>"

definition ts_Passed :: "time_tracker_small \<Rightarrow> bool" where
  "ts_Passed t \<longleftrightarrow> sint (ts_expiryTime t) \<le> 0"

definition ts_Reset :: "uint32 \<Rightarrow> time_tracker_small \<Rightarrow> time_tracker_small" where
  "ts_Reset interval t = t\<lparr>ts_expiryTime := interval\<rparr>"

section \<open>PeriodicTimer\<close>

record periodic_timer =
  pt_period :: int32
  pt_expireTime :: int32

definition pt_new :: "int32 \<Rightarrow> int32 \<Rightarrow> periodic_timer" where
  "pt_new period start_time = \<lparr>pt_period = period, pt_expireTime = start_time\<rparr>"

definition pt_Update :: "uint32 \<Rightarrow> periodic_timer \<Rightarrow> bool \<times> periodic_timer" where
  "pt_Update diff t =
     (let e = pt_expireTime t - diff; t1 = t\<lparr>pt_expireTime := e\<rparr>
      in if sint e > 0 then (False, t1)
         else (True, t1\<lparr>pt_expireTime :=
                e + (if sint (pt_period t) > sint diff then pt_period t else diff)\<rparr>))"

definition pt_SetPeriodic :: "int32 \<Rightarrow> int32 \<Rightarrow> periodic_timer \<Rightarrow> periodic_timer" where
  "pt_SetPeriodic period start_time t = t\<lparr>pt_expireTime := start_time, pt_period := period\<rparr>"

definition pt_TUpdate :: "int32 \<Rightarrow> periodic_timer \<Rightarrow> periodic_timer" where
  "pt_TUpdate diff t = t\<lparr>pt_expireTime := pt_expireTime t - diff\<rparr>"

definition pt_TPassed :: "periodic_timer \<Rightarrow> bool" where
  "pt_TPassed t \<longleftrightarrow> sint (pt_expireTime t) \<le> 0"

definition pt_TReset :: "int32 \<Rightarrow> int32 \<Rightarrow> periodic_timer \<Rightarrow> periodic_timer" where
  "pt_TReset diff period t =
     t\<lparr>pt_expireTime := pt_expireTime t + (if sint period > sint diff then period else diff)\<rparr>"

section \<open>Properties\<close>

text \<open>
  The difference of two readings of the millisecond clock. When \<open>e\<close> milliseconds lie
  between the readings, fewer than \<open>2 ^ 32\<close>, \<^verbatim>\<open>getMSTimeDiff\<close> returns \<open>e\<close> as long as the
  counter has not wrapped, and one less when it has: the distance from the old reading to
  the wrap is computed as \<^verbatim>\<open>0xFFFFFFFF - oldMSTime\<close>, without the step to zero.
\<close>

theorem getMSTimeDiff_elapsed:
  "getMSTimeDiff old (old + e) = (if unat old + unat e < 2 ^ 32 then e else e - 1)"
proof (cases "unat old + unat e < 2 ^ 32")
  case True
  then have "unat (old + e) = unat old + unat e" by (simp add: unat_add_lem [THEN iffD1])
  then have "\<not> old > old + e" by (simp add: word_less_nat_alt)
  with True show ?thesis by (simp add: getMSTimeDiff_def)
next
  case False
  then have wrap: "unat (old + e) = unat old + unat e - 2 ^ 32"
    using unsigned_less [of old, where 'a = nat] unsigned_less [of e, where 'a = nat]
    by (simp add: unat_word_ariths le_mod_geq)
  have "unat (old + e) < unat old"
    using wrap False unsigned_less [of e, where 'a = nat] unsigned_less [of old, where 'a = nat] by simp
  then have "old > old + e" by (simp add: word_less_nat_alt)
  moreover have "(0xFFFFFFFF :: uint32) = - 1" by simp
  ultimately show ?thesis using False by (simp add: getMSTimeDiff_def)
qed

text \<open>
  Updates of an interval timer in the world loop: \<^verbatim>\<open>Update(diff)\<close>, then
  \<^verbatim>\<open>if (Passed()) Reset()\<close>; the result also counts how often the timer has passed.
\<close>

fun it_run :: "int list \<Rightarrow> interval_timer \<Rightarrow> (nat \<times> interval_timer) option" where
  "it_run [] t = Some (0, t)"
| "it_run (d # ds) t =
     (let t1 = it_Update d t in
      if it_Passed t1
      then Option.bind (it_Reset t1) (\<lambda>t2. map_option (\<lambda>(n, t'). (Suc n, t')) (it_run ds t2))
      else it_run ds t1)"

lemma it_step:
  assumes "0 < it_interval t" and "0 \<le> it_current t" and "0 \<le> d"
  shows "it_Passed (it_Update d t) \<Longrightarrow>
      it_Reset (it_Update d t) = Some (t\<lparr>it_current := (it_current t + d) mod it_interval t\<rparr>)"
    and "\<not> it_Passed (it_Update d t) \<Longrightarrow> it_Update d t = t\<lparr>it_current := (it_current t + d) mod it_interval t\<rparr>"
  using assms by (auto simp: it_Update_def it_Passed_def it_Reset_def c_mod_def Let_def sgn_if)

text \<open>
  An interval timer does not drift. Over any sequence of updates, however irregular, the
  remainder carried is the whole time elapsed modulo the interval, so what an update
  overshoots is not lost; the division by the interval is never by zero.
\<close>

theorem interval_timer_no_drift:
  assumes "0 < it_interval t" and "0 \<le> it_current t" and "it_current t < it_interval t"
    and "\<forall>d \<in> set ds. 0 \<le> d"
  shows "\<exists>n t'. it_run ds t = Some (n, t') \<and> it_interval t' = it_interval t
    \<and> it_current t' = (it_current t + sum_list ds) mod it_interval t"
  using assms
proof (induction ds arbitrary: t)
  case Nil
  then show ?case by simp
next
  case (Cons d ds)
  let ?t = "t\<lparr>it_current := (it_current t + d) mod it_interval t\<rparr>"
  have "0 < it_interval ?t" "0 \<le> it_current ?t" "it_current ?t < it_interval ?t" "\<forall>d\<in>set ds. 0 \<le> d"
    using Cons(2,5) by simp_all
  from Cons(1) [OF this] obtain n t' where
    r: "it_run ds ?t = Some (n, t')" "it_interval t' = it_interval t"
    "it_current t' = ((it_current t + d) mod it_interval t + sum_list ds) mod it_interval t" by auto
  have "it_current t' = (it_current t + sum_list (d # ds)) mod it_interval t"
    using r(3) by (simp add: mod_add_left_eq add.assoc)
  moreover have "0 \<le> d" using Cons(5) by simp
  note it_step [OF Cons(2,3) this]
  ultimately show ?case using r(1,2) by (cases "it_Passed (it_Update d t)") (auto simp: Let_def)
qed

theorem interval_timer_no_drift_witness:
  "\<exists>n t'. it_run [70, 250, 90] \<lparr>it_interval = 100, it_current = 0\<rparr> = Some (n, t')
    \<and> it_interval t' = 100 \<and> it_current t' = 10"
  using interval_timer_no_drift [of "\<lparr>it_interval = 100, it_current = 0\<rparr>" "[70, 250, 90]"] by simp

text \<open>
  A timer whose interval was never set cannot be reset: \<^verbatim>\<open>Reset\<close> of the timer its
  constructor leaves divides by zero, whatever time has passed.
\<close>

theorem interval_timer_unset: "it_Reset (it_Update d it_new) = None"
  by (simp add: it_Reset_def it_Update_def it_new_def c_mod_def Let_def)

end
