(* ===== verification/Timed_Store.thy ===== *)
theory Timed_Store
  imports HG_Prelude
begin

text \<open>
  What the schedulers of the server rely on of their \<^verbatim>\<open>std::multimap\<close> from times to events,
  as the locale \<open>timed_store\<close>: inserting adds one entry and keeps the order, and the
  entry that is taken is the first one. \<^verbatim>\<open>EventMap\<close> and \<^verbatim>\<open>EventProcessor\<close> provide it.
\<close>

locale timed_store =
  fixes items :: "'s \<Rightarrow> ('k::linorder \<times> 'v) list"
    and add :: "'k \<Rightarrow> 'v \<Rightarrow> 's \<Rightarrow> 's"
    and remove_first :: "'s \<Rightarrow> 's"
  assumes items_add: "items (add k v s) = mm_insert k v (items s)"
    and items_remove: "items (remove_first s) = tl (items s)"
begin

lemma sorted_add: "mm_sorted (items s) \<Longrightarrow> mm_sorted (items (add k v s))"
  by (simp add: items_add)

lemma sorted_remove: "mm_sorted (items s) \<Longrightarrow> mm_sorted (items (remove_first s))"
  by (cases "items s") (auto simp: items_remove dest: mm_sorted_tl)

lemma first_is_least:
  "mm_sorted (items s) \<Longrightarrow> items s = e # es \<Longrightarrow> x \<in> set (items s) \<Longrightarrow> fst e \<le> fst x"
  using mm_sorted_hd by fastforce

text \<open>The entries due at a time form a prefix.\<close>

lemma due_prefix:
  assumes "mm_sorted (items s)"
  shows "filter (\<lambda>e. fst e \<le> t) (items s) = takeWhile (\<lambda>e. fst e \<le> t) (items s)"
proof -
  have "mm_sorted xs \<Longrightarrow> filter (\<lambda>e. fst e \<le> t) xs = takeWhile (\<lambda>e. fst e \<le> t) xs" for xs :: "('k \<times> 'v) list"
  proof (induction xs)
    case (Cons e xs)
    show ?case
    proof (cases "fst e \<le> t")
      case True
      with Cons show ?thesis by (auto dest: mm_sorted_tl)
    next
      case False
      then have "\<not> fst x \<le> t" if "x \<in> set xs" for x
        using mm_sorted_hd [OF Cons(2) that] by auto
      with False show ?thesis by (simp add: filter_empty_conv)
    qed
  qed simp
  with assms show ?thesis by blast
qed

text \<open>Entries added for the same time are taken in the order in which they were added.\<close>

lemma same_time_fifo:
  "mm_sorted (items s) \<Longrightarrow>
   filter (\<lambda>e. fst e = k) (items (add k v s)) = filter (\<lambda>e. fst e = k) (items s) @ [(k, v)]"
  by (simp add: items_add mm_insert_fifo)

lemma mset_adds: "mset (items (fold (\<lambda>(k, v). add k v) es s)) = mset es + mset (items s)"
  by (induction es arbitrary: s) (auto simp: items_add)

lemma sorted_adds: "mm_sorted (items s) \<Longrightarrow> mm_sorted (items (fold (\<lambda>(k, v). add k v) es s))"
  by (induction es arbitrary: s) (auto simp: items_add)

end

text \<open>The container itself provides the contract, for the ranges that are inserted into it.\<close>

interpretation mm: timed_store "\<lambda>m. m" mm_insert tl
  by unfold_locales auto

end
