(* ===== verification/Event_Map.thy ===== *)
theory Event_Map
  imports Timed_Store
begin

text \<open>
  \<^verbatim>\<open>EventMap\<close> (src/Core/src/server/shared/Utilities/Util.h and Util.cpp), the scheduler of the
  creature and instance scripts: events with a group and a phase, kept in a multimap from
  the time of their execution. Times are 32-bit words and wrap.
\<close>

record event_map =
  em_time :: uint32
  em_phase :: uint8
  em_eventMap :: "(uint32, uint32) multimap"
  em_lastEvent :: uint32

definition em_new :: event_map where
  "em_new = \<lparr>em_time = 0, em_phase = 0, em_eventMap = [], em_lastEvent = 0\<rparr>"

definition em_Reset :: "event_map \<Rightarrow> event_map" where
  "em_Reset m = m\<lparr>em_eventMap := [], em_time := 0, em_phase := 0\<rparr>"

definition em_Update :: "uint32 \<Rightarrow> event_map \<Rightarrow> event_map" where
  "em_Update time m = m\<lparr>em_time := em_time m + time\<rparr>"

definition em_Empty :: "event_map \<Rightarrow> bool" where
  "em_Empty m \<longleftrightarrow> em_eventMap m = []"

section \<open>Phases\<close>

definition phase_bit :: "uint8 \<Rightarrow> uint8" where
  "phase_bit phase = push_bit (unat phase - 1) 1"

definition em_SetPhase :: "uint8 \<Rightarrow> event_map \<Rightarrow> event_map" where
  "em_SetPhase phase m =
     (if phase = 0 then m\<lparr>em_phase := 0\<rparr>
      else if phase \<le> 8 then m\<lparr>em_phase := phase_bit phase\<rparr>
      else m)"

definition em_AddPhase :: "uint8 \<Rightarrow> event_map \<Rightarrow> event_map" where
  "em_AddPhase phase m =
     (if phase \<noteq> 0 \<and> phase \<le> 8 then m\<lparr>em_phase := em_phase m OR phase_bit phase\<rparr> else m)"

definition em_RemovePhase :: "uint8 \<Rightarrow> event_map \<Rightarrow> event_map" where
  "em_RemovePhase phase m =
     (if phase \<noteq> 0 \<and> phase \<le> 8 then m\<lparr>em_phase := em_phase m AND NOT (phase_bit phase)\<rparr> else m)"

definition em_IsInPhase :: "uint8 \<Rightarrow> event_map \<Rightarrow> bool" where
  "em_IsInPhase phase m \<longleftrightarrow>
     phase \<le> 8 \<and> (phase = 0 \<or> em_phase m AND phase_bit phase \<noteq> 0)"

section \<open>Scheduling\<close>

definition group_bit :: "uint32 \<Rightarrow> uint32" where
  "group_bit grp = push_bit (unat grp + 15) 1"

definition event_code :: "uint32 \<Rightarrow> uint32 \<Rightarrow> uint8 \<Rightarrow> uint32" where
  "event_code eventId grp phase =
     (let e1 = (if grp \<noteq> 0 \<and> grp \<le> 8 then eventId OR group_bit grp else eventId)
      in if phase \<noteq> 0 \<and> phase \<le> 8 then e1 OR push_bit (unat phase + 23) 1 else e1)"

definition em_insert :: "uint32 \<Rightarrow> uint32 \<Rightarrow> event_map \<Rightarrow> event_map" where
  "em_insert time e m = m\<lparr>em_eventMap := mm_insert time e (em_eventMap m)\<rparr>"

definition em_ScheduleEvent :: "uint32 \<Rightarrow> uint32 \<Rightarrow> uint32 \<Rightarrow> uint8 \<Rightarrow> event_map \<Rightarrow> event_map" where
  "em_ScheduleEvent eventId time grp phase m = em_insert (em_time m + time) (event_code eventId grp phase) m"

definition event_id :: "uint32 \<Rightarrow> uint32" where
  "event_id e = e AND 0x0000FFFF"

definition em_CancelEvent :: "uint32 \<Rightarrow> event_map \<Rightarrow> event_map" where
  "em_CancelEvent eventId m =
     (if em_Empty m then m
      else m\<lparr>em_eventMap := filter (\<lambda>e. eventId \<noteq> event_id (snd e)) (em_eventMap m)\<rparr>)"

definition em_RescheduleEvent :: "uint32 \<Rightarrow> uint32 \<Rightarrow> uint32 \<Rightarrow> uint8 \<Rightarrow> event_map \<Rightarrow> event_map" where
  "em_RescheduleEvent eventId time grp phase m =
     em_ScheduleEvent eventId time grp phase (em_CancelEvent eventId m)"

definition em_Repeat :: "uint32 \<Rightarrow> event_map \<Rightarrow> event_map" where
  "em_Repeat time m = em_insert (em_time m + time) (em_lastEvent m) m"

definition in_group :: "uint32 \<Rightarrow> uint32 \<Rightarrow> bool" where
  "in_group grp e \<longleftrightarrow> e AND group_bit grp \<noteq> 0"

definition em_CancelEventGroup :: "uint32 \<Rightarrow> event_map \<Rightarrow> event_map" where
  "em_CancelEventGroup grp m =
     (if grp = 0 \<or> grp > 8 \<or> em_Empty m then m
      else m\<lparr>em_eventMap := filter (\<lambda>e. \<not> in_group grp (snd e)) (em_eventMap m)\<rparr>)"

definition em_DelayEvents :: "uint32 \<Rightarrow> event_map \<Rightarrow> event_map" where
  "em_DelayEvents delay m = m\<lparr>em_time := if delay < em_time m then em_time m - delay else 0\<rparr>"

text \<open>
  The events of the group move to the local multimap \<^verbatim>\<open>delayed\<close>, whose range is inserted at
  the end.
\<close>

definition em_DelayEventsGroup :: "uint32 \<Rightarrow> uint32 \<Rightarrow> event_map \<Rightarrow> event_map" where
  "em_DelayEventsGroup delay grp m =
     (if grp = 0 \<or> grp > 8 \<or> em_Empty m then m
      else let delayed = fold (\<lambda>(t, e). mm_insert (t + delay) e)
                           (filter (\<lambda>x. in_group grp (snd x)) (em_eventMap m)) [];
               kept = filter (\<lambda>x. \<not> in_group grp (snd x)) (em_eventMap m)
           in m\<lparr>em_eventMap := fold (\<lambda>(t, e). mm_insert t e) delayed kept\<rparr>)"

section \<open>Execution\<close>

definition out_of_phase :: "event_map \<Rightarrow> uint32 \<Rightarrow> bool" where
  "out_of_phase m e \<longleftrightarrow>
     em_phase m \<noteq> 0 \<and> e AND 0xFF000000 \<noteq> 0 \<and> drop_bit 24 e AND ucast (em_phase m) = 0"

definition em_remove_first :: "event_map \<Rightarrow> event_map" where
  "em_remove_first m = m\<lparr>em_eventMap := tl (em_eventMap m)\<rparr>"

function em_ExecuteEvent :: "event_map \<Rightarrow> uint32 \<times> event_map" where
  "em_ExecuteEvent m =
     (case em_eventMap m of
        [] \<Rightarrow> (0, m)
      | (t, e) # rest \<Rightarrow>
          if t > em_time m then (0, m)
          else if out_of_phase m e then em_ExecuteEvent (em_remove_first m)
          else (event_id e, em_remove_first (m\<lparr>em_lastEvent := e\<rparr>)))"
  by pat_completeness auto
termination
  by (relation "measure (\<lambda>m. length (em_eventMap m))") (auto simp: em_remove_first_def)

declare em_ExecuteEvent.simps [simp del]

section \<open>Queries\<close>

definition em_GetNextEventTime_of :: "uint32 \<Rightarrow> event_map \<Rightarrow> uint32" where
  "em_GetNextEventTime_of eventId m =
     (if em_Empty m then 0
      else case List.find (\<lambda>e. eventId = event_id (snd e)) (em_eventMap m) of
             None \<Rightarrow> 0 | Some e \<Rightarrow> fst e)"

definition em_GetNextEventTime :: "event_map \<Rightarrow> uint32" where
  "em_GetNextEventTime m = (if em_Empty m then 0 else fst (hd (em_eventMap m)))"

definition em_GetTimeUntilEvent :: "uint32 \<Rightarrow> event_map \<Rightarrow> uint32" where
  "em_GetTimeUntilEvent eventId m =
     (case List.find (\<lambda>e. eventId = event_id (snd e)) (em_eventMap m) of
        None \<Rightarrow> 0xFFFFFFFF | Some e \<Rightarrow> fst e - em_time m)"

section \<open>Invariant\<close>

interpretation em: timed_store em_eventMap em_insert em_remove_first
  by unfold_locales (auto simp: em_insert_def em_remove_first_def)

lemma em_sorted_frame [simp]:
  "mm_sorted (em_eventMap (em_SetPhase p m)) = mm_sorted (em_eventMap m)"
  "mm_sorted (em_eventMap (em_AddPhase p m)) = mm_sorted (em_eventMap m)"
  "mm_sorted (em_eventMap (em_RemovePhase p m)) = mm_sorted (em_eventMap m)"
  "mm_sorted (em_eventMap (em_Update t m)) = mm_sorted (em_eventMap m)"
  "mm_sorted (em_eventMap (em_DelayEvents t m)) = mm_sorted (em_eventMap m)"
  "mm_sorted (em_eventMap (em_Reset m))"
  by (simp_all add: em_SetPhase_def em_AddPhase_def em_RemovePhase_def em_Update_def em_DelayEvents_def
      em_Reset_def)

lemma em_sorted_ops:
  assumes "mm_sorted (em_eventMap m)"
  shows "mm_sorted (em_eventMap (em_ScheduleEvent i t g p m))"
    and "mm_sorted (em_eventMap (em_CancelEvent i m))"
    and "mm_sorted (em_eventMap (em_Repeat t m))"
    and "mm_sorted (em_eventMap (em_CancelEventGroup g m))"
    and "mm_sorted (em_eventMap (em_DelayEventsGroup t g m))"
  using assms mm.sorted_adds [of "filter (\<lambda>x. \<not> in_group g (snd x)) (em_eventMap m)"]
  by (auto simp: em_ScheduleEvent_def em_CancelEvent_def em_Repeat_def em_CancelEventGroup_def
      em_DelayEventsGroup_def Let_def mm_sorted_filter em.sorted_add)

text \<open>\<^verbatim>\<open>ExecuteEvent\<close> drops the due events of other phases and takes the one behind them.\<close>

definition em_skipped :: "event_map \<Rightarrow> (uint32, uint32) multimap" where
  "em_skipped m = takeWhile (\<lambda>x. fst x \<le> em_time m \<and> out_of_phase m (snd x)) (em_eventMap m)"

definition em_rest :: "event_map \<Rightarrow> (uint32, uint32) multimap" where
  "em_rest m = dropWhile (\<lambda>x. fst x \<le> em_time m \<and> out_of_phase m (snd x)) (em_eventMap m)"

lemma em_ExecuteEvent_eq:
  "em_ExecuteEvent m =
     (case em_rest m of
        [] \<Rightarrow> (0, m\<lparr>em_eventMap := []\<rparr>)
      | (t, e) # rest \<Rightarrow>
          if t > em_time m then (0, m\<lparr>em_eventMap := (t, e) # rest\<rparr>)
          else (event_id e, m\<lparr>em_lastEvent := e, em_eventMap := rest\<rparr>))"
proof (induction "em_eventMap m" arbitrary: m)
  case Nil
  then show ?case by (subst em_ExecuteEvent.simps) (simp add: em_rest_def)
next
  case (Cons x xs)
  obtain t e where x: "x = (t, e)" by fastforce
  have map: "em_eventMap m = (t, e) # xs" using Cons(2) x by simp
  show ?case
  proof (cases "t \<le> em_time m \<and> out_of_phase m e")
    case True
    have m1: "em_eventMap (em_remove_first m) = xs" using map by (simp add: em_remove_first_def)
    have "out_of_phase (em_remove_first m) = out_of_phase m" "em_time (em_remove_first m) = em_time m"
      by (simp_all add: fun_eq_iff out_of_phase_def em_remove_first_def)
    then have "em_rest (em_remove_first m) = em_rest m"
      using True map m1 by (simp add: em_rest_def)
    moreover have "em_ExecuteEvent m = em_ExecuteEvent (em_remove_first m)"
      using True map by (subst em_ExecuteEvent.simps) auto
    ultimately show ?thesis
      using Cons(1) [OF m1 [symmetric]] by (auto simp: em_remove_first_def split: list.split)
  next
    case False
    then have "em_rest m = (t, e) # xs" using map by (auto simp: em_rest_def)
    with False map show ?thesis
      by (subst em_ExecuteEvent.simps) (auto simp: em_remove_first_def)
  qed
qed

lemma em_skipped_rest: "em_skipped m @ em_rest m = em_eventMap m"
  by (simp add: em_skipped_def em_rest_def)

lemma mm_sorted_append: "mm_sorted (xs @ ys) \<Longrightarrow> mm_sorted ys"
  by (simp add: mm_sorted_def sorted_append)

lemma em_sorted_Execute: "mm_sorted (em_eventMap m) \<Longrightarrow> mm_sorted (em_eventMap (snd (em_ExecuteEvent m)))"
  using mm_sorted_append [of "em_skipped m" "em_rest m"] em_skipped_rest [of m]
  by (auto simp: em_ExecuteEvent_eq split: list.split dest: mm_sorted_tl)

text \<open>The states a script can bring its event map into.\<close>

inductive em_reachable :: "event_map \<Rightarrow> bool" where
  em_start: "em_reachable em_new"
| em_step_reset: "em_reachable m \<Longrightarrow> em_reachable (em_Reset m)"
| em_step_update: "em_reachable m \<Longrightarrow> em_reachable (em_Update t m)"
| em_step_set: "em_reachable m \<Longrightarrow> em_reachable (em_SetPhase p m)"
| em_step_add: "em_reachable m \<Longrightarrow> em_reachable (em_AddPhase p m)"
| em_step_rem: "em_reachable m \<Longrightarrow> em_reachable (em_RemovePhase p m)"
| em_step_sched: "em_reachable m \<Longrightarrow> em_reachable (em_ScheduleEvent i t g p m)"
| em_step_cancel: "em_reachable m \<Longrightarrow> em_reachable (em_CancelEvent i m)"
| em_step_repeat: "em_reachable m \<Longrightarrow> em_reachable (em_Repeat t m)"
| em_step_exec: "em_reachable m \<Longrightarrow> em_reachable (snd (em_ExecuteEvent m))"
| em_step_delay: "em_reachable m \<Longrightarrow> em_reachable (em_DelayEvents t m)"
| em_step_delayg: "em_reachable m \<Longrightarrow> em_reachable (em_DelayEventsGroup t g m)"
| em_step_cancelg: "em_reachable m \<Longrightarrow> em_reachable (em_CancelEventGroup g m)"

lemma em_reachable_sorted: "em_reachable m \<Longrightarrow> mm_sorted (em_eventMap m)"
  by (induction rule: em_reachable.induct) (auto simp: em_new_def em_sorted_ops em_sorted_Execute)

section \<open>Properties\<close>

text \<open>
  C13. \<^verbatim>\<open>ExecuteEvent\<close> takes the right event. On every event map a script can reach, the
  entries in front of the result are dropped, all of them due and of another phase; if an
  event is returned it is due, in the current phase, no other event of the current phase is
  earlier, and it is remembered for \<^verbatim>\<open>Repeat\<close>; otherwise nothing that is left is due.
\<close>

theorem execute_event_earliest:
  assumes "em_reachable m"
  shows "\<exists>i m'. em_ExecuteEvent m = (i, m')
    \<and> (\<forall>x \<in> set (em_skipped m). fst x \<le> em_time m \<and> out_of_phase m (snd x))
    \<and> (em_eventMap m = em_skipped m @ em_eventMap m' \<and> i = 0 \<and> (\<forall>x \<in> set (em_eventMap m'). em_time m < fst x)
       \<or> (\<exists>t e. em_eventMap m = em_skipped m @ (t, e) # em_eventMap m' \<and> i = event_id e
            \<and> em_lastEvent m' = e \<and> t \<le> em_time m \<and> \<not> out_of_phase m e
            \<and> (\<forall>x \<in> set (em_eventMap m). \<not> out_of_phase m (snd x) \<longrightarrow> t \<le> fst x)))"
proof -
  have sorted: "mm_sorted (em_rest m)"
    using mm_sorted_append [of "em_skipped m"] em_reachable_sorted [OF assms] em_skipped_rest [of m] by simp
  have skipped: "\<forall>x \<in> set (em_skipped m). fst x \<le> em_time m \<and> out_of_phase m (snd x)"
    by (auto simp: em_skipped_def dest: set_takeWhileD)
  show ?thesis
  proof (cases "em_rest m")
    case Nil
    then show ?thesis using skipped em_skipped_rest [of m] by (auto simp: em_ExecuteEvent_eq)
  next
    case (Cons x rest)
    obtain t e where x: "x = (t, e)" by fastforce
    have later: "t \<le> fst y" if "y \<in> set rest" for y
      using mm_sorted_hd [of x rest y] sorted Cons x that by simp
    have found: "\<not> (t \<le> em_time m \<and> out_of_phase m e)"
      using Cons x by (auto simp: em_rest_def dropWhile_eq_Cons_conv)
    have split: "em_eventMap m = em_skipped m @ (t, e) # rest"
      using em_skipped_rest [of m] Cons x by simp
    show ?thesis
    proof (cases "t > em_time m")
      case True
      then have "em_ExecuteEvent m = (0, m\<lparr>em_eventMap := (t, e) # rest\<rparr>)"
        using Cons x by (simp add: em_ExecuteEvent_eq)
      moreover have "\<forall>y \<in> set ((t, e) # rest). em_time m < fst y"
        using True later by (auto intro: less_le_trans)
      ultimately show ?thesis using skipped split by simp
    next
      case False
      then have "em_ExecuteEvent m = (event_id e, m\<lparr>em_lastEvent := e, em_eventMap := rest\<rparr>)"
        using Cons x by (simp add: em_ExecuteEvent_eq)
      moreover have "\<forall>y \<in> set (em_eventMap m). \<not> out_of_phase m (snd y) \<longrightarrow> t \<le> fst y"
        using skipped later split by auto
      ultimately show ?thesis using False skipped found split by auto
    qed
  qed
qed

definition sample_map :: event_map where
  "sample_map = em_Update 10 (em_SetPhase 2 (em_ScheduleEvent 7 5 1 2 (em_ScheduleEvent 4 3 0 1 em_new)))"

theorem execute_event_earliest_witness:
  "em_reachable sample_map
   \<and> (\<exists>m'. em_ExecuteEvent sample_map = (7, m') \<and> em_lastEvent m' = 0x2010007
        \<and> em_skipped sample_map = [(3, 0x1000004)])"
proof
  have r: "em_reachable sample_map" unfolding sample_map_def by (intro em_reachable.intros)
  then show "em_reachable sample_map" .
  have m: "em_eventMap sample_map = [(3, 0x1000004), (5, 0x2010007)]" "em_time sample_map = 10"
    "em_phase sample_map = 2"
    by (simp_all add: sample_map_def em_ScheduleEvent_def em_insert_def em_new_def em_SetPhase_def em_Update_def
        event_code_def group_bit_def phase_bit_def)
  have s: "em_skipped sample_map = [(3, 0x1000004)]"
    by (simp add: em_skipped_def m out_of_phase_def)
  show "\<exists>m'. em_ExecuteEvent sample_map = (7, m') \<and> em_lastEvent m' = 0x2010007
      \<and> em_skipped sample_map = [(3, 0x1000004)]"
    using execute_event_earliest [OF r] unfolding s m by (auto simp: event_id_def dest!: sym [of "[(5, 0x2010007)]"])
qed

lemma event_id_code:
  assumes "i < 0x10000"
  shows "event_id (event_code i g p) = i"
proof -
  have m: "(0x0000FFFF :: uint32) = mask 16" by (simp add: mask_eq_exp_minus_1)
  have i: "take_bit 16 i = i"
    using assms by (simp only: word_unat_eq_iff unsigned_take_bit_eq) (simp add: take_bit_eq_mod word_less_nat_alt)
  have g: "take_bit 16 (2 ^ (unat g + 15) :: uint32) = 0" if "g \<noteq> 0" for g :: uint32
    using that by (intro bit_word_eqI) (auto simp: bit_simps unat_eq_zero)
  have p: "take_bit 16 (2 ^ (unat p + 23) :: uint32) = 0" for p :: uint8
    by (intro bit_word_eqI) (auto simp: bit_simps)
  show ?thesis
    unfolding event_id_def m take_bit_eq_mask [symmetric] event_code_def group_bit_def
    by (simp add: Let_def i g p)
qed

text \<open>
  Rescheduling leaves exactly one occurrence of the event. For an id that fits its 16
  bits, after \<^verbatim>\<open>RescheduleEvent\<close> the only entry with the id is the new one, at the requested
  time and with the requested group and phase, and every other event is kept with its time.
\<close>

theorem reschedule_unique:
  assumes "i < 0x10000"
  shows "let m' = em_RescheduleEvent i t g p m in
    filter (\<lambda>x. event_id (snd x) = i) (em_eventMap m') = [(em_time m + t, event_code i g p)]
    \<and> filter (\<lambda>x. event_id (snd x) \<noteq> i) (em_eventMap m') = filter (\<lambda>x. event_id (snd x) \<noteq> i) (em_eventMap m)"
proof -
  have drop: "em_eventMap (em_CancelEvent i m) = filter (\<lambda>x. event_id (snd x) \<noteq> i) (em_eventMap m)"
    "em_time (em_CancelEvent i m) = em_time m"
    by (auto simp: em_CancelEvent_def em_Empty_def filter_id_conv intro: filter_cong)
  let ?xs = "filter (\<lambda>x. event_id (snd x) \<noteq> i) (em_eventMap m)"
  have "filter (\<lambda>x. event_id (snd x) = i) (mm_insert k v xs) = [(k, v)]"
    if "event_id v = i" "\<forall>x \<in> set xs. event_id (snd x) \<noteq> i" for k v and xs :: "(uint32, uint32) multimap"
    using that by (induction k v xs rule: mm_insert.induct) (auto simp: filter_empty_conv)
  moreover have "filter (\<lambda>x. event_id (snd x) \<noteq> i) (mm_insert k v xs) = xs"
    if "event_id v = i" "\<forall>x \<in> set xs. event_id (snd x) \<noteq> i" for k v and xs :: "(uint32, uint32) multimap"
    using that by (induction k v xs rule: mm_insert.induct) (auto simp: filter_id_conv)
  ultimately show ?thesis
    using event_id_code [OF assms, of g p]
    by (simp add: em_RescheduleEvent_def em_ScheduleEvent_def em_insert_def drop)
qed

theorem reschedule_unique_witness:
  "(7 :: uint32) < 0x10000 \<and>
   filter (\<lambda>x. event_id (snd x) = 7) (em_eventMap (em_RescheduleEvent 7 5 1 2 sample_map)) = [(15, 0x2010007)]"
  using reschedule_unique [of 7 5 1 2 sample_map]
  by (simp add: Let_def sample_map_def em_ScheduleEvent_def em_insert_def em_new_def em_SetPhase_def em_Update_def
      event_code_def group_bit_def)

text \<open>
  Delaying a group moves exactly its events. The events of the group are found again
  with their time advanced, all others unchanged, none is lost or doubled, and the order of
  the map is kept even where the advanced times wrap.
\<close>

theorem delay_group_events:
  assumes "em_reachable m" and "g \<noteq> 0" and "g \<le> 8"
  shows "mset (em_eventMap (em_DelayEventsGroup d g m)) =
      image_mset (\<lambda>(t, e). if in_group g e then (t + d, e) else (t, e)) (mset (em_eventMap m))
    \<and> mm_sorted (em_eventMap (em_DelayEventsGroup d g m))"
proof
  show "mm_sorted (em_eventMap (em_DelayEventsGroup d g m))"
    by (rule em_sorted_ops(5) [OF em_reachable_sorted [OF assms(1)]])
  have del: "mset (fold (\<lambda>(t, e). mm_insert (t + d) e) xs ys) = mset (map (\<lambda>(t, e). (t + d, e)) xs) + mset ys"
    for xs ys :: "(uint32, uint32) multimap"
    by (induction xs arbitrary: ys) auto
  have split: "image_mset (\<lambda>(t, e). if in_group g e then (t + d, e) else (t, e)) (mset xs) =
      mset (map (\<lambda>(t, e). (t + d, e)) (filter (\<lambda>x. in_group g (snd x)) xs))
      + mset (filter (\<lambda>x. \<not> in_group g (snd x)) xs)" for xs :: "(uint32, uint32) multimap"
    by (induction xs) auto
  show "mset (em_eventMap (em_DelayEventsGroup d g m)) =
      image_mset (\<lambda>(t, e). if in_group g e then (t + d, e) else (t, e)) (mset (em_eventMap m))"
    using assms(2,3) unfolding split
    by (auto simp: em_DelayEventsGroup_def em_Empty_def Let_def mm.mset_adds del not_less)
qed

theorem delay_group_events_witness:
  "em_reachable sample_map \<and> mset (em_eventMap (em_DelayEventsGroup 4 1 sample_map)) = {#(3, 0x1000004), (9, 0x2010007)#}"
proof
  show r: "em_reachable sample_map" unfolding sample_map_def by (intro em_reachable.intros)
  have m: "em_eventMap sample_map = [(3, 0x1000004), (5, 0x2010007)]"
    by (simp add: sample_map_def em_ScheduleEvent_def em_insert_def em_new_def em_SetPhase_def em_Update_def
        event_code_def group_bit_def phase_bit_def)
  show "mset (em_eventMap (em_DelayEventsGroup 4 1 sample_map)) = {#(3, 0x1000004), (9, 0x2010007)#}"
    using delay_group_events [OF r, of 1 4] by (simp add: m in_group_def group_bit_def)
qed

end
