(* ===== verification/Event_Processor.thy ===== *)
theory Event_Processor
  imports Timed_Store
begin

text \<open>
  \<^verbatim>\<open>EventProcessor\<close> (src/Core/src/server/shared/Utilities/EventProcessor.cpp and .h), which runs
  the delayed events of a unit or map object. Events are heap objects behind pointers; the
  store maps their addresses to the fields of \<^verbatim>\<open>BasicEvent\<close>, and an address whose object has
  been deleted must not be followed. The virtual method \<^verbatim>\<open>Execute\<close> is a parameter that may
  change the processor and the objects; \<^verbatim>\<open>IsDeletable\<close> is a parameter too. Calls of virtual
  methods and deletions are logged in order.
\<close>

record basic_event =
  be_to_Abort :: bool
  be_addTime :: uint64
  be_execTime :: uint64

definition be_new :: basic_event where
  "be_new = \<lparr>be_to_Abort = False, be_addTime = 0, be_execTime = 0\<rparr>"

datatype ep_call = CallExecute nat | CallAbort nat uint64 | CallDelete nat

datatype ep_error = DanglingEvent | OutOfFuel

record event_processor =
  ep_time :: uint64
  ep_events :: "(uint64, nat) multimap"
  ep_aborting :: bool
  ep_objects :: "nat \<Rightarrow> basic_event option"
  ep_log :: "ep_call list"

type_synonym ep_exec = "nat \<Rightarrow> uint64 \<Rightarrow> uint32 \<Rightarrow> event_processor \<Rightarrow> bool \<times> event_processor"

definition ep_new :: event_processor where
  "ep_new = \<lparr>ep_time = 0, ep_events = [], ep_aborting = False, ep_objects = \<lambda>_. None, ep_log = []\<rparr>"

definition ep_call :: "ep_call \<Rightarrow> event_processor \<Rightarrow> event_processor" where
  "ep_call c p = p\<lparr>ep_log := ep_log p @ [c]\<rparr>"

definition ep_delete :: "nat \<Rightarrow> event_processor \<Rightarrow> event_processor" where
  "ep_delete i p = ep_call (CallDelete i) (p\<lparr>ep_objects := (ep_objects p)(i := None)\<rparr>)"

definition ep_insert :: "uint64 \<Rightarrow> nat \<Rightarrow> event_processor \<Rightarrow> event_processor" where
  "ep_insert t i p = p\<lparr>ep_events := mm_insert t i (ep_events p)\<rparr>"

definition ep_remove_first :: "event_processor \<Rightarrow> event_processor" where
  "ep_remove_first p = p\<lparr>ep_events := tl (ep_events p)\<rparr>"

definition ep_AddEvent :: "nat \<Rightarrow> uint64 \<Rightarrow> bool \<Rightarrow> event_processor \<Rightarrow> ep_error + event_processor" where
  "ep_AddEvent i e_time set_addtime p =
     (case ep_objects p i of
        None \<Rightarrow> Inl DanglingEvent
      | Some ev \<Rightarrow>
          let ev1 = (if set_addtime then ev\<lparr>be_addTime := ep_time p\<rparr> else ev);
              ev2 = ev1\<lparr>be_execTime := e_time\<rparr>
          in Inr (ep_insert e_time i (p\<lparr>ep_objects := (ep_objects p)(i \<mapsto> ev2)\<rparr>)))"

definition ep_CalculateTime :: "uint64 \<Rightarrow> event_processor \<Rightarrow> uint64" where
  "ep_CalculateTime t_offset p = ep_time p + t_offset"

text \<open>The body of the loop of \<^verbatim>\<open>Update\<close> for the first entry.\<close>

definition ep_dispatch :: "ep_exec \<Rightarrow> uint32 \<Rightarrow> nat \<Rightarrow> event_processor \<Rightarrow> ep_error + event_processor" where
  "ep_dispatch exec p_time i p =
     (let p1 = ep_remove_first p in
      case ep_objects p1 i of
        None \<Rightarrow> Inl DanglingEvent
      | Some ev \<Rightarrow>
          Inr (if \<not> be_to_Abort ev
               then case exec i (ep_time p1) p_time (ep_call (CallExecute i) p1) of
                      (fin, p2) \<Rightarrow> if fin then ep_delete i p2 else p2
               else ep_delete i (ep_call (CallAbort i (ep_time p1)) p1)))"

text \<open>
  An event may add events that are due at once, so the loop need not end; its fuel is one
  unit per iteration.
\<close>

fun ep_loop :: "nat \<Rightarrow> ep_exec \<Rightarrow> uint32 \<Rightarrow> event_processor \<Rightarrow> ep_error + event_processor" where
  "ep_loop 0 exec p_time p = Inl OutOfFuel"
| "ep_loop (Suc n) exec p_time p =
     (case ep_events p of
        [] \<Rightarrow> Inr p
      | (t, i) # _ \<Rightarrow>
          if t \<le> ep_time p
          then case ep_dispatch exec p_time i p of
                 Inl e \<Rightarrow> Inl e
               | Inr p' \<Rightarrow> ep_loop n exec p_time p'
          else Inr p)"

definition ep_Update :: "nat \<Rightarrow> ep_exec \<Rightarrow> uint32 \<Rightarrow> event_processor \<Rightarrow> ep_error + event_processor" where
  "ep_Update fuel exec p_time p = ep_loop fuel exec p_time (p\<lparr>ep_time := ep_time p + ucast p_time\<rparr>)"

text \<open>
  The loop of \<^verbatim>\<open>KillAllEvents\<close>: the entries before the iterator that stay in the map, and
  the ones it has not reached.
\<close>

fun ep_kill_loop :: "bool \<Rightarrow> (nat \<Rightarrow> bool) \<Rightarrow> (uint64, nat) multimap \<Rightarrow> (uint64, nat) multimap
    \<Rightarrow> event_processor \<Rightarrow> ep_error + event_processor" where
  "ep_kill_loop force deletable kept [] p = Inr (p\<lparr>ep_events := kept\<rparr>)"
| "ep_kill_loop force deletable kept ((t, i) # rest) p =
     (case ep_objects p i of
        None \<Rightarrow> Inl DanglingEvent
      | Some ev \<Rightarrow>
          let p1 = p\<lparr>ep_objects := (ep_objects p)(i \<mapsto> ev\<lparr>be_to_Abort := True\<rparr>)\<rparr>;
              p2 = ep_call (CallAbort i (ep_time p1)) p1
          in if force \<or> deletable i
             then let p3 = ep_delete i p2
                  in if \<not> force then ep_kill_loop force deletable kept rest p3
                     else ep_kill_loop force deletable (kept @ [(t, i)]) rest p3
             else ep_kill_loop force deletable (kept @ [(t, i)]) rest p2)"

definition ep_KillAllEvents :: "bool \<Rightarrow> (nat \<Rightarrow> bool) \<Rightarrow> event_processor \<Rightarrow> ep_error + event_processor" where
  "ep_KillAllEvents force deletable p =
     (case ep_kill_loop force deletable [] (ep_events p) (p\<lparr>ep_aborting := True\<rparr>) of
        Inl e \<Rightarrow> Inl e
      | Inr p' \<Rightarrow> Inr (if force then p'\<lparr>ep_events := []\<rparr> else p'))"

section \<open>Invariant\<close>

interpretation ep: timed_store ep_events ep_insert ep_remove_first
  by unfold_locales (auto simp: ep_insert_def ep_remove_first_def)

text \<open>Every entry points to a living object, and no object is queued twice.\<close>

definition ep_queue_ok :: "event_processor \<Rightarrow> bool" where
  "ep_queue_ok p \<longleftrightarrow> distinct (map snd (ep_events p)) \<and> (\<forall>x \<in> set (ep_events p). ep_objects p (snd x) \<noteq> None)"

lemma ep_call_simps [simp]:
  "ep_events (ep_call c p) = ep_events p" "ep_time (ep_call c p) = ep_time p"
  "ep_objects (ep_call c p) = ep_objects p" "ep_log (ep_call c p) = ep_log p @ [c]"
  "ep_events (ep_delete i p) = ep_events p" "ep_time (ep_delete i p) = ep_time p"
  "ep_objects (ep_delete i p) = (ep_objects p)(i := None)" "ep_log (ep_delete i p) = ep_log p @ [CallDelete i]"
  by (simp_all add: ep_call_def ep_delete_def)

text \<open>
  What \<^verbatim>\<open>Execute\<close> may do: add events for later times, itself among them if it returns false,
  and change objects, as long as queued objects stay alive; it does not turn the clock.
\<close>

definition exec_ok :: "ep_exec \<Rightarrow> bool" where
  "exec_ok exec \<longleftrightarrow> (\<forall>i t pt p fin p'. exec i t pt p = (fin, p') \<longrightarrow>
     ep_time p' = ep_time p \<and> ep_log p' = ep_log p
     \<and> (\<exists>new. ep_events p' = fold (\<lambda>(k, v). mm_insert k v) new (ep_events p)
          \<and> (\<forall>x \<in> set new. ep_time p < fst x) \<and> (fin \<longrightarrow> i \<notin> snd ` set new))
     \<and> (ep_queue_ok p \<and> i \<notin> snd ` set (ep_events p) \<longrightarrow> ep_queue_ok p'))"

lemma takeWhile_later:
  "\<forall>x \<in> set new. t < fst x \<Longrightarrow>
   takeWhile (\<lambda>e. fst e \<le> t) (fold (\<lambda>(k, v). mm_insert k v) new xs) = takeWhile (\<lambda>e. fst e \<le> t) xs"
proof (induction new arbitrary: xs)
  case (Cons x new)
  have "takeWhile (\<lambda>e. fst e \<le> t) (mm_insert k v xs) = takeWhile (\<lambda>e. fst e \<le> t) xs" if "t < k" for k v
    using that by (induction k v xs rule: mm_insert.induct) auto
  with Cons show ?case by (cases x) auto
qed simp

definition ep_due :: "event_processor \<Rightarrow> (uint64, nat) multimap" where
  "ep_due p = takeWhile (\<lambda>e. fst e \<le> ep_time p) (ep_events p)"

text \<open>The events an excerpt of the log dispatches, by executing or aborting them.\<close>

fun dispatched :: "ep_call list \<Rightarrow> nat list" where
  "dispatched [] = []"
| "dispatched (CallExecute i # cs) = i # dispatched cs"
| "dispatched (CallAbort i _ # cs) = i # dispatched cs"
| "dispatched (CallDelete _ # cs) = dispatched cs"

lemma dispatched_append [simp]: "dispatched (a @ b) = dispatched a @ dispatched b"
  by (induction a rule: dispatched.induct) auto

lemma ep_dispatch_ok:
  assumes ok: "exec_ok exec" and q: "ep_queue_ok p" and s: "mm_sorted (ep_events p)"
    and ev: "ep_events p = (t, i) # rest" and due: "t \<le> ep_time p"
  shows "\<exists>p'. ep_dispatch exec pt i p = Inr p' \<and> ep_time p' = ep_time p \<and> ep_queue_ok p'
    \<and> mm_sorted (ep_events p') \<and> ep_due p = (t, i) # ep_due p'
    \<and> dispatched (ep_log p') = dispatched (ep_log p) @ [i]"
proof -
  let ?p1 = "ep_remove_first p"
  have p1: "ep_events ?p1 = rest" "ep_time ?p1 = ep_time p" "ep_objects ?p1 = ep_objects p" "ep_log ?p1 = ep_log p"
    using ev by (simp_all add: ep_remove_first_def)
  have s1: "mm_sorted rest" using s ev by (auto dest: mm_sorted_tl)
  have i: "i \<notin> snd ` set rest" and q1: "ep_queue_ok ?p1"
    using q ev p1 by (auto simp: ep_queue_ok_def)
  obtain obj where obj: "ep_objects p i = Some obj" using q ev by (auto simp: ep_queue_ok_def)
  have due_p: "ep_due p = (t, i) # takeWhile (\<lambda>e. fst e \<le> ep_time p) rest"
    using ev due by (simp add: ep_due_def)
  have del: "ep_queue_ok (ep_delete i p2)" if "ep_queue_ok p2" "i \<notin> snd ` set (ep_events p2)" for p2
    using that by (auto simp: ep_queue_ok_def image_iff)
  show ?thesis
  proof (cases "be_to_Abort obj")
    case True
    with obj p1 have "ep_dispatch exec pt i p = Inr (ep_delete i (ep_call (CallAbort i (ep_time p)) ?p1))"
      by (simp add: ep_dispatch_def)
    moreover have "ep_queue_ok (ep_delete i (ep_call (CallAbort i (ep_time p)) ?p1))"
      using q1 i p1 by (intro del) (auto simp: ep_queue_ok_def)
    ultimately show ?thesis using p1 s1 due_p by (simp add: ep_due_def)
  next
    case False
    let ?p2 = "ep_call (CallExecute i) ?p1"
    obtain fin p3 where e: "exec i (ep_time p) pt ?p2 = (fin, p3)" by fastforce
    have "ep_queue_ok ?p2 \<and> i \<notin> snd ` set (ep_events ?p2)" using q1 i p1 by (simp add: ep_queue_ok_def)
    with ok e obtain new where n: "ep_time p3 = ep_time p" "ep_log p3 = ep_log p @ [CallExecute i]"
      "ep_events p3 = fold (\<lambda>(k, v). mm_insert k v) new rest" "\<forall>x \<in> set new. ep_time p < fst x"
      "fin \<longrightarrow> i \<notin> snd ` set new" "ep_queue_ok p3"
      using p1 unfolding exec_ok_def by (metis ep_call_simps(1,2,4))
    have "set (ep_events p3) = set new \<union> set rest"
      using mm.mset_adds [of new rest] n(3) by (metis set_mset_mset set_mset_union)
    then have "fin \<Longrightarrow> ep_queue_ok (ep_delete i p3)" using n(5,6) i by (intro del) auto
    moreover have "ep_dispatch exec pt i p = Inr (if fin then ep_delete i p3 else p3)"
      using obj p1 False e by (simp add: ep_dispatch_def)
    moreover have "mm_sorted (ep_events p3)" using mm.sorted_adds [of rest new] s1 n(3) by simp
    moreover have "ep_due p = (t, i) # ep_due p3"
      using takeWhile_later [OF n(4), of rest] n(1,3) due_p by (simp add: ep_due_def)
    ultimately show ?thesis using n(1,2,6) by (cases fin) (auto simp: ep_due_def)
  qed
qed

lemma ep_loop_ok:
  assumes "exec_ok exec"
  shows "ep_queue_ok p \<Longrightarrow> mm_sorted (ep_events p) \<Longrightarrow> length (ep_due p) < n \<Longrightarrow>
    \<exists>p'. ep_loop n exec pt p = Inr p' \<and> ep_time p' = ep_time p \<and> ep_queue_ok p' \<and> mm_sorted (ep_events p')
      \<and> (\<forall>x \<in> set (ep_events p'). ep_time p < fst x)
      \<and> dispatched (ep_log p') = dispatched (ep_log p) @ map snd (ep_due p)"
proof (induction n arbitrary: p)
  case 0
  then show ?case by simp
next
  case (Suc n)
  show ?case
  proof (cases "ep_due p")
    case Nil
    then have "\<forall>x \<in> set (ep_events p). ep_time p < fst x"
      using ep.due_prefix [OF Suc(3), of "ep_time p"] by (auto simp: ep_due_def filter_empty_conv)
    moreover from this have "ep_loop (Suc n) exec pt p = Inr p" by (auto split: list.split)
    ultimately show ?thesis using Suc Nil by simp
  next
    case (Cons x xs)
    then obtain t i rest where ev: "ep_events p = (t, i) # rest" "t \<le> ep_time p"
      by (cases "ep_events p"; cases x) (auto simp: ep_due_def split: if_splits)
    from ep_dispatch_ok [OF assms Suc(2,3) ev, of pt] obtain p1 where
      p1: "ep_dispatch exec pt i p = Inr p1" "ep_time p1 = ep_time p" "ep_queue_ok p1" "mm_sorted (ep_events p1)"
      "ep_due p = (t, i) # ep_due p1" "dispatched (ep_log p1) = dispatched (ep_log p) @ [i]" by blast
    with Suc(1) [of p1] Suc(4) ev show ?thesis by auto
  qed
qed

section \<open>Properties\<close>


text \<open>An event that runs twice, five milliseconds apart, and one that has been aborted.\<close>

definition twice :: ep_exec where
  "twice i t pt p =
     (if length (filter (\<lambda>c. c = CallExecute i) (ep_log p)) < 2 \<and> ep_objects p i \<noteq> None \<and> ep_time p < 2 ^ 63
         \<and> i \<notin> snd ` set (ep_events p)
      then (False, ep_insert (ep_time p + 5) i p) else (True, p))"

definition two_events :: event_processor where
  "two_events = ep_new\<lparr>ep_objects := (\<lambda>_. None)(0 \<mapsto> be_new, 1 \<mapsto> be_new\<lparr>be_to_Abort := True\<rparr>),
     ep_events := [(3, 1), (4, 0)]\<rparr>"

lemma distinct_mm_insert: "distinct (map snd (mm_insert k v m)) \<longleftrightarrow> v \<notin> snd ` set m \<and> distinct (map snd m)"
proof (induction k v m rule: mm_insert.induct)
  case (2 k v k' v' m)
  then show ?case by (auto simp: image_iff)
qed simp

lemma twice_ok: "exec_ok twice"
  unfolding exec_ok_def
proof (intro allI impI)
  fix i t pt p fin p'
  assume e: "twice i t pt p = (fin, p')"
  have later: "x < x + 5" if "x < 2 ^ 63" for x :: uint64
    using that by (simp add: word_less_nat_alt unat_word_ariths)
  show "ep_time p' = ep_time p \<and> ep_log p' = ep_log p
     \<and> (\<exists>new. ep_events p' = fold (\<lambda>(k, v). mm_insert k v) new (ep_events p)
          \<and> (\<forall>x \<in> set new. ep_time p < fst x) \<and> (fin \<longrightarrow> i \<notin> snd ` set new))
     \<and> (ep_queue_ok p \<and> i \<notin> snd ` set (ep_events p) \<longrightarrow> ep_queue_ok p')"
  proof (cases fin)
    case True
    then have "p' = p" using e by (auto simp: twice_def split: if_splits)
    then show ?thesis by (auto intro: exI [of _ "[]"])
  next
    case False
    then have p': "p' = ep_insert (ep_time p + 5) i p" "ep_objects p i \<noteq> None" "ep_time p < 2 ^ 63"
      using e by (auto simp: twice_def split: if_splits)
    then show ?thesis
      using False later [OF p'(3)]
      by (auto simp: ep_insert_def ep_queue_ok_def distinct_mm_insert intro: exI [of _ "[(ep_time p + 5, i)]"])
  qed
qed


section \<open>Aborting\<close>

text \<open>What becomes of an object behind a queued pointer.\<close>

definition killed_object :: "bool \<Rightarrow> (nat \<Rightarrow> bool) \<Rightarrow> nat \<Rightarrow> basic_event option \<Rightarrow> basic_event option" where
  "killed_object force deletable i obj =
     (if force \<or> deletable i then None else map_option (\<lambda>ev. ev\<lparr>be_to_Abort := True\<rparr>) obj)"

lemma ep_kill_loop_ok:
  "distinct (map snd es) \<Longrightarrow> \<forall>x \<in> set es. ep_objects p (snd x) \<noteq> None \<Longrightarrow>
   \<exists>p'. ep_kill_loop force deletable kept es p = Inr p' \<and> ep_time p' = ep_time p
     \<and> ep_events p' = kept @ filter (\<lambda>x. force \<or> \<not> deletable (snd x)) es \<and> ep_aborting p' = ep_aborting p
     \<and> (\<forall>i. ep_objects p' i =
          (if i \<in> snd ` set es then killed_object force deletable i (ep_objects p i) else ep_objects p i))
     \<and> dispatched (ep_log p') = dispatched (ep_log p) @ map snd es"
proof (induction es arbitrary: kept p)
  case Nil
  then show ?case by simp
next
  case (Cons x rest)
  obtain t i where x: "x = (t, i)" by fastforce
  obtain ev where ev: "ep_objects p i = Some ev" using Cons(3) x by auto
  define p2 where "p2 = ep_call (CallAbort i (ep_time p)) (p\<lparr>ep_objects := (ep_objects p)(i \<mapsto> ev\<lparr>be_to_Abort := True\<rparr>)\<rparr>)"
  define p3 where "p3 = (if force \<or> deletable i then ep_delete i p2 else p2)"
  define kept' where "kept' = (if force \<or> \<not> deletable i then kept @ [(t, i)] else kept)"
  have step: "ep_kill_loop force deletable kept (x # rest) p = ep_kill_loop force deletable kept' rest p3"
    using ev by (simp add: x Let_def p2_def p3_def kept'_def)
  have i: "i \<notin> snd ` set rest" "distinct (map snd rest)" using Cons(2) x by auto
  have p3: "ep_time p3 = ep_time p" "ep_aborting p3 = ep_aborting p"
    "ep_objects p3 = (ep_objects p)(i := killed_object force deletable i (ep_objects p i))"
    "dispatched (ep_log p3) = dispatched (ep_log p) @ [i]"
    using ev by (auto simp: p3_def p2_def killed_object_def ep_call_def ep_delete_def)
  have "\<forall>x \<in> set rest. ep_objects p3 (snd x) \<noteq> None"
    using Cons(3) i(1) p3(3) by (auto simp: image_iff)
  from Cons(1) [OF i(2) this, of kept'] obtain p' where
    r: "ep_kill_loop force deletable kept' rest p3 = Inr p'" "ep_time p' = ep_time p"
    "ep_events p' = kept' @ filter (\<lambda>x. force \<or> \<not> deletable (snd x)) rest" "ep_aborting p' = ep_aborting p"
    "\<And>j. ep_objects p' j =
       (if j \<in> snd ` set rest then killed_object force deletable j (ep_objects p3 j) else ep_objects p3 j)"
    "dispatched (ep_log p') = dispatched (ep_log p) @ i # map snd rest"
    using p3(1,2,4) by auto
  have "ep_objects p' j = (if j \<in> snd ` set (x # rest)
      then killed_object force deletable j (ep_objects p j) else ep_objects p j)" for j
    using r(5) [of j] i(1) p3(3) x by auto
  moreover have "ep_events p' = kept @ filter (\<lambda>x. force \<or> \<not> deletable (snd x)) (x # rest)"
    using r(3) x by (simp add: kept'_def)
  ultimately show ?case unfolding step using r(1,2,4,6) x by simp
qed

text \<open>
  Aborting all events reaches each queued event exactly once, in order, and follows
  living objects only. With \<^verbatim>\<open>force\<close> the queue is empty afterwards and all its objects are
  deleted; without, exactly the events that must not be deleted stay queued, marked to be
  aborted, and the others are deleted.
\<close>

theorem kill_all_events:
  assumes "ep_queue_ok p"
  shows "\<exists>p'. ep_KillAllEvents force deletable p = Inr p' \<and> ep_aborting p' \<and> ep_queue_ok p'
    \<and> ep_events p' = (if force then [] else filter (\<lambda>x. \<not> deletable (snd x)) (ep_events p))
    \<and> (\<forall>i \<in> snd ` set (ep_events p). ep_objects p' i = killed_object force deletable i (ep_objects p i))
    \<and> dispatched (ep_log p') = dispatched (ep_log p) @ map snd (ep_events p)"
proof -
  have d: "distinct (map snd (ep_events p))" and "\<forall>x \<in> set (ep_events p). ep_objects p (snd x) \<noteq> None"
    using assms by (auto simp: ep_queue_ok_def)
  then have "\<forall>x \<in> set (ep_events p). ep_objects (p\<lparr>ep_aborting := True\<rparr>) (snd x) \<noteq> None" by simp
  from ep_kill_loop_ok [OF d this, of force deletable "[]"] obtain p' where
    p': "ep_kill_loop force deletable [] (ep_events p) (p\<lparr>ep_aborting := True\<rparr>) = Inr p'"
    "ep_events p' = filter (\<lambda>x. force \<or> \<not> deletable (snd x)) (ep_events p)" "ep_aborting p'"
    "\<forall>i. ep_objects p' i = (if i \<in> snd ` set (ep_events p)
       then killed_object force deletable i (ep_objects p i) else ep_objects p i)"
    "dispatched (ep_log p') = dispatched (ep_log p) @ map snd (ep_events p)" by auto
  have "ep_queue_ok (if force then p'\<lparr>ep_events := []\<rparr> else p')"
    using assms p'(2,4) by (auto simp: ep_queue_ok_def killed_object_def distinct_map_filter)
  with p' show ?thesis by (auto simp: ep_KillAllEvents_def)
qed

theorem kill_all_events_witness:
  "\<exists>p'. ep_KillAllEvents False (\<lambda>i. i = 1) two_events = Inr p' \<and> ep_events p' = [(4, 0)]
    \<and> dispatched (ep_log p') = [1, 0]"
proof -
  have "ep_queue_ok two_events" by (simp add: two_events_def ep_queue_ok_def)
  from kill_all_events [OF this, of False "\<lambda>i. i = 1"]
  show ?thesis by (auto simp: two_events_def ep_new_def)
qed

end
