(* ===== verification/Linked_List.thy ===== *)
theory Linked_List
  imports HG_Prelude
begin

text \<open>
  The intrusive doubly linked list of src/Core/src/server/shared/Dynamic/LinkedList.h and the
  references built on it (LinkedReference/Reference.h, RefManager.h). Elements are addresses
  in a store that maps them to their pointer fields; a null pointer is \<open>None\<close> and following
  it has no result. The two ends of a list are elements inside its head.
\<close>

section \<open>Elements\<close>

type_synonym addr = nat

record ll_store =
  ll_iNext :: "addr \<Rightarrow> addr option"
  ll_iPrev :: "addr \<Rightarrow> addr option"
  rf_iRefTo :: "addr \<Rightarrow> addr option"
  rf_iRefFrom :: "addr \<Rightarrow> addr option"

definition ll_set_next :: "addr \<Rightarrow> addr option \<Rightarrow> ll_store \<Rightarrow> ll_store" where
  "ll_set_next a v s = s\<lparr>ll_iNext := (ll_iNext s)(a := v)\<rparr>"

definition ll_set_prev :: "addr \<Rightarrow> addr option \<Rightarrow> ll_store \<Rightarrow> ll_store" where
  "ll_set_prev a v s = s\<lparr>ll_iPrev := (ll_iPrev s)(a := v)\<rparr>"

definition ll_new :: "addr \<Rightarrow> ll_store \<Rightarrow> ll_store" where
  "ll_new this s = ll_set_prev this None (ll_set_next this None s)"

definition ll_hasNext :: "addr \<Rightarrow> ll_store \<Rightarrow> bool" where
  "ll_hasNext this s \<longleftrightarrow> (case ll_iNext s this of None \<Rightarrow> False | Some n \<Rightarrow> ll_iNext s n \<noteq> None)"

definition ll_hasPrev :: "addr \<Rightarrow> ll_store \<Rightarrow> bool" where
  "ll_hasPrev this s \<longleftrightarrow> (case ll_iPrev s this of None \<Rightarrow> False | Some n \<Rightarrow> ll_iPrev s n \<noteq> None)"

definition ll_isInList :: "addr \<Rightarrow> ll_store \<Rightarrow> bool" where
  "ll_isInList this s \<longleftrightarrow> ll_iNext s this \<noteq> None \<and> ll_iPrev s this \<noteq> None"

definition ll_next :: "addr \<Rightarrow> ll_store \<Rightarrow> addr option" where
  "ll_next this s = (if ll_hasNext this s then ll_iNext s this else None)"

definition ll_prev :: "addr \<Rightarrow> ll_store \<Rightarrow> addr option" where
  "ll_prev this s = (if ll_hasPrev this s then ll_iPrev s this else None)"

definition ll_delink :: "addr \<Rightarrow> ll_store \<Rightarrow> ll_store" where
  "ll_delink this s =
     (case (ll_iNext s this, ll_iPrev s this) of
        (Some n, Some p) \<Rightarrow>
          let s1 = ll_set_prev n (Some p) s;
              s2 = (case ll_iPrev s1 this of None \<Rightarrow> s1 | Some q \<Rightarrow> ll_set_next q (ll_iNext s1 this) s1)
          in ll_set_prev this None (ll_set_next this None s2)
      | _ \<Rightarrow> s)"

definition ll_insertBefore :: "addr \<Rightarrow> addr \<Rightarrow> ll_store \<Rightarrow> ll_store option" where
  "ll_insertBefore this pElem s =
     (let s1 = ll_set_next pElem (Some this) s;
          s2 = ll_set_prev pElem (ll_iPrev s1 this) s1
      in case ll_iPrev s2 this of
           None \<Rightarrow> None
         | Some q \<Rightarrow> Some (ll_set_prev this (Some pElem) (ll_set_next q (Some pElem) s2)))"

definition ll_insertAfter :: "addr \<Rightarrow> addr \<Rightarrow> ll_store \<Rightarrow> ll_store option" where
  "ll_insertAfter this pElem s =
     (let s1 = ll_set_prev pElem (Some this) s;
          s2 = ll_set_next pElem (ll_iNext s1 this) s1
      in case ll_iNext s2 this of
           None \<Rightarrow> None
         | Some q \<Rightarrow> Some (ll_set_next this (Some pElem) (ll_set_prev q (Some pElem) s2)))"

section \<open>Heads\<close>

record ll_head =
  lh_iFirst :: addr
  lh_iLast :: addr
  lh_iSize :: uint32

definition lh_new :: "addr \<Rightarrow> addr \<Rightarrow> ll_store \<Rightarrow> ll_head \<times> ll_store" where
  "lh_new f l s =
     (\<lparr>lh_iFirst = f, lh_iLast = l, lh_iSize = 0\<rparr>,
      ll_set_prev l (Some f) (ll_set_next f (Some l) (ll_new l (ll_new f s))))"

definition lh_isEmpty :: "ll_head \<Rightarrow> ll_store \<Rightarrow> bool option" where
  "lh_isEmpty h s = map_option (\<lambda>n. \<not> ll_isInList n s) (ll_iNext s (lh_iFirst h))"

definition lh_getFirst :: "ll_head \<Rightarrow> ll_store \<Rightarrow> addr option option" where
  "lh_getFirst h s = map_option (\<lambda>e. if e then None else ll_iNext s (lh_iFirst h)) (lh_isEmpty h s)"

definition lh_getLast :: "ll_head \<Rightarrow> ll_store \<Rightarrow> addr option option" where
  "lh_getLast h s = map_option (\<lambda>e. if e then None else ll_iPrev s (lh_iLast h)) (lh_isEmpty h s)"

definition lh_insertFirst :: "ll_head \<Rightarrow> addr \<Rightarrow> ll_store \<Rightarrow> ll_store option" where
  "lh_insertFirst h pElem s = ll_insertAfter (lh_iFirst h) pElem s"

definition lh_insertLast :: "ll_head \<Rightarrow> addr \<Rightarrow> ll_store \<Rightarrow> ll_store option" where
  "lh_insertLast h pElem s = ll_insertBefore (lh_iLast h) pElem s"

text \<open>The loop of \<^verbatim>\<open>getSize\<close> walks the list; on a cyclic one it has no result.\<close>

partial_function (option) ll_count :: "ll_store \<Rightarrow> addr option \<Rightarrow> uint32 \<Rightarrow> uint32 option" where
  "ll_count s e result =
     (case e of None \<Rightarrow> Some result | Some a \<Rightarrow> ll_count s (ll_next a s) (result + 1))"

definition lh_getSize :: "ll_head \<Rightarrow> ll_store \<Rightarrow> uint32 option" where
  "lh_getSize h s =
     (if lh_iSize h = 0
      then Option.bind (lh_getFirst h s) (\<lambda>e. ll_count s e 0)
      else Some (lh_iSize h))"

definition lh_incSize :: "ll_head \<Rightarrow> ll_head" where
  "lh_incSize h = h\<lparr>lh_iSize := lh_iSize h + 1\<rparr>"

definition lh_decSize :: "ll_head \<Rightarrow> ll_head" where
  "lh_decSize h = h\<lparr>lh_iSize := lh_iSize h - 1\<rparr>"

text \<open>
  \<^verbatim>\<open>Iterator\<close>: a pointer to an element or null; stepping a null iterator follows it. The
  comparison with a pointer is the code's, negated as it stands there.
\<close>

definition iter_inc :: "addr option \<Rightarrow> ll_store \<Rightarrow> addr option option" where
  "iter_inc it s = map_option (\<lambda>a. ll_next a s) it"

definition iter_dec :: "addr option \<Rightarrow> ll_store \<Rightarrow> addr option option" where
  "iter_dec it s = map_option (\<lambda>a. ll_prev a s) it"

definition iter_eq :: "addr option \<Rightarrow> addr option \<Rightarrow> bool" where
  "iter_eq it r \<longleftrightarrow> it = r"

definition iter_eq_pointer :: "addr option \<Rightarrow> addr option \<Rightarrow> bool" where
  "iter_eq_pointer it r \<longleftrightarrow> it \<noteq> r"

section \<open>References\<close>

text \<open>
  The virtual hooks of a reference are parameters: what the target and the source do when
  they are told about a link.
\<close>

record ref_hooks =
  hk_targetBuild :: "addr \<Rightarrow> ll_store \<Rightarrow> ll_store"
  hk_targetDestroy :: "addr \<Rightarrow> ll_store \<Rightarrow> ll_store"
  hk_sourceDestroy :: "addr \<Rightarrow> ll_store \<Rightarrow> ll_store"

definition rf_isValid :: "addr \<Rightarrow> ll_store \<Rightarrow> bool" where
  "rf_isValid this s \<longleftrightarrow> rf_iRefTo s this \<noteq> None"

definition rf_unlink :: "ref_hooks \<Rightarrow> addr \<Rightarrow> ll_store \<Rightarrow> ll_store" where
  "rf_unlink hk this s =
     (let s1 = ll_delink this (hk_targetDestroy hk this s)
      in s1\<lparr>rf_iRefTo := (rf_iRefTo s1)(this := None), rf_iRefFrom := (rf_iRefFrom s1)(this := None)\<rparr>)"

text \<open>\<^verbatim>\<open>link\<close>; \<open>None\<close> is the failed assertion on the source.\<close>

definition rf_link :: "ref_hooks \<Rightarrow> addr \<Rightarrow> addr option \<Rightarrow> addr option \<Rightarrow> ll_store \<Rightarrow> ll_store option" where
  "rf_link hk this toObj fromObj s =
     (if fromObj = None then None
      else let s1 = (if rf_isValid this s then rf_unlink hk this s else s)
           in Some (if toObj \<noteq> None
                    then hk_targetBuild hk this
                           (s1\<lparr>rf_iRefTo := (rf_iRefTo s1)(this := toObj),
                              rf_iRefFrom := (rf_iRefFrom s1)(this := fromObj)\<rparr>)
                    else s1))"

definition rf_invalidate :: "ref_hooks \<Rightarrow> addr \<Rightarrow> ll_store \<Rightarrow> ll_store" where
  "rf_invalidate hk this s =
     (let s1 = ll_delink this (hk_sourceDestroy hk this s)
      in s1\<lparr>rf_iRefTo := (rf_iRefTo s1)(this := None)\<rparr>)"

partial_function (option) rm_clearReferences :: "ref_hooks \<Rightarrow> ll_head \<Rightarrow> ll_store \<Rightarrow> ll_store option" where
  "rm_clearReferences hk h s =
     (case lh_getFirst h s of
        None \<Rightarrow> None
      | Some None \<Rightarrow> Some s
      | Some (Some r) \<Rightarrow> rm_clearReferences hk h (ll_delink r (rf_invalidate hk r s)))"

section \<open>The list a head stands for\<close>

fun ll_linked :: "ll_store \<Rightarrow> addr list \<Rightarrow> bool" where
  "ll_linked s (a # b # xs) \<longleftrightarrow> ll_iNext s a = Some b \<and> ll_iPrev s b = Some a \<and> ll_linked s (b # xs)"
| "ll_linked s _ \<longleftrightarrow> True"

definition ll_repr :: "ll_head \<Rightarrow> ll_store \<Rightarrow> addr list \<Rightarrow> bool" where
  "ll_repr h s xs \<longleftrightarrow>
     (let ys = lh_iFirst h # xs @ [lh_iLast h]
      in distinct ys \<and> ll_linked s ys \<and> ll_iPrev s (lh_iFirst h) = None \<and> ll_iNext s (lh_iLast h) = None)"

lemma ll_linked_append:
  "ll_linked s (xs @ a # ys) \<longleftrightarrow> ll_linked s (xs @ [a]) \<and> ll_linked s (a # ys)"
proof (induction xs rule: induct_list012)
  case 1
  then show ?case by simp
next
  case (2 x)
  then show ?case by (cases ys) auto
next
  case (3 x y zs)
  then show ?case by auto
qed

lemma ll_linked_cong:
  assumes "\<forall>x \<in> set (butlast xs). ll_iNext s' x = ll_iNext s x"
    and "\<forall>x \<in> set (tl xs). ll_iPrev s' x = ll_iPrev s x"
  shows "ll_linked s' xs = ll_linked s xs"
  using assms by (induction xs rule: induct_list012) auto

lemma ll_linked_frame:
  assumes "\<And>x. x \<in> set xs \<Longrightarrow> x \<noteq> last xs \<Longrightarrow> ll_iNext s' x = ll_iNext s x"
    and "\<And>x. x \<in> set xs \<Longrightarrow> x \<noteq> hd xs \<Longrightarrow> ll_iPrev s' x = ll_iPrev s x" and "distinct xs"
  shows "ll_linked s' xs = ll_linked s xs"
proof (rule ll_linked_cong)
  show "\<forall>x \<in> set (butlast xs). ll_iNext s' x = ll_iNext s x"
    using assms(1,3) by (metis append_butlast_last_id butlast.simps(1) distinct_append empty_iff
        empty_set in_set_butlastD list.set_intros(1) disjoint_iff)
  show "\<forall>x \<in> set (tl xs). ll_iPrev s' x = ll_iPrev s x"
    using assms(2,3) by (cases xs) auto
qed

lemma ll_set_simps [simp]:
  "ll_iNext (ll_set_next a v s) = (ll_iNext s)(a := v)" "ll_iPrev (ll_set_next a v s) = ll_iPrev s"
  "ll_iNext (ll_set_prev a v s) = ll_iNext s" "ll_iPrev (ll_set_prev a v s) = (ll_iPrev s)(a := v)"
  "rf_iRefTo (ll_set_next a v s) = rf_iRefTo s" "rf_iRefTo (ll_set_prev a v s) = rf_iRefTo s"
  by (simp_all add: ll_set_next_def ll_set_prev_def)

text \<open>Inserting between two neighbours and removing an element, on the chain of all elements.\<close>

lemma chain_insert:
  assumes "distinct (us @ a # b # vs)" and "p \<notin> set (us @ a # b # vs)" and "ll_linked s (us @ a # b # vs)"
    and "ll_iNext s' = (ll_iNext s)(p \<mapsto> b, a \<mapsto> p)" and "ll_iPrev s' = (ll_iPrev s)(p \<mapsto> a, b \<mapsto> p)"
  shows "ll_linked s' (us @ a # p # b # vs)"
proof -
  have l: "ll_linked s (us @ [a])" "ll_linked s (b # vs)"
    using assms(3) ll_linked_append [of s us a "b # vs"] by auto
  have "ll_linked s' (us @ [a]) = ll_linked s (us @ [a])"
    by (rule ll_linked_frame) (use assms(1,2,4,5) in auto)
  moreover have "ll_linked s' (b # vs) = ll_linked s (b # vs)"
    by (rule ll_linked_frame) (use assms(1,2,4,5) in auto)
  moreover have "ll_linked s' (a # p # b # vs) \<longleftrightarrow> ll_linked s' (b # vs)"
    using assms by auto
  ultimately show ?thesis using l by (subst ll_linked_append) simp
qed

lemma chain_remove:
  assumes "distinct (us @ a # x # b # vs)" and "ll_linked s (us @ a # x # b # vs)"
    and "ll_iNext s' = (ll_iNext s)(a \<mapsto> b, x := None)" and "ll_iPrev s' = (ll_iPrev s)(b \<mapsto> a, x := None)"
  shows "ll_linked s' (us @ a # b # vs)"
proof -
  have l: "ll_linked s (us @ [a])" "ll_linked s (b # vs)"
    using assms(2) ll_linked_append [of s us a "x # b # vs"] by auto
  have "ll_linked s' (us @ [a]) = ll_linked s (us @ [a])"
    by (rule ll_linked_frame) (use assms(1,3,4) in auto)
  moreover have "ll_linked s' (b # vs) = ll_linked s (b # vs)"
    by (rule ll_linked_frame) (use assms(1,3,4) in auto)
  moreover have "ll_linked s' (a # b # vs) \<longleftrightarrow> ll_linked s' (b # vs)"
    using assms by auto
  ultimately show ?thesis using l by (subst ll_linked_append) simp
qed

lemma cut_chain:
  obtains us a b vs where "us @ [a] = f # xs" "b # vs = ys @ [l]"
    "a = last (f # xs)" "b = hd (ys @ [l])" "a \<in> set (f # xs)" "b \<in> set (ys @ [l])"
    "\<And>zs. f # (xs @ zs @ ys) @ [l] = us @ a # zs @ b # vs"
proof
  show u: "butlast (f # xs) @ [last (f # xs)] = f # xs" by (rule append_butlast_last_id) simp
  show v: "hd (ys @ [l]) # tl (ys @ [l]) = ys @ [l]" by (rule hd_Cons_tl) simp
  show "last (f # xs) \<in> set (f # xs)" by (rule last_in_set) simp
  show "hd (ys @ [l]) \<in> set (ys @ [l])" by (rule hd_in_set) simp
  show "f # (xs @ zs @ ys) @ [l] = butlast (f # xs) @ last (f # xs) # zs @ hd (ys @ [l]) # tl (ys @ [l])" for zs
  proof -
    have "f # (xs @ zs @ ys) @ [l] = (f # xs) @ zs @ (ys @ [l])" by simp
    also have "\<dots> = (butlast (f # xs) @ [last (f # xs)]) @ zs @ (hd (ys @ [l]) # tl (ys @ [l]))"
      by (simp only: u v)
    finally show ?thesis by (simp only: append_assoc append_Cons append_Nil)
  qed
qed simp_all

lemma repr_insert_between:
  assumes r: "ll_repr h s (xs @ ys)" and p: "p \<notin> set (lh_iFirst h # xs @ ys @ [lh_iLast h])"
    and a: "a = last (lh_iFirst h # xs)" and b: "b = hd (ys @ [lh_iLast h])"
    and s': "ll_iNext s' = (ll_iNext s)(p \<mapsto> b, a \<mapsto> p)" "ll_iPrev s' = (ll_iPrev s)(p \<mapsto> a, b \<mapsto> p)"
  shows "ll_repr h s' (xs @ p # ys)"
proof -
  obtain us a' b' vs where c: "a' = last (lh_iFirst h # xs)" "b' = hd (ys @ [lh_iLast h])"
    "a' \<in> set (lh_iFirst h # xs)" "b' \<in> set (ys @ [lh_iLast h])"
    "\<And>zs. lh_iFirst h # (xs @ zs @ ys) @ [lh_iLast h] = us @ a' # zs @ b' # vs"
    by (rule cut_chain [of "lh_iFirst h" xs ys "lh_iLast h"]) blast
  have ab: "a' = a" "b' = b" using c(1,2) a b by simp_all
  have old: "lh_iFirst h # (xs @ ys) @ [lh_iLast h] = us @ a # b # vs"
    and new: "lh_iFirst h # (xs @ p # ys) @ [lh_iLast h] = us @ a # p # b # vs"
    using c(5) [of "[]"] c(5) [of "[p]"] ab by simp_all
  have d: "distinct (us @ a # b # vs)" "ll_linked s (us @ a # b # vs)" "p \<notin> set (us @ a # b # vs)"
    using r p by (simp_all add: ll_repr_def flip: old)
  have ends: "a \<noteq> lh_iLast h" "b \<noteq> lh_iFirst h"
    using r c(3,4) ab by (auto simp: ll_repr_def Let_def)
  have "ll_linked s' (us @ a # p # b # vs)" by (rule chain_insert [OF d(1,3,2) s'])
  moreover have "distinct (us @ a # p # b # vs)" using d(1,3) by auto
  ultimately show ?thesis
    unfolding ll_repr_def Let_def new using r p ends s' by (auto simp: ll_repr_def Let_def)
qed

lemma repr_neighbours:
  assumes "ll_repr h s (xs @ ys)"
  shows "ll_iNext s (last (lh_iFirst h # xs)) = Some (hd (ys @ [lh_iLast h]))"
    and "ll_iPrev s (hd (ys @ [lh_iLast h])) = Some (last (lh_iFirst h # xs))"
proof -
  obtain us a b vs where c: "a = last (lh_iFirst h # xs)" "b = hd (ys @ [lh_iLast h])"
    "\<And>zs. lh_iFirst h # (xs @ zs @ ys) @ [lh_iLast h] = us @ a # zs @ b # vs"
    by (rule cut_chain [of "lh_iFirst h" xs ys "lh_iLast h"]) blast
  have "ll_linked s (us @ a # b # vs)"
    using assms c(3) [of "[]"] by (simp add: ll_repr_def)
  then have "ll_iNext s a = Some b \<and> ll_iPrev s b = Some a"
    by (subst (asm) ll_linked_append) simp
  then show "ll_iNext s (last (lh_iFirst h # xs)) = Some (hd (ys @ [lh_iLast h]))"
    and "ll_iPrev s (hd (ys @ [lh_iLast h])) = Some (last (lh_iFirst h # xs))"
    using c(1,2) by simp_all
qed

lemma ll_insertBefore_repr:
  assumes r: "ll_repr h s (xs @ ys)" and p: "p \<notin> set (lh_iFirst h # xs @ ys @ [lh_iLast h])"
  shows "\<exists>s'. ll_insertBefore (hd (ys @ [lh_iLast h])) p s = Some s' \<and> ll_repr h s' (xs @ p # ys)
    \<and> rf_iRefTo s' = rf_iRefTo s"
proof -
  let ?a = "last (lh_iFirst h # xs)" and ?b = "hd (ys @ [lh_iLast h])"
  let ?s = "ll_set_prev ?b (Some p) (ll_set_next ?a (Some p) (ll_set_prev p (Some ?a) (ll_set_next p (Some ?b) s)))"
  have ne: "?b \<noteq> p" using p by (cases ys) auto
  have "ll_insertBefore ?b p s = Some ?s"
    using repr_neighbours [OF r] ne by (simp add: ll_insertBefore_def)
  moreover have "ll_repr h ?s (xs @ p # ys)"
    by (rule repr_insert_between [OF r p refl refl]) simp_all
  ultimately show ?thesis by simp
qed

lemma ll_insertAfter_repr:
  assumes r: "ll_repr h s (xs @ ys)" and p: "p \<notin> set (lh_iFirst h # xs @ ys @ [lh_iLast h])"
  shows "\<exists>s'. ll_insertAfter (last (lh_iFirst h # xs)) p s = Some s' \<and> ll_repr h s' (xs @ p # ys)
    \<and> rf_iRefTo s' = rf_iRefTo s"
proof -
  let ?a = "last (lh_iFirst h # xs)" and ?b = "hd (ys @ [lh_iLast h])"
  let ?s = "ll_set_next ?a (Some p) (ll_set_prev ?b (Some p) (ll_set_next p (Some ?b) (ll_set_prev p (Some ?a) s)))"
  have "?a \<in> set (lh_iFirst h # xs)" by (rule last_in_set) simp
  then have ne: "?a \<noteq> p" using p by auto
  have "ll_insertAfter ?a p s = Some ?s"
    using repr_neighbours [OF r] ne by (simp add: ll_insertAfter_def del: last.simps)
  moreover have "ll_repr h ?s (xs @ p # ys)"
    by (rule repr_insert_between [OF r p refl refl]) (simp_all del: last.simps)
  ultimately show ?thesis by simp
qed

lemma ll_delink_repr:
  assumes r: "ll_repr h s (xs @ x # ys)"
  shows "ll_repr h (ll_delink x s) (xs @ ys)" "ll_iNext (ll_delink x s) x = None"
    "rf_iRefTo (ll_delink x s) = rf_iRefTo s"
    "y \<notin> set (lh_iFirst h # xs @ x # ys @ [lh_iLast h]) \<Longrightarrow> ll_iNext (ll_delink x s) y = ll_iNext s y"
proof -
  obtain us a b vs where c: "a \<in> set (lh_iFirst h # xs)" "b \<in> set (ys @ [lh_iLast h])"
    "\<And>zs. lh_iFirst h # (xs @ zs @ ys) @ [lh_iLast h] = us @ a # zs @ b # vs"
    by (rule cut_chain [of "lh_iFirst h" xs ys "lh_iLast h"]) blast
  have old: "lh_iFirst h # (xs @ x # ys) @ [lh_iLast h] = us @ a # x # b # vs"
    and new: "lh_iFirst h # (xs @ ys) @ [lh_iLast h] = us @ a # b # vs"
    using c(3) [of "[]"] c(3) [of "[x]"] by simp_all
  have d: "distinct (us @ a # x # b # vs)" "ll_linked s (us @ a # x # b # vs)"
    using r by (simp_all add: ll_repr_def flip: old)
  have nb: "ll_iNext s x = Some b" "ll_iPrev s x = Some a"
    using d(2) ll_linked_append [of s us a "x # b # vs"] by auto
  have fields: "ll_iNext (ll_delink x s) = (ll_iNext s)(a \<mapsto> b, x := None)"
    "ll_iPrev (ll_delink x s) = (ll_iPrev s)(b \<mapsto> a, x := None)"
    using nb d(1) by (auto simp: ll_delink_def Let_def)
  have "ll_linked (ll_delink x s) (us @ a # b # vs)" by (rule chain_remove [OF d fields])
  moreover have "a \<noteq> lh_iLast h" "b \<noteq> lh_iFirst h" "x \<noteq> lh_iLast h" "x \<noteq> lh_iFirst h"
    using r c(1,2) by (auto simp: ll_repr_def Let_def)
  moreover have "distinct (us @ a # b # vs)" using d(1) by auto
  ultimately show "ll_repr h (ll_delink x s) (xs @ ys)"
    unfolding ll_repr_def Let_def new using r fields by (auto simp: ll_repr_def Let_def)
  show "ll_iNext (ll_delink x s) x = None" by (simp add: fields)
  show "rf_iRefTo (ll_delink x s) = rf_iRefTo s"
    using nb d(1) by (auto simp: ll_delink_def Let_def)
  show "ll_iNext (ll_delink x s) y = ll_iNext s y" if "y \<notin> set (lh_iFirst h # xs @ x # ys @ [lh_iLast h])"
    using that c(1) by (auto simp: fields)
qed

lemma lh_getFirst_repr:
  assumes "ll_repr h s xs"
  shows "lh_getFirst h s = Some (case xs of [] \<Rightarrow> None | x # _ \<Rightarrow> Some x)"
  using assms repr_neighbours [of h s "[]" xs]
  by (cases xs) (auto simp: lh_getFirst_def lh_isEmpty_def ll_isInList_def ll_repr_def Let_def
      split: list.splits elim: ll_linked.elims)

lemma ll_count_linked:
  "ll_linked s (x # zs @ [l]) \<Longrightarrow> ll_iNext s l = None \<Longrightarrow>
   ll_count s (Some x) r = Some (r + of_nat (length (x # zs)))"
proof (induction zs arbitrary: x r)
  case Nil
  then have "ll_next x s = None" by (simp add: ll_next_def ll_hasNext_def)
  then show ?case by (subst ll_count.simps, simp) (subst ll_count.simps, simp)
next
  case (Cons y zs)
  have "ll_iNext s y \<noteq> None" using Cons(2) by (cases zs) auto
  then have "ll_next x s = Some y" using Cons(2) by (simp add: ll_next_def ll_hasNext_def)
  then show ?case
    using Cons by (subst ll_count.simps) (simp add: add.assoc)
qed

section \<open>The contract of the list\<close>

text \<open>
  What the users of an intrusive list rely on: a head stands for a sequence of elements;
  elements that are in no list are added at either end, any element is removed.
\<close>

locale intrusive_list =
  fixes repr :: "'s \<Rightarrow> 'a list \<Rightarrow> bool"
    and usable :: "'a \<Rightarrow> bool"
    and push_first :: "'a \<Rightarrow> 's \<Rightarrow> 's option"
    and push_last :: "'a \<Rightarrow> 's \<Rightarrow> 's option"
    and remove :: "'a \<Rightarrow> 's \<Rightarrow> 's"
    and first :: "'s \<Rightarrow> 'a option option"
  assumes push_first: "repr s xs \<Longrightarrow> usable x \<Longrightarrow> x \<notin> set xs \<Longrightarrow> \<exists>s'. push_first x s = Some s' \<and> repr s' (x # xs)"
    and push_last: "repr s xs \<Longrightarrow> usable x \<Longrightarrow> x \<notin> set xs \<Longrightarrow> \<exists>s'. push_last x s = Some s' \<and> repr s' (xs @ [x])"
    and remove: "repr s (xs @ x # ys) \<Longrightarrow> repr (remove x s) (xs @ ys)"
    and first: "repr s xs \<Longrightarrow> first s = Some (case xs of [] \<Rightarrow> None | x # _ \<Rightarrow> Some x)"
    and distinct: "repr s xs \<Longrightarrow> distinct xs"
begin

lemma remove_first_element: "repr s (x # xs) \<Longrightarrow> repr (remove x s) xs"
  using remove [of s "[]" x xs] by simp

text \<open>A queue: what is added last is first after everything before it has been removed.\<close>

lemma fifo:
  assumes "repr s xs" and "usable x" and "x \<notin> set xs"
  shows "\<exists>s'. push_last x s = Some s' \<and> first (fold remove xs s') = Some (Some x)"
proof -
  obtain s' where s': "push_last x s = Some s'" "repr s' (xs @ [x])" using push_last [OF assms] by blast
  have "repr t (xs @ [x]) \<Longrightarrow> repr (fold remove xs t) [x]" for t
    by (induction xs arbitrary: t) (auto dest: remove_first_element)
  from first [OF this [OF s'(2)]] s'(1) show ?thesis by simp
qed

text \<open>Removing an element that was just added restores the sequence.\<close>

lemma push_remove:
  assumes "repr s xs" and "usable x" and "x \<notin> set xs"
  shows "\<exists>s'. push_first x s = Some s' \<and> repr (remove x s') xs"
  using push_first [OF assms] remove_first_element by blast

end

definition ll_usable :: "ll_head \<Rightarrow> addr \<Rightarrow> bool" where
  "ll_usable h x \<longleftrightarrow> x \<noteq> lh_iFirst h \<and> x \<noteq> lh_iLast h"

lemma lh_insertFirst_repr:
  assumes "ll_repr h s xs" and "ll_usable h x" and "x \<notin> set xs"
  shows "\<exists>s'. lh_insertFirst h x s = Some s' \<and> ll_repr h s' (x # xs)"
  using ll_insertAfter_repr [of h s "[]" xs x] assms by (auto simp: lh_insertFirst_def ll_usable_def)

lemma lh_insertLast_repr:
  assumes "ll_repr h s xs" and "ll_usable h x" and "x \<notin> set xs"
  shows "\<exists>s'. lh_insertLast h x s = Some s' \<and> ll_repr h s' (xs @ [x])"
  using ll_insertBefore_repr [of h s xs "[]" x] assms by (auto simp: lh_insertLast_def ll_usable_def)

interpretation ll: intrusive_list "ll_repr h" "ll_usable h" "lh_insertFirst h" "lh_insertLast h" ll_delink "lh_getFirst h"
  for h
  by unfold_locales
    (auto simp: lh_insertFirst_repr lh_insertLast_repr ll_delink_repr(1) lh_getFirst_repr,
     simp add: ll_repr_def Let_def)

text \<open>
  \<^verbatim>\<open>clearReferences\<close> under hooks that do not touch the links or targets of references.
\<close>

definition hooks_local :: "ref_hooks \<Rightarrow> bool" where
  "hooks_local hk \<longleftrightarrow> (\<forall>a s. ll_iNext (hk_sourceDestroy hk a s) = ll_iNext s
     \<and> ll_iPrev (hk_sourceDestroy hk a s) = ll_iPrev s \<and> rf_iRefTo (hk_sourceDestroy hk a s) = rf_iRefTo s)"

lemma ll_repr_links: "ll_iNext s' = ll_iNext s \<Longrightarrow> ll_iPrev s' = ll_iPrev s \<Longrightarrow> ll_repr h s' xs = ll_repr h s xs"
  using ll_linked_cong [of _ s' s] by (simp add: ll_repr_def)

lemma invalidate_delink:
  assumes "hooks_local hk" and "ll_repr h s (x # xs)"
  shows "ll_repr h (ll_delink x (rf_invalidate hk x s)) xs"
    and "rf_iRefTo (ll_delink x (rf_invalidate hk x s)) = (rf_iRefTo s)(x := None)"
    and "ll_iNext (ll_delink x (rf_invalidate hk x s)) x = None"
    and "y \<notin> set (lh_iFirst h # x # xs @ [lh_iLast h]) \<Longrightarrow>
      ll_iNext (ll_delink x (rf_invalidate hk x s)) y = ll_iNext s y"
proof -
  let ?s = "hk_sourceDestroy hk x s"
  have s: "ll_iNext ?s = ll_iNext s" "ll_iPrev ?s = ll_iPrev s" "rf_iRefTo ?s = rf_iRefTo s"
    using assms(1) by (simp_all add: hooks_local_def)
  have r: "ll_repr h ?s ([] @ x # xs)" using assms(2) ll_repr_links [OF s(1,2)] by simp
  have none: "ll_iNext (rf_invalidate hk x s) x = None"
    using ll_delink_repr(2) [OF r] by (simp add: rf_invalidate_def Let_def)
  then have id: "ll_delink x (rf_invalidate hk x s) = rf_invalidate hk x s"
    by (simp add: ll_delink_def)
  have inv: "ll_iNext (rf_invalidate hk x s) = ll_iNext (ll_delink x ?s)"
    "ll_iPrev (rf_invalidate hk x s) = ll_iPrev (ll_delink x ?s)"
    "rf_iRefTo (rf_invalidate hk x s) = (rf_iRefTo s)(x := None)"
    using ll_delink_repr(3) [OF r] s(3) by (simp_all add: rf_invalidate_def Let_def)
  show "ll_repr h (ll_delink x (rf_invalidate hk x s)) xs"
    using ll_delink_repr(1) [OF r] ll_repr_links [OF inv(1,2)] by (simp add: id)
  show "rf_iRefTo (ll_delink x (rf_invalidate hk x s)) = (rf_iRefTo s)(x := None)" by (simp add: id inv)
  show "ll_iNext (ll_delink x (rf_invalidate hk x s)) x = None" by (simp add: id none)
  show "ll_iNext (ll_delink x (rf_invalidate hk x s)) y = ll_iNext s y"
    if "y \<notin> set (lh_iFirst h # x # xs @ [lh_iLast h])"
    using ll_delink_repr(4) [OF r, of y] that by (simp add: id inv s)
qed

section \<open>Properties\<close>

text \<open>
  C15. The pointer operations implement a sequence. Inserting an element that is in no list
  before or after any position of a list, the ends included, succeeds and yields the
  sequence with the element at that place; removing any element yields the sequence without
  it and leaves the element outside every list.
\<close>

theorem linked_list_refines:
  assumes "ll_repr h s (xs @ ys)" and "p \<notin> set (lh_iFirst h # xs @ ys @ [lh_iLast h])"
  shows "\<exists>s1 s2. ll_insertBefore (hd (ys @ [lh_iLast h])) p s = Some s1 \<and> ll_repr h s1 (xs @ p # ys)
    \<and> ll_insertAfter (last (lh_iFirst h # xs)) p s = Some s2 \<and> ll_repr h s2 (xs @ p # ys)
    \<and> ll_repr h (ll_delink p s1) (xs @ ys) \<and> \<not> ll_isInList p (ll_delink p s1)"
proof -
  from ll_insertBefore_repr [OF assms] obtain s1 where
    s1: "ll_insertBefore (hd (ys @ [lh_iLast h])) p s = Some s1" "ll_repr h s1 (xs @ p # ys)" by blast
  from ll_insertAfter_repr [OF assms] obtain s2 where
    s2: "ll_insertAfter (last (lh_iFirst h # xs)) p s = Some s2" "ll_repr h s2 (xs @ p # ys)" by blast
  from s1 s2 ll_delink_repr(1,2) [OF s1(2)] show ?thesis by (auto simp: ll_isInList_def)
qed

definition sample_head :: ll_head where
  "sample_head = \<lparr>lh_iFirst = 0, lh_iLast = 1, lh_iSize = 0\<rparr>"

definition sample_store :: ll_store where
  "sample_store = \<lparr>ll_iNext = (\<lambda>_. None)(0 \<mapsto> 2, 2 \<mapsto> 3, 3 \<mapsto> 1), ll_iPrev = (\<lambda>_. None)(2 \<mapsto> 0, 3 \<mapsto> 2, 1 \<mapsto> 3),
     rf_iRefTo = (\<lambda>_. None)(2 \<mapsto> 9, 3 \<mapsto> 9), rf_iRefFrom = \<lambda>_. None\<rparr>"

lemma sample_store_repr: "ll_repr sample_head sample_store [2, 3]"
  by (simp add: ll_repr_def sample_head_def sample_store_def)

theorem linked_list_refines_witness:
  "\<exists>s1 s2. ll_insertBefore 3 4 sample_store = Some s1 \<and> ll_repr sample_head s1 [2, 4, 3]
    \<and> ll_insertAfter 2 4 sample_store = Some s2 \<and> ll_repr sample_head s2 [2, 4, 3]
    \<and> ll_repr sample_head (ll_delink 4 s1) [2, 3] \<and> \<not> ll_isInList 4 (ll_delink 4 s1)"
  using linked_list_refines [of sample_head sample_store "[2]" "[3]" 4] sample_store_repr
  by (simp add: sample_head_def)

text \<open>
  Counting walks the whole list once and ends: when no size has been recorded,
  \<^verbatim>\<open>getSize\<close> returns the length of the list (modulo \<open>2 ^ 32\<close>), and the first and last
  elements are the ends of the sequence.
\<close>

theorem linked_list_size:
  assumes "ll_repr h s xs"
  shows "(lh_iSize h = 0 \<longrightarrow> lh_getSize h s = Some (of_nat (length xs)))
    \<and> lh_getFirst h s = Some (case xs of [] \<Rightarrow> None | x # _ \<Rightarrow> Some x)
    \<and> lh_getLast h s = Some (if xs = [] then None else Some (last xs))"
proof -
  have first: "lh_getFirst h s = Some (case xs of [] \<Rightarrow> None | x # _ \<Rightarrow> Some x)"
    by (rule lh_getFirst_repr [OF assms])
  have "ll_count s (Some x) 0 = Some (of_nat (length (x # zs)))" if "xs = x # zs" for x zs
    using assms that ll_count_linked [of s x zs "lh_iLast h" 0] by (simp add: ll_repr_def)
  then have size: "lh_iSize h = 0 \<longrightarrow> lh_getSize h s = Some (of_nat (length xs))"
    using first by (cases xs) (simp_all add: lh_getSize_def ll_count.simps)
  have "lh_isEmpty h s = Some (xs = [])"
    using first repr_neighbours [of h s "[]" xs] assms
    by (cases xs) (auto simp: lh_getFirst_def lh_isEmpty_def split: if_splits)
  then have "lh_getLast h s = Some (if xs = [] then None else Some (last xs))"
    using repr_neighbours(2) [of h s xs "[]"] assms by (simp add: lh_getLast_def)
  with first size show ?thesis by blast
qed

theorem linked_list_size_witness:
  "lh_getSize sample_head sample_store = Some 2 \<and> lh_getLast sample_head sample_store = Some (Some 3)"
  using linked_list_size [OF sample_store_repr] by (simp add: sample_head_def)

text \<open>
  \<^verbatim>\<open>clearReferences\<close> ends and cuts every link: with hooks that leave the links of other
  references alone, the loop returns with the list empty, every reference that was in it out
  of the list and without a target, and all other targets as they were.
\<close>

theorem clear_references:
  assumes "hooks_local hk" and "ll_repr h s xs"
  shows "\<exists>s'. rm_clearReferences hk h s = Some s' \<and> ll_repr h s' []
    \<and> (\<forall>x. rf_iRefTo s' x = (if x \<in> set xs then None else rf_iRefTo s x))
    \<and> (\<forall>x \<in> set xs. \<not> ll_isInList x s')"
proof -
  have "\<exists>s'. rm_clearReferences hk h s = Some s' \<and> ll_repr h s' []
    \<and> (\<forall>x. rf_iRefTo s' x = (if x \<in> set xs then None else rf_iRefTo s x))
    \<and> (\<forall>x \<in> set xs. ll_iNext s' x = None)
    \<and> (\<forall>x. x \<notin> set (lh_iFirst h # xs @ [lh_iLast h]) \<longrightarrow> ll_iNext s' x = ll_iNext s x)"
    using assms(2)
  proof (induction xs arbitrary: s)
    case Nil
    then show ?case by (subst rm_clearReferences.simps) (simp add: lh_getFirst_repr)
  next
    case (Cons x xs)
    let ?s = "ll_delink x (rf_invalidate hk x s)"
    note d = invalidate_delink [OF assms(1) Cons(2)]
    have x: "x \<notin> set (lh_iFirst h # xs @ [lh_iLast h])"
      using Cons(2) by (auto simp: ll_repr_def Let_def)
    have "rm_clearReferences hk h s = rm_clearReferences hk h ?s"
      by (subst rm_clearReferences.simps) (simp add: lh_getFirst_repr [OF Cons(2)])
    with Cons(1) [OF d(1)] d(2-4) x show ?case by auto
  qed
  then show ?thesis by (auto simp: ll_isInList_def)
qed

definition quiet_hooks :: ref_hooks where
  "quiet_hooks = \<lparr>hk_targetBuild = \<lambda>_ s. s, hk_targetDestroy = \<lambda>_ s. s,
     hk_sourceDestroy = \<lambda>a s. s\<lparr>rf_iRefFrom := (rf_iRefFrom s)(a := Some 7)\<rparr>\<rparr>"

theorem clear_references_witness:
  "\<exists>s'. rm_clearReferences quiet_hooks sample_head sample_store = Some s' \<and> ll_repr sample_head s' []
    \<and> rf_iRefTo s' 2 = None \<and> \<not> ll_isInList 3 s'"
  using clear_references [OF _ sample_store_repr, of quiet_hooks]
  by (auto simp: hooks_local_def quiet_hooks_def)

end
