(* ===== verification/Util_Strings.thy ===== *)
theory Util_Strings
  imports Std_Containers
begin

text \<open>
  Strings of bytes: \<^verbatim>\<open>Tokenizer\<close> (src/Core/src/server/shared/Utilities/Util.cpp), the decimal
  output of an unsigned number by a stream, and \<^verbatim>\<open>strtoull\<close> of the C library in base ten.
\<close>

type_synonym bytes = "uint8 list"

section \<open>Tokenizer\<close>

text \<open>
  The loop over the copied string: the characters since \<^verbatim>\<open>posold\<close> are the current token; a
  separator ends it, even an empty one, the terminating zero ends it unless it is empty.
\<close>

fun tokenizer_loop :: "uint8 \<Rightarrow> bytes \<Rightarrow> bytes \<Rightarrow> bytes list" where
  "tokenizer_loop sep cur [] = (if cur \<noteq> [] then [cur] else [])"
| "tokenizer_loop sep cur (c # cs) =
     (if c = sep then cur # tokenizer_loop sep [] cs
      else if c = 0 then (if cur \<noteq> [] then [cur] else [])
      else tokenizer_loop sep (cur @ [c]) cs)"

definition Tokenizer :: "bytes \<Rightarrow> uint8 \<Rightarrow> bytes list" where
  "Tokenizer src sep = tokenizer_loop sep [] src"

section \<open>Decimal numbers\<close>

fun decimal :: "nat \<Rightarrow> bytes" where
  "decimal n = (if n < 10 then [of_nat (48 + n)] else decimal (n div 10) @ [of_nat (48 + n mod 10)])"

declare decimal.simps [simp del]

definition is_space :: "uint8 \<Rightarrow> bool" where
  "is_space c \<longleftrightarrow> c = 32 \<or> 9 \<le> c \<and> c \<le> 13"

definition is_digit :: "uint8 \<Rightarrow> bool" where
  "is_digit c \<longleftrightarrow> 48 \<le> c \<and> c \<le> 57"

text \<open>Leading space, a sign, digits; a value out of range is the largest one.\<close>

definition digits_value :: "bytes \<Rightarrow> nat" where
  "digits_value s = foldl (\<lambda>n c. 10 * n + (unat c - 48)) 0 (takeWhile is_digit s)"

definition strtoull10 :: "bytes \<Rightarrow> uint64" where
  "strtoull10 s =
     (let s1 = dropWhile is_space s;
          minus = (s1 \<noteq> [] \<and> hd s1 = 45);
          s2 = (if s1 \<noteq> [] \<and> (hd s1 = 45 \<or> hd s1 = 43) then tl s1 else s1);
          v = digits_value s2
      in if v \<ge> 2 ^ 64 then - 1 else if minus then - of_nat v else of_nat v)"

section \<open>Lists of numbers\<close>

lemma decimal_not_Nil [simp]: "decimal n \<noteq> []"
  by (subst decimal.simps) simp

lemma digit_props:
  assumes "n < 10"
  shows "is_digit (of_nat (48 + n))" "unat (of_nat (48 + n) :: uint8) = 48 + n"
proof -
  show u: "unat (of_nat (48 + n) :: uint8) = 48 + n"
    using assms by (simp only: unat_of_nat) simp
  show "is_digit (of_nat (48 + n))"
    unfolding is_digit_def word_le_nat_alt u using assms by simp
qed

lemma decimal_digits: "c \<in> set (decimal n) \<Longrightarrow> is_digit c"
proof (induction n rule: decimal.induct)
  case (1 n)
  then show ?case
    by (subst (asm) decimal.simps) (auto split: if_splits intro: digit_props simp del: of_nat_add)
qed

lemma digits_value_append_digit:
  assumes "\<forall>c \<in> set xs. is_digit c" and "is_digit d"
  shows "digits_value (xs @ [d]) = 10 * digits_value xs + (unat d - 48)"
  using assms by (simp add: digits_value_def takeWhile_eq_all_conv [THEN iffD2])

lemma digits_value_decimal: "digits_value (decimal n) = n"
proof (induction n rule: decimal.induct)
  case (1 n)
  show ?case
  proof (cases "n < 10")
    case True
    then have "digits_value [of_nat (48 + n)] = n"
      using digit_props [OF True] by (simp add: digits_value_def del: of_nat_add)
    with True show ?thesis by (subst decimal.simps) (simp del: of_nat_add)
  next
    case False
    have d: "n mod 10 < 10" by simp
    have "digits_value (decimal (n div 10) @ [of_nat (48 + n mod 10)]) = 10 * (n div 10) + n mod 10"
      using digits_value_append_digit [of "decimal (n div 10)" "of_nat (48 + n mod 10)"]
        digit_props [OF d] 1 [OF False] decimal_digits by (simp del: of_nat_add)
    with False show ?thesis by (subst decimal.simps) (simp del: of_nat_add)
  qed
qed

lemma digit_not_special: "is_digit c \<Longrightarrow> \<not> is_space c \<and> c \<noteq> 45 \<and> c \<noteq> 43 \<and> c \<noteq> 32 \<and> c \<noteq> 0"
  by (auto simp: is_digit_def is_space_def word_le_nat_alt)

lemma strtoull10_decimal: "strtoull10 (decimal (unat g)) = g"
proof -
  obtain c cs where d: "decimal (unat g) = c # cs" by (meson decimal_not_Nil neq_Nil_conv)
  have "is_digit c" using decimal_digits [of c "unat g"] d by simp
  from digit_not_special [OF this] digits_value_decimal [of "unat g"] show ?thesis
    using unsigned_less [of g, where 'a = nat] by (simp add: strtoull10_def d)
qed

lemma tokenizer_loop_number:
  assumes "\<forall>c \<in> set xs. c \<noteq> 32 \<and> c \<noteq> 0"
  shows "tokenizer_loop 32 cur (xs @ 32 # rest) = (cur @ xs) # tokenizer_loop 32 [] rest"
  using assms by (induction xs arbitrary: cur) auto

text \<open>A list of numbers printed with a blank behind each is read back.\<close>

lemma Tokenizer_numbers:
  "Tokenizer (concat (map (\<lambda>g. decimal (unat g) @ [32]) gs)) 32 = map (\<lambda>g. decimal (unat g)) gs"
proof (induction gs)
  case Nil
  then show ?case by (simp add: Tokenizer_def)
next
  case (Cons g gs)
  have "\<forall>c \<in> set (decimal (unat g)). c \<noteq> 32 \<and> c \<noteq> 0"
    using decimal_digits digit_not_special by blast
  from tokenizer_loop_number [OF this] Cons show ?case by (simp add: Tokenizer_def)
qed

end
