(* ===== verification/Channel.thy ===== *)
theory Channel
  imports Message_Buffer Util_Strings
begin

text \<open>
  Chat channels: \<^verbatim>\<open>Channel\<close> (src/Core/src/server/game/Chat/Channels/Channel.cpp and Channel.h).
  The record holds the fields of the class; packets sent to players, calls that change a
  player's list of channels and database statements are appended to \<open>ch_events\<close> in the order
  of the code. The players online, the configuration, the channel table of the client data
  and the database are the fields of the environment.
\<close>

section \<open>Players, environment, members\<close>

record player =
  pl_guid :: uint64
  pl_name :: bytes
  pl_team :: uint32
  pl_security :: uint32
  pl_HasPermission :: "uint32 \<Rightarrow> bool"
  pl_group :: bool
  pl_ignores :: "uint64 \<Rightarrow> bool"
  pl_gmVisible :: bool
  pl_visibleFor :: "uint64 \<Rightarrow> bool"

definition RBAC_PERM_TWO_SIDE_INTERACTION_CHANNEL :: uint32 where
  "RBAC_PERM_TWO_SIDE_INTERACTION_CHANNEL = 26"
definition RBAC_PERM_WHO_SEE_ALL_SEC_LEVELS :: uint32 where
  "RBAC_PERM_WHO_SEE_ALL_SEC_LEVELS = 35"
definition RBAC_PERM_SILENTLY_JOIN_CHANNEL :: uint32 where
  "RBAC_PERM_SILENTLY_JOIN_CHANNEL = 45"
definition RBAC_PERM_CHANGE_CHANNEL_NOT_MODERATOR :: uint32 where
  "RBAC_PERM_CHANGE_CHANNEL_NOT_MODERATOR = 46"

text \<open>A row of the table of saved channels.\<close>

record channel_row =
  cr_announce :: bool
  cr_ownership :: bool
  cr_password :: bytes
  cr_bannedList :: "bytes option"

record ch_env =
  ce_FindPlayer :: "uint64 \<Rightarrow> player option"
  ce_FindPlayerByName :: "bytes \<Rightarrow> player option"
  ce_GetPlayerNameByGUID :: "uint64 \<Rightarrow> bytes option"
  ce_BuildChatPacket :: "uint32 \<Rightarrow> uint64 \<Rightarrow> bool \<Rightarrow> bytes \<Rightarrow> bytes \<Rightarrow> worldpacket"
  ce_restrictedLfg :: bool
  ce_twoSideInteraction :: bool
  ce_gmLevelInWhoList :: uint32
  ce_preserveCustom :: bool
  ce_chatChannels :: "uint32 \<Rightarrow> uint32 option"
  ce_channelRow :: "bytes \<Rightarrow> uint32 \<Rightarrow> channel_row option"

record player_info =
  pi_player :: uint64
  pi_flags :: uint8

definition pi_IsOwner :: "player_info \<Rightarrow> bool" where
  "pi_IsOwner p \<longleftrightarrow> pi_flags p AND 0x01 \<noteq> 0"

definition pi_SetOwner :: "bool \<Rightarrow> player_info \<Rightarrow> player_info" where
  "pi_SetOwner state p = p\<lparr>pi_flags := if state then pi_flags p OR 0x01 else pi_flags p AND NOT 0x01\<rparr>"

definition pi_IsModerator :: "player_info \<Rightarrow> bool" where
  "pi_IsModerator p \<longleftrightarrow> pi_flags p AND 0x02 \<noteq> 0"

definition pi_SetModerator :: "bool \<Rightarrow> player_info \<Rightarrow> player_info" where
  "pi_SetModerator state p = p\<lparr>pi_flags := if state then pi_flags p OR 0x02 else pi_flags p AND NOT 0x02\<rparr>"

definition pi_IsMuted :: "player_info \<Rightarrow> bool" where
  "pi_IsMuted p \<longleftrightarrow> pi_flags p AND 0x08 \<noteq> 0"

definition pi_SetMuted :: "bool \<Rightarrow> player_info \<Rightarrow> player_info" where
  "pi_SetMuted state p = p\<lparr>pi_flags := if state then pi_flags p OR 0x08 else pi_flags p AND NOT 0x08\<rparr>"

section \<open>The channel\<close>

datatype ch_event =
    SendPacket uint64 worldpacket
  | PlayerJoinedChannel uint64
  | PlayerLeftChannel uint64
  | InsChannel bytes uint32
  | UpdChannel bool bool bytes bytes bytes uint32
  | UpdChannelUsage bytes uint32

record channel =
  ch_announce :: bool
  ch_ownership :: bool
  ch_IsSaved :: bool
  ch_flags :: uint8
  ch_channelId :: uint32
  ch_Team :: uint32
  ch_ownerGUID :: uint64
  ch_name :: bytes
  ch_password :: bytes
  ch_players :: "(uint64, player_info) omap"
  ch_banned :: "uint64 list"
  ch_events :: "ch_event list"

definition ch_emit :: "ch_event \<Rightarrow> channel \<Rightarrow> channel" where
  "ch_emit e c = c\<lparr>ch_events := ch_events c @ [e]\<rparr>"

definition ch_HasFlag :: "uint8 \<Rightarrow> channel \<Rightarrow> bool" where
  "ch_HasFlag flag c \<longleftrightarrow> ch_flags c AND flag \<noteq> 0"

definition ch_IsConstant :: "channel \<Rightarrow> bool" where
  "ch_IsConstant c \<longleftrightarrow> ch_channelId c \<noteq> 0"

definition ch_GetNumPlayers :: "channel \<Rightarrow> uint32" where
  "ch_GetNumPlayers c = of_nat (length (ch_players c))"

definition ch_IsOn :: "uint64 \<Rightarrow> channel \<Rightarrow> bool" where
  "ch_IsOn who c \<longleftrightarrow> om_find who (ch_players c) \<noteq> None"

definition ch_IsBanned :: "uint64 \<Rightarrow> channel \<Rightarrow> bool" where
  "ch_IsBanned guid c \<longleftrightarrow> guid \<in> set (ch_banned c)"

definition ch_GetPlayerFlags :: "uint64 \<Rightarrow> channel \<Rightarrow> uint8" where
  "ch_GetPlayerFlags guid c = (case om_find guid (ch_players c) of None \<Rightarrow> 0 | Some p \<Rightarrow> pi_flags p)"

definition ch_SetPassword :: "bytes \<Rightarrow> channel \<Rightarrow> channel" where
  "ch_SetPassword npassword c = c\<lparr>ch_password := npassword\<rparr>"

definition ch_SetAnnounce :: "bool \<Rightarrow> channel \<Rightarrow> channel" where
  "ch_SetAnnounce nannounce c = c\<lparr>ch_announce := nannounce\<rparr>"

definition ch_SetOwnership :: "bool \<Rightarrow> channel \<Rightarrow> channel" where
  "ch_SetOwnership ownership c = c\<lparr>ch_ownership := ownership\<rparr>"

text \<open>
  \<^verbatim>\<open>playersStore[guid]\<close> adds an empty member when there is none; \<open>ch_at\<close> is the value it
  yields, \<open>ch_modify\<close> a call of a changing method on it.
\<close>

definition ch_at :: "uint64 \<Rightarrow> channel \<Rightarrow> player_info" where
  "ch_at guid c = (case om_find guid (ch_players c) of None \<Rightarrow> \<lparr>pi_player = 0, pi_flags = 0\<rparr> | Some p \<Rightarrow> p)"

definition ch_modify :: "uint64 \<Rightarrow> (player_info \<Rightarrow> player_info) \<Rightarrow> channel \<Rightarrow> channel" where
  "ch_modify guid f c = c\<lparr>ch_players := om_set guid (f (ch_at guid c)) (ch_players c)\<rparr>"

section \<open>Database\<close>

definition ch_banlist :: "channel \<Rightarrow> bytes" where
  "ch_banlist c = concat (map (\<lambda>g. decimal (unat g) @ [32]) (ch_banned c))"

definition ch_UpdateChannelInDB :: "channel \<Rightarrow> channel" where
  "ch_UpdateChannelInDB c =
     (if ch_IsSaved c
      then ch_emit (UpdChannel (ch_announce c) (ch_ownership c) (ch_password c) (ch_banlist c) (ch_name c) (ch_Team c)) c
      else c)"

definition ch_UpdateChannelUseageInDB :: "channel \<Rightarrow> channel" where
  "ch_UpdateChannelUseageInDB c = ch_emit (UpdChannelUsage (ch_name c) (ch_Team c)) c"

text \<open>The loop over the tokens of the stored ban list.\<close>

fun ch_load_bans :: "bytes list \<Rightarrow> uint64 list \<Rightarrow> uint64 list" where
  "ch_load_bans [] bans = bans"
| "ch_load_bans (t # ts) bans =
     (let banned_guid = strtoull10 t
      in ch_load_bans ts (if banned_guid \<noteq> 0 then ss_insert banned_guid bans else bans))"

definition ch_new :: "ch_env \<Rightarrow> bytes \<Rightarrow> uint32 \<Rightarrow> uint32 \<Rightarrow> channel" where
  "ch_new env name channelId team =
     (let c0 = \<lparr>ch_announce = True, ch_ownership = True, ch_IsSaved = False, ch_flags = 0, ch_channelId = channelId,
                ch_Team = team, ch_ownerGUID = 0, ch_name = name, ch_password = [], ch_players = [], ch_banned = [],
                ch_events = []\<rparr>
      in case ce_chatChannels env channelId of
           Some flags \<Rightarrow>
             c0\<lparr>ch_announce := False, ch_ownership := False,
                ch_flags := 0x10 OR (if flags AND 0x8 \<noteq> 0 then 0x04 else 0) OR (if flags AND 0x20 \<noteq> 0 then 0x20 else 0)
                            OR (if flags AND 0x40000 \<noteq> 0 then 0x40 else 0x08)\<rparr>
         | None \<Rightarrow>
             let c1 = c0\<lparr>ch_flags := 0x01\<rparr>
             in if ce_preserveCustom env
                then (case ce_channelRow env name team of
                        Some row \<Rightarrow>
                          c1\<lparr>ch_announce := cr_announce row, ch_ownership := cr_ownership row,
                             ch_password := cr_password row,
                             ch_banned := (case cr_bannedList row of
                                             None \<Rightarrow> [] | Some s \<Rightarrow> ch_load_bans (Tokenizer s 32) []),
                             ch_IsSaved := True\<rparr>
                      | None \<Rightarrow> (ch_emit (InsChannel name team) c1)\<lparr>ch_IsSaved := True\<rparr>)
                else c1)"

section \<open>Notices\<close>

text \<open>The \<^verbatim>\<open>ChatNotify\<close> codes, with what each notice carries behind the channel's name.\<close>

datatype ch_notice =
    NJoined uint64 | NLeft uint64 | NYouJoined | NYouLeft | NWrongPassword | NNotMember | NNotModerator
  | NPasswordChanged uint64 | NOwnerChanged uint64 | NPlayerNotFound bytes | NNotOwner | NChannelOwner bytes
  | NModeChange uint64 uint8 | NAnnouncementsOn uint64 | NAnnouncementsOff uint64 | NMuted
  | NPlayerKicked uint64 uint64 | NBanned | NPlayerBanned uint64 uint64 | NPlayerUnbanned uint64 uint64
  | NPlayerNotBanned bytes | NPlayerAlreadyMember uint64 | NInvite uint64 | NInviteWrongFaction | NWrongFaction
  | NInvalidName | NNotModerated | NPlayerInvited bytes | NPlayerInviteBanned bytes | NThrottled | NNotInArea
  | NNotInLfg | NVoiceOn uint64 | NVoiceOff uint64

fun notice_code :: "ch_notice \<Rightarrow> uint8" where
  "notice_code (NJoined _) = 0x00"
| "notice_code (NLeft _) = 0x01"
| "notice_code NYouJoined = 0x02"
| "notice_code NYouLeft = 0x03"
| "notice_code NWrongPassword = 0x04"
| "notice_code NNotMember = 0x05"
| "notice_code NNotModerator = 0x06"
| "notice_code (NPasswordChanged _) = 0x07"
| "notice_code (NOwnerChanged _) = 0x08"
| "notice_code (NPlayerNotFound _) = 0x09"
| "notice_code NNotOwner = 0x0A"
| "notice_code (NChannelOwner _) = 0x0B"
| "notice_code (NModeChange _ _) = 0x0C"
| "notice_code (NAnnouncementsOn _) = 0x0D"
| "notice_code (NAnnouncementsOff _) = 0x0E"
| "notice_code NMuted = 0x11"
| "notice_code (NPlayerKicked _ _) = 0x12"
| "notice_code NBanned = 0x13"
| "notice_code (NPlayerBanned _ _) = 0x14"
| "notice_code (NPlayerUnbanned _ _) = 0x15"
| "notice_code (NPlayerNotBanned _) = 0x16"
| "notice_code (NPlayerAlreadyMember _) = 0x17"
| "notice_code (NInvite _) = 0x18"
| "notice_code NInviteWrongFaction = 0x19"
| "notice_code NWrongFaction = 0x1A"
| "notice_code NInvalidName = 0x1B"
| "notice_code NNotModerated = 0x1C"
| "notice_code (NPlayerInvited _) = 0x1D"
| "notice_code (NPlayerInviteBanned _) = 0x1E"
| "notice_code NThrottled = 0x1F"
| "notice_code NNotInArea = 0x20"
| "notice_code NNotInLfg = 0x21"
| "notice_code (NVoiceOn _) = 0x22"
| "notice_code (NVoiceOff _) = 0x23"

fun notice_args :: "channel \<Rightarrow> ch_notice \<Rightarrow> bytes" where
  "notice_args c (NJoined guid) = le_bytes 8 guid"
| "notice_args c (NLeft guid) = le_bytes 8 guid"
| "notice_args c NYouJoined = [ch_flags c] @ le_bytes 4 (ch_channelId c) @ le_bytes 4 (0 :: uint32)"
| "notice_args c NYouLeft = le_bytes 4 (ch_channelId c) @ [if ch_IsConstant c then 1 else 0]"
| "notice_args c (NPasswordChanged guid) = le_bytes 8 guid"
| "notice_args c (NOwnerChanged guid) = le_bytes 8 guid"
| "notice_args c (NPlayerNotFound name) = name @ [0]"
| "notice_args c (NChannelOwner name) = name @ [0]"
| "notice_args c (NModeChange guid oldflags) = le_bytes 8 guid @ [oldflags, ch_GetPlayerFlags guid c]"
| "notice_args c (NAnnouncementsOn guid) = le_bytes 8 guid"
| "notice_args c (NAnnouncementsOff guid) = le_bytes 8 guid"
| "notice_args c (NPlayerKicked bad good) = le_bytes 8 bad @ le_bytes 8 good"
| "notice_args c (NPlayerBanned bad good) = le_bytes 8 bad @ le_bytes 8 good"
| "notice_args c (NPlayerUnbanned bad good) = le_bytes 8 bad @ le_bytes 8 good"
| "notice_args c (NPlayerNotBanned name) = name @ [0]"
| "notice_args c (NPlayerAlreadyMember guid) = le_bytes 8 guid"
| "notice_args c (NInvite guid) = le_bytes 8 guid"
| "notice_args c (NPlayerInvited name) = name @ [0]"
| "notice_args c (NPlayerInviteBanned name) = name @ [0]"
| "notice_args c (NVoiceOn guid) = le_bytes 8 guid"
| "notice_args c (NVoiceOff guid) = le_bytes 8 guid"
| "notice_args c _ = []"

definition ch_MakeNotifyPacket :: "ch_notice \<Rightarrow> channel \<Rightarrow> worldpacket" where
  "ch_MakeNotifyPacket n c = packet_of 0x099 ([notice_code n] @ ch_name c @ [0] @ notice_args c n)"

definition ch_owner_name :: "ch_env \<Rightarrow> channel \<Rightarrow> bytes" where
  "ch_owner_name env c =
     (let name = (case ce_GetPlayerNameByGUID env (ch_ownerGUID c) of None \<Rightarrow> [] | Some n \<Rightarrow> n);
          name' = (if name = [] then map (of_nat \<circ> of_char) ''PLAYER_NOT_FOUND'' else name)
      in if ch_IsConstant c \<or> ch_ownerGUID c = 0 then map (of_nat \<circ> of_char) ''Nobody'' else name')"

section \<open>Sending\<close>

definition ch_SendToOne :: "ch_env \<Rightarrow> worldpacket \<Rightarrow> uint64 \<Rightarrow> channel \<Rightarrow> channel" where
  "ch_SendToOne env data who c = (if ce_FindPlayer env who \<noteq> None then ch_emit (SendPacket who data) c else c)"

text \<open>The members a broadcast reaches, in the order of the map.\<close>

definition ch_receivers :: "ch_env \<Rightarrow> uint64 \<Rightarrow> channel \<Rightarrow> uint64 list" where
  "ch_receivers env guid c =
     filter (\<lambda>g. case ce_FindPlayer env g of
                   None \<Rightarrow> False | Some p \<Rightarrow> guid = 0 \<or> \<not> pl_ignores p guid) (map fst (ch_players c))"

definition ch_SendToAll :: "ch_env \<Rightarrow> worldpacket \<Rightarrow> uint64 \<Rightarrow> channel \<Rightarrow> channel" where
  "ch_SendToAll env data guid c =
     c\<lparr>ch_events := ch_events c @ map (\<lambda>g. SendPacket g data) (ch_receivers env guid c)\<rparr>"

definition ch_SendToAllButOne :: "ch_env \<Rightarrow> worldpacket \<Rightarrow> uint64 \<Rightarrow> channel \<Rightarrow> channel" where
  "ch_SendToAllButOne env data who c =
     c\<lparr>ch_events := ch_events c
        @ map (\<lambda>g. SendPacket g data) (filter (\<lambda>g. g \<noteq> who) (ch_receivers env 0 c))\<rparr>"

definition ch_notify_one :: "ch_env \<Rightarrow> ch_notice \<Rightarrow> uint64 \<Rightarrow> channel \<Rightarrow> channel" where
  "ch_notify_one env n who c = ch_SendToOne env (ch_MakeNotifyPacket n c) who c"

definition ch_notify_all :: "ch_env \<Rightarrow> ch_notice \<Rightarrow> channel \<Rightarrow> channel" where
  "ch_notify_all env n c = ch_SendToAll env (ch_MakeNotifyPacket n c) 0 c"

definition ch_JoinNotify :: "ch_env \<Rightarrow> uint64 \<Rightarrow> channel \<Rightarrow> channel" where
  "ch_JoinNotify env guid c =
     (let data = packet_of (if ch_IsConstant c then 0x3F0 else 0x3F2)
                   (le_bytes 8 guid @ [ch_GetPlayerFlags guid c, ch_flags c] @ le_bytes 4 (ch_GetNumPlayers c)
                    @ ch_name c @ [0])
      in if ch_IsConstant c then ch_SendToAllButOne env data guid c else ch_SendToAll env data 0 c)"

definition ch_LeaveNotify :: "ch_env \<Rightarrow> uint64 \<Rightarrow> channel \<Rightarrow> channel" where
  "ch_LeaveNotify env guid c =
     (let data = packet_of 0x3F1
                   (le_bytes 8 guid @ [ch_flags c] @ le_bytes 4 (ch_GetNumPlayers c) @ ch_name c @ [0])
      in if ch_IsConstant c then ch_SendToAllButOne env data guid c else ch_SendToAll env data 0 c)"

section \<open>Owner, moderators, mutes\<close>

definition ch_SetOwner :: "ch_env \<Rightarrow> uint64 \<Rightarrow> bool \<Rightarrow> channel \<Rightarrow> channel" where
  "ch_SetOwner env guid exclaim c =
     (let c1 = (if ch_ownerGUID c \<noteq> 0 \<and> ch_IsOn (ch_ownerGUID c) c
                then ch_modify (ch_ownerGUID c) (pi_SetOwner False) c else c);
          c2 = c1\<lparr>ch_ownerGUID := guid\<rparr>
      in if guid = 0 then c2
         else
           let oldFlag = ch_GetPlayerFlags guid c2;
               c3 = ch_modify guid (pi_SetOwner True) (ch_modify guid (pi_SetModerator True) c2);
               c4 = ch_notify_all env (NModeChange guid oldFlag) c3;
               c5 = (if exclaim then ch_notify_all env (NOwnerChanged guid) c4 else c4)
           in ch_UpdateChannelInDB c5)"

definition ch_SetModerator :: "ch_env \<Rightarrow> uint64 \<Rightarrow> bool \<Rightarrow> channel \<Rightarrow> channel" where
  "ch_SetModerator env guid state c =
     (let c0 = ch_modify guid (\<lambda>p. p) c in
      if pi_IsModerator (ch_at guid c0) \<noteq> state
      then let oldFlag = ch_GetPlayerFlags guid c0; c1 = ch_modify guid (pi_SetModerator state) c0
           in ch_notify_all env (NModeChange guid oldFlag) c1
      else c0)"

definition ch_SetMute :: "ch_env \<Rightarrow> uint64 \<Rightarrow> bool \<Rightarrow> channel \<Rightarrow> channel" where
  "ch_SetMute env guid state c =
     (let c0 = ch_modify guid (\<lambda>p. p) c in
      if pi_IsMuted (ch_at guid c0) \<noteq> state
      then let oldFlag = ch_GetPlayerFlags guid c0; c1 = ch_modify guid (pi_SetMuted state) c0
           in ch_notify_all env (NModeChange guid oldFlag) c1
      else c0)"

section \<open>Joining and leaving\<close>

definition ch_lfg_refused :: "ch_env \<Rightarrow> player \<Rightarrow> channel \<Rightarrow> bool" where
  "ch_lfg_refused env player c \<longleftrightarrow>
     ch_HasFlag 0x40 c \<and> ce_restrictedLfg env \<and> pl_security player = 0 \<and> pl_group player"

definition ch_JoinChannel :: "ch_env \<Rightarrow> player \<Rightarrow> bytes \<Rightarrow> channel \<Rightarrow> channel" where
  "ch_JoinChannel env player pass c =
     (let guid = pl_guid player in
      if ch_IsOn guid c
      then (if \<not> ch_IsConstant c then ch_notify_one env (NPlayerAlreadyMember guid) guid c else c)
      else if ch_IsBanned guid c then ch_notify_one env NBanned guid c
      else if ch_password c \<noteq> [] \<and> pass \<noteq> ch_password c then ch_notify_one env NWrongPassword guid c
      else if ch_lfg_refused env player c then ch_notify_one env NNotInLfg guid c
      else
        let c1 = ch_emit (PlayerJoinedChannel guid) c;
            c2 = (if ch_announce c1 \<and> \<not> pl_HasPermission player RBAC_PERM_SILENTLY_JOIN_CHANNEL
                  then ch_notify_all env (NJoined guid) c1 else c1);
            c3 = c2\<lparr>ch_players := om_set guid \<lparr>pi_player = guid, pi_flags = 0\<rparr> (ch_players c2)\<rparr>;
            c4 = ch_JoinNotify env guid (ch_notify_one env NYouJoined guid c3)
        in if ch_IsConstant c4 then c4
           else
             let c5 = (if ch_players c4 \<noteq> [] then ch_UpdateChannelUseageInDB c4 else c4)
             in if ch_ownerGUID c5 = 0 \<and> ch_ownership c5
                then ch_modify guid (pi_SetModerator True)
                       (ch_SetOwner env guid (length (ch_players c5) > 1) c5)
                else c5)"

definition ch_LeaveChannel :: "ch_env \<Rightarrow> player \<Rightarrow> bool \<Rightarrow> channel \<Rightarrow> channel" where
  "ch_LeaveChannel env player send c =
     (let guid = pl_guid player in
      if \<not> ch_IsOn guid c then (if send then ch_notify_one env NNotMember guid c else c)
      else
        let c1 = (if send then ch_emit (PlayerLeftChannel guid) (ch_notify_one env NYouLeft guid c) else c);
            changeowner = pi_IsOwner (ch_at guid c1);
            c2 = c1\<lparr>ch_players := om_erase guid (ch_players c1)\<rparr>;
            c3 = (if ch_announce c2 \<and> \<not> pl_HasPermission player RBAC_PERM_SILENTLY_JOIN_CHANNEL
                  then ch_notify_all env (NLeft guid) c2 else c2);
            c4 = ch_LeaveNotify env guid c3
        in if ch_IsConstant c4 then c4
           else
             let c5 = ch_UpdateChannelUseageInDB c4
             in if changeowner \<and> ch_ownership c5 \<and> ch_players c5 \<noteq> []
                then let newowner = pi_player (snd (hd (ch_players c5)))
                     in ch_SetOwner env newowner True (ch_modify newowner (pi_SetModerator True) c5)
                else c5)"

section \<open>Moderation\<close>

text \<open>
  The checks with which most commands start: the player is on the channel, and is a
  moderator or may act without being one. \<open>Some\<close> is the notice of the first that fails.
\<close>

definition ch_refuse_moderation :: "player \<Rightarrow> channel \<Rightarrow> ch_notice option" where
  "ch_refuse_moderation player c =
     (if \<not> ch_IsOn (pl_guid player) c then Some NNotMember
      else if \<not> pi_IsModerator (ch_at (pl_guid player) c)
              \<and> \<not> pl_HasPermission player RBAC_PERM_CHANGE_CHANNEL_NOT_MODERATOR
      then Some NNotModerator
      else None)"

definition ch_KickOrBan :: "ch_env \<Rightarrow> player \<Rightarrow> bytes \<Rightarrow> bool \<Rightarrow> channel \<Rightarrow> channel" where
  "ch_KickOrBan env player badname ban c =
     (let good = pl_guid player in
      case ch_refuse_moderation player c of
        Some n \<Rightarrow> ch_notify_one env n good c
      | None \<Rightarrow>
          let victim = (case ce_FindPlayerByName env badname of None \<Rightarrow> 0 | Some p \<Rightarrow> pl_guid p)
          in if victim = 0 \<or> \<not> ch_IsOn victim c then ch_notify_one env (NPlayerNotFound badname) good c
             else
               let changeowner = (ch_ownerGUID c = victim)
               in if \<not> pl_HasPermission player RBAC_PERM_CHANGE_CHANNEL_NOT_MODERATOR \<and> changeowner
                     \<and> good \<noteq> ch_ownerGUID c
                  then ch_notify_one env NNotOwner good c
                  else
                    let silent = pl_HasPermission player RBAC_PERM_SILENTLY_JOIN_CHANNEL;
                        c1 = (if ban \<and> \<not> ch_IsBanned victim c
                              then let b = ch_UpdateChannelInDB (c\<lparr>ch_banned := ss_insert victim (ch_banned c)\<rparr>)
                                   in if \<not> silent then ch_notify_all env (NPlayerBanned victim good) b else b
                              else if \<not> silent then ch_notify_all env (NPlayerKicked victim good) c
                              else c);
                        c2 = ch_emit (PlayerLeftChannel victim)
                               (c1\<lparr>ch_players := om_erase victim (ch_players c1)\<rparr>)
                    in if changeowner \<and> ch_ownership c2 \<and> ch_players c2 \<noteq> []
                       then ch_SetOwner env good True (ch_modify good (pi_SetModerator True) c2)
                       else c2)"

definition ch_UnBan :: "ch_env \<Rightarrow> player \<Rightarrow> bytes \<Rightarrow> channel \<Rightarrow> channel" where
  "ch_UnBan env player badname c =
     (let good = pl_guid player in
      case ch_refuse_moderation player c of
        Some n \<Rightarrow> ch_notify_one env n good c
      | None \<Rightarrow>
          let victim = (case ce_FindPlayerByName env badname of None \<Rightarrow> 0 | Some p \<Rightarrow> pl_guid p)
          in if victim = 0 \<or> \<not> ch_IsBanned victim c then ch_notify_one env (NPlayerNotFound badname) good c
             else ch_UpdateChannelInDB
                    (ch_notify_all env (NPlayerUnbanned victim good)
                      (c\<lparr>ch_banned := ss_erase victim (ch_banned c)\<rparr>)))"

definition ch_Password :: "ch_env \<Rightarrow> player \<Rightarrow> bytes \<Rightarrow> channel \<Rightarrow> channel" where
  "ch_Password env player pass c =
     (let guid = pl_guid player in
      case ch_refuse_moderation player c of
        Some n \<Rightarrow> ch_notify_one env n guid c
      | None \<Rightarrow> ch_UpdateChannelInDB (ch_notify_all env (NPasswordChanged guid) (c\<lparr>ch_password := pass\<rparr>)))"

text \<open>Whether a command may name the player: on the channel, and of the same team or both exempt.\<close>

definition ch_can_name :: "player \<Rightarrow> player \<Rightarrow> channel \<Rightarrow> bool" where
  "ch_can_name player newp c \<longleftrightarrow>
     pl_guid newp \<noteq> 0 \<and> ch_IsOn (pl_guid newp) c
     \<and> \<not> (pl_team player \<noteq> pl_team newp
          \<and> (\<not> pl_HasPermission player RBAC_PERM_TWO_SIDE_INTERACTION_CHANNEL
             \<or> \<not> pl_HasPermission newp RBAC_PERM_TWO_SIDE_INTERACTION_CHANNEL))"

definition ch_SetMode :: "ch_env \<Rightarrow> player \<Rightarrow> bytes \<Rightarrow> bool \<Rightarrow> bool \<Rightarrow> channel \<Rightarrow> channel" where
  "ch_SetMode env player p2n md state c =
     (let guid = pl_guid player in
      case ch_refuse_moderation player c of
        Some n \<Rightarrow> ch_notify_one env n guid c
      | None \<Rightarrow>
          if guid = ch_ownerGUID c \<and> p2n = pl_name player \<and> md then c
          else (case ce_FindPlayerByName env p2n of
                  None \<Rightarrow> ch_notify_one env (NPlayerNotFound p2n) guid c
                | Some newp \<Rightarrow>
                    if \<not> ch_can_name player newp c then ch_notify_one env (NPlayerNotFound p2n) guid c
                    else if ch_ownerGUID c = pl_guid newp \<and> ch_ownerGUID c \<noteq> guid
                    then ch_notify_one env NNotOwner guid c
                    else if md then ch_SetModerator env (pl_guid newp) state c
                    else ch_SetMute env (pl_guid newp) state c))"

definition ch_SetOwner_by :: "ch_env \<Rightarrow> player \<Rightarrow> bytes \<Rightarrow> channel \<Rightarrow> channel" where
  "ch_SetOwner_by env player newname c =
     (let guid = pl_guid player in
      if \<not> ch_IsOn guid c then ch_notify_one env NNotMember guid c
      else if \<not> pl_HasPermission player RBAC_PERM_CHANGE_CHANNEL_NOT_MODERATOR \<and> guid \<noteq> ch_ownerGUID c
      then ch_notify_one env NNotOwner guid c
      else (case ce_FindPlayerByName env newname of
              None \<Rightarrow> ch_notify_one env (NPlayerNotFound newname) guid c
            | Some newp \<Rightarrow>
                if \<not> ch_can_name player newp c then ch_notify_one env (NPlayerNotFound newname) guid c
                else ch_SetOwner env (pl_guid newp) True (ch_modify (pl_guid newp) (pi_SetModerator True) c)))"

section \<open>Other commands\<close>

definition ch_SendWhoOwner :: "ch_env \<Rightarrow> uint64 \<Rightarrow> channel \<Rightarrow> channel" where
  "ch_SendWhoOwner env guid c =
     ch_notify_one env (if ch_IsOn guid c then NChannelOwner (ch_owner_name env c) else NNotMember) guid c"

text \<open>The members a player sees in the list.\<close>

definition ch_listed :: "ch_env \<Rightarrow> player \<Rightarrow> channel \<Rightarrow> (uint64 \<times> player_info) list" where
  "ch_listed env player c =
     filter (\<lambda>e. case ce_FindPlayer env (fst e) of
               None \<Rightarrow> False
             | Some member \<Rightarrow>
                 (pl_HasPermission player RBAC_PERM_WHO_SEE_ALL_SEC_LEVELS
                  \<or> pl_security member \<le> ce_gmLevelInWhoList env)
                 \<and> pl_visibleFor member (pl_guid player)) (ch_players c)"

definition ch_List :: "ch_env \<Rightarrow> player \<Rightarrow> channel \<Rightarrow> channel" where
  "ch_List env player c =
     (let guid = pl_guid player in
      if \<not> ch_IsOn guid c then ch_notify_one env NNotMember guid c
      else
        let members = ch_listed env player c;
            data = packet_of 0x09B
              ([1] @ ch_name c @ [0, ch_flags c] @ le_bytes 4 (of_nat (length members) :: uint32)
               @ concat (map (\<lambda>e. le_bytes 8 (fst e) @ [pi_flags (snd e)]) members))
        in ch_SendToOne env data guid c)"

definition ch_Announce :: "ch_env \<Rightarrow> player \<Rightarrow> channel \<Rightarrow> channel" where
  "ch_Announce env player c =
     (let guid = pl_guid player in
      case ch_refuse_moderation player c of
        Some n \<Rightarrow> ch_notify_one env n guid c
      | None \<Rightarrow>
          let c1 = c\<lparr>ch_announce := \<not> ch_announce c\<rparr>
          in ch_UpdateChannelInDB
               (ch_notify_all env (if ch_announce c1 then NAnnouncementsOn guid else NAnnouncementsOff guid) c1))"

definition ch_Say :: "ch_env \<Rightarrow> uint64 \<Rightarrow> bytes \<Rightarrow> uint32 \<Rightarrow> channel \<Rightarrow> channel" where
  "ch_Say env guid what lang c =
     (if what = [] then c
      else
        let lang' = (if ce_twoSideInteraction env then 0 else lang)
        in if \<not> ch_IsOn guid c then ch_notify_one env NNotMember guid c
           else if pi_IsMuted (ch_at guid c) then ch_notify_one env NMuted guid c
           else
             let data = ce_BuildChatPacket env lang' guid (ce_FindPlayer env guid \<noteq> None) what (ch_name c)
             in ch_SendToAll env data (if \<not> pi_IsModerator (ch_at guid c) then guid else 0) c)"

definition ch_Invite :: "ch_env \<Rightarrow> player \<Rightarrow> bytes \<Rightarrow> channel \<Rightarrow> channel" where
  "ch_Invite env player newname c =
     (let guid = pl_guid player in
      if \<not> ch_IsOn guid c then ch_notify_one env NNotMember guid c
      else case ce_FindPlayerByName env newname of
             None \<Rightarrow> ch_notify_one env (NPlayerNotFound newname) guid c
           | Some newp \<Rightarrow>
               if \<not> pl_gmVisible newp then ch_notify_one env (NPlayerNotFound newname) guid c
               else if ch_IsBanned (pl_guid newp) c then ch_notify_one env (NPlayerInviteBanned newname) guid c
               else if pl_team newp \<noteq> pl_team player
                       \<and> (\<not> pl_HasPermission player RBAC_PERM_TWO_SIDE_INTERACTION_CHANNEL
                          \<or> \<not> pl_HasPermission newp RBAC_PERM_TWO_SIDE_INTERACTION_CHANNEL)
               then ch_notify_one env NInviteWrongFaction guid c
               else if ch_IsOn (pl_guid newp) c then ch_notify_one env (NPlayerAlreadyMember (pl_guid newp)) guid c
               else
                 let c1 = (if \<not> pl_ignores newp guid then ch_notify_one env (NInvite guid) (pl_guid newp) c else c)
                 in ch_notify_one env (NPlayerInvited (pl_name newp)) guid c1)"

end
