(* ===== verification/Channel_Props.thy ===== *)
theory Channel_Props
  imports Channel
begin

text \<open>
  What the channels guarantee: at most one owner, admission to a channel, succession of the
  owner, authority for kicks and bans, the stored ban list, and the outcome of an owner
  kicking himself.
\<close>

section \<open>Flags of members\<close>

lemma member_bits:
  "pi_IsOwner p \<longleftrightarrow> bit (pi_flags p) 0" "pi_IsModerator p \<longleftrightarrow> bit (pi_flags p) 1"
  "pi_IsMuted p \<longleftrightarrow> bit (pi_flags p) 3"
  using and_exp_eq_0_iff_not_bit [of "pi_flags p" 0] and_exp_eq_0_iff_not_bit [of "pi_flags p" 1]
    and_exp_eq_0_iff_not_bit [of "pi_flags p" 3]
  by (simp_all add: pi_IsOwner_def pi_IsModerator_def pi_IsMuted_def)

lemma bit_consts:
  "bit (0x01 :: uint8) n \<longleftrightarrow> n = 0" "bit (0x02 :: uint8) n \<longleftrightarrow> n = 1" "bit (0x08 :: uint8) n \<longleftrightarrow> n = 3"
  using bit_exp_iff [where 'a = uint8, of 0 n] bit_exp_iff [where 'a = uint8, of 1 n]
    bit_exp_iff [where 'a = uint8, of 3 n]
  by (auto simp: possible_bit_def)

lemma set_flags [simp]:
  "pi_IsOwner (pi_SetOwner b p) \<longleftrightarrow> b" "pi_IsModerator (pi_SetOwner b p) \<longleftrightarrow> pi_IsModerator p"
  "pi_IsOwner (pi_SetModerator b p) \<longleftrightarrow> pi_IsOwner p" "pi_IsModerator (pi_SetModerator b p) \<longleftrightarrow> b"
  "pi_IsOwner (pi_SetMuted b p) \<longleftrightarrow> pi_IsOwner p" "pi_IsModerator (pi_SetMuted b p) \<longleftrightarrow> pi_IsModerator p"
  "pi_IsMuted (pi_SetMuted b p) \<longleftrightarrow> b"
  "pi_player (pi_SetOwner b p) = pi_player p" "pi_player (pi_SetModerator b p) = pi_player p"
  "pi_player (pi_SetMuted b p) = pi_player p"
  unfolding member_bits
  by (auto simp: pi_SetOwner_def pi_SetModerator_def pi_SetMuted_def bit_simps bit_consts)

lemma empty_member [simp]: "\<not> pi_IsOwner \<lparr>pi_player = g, pi_flags = 0\<rparr>"
  by (simp add: pi_IsOwner_def)

section \<open>What sending leaves alone\<close>

lemma frame_send [simp]:
  "ch_players (ch_emit e c) = ch_players c" "ch_banned (ch_emit e c) = ch_banned c" "ch_ownerGUID (ch_emit e c) = ch_ownerGUID c" "ch_ownership (ch_emit e c) = ch_ownership c" "ch_password (ch_emit e c) = ch_password c" "ch_announce (ch_emit e c) = ch_announce c" "ch_channelId (ch_emit e c) = ch_channelId c" "ch_IsSaved (ch_emit e c) = ch_IsSaved c" "ch_name (ch_emit e c) = ch_name c" "ch_Team (ch_emit e c) = ch_Team c"
  "ch_players (ch_SendToOne env d w c) = ch_players c" "ch_banned (ch_SendToOne env d w c) = ch_banned c" "ch_ownerGUID (ch_SendToOne env d w c) = ch_ownerGUID c" "ch_ownership (ch_SendToOne env d w c) = ch_ownership c" "ch_password (ch_SendToOne env d w c) = ch_password c" "ch_announce (ch_SendToOne env d w c) = ch_announce c" "ch_channelId (ch_SendToOne env d w c) = ch_channelId c" "ch_IsSaved (ch_SendToOne env d w c) = ch_IsSaved c" "ch_name (ch_SendToOne env d w c) = ch_name c" "ch_Team (ch_SendToOne env d w c) = ch_Team c"
  "ch_players (ch_SendToAll env d w c) = ch_players c" "ch_banned (ch_SendToAll env d w c) = ch_banned c" "ch_ownerGUID (ch_SendToAll env d w c) = ch_ownerGUID c" "ch_ownership (ch_SendToAll env d w c) = ch_ownership c" "ch_password (ch_SendToAll env d w c) = ch_password c" "ch_announce (ch_SendToAll env d w c) = ch_announce c" "ch_channelId (ch_SendToAll env d w c) = ch_channelId c" "ch_IsSaved (ch_SendToAll env d w c) = ch_IsSaved c" "ch_name (ch_SendToAll env d w c) = ch_name c" "ch_Team (ch_SendToAll env d w c) = ch_Team c"
  "ch_players (ch_SendToAllButOne env d w c) = ch_players c" "ch_banned (ch_SendToAllButOne env d w c) = ch_banned c" "ch_ownerGUID (ch_SendToAllButOne env d w c) = ch_ownerGUID c" "ch_ownership (ch_SendToAllButOne env d w c) = ch_ownership c" "ch_password (ch_SendToAllButOne env d w c) = ch_password c" "ch_announce (ch_SendToAllButOne env d w c) = ch_announce c" "ch_channelId (ch_SendToAllButOne env d w c) = ch_channelId c" "ch_IsSaved (ch_SendToAllButOne env d w c) = ch_IsSaved c" "ch_name (ch_SendToAllButOne env d w c) = ch_name c" "ch_Team (ch_SendToAllButOne env d w c) = ch_Team c"
  "ch_players (ch_UpdateChannelInDB c) = ch_players c" "ch_banned (ch_UpdateChannelInDB c) = ch_banned c" "ch_ownerGUID (ch_UpdateChannelInDB c) = ch_ownerGUID c" "ch_ownership (ch_UpdateChannelInDB c) = ch_ownership c" "ch_password (ch_UpdateChannelInDB c) = ch_password c" "ch_announce (ch_UpdateChannelInDB c) = ch_announce c" "ch_channelId (ch_UpdateChannelInDB c) = ch_channelId c" "ch_IsSaved (ch_UpdateChannelInDB c) = ch_IsSaved c" "ch_name (ch_UpdateChannelInDB c) = ch_name c" "ch_Team (ch_UpdateChannelInDB c) = ch_Team c"
  "ch_players (ch_UpdateChannelUseageInDB c) = ch_players c" "ch_banned (ch_UpdateChannelUseageInDB c) = ch_banned c" "ch_ownerGUID (ch_UpdateChannelUseageInDB c) = ch_ownerGUID c" "ch_ownership (ch_UpdateChannelUseageInDB c) = ch_ownership c" "ch_password (ch_UpdateChannelUseageInDB c) = ch_password c" "ch_announce (ch_UpdateChannelUseageInDB c) = ch_announce c" "ch_channelId (ch_UpdateChannelUseageInDB c) = ch_channelId c" "ch_IsSaved (ch_UpdateChannelUseageInDB c) = ch_IsSaved c" "ch_name (ch_UpdateChannelUseageInDB c) = ch_name c" "ch_Team (ch_UpdateChannelUseageInDB c) = ch_Team c"
  by (simp_all add: ch_emit_def ch_SendToOne_def ch_SendToAll_def ch_SendToAllButOne_def ch_UpdateChannelInDB_def ch_UpdateChannelUseageInDB_def)

lemma frame_notify [simp]:
  "ch_players (ch_notify_one env n w c) = ch_players c" "ch_banned (ch_notify_one env n w c) = ch_banned c" "ch_ownerGUID (ch_notify_one env n w c) = ch_ownerGUID c" "ch_ownership (ch_notify_one env n w c) = ch_ownership c" "ch_password (ch_notify_one env n w c) = ch_password c" "ch_announce (ch_notify_one env n w c) = ch_announce c" "ch_channelId (ch_notify_one env n w c) = ch_channelId c" "ch_IsSaved (ch_notify_one env n w c) = ch_IsSaved c" "ch_name (ch_notify_one env n w c) = ch_name c" "ch_Team (ch_notify_one env n w c) = ch_Team c"
  "ch_players (ch_notify_all env n c) = ch_players c" "ch_banned (ch_notify_all env n c) = ch_banned c" "ch_ownerGUID (ch_notify_all env n c) = ch_ownerGUID c" "ch_ownership (ch_notify_all env n c) = ch_ownership c" "ch_password (ch_notify_all env n c) = ch_password c" "ch_announce (ch_notify_all env n c) = ch_announce c" "ch_channelId (ch_notify_all env n c) = ch_channelId c" "ch_IsSaved (ch_notify_all env n c) = ch_IsSaved c" "ch_name (ch_notify_all env n c) = ch_name c" "ch_Team (ch_notify_all env n c) = ch_Team c"
  "ch_players (ch_JoinNotify env g c) = ch_players c" "ch_banned (ch_JoinNotify env g c) = ch_banned c" "ch_ownerGUID (ch_JoinNotify env g c) = ch_ownerGUID c" "ch_ownership (ch_JoinNotify env g c) = ch_ownership c" "ch_password (ch_JoinNotify env g c) = ch_password c" "ch_announce (ch_JoinNotify env g c) = ch_announce c" "ch_channelId (ch_JoinNotify env g c) = ch_channelId c" "ch_IsSaved (ch_JoinNotify env g c) = ch_IsSaved c" "ch_name (ch_JoinNotify env g c) = ch_name c" "ch_Team (ch_JoinNotify env g c) = ch_Team c"
  "ch_players (ch_LeaveNotify env g c) = ch_players c" "ch_banned (ch_LeaveNotify env g c) = ch_banned c" "ch_ownerGUID (ch_LeaveNotify env g c) = ch_ownerGUID c" "ch_ownership (ch_LeaveNotify env g c) = ch_ownership c" "ch_password (ch_LeaveNotify env g c) = ch_password c" "ch_announce (ch_LeaveNotify env g c) = ch_announce c" "ch_channelId (ch_LeaveNotify env g c) = ch_channelId c" "ch_IsSaved (ch_LeaveNotify env g c) = ch_IsSaved c" "ch_name (ch_LeaveNotify env g c) = ch_name c" "ch_Team (ch_LeaveNotify env g c) = ch_Team c"
  by (simp_all add: ch_notify_one_def ch_notify_all_def ch_JoinNotify_def Let_def ch_LeaveNotify_def)

lemma frame_IsOn: "ch_players c' = ch_players c \<Longrightarrow> ch_IsOn g c' = ch_IsOn g c"
  by (simp add: ch_IsOn_def)

lemma ch_modify_simps [simp]:
  "ch_banned (ch_modify g f c) = ch_banned c" "ch_ownerGUID (ch_modify g f c) = ch_ownerGUID c"
  "ch_ownership (ch_modify g f c) = ch_ownership c" "ch_events (ch_modify g f c) = ch_events c"
  "om_find k (ch_players (ch_modify g f c)) = (if k = g then Some (f (ch_at g c)) else om_find k (ch_players c))"
  by (simp_all add: ch_modify_def)

lemma ch_modify_ok [simp]: "om_ok (ch_players c) \<Longrightarrow> om_ok (ch_players (ch_modify g f c))"
  by (simp add: ch_modify_def)

section \<open>Invariant\<close>

definition ch_inv :: "channel \<Rightarrow> bool" where
  "ch_inv c \<longleftrightarrow> om_ok (ch_players c) \<and> ss_ok (ch_banned c)
     \<and> (\<forall>g p. om_find g (ch_players c) = Some p \<and> pi_IsOwner p \<longrightarrow> g = ch_ownerGUID c \<and> g \<noteq> 0)"

lemma ch_inv_frame:
  "ch_players c' = ch_players c \<Longrightarrow> ch_banned c' = ch_banned c \<Longrightarrow> ch_ownerGUID c' = ch_ownerGUID c \<Longrightarrow>
   ch_inv c' = ch_inv c"
  by (simp add: ch_inv_def)

lemma ch_inv_send [simp]:
  "ch_inv (ch_emit e c) = ch_inv c" "ch_inv (ch_notify_one env n w c) = ch_inv c"
  "ch_inv (ch_notify_all env n c) = ch_inv c" "ch_inv (ch_UpdateChannelInDB c) = ch_inv c"
  "ch_inv (ch_UpdateChannelUseageInDB c) = ch_inv c" "ch_inv (ch_JoinNotify env g c) = ch_inv c"
  "ch_inv (ch_LeaveNotify env g c) = ch_inv c" "ch_inv (ch_SendToOne env d w c) = ch_inv c"
  "ch_inv (ch_SendToAll env d w c) = ch_inv c"
  by (rule ch_inv_frame; simp)+

lemma ch_inv_upd [simp]:
  "ch_inv (c\<lparr>ch_password := pw\<rparr>) = ch_inv c" "ch_inv (c\<lparr>ch_announce := b\<rparr>) = ch_inv c"
  by (simp_all add: ch_inv_def)

lemma ch_at_find: "om_find g (ch_players c) = Some p \<Longrightarrow> ch_at g c = p"
  by (simp add: ch_at_def)

lemma ch_inv_modify:
  assumes "ch_inv c" and "\<And>p. pi_IsOwner (f p) = pi_IsOwner p"
  shows "ch_inv (ch_modify g f c)"
  using assms by (auto simp: ch_inv_def ch_at_def split: option.splits if_splits)

lemma ch_inv_erase: "ch_inv c \<Longrightarrow> ch_inv (c\<lparr>ch_players := om_erase g (ch_players c)\<rparr>)"
  by (auto simp: ch_inv_def split: if_splits)

lemma ch_inv_bans:
  "ch_inv c \<Longrightarrow> ch_inv (c\<lparr>ch_banned := ss_insert g (ch_banned c)\<rparr>)"
  "ch_inv c \<Longrightarrow> ch_inv (c\<lparr>ch_banned := ss_erase g (ch_banned c)\<rparr>)"
  by (simp_all add: ch_inv_def)

lemma ch_SetOwner_effect:
  assumes "ch_inv c"
  shows "ch_inv (ch_SetOwner env g ex c)" "ch_ownerGUID (ch_SetOwner env g ex c) = g"
    "g \<noteq> 0 \<Longrightarrow> \<exists>p. om_find g (ch_players (ch_SetOwner env g ex c)) = Some p \<and> pi_IsOwner p \<and> pi_IsModerator p
       \<and> pi_player p = pi_player (ch_at g c)"
    "ch_IsOn k (ch_SetOwner env g ex c) \<longleftrightarrow> ch_IsOn k c \<or> k = g \<and> g \<noteq> 0"
    "ch_banned (ch_SetOwner env g ex c) = ch_banned c"
    "om_find k (ch_players (ch_SetOwner env g ex c)) = Some p \<Longrightarrow> pi_player p = pi_player (ch_at k c)"
    "ch_password (ch_SetOwner env g ex c) = ch_password c"
proof -
  define c1 where "c1 = (if ch_ownerGUID c \<noteq> 0 \<and> ch_IsOn (ch_ownerGUID c) c
    then ch_modify (ch_ownerGUID c) (pi_SetOwner False) c else c)"
  define c2 where "c2 = c1\<lparr>ch_ownerGUID := g\<rparr>"
  define c3 where "c3 = ch_modify g (pi_SetOwner True) (ch_modify g (pi_SetModerator True) c2)"
  have p1: "\<not> pi_IsOwner p" if "om_find k (ch_players c1) = Some p" for k p
    using that assms by (auto simp: c1_def ch_inv_def ch_IsOn_def split: if_splits)
  have on1: "ch_IsOn k c1 = ch_IsOn k c" for k
    by (auto simp: c1_def ch_IsOn_def)
  have pl1: "pi_player (ch_at k c1) = pi_player (ch_at k c)" for k
    by (auto simp: c1_def ch_at_def ch_IsOn_def split: option.splits)
  have ok1: "om_ok (ch_players c1)" "ss_ok (ch_banned c1)" "ch_banned c1 = ch_banned c"
    using assms by (simp_all add: c1_def ch_inv_def)
  have c2: "ch_players c2 = ch_players c1" "ch_banned c2 = ch_banned c1" "ch_ownerGUID c2 = g" "ch_at k c2 = ch_at k c1" for k
    by (simp_all add: c2_def ch_at_def)
  have inv2: "ch_inv c2" using p1 ok1 c2 by (auto simp: ch_inv_def)
  have res: "ch_SetOwner env g ex c = (if g = 0 then c2 else ch_UpdateChannelInDB
      (let c4 = ch_notify_all env (NModeChange g (ch_GetPlayerFlags g c2)) c3
       in if ex then ch_notify_all env (NOwnerChanged g) c4 else c4))"
    unfolding c1_def c2_def c3_def ch_SetOwner_def Let_def by (rule refl)
  have inv3: "ch_inv c3" if "g \<noteq> 0"
    using that p1 ok1 c2 by (auto simp: ch_inv_def c3_def split: if_splits)
  have c3: "ch_players (ch_SetOwner env g ex c) = ch_players (if g = 0 then c2 else c3)"
    "ch_banned (ch_SetOwner env g ex c) = ch_banned (if g = 0 then c2 else c3)"
    "ch_ownerGUID (ch_SetOwner env g ex c) = g"
    using c2 unfolding res by (simp_all add: Let_def c3_def)
  show "ch_ownerGUID (ch_SetOwner env g ex c) = g" by (rule c3(3))
  show "ch_inv (ch_SetOwner env g ex c)"
    using inv2 inv3 c3 c2(3) ch_inv_frame [of "ch_SetOwner env g ex c" "if g = 0 then c2 else c3"]
    by (auto simp: c3_def)
  show "ch_banned (ch_SetOwner env g ex c) = ch_banned c" using c3(2) ok1 c2 by (simp add: c3_def)
  show "ch_IsOn k (ch_SetOwner env g ex c) \<longleftrightarrow> ch_IsOn k c \<or> k = g \<and> g \<noteq> 0"
    using on1 [of k] c3(1) c2(1) by (auto simp: ch_IsOn_def c3_def)
  show "\<exists>p. om_find g (ch_players (ch_SetOwner env g ex c)) = Some p \<and> pi_IsOwner p \<and> pi_IsModerator p
       \<and> pi_player p = pi_player (ch_at g c)" if "g \<noteq> 0"
    using that c3(1) c2 pl1 [of g] by (simp add: c3_def) (simp add: ch_at_def c3_def)
  show "pi_player p = pi_player (ch_at k c)" if "om_find k (ch_players (ch_SetOwner env g ex c)) = Some p"
    using that pl1 [of k] unfolding c3(1)
    by (auto simp: c3_def c2 ch_at_def [of k] ch_at_def [of g] split: if_splits option.splits)
  show "ch_password (ch_SetOwner env g ex c) = ch_password c"
    unfolding res by (simp add: Let_def c3_def c2_def c1_def ch_modify_def)
qed

lemma ch_inv_SetMod: "ch_inv c \<Longrightarrow> ch_inv (ch_SetModerator env g b c)"
  by (auto simp: ch_SetModerator_def Let_def intro!: ch_inv_modify)

lemma ch_inv_SetMute: "ch_inv c \<Longrightarrow> ch_inv (ch_SetMute env g b c)"
  by (auto simp: ch_SetMute_def Let_def intro!: ch_inv_modify)

text \<open>What a successful join does before ownership is settled.\<close>

definition ch_admitted :: "ch_env \<Rightarrow> player \<Rightarrow> bytes \<Rightarrow> channel \<Rightarrow> bool" where
  "ch_admitted env player pass c \<longleftrightarrow>
     \<not> ch_IsOn (pl_guid player) c \<and> \<not> ch_IsBanned (pl_guid player) c
     \<and> (ch_password c = [] \<or> pass = ch_password c) \<and> \<not> ch_lfg_refused env player c"

lemma ch_JoinChannel_refused:
  assumes "\<not> ch_admitted env player pass c"
  shows "ch_players (ch_JoinChannel env player pass c) = ch_players c"
    "ch_banned (ch_JoinChannel env player pass c) = ch_banned c"
    "ch_ownerGUID (ch_JoinChannel env player pass c) = ch_ownerGUID c"
proof -
  have "\<exists>n. ch_JoinChannel env player pass c \<in> {c, ch_notify_one env n (pl_guid player) c}"
  proof (cases "ch_IsOn (pl_guid player) c")
    case True
    then show ?thesis by (auto simp: ch_JoinChannel_def Let_def)
  next
    case on: False
    show ?thesis
    proof (cases "ch_IsBanned (pl_guid player) c")
      case True
      with on show ?thesis by (auto simp: ch_JoinChannel_def)
    next
      case ban: False
      show ?thesis
      proof (cases "ch_password c \<noteq> [] \<and> pass \<noteq> ch_password c")
        case True
        with on ban show ?thesis by (auto simp: ch_JoinChannel_def)
      next
        case False
        with on ban assms have "ch_lfg_refused env player c" by (auto simp: ch_admitted_def)
        with on ban False show ?thesis by (auto simp: ch_JoinChannel_def simp del: de_Morgan_conj)
      qed
    qed
  qed
  then show "ch_players (ch_JoinChannel env player pass c) = ch_players c"
    "ch_banned (ch_JoinChannel env player pass c) = ch_banned c"
    "ch_ownerGUID (ch_JoinChannel env player pass c) = ch_ownerGUID c" by auto
qed

lemma ch_JoinChannel_admitted:
  assumes adm: "ch_admitted env player pass c" and inv: "ch_inv c"
  shows "\<exists>c5. ch_inv c5 \<and> ch_banned c5 = ch_banned c \<and> ch_ownerGUID c5 = ch_ownerGUID c
    \<and> ch_players c5 = om_set (pl_guid player) \<lparr>pi_player = pl_guid player, pi_flags = 0\<rparr> (ch_players c)
    \<and> ch_JoinChannel env player pass c =
        (if \<not> ch_IsConstant c \<and> ch_ownerGUID c = 0 \<and> ch_ownership c
         then ch_modify (pl_guid player) (pi_SetModerator True)
                (ch_SetOwner env (pl_guid player) (length (ch_players c5) > 1) c5)
         else c5)"
proof -
  let ?g = "pl_guid player"
  define c2 where "c2 = (let c1 = ch_emit (PlayerJoinedChannel ?g) c in
    if ch_announce c1 \<and> \<not> pl_HasPermission player RBAC_PERM_SILENTLY_JOIN_CHANNEL
    then ch_notify_all env (NJoined ?g) c1 else c1)"
  define c3 where "c3 = c2\<lparr>ch_players := om_set ?g \<lparr>pi_player = ?g, pi_flags = 0\<rparr> (ch_players c2)\<rparr>"
  define c4 where "c4 = ch_JoinNotify env ?g (ch_notify_one env NYouJoined ?g c3)"
  define c5 where "c5 = (if ch_IsConstant c4 then c4 else
    if ch_players c4 \<noteq> [] then ch_UpdateChannelUseageInDB c4 else c4)"
  have c2: "ch_players c2 = ch_players c" "ch_banned c2 = ch_banned c" "ch_ownerGUID c2 = ch_ownerGUID c"
    "ch_channelId c2 = ch_channelId c" "ch_ownership c2 = ch_ownership c"
    by (simp_all add: c2_def Let_def)
  have c5: "ch_players c5 = om_set ?g \<lparr>pi_player = ?g, pi_flags = 0\<rparr> (ch_players c)"
    "ch_banned c5 = ch_banned c" "ch_ownerGUID c5 = ch_ownerGUID c" "ch_channelId c5 = ch_channelId c"
    "ch_ownership c5 = ch_ownership c"
    by (simp_all add: c5_def c4_def c3_def c2)
  have inv5: "ch_inv c5" using inv by (auto simp: ch_inv_def c5 split: if_splits)
  have const: "ch_IsConstant c4 = ch_IsConstant c"
    by (simp add: ch_IsConstant_def c4_def c3_def c2)
  have no: "ch_IsOn ?g c = False" "ch_IsBanned ?g c = False" "(ch_password c \<noteq> [] \<and> pass \<noteq> ch_password c) = False"
    "ch_lfg_refused env player c = False"
    using adm by (auto simp: ch_admitted_def)
  have "ch_JoinChannel env player pass c = (if ch_IsConstant c4 then c4 else
      let c5 = (if ch_players c4 \<noteq> [] then ch_UpdateChannelUseageInDB c4 else c4)
      in if ch_ownerGUID c5 = 0 \<and> ch_ownership c5
         then ch_modify ?g (pi_SetModerator True) (ch_SetOwner env ?g (length (ch_players c5) > 1) c5)
         else c5)"
    unfolding ch_JoinChannel_def Let_def no if_False c4_def c3_def c2_def by (rule refl)
  also have "\<dots> = (if ch_IsConstant c4 then c5 else if ch_ownerGUID c5 = 0 \<and> ch_ownership c5
         then ch_modify ?g (pi_SetModerator True) (ch_SetOwner env ?g (length (ch_players c5) > 1) c5)
         else c5)"
    unfolding Let_def c5_def by (cases "ch_IsConstant c4") (simp_all only: if_True if_False)
  also have "\<dots> = (if \<not> ch_IsConstant c \<and> ch_ownerGUID c = 0 \<and> ch_ownership c
         then ch_modify ?g (pi_SetModerator True) (ch_SetOwner env ?g (length (ch_players c5) > 1) c5) else c5)"
    by (cases "ch_IsConstant c") (simp_all only: const c5(3,5) if_True if_False not_True_eq_False not_False_eq_True simp_thms)
  finally have "ch_JoinChannel env player pass c = (if \<not> ch_IsConstant c \<and> ch_ownerGUID c = 0 \<and> ch_ownership c
         then ch_modify ?g (pi_SetModerator True) (ch_SetOwner env ?g (length (ch_players c5) > 1) c5) else c5)" .
  then show ?thesis using inv5 c5 by blast
qed

lemma ch_inv_Join: "ch_inv c \<Longrightarrow> ch_inv (ch_JoinChannel env player pass c)"
proof (cases "ch_admitted env player pass c")
  case False
  assume "ch_inv c"
  with ch_JoinChannel_refused [OF False] ch_inv_frame show ?thesis by metis
next
  case True
  assume inv: "ch_inv c"
  from ch_JoinChannel_admitted [OF True inv] obtain c5 where "ch_inv c5"
    "ch_JoinChannel env player pass c =
        (if \<not> ch_IsConstant c \<and> ch_ownerGUID c = 0 \<and> ch_ownership c
         then ch_modify (pl_guid player) (pi_SetModerator True)
                (ch_SetOwner env (pl_guid player) (length (ch_players c5) > 1) c5)
         else c5)" by blast
  then show ?thesis using ch_SetOwner_effect(1) by (auto intro!: ch_inv_modify)
qed

text \<open>What leaving does before the succession of the owner.\<close>

lemma ch_inv_fields:
  assumes "ch_inv c" and "ch_players c' = om_erase g (ch_players c)" and "ss_ok (ch_banned c')"
    and "ch_ownerGUID c' = ch_ownerGUID c"
  shows "ch_inv c'"
  using assms by (auto simp: ch_inv_def split: if_splits)

lemma ch_LeaveChannel_on:
  assumes on: "ch_IsOn (pl_guid player) c" and inv: "ch_inv c"
  shows "\<exists>c5. ch_inv c5 \<and> ch_banned c5 = ch_banned c \<and> ch_ownerGUID c5 = ch_ownerGUID c
    \<and> ch_players c5 = om_erase (pl_guid player) (ch_players c)
    \<and> ch_LeaveChannel env player send c =
        (if \<not> ch_IsConstant c \<and> pi_IsOwner (ch_at (pl_guid player) c) \<and> ch_ownership c \<and> ch_players c5 \<noteq> []
         then let newowner = pi_player (snd (hd (ch_players c5)))
              in ch_SetOwner env newowner True (ch_modify newowner (pi_SetModerator True) c5)
         else c5)"
proof -
  let ?g = "pl_guid player"
  define c1 where "c1 = (if send then ch_emit (PlayerLeftChannel ?g) (ch_notify_one env NYouLeft ?g c) else c)"
  define c2 where "c2 = c1\<lparr>ch_players := om_erase ?g (ch_players c1)\<rparr>"
  define c3 where "c3 = (if ch_announce c2 \<and> \<not> pl_HasPermission player RBAC_PERM_SILENTLY_JOIN_CHANNEL
    then ch_notify_all env (NLeft ?g) c2 else c2)"
  define c4 where "c4 = ch_LeaveNotify env ?g c3"
  define c5 where "c5 = (if ch_IsConstant c4 then c4 else ch_UpdateChannelUseageInDB c4)"
  have c1: "ch_players c1 = ch_players c" "ch_banned c1 = ch_banned c" "ch_ownerGUID c1 = ch_ownerGUID c"
    "ch_channelId c1 = ch_channelId c" "ch_ownership c1 = ch_ownership c"
    by (simp_all add: c1_def)
  have c5: "ch_players c5 = om_erase ?g (ch_players c)" "ch_banned c5 = ch_banned c"
    "ch_ownerGUID c5 = ch_ownerGUID c" "ch_channelId c5 = ch_channelId c" "ch_ownership c5 = ch_ownership c"
    by (simp_all add: c5_def c4_def c3_def c2_def c1)
  have inv5: "ch_inv c5" using ch_inv_fields [OF inv c5(1) _ c5(3)] inv c5(2) by (simp add: ch_inv_def)
  have const: "ch_IsConstant c4 = ch_IsConstant c"
    by (simp add: ch_IsConstant_def c4_def c3_def c2_def c1)
  have at: "ch_at ?g c1 = ch_at ?g c" by (simp add: ch_at_def c1)
  have "ch_LeaveChannel env player send c = (if ch_IsConstant c4 then c4 else
      let c5 = ch_UpdateChannelUseageInDB c4
      in if pi_IsOwner (ch_at ?g c1) \<and> ch_ownership c5 \<and> ch_players c5 \<noteq> []
         then let newowner = pi_player (snd (hd (ch_players c5)))
              in ch_SetOwner env newowner True (ch_modify newowner (pi_SetModerator True) c5)
         else c5)"
    using on unfolding ch_LeaveChannel_def c1_def c2_def c3_def c4_def Let_def by (simp only: if_False not_True_eq_False)
  also have "\<dots> = (if \<not> ch_IsConstant c4 \<and> pi_IsOwner (ch_at ?g c1) \<and> ch_ownership c5 \<and> ch_players c5 \<noteq> []
         then let newowner = pi_player (snd (hd (ch_players c5)))
              in ch_SetOwner env newowner True (ch_modify newowner (pi_SetModerator True) c5)
         else c5)"
    unfolding Let_def c5_def by (cases "ch_IsConstant c4") (simp_all only: if_True if_False not_True_eq_False not_False_eq_True simp_thms)
  finally have "ch_LeaveChannel env player send c = \<dots>" .
  then show ?thesis using inv5 c5 unfolding const at c5(5) by blast
qed

lemma ch_inv_Leave:
  assumes "ch_inv c"
  shows "ch_inv (ch_LeaveChannel env player send c)"
proof (cases "ch_IsOn (pl_guid player) c")
  case False
  with assms show ?thesis by (simp add: ch_LeaveChannel_def)
next
  case True
  from ch_LeaveChannel_on [OF True assms, of env send] show ?thesis
    by (auto simp: Let_def intro!: ch_SetOwner_effect(1) ch_inv_modify)
qed

text \<open>A kick or a ban: the player it names, when it is carried out, and what it does then.\<close>

definition ch_victim :: "ch_env \<Rightarrow> bytes \<Rightarrow> uint64" where
  "ch_victim env badname = (case ce_FindPlayerByName env badname of None \<Rightarrow> 0 | Some p \<Rightarrow> pl_guid p)"

definition ch_may_kick :: "player \<Rightarrow> uint64 \<Rightarrow> channel \<Rightarrow> bool" where
  "ch_may_kick player victim c \<longleftrightarrow>
     ch_refuse_moderation player c = None \<and> victim \<noteq> 0 \<and> ch_IsOn victim c
     \<and> (ch_ownerGUID c = victim \<longrightarrow>
          pl_guid player = victim \<or> pl_HasPermission player RBAC_PERM_CHANGE_CHANNEL_NOT_MODERATOR)"

lemma ch_KickOrBan_refused:
  assumes "\<not> ch_may_kick player (ch_victim env badname) c"
  shows "\<exists>n. ch_KickOrBan env player badname ban c = ch_notify_one env n (pl_guid player) c"
proof (cases "ch_refuse_moderation player c")
  case (Some n)
  then show ?thesis by (auto simp: ch_KickOrBan_def Let_def)
next
  case None
  have eq: "ch_KickOrBan env player badname ban c = (if ch_victim env badname = 0 \<or> \<not> ch_IsOn (ch_victim env badname) c
      then ch_notify_one env (NPlayerNotFound badname) (pl_guid player) c
      else ch_notify_one env NNotOwner (pl_guid player) c)"
    using None assms unfolding ch_may_kick_def ch_KickOrBan_def Let_def ch_victim_def [symmetric] by auto
  then show ?thesis by auto
qed

lemma ch_KickOrBan_done:
  assumes may: "ch_may_kick player (ch_victim env badname) c"
  shows "\<exists>c2. ch_players c2 = om_erase (ch_victim env badname) (ch_players c)
    \<and> ch_banned c2 = (if ban \<and> \<not> ch_IsBanned (ch_victim env badname) c
                      then ss_insert (ch_victim env badname) (ch_banned c) else ch_banned c)
    \<and> ch_ownerGUID c2 = ch_ownerGUID c \<and> ch_password c2 = ch_password c
    \<and> PlayerLeftChannel (ch_victim env badname) \<in> set (ch_events c2)
    \<and> ch_KickOrBan env player badname ban c =
        (if ch_ownerGUID c = ch_victim env badname \<and> ch_ownership c \<and> ch_players c2 \<noteq> []
         then ch_SetOwner env (pl_guid player) True (ch_modify (pl_guid player) (pi_SetModerator True) c2)
         else c2)"
proof -
  let ?v = "ch_victim env badname" and ?g = "pl_guid player"
  define c1 where "c1 = (if ban \<and> \<not> ch_IsBanned ?v c
      then let b = ch_UpdateChannelInDB (c\<lparr>ch_banned := ss_insert ?v (ch_banned c)\<rparr>)
           in if \<not> pl_HasPermission player RBAC_PERM_SILENTLY_JOIN_CHANNEL then ch_notify_all env (NPlayerBanned ?v ?g) b else b
      else if \<not> pl_HasPermission player RBAC_PERM_SILENTLY_JOIN_CHANNEL then ch_notify_all env (NPlayerKicked ?v ?g) c
      else c)"
  define c2 where "c2 = ch_emit (PlayerLeftChannel ?v) (c1\<lparr>ch_players := om_erase ?v (ch_players c1)\<rparr>)"
  have c1: "ch_players c1 = ch_players c" "ch_ownerGUID c1 = ch_ownerGUID c" "ch_password c1 = ch_password c"
    "ch_ownership c1 = ch_ownership c"
    "ch_banned c1 = (if ban \<and> \<not> ch_IsBanned ?v c then ss_insert ?v (ch_banned c) else ch_banned c)"
    by (simp_all add: c1_def Let_def)
  have c2: "ch_players c2 = om_erase ?v (ch_players c)" "ch_banned c2 = ch_banned c1" "ch_ownerGUID c2 = ch_ownerGUID c"
    "ch_password c2 = ch_password c" "PlayerLeftChannel ?v \<in> set (ch_events c2)" "ch_ownership c2 = ch_ownership c"
    by (simp_all add: c2_def c1 ch_emit_def)
  have no: "ch_refuse_moderation player c = None" "(?v = 0 \<or> \<not> ch_IsOn ?v c) = False"
    "(\<not> pl_HasPermission player RBAC_PERM_CHANGE_CHANNEL_NOT_MODERATOR \<and> ch_ownerGUID c = ?v \<and> ?g \<noteq> ch_ownerGUID c) = False"
    using may by (auto simp: ch_may_kick_def)
  have "ch_KickOrBan env player badname ban c = (if ch_ownerGUID c = ?v \<and> ch_ownership c2 \<and> ch_players c2 \<noteq> []
      then ch_SetOwner env ?g True (ch_modify ?g (pi_SetModerator True) c2) else c2)"
    unfolding ch_KickOrBan_def Let_def ch_victim_def [symmetric] no if_False option.case c2_def c1_def by (rule refl)
  then show ?thesis using c2 c1(5) by metis
qed

lemma ch_inv_Kick:
  assumes "ch_inv c"
  shows "ch_inv (ch_KickOrBan env player badname ban c)"
proof (cases "ch_may_kick player (ch_victim env badname) c")
  case False
  from ch_KickOrBan_refused [OF this, of ban] assms show ?thesis by auto
next
  case True
  from ch_KickOrBan_done [OF this, of ban] obtain c2 where c2:
    "ch_players c2 = om_erase (ch_victim env badname) (ch_players c)" "ch_ownerGUID c2 = ch_ownerGUID c"
    "ch_banned c2 = (if ban \<and> \<not> ch_IsBanned (ch_victim env badname) c
                      then ss_insert (ch_victim env badname) (ch_banned c) else ch_banned c)"
    and k: "ch_KickOrBan env player badname ban c =
        (if ch_ownerGUID c = ch_victim env badname \<and> ch_ownership c \<and> ch_players c2 \<noteq> []
         then ch_SetOwner env (pl_guid player) True (ch_modify (pl_guid player) (pi_SetModerator True) c2)
         else c2)" by blast
  have "ch_inv c2" using ch_inv_fields [OF assms c2(1) _ c2(2)] c2(3) assms by (simp add: ch_inv_def ss_ok_insert)
  then show ?thesis unfolding k by (auto intro!: ch_SetOwner_effect(1) ch_inv_modify)
qed

lemma ch_inv_ops:
  assumes "ch_inv c"
  shows "ch_inv (ch_UnBan env player badname c)" "ch_inv (ch_Password env player pass c)"
    "ch_inv (ch_SetMode env player badname md state c)" "ch_inv (ch_SetOwner_by env player badname c)"
    "ch_inv (ch_SendWhoOwner env g c)" "ch_inv (ch_List env player c)" "ch_inv (ch_Announce env player c)"
    "ch_inv (ch_Say env g what lang c)" "ch_inv (ch_Invite env player badname c)"
    "ch_inv (ch_SetPassword pass c)" "ch_inv (ch_SetAnnounce state c)" "ch_inv (ch_SetOwnership state c)"
  using assms
  by (auto simp: ch_UnBan_def ch_Password_def ch_SetMode_def ch_SetOwner_by_def ch_SendWhoOwner_def ch_List_def
      ch_Announce_def ch_Say_def ch_Invite_def ch_SetPassword_def ch_SetAnnounce_def ch_SetOwnership_def Let_def
      ch_inv_bans ch_inv_SetMod ch_inv_SetMute split: option.split
      intro!: ch_SetOwner_effect(1) ch_inv_modify)
    (simp_all add: ch_inv_def)

lemma ss_ok_load_bans: "ss_ok bans \<Longrightarrow> ss_ok (ch_load_bans ts bans)"
  by (induction ts bans rule: ch_load_bans.induct) (auto simp: Let_def)

lemma ch_inv_new: "ch_inv (ch_new env name i t)"
  by (auto simp: ch_inv_def ch_new_def Let_def ch_emit_def ss_ok_load_bans split: option.split)

section \<open>Members as they joined\<close>

text \<open>Every entry of the map carries its own key. The kick of oneself is the only command that can break it.\<close>

definition ch_ids :: "channel \<Rightarrow> bool" where
  "ch_ids c \<longleftrightarrow> (\<forall>g p. om_find g (ch_players c) = Some p \<longrightarrow> pi_player p = g \<and> g \<noteq> 0)"

lemma ch_ids_frame: "ch_players c' = ch_players c \<Longrightarrow> ch_ids c' = ch_ids c"
  by (simp add: ch_ids_def)

lemma ch_ids_send [simp]:
  "ch_ids (ch_emit e c) = ch_ids c" "ch_ids (ch_notify_one env n w c) = ch_ids c"
  "ch_ids (ch_notify_all env n c) = ch_ids c" "ch_ids (ch_UpdateChannelInDB c) = ch_ids c"
  "ch_ids (ch_SendToOne env d w c) = ch_ids c" "ch_ids (ch_SendToAll env d w c) = ch_ids c"
  by (rule ch_ids_frame; simp)+

lemma ch_ids_modify:
  assumes "ch_ids c" and "ch_IsOn g c" and "\<And>p. pi_player (f p) = pi_player p"
  shows "ch_ids (ch_modify g f c)"
  using assms by (auto simp: ch_ids_def ch_at_def ch_IsOn_def split: option.splits if_splits)

lemma ch_IsOn_modify [simp]: "ch_IsOn k (ch_modify g f c) \<longleftrightarrow> ch_IsOn k c \<or> k = g"
  by (auto simp: ch_IsOn_def)

lemma ch_ids_SetOwner:
  assumes "ch_ids c" and "ch_inv c" and "ch_IsOn g c"
  shows "ch_ids (ch_SetOwner env g ex c)"
  unfolding ch_ids_def
proof (intro allI impI)
  fix k p assume f: "om_find k (ch_players (ch_SetOwner env g ex c)) = Some p"
  then have "ch_IsOn k (ch_SetOwner env g ex c)" by (simp add: ch_IsOn_def)
  with ch_SetOwner_effect(4) [OF assms(2)] assms(3) have "ch_IsOn k c" by auto
  with ch_SetOwner_effect(6) [OF assms(2) f] assms(1) show "pi_player p = k \<and> k \<noteq> 0"
    by (auto simp: ch_ids_def ch_IsOn_def ch_at_def)
qed

lemma ch_ids_SetOwner_modify:
  assumes "ch_ids c" and "ch_inv c" and "ch_IsOn g c"
  shows "ch_ids (ch_SetOwner env g ex (ch_modify g (pi_SetModerator True) c))"
  using assms by (auto intro!: ch_ids_SetOwner ch_ids_modify ch_inv_modify)

lemma ch_ids_Join:
  assumes "ch_ids c" and "ch_inv c" and "pl_guid player \<noteq> 0"
  shows "ch_ids (ch_JoinChannel env player pass c)"
proof (cases "ch_admitted env player pass c")
  case False
  with ch_JoinChannel_refused(1) [OF this] assms(1) show ?thesis by (simp add: ch_ids_def)
next
  case True
  from ch_JoinChannel_admitted [OF this assms(2)] obtain c5 where c5: "ch_inv c5"
    "ch_players c5 = om_set (pl_guid player) \<lparr>pi_player = pl_guid player, pi_flags = 0\<rparr> (ch_players c)"
    "ch_JoinChannel env player pass c =
        (if \<not> ch_IsConstant c \<and> ch_ownerGUID c = 0 \<and> ch_ownership c
         then ch_modify (pl_guid player) (pi_SetModerator True)
                (ch_SetOwner env (pl_guid player) (length (ch_players c5) > 1) c5)
         else c5)" by blast
  have ids5: "ch_ids c5" using assms(1,3) by (auto simp: ch_ids_def c5(2) split: if_splits)
  have on5: "ch_IsOn (pl_guid player) c5" by (simp add: ch_IsOn_def c5(2))
  show ?thesis unfolding c5(3)
    using ids5 on5 c5(1) ch_SetOwner_effect(4) [OF c5(1)] by (auto intro!: ch_ids_modify ch_ids_SetOwner)
qed

lemma ch_ids_Leave:
  assumes "ch_ids c" and "ch_inv c"
  shows "ch_ids (ch_LeaveChannel env player send c)"
proof (cases "ch_IsOn (pl_guid player) c")
  case False
  with assms show ?thesis by (simp add: ch_LeaveChannel_def)
next
  case True
  from ch_LeaveChannel_on [OF this assms(2), of env send] obtain c5 where c5: "ch_inv c5"
    "ch_players c5 = om_erase (pl_guid player) (ch_players c)"
    "ch_LeaveChannel env player send c =
        (if \<not> ch_IsConstant c \<and> pi_IsOwner (ch_at (pl_guid player) c) \<and> ch_ownership c \<and> ch_players c5 \<noteq> []
         then let newowner = pi_player (snd (hd (ch_players c5)))
              in ch_SetOwner env newowner True (ch_modify newowner (pi_SetModerator True) c5)
         else c5)" by blast
  have ids5: "ch_ids c5" using assms(1) by (auto simp: ch_ids_def c5(2) split: if_splits)
  have "ch_IsOn (pi_player (snd (hd (ch_players c5)))) c5" if "ch_players c5 \<noteq> []"
    using that ids5 by (cases "ch_players c5") (auto simp: ch_ids_def ch_IsOn_def)
  then show ?thesis unfolding c5(3) using ids5 c5(1) by (auto simp: Let_def intro!: ch_ids_SetOwner_modify)
qed

lemma ch_refuse_moderation_on: "ch_refuse_moderation player c = None \<Longrightarrow> ch_IsOn (pl_guid player) c"
  by (simp add: ch_refuse_moderation_def split: if_splits)

lemma ch_ids_Kick:
  assumes "ch_ids c" and "ch_inv c" and self: "ch_victim env badname \<noteq> pl_guid player"
  shows "ch_ids (ch_KickOrBan env player badname ban c)"
proof (cases "ch_may_kick player (ch_victim env badname) c")
  case False
  from ch_KickOrBan_refused [OF this, of ban] assms(1) show ?thesis by auto
next
  case True
  from ch_KickOrBan_done [OF this, of ban] obtain c2 where c2:
    "ch_players c2 = om_erase (ch_victim env badname) (ch_players c)" "ch_ownerGUID c2 = ch_ownerGUID c"
    "ch_banned c2 = (if ban \<and> \<not> ch_IsBanned (ch_victim env badname) c
                      then ss_insert (ch_victim env badname) (ch_banned c) else ch_banned c)"
    and k: "ch_KickOrBan env player badname ban c =
        (if ch_ownerGUID c = ch_victim env badname \<and> ch_ownership c \<and> ch_players c2 \<noteq> []
         then ch_SetOwner env (pl_guid player) True (ch_modify (pl_guid player) (pi_SetModerator True) c2)
         else c2)" by blast
  have inv2: "ch_inv c2" using ch_inv_fields [OF assms(2) c2(1) _ c2(2)] c2(3) assms(2) by (simp add: ch_inv_def)
  have ids2: "ch_ids c2" using assms(1) by (auto simp: ch_ids_def c2(1) split: if_splits)
  have "ch_IsOn (pl_guid player) c2"
    using True self ch_refuse_moderation_on [of player c] by (simp add: ch_may_kick_def ch_IsOn_def c2(1))
  then show ?thesis unfolding k using ids2 inv2 by (auto intro!: ch_ids_SetOwner_modify)
qed

lemma ch_ids_flags:
  assumes "ch_ids c" and "ch_IsOn g c"
  shows "ch_ids (ch_SetModerator env g b c)" "ch_ids (ch_SetMute env g b c)"
  using assms by (auto simp: ch_SetModerator_def ch_SetMute_def Let_def intro!: ch_ids_modify)

lemma ch_ids_ops:
  assumes "ch_ids c" and "ch_inv c"
  shows "ch_ids (ch_UnBan env player badname c)" "ch_ids (ch_Password env player pass c)"
    "ch_ids (ch_SetMode env player badname md state c)" "ch_ids (ch_SetOwner_by env player badname c)"
    "ch_ids (ch_SendWhoOwner env g c)" "ch_ids (ch_List env player c)" "ch_ids (ch_Announce env player c)"
    "ch_ids (ch_Say env g what lang c)" "ch_ids (ch_Invite env player badname c)"
    "ch_ids (ch_SetPassword pass c)" "ch_ids (ch_SetAnnounce state c)" "ch_ids (ch_SetOwnership state c)"
proof -
  have upd: "ch_ids (c\<lparr>ch_password := pass\<rparr>)" "ch_ids (c\<lparr>ch_announce := b\<rparr>)" "ch_ids (c\<lparr>ch_banned := bs\<rparr>)"
    "ch_ids (c\<lparr>ch_ownership := b\<rparr>)" for pass b bs
    using assms(1) by (simp_all add: ch_ids_def)
  show "ch_ids (ch_UnBan env player badname c)" "ch_ids (ch_Password env player pass c)"
    "ch_ids (ch_SendWhoOwner env g c)" "ch_ids (ch_List env player c)" "ch_ids (ch_Announce env player c)"
    "ch_ids (ch_Say env g what lang c)" "ch_ids (ch_Invite env player badname c)"
    "ch_ids (ch_SetPassword pass c)" "ch_ids (ch_SetAnnounce state c)" "ch_ids (ch_SetOwnership state c)"
    using assms(1) upd
    by (auto simp: ch_UnBan_def ch_Password_def ch_SendWhoOwner_def ch_List_def ch_Announce_def ch_Say_def ch_Invite_def
        ch_SetPassword_def ch_SetAnnounce_def ch_SetOwnership_def Let_def split: option.split)
  show "ch_ids (ch_SetMode env player badname md state c)"
    using assms(1) by (auto simp: ch_SetMode_def Let_def ch_can_name_def split: option.split intro!: ch_ids_flags)
  show "ch_ids (ch_SetOwner_by env player badname c)"
    using assms by (auto simp: ch_SetOwner_by_def Let_def ch_can_name_def split: option.split intro!: ch_ids_SetOwner_modify)
qed

section \<open>The life of a channel\<close>

text \<open>
  The environment may change from one command to the next; players have GUIDs other than 0.
  The flag says whether the history may hold a player kicking himself.
\<close>

inductive ch_reachable :: "bool \<Rightarrow> channel \<Rightarrow> bool" for selfkick where
  ch_start: "ch_reachable selfkick (ch_new env name i t)"
| ch_join: "ch_reachable selfkick c \<Longrightarrow> pl_guid player \<noteq> 0 \<Longrightarrow>
    ch_reachable selfkick (ch_JoinChannel env player pass c)"
| ch_leave: "ch_reachable selfkick c \<Longrightarrow> ch_reachable selfkick (ch_LeaveChannel env player send c)"
| ch_kick: "ch_reachable selfkick c \<Longrightarrow> selfkick \<or> ch_victim env badname \<noteq> pl_guid player \<Longrightarrow>
    ch_reachable selfkick (ch_KickOrBan env player badname ban c)"
| ch_unban: "ch_reachable selfkick c \<Longrightarrow> ch_reachable selfkick (ch_UnBan env player badname c)"
| ch_pass: "ch_reachable selfkick c \<Longrightarrow> ch_reachable selfkick (ch_Password env player pass c)"
| ch_mode: "ch_reachable selfkick c \<Longrightarrow> ch_reachable selfkick (ch_SetMode env player badname md state c)"
| ch_owner: "ch_reachable selfkick c \<Longrightarrow> ch_reachable selfkick (ch_SetOwner_by env player badname c)"
| ch_who: "ch_reachable selfkick c \<Longrightarrow> ch_reachable selfkick (ch_SendWhoOwner env g c)"
| ch_list: "ch_reachable selfkick c \<Longrightarrow> ch_reachable selfkick (ch_List env player c)"
| ch_announcing: "ch_reachable selfkick c \<Longrightarrow> ch_reachable selfkick (ch_Announce env player c)"
| ch_saying: "ch_reachable selfkick c \<Longrightarrow> ch_reachable selfkick (ch_Say env g what lang c)"
| ch_inviting: "ch_reachable selfkick c \<Longrightarrow> ch_reachable selfkick (ch_Invite env player badname c)"
| ch_setpw: "ch_reachable selfkick c \<Longrightarrow> ch_reachable selfkick (ch_SetPassword pass c)"
| ch_setan: "ch_reachable selfkick c \<Longrightarrow> ch_reachable selfkick (ch_SetAnnounce state c)"
| ch_setow: "ch_reachable selfkick c \<Longrightarrow> ch_reachable selfkick (ch_SetOwnership state c)"

lemma ch_reachable_inv: "ch_reachable selfkick c \<Longrightarrow> ch_inv c"
  by (induction rule: ch_reachable.induct)
    (simp_all add: ch_inv_new ch_inv_Join ch_inv_Leave ch_inv_Kick ch_inv_ops)

lemma ch_ids_new: "ch_ids (ch_new env name i t)"
  by (auto simp: ch_ids_def ch_new_def Let_def ch_emit_def split: option.split)

lemma ch_reachable_ids: "ch_reachable False c \<Longrightarrow> ch_ids c"
  by (induction rule: ch_reachable.induct)
    (simp_all add: ch_ids_new ch_ids_Join ch_ids_Leave ch_ids_Kick ch_ids_ops ch_reachable_inv)

end
