(* ===== verification/Channel_Theorems.thy ===== *)
theory Channel_Theorems
  imports Channel_Props
begin

text \<open>
  The properties of the chat channels, over the lemmas of \<open>Channel_Props\<close>, with an example
  channel on which they apply.
\<close>

section \<open>An example\<close>

definition alice :: player where
  "alice = \<lparr>pl_guid = 5, pl_name = [65], pl_team = 67, pl_security = 0, pl_HasPermission = (\<lambda>_. False),
     pl_group = False, pl_ignores = (\<lambda>_. False), pl_gmVisible = True, pl_visibleFor = (\<lambda>_. True)\<rparr>"

definition bob :: player where
  "bob = \<lparr>pl_guid = 7, pl_name = [66], pl_team = 67, pl_security = 0, pl_HasPermission = (\<lambda>_. False),
     pl_group = False, pl_ignores = (\<lambda>_. False), pl_gmVisible = True, pl_visibleFor = (\<lambda>_. True)\<rparr>"

definition town :: ch_env where
  "town = \<lparr>ce_FindPlayer = (\<lambda>g. if g = 5 then Some alice else if g = 7 then Some bob else None),
     ce_FindPlayerByName = (\<lambda>n. if n = [65] then Some alice else if n = [66] then Some bob else None),
     ce_GetPlayerNameByGUID = (\<lambda>_. None), ce_BuildChatPacket = (\<lambda>_ _ _ _ _. packet_of 0x096 []),
     ce_restrictedLfg = False, ce_twoSideInteraction = False, ce_gmLevelInWhoList = 0, ce_preserveCustom = True,
     ce_chatChannels = (\<lambda>_. None), ce_channelRow = (\<lambda>_ _. None)\<rparr>"

text \<open>A custom channel that Alice opened and Bob joined, and the channel before.\<close>

definition market0 :: channel where "market0 = ch_new town [77] 0 67"
definition market1 :: channel where "market1 = ch_JoinChannel town alice [] market0"
definition market :: channel where "market = ch_JoinChannel town bob [] market1"

lemma market_reachable: "ch_reachable sk market0" "ch_reachable sk market1" "ch_reachable sk market"
proof -
  show "ch_reachable sk market0" unfolding market0_def by (rule ch_start)
  then show "ch_reachable sk market1" unfolding market1_def by (rule ch_join) (simp add: alice_def)
  then show "ch_reachable sk market" unfolding market_def by (rule ch_join) (simp add: bob_def)
qed

lemma market_players:
  "map fst (ch_players market) = [5, 7]" "ch_ownerGUID market = 5" "ch_IsSaved market"
  "pi_flags (ch_at 5 market) = 3" "pi_flags (ch_at 7 market) = 0" "ch_ownership market" "ch_channelId market = 0"
  "ch_banned market = []"
  by code_simp+

lemma market_on: "ch_IsOn g market \<longleftrightarrow> g = 5 \<or> g = 7"
proof -
  have "ch_IsOn g market \<longleftrightarrow> g \<in> set (map fst (ch_players market))"
    unfolding ch_IsOn_def by (simp add: map_of_eq_None_iff)
  then show ?thesis by (simp add: market_players)
qed

section \<open>Ownership\<close>

text \<open>C16. In every state a channel reaches, the members are kept in strictly increasing order of
  their GUIDs, the ban list too, and at most one member has the owner flag: it is the player
  the channel records as its owner.\<close>

theorem channel_single_owner:
  assumes "ch_reachable selfkick c"
  shows "sorted_wrt (<) (map fst (ch_players c)) \<and> sorted_wrt (<) (ch_banned c)
    \<and> (\<forall>g p. (g, p) \<in> set (ch_players c) \<and> pi_IsOwner p \<longrightarrow> g = ch_ownerGUID c \<and> g \<noteq> 0)
    \<and> length (filter (\<lambda>e. pi_IsOwner (snd e)) (ch_players c)) \<le> 1"
proof -
  have inv: "ch_inv c" using assms by (rule ch_reachable_inv)
  then have dist: "distinct (map fst (ch_players c))" by (simp add: ch_inv_def om_ok_distinct)
  have own: "g = ch_ownerGUID c \<and> g \<noteq> 0" if "(g, p) \<in> set (ch_players c)" "pi_IsOwner p" for g p
    using inv that map_of_is_SomeI [OF dist] by (simp add: ch_inv_def)
  let ?os = "filter (\<lambda>e. pi_IsOwner (snd e)) (ch_players c)"
  have "set (map fst ?os) \<subseteq> {ch_ownerGUID c}" using own by auto
  moreover have "distinct (map fst ?os)" using dist by (simp add: distinct_map_filter)
  ultimately have "length (map fst ?os) \<le> card {ch_ownerGUID c}"
    by (metis card_mono distinct_card finite.emptyI finite.insertI)
  then have "length ?os \<le> 1" by simp
  moreover have "sorted_wrt (<) (map fst (ch_players c))" "sorted_wrt (<) (ch_banned c)"
    using inv by (simp_all add: ch_inv_def om_ok_def ss_ok_def)
  ultimately show ?thesis using own by blast
qed

theorem channel_single_owner_witness:
  "length (filter (\<lambda>e. pi_IsOwner (snd e)) (ch_players market)) \<le> 1"
  using channel_single_owner [OF market_reachable(3) [of True]] by blast

text \<open>Joining: afterwards exactly the old members are on the channel and the player, if he
  was not banned, gave the right password and was not kept out of the group-search channel.
  Nobody is banned or unbanned. The first such member of a custom channel that has an owner
  role but no owner becomes owner and moderator; otherwise the owner stays.\<close>

theorem channel_join:
  assumes "ch_reachable selfkick c" and "pl_guid player \<noteq> 0"
  shows "(\<forall>k. ch_IsOn k (ch_JoinChannel env player pass c) \<longleftrightarrow>
            ch_IsOn k c \<or> k = pl_guid player \<and> ch_admitted env player pass c)
    \<and> ch_banned (ch_JoinChannel env player pass c) = ch_banned c
    \<and> (if ch_admitted env player pass c \<and> \<not> ch_IsConstant c \<and> ch_ownerGUID c = 0 \<and> ch_ownership c
       then ch_ownerGUID (ch_JoinChannel env player pass c) = pl_guid player
          \<and> (\<exists>p. om_find (pl_guid player) (ch_players (ch_JoinChannel env player pass c)) = Some p
                 \<and> pi_IsOwner p \<and> pi_IsModerator p \<and> pi_player p = pl_guid player)
       else ch_ownerGUID (ch_JoinChannel env player pass c) = ch_ownerGUID c)"
proof (cases "ch_admitted env player pass c")
  case False
  with ch_JoinChannel_refused [OF this] show ?thesis by (simp add: ch_IsOn_def)
next
  case True
  let ?g = "pl_guid player"
  from ch_JoinChannel_admitted [OF True ch_reachable_inv [OF assms(1)]] obtain c5 where c5: "ch_inv c5"
    "ch_banned c5 = ch_banned c" "ch_ownerGUID c5 = ch_ownerGUID c"
    "ch_players c5 = om_set ?g \<lparr>pi_player = ?g, pi_flags = 0\<rparr> (ch_players c)"
    and j: "ch_JoinChannel env player pass c =
        (if \<not> ch_IsConstant c \<and> ch_ownerGUID c = 0 \<and> ch_ownership c
         then ch_modify ?g (pi_SetModerator True) (ch_SetOwner env ?g (length (ch_players c5) > 1) c5)
         else c5)" by blast
  have on5: "ch_IsOn k c5 \<longleftrightarrow> ch_IsOn k c \<or> k = ?g" for k by (auto simp: ch_IsOn_def c5(4))
  have at5: "pi_player (ch_at ?g c5) = ?g" by (simp add: ch_at_def c5(4))
  note so = ch_SetOwner_effect [OF c5(1), where env = env and g = ?g and ex = "length (ch_players c5) > 1"]
  show ?thesis
  proof (cases "\<not> ch_IsConstant c \<and> ch_ownerGUID c = 0 \<and> ch_ownership c")
    case own: True
    have j': "ch_JoinChannel env player pass c =
        ch_modify ?g (pi_SetModerator True) (ch_SetOwner env ?g (length (ch_players c5) > 1) c5)"
      using j own by simp
    show ?thesis unfolding j' using True own so(2,5) so(3) [OF assms(2)] on5 so(4) c5(2) at5
      by (auto simp: ch_at_find)
  next
    case False
    with j have j': "ch_JoinChannel env player pass c = c5" by (simp only: if_False)
    show ?thesis unfolding j' using True False on5 c5(2,3) by auto
  qed
qed

theorem channel_join_witness:
  "ch_IsOn 7 market \<and> ch_banned market = ch_banned market1 \<and> ch_ownerGUID market1 = 5"
proof -
  have g: "pl_guid bob = 7" "pl_guid alice = 5" by (simp_all add: bob_def alice_def)
  have adm: "ch_admitted town bob [] market1" "ch_admitted town alice [] market0 \<and> \<not> ch_IsConstant market0
      \<and> ch_ownerGUID market0 = 0 \<and> ch_ownership market0"
    by code_simp+
  show ?thesis
    using channel_join [OF market_reachable(2) [of True], of bob town "[]"]
      channel_join [OF market_reachable(1) [of True], of alice town "[]"]
    unfolding market_def [symmetric] market1_def [symmetric] by (simp add: g adm)
qed

text \<open>Succession: when the owner of a custom channel leaves and others remain, the member with
  the smallest GUID becomes owner and moderator, and exactly the owner is gone. (Histories
  in which a player kicked himself are excluded, see \<open>channel_self_kick\<close>.)\<close>

theorem channel_succession:
  assumes reach: "ch_reachable False c" and on: "ch_IsOn (pl_guid player) c"
    and custom: "\<not> ch_IsConstant c" "ch_ownership c"
    and own: "pi_IsOwner (ch_at (pl_guid player) c)"
    and others: "ch_IsOn k c" "k \<noteq> pl_guid player"
  shows "ch_ownerGUID (ch_LeaveChannel env player send c) = Min {g. ch_IsOn g c \<and> g \<noteq> pl_guid player}
    \<and> (\<exists>p. om_find (ch_ownerGUID (ch_LeaveChannel env player send c))
                (ch_players (ch_LeaveChannel env player send c)) = Some p \<and> pi_IsOwner p \<and> pi_IsModerator p)
    \<and> (\<forall>g. ch_IsOn g (ch_LeaveChannel env player send c) \<longleftrightarrow> ch_IsOn g c \<and> g \<noteq> pl_guid player)"
proof -
  let ?g = "pl_guid player"
  have inv: "ch_inv c" and ids: "ch_ids c" using reach by (rule ch_reachable_inv, rule ch_reachable_ids)
  from ch_LeaveChannel_on [OF on inv, of env send] obtain c5 where c5: "ch_inv c5"
    "ch_players c5 = om_erase ?g (ch_players c)"
    and l: "ch_LeaveChannel env player send c =
        (if \<not> ch_IsConstant c \<and> pi_IsOwner (ch_at ?g c) \<and> ch_ownership c \<and> ch_players c5 \<noteq> []
         then let newowner = pi_player (snd (hd (ch_players c5)))
              in ch_SetOwner env newowner True (ch_modify newowner (pi_SetModerator True) c5)
         else c5)" by blast
  have on5: "ch_IsOn g c5 \<longleftrightarrow> ch_IsOn g c \<and> g \<noteq> ?g" for g by (simp add: ch_IsOn_def c5(2))
  have "ch_IsOn k c5" using on5 others by simp
  then obtain h p ms where ps: "ch_players c5 = (h, p) # ms" by (cases "ch_players c5") (auto simp: ch_IsOn_def)
  have "om_ok (ch_players c5)" using c5(1) by (simp add: ch_inv_def)
  then have least: "x \<in> fst ` set ms \<Longrightarrow> h < x" for x by (auto simp: ps om_ok_def)
  have keys: "{g. ch_IsOn g c \<and> g \<noteq> ?g} = insert h (fst ` set ms)"
    unfolding on5 [symmetric] by (auto simp: ch_IsOn_def map_of_eq_None_iff ps simp del: not_None_eq)
  have "om_find h (ch_players c5) = Some p" by (simp add: ps)
  then have hp: "pi_player p = h" "h \<noteq> 0" using ids c5(2) by (auto simp: ch_ids_def split: if_splits)
  have l': "ch_LeaveChannel env player send c = ch_SetOwner env h True (ch_modify h (pi_SetModerator True) c5)"
    using l custom own by (simp add: ps hp Let_def)
  have inv6: "ch_inv (ch_modify h (pi_SetModerator True) c5)" using c5(1) by (auto intro: ch_inv_modify)
  have "ch_IsOn h c5" by (simp add: ch_IsOn_def ps)
  moreover have "Min (insert h (fst ` set ms)) = h" using least by (auto intro: Min_eqI order.strict_implies_order)
  ultimately show ?thesis
    unfolding l' keys using ch_SetOwner_effect(2-4) [OF inv6, where env = env and g = h and ex = True] hp(2) on5 by auto
qed

theorem channel_succession_witness:
  "ch_ownerGUID (ch_LeaveChannel town alice True market) = Min {g. ch_IsOn g market \<and> g \<noteq> 5}"
proof -
  have a: "pl_guid alice = 5" by (simp add: alice_def)
  show ?thesis
    using channel_succession [OF market_reachable(3), of alice 7 town True]
    by (simp add: a market_on ch_IsConstant_def market_players pi_IsOwner_def)
qed

section \<open>Kicks and bans\<close>

text \<open>C17. Authority: a kick or ban takes nobody off the channel but the player it names, and him
  only if the actor is on the channel and a moderator or has the permission to act without
  being one, and, when the named player is the owner, if the actor is the owner himself or
  has that permission. A kick of another player that has this authority takes him off.\<close>

theorem channel_kick_authority:
  assumes "ch_reachable selfkick c"
  shows "(ch_IsOn k c \<and> \<not> ch_IsOn k (ch_KickOrBan env player badname ban c) \<longrightarrow>
      (\<exists>p. ce_FindPlayerByName env badname = Some p \<and> pl_guid p = k)
      \<and> ch_IsOn (pl_guid player) c
      \<and> (pi_IsModerator (ch_at (pl_guid player) c) \<or> pl_HasPermission player RBAC_PERM_CHANGE_CHANNEL_NOT_MODERATOR)
      \<and> (k = ch_ownerGUID c \<longrightarrow>
           pl_guid player = k \<or> pl_HasPermission player RBAC_PERM_CHANGE_CHANNEL_NOT_MODERATOR))
    \<and> (ch_victim env badname \<noteq> pl_guid player \<longrightarrow>
       (ch_IsOn k (ch_KickOrBan env player badname ban c) \<longleftrightarrow>
          ch_IsOn k c \<and> \<not> (k = ch_victim env badname \<and> ch_may_kick player k c)))"
proof (cases "ch_may_kick player (ch_victim env badname) c")
  case False
  from ch_KickOrBan_refused [OF this, of ban] obtain n where
    "ch_KickOrBan env player badname ban c = ch_notify_one env n (pl_guid player) c" by blast
  then have "ch_IsOn k (ch_KickOrBan env player badname ban c) = ch_IsOn k c" by (simp add: ch_IsOn_def)
  with False show ?thesis by blast
next
  case True
  let ?v = "ch_victim env badname" and ?g = "pl_guid player"
  from ch_KickOrBan_done [OF True, of ban] obtain c2 where c2:
    "ch_players c2 = om_erase ?v (ch_players c)" "ch_ownerGUID c2 = ch_ownerGUID c"
    "ch_banned c2 = (if ban \<and> \<not> ch_IsBanned ?v c then ss_insert ?v (ch_banned c) else ch_banned c)"
    and kk: "ch_KickOrBan env player badname ban c =
        (if ch_ownerGUID c = ?v \<and> ch_ownership c \<and> ch_players c2 \<noteq> []
         then ch_SetOwner env ?g True (ch_modify ?g (pi_SetModerator True) c2) else c2)" by blast
  have inv: "ch_inv c" using assms by (rule ch_reachable_inv)
  have inv2: "ch_inv c2" using ch_inv_fields [OF inv c2(1) _ c2(2)] c2(3) inv by (simp add: ch_inv_def)
  have inv3: "ch_inv (ch_modify ?g (pi_SetModerator True) c2)" using inv2 by (auto intro: ch_inv_modify)
  have on2: "ch_IsOn k c2 \<longleftrightarrow> ch_IsOn k c \<and> k \<noteq> ?v" by (simp add: ch_IsOn_def c2(1))
  have on: "ch_IsOn ?g c" using True by (simp add: ch_may_kick_def ch_refuse_moderation_on)
  have res: "ch_IsOn k (ch_KickOrBan env player badname ban c) \<longleftrightarrow> ch_IsOn k c \<and> k \<noteq> ?v
      \<or> k = ?g \<and> ch_ownerGUID c = ?v \<and> ch_ownership c \<and> ch_players c2 \<noteq> [] \<and> ?g = ?v" (is ?res)
    using on2 on unfolding kk by (auto simp: ch_SetOwner_effect(4) [OF inv3])
  have vic: "\<exists>p. ce_FindPlayerByName env badname = Some p \<and> pl_guid p = ?v"
    using True by (auto simp: ch_may_kick_def ch_victim_def split: option.splits)
  have auth: "pi_IsModerator (ch_at ?g c) \<or> pl_HasPermission player RBAC_PERM_CHANGE_CHANNEL_NOT_MODERATOR"
    "?v = ch_ownerGUID c \<longrightarrow> ?g = ?v \<or> pl_HasPermission player RBAC_PERM_CHANGE_CHANNEL_NOT_MODERATOR"
    using True by (auto simp: ch_may_kick_def ch_refuse_moderation_def split: if_splits)
  show ?thesis using res vic auth on True by auto
qed

theorem channel_kick_authority_witness:
  "\<not> ch_IsOn 7 (ch_KickOrBan town alice [66] False market)"
  using channel_kick_authority [OF market_reachable(3) [of True], of 7 town alice "[66]" False]
  by (simp add: ch_victim_def ch_may_kick_def ch_refuse_moderation_def market_on market_players town_def alice_def bob_def
      pi_IsModerator_def)

lemma ch_SetOwner_events: "set (ch_events c) \<subseteq> set (ch_events (ch_SetOwner env g ex c))"
  by (auto simp: ch_SetOwner_def Let_def ch_UpdateChannelInDB_def ch_emit_def ch_notify_all_def ch_SendToAll_def)

text \<open>An owner who kicks or bans himself while others are on the channel is told that he left
  it, but is still in its map of members afterwards, as owner and moderator, with an entry
  that carries the GUID 0: the choice of the next owner picks the actor.\<close>

theorem channel_self_kick:
  assumes reach: "ch_reachable selfkick c" and self: "ch_victim env badname = pl_guid player"
    and own: "ch_ownerGUID c = pl_guid player" "pl_guid player \<noteq> 0" "ch_ownership c"
    and moderator: "ch_IsOn (pl_guid player) c" "pi_IsModerator (ch_at (pl_guid player) c)"
    and others: "ch_IsOn k c" "k \<noteq> pl_guid player"
  shows "PlayerLeftChannel (pl_guid player) \<in> set (ch_events (ch_KickOrBan env player badname ban c))
    \<and> ch_ownerGUID (ch_KickOrBan env player badname ban c) = pl_guid player
    \<and> (\<exists>p. om_find (pl_guid player) (ch_players (ch_KickOrBan env player badname ban c)) = Some p
           \<and> pi_IsOwner p \<and> pi_IsModerator p \<and> pi_player p = 0)"
proof -
  let ?g = "pl_guid player"
  have may: "ch_may_kick player (ch_victim env badname) c"
    using self own moderator by (simp add: ch_may_kick_def ch_refuse_moderation_def)
  from ch_KickOrBan_done [OF may, of ban] obtain c2 where c2:
    "ch_players c2 = om_erase ?g (ch_players c)" "ch_ownerGUID c2 = ch_ownerGUID c"
    "ch_banned c2 = (if ban \<and> \<not> ch_IsBanned ?g c then ss_insert ?g (ch_banned c) else ch_banned c)"
    "PlayerLeftChannel ?g \<in> set (ch_events c2)"
    and kk: "ch_KickOrBan env player badname ban c =
        (if ch_ownerGUID c = ?g \<and> ch_ownership c \<and> ch_players c2 \<noteq> []
         then ch_SetOwner env ?g True (ch_modify ?g (pi_SetModerator True) c2) else c2)"
    unfolding self by blast
  have "om_find k (ch_players c2) \<noteq> None" using others c2(1) by (simp add: ch_IsOn_def)
  then have "ch_players c2 \<noteq> []" by auto
  with kk own have kk': "ch_KickOrBan env player badname ban c =
      ch_SetOwner env ?g True (ch_modify ?g (pi_SetModerator True) c2)" by simp
  have inv: "ch_inv c" using reach by (rule ch_reachable_inv)
  have "ch_inv c2" using ch_inv_fields [OF inv c2(1) _ c2(2)] c2(3) inv by (simp add: ch_inv_def)
  then have inv3: "ch_inv (ch_modify ?g (pi_SetModerator True) c2)" by (auto intro: ch_inv_modify)
  have "pi_player (ch_at ?g (ch_modify ?g (pi_SetModerator True) c2)) = 0" by (simp add: ch_at_def c2(1))
  with ch_SetOwner_effect(2,3) [OF inv3, where env = env and g = ?g and ex = True] own(2) show ?thesis
    unfolding kk' using c2(4) ch_SetOwner_events [of "ch_modify ?g (pi_SetModerator True) c2" env ?g True] by auto
qed

theorem channel_self_kick_witness:
  "PlayerLeftChannel 5 \<in> set (ch_events (ch_KickOrBan town alice [65] True market))
   \<and> ch_ownerGUID (ch_KickOrBan town alice [65] True market) = 5"
proof -
  have a: "pl_guid alice = 5" "ch_victim town [65] = 5" by (simp_all add: alice_def ch_victim_def town_def)
  show ?thesis
    using channel_self_kick [OF market_reachable(3) [of True], of town "[65]" alice 7 True]
    by (simp add: a market_on market_players pi_IsModerator_def)
qed

text \<open>C18. A ban holds: after a ban that has its authority, of a player other than the actor, the
  player is off the channel and banned, and no later attempt to join, whatever the password,
  the permissions or the environment, puts him back.\<close>

theorem channel_ban_holds:
  assumes reach: "ch_reachable selfkick c" and may: "ch_may_kick player (ch_victim env badname) c"
    and other: "ch_victim env badname \<noteq> pl_guid player"
    and joiner: "pl_guid joiner = ch_victim env badname"
  shows "ch_IsBanned (ch_victim env badname) (ch_KickOrBan env player badname True c)
    \<and> \<not> ch_IsOn (ch_victim env badname) (ch_KickOrBan env player badname True c)
    \<and> \<not> ch_IsOn (ch_victim env badname)
          (ch_JoinChannel env' joiner pass (ch_KickOrBan env player badname True c))"
proof -
  let ?v = "ch_victim env badname" and ?g = "pl_guid player" and ?c = "ch_KickOrBan env player badname True c"
  from ch_KickOrBan_done [OF may, of True] obtain c2 where c2:
    "ch_players c2 = om_erase ?v (ch_players c)" "ch_ownerGUID c2 = ch_ownerGUID c"
    "ch_banned c2 = (if True \<and> \<not> ch_IsBanned ?v c then ss_insert ?v (ch_banned c) else ch_banned c)"
    and kk: "?c = (if ch_ownerGUID c = ?v \<and> ch_ownership c \<and> ch_players c2 \<noteq> []
         then ch_SetOwner env ?g True (ch_modify ?g (pi_SetModerator True) c2) else c2)" by blast
  have inv: "ch_inv c" using reach by (rule ch_reachable_inv)
  have inv2: "ch_inv c2" using ch_inv_fields [OF inv c2(1) _ c2(2)] c2(3) inv by (simp add: ch_inv_def)
  then have inv3: "ch_inv (ch_modify ?g (pi_SetModerator True) c2)" by (auto intro: ch_inv_modify)
  have banned: "ch_IsBanned ?v ?c"
    using c2(3) unfolding kk by (auto simp: ch_IsBanned_def ch_SetOwner_effect(5) [OF inv3])
  have "\<not> ch_IsOn ?v c2" by (simp add: ch_IsOn_def c2(1))
  then have off: "\<not> ch_IsOn ?v ?c"
    using other unfolding kk by (auto simp: ch_SetOwner_effect(4) [OF inv3])
  have "\<not> ch_admitted env' joiner pass ?c" using banned joiner by (simp add: ch_admitted_def)
  from ch_JoinChannel_refused(1) [OF this] off have "\<not> ch_IsOn ?v (ch_JoinChannel env' joiner pass ?c)"
    by (simp add: ch_IsOn_def)
  with banned off show ?thesis by blast
qed

theorem channel_ban_holds_witness:
  "\<not> ch_IsOn 7 (ch_JoinChannel town bob [] (ch_KickOrBan town alice [66] True market))"
proof -
  have v: "ch_victim town [66] = 7" "pl_guid alice = 5" "pl_guid bob = 7"
    by (simp_all add: bob_def alice_def ch_victim_def town_def)
  show ?thesis
    using channel_ban_holds [OF market_reachable(3) [of True], of alice town "[66]" bob town "[]"]
    by (simp add: v ch_may_kick_def ch_refuse_moderation_def market_on market_players pi_IsModerator_def)
qed

section \<open>Storage\<close>

lemma ch_load_bans_numbers:
  assumes "0 \<notin> set gs" and "ss_ok (acc @ gs)"
  shows "ch_load_bans (map (\<lambda>g. decimal (unat g)) gs) acc = acc @ gs"
  using assms
proof (induction gs arbitrary: acc)
  case (Cons g gs)
  have "ss_insert g acc = acc @ [g]"
    using Cons.prems(2) by (induction acc) (auto simp: ss_ok_def)
  with Cons.IH [of "acc @ [g]"] Cons.prems show ?case by (simp add: strtoull10_decimal)
qed simp

text \<open>Saving a custom channel and creating it again from the stored row gives back its settings
  and its ban list: the statement that the code executes carries what the constructor reads,
  and the blank-separated decimal list is parsed into the same set.\<close>

theorem channel_save_load:
  assumes reach: "ch_reachable selfkick c" and saved: "ch_IsSaved c" and nz: "0 \<notin> set (ch_banned c)"
    and upd: "ch_events (ch_UpdateChannelInDB c) = ch_events c @ [UpdChannel an ow pw bans nm tm]"
    and stored: "ce_channelRow env nm tm =
        Some \<lparr>cr_announce = an, cr_ownership = ow, cr_password = pw, cr_bannedList = Some bans\<rparr>"
    and env: "ce_chatChannels env (ch_channelId c) = None" "ce_preserveCustom env"
  shows "ch_new env nm (ch_channelId c) tm =
    \<lparr>ch_announce = ch_announce c, ch_ownership = ch_ownership c, ch_IsSaved = True, ch_flags = 0x01,
     ch_channelId = ch_channelId c, ch_Team = ch_Team c, ch_ownerGUID = 0, ch_name = ch_name c,
     ch_password = ch_password c, ch_players = [], ch_banned = ch_banned c, ch_events = []\<rparr>"
proof -
  have row: "an = ch_announce c" "ow = ch_ownership c" "pw = ch_password c" "bans = ch_banlist c"
    "nm = ch_name c" "tm = ch_Team c"
    using upd saved by (simp_all add: ch_UpdateChannelInDB_def ch_emit_def)
  have "ss_ok (ch_banned c)" using ch_reachable_inv [OF reach] by (simp add: ch_inv_def)
  then have "ch_load_bans (Tokenizer (ch_banlist c) 32) [] = ch_banned c"
    using ch_load_bans_numbers [of "ch_banned c" "[]"] nz by (simp add: ch_banlist_def Tokenizer_numbers)
  with stored env row show ?thesis by (simp add: ch_new_def)
qed

text \<open>Bob banned from the market, stored and read back.\<close>

definition ban_bob :: channel where "ban_bob = ch_KickOrBan town alice [66] True market"

theorem channel_save_load_witness:
  "ch_banned (ch_new (town\<lparr>ce_channelRow := \<lambda>_ _. Some \<lparr>cr_announce = True, cr_ownership = True, cr_password = [],
     cr_bannedList = Some [55, 32]\<rparr>\<rparr>) [77] 0 67) = [7]"
proof -
  have b: "ch_banned ban_bob = [7]" "ch_IsSaved ban_bob" "ch_announce ban_bob" "ch_ownership ban_bob"
    "ch_password ban_bob = []" "ch_channelId ban_bob = 0" "ch_Team ban_bob = 67" "ch_name ban_bob = [77]"
    "ch_banlist ban_bob = [55, 32]"
    by code_simp+
  have r: "ch_reachable True ban_bob" unfolding ban_bob_def using market_reachable(3) by (rule ch_kick) simp
  have u: "ch_events (ch_UpdateChannelInDB ban_bob) = ch_events ban_bob @ [UpdChannel True True [] [55, 32] [77] 67]"
    by (simp add: ch_UpdateChannelInDB_def ch_emit_def b)
  show ?thesis
    using channel_save_load [OF r b(2) _ u, of "town\<lparr>ce_channelRow := \<lambda>_ _. Some \<lparr>cr_announce = True,
      cr_ownership = True, cr_password = [], cr_bannedList = Some [55, 32]\<rparr>\<rparr>"]
    by (simp add: b town_def)
qed

section \<open>Talking\<close>

text \<open>Talking: a non-empty line of a member who is not muted is delivered exactly once to every
  member who is online and, unless the speaker is a moderator, does not ignore the speaker,
  in the order of their GUIDs, and nothing else of the channel changes; of anybody else it
  is delivered to no one.\<close>

theorem channel_say:
  assumes "ch_reachable selfkick c" and "what \<noteq> []" and guid: "guid \<noteq> 0"
  shows "(if ch_IsOn guid c \<and> \<not> pi_IsMuted (ch_at guid c)
     then \<exists>rs data. ch_Say env guid what lang c = c\<lparr>ch_events := ch_events c @ map (\<lambda>k. SendPacket k data) rs\<rparr>
            \<and> sorted_wrt (<) rs
            \<and> (\<forall>k. k \<in> set rs \<longleftrightarrow> ch_IsOn k c \<and> (\<exists>m. ce_FindPlayer env k = Some m
                    \<and> (pi_IsModerator (ch_at guid c) \<or> \<not> pl_ignores m guid)))
     else ch_Say env guid what lang c = ch_notify_one env (if ch_IsOn guid c then NMuted else NNotMember) guid c)"
proof -
  let ?ok = "ch_IsOn guid c \<and> \<not> pi_IsMuted (ch_at guid c)"
  let ?rs = "ch_receivers env (if \<not> pi_IsModerator (ch_at guid c) then guid else 0) c"
  let ?data = "ce_BuildChatPacket env (if ce_twoSideInteraction env then 0 else lang) guid (ce_FindPlayer env guid \<noteq> None)
         what (ch_name c)"
  have ne: "(what = []) = False" using assms(2) by simp
  show ?thesis
  proof (cases ?ok)
    case True
    have "sorted_wrt (<) (map fst (ch_players c))"
      using ch_reachable_inv [OF assms(1)] by (simp add: ch_inv_def om_ok_def)
    then have srt: "sorted_wrt (<) ?rs" unfolding ch_receivers_def by (rule sorted_wrt_filter)
    have mem: "k \<in> set ?rs \<longleftrightarrow> ch_IsOn k c \<and> (\<exists>m. ce_FindPlayer env k = Some m
                      \<and> (pi_IsModerator (ch_at guid c) \<or> \<not> pl_ignores m guid))" for k
      using guid unfolding ch_receivers_def ch_IsOn_def map_of_eq_None_iff by (simp split: option.split)
    have no: "(\<not> ch_IsOn guid c) = False" "pi_IsMuted (ch_at guid c) = False" using True by simp_all
    have "ch_Say env guid what lang c = c\<lparr>ch_events := ch_events c @ map (\<lambda>k. SendPacket k ?data) ?rs\<rparr>"
      unfolding ch_Say_def Let_def ch_SendToAll_def ne no if_False by (rule refl)
    with srt mem True show ?thesis unfolding if_P [OF True] by blast
  next
    case False
    then show ?thesis unfolding if_not_P [OF False] ch_Say_def Let_def ne if_False by simp
  qed
qed

theorem channel_say_witness:
  "\<exists>rs data. ch_Say town 7 [72, 105] 0 market = market\<lparr>ch_events := ch_events market @ map (\<lambda>k. SendPacket k data) rs\<rparr>
     \<and> set rs = {5, 7}"
proof -
  have "ch_IsOn 7 market \<and> \<not> pi_IsMuted (ch_at 7 market)"
    by (simp add: market_on market_players pi_IsMuted_def)
  with channel_say [OF market_reachable(3) [of True], of "[72, 105]" 7 town 0] obtain rs data where
    say: "ch_Say town 7 [72, 105] 0 market = market\<lparr>ch_events := ch_events market @ map (\<lambda>k. SendPacket k data) rs\<rparr>"
    and rs: "\<forall>k. k \<in> set rs \<longleftrightarrow> ch_IsOn k market \<and> (\<exists>m. ce_FindPlayer town k = Some m
                    \<and> (pi_IsModerator (ch_at 7 market) \<or> \<not> pl_ignores m 7))" by auto
  have f: "ce_FindPlayer town 5 = Some alice" "ce_FindPlayer town 7 = Some bob" "\<not> pl_ignores alice 7" "\<not> pl_ignores bob 7"
    by (simp_all add: town_def alice_def bob_def)
  have "k \<in> set rs \<longleftrightarrow> k \<in> {5, 7}" for k
    unfolding spec [OF rs, of k] market_on using f by (cases "k = 5"; cases "k = 7") simp_all
  then have "set rs = {5, 7}" by blast
  with say show ?thesis by blast
qed

end
