(* ===== verification/UTF8.thy ===== *)
theory UTF8
  imports Util_Strings
begin

text \<open>
  The conversion between UTF-8 and UTF-16 the server uses for every name and chat line:
  the checked interface of utf8cpp (src/Core/dep/utf8cpp/utf8/core.h and checked.h). A pair of
  iterators is the list of the octets between them; the functions return the exception or
  the value with the octets left. Shown: only the shortest encoding of a valid code point is
  accepted, and both directions are inverse to each other.
\<close>

section \<open>Code points\<close>

definition mask8 :: "uint8 \<Rightarrow> uint32" where
  "mask8 oc = 0xff AND ucast oc"

definition mask16 :: "uint32 \<Rightarrow> uint32" where
  "mask16 oc = 0xffff AND oc"

definition is_trail :: "uint8 \<Rightarrow> bool" where
  "is_trail oc \<longleftrightarrow> drop_bit 6 (mask8 oc) = 0x2"

definition is_lead_surrogate :: "uint32 \<Rightarrow> bool" where
  "is_lead_surrogate cp \<longleftrightarrow> cp \<ge> 0xd800 \<and> cp \<le> 0xdbff"

definition is_trail_surrogate :: "uint32 \<Rightarrow> bool" where
  "is_trail_surrogate cp \<longleftrightarrow> cp \<ge> 0xdc00 \<and> cp \<le> 0xdfff"

definition is_surrogate :: "uint32 \<Rightarrow> bool" where
  "is_surrogate cp \<longleftrightarrow> cp \<ge> 0xd800 \<and> cp \<le> 0xdfff"

definition is_code_point_valid :: "uint32 \<Rightarrow> bool" where
  "is_code_point_valid cp \<longleftrightarrow> cp \<le> 0x0010ffff \<and> \<not> is_surrogate cp"

definition sequence_length :: "uint8 \<Rightarrow> nat" where
  "sequence_length oc =
     (let lead = mask8 oc in
      if lead < 0x80 then 1
      else if drop_bit 5 lead = 0x6 then 2
      else if drop_bit 4 lead = 0xe then 3
      else if drop_bit 3 lead = 0x1e then 4
      else 0)"

definition is_overlong_sequence :: "uint32 \<Rightarrow> nat \<Rightarrow> bool" where
  "is_overlong_sequence cp len =
     (if cp < 0x80 then len \<noteq> 1
      else if cp < 0x800 then len \<noteq> 2
      else if cp < 0x10000 then len \<noteq> 3
      else False)"

section \<open>Decoding one code point\<close>

text \<open>The error codes without \<^verbatim>\<open>UTF8_OK\<close>, and the exceptions.\<close>

datatype utf_error = NOT_ENOUGH_ROOM | INVALID_LEAD | INCOMPLETE_SEQUENCE | OVERLONG_SEQUENCE | INVALID_CODE_POINT

datatype u8_exception = invalid_code_point uint32 | invalid_utf8 uint8 | invalid_utf16 uint32 | not_enough_room

definition sbind :: "'e + 'a \<Rightarrow> ('a \<Rightarrow> 'e + 'b) \<Rightarrow> 'e + 'b" where
  "sbind m f = (case m of Inl e \<Rightarrow> Inl e | Inr x \<Rightarrow> f x)"

lemma sbind_simps [simp]: "sbind (Inl e) f = Inl e" "sbind (Inr x) f = f x"
  by (simp_all add: sbind_def)

text \<open>The list starts at the current octet; the result starts at the next one.\<close>

fun increase_safely :: "bytes \<Rightarrow> utf_error + bytes" where
  "increase_safely (_ # y # ys) = (if \<not> is_trail y then Inl INCOMPLETE_SEQUENCE else Inr (y # ys))"
| "increase_safely _ = Inl NOT_ENOUGH_ROOM"

definition get_sequence_1 :: "bytes \<Rightarrow> utf_error + uint32 \<times> bytes" where
  "get_sequence_1 it = (if it = [] then Inl NOT_ENOUGH_ROOM else Inr (mask8 (hd it), it))"

definition get_sequence_2 :: "bytes \<Rightarrow> utf_error + uint32 \<times> bytes" where
  "get_sequence_2 it =
     (if it = [] then Inl NOT_ENOUGH_ROOM
      else
        let cp = mask8 (hd it)
        in sbind (increase_safely it) (\<lambda>it1.
             Inr ((push_bit 6 cp AND 0x7ff) + (ucast (hd it1) AND 0x3f), it1)))"

definition get_sequence_3 :: "bytes \<Rightarrow> utf_error + uint32 \<times> bytes" where
  "get_sequence_3 it =
     (if it = [] then Inl NOT_ENOUGH_ROOM
      else
        let cp = mask8 (hd it)
        in sbind (increase_safely it) (\<lambda>it1.
             let cp1 = (push_bit 12 cp AND 0xffff) + (push_bit 6 (mask8 (hd it1)) AND 0xfff)
             in sbind (increase_safely it1) (\<lambda>it2. Inr (cp1 + (ucast (hd it2) AND 0x3f), it2))))"

definition get_sequence_4 :: "bytes \<Rightarrow> utf_error + uint32 \<times> bytes" where
  "get_sequence_4 it =
     (if it = [] then Inl NOT_ENOUGH_ROOM
      else
        let cp = mask8 (hd it)
        in sbind (increase_safely it) (\<lambda>it1.
             let cp1 = (push_bit 18 cp AND 0x1fffff) + (push_bit 12 (mask8 (hd it1)) AND 0x3ffff)
             in sbind (increase_safely it1) (\<lambda>it2.
                  let cp2 = cp1 + (push_bit 6 (mask8 (hd it2)) AND 0xfff)
                  in sbind (increase_safely it2) (\<lambda>it3. Inr (cp2 + (ucast (hd it3) AND 0x3f), it3)))))"

text \<open>
  On an error the iterator goes back. Behind the last octet of a string there is the
  terminating zero, whose sequence has length one.
\<close>

definition validate_next :: "bytes \<Rightarrow> utf_error + uint32 \<times> bytes" where
  "validate_next it =
     (let len = (if it = [] then 1 else sequence_length (hd it))
      in if len = 0 then Inl INVALID_LEAD
         else sbind (if len = 1 then get_sequence_1 it else if len = 2 then get_sequence_2 it
                     else if len = 3 then get_sequence_3 it else get_sequence_4 it)
                (\<lambda>(cp, it'). if is_code_point_valid cp
                             then if \<not> is_overlong_sequence cp len then Inr (cp, tl it')
                                  else Inl OVERLONG_SEQUENCE
                             else Inl INVALID_CODE_POINT))"

text \<open>
  The exception for an invalid code point carries the variable of the caller, which is
  still zero.
\<close>

definition u8_next :: "bytes \<Rightarrow> u8_exception + uint32 \<times> bytes" where
  "u8_next it =
     (case validate_next it of
        Inr r \<Rightarrow> Inr r
      | Inl NOT_ENOUGH_ROOM \<Rightarrow> Inl not_enough_room
      | Inl INVALID_CODE_POINT \<Rightarrow> Inl (invalid_code_point 0)
      | Inl _ \<Rightarrow> Inl (invalid_utf8 (if it = [] then 0 else hd it)))"

section \<open>Encoding one code point\<close>

definition u8_append :: "uint32 \<Rightarrow> u8_exception + bytes" where
  "u8_append cp =
     (if \<not> is_code_point_valid cp then Inl (invalid_code_point cp)
      else if cp < 0x80 then Inr [ucast cp]
      else if cp < 0x800
      then Inr [ucast (drop_bit 6 cp OR 0xc0), ucast ((cp AND 0x3f) OR 0x80)]
      else if cp < 0x10000
      then Inr [ucast (drop_bit 12 cp OR 0xe0), ucast ((drop_bit 6 cp AND 0x3f) OR 0x80), ucast ((cp AND 0x3f) OR 0x80)]
      else Inr [ucast (drop_bit 18 cp OR 0xf0), ucast ((drop_bit 12 cp AND 0x3f) OR 0x80),
                ucast ((drop_bit 6 cp AND 0x3f) OR 0x80), ucast ((cp AND 0x3f) OR 0x80)])"

section \<open>Bits\<close>

lemma uint8_eqI:
  "list_all (\<lambda>n. bit x n = bit y n) [0, 1, 2, 3, 4, 5, 6, 7] \<Longrightarrow> (x :: uint8) = y"
proof (rule bit_word_eqI)
  fix n assume a: "list_all (\<lambda>n. bit x n = bit y n) [0, 1, 2, 3, 4, 5, 6, 7]" and "n < LENGTH(8)"
  then have "n \<in> set [0, 1, 2, 3, 4, 5, 6, 7]" by (auto simp: numeral_eq_Suc less_Suc_eq)
  with a show "bit x n = bit y n" unfolding list_all_iff by blast
qed

lemma uint32_eqI:
  "list_all (\<lambda>n. bit x n = bit y n) [0, 1, 2, 3, 4, 5, 6, 7, 8, 9, 10, 11, 12, 13, 14, 15,
     16, 17, 18, 19, 20, 21, 22, 23, 24, 25, 26, 27, 28, 29, 30, 31] \<Longrightarrow> (x :: uint32) = y"
proof (rule bit_word_eqI)
  let ?ns = "[0, 1, 2, 3, 4, 5, 6, 7, 8, 9, 10, 11, 12, 13, 14, 15,
     16, 17, 18, 19, 20, 21, 22, 23, 24, 25, 26, 27, 28, 29, 30, 31] :: nat list"
  fix n assume a: "list_all (\<lambda>n. bit x n = bit y n) ?ns" and "n < LENGTH(32)"
  then have "n \<in> set ?ns" by (auto simp: numeral_eq_Suc less_Suc_eq)
  with a show "bit x n = bit y n" unfolding list_all_iff by blast
qed

lemma uint32_eq_iff:
  "(x :: uint32) = y \<longleftrightarrow> list_all (\<lambda>n. bit x n = bit y n) [0, 1, 2, 3, 4, 5, 6, 7, 8, 9, 10, 11, 12, 13, 14, 15,
     16, 17, 18, 19, 20, 21, 22, 23, 24, 25, 26, 27, 28, 29, 30, 31]"
  by (rule iffI, simp only: simp_thms list.pred_inject, rule uint32_eqI)

lemma uint8_no_bit [simp]: "8 \<le> n \<Longrightarrow> \<not> bit (x :: uint8) n"
  using bit_imp_le_length [of x n] by auto

lemma bit_unat_odd: "bit (x :: 'a::len word) n \<longleftrightarrow> odd (unat x div 2 ^ n)"
proof -
  have "bit x n \<longleftrightarrow> bit (unat x) n" by (simp add: bit_simps)
  then show ?thesis by (simp only: bit_iff_odd [of "unat x"])
qed

lemma less_bits: "(x :: uint32) < 2 ^ k \<Longrightarrow> k \<le> n \<Longrightarrow> \<not> bit x n"
proof
  assume a: "x < 2 ^ k" "k \<le> n" "bit x n"
  then have n: "n < 32" using bit_imp_le_length [OF a(3)] by simp
  then have "k < 32" using a(2) by simp
  then have "(2 :: nat) ^ k < 2 ^ 32" by (intro power_strict_increasing) auto
  moreover have "unat (2 ^ k :: uint32) = unat (of_nat (2 ^ k) :: uint32)" by simp
  ultimately have "unat (2 ^ k :: uint32) = 2 ^ k" by (simp only: unat_of_nat len_num1 len_bit0 len_num0) simp
  then have "unat x < 2 ^ k" using a(1) by (simp add: word_less_nat_alt)
  then have "unat x < 2 ^ n" using power_increasing [OF a(2), of "2 :: nat"] by linarith
  with a(3) show False by (simp add: bit_unat_odd)
qed

lemma mask8_ucast [simp]: "mask8 x = ucast x"
  unfolding mask8_def by (rule uint32_eqI) (simp add: bit_simps)

lemma uint8_high: "(ucast (x :: uint8) :: uint32) < 0x80 \<longleftrightarrow> \<not> bit x 7"
proof -
  have x: "unat x < 256" using unsigned_less [of x, where 'a = nat] by simp
  then have "(ucast x :: uint32) < 0x80 \<longleftrightarrow> unat x < 128" by (simp add: word_less_nat_alt unsigned_ucast_eq take_bit_eq_mod)
  moreover from x have "unat x div 128 = 0 \<or> unat x div 128 = 1" by auto
  then have "unat x < 128 \<longleftrightarrow> \<not> bit x 7" by (auto simp: bit_unat_odd)
  ultimately show ?thesis by simp
qed

lemma uint8_drop:
  "drop_bit 5 (ucast (x :: uint8) :: uint32) = 6 \<longleftrightarrow> bit x 7 \<and> bit x 6 \<and> \<not> bit x 5"
  "drop_bit 4 (ucast (x :: uint8) :: uint32) = 14 \<longleftrightarrow> bit x 7 \<and> bit x 6 \<and> bit x 5 \<and> \<not> bit x 4"
  "drop_bit 3 (ucast (x :: uint8) :: uint32) = 30 \<longleftrightarrow> bit x 7 \<and> bit x 6 \<and> bit x 5 \<and> bit x 4 \<and> \<not> bit x 3"
  "drop_bit 6 (ucast (x :: uint8) :: uint32) = 2 \<longleftrightarrow> bit x 7 \<and> \<not> bit x 6"
  unfolding uint32_eq_iff by (simp_all add: bit_simps) blast+

lemma is_trail_bits: "is_trail x \<longleftrightarrow> bit x 7 \<and> \<not> bit x 6"
  by (simp add: is_trail_def uint8_drop)

lemma sequence_length_bits:
  "sequence_length x =
     (if \<not> bit x 7 then 1 else if bit x 6 \<and> \<not> bit x 5 then 2 else if bit x 6 \<and> bit x 5 \<and> \<not> bit x 4 then 3
      else if bit x 6 \<and> bit x 5 \<and> bit x 4 \<and> \<not> bit x 3 then 4 else 0)"
  by (simp add: sequence_length_def Let_def uint8_high uint8_drop)

text \<open>The sums of the decoder combine disjoint bits.\<close>

lemma add_or:
  "(push_bit 6 (a :: uint32) AND 0x7ff) + (b AND 0x3f) = (push_bit 6 a AND 0x7ff) OR (b AND 0x3f)"
  "(push_bit 12 (a :: uint32) AND 0xffff) + (push_bit 6 b AND 0xfff) + (c AND 0x3f) =
     (push_bit 12 a AND 0xffff) OR (push_bit 6 b AND 0xfff) OR (c AND 0x3f)"
  "(push_bit 18 (a :: uint32) AND 0x1fffff) + (push_bit 12 b AND 0x3ffff) + (push_bit 6 c AND 0xfff) + (d AND 0x3f) =
     (push_bit 18 a AND 0x1fffff) OR (push_bit 12 b AND 0x3ffff) OR (push_bit 6 c AND 0xfff) OR (d AND 0x3f)"
proof -
  have dis: "x + y = x OR y" if "x AND y = 0" for x y :: uint32
    using that by (rule disjunctive_add_eq_or)
  have z: "(push_bit 6 a AND 0x7ff) AND (b AND 0x3f) = (0 :: uint32)" for a b
    by (rule uint32_eqI) (simp add: bit_simps)
  show "(push_bit 6 (a :: uint32) AND 0x7ff) + (b AND 0x3f) = (push_bit 6 a AND 0x7ff) OR (b AND 0x3f)"
    by (rule dis [OF z])
  have z1: "(push_bit 12 a AND 0xffff) AND (push_bit 6 b AND 0xfff) = (0 :: uint32)" for a b
    by (rule uint32_eqI) (simp add: bit_simps)
  have z2: "((push_bit 12 a AND 0xffff) OR (push_bit 6 b AND 0xfff)) AND (c AND 0x3f) = (0 :: uint32)" for a b c
    by (rule uint32_eqI) (simp add: bit_simps)
  show "(push_bit 12 (a :: uint32) AND 0xffff) + (push_bit 6 b AND 0xfff) + (c AND 0x3f) =
     (push_bit 12 a AND 0xffff) OR (push_bit 6 b AND 0xfff) OR (c AND 0x3f)"
    using dis [OF z1, of a b] dis [OF z2, of a b c] by (simp add: or.assoc)
  have y1: "(push_bit 18 a AND 0x1fffff) AND (push_bit 12 b AND 0x3ffff) = (0 :: uint32)" for a b
    by (rule uint32_eqI) (simp add: bit_simps)
  have y2: "((push_bit 18 a AND 0x1fffff) OR (push_bit 12 b AND 0x3ffff)) AND (push_bit 6 c AND 0xfff) = (0 :: uint32)" for a b c
    by (rule uint32_eqI) (simp add: bit_simps)
  have y3: "((push_bit 18 a AND 0x1fffff) OR (push_bit 12 b AND 0x3ffff) OR (push_bit 6 c AND 0xfff)) AND (d AND 0x3f)
      = (0 :: uint32)" for a b c d
    by (rule uint32_eqI) (simp add: bit_simps)
  show "(push_bit 18 (a :: uint32) AND 0x1fffff) + (push_bit 12 b AND 0x3ffff) + (push_bit 6 c AND 0xfff) + (d AND 0x3f) =
     (push_bit 18 a AND 0x1fffff) OR (push_bit 12 b AND 0x3ffff) OR (push_bit 6 c AND 0xfff) OR (d AND 0x3f)"
    using dis [OF y1, of a b] dis [OF y2, of a b c] dis [OF y3, of a b c d] by (simp add: or.assoc)
qed

section \<open>One code point: decoding and encoding are inverse\<close>

lemma bits_below:
  "(cp :: uint32) < 0x80 \<Longrightarrow> 7 \<le> n \<Longrightarrow> \<not> bit cp n" "cp < 0x800 \<Longrightarrow> 11 \<le> n \<Longrightarrow> \<not> bit cp n"
  "cp < 0x10000 \<Longrightarrow> 16 \<le> n \<Longrightarrow> \<not> bit cp n" "cp \<le> 0x10ffff \<Longrightarrow> 21 \<le> n \<Longrightarrow> \<not> bit cp n"
proof -
  show "cp < 0x80 \<Longrightarrow> 7 \<le> n \<Longrightarrow> \<not> bit cp n" using less_bits [of cp 7 n] by simp
  show "cp < 0x800 \<Longrightarrow> 11 \<le> n \<Longrightarrow> \<not> bit cp n" using less_bits [of cp 11 n] by simp
  show "cp < 0x10000 \<Longrightarrow> 16 \<le> n \<Longrightarrow> \<not> bit cp n" using less_bits [of cp 16 n] by simp
  assume "cp \<le> 0x10ffff" "21 \<le> n"
  then show "\<not> bit cp n" using less_bits [of cp 21 n] by (simp add: word_le_nat_alt word_less_nat_alt)
qed

lemma bound_of_bits: "(\<And>n. k \<le> n \<Longrightarrow> \<not> bit (x :: uint32) n) \<Longrightarrow> unat x < 2 ^ k"
proof -
  assume "\<And>n. k \<le> n \<Longrightarrow> \<not> bit x n"
  then have "take_bit k x = x" by (intro bit_word_eqI) (auto simp: bit_simps, meson not_le)
  then have "unat x = take_bit k (unat x)" by (metis unsigned_take_bit_eq)
  then show ?thesis by (metis take_bit_nat_less_exp)
qed

lemma decode_1: "(cp :: uint32) < 0x80 \<Longrightarrow> ucast (ucast cp :: uint8) = cp" "cp < 0x80 \<Longrightarrow> \<not> bit (ucast cp :: uint8) 7"
  using bits_below(1) [of cp] by (simp_all add: uint32_eq_iff bit_simps)

lemma decode_2:
  fixes cp :: uint32
  assumes "cp < 0x800"
  shows "(push_bit 6 (ucast (ucast (drop_bit 6 cp OR 0xc0) :: uint8)) AND 0x7ff) OR
    (ucast (ucast ((cp AND 0x3f) OR 0x80) :: uint8) AND 0x3f) = cp"
  using bits_below(2) [OF assms] by (simp add: uint32_eq_iff bit_simps)

lemma decode_3:
  fixes cp :: uint32
  assumes "cp < 0x10000"
  shows "(push_bit 12 (ucast (ucast (drop_bit 12 cp OR 0xe0) :: uint8)) AND 0xffff) OR
    (push_bit 6 (ucast (ucast ((drop_bit 6 cp AND 0x3f) OR 0x80) :: uint8)) AND 0xfff) OR
    (ucast (ucast ((cp AND 0x3f) OR 0x80) :: uint8) AND 0x3f) = cp"
  using bits_below(3) [OF assms] by (simp add: uint32_eq_iff bit_simps)

lemma decode_4:
  fixes cp :: uint32
  assumes "cp \<le> 0x10ffff"
  shows "(push_bit 18 (ucast (ucast (drop_bit 18 cp OR 0xf0) :: uint8)) AND 0x1fffff) OR
    (push_bit 12 (ucast (ucast ((drop_bit 12 cp AND 0x3f) OR 0x80) :: uint8)) AND 0x3ffff) OR
    (push_bit 6 (ucast (ucast ((drop_bit 6 cp AND 0x3f) OR 0x80) :: uint8)) AND 0xfff) OR
    (ucast (ucast ((cp AND 0x3f) OR 0x80) :: uint8) AND 0x3f) = cp"
  using bits_below(4) [OF assms] by (simp add: uint32_eq_iff bit_simps)

lemma next_append:
  assumes "u8_append cp = Inr os"
  shows "u8_next (os @ rest) = Inr (cp, rest)" "os \<noteq> []"
proof -
  have valid: "is_code_point_valid cp" using assms by (simp add: u8_append_def split: if_splits)
  then have top: "cp \<le> 0x10ffff" by (simp add: is_code_point_valid_def)
  note defs = valid u8_next_def validate_next_def sequence_length_bits is_overlong_sequence_def
    is_trail_bits get_sequence_1_def get_sequence_2_def get_sequence_3_def get_sequence_4_def add_or Let_def
  consider "cp < 0x80" | "\<not> cp < 0x80" "cp < 0x800" | "\<not> cp < 0x800" "\<not> cp < 0x80" "cp < 0x10000"
    | "\<not> cp < 0x10000" "\<not> cp < 0x800" "\<not> cp < 0x80" by blast
  then have "u8_next (os @ rest) = Inr (cp, rest) \<and> os \<noteq> []"
  proof cases
    case 1
    then have os: "os = [ucast cp]" using assms by (simp add: u8_append_def valid)
    show ?thesis unfolding os using 1 decode_1 [OF 1] by (simp add: defs)
  next
    case 2
    then have os: "os = [ucast (drop_bit 6 cp OR 0xc0), ucast ((cp AND 0x3f) OR 0x80)]"
      using assms by (simp add: u8_append_def valid)
    show ?thesis unfolding os using 2 decode_2 [OF 2(2)] bits_below(2) [OF 2(2)] by (simp add: defs bit_simps)
  next
    case 3
    then have os: "os = [ucast (drop_bit 12 cp OR 0xe0), ucast ((drop_bit 6 cp AND 0x3f) OR 0x80),
        ucast ((cp AND 0x3f) OR 0x80)]"
      using assms by (simp add: u8_append_def valid)
    show ?thesis unfolding os using 3 decode_3 [OF 3(3)] bits_below(3) [OF 3(3)] by (simp add: defs bit_simps)
  next
    case 4
    then have os: "os = [ucast (drop_bit 18 cp OR 0xf0), ucast ((drop_bit 12 cp AND 0x3f) OR 0x80),
        ucast ((drop_bit 6 cp AND 0x3f) OR 0x80), ucast ((cp AND 0x3f) OR 0x80)]"
      using assms by (simp add: u8_append_def valid)
    show ?thesis unfolding os using 4 decode_4 [OF top] bits_below(4) [OF top] by (simp add: defs bit_simps)
  qed
  then show "u8_next (os @ rest) = Inr (cp, rest)" "os \<noteq> []" by auto
qed

text \<open>What the decoder has consumed, by the length of the sequence.\<close>

lemma mask_bits: "bit (0x7ff :: int) n \<Longrightarrow> n < 11" "bit (0xffff :: int) n \<Longrightarrow> n < 16"
proof -
  have m: "(0x7ff :: int) = mask 11" "(0xffff :: int) = mask 16" by (simp_all add: mask_eq_exp_minus_1)
  show "bit (0x7ff :: int) n \<Longrightarrow> n < 11" "bit (0xffff :: int) n \<Longrightarrow> n < 16"
    unfolding m by (simp_all add: bit_mask_iff)
qed

lemma encode_2:
  fixes a b :: uint8 and cp :: uint32
  assumes "cp = (push_bit 6 (ucast a) AND 0x7ff) OR (ucast b AND 0x3f)"
    and "bit a 7" "bit a 6" "\<not> bit a 5" "bit b 7" "\<not> bit b 6"
  shows "cp < 0x800" "ucast (drop_bit 6 cp OR 0xc0) = a" "ucast ((cp AND 0x3f) OR 0x80) = b"
proof -
  have "unat cp < 2 ^ 11" by (rule bound_of_bits) (auto simp: assms(1) bit_simps dest: mask_bits)
  then show "cp < 0x800" by (simp add: word_less_nat_alt)
  show "ucast (drop_bit 6 cp OR 0xc0) = a" "ucast ((cp AND 0x3f) OR 0x80) = b"
    by (rule uint8_eqI; simp add: assms bit_simps)+
qed

lemma encode_3:
  fixes a b c :: uint8 and cp :: uint32
  assumes "cp = (push_bit 12 (ucast a) AND 0xffff) OR (push_bit 6 (ucast b) AND 0xfff) OR (ucast c AND 0x3f)"
    and "bit a 7" "bit a 6" "bit a 5" "\<not> bit a 4" "bit b 7" "\<not> bit b 6" "bit c 7" "\<not> bit c 6"
  shows "cp < 0x10000" "ucast (drop_bit 12 cp OR 0xe0) = a" "ucast ((drop_bit 6 cp AND 0x3f) OR 0x80) = b"
    "ucast ((cp AND 0x3f) OR 0x80) = c"
proof -
  have "unat cp < 2 ^ 16" by (rule bound_of_bits) (auto simp: assms(1) bit_simps dest: mask_bits)
  then show "cp < 0x10000" by (simp add: word_less_nat_alt)
  show "ucast (drop_bit 12 cp OR 0xe0) = a" "ucast ((drop_bit 6 cp AND 0x3f) OR 0x80) = b"
    "ucast ((cp AND 0x3f) OR 0x80) = c"
    by (rule uint8_eqI; simp add: assms bit_simps)+
qed

lemma encode_4:
  fixes a b c d :: uint8 and cp :: uint32
  assumes "cp = (push_bit 18 (ucast a) AND 0x1fffff) OR (push_bit 12 (ucast b) AND 0x3ffff)
      OR (push_bit 6 (ucast c) AND 0xfff) OR (ucast d AND 0x3f)"
    and "bit a 7" "bit a 6" "bit a 5" "bit a 4" "\<not> bit a 3" "bit b 7" "\<not> bit b 6" "bit c 7" "\<not> bit c 6" "bit d 7" "\<not> bit d 6"
  shows "ucast (drop_bit 18 cp OR 0xf0) = a" "ucast ((drop_bit 12 cp AND 0x3f) OR 0x80) = b"
    "ucast ((drop_bit 6 cp AND 0x3f) OR 0x80) = c" "ucast ((cp AND 0x3f) OR 0x80) = d"
  by (rule uint8_eqI; simp add: assms bit_simps)+

lemma increase_safely_Inr: "increase_safely it = Inr it' \<longleftrightarrow> (\<exists>x y ys. it = x # y # ys \<and> it' = y # ys \<and> is_trail y)"
  by (cases it rule: increase_safely.cases) auto

lemma sbind_Inr: "sbind m f = Inr y \<longleftrightarrow> (\<exists>x. m = Inr x \<and> f x = Inr y)"
  by (cases m) auto

lemma next_canonical:
  assumes "u8_next it = Inr (cp, rest)"
  shows "\<exists>os. u8_append cp = Inr os \<and> it = os @ rest"
proof -
  have v: "validate_next it = Inr (cp, rest)"
    using assms by (auto simp: u8_next_def split: sum.splits utf_error.splits)
  then have "it \<noteq> []" by (auto simp: validate_next_def get_sequence_1_def)
  then obtain a as where it: "it = a # as" by (cases it) auto
  have valid: "is_code_point_valid cp" and short: "\<not> is_overlong_sequence cp (sequence_length a)"
    and len: "sequence_length a \<noteq> 0"
    using v by (auto simp: validate_next_def it Let_def sbind_Inr split: if_splits)
  note defs = validate_next_def Let_def sbind_Inr increase_safely_Inr is_trail_bits add_or
    get_sequence_1_def get_sequence_2_def get_sequence_3_def get_sequence_4_def
  have "sequence_length a \<in> {1, 2, 3, 4}" using len by (simp add: sequence_length_bits split: if_splits)
  then consider "sequence_length a = 1" | "sequence_length a = 2" | "sequence_length a = 3" | "sequence_length a = 4"
    by auto
  then show ?thesis
  proof cases
    case 1
    then have "cp = ucast a" "rest = as" using v by (auto simp: it defs split: if_splits)
    moreover have "\<not> bit a 7" using 1 by (simp add: sequence_length_bits split: if_splits)
    then have "(ucast a :: uint32) < 0x80" by (simp add: uint8_high)
    moreover have "(ucast (ucast a :: uint32) :: uint8) = a" by (rule uint8_eqI) (simp add: bit_simps)
    ultimately show ?thesis using valid by (simp add: u8_append_def it)
  next
    case 2
    then obtain b where b: "as = b # rest" "bit b 7" "\<not> bit b 6"
      "cp = (push_bit 6 (ucast a) AND 0x7ff) OR (ucast b AND 0x3f)"
      using v by (auto simp: it defs split: if_splits)
    have "bit a 7 \<and> bit a 6 \<and> \<not> bit a 5" using 2 by (simp add: sequence_length_bits split: if_splits)
    with encode_2 [OF b(4)] b(2,3) short valid 2 show ?thesis
      by (auto simp: u8_append_def it b(1) is_overlong_sequence_def split: if_splits)
  next
    case 3
    then obtain b c where b: "as = b # c # rest" "bit b 7" "\<not> bit b 6" "bit c 7" "\<not> bit c 6"
      "cp = (push_bit 12 (ucast a) AND 0xffff) OR (push_bit 6 (ucast b) AND 0xfff) OR (ucast c AND 0x3f)"
      using v by (auto simp: it defs split: if_splits)
    have "bit a 7 \<and> bit a 6 \<and> bit a 5 \<and> \<not> bit a 4" using 3 by (simp add: sequence_length_bits split: if_splits)
    with encode_3 [OF b(6)] b(2-5) short valid 3 show ?thesis
      by (auto simp: u8_append_def it b(1) is_overlong_sequence_def split: if_splits)
  next
    case 4
    then obtain b c d where b: "as = b # c # d # rest" "bit b 7" "\<not> bit b 6" "bit c 7" "\<not> bit c 6" "bit d 7" "\<not> bit d 6"
      "cp = (push_bit 18 (ucast a) AND 0x1fffff) OR (push_bit 12 (ucast b) AND 0x3ffff)
        OR (push_bit 6 (ucast c) AND 0xfff) OR (ucast d AND 0x3f)"
      using v by (auto simp: it defs split: if_splits)
    have "bit a 7 \<and> bit a 6 \<and> bit a 5 \<and> bit a 4 \<and> \<not> bit a 3" using 4 by (simp add: sequence_length_bits split: if_splits)
    with encode_4 [OF b(8)] b(2-7) short valid 4 show ?thesis
      by (auto simp: u8_append_def it b(1) is_overlong_sequence_def split: if_splits)
  qed
qed

section \<open>Strings\<close>

type_synonym wchar = uint32
type_synonym wstring = "wchar list"

lemma next_shorter: "u8_next it = Inr (cp, rest) \<Longrightarrow> length rest < length it"
  using next_canonical [of it cp rest] next_append(2) by fastforce

function u8_distance :: "bytes \<Rightarrow> u8_exception + nat" where
  "u8_distance it =
     (if it = [] then Inr 0
      else sbind (u8_next it) (\<lambda>(cp, rest). if length rest < length it
             then sbind (u8_distance rest) (\<lambda>n. Inr (Suc n)) else Inl not_enough_room))"
  by pat_completeness auto
termination
  by (relation "measure length") auto

declare u8_distance.simps [simp del]

text \<open>What a code point becomes in UTF-16; the units are written through a \<^verbatim>\<open>wchar_t\<close> pointer.\<close>

definition utf16_units :: "uint32 \<Rightarrow> wstring" where
  "utf16_units cp =
     (if cp > 0xffff
      then [ucast (ucast (drop_bit 10 cp + 0xd7c0) :: uint16), ucast (ucast ((cp AND 0x3ff) + 0xdc00) :: uint16)]
      else [ucast (ucast cp :: uint16)])"

function utf8to16 :: "bytes \<Rightarrow> u8_exception + wstring" where
  "utf8to16 it =
     (if it = [] then Inr []
      else sbind (u8_next it) (\<lambda>(cp, rest). if length rest < length it
             then sbind (utf8to16 rest) (\<lambda>ws. Inr (utf16_units cp @ ws)) else Inl not_enough_room))"
  by pat_completeness auto
termination
  by (relation "measure length") auto

declare utf8to16.simps [simp del]

fun utf16to8 :: "wstring \<Rightarrow> u8_exception + bytes" where
  "utf16to8 [] = Inr []"
| "utf16to8 (w # ws) =
     (let cp = mask16 w in
      if is_lead_surrogate cp
      then (case ws of
              [] \<Rightarrow> Inl (invalid_utf16 cp)
            | t # ws' \<Rightarrow>
                let trail_surrogate = mask16 t in
                if is_trail_surrogate trail_surrogate
                then sbind (u8_append (push_bit 10 cp + trail_surrogate + 0xfca02400))
                       (\<lambda>os. sbind (utf16to8 ws') (\<lambda>r. Inr (os @ r)))
                else Inl (invalid_utf16 trail_surrogate))
      else if is_trail_surrogate cp then Inl (invalid_utf16 cp)
      else sbind (u8_append cp) (\<lambda>os. sbind (utf16to8 ws) (\<lambda>r. Inr (os @ r))))"

text \<open>The guard of the recursion always holds, so the loops are those of the code.\<close>

lemma u8_distance_step:
  "u8_distance [] = Inr 0"
  "it \<noteq> [] \<Longrightarrow> u8_distance it = sbind (u8_next it) (\<lambda>(cp, rest). sbind (u8_distance rest) (\<lambda>n. Inr (Suc n)))"
  by (subst u8_distance.simps; auto simp: sbind_def dest: next_shorter split: sum.splits)+

lemma utf8to16_step:
  "utf8to16 [] = Inr []"
  "it \<noteq> [] \<Longrightarrow> utf8to16 it = sbind (u8_next it) (\<lambda>(cp, rest). sbind (utf8to16 rest) (\<lambda>ws. Inr (utf16_units cp @ ws)))"
  by (subst utf8to16.simps; auto simp: sbind_def dest: next_shorter split: sum.splits)+

text \<open>The encoding of a whole sequence of code points.\<close>

fun u8_encode :: "uint32 list \<Rightarrow> u8_exception + bytes" where
  "u8_encode [] = Inr []"
| "u8_encode (cp # cps) = sbind (u8_append cp) (\<lambda>os. sbind (u8_encode cps) (\<lambda>r. Inr (os @ r)))"

lemma u8_encode_next:
  "u8_encode (cp # cps) = Inr it \<Longrightarrow> it \<noteq> [] \<and> (\<exists>rest. u8_next it = Inr (cp, rest) \<and> u8_encode cps = Inr rest)"
  using next_append by (fastforce simp: sbind_Inr)

lemma u8_distance_encode: "u8_encode cps = Inr s \<Longrightarrow> u8_distance s = Inr (length cps)"
proof (induction cps arbitrary: s)
  case (Cons cp cps)
  from u8_encode_next [OF Cons.prems] obtain rest where
    r: "s \<noteq> []" "u8_next s = Inr (cp, rest)" "u8_encode cps = Inr rest" by blast
  with Cons.IH [OF r(3)] show ?case by (simp add: u8_distance_step)
qed (simp add: u8_distance_step)

lemma utf8to16_encode: "u8_encode cps = Inr s \<Longrightarrow> utf8to16 s = Inr (concat (map utf16_units cps))"
proof (induction cps arbitrary: s)
  case (Cons cp cps)
  from u8_encode_next [OF Cons.prems] obtain rest where
    r: "s \<noteq> []" "u8_next s = Inr (cp, rest)" "u8_encode cps = Inr rest" by blast
  with Cons.IH [OF r(3)] show ?case by (simp add: utf8to16_step)
qed (simp add: utf8to16_step)

lemma u8_distance_decode: "u8_distance s = Inr n \<Longrightarrow> \<exists>cps. u8_encode cps = Inr s"
proof (induction s arbitrary: n rule: measure_induct_rule [of length])
  case (less s)
  show ?case
  proof (cases "s = []")
    case True
    then have "u8_encode [] = Inr s" by simp
    then show ?thesis by blast
  next
    case False
    with less.prems obtain cp rest m where r: "u8_next s = Inr (cp, rest)" "u8_distance rest = Inr m"
      by (auto simp: u8_distance_step sbind_Inr)
    from less.IH [OF next_shorter [OF r(1)] r(2)] obtain cps where "u8_encode cps = Inr rest" by blast
    moreover from next_canonical [OF r(1)] obtain os where "u8_append cp = Inr os" "s = os @ rest" by blast
    ultimately have "u8_encode (cp # cps) = Inr s" by simp
    then show ?thesis by blast
  qed
qed

lemma utf8to16_decode: "utf8to16 s = Inr ws \<Longrightarrow> \<exists>cps. u8_encode cps = Inr s"
proof (induction s arbitrary: ws rule: measure_induct_rule [of length])
  case (less s)
  show ?case
  proof (cases "s = []")
    case True
    then have "u8_encode [] = Inr s" by simp
    then show ?thesis by blast
  next
    case False
    with less.prems obtain cp rest vs where r: "u8_next s = Inr (cp, rest)" "utf8to16 rest = Inr vs"
      by (auto simp: utf8to16_step sbind_Inr)
    from less.IH [OF next_shorter [OF r(1)] r(2)] obtain cps where "u8_encode cps = Inr rest" by blast
    moreover from next_canonical [OF r(1)] obtain os where "u8_append cp = Inr os" "s = os @ rest" by blast
    ultimately have "u8_encode (cp # cps) = Inr s" by simp
    then show ?thesis by blast
  qed
qed

lemma unat_ucast16: "unat (x :: uint32) < 65536 \<Longrightarrow> unat (ucast (ucast x :: uint16) :: uint32) = unat x"
  by (simp add: unsigned_ucast_eq take_bit_eq_mod unat_mod)

lemma mask16_small: "unat x < 65536 \<Longrightarrow> mask16 x = x"
  using less_bits [of x 16] by (simp add: uint32_eq_iff mask16_def bit_simps word_less_nat_alt)

lemma surrogate_pair:
  assumes "cp > 0xffff" "is_code_point_valid cp"
  defines "lead \<equiv> ucast (ucast (drop_bit 10 cp + 0xd7c0) :: uint16) :: uint32"
    and "trail \<equiv> ucast (ucast ((cp AND 0x3ff) + 0xdc00) :: uint16) :: uint32"
  shows "mask16 lead = lead" "mask16 trail = trail" "is_lead_surrogate lead" "is_trail_surrogate trail"
    "push_bit 10 lead + trail + 0xfca02400 = cp"
proof -
  have n: "65536 \<le> unat cp" "unat cp \<le> 0x10ffff"
    using assms(1,2) by (simp_all add: is_code_point_valid_def word_le_nat_alt word_less_nat_alt)
  have "(cp AND 0x3ff) = take_bit 10 cp"
    using take_bit_eq_mask [of 10 cp] by (simp add: mask_eq_exp_minus_1)
  then have low: "unat (cp AND 0x3ff) = unat cp mod 1024"
    by (simp add: take_bit_eq_mod unat_mod)
  have high: "unat (drop_bit 10 cp) = unat cp div 1024"
    by (simp add: drop_bit_eq_div unat_div)
  have hs: "unat (drop_bit 10 cp + 0xd7c0) = unat cp div 1024 + 0xd7c0"
    using n by (simp add: unat_word_ariths high)
  have ls: "unat ((cp AND 0x3ff) + 0xdc00) = unat cp mod 1024 + 0xdc00"
    by (simp add: unat_word_ariths low)
  have l: "unat lead = unat cp div 1024 + 0xd7c0"
    unfolding lead_def using n hs by (subst unat_ucast16) simp_all
  have t: "unat trail = unat cp mod 1024 + 0xdc00"
    unfolding trail_def using ls by (subst unat_ucast16) simp_all
  show "mask16 lead = lead" "mask16 trail = trail" using l t n by (auto intro!: mask16_small)
  have "64 \<le> unat cp div 1024" "unat cp div 1024 \<le> 1087" using n by linarith+
  then show "is_lead_surrogate lead" "is_trail_surrogate trail"
    using l t by (simp_all add: is_lead_surrogate_def is_trail_surrogate_def word_le_nat_alt)
  have "push_bit 10 lead + trail + 0xfca02400 = of_nat (unat lead * 1024 + unat trail + 0xfca02400)"
    by (simp add: push_bit_eq_mult)
  also have "unat lead * 1024 + unat trail + 0xfca02400 = unat cp + 2 ^ 32"
    unfolding l t using n by simp
  also have "(of_nat (unat cp + 2 ^ 32) :: uint32) = cp" by simp
  finally show "push_bit 10 lead + trail + 0xfca02400 = cp" .
qed

lemma utf16to8_units:
  assumes "is_code_point_valid cp"
  shows "utf16to8 (utf16_units cp @ ws) = sbind (u8_append cp) (\<lambda>os. sbind (utf16to8 ws) (\<lambda>r. Inr (os @ r)))"
proof (cases "cp > 0xffff")
  case True
  then show ?thesis using surrogate_pair [OF True assms] by (simp add: utf16_units_def)
next
  case False
  then have n: "unat cp < 65536" by (simp add: word_less_nat_alt)
  have c: "ucast (ucast cp :: uint16) = cp" using unat_ucast16 [OF n] by (simp add: word_unat_eq_iff)
  have "\<not> is_lead_surrogate cp" "\<not> is_trail_surrogate cp"
    using assms unfolding is_code_point_valid_def is_surrogate_def is_lead_surrogate_def is_trail_surrogate_def
    by (auto simp: word_le_nat_alt)
  with False show ?thesis by (simp add: utf16_units_def c mask16_small [OF n])
qed

lemma u8_append_valid: "u8_append cp = Inr os \<Longrightarrow> is_code_point_valid cp"
  by (simp add: u8_append_def split: if_splits)

lemma utf16to8_encode: "u8_encode cps = Inr s \<Longrightarrow> utf16to8 (concat (map utf16_units cps)) = Inr s"
proof (induction cps arbitrary: s)
  case (Cons cp cps)
  then obtain os r where o: "u8_append cp = Inr os" "u8_encode cps = Inr r" "s = os @ r" by (auto simp: sbind_Inr)
  from Cons.IH [OF o(2)] utf16to8_units [OF u8_append_valid [OF o(1)]] o show ?case by simp
qed simp

section \<open>The buffers of the server\<close>

text \<open>
  \<^verbatim>\<open>Utf8toWStr\<close> sizes the target by the number of code points and then writes the
  UTF-16 units; a write behind the end of the buffer is an error value of its own
  (the other one is the exception of a string, which the names below can raise).
  \<open>Inr None\<close> is the result false, \<open>Inr (Some w)\<close> the result true with the string.
\<close>

datatype wide_error = BufferOverrun | OutOfRange

definition Utf8toWStr :: "bytes \<Rightarrow> wide_error + wstring option" where
  "Utf8toWStr utf8str =
     (case u8_distance utf8str of
        Inl _ \<Rightarrow> Inr None
      | Inr len \<Rightarrow>
          if len \<noteq> 0
          then (case utf8to16 utf8str of
                  Inl _ \<Rightarrow> Inr None
                | Inr units \<Rightarrow> if length units > len then Inl BufferOverrun else Inr (Some units))
          else Inr (Some []))"

text \<open>The version for an array of \<open>cap\<close> elements, told to use at most \<open>wsize\<close> of them.\<close>

definition Utf8toWStr_array :: "bytes \<Rightarrow> nat \<Rightarrow> nat \<Rightarrow> wide_error + wstring option" where
  "Utf8toWStr_array utf8str cap wsize =
     (case u8_distance utf8str of
        Inl _ \<Rightarrow> Inr None
      | Inr len \<Rightarrow>
          if len > wsize then Inr None
          else (case utf8to16 utf8str of
                  Inl _ \<Rightarrow> Inr None
                | Inr units \<Rightarrow>
                    if length units > cap \<or> len \<ge> cap then Inl BufferOverrun else Inr (Some (take len units))))"

text \<open>The target has four octets for each unit, enough for every code point.\<close>

definition WStrToUtf8 :: "wstring \<Rightarrow> bytes option" where
  "WStrToUtf8 wstr = (case utf16to8 wstr of Inl _ \<Rightarrow> None | Inr s \<Rightarrow> Some s)"

definition utf8length :: "bytes \<Rightarrow> nat \<times> bytes" where
  "utf8length utf8str = (case u8_distance utf8str of Inl _ \<Rightarrow> (0, []) | Inr n \<Rightarrow> (n, utf8str))"

definition utf8truncate :: "bytes \<Rightarrow> nat \<Rightarrow> wide_error + bytes" where
  "utf8truncate utf8str len =
     (case u8_distance utf8str of
        Inl _ \<Rightarrow> Inr []
      | Inr wlen \<Rightarrow>
          if wlen \<le> len then Inr utf8str
          else (case utf8to16 utf8str of
                  Inl _ \<Rightarrow> Inr []
                | Inr units \<Rightarrow>
                    if length units > wlen then Inl BufferOverrun
                    else (case utf16to8 (take len units) of Inl _ \<Rightarrow> Inr [] | Inr s \<Rightarrow> Inr s)))"

text \<open>Within the basic plane the first \<open>len\<close> code points remain.\<close>

lemma utf16_units_bmp: "\<forall>cp \<in> set cps. cp \<le> 0xffff \<Longrightarrow> concat (map utf16_units cps) = map (\<lambda>cp. ucast (ucast cp :: uint16)) cps"
  by (induction cps) (auto simp: utf16_units_def)

lemma u8_encode_take: "u8_encode cps = Inr s \<Longrightarrow> \<exists>r. u8_encode (take n cps) = Inr r"
proof (induction cps arbitrary: s n)
  case (Cons cp cps)
  then obtain os r where o: "u8_append cp = Inr os" "u8_encode cps = Inr r" by (auto simp: sbind_Inr)
  obtain q where "u8_encode (take (n - 1) cps) = Inr q" using Cons.IH [OF o(2)] by blast
  with o show ?case by (cases n) auto
qed simp

lemma utf8truncate_bmp:
  assumes "u8_encode cps = Inr s" and "\<forall>cp \<in> set cps. cp \<le> 0xffff"
  shows "map_sum id Inr (utf8truncate s len) = Inr (u8_encode (take len cps))"
proof -
  obtain r where r: "u8_encode (take len cps) = Inr r" using u8_encode_take [OF assms(1)] by blast
  have "\<forall>cp \<in> set (take len cps). cp \<le> 0xffff" using assms(2) by (meson in_set_takeD)
  from utf16_units_bmp [OF this] utf16_units_bmp [OF assms(2)]
  have "take len (concat (map utf16_units cps)) = concat (map utf16_units (take len cps))" by (simp add: take_map)
  then show ?thesis
    using u8_distance_encode [OF assms(1)] utf8to16_encode [OF assms(1)] utf16to8_encode [OF r] r assms(1)
      utf16_units_bmp [OF assms(2)] by (auto simp: utf8truncate_def)
qed

text \<open>C38. The decoder accepts exactly the canonical encodings: \<^verbatim>\<open>utf8::next\<close> yields a code point
  and the rest of the input if and only if the input is what \<^verbatim>\<open>utf8::append\<close> writes for that code
  point followed by the rest. So overlong forms, surrogates, values above 0x10FFFF and
  truncated sequences are all refused, and every encoded code point is read back.\<close>

theorem utf8_next_exact:
  "u8_next it = Inr (cp, rest) \<longleftrightarrow> (\<exists>os. u8_append cp = Inr os \<and> it = os @ rest)"
  using next_canonical [of it cp rest] next_append(1) by blast

text \<open>Converting a string to UTF-16 and back gives the string: whenever \<^verbatim>\<open>utf8to16\<close> succeeds,
  \<^verbatim>\<open>utf16to8\<close> maps its result to the original octets, surrogate pairs included.\<close>

theorem utf16_round_trip:
  assumes "utf8to16 s = Inr ws"
  shows "utf16to8 ws = Inr s"
proof -
  from utf8to16_decode [OF assms] obtain cps where cps: "u8_encode cps = Inr s" by blast
  with utf8to16_encode [OF cps] assms have "ws = concat (map utf16_units cps)" by simp
  with utf16to8_encode [OF cps] show ?thesis by simp
qed

theorem utf16_round_trip_witness: "utf16to8 [65, 0xd83d, 0xde00] = Inr [65, 0xf0, 0x9f, 0x98, 0x80]"
  by (rule utf16_round_trip) code_simp

text \<open>C39. \<^verbatim>\<open>Utf8toWStr\<close> writes behind the end of the string it has sized exactly when the input is
  valid UTF-8 that contains a code point above 0xFFFF: the size is counted in code points, but
  such a code point takes two units.\<close>

theorem utf8_to_wstr_overrun:
  "Utf8toWStr s = Inl BufferOverrun \<longleftrightarrow> (\<exists>cps. u8_encode cps = Inr s \<and> (\<exists>cp \<in> set cps. cp > 0xffff))"
proof -
  have len: "length (concat (map utf16_units cps)) > length cps \<longleftrightarrow> (\<exists>cp \<in> set cps. cp > 0xffff)" for cps
  proof -
    have "length (concat (map utf16_units cps)) = length cps + length (filter (\<lambda>cp. cp > 0xffff) cps)"
      by (induction cps) (auto simp: utf16_units_def)
    then show ?thesis by (auto simp: filter_empty_conv)
  qed
  show ?thesis
  proof (cases "u8_distance s")
    case (Inl e)
    then have "\<nexists>cps. u8_encode cps = Inr s" using u8_distance_encode by fastforce
    with Inl show ?thesis by (simp add: Utf8toWStr_def)
  next
    case (Inr n)
    from u8_distance_decode [OF this] obtain cps where cps: "u8_encode cps = Inr s" by blast
    with Inr u8_distance_encode have n: "n = length cps" by fastforce
    have uniq: "cps' = cps" if "u8_encode cps' = Inr s" for cps'
      using that cps
    proof (induction cps' arbitrary: cps s)
      case Nil
      then show ?case by (cases cps) (auto dest!: u8_encode_next simp del: u8_encode.simps(2))
    next
      case (Cons c cs)
      then show ?case by (cases cps) (auto dest!: u8_encode_next simp del: u8_encode.simps(2))
    qed
    have "Utf8toWStr s = Inl BufferOverrun \<longleftrightarrow> length (concat (map utf16_units cps)) > length cps"
      using Inr n by (auto simp: Utf8toWStr_def utf8to16_encode [OF cps])
    with len [of cps] cps uniq show ?thesis by metis
  qed
qed

end
