(* ===== verification/Wide_Chars.thy ===== *)
theory Wide_Chars
  imports UTF8
begin

text \<open>
  Wide characters: the character classes and case mappings of
  src/Core/src/server/shared/Utilities/Util.h. A \<^verbatim>\<open>wchar_t\<close> is a 32-bit word; every range
  test of the code has an upper bound, so that the sign does not matter.
\<close>

section \<open>Character classes\<close>

definition isBasicLatinCharacter :: "wchar \<Rightarrow> bool" where
  "isBasicLatinCharacter w =
     (if w \<ge> 0x61 \<and> w \<le> 0x7a then True else if w \<ge> 0x41 \<and> w \<le> 0x5a then True else False)"

definition isExtendedLatinCharacter :: "wchar \<Rightarrow> bool" where
  "isExtendedLatinCharacter w =
     (if isBasicLatinCharacter w then True
      else if w \<ge> 0x00C0 \<and> w \<le> 0x00D6 then True
      else if w \<ge> 0x00D8 \<and> w \<le> 0x00DE then True
      else if w = 0x00DF then True
      else if w \<ge> 0x00E0 \<and> w \<le> 0x00F6 then True
      else if w \<ge> 0x00F8 \<and> w \<le> 0x00FE then True
      else if w \<ge> 0x0100 \<and> w \<le> 0x012F then True
      else if w = 0x1E9E then True
      else False)"

definition isCyrillicCharacter :: "wchar \<Rightarrow> bool" where
  "isCyrillicCharacter w =
     (if w \<ge> 0x0410 \<and> w \<le> 0x044F then True else if w = 0x0401 \<or> w = 0x0451 then True else False)"

definition isEastAsianCharacter :: "wchar \<Rightarrow> bool" where
  "isEastAsianCharacter w =
     (if w \<ge> 0x1100 \<and> w \<le> 0x11F9 then True
      else if w \<ge> 0x3041 \<and> w \<le> 0x30FF then True
      else if w \<ge> 0x3131 \<and> w \<le> 0x318E then True
      else if w \<ge> 0x31F0 \<and> w \<le> 0x31FF then True
      else if w \<ge> 0x3400 \<and> w \<le> 0x4DB5 then True
      else if w \<ge> 0x4E00 \<and> w \<le> 0x9FC3 then True
      else if w \<ge> 0xAC00 \<and> w \<le> 0xD7A3 then True
      else if w \<ge> 0xFF01 \<and> w \<le> 0xFFEE then True
      else False)"

definition isNumeric :: "wchar \<Rightarrow> bool" where
  "isNumeric w \<longleftrightarrow> w \<ge> 0x30 \<and> w \<le> 0x39"

definition isNumericOrSpace :: "wchar \<Rightarrow> bool" where
  "isNumericOrSpace w \<longleftrightarrow> isNumeric w \<or> w = 0x20"

text \<open>The four loops over a string have the same shape.\<close>

fun isBasicLatinString :: "wstring \<Rightarrow> bool \<Rightarrow> bool" where
  "isBasicLatinString [] numericOrSpace = True"
| "isBasicLatinString (w # ws) numericOrSpace =
     (if \<not> isBasicLatinCharacter w \<and> (\<not> numericOrSpace \<or> \<not> isNumericOrSpace w) then False
      else isBasicLatinString ws numericOrSpace)"

fun isExtendedLatinString :: "wstring \<Rightarrow> bool \<Rightarrow> bool" where
  "isExtendedLatinString [] numericOrSpace = True"
| "isExtendedLatinString (w # ws) numericOrSpace =
     (if \<not> isExtendedLatinCharacter w \<and> (\<not> numericOrSpace \<or> \<not> isNumericOrSpace w) then False
      else isExtendedLatinString ws numericOrSpace)"

fun isCyrillicString :: "wstring \<Rightarrow> bool \<Rightarrow> bool" where
  "isCyrillicString [] numericOrSpace = True"
| "isCyrillicString (w # ws) numericOrSpace =
     (if \<not> isCyrillicCharacter w \<and> (\<not> numericOrSpace \<or> \<not> isNumericOrSpace w) then False
      else isCyrillicString ws numericOrSpace)"

fun isEastAsianString :: "wstring \<Rightarrow> bool \<Rightarrow> bool" where
  "isEastAsianString [] numericOrSpace = True"
| "isEastAsianString (w # ws) numericOrSpace =
     (if \<not> isEastAsianCharacter w \<and> (\<not> numericOrSpace \<or> \<not> isNumericOrSpace w) then False
      else isEastAsianString ws numericOrSpace)"

section \<open>Case\<close>

text \<open>\<^verbatim>\<open>uint16(wchar)\<close>, promoted.\<close>

definition w16 :: "wchar \<Rightarrow> wchar" where
  "w16 w = ucast (ucast w :: uint16)"

definition wcharToUpper :: "wchar \<Rightarrow> wchar" where
  "wcharToUpper w =
     (if w \<ge> 0x61 \<and> w \<le> 0x7a then w16 w - 0x0020
      else if w = 0x00DF then 0x1E9E
      else if w \<ge> 0x00E0 \<and> w \<le> 0x00F6 then w16 w - 0x0020
      else if w \<ge> 0x00F8 \<and> w \<le> 0x00FE then w16 w - 0x0020
      else if w \<ge> 0x0101 \<and> w \<le> 0x012F \<and> w mod 2 = 1 then w16 w - 0x0001
      else if w \<ge> 0x0430 \<and> w \<le> 0x044F then w16 w - 0x0020
      else if w = 0x0451 then 0x0401
      else w)"

definition wcharToUpperOnlyLatin :: "wchar \<Rightarrow> wchar" where
  "wcharToUpperOnlyLatin w = (if isBasicLatinCharacter w then wcharToUpper w else w)"

definition wcharToLower :: "wchar \<Rightarrow> wchar" where
  "wcharToLower w =
     (if w \<ge> 0x41 \<and> w \<le> 0x5a then w16 w + 0x0020
      else if w \<ge> 0x00C0 \<and> w \<le> 0x00D6 then w16 w + 0x0020
      else if w \<ge> 0x00D8 \<and> w \<le> 0x00DE then w16 w + 0x0020
      else if w \<ge> 0x0100 \<and> w \<le> 0x012E \<and> w mod 2 = 0 then w16 w + 0x0001
      else if w = 0x1E9E then 0x00DF
      else if w = 0x0401 then 0x0451
      else if w \<ge> 0x0410 \<and> w \<le> 0x042F then w16 w + 0x0020
      else w)"

definition wstrToUpper :: "wstring \<Rightarrow> wstring" where
  "wstrToUpper str = map wcharToUpper str"

definition wstrToLower :: "wstring \<Rightarrow> wstring" where
  "wstrToLower str = map wcharToLower str"

text \<open>The same mappings on numbers.\<close>

definition upper_code :: "nat \<Rightarrow> nat" where
  "upper_code n =
     (if 0x61 \<le> n \<and> n \<le> 0x7a then n - 32
      else if n = 0xDF then 0x1E9E
      else if 0xE0 \<le> n \<and> n \<le> 0xF6 then n - 32
      else if 0xF8 \<le> n \<and> n \<le> 0xFE then n - 32
      else if 0x101 \<le> n \<and> n \<le> 0x12F \<and> n mod 2 = 1 then n - 1
      else if 0x430 \<le> n \<and> n \<le> 0x44F then n - 32
      else if n = 0x451 then 0x401
      else n)"

definition lower_code :: "nat \<Rightarrow> nat" where
  "lower_code n =
     (if 0x41 \<le> n \<and> n \<le> 0x5a then n + 32
      else if 0xC0 \<le> n \<and> n \<le> 0xD6 then n + 32
      else if 0xD8 \<le> n \<and> n \<le> 0xDE then n + 32
      else if 0x100 \<le> n \<and> n \<le> 0x12E \<and> n mod 2 = 0 then n + 1
      else if n = 0x1E9E then 0xDF
      else if n = 0x401 then 0x451
      else if 0x410 \<le> n \<and> n \<le> 0x42F then n + 32
      else n)"

lemma unat_w16: "unat w < 65536 \<Longrightarrow> unat (w16 w) = unat w"
  unfolding w16_def by (rule unat_ucast16)

lemma unat_w16_add: "unat w < 65000 \<Longrightarrow> unat (w16 w + 0x0020) = unat w + 32" "unat w < 65000 \<Longrightarrow> unat (w16 w + 1) = unat w + 1"
  by (simp_all add: unat_word_ariths unat_w16)

lemma unat_w16_diff:
  "32 \<le> unat w \<Longrightarrow> unat w < 65536 \<Longrightarrow> unat (w16 w - 0x0020) = unat w - 32"
  "1 \<le> unat w \<Longrightarrow> unat w < 65536 \<Longrightarrow> unat (w16 w - 1) = unat w - 1"
  using unat_w16 [of w] by (simp_all add: unat_sub_if_size word_size)

lemma even_unat: "(w :: wchar) mod 2 = 0 \<longleftrightarrow> unat w mod 2 = 0" "(w :: wchar) mod 2 = 1 \<longleftrightarrow> unat w mod 2 = 1"
proof -
  have "unat (w mod 2) = unat w mod 2" by (simp add: unat_mod)
  then show "w mod 2 = 0 \<longleftrightarrow> unat w mod 2 = 0" "w mod 2 = 1 \<longleftrightarrow> unat w mod 2 = 1"
    by (metis unat_0 unat_eq_zero, metis unat_1 word_unat_eq_iff)
qed

lemma unat_lower: "unat (wcharToLower w) = lower_code (unat w)"
  unfolding wcharToLower_def lower_code_def even_unat
  by (simp add: word_le_nat_alt word_unat_eq_iff unat_w16_add)

lemma unat_upper: "unat (wcharToUpper w) = upper_code (unat w)"
  unfolding wcharToUpper_def upper_code_def even_unat
  by (simp add: word_le_nat_alt word_unat_eq_iff unat_w16_diff)

lemma lower_code_lower: "lower_code (lower_code n) = lower_code n"
  unfolding lower_code_def by (auto; presburger)

text \<open>The cases of the upper-case mapping, with its value.\<close>

lemma upper_code_cases:
  obtains (shift) m where "n = m + 32" "upper_code n = m"
      "0x41 \<le> m \<and> m \<le> 0x5a \<or> 0xC0 \<le> m \<and> m \<le> 0xD6 \<or> 0xD8 \<le> m \<and> m \<le> 0xDE \<or> 0x410 \<le> m \<and> m \<le> 0x42F"
  | (sharp_s) "n = 0xDF" "upper_code n = 0x1E9E"
  | (odd) k where "n = 2 * k + 1" "0x80 \<le> k" "k \<le> 0x97" "upper_code n = 2 * k"
  | (io) "n = 0x451" "upper_code n = 0x401"
  | (same) "upper_code n = n"
proof -
  consider "0x61 \<le> n \<and> n \<le> 0x7a" | "0xE0 \<le> n \<and> n \<le> 0xF6" | "0xF8 \<le> n \<and> n \<le> 0xFE" | "0x430 \<le> n \<and> n \<le> 0x44F"
    | "n = 0xDF" | "0x101 \<le> n \<and> n \<le> 0x12F \<and> n mod 2 = 1" | "n = 0x451" | "upper_code n = n"
    unfolding upper_code_def by argo
  then show thesis
  proof cases
    case 6
    then have "n = 2 * (n div 2) + 1" "0x80 \<le> n div 2" "n div 2 \<le> 0x97" by presburger+
    with 6 show ?thesis by (intro odd [of "n div 2"]) (simp_all add: upper_code_def)
  next
    case 1
    then show ?thesis by (intro shift [of "n - 32"]) (simp, simp add: upper_code_def, linarith)
  next
    case 2
    then show ?thesis by (intro shift [of "n - 32"]) (simp, simp add: upper_code_def, linarith)
  next
    case 3
    then show ?thesis by (intro shift [of "n - 32"]) (simp, simp add: upper_code_def, linarith)
  next
    case 4
    then show ?thesis by (intro shift [of "n - 32"]) (simp, simp add: upper_code_def, linarith)
  qed (use sharp_s io same in \<open>simp_all add: upper_code_def\<close>)
qed

lemma lower_code_upper: "lower_code (upper_code n) = lower_code n"
proof (cases n rule: upper_code_cases)
  case (shift m)
  have "lower_code m = m + 32" using shift(3) by (elim disjE) (simp_all add: lower_code_def)
  moreover have "lower_code (m + 32) = m + 32" using shift(3) by (elim disjE) (simp_all add: lower_code_def)
  ultimately show ?thesis using shift by simp
next
  case (odd k)
  then show ?thesis by (simp add: lower_code_def)
qed (simp_all add: lower_code_def)

lemma upper_code_upper: "upper_code (upper_code n) = upper_code n"
proof (cases n rule: upper_code_cases)
  case (shift m)
  have "upper_code m = m" using shift(3) by (elim disjE) (simp_all add: upper_code_def)
  with shift show ?thesis by simp
next
  case (odd k)
  then show ?thesis by (simp add: upper_code_def)
qed (simp_all add: upper_code_def)

lemma wchar_case_laws [simp]:
  "wcharToLower (wcharToLower w) = wcharToLower w" "wcharToUpper (wcharToUpper w) = wcharToUpper w"
  "wcharToLower (wcharToUpper w) = wcharToLower w"
  by (simp_all add: word_unat_eq_iff unat_lower unat_upper lower_code_lower lower_code_upper upper_code_upper)

lemma wstr_case_laws [simp]:
  "wstrToLower (wstrToLower s) = wstrToLower s" "wstrToLower (wstrToUpper s) = wstrToLower s"
  "length (wstrToLower s) = length s"
  by (simp_all add: wstrToLower_def wstrToUpper_def)

text \<open>The case mappings stay inside the basic plane and never make a surrogate.\<close>

lemma code_ranges: "n < 0x10000 \<Longrightarrow> lower_code n < 0x10000" "n < 0x10000 \<Longrightarrow> upper_code n < 0x10000"
  "0xd800 \<le> lower_code n \<longleftrightarrow> 0xd800 \<le> n" "0xd800 \<le> upper_code n \<longleftrightarrow> 0xd800 \<le> n"
  "0xd800 \<le> n \<Longrightarrow> lower_code n = n" "0xd800 \<le> n \<Longrightarrow> upper_code n = n"
  by (auto simp: lower_code_def upper_code_def)

lemma case_valid:
  assumes "is_code_point_valid w" and "w \<le> 0xffff"
  shows "is_code_point_valid (wcharToLower w)" "wcharToLower w \<le> 0xffff"
    "is_code_point_valid (wcharToUpper w)" "wcharToUpper w \<le> 0xffff"
proof -
  have w: "unat w < 0x10000" "\<not> (0xd800 \<le> unat w \<and> unat w \<le> 0xdfff)"
    using assms by (auto simp: is_code_point_valid_def is_surrogate_def word_le_nat_alt)
  then have l: "lower_code (unat w) < 0x10000" "\<not> (0xd800 \<le> lower_code (unat w) \<and> lower_code (unat w) \<le> 0xdfff)"
    and u: "upper_code (unat w) < 0x10000" "\<not> (0xd800 \<le> upper_code (unat w) \<and> upper_code (unat w) \<le> 0xdfff)"
    using code_ranges [of "unat w"] by auto
  show "is_code_point_valid (wcharToLower w)" "wcharToLower w \<le> 0xffff"
    using l by (auto simp: is_code_point_valid_def is_surrogate_def word_le_nat_alt unat_lower)
  show "is_code_point_valid (wcharToUpper w)" "wcharToUpper w \<le> 0xffff"
    using u by (auto simp: is_code_point_valid_def is_surrogate_def word_le_nat_alt unat_upper)
qed

text \<open>The string loops accept exactly the strings over their alphabet.\<close>

lemma string_loops:
  "isBasicLatinString s b \<longleftrightarrow> (\<forall>w \<in> set s. isBasicLatinCharacter w \<or> b \<and> isNumericOrSpace w)"
  "isExtendedLatinString s b \<longleftrightarrow> (\<forall>w \<in> set s. isExtendedLatinCharacter w \<or> b \<and> isNumericOrSpace w)"
  "isCyrillicString s b \<longleftrightarrow> (\<forall>w \<in> set s. isCyrillicCharacter w \<or> b \<and> isNumericOrSpace w)"
  "isEastAsianString s b \<longleftrightarrow> (\<forall>w \<in> set s. isEastAsianCharacter w \<or> b \<and> isNumericOrSpace w)"
  by (induction s) auto

end
