(* ===== verification/Channel_Mgr.thy ===== *)
theory Channel_Mgr
  imports Channel_Theorems Wide_Chars "HOL-Library.List_Lexorder"
begin

text \<open>
  The registry of the chat channels: \<^verbatim>\<open>ChannelMgr\<close>
  (src/Core/src/server/game/Chat/Channels/ChannelMgr.cpp and ChannelMgr.h). A channel is found
  by the lower-case form of its name. An operation returns the error of the conversion of the
  name, or its result; the channel it returns a pointer to is named by its key.
\<close>

record channelmgr =
  cm_channels :: "(wstring, channel) omap"
  cm_team :: uint32

definition cm_new :: channelmgr where
  "cm_new = \<lparr>cm_channels = [], cm_team = 0\<rparr>"

definition cm_setTeam :: "uint32 \<Rightarrow> channelmgr \<Rightarrow> channelmgr" where
  "cm_setTeam newTeam m = m\<lparr>cm_team := newTeam\<rparr>"

text \<open>The two static managers; a team that is neither has none.\<close>

datatype manager = allianceChannelMgr | hordeChannelMgr

definition cm_forTeam :: "ch_env \<Rightarrow> uint32 \<Rightarrow> manager option" where
  "cm_forTeam env team =
     (if ce_twoSideInteraction env then Some allianceChannelMgr
      else if team = 469 then Some allianceChannelMgr
      else if team = 67 then Some hordeChannelMgr
      else None)"

definition cm_GetJoinChannel :: "ch_env \<Rightarrow> bytes \<Rightarrow> uint32 \<Rightarrow> channelmgr \<Rightarrow> wide_error + wstring option \<times> channelmgr" where
  "cm_GetJoinChannel env name channelId m =
     sbind (Utf8toWStr name) (\<lambda>r. case r of
        None \<Rightarrow> Inr (None, m)
      | Some w \<Rightarrow>
          let wname = wstrToLower w
          in (case om_find wname (cm_channels m) of
                None \<Rightarrow> Inr (Some wname, m\<lparr>cm_channels := om_set wname (ch_new env name channelId (cm_team m)) (cm_channels m)\<rparr>)
              | Some c \<Rightarrow> Inr (Some wname, m)))"

definition cm_MakeNotOnPacket :: "bytes \<Rightarrow> worldpacket" where
  "cm_MakeNotOnPacket name = packet_of 0x099 ([5] @ name @ [0])"

text \<open>The packets are those sent to the player who asks.\<close>

definition cm_GetChannel :: "bytes \<Rightarrow> uint64 \<Rightarrow> bool \<Rightarrow> channelmgr \<Rightarrow> wide_error + wstring option \<times> ch_event list" where
  "cm_GetChannel name player pkt m =
     sbind (Utf8toWStr name) (\<lambda>r. case r of
        None \<Rightarrow> Inr (None, [])
      | Some w \<Rightarrow>
          let wname = wstrToLower w
          in (case om_find wname (cm_channels m) of
                None \<Rightarrow> Inr (None, if pkt then [SendPacket player (cm_MakeNotOnPacket name)] else [])
              | Some c \<Rightarrow> Inr (Some wname, [])))"

definition cm_LeftChannel :: "bytes \<Rightarrow> channelmgr \<Rightarrow> wide_error + channelmgr" where
  "cm_LeftChannel name m =
     sbind (Utf8toWStr name) (\<lambda>r. case r of
        None \<Rightarrow> Inr m
      | Some w \<Rightarrow>
          let wname = wstrToLower w
          in (case om_find wname (cm_channels m) of
                None \<Rightarrow> Inr m
              | Some c \<Rightarrow>
                  if ch_GetNumPlayers c = 0 \<and> \<not> ch_IsConstant c
                  then Inr (m\<lparr>cm_channels := om_erase wname (cm_channels m)\<rparr>)
                  else Inr m))"

lemma GetNumPlayers_0:
  assumes "length (ch_players c) < 2 ^ 32"
  shows "ch_GetNumPlayers c = 0 \<longleftrightarrow> ch_players c = []"
proof -
  have "unat (of_nat (length (ch_players c)) :: uint32) = length (ch_players c)"
    using assms by (simp add: unat_of_nat)
  then show ?thesis unfolding ch_GetNumPlayers_def by (metis length_0_conv unat_eq_zero)
qed

text \<open>The registry: joining by a name creates the channel only if none of the registered names
  agrees with it up to case, and afterwards every spelling of the name finds that channel, the
  other channels being as before. Leaving by a name deletes at most the channel of that name,
  and only a custom channel without members.\<close>

theorem channel_registry:
  assumes name: "Utf8toWStr name = Inr (Some w)" and name': "Utf8toWStr name' = Inr (Some w')"
    and same: "wstrToLower w' = wstrToLower w"
    and small: "\<And>k c. om_find k (cm_channels m) = Some c \<Longrightarrow> length (ch_players c) < 2 ^ 32"
  shows "(\<exists>m'. cm_GetJoinChannel env name i m = Inr (Some (wstrToLower w), m')
      \<and> cm_GetChannel name' player pkt m' = Inr (Some (wstrToLower w), [])
      \<and> om_find (wstrToLower w) (cm_channels m') =
          (case om_find (wstrToLower w) (cm_channels m) of
             None \<Rightarrow> Some (ch_new env name i (cm_team m)) | Some c \<Rightarrow> Some c)
      \<and> (\<forall>k. k \<noteq> wstrToLower w \<longrightarrow> om_find k (cm_channels m') = om_find k (cm_channels m)))
    \<and> (\<exists>m'. cm_LeftChannel name m = Inr m'
      \<and> (\<forall>k. om_find k (cm_channels m') =
           (case om_find k (cm_channels m) of
              None \<Rightarrow> None
            | Some c \<Rightarrow> if k = wstrToLower w \<and> ch_players c = [] \<and> \<not> ch_IsConstant c then None else Some c)))"
proof
  let ?k = "wstrToLower w"
  show "\<exists>m'. cm_GetJoinChannel env name i m = Inr (Some ?k, m')
      \<and> cm_GetChannel name' player pkt m' = Inr (Some ?k, [])
      \<and> om_find ?k (cm_channels m') =
          (case om_find ?k (cm_channels m) of None \<Rightarrow> Some (ch_new env name i (cm_team m)) | Some c \<Rightarrow> Some c)
      \<and> (\<forall>k. k \<noteq> ?k \<longrightarrow> om_find k (cm_channels m') = om_find k (cm_channels m))"
    by (cases "om_find ?k (cm_channels m)")
      (auto simp: cm_GetJoinChannel_def cm_GetChannel_def name name' same Let_def om.look_upd_same om.look_upd_other)
  show "\<exists>m'. cm_LeftChannel name m = Inr m'
      \<and> (\<forall>k. om_find k (cm_channels m') =
           (case om_find k (cm_channels m) of
              None \<Rightarrow> None
            | Some c \<Rightarrow> if k = ?k \<and> ch_players c = [] \<and> \<not> ch_IsConstant c then None else Some c))"
  proof (cases "om_find ?k (cm_channels m)")
    case None
    then show ?thesis by (auto simp: cm_LeftChannel_def name split: option.split)
  next
    case (Some c)
    with GetNumPlayers_0 [OF small [OF Some]] show ?thesis
      by (auto simp: cm_LeftChannel_def name Let_def om.look_del split: option.split)
  qed
qed

theorem channel_registry_witness:
  "\<exists>m'. cm_GetJoinChannel town [65, 97] 0 cm_new = Inr (Some [97, 97], m')
      \<and> cm_GetChannel [97, 65] 5 True m' = Inr (Some [97, 97], [])"
proof -
  have n: "Utf8toWStr [65, 97] = Inr (Some [65, 97])" "Utf8toWStr [97, 65] = Inr (Some [97, 65])"
    "wstrToLower [97, 65] = wstrToLower [65, 97]" "wstrToLower [65, 97] = [97, 97]" by code_simp+
  show ?thesis using channel_registry [OF n(1-3), of cm_new town 0 5 True] unfolding n(4) by (auto simp: cm_new_def)
qed

end
