(* ===== verification/Names.thy ===== *)
theory Names
  imports Wide_Chars
begin

text \<open>
  Names of players, pets and charters and their declined forms: \<^verbatim>\<open>normalizePlayerName\<close>,
  \<^verbatim>\<open>isValidString\<close>, the name checks and \<^verbatim>\<open>CheckDeclinedNames\<close> of
  src/Core/src/server/game/Globals/ObjectMgr.cpp, and \<^verbatim>\<open>GetMainPartOfName\<close> and
  \<^verbatim>\<open>Utf8FitTo\<close> of src/Core/src/server/shared/Utilities/Util.cpp.
\<close>

section \<open>Declined names\<close>

text \<open>\<^verbatim>\<open>std::wstring::substr\<close>\<close>

definition wsubstr :: "nat \<Rightarrow> nat \<Rightarrow> wstring \<Rightarrow> wide_error + wstring" where
  "wsubstr pos n w = (if pos > length w then Inl OutOfRange else Inr (take n (drop pos w)))"

definition dropEnds :: "wstring list list" where
  "dropEnds =
     [[[0x0430], [0x043E], [0x044F], [0x0435], [0x044C], [0x0439]],
      [[0x0430], [0x044F], [0x044B], [0x0438]],
      [[0x0435], [0x0443], [0x044E], [0x0438]],
      [[0x0443], [0x044E], [0x043E], [0x0435], [0x044C], [0x044F], [0x0430]],
      [[0x043E, 0x0439], [0x0451, 0x0439], [0x0435, 0x0439], [0x043E, 0x043C], [0x0451, 0x043C], [0x0435, 0x043C],
       [0x044E]],
      [[0x0435], [0x0438]]]"

text \<open>The loop over the endings; the position is computed in \<^verbatim>\<open>size_t\<close>.\<close>

fun main_part_loop :: "wstring \<Rightarrow> wstring list \<Rightarrow> wide_error + wstring" where
  "main_part_loop wname [] = Inr wname"
| "main_part_loop wname (e # es) =
     (let len = length e in
      sbind (wsubstr (sz (length wname + 2 ^ 64 - len)) len wname)
        (\<lambda>s. if s = e then wsubstr 0 (sz (length wname + 2 ^ 64 - len)) wname else main_part_loop wname es))"

definition GetMainPartOfName :: "wstring \<Rightarrow> nat \<Rightarrow> wide_error + wstring" where
  "GetMainPartOfName wname declension =
     (if length wname < 1 \<or> \<not> isCyrillicCharacter (hd wname) \<or> declension > 5 then Inr wname
      else main_part_loop wname (dropEnds ! declension))"

fun declined_loop :: "wstring \<Rightarrow> wstring \<Rightarrow> nat \<Rightarrow> bytes list \<Rightarrow> bool \<Rightarrow> bool \<Rightarrow> wide_error + bool" where
  "declined_loop mainpart w_ownname i [] x y = Inr (x \<or> y)"
| "declined_loop mainpart w_ownname i (name # names) x y =
     sbind (Utf8toWStr name) (\<lambda>r. case r of
        None \<Rightarrow> Inr False
      | Some wname \<Rightarrow>
          sbind (GetMainPartOfName wname (i + 1)) (\<lambda>m.
            declined_loop mainpart w_ownname (i + 1) names (if mainpart \<noteq> m then False else x)
              (if w_ownname \<noteq> wname then False else y)))"

text \<open>The five declined forms are a list of five strings.\<close>

definition CheckDeclinedNames :: "wstring \<Rightarrow> bytes list \<Rightarrow> wide_error + bool" where
  "CheckDeclinedNames w_ownname names =
     sbind (GetMainPartOfName w_ownname 0) (\<lambda>mainpart. declined_loop mainpart w_ownname 0 names True True)"

section \<open>Player names\<close>

definition MAX_INTERNAL_PLAYER_NAME :: nat where "MAX_INTERNAL_PLAYER_NAME = 15"
definition MAX_PLAYER_NAME :: nat where "MAX_PLAYER_NAME = 12"
definition MAX_PET_NAME :: nat where "MAX_PET_NAME = 12"
definition MAX_CHARTER_NAME :: nat where "MAX_CHARTER_NAME = 24"

text \<open>The result is \<open>None\<close> for false and the new name for true.\<close>

definition normalizePlayerName :: "bytes \<Rightarrow> wide_error + bytes option" where
  "normalizePlayerName name =
     (if name = [] then Inr None
      else sbind (Utf8toWStr_array name (MAX_INTERNAL_PLAYER_NAME + 1) MAX_INTERNAL_PLAYER_NAME) (\<lambda>r. case r of
             None \<Rightarrow> Inr None
           | Some [] \<Rightarrow> Inr (Some [])
           | Some (w # ws) \<Rightarrow> Inr (WStrToUtf8 (wcharToUpper w # map wcharToLower ws))))"

record names_env =
  ne_realmZone :: uint32
  ne_minPlayerName :: uint32
  ne_strictPlayerNames :: uint32
  ne_minCharterName :: uint32
  ne_strictCharterNames :: uint32
  ne_minPetName :: uint32
  ne_strictPetNames :: uint32
  ne_reservedNames :: "wstring list"

definition IsReservedName :: "names_env \<Rightarrow> bytes \<Rightarrow> wide_error + bool" where
  "IsReservedName env name =
     sbind (Utf8toWStr name) (\<lambda>r. case r of
        None \<Rightarrow> Inr False | Some wstr \<Rightarrow> Inr (wstrToLower wstr \<in> set (ne_reservedNames env)))"

definition LT_BASIC_LATIN :: uint32 where "LT_BASIC_LATIN = 0x0000"
definition LT_EXTENDEN_LATIN :: uint32 where "LT_EXTENDEN_LATIN = 0x0001"
definition LT_CYRILLIC :: uint32 where "LT_CYRILLIC = 0x0002"
definition LT_EAST_ASIA :: uint32 where "LT_EAST_ASIA = 0x0004"
definition LT_ANY :: uint32 where "LT_ANY = 0xFFFF"

definition GetRealmLanguageType :: "names_env \<Rightarrow> bool \<Rightarrow> uint32" where
  "GetRealmLanguageType env create =
     (let z = ne_realmZone env in
      if z \<in> {0, 1, 26, 28} then LT_ANY
      else if z \<in> {2, 3, 4, 8, 9, 10, 11} then LT_EXTENDEN_LATIN
      else if z \<in> {6, 14, 16} then LT_EAST_ASIA
      else if z = 12 then LT_CYRILLIC
      else if create then LT_BASIC_LATIN else LT_ANY)"

definition isValidString :: "names_env \<Rightarrow> wstring \<Rightarrow> uint32 \<Rightarrow> bool \<Rightarrow> bool \<Rightarrow> bool" where
  "isValidString env wstr strictMask numericOrSpace create =
     (if strictMask = 0
      then isExtendedLatinString wstr numericOrSpace \<or> isCyrillicString wstr numericOrSpace
           \<or> isEastAsianString wstr numericOrSpace
      else
        (strictMask AND 0x2 \<noteq> 0
         \<and> (let lt = GetRealmLanguageType env create
            in (lt AND LT_EXTENDEN_LATIN \<noteq> 0 \<and> isExtendedLatinString wstr numericOrSpace)
               \<or> (lt AND LT_CYRILLIC \<noteq> 0 \<and> isCyrillicString wstr numericOrSpace)
               \<or> (lt AND LT_EAST_ASIA \<noteq> 0 \<and> isEastAsianString wstr numericOrSpace)))
        \<or> (strictMask AND 0x1 \<noteq> 0 \<and> isBasicLatinString wstr numericOrSpace))"

text \<open>The loop that looks for three equal characters in a row, from index two on.\<close>

fun three_consecutive :: "wstring \<Rightarrow> bool" where
  "three_consecutive (a # b # c # ws) = (if c = b \<and> c = a then True else three_consecutive (b # c # ws))"
| "three_consecutive _ = False"

definition CHAR_NAME_SUCCESS :: uint8 where "CHAR_NAME_SUCCESS = 87"
definition CHAR_NAME_TOO_SHORT :: uint8 where "CHAR_NAME_TOO_SHORT = 90"
definition CHAR_NAME_TOO_LONG :: uint8 where "CHAR_NAME_TOO_LONG = 91"
definition CHAR_NAME_INVALID_CHARACTER :: uint8 where "CHAR_NAME_INVALID_CHARACTER = 92"
definition CHAR_NAME_MIXED_LANGUAGES :: uint8 where "CHAR_NAME_MIXED_LANGUAGES = 93"
definition CHAR_NAME_THREE_CONSECUTIVE :: uint8 where "CHAR_NAME_THREE_CONSECUTIVE = 98"

definition CheckPlayerName :: "names_env \<Rightarrow> bytes \<Rightarrow> bool \<Rightarrow> wide_error + uint8" where
  "CheckPlayerName env name create =
     sbind (Utf8toWStr name) (\<lambda>r. case r of
        None \<Rightarrow> Inr CHAR_NAME_INVALID_CHARACTER
      | Some wname \<Rightarrow>
          if length wname > MAX_PLAYER_NAME then Inr CHAR_NAME_TOO_LONG
          else if length wname < unat (ne_minPlayerName env) then Inr CHAR_NAME_TOO_SHORT
          else if \<not> isValidString env wname (ne_strictPlayerNames env) False create
          then Inr CHAR_NAME_MIXED_LANGUAGES
          else if three_consecutive (wstrToLower wname) then Inr CHAR_NAME_THREE_CONSECUTIVE
          else Inr CHAR_NAME_SUCCESS)"

definition IsValidCharterName :: "names_env \<Rightarrow> bytes \<Rightarrow> wide_error + bool" where
  "IsValidCharterName env name =
     sbind (Utf8toWStr name) (\<lambda>r. case r of
        None \<Rightarrow> Inr False
      | Some wname \<Rightarrow>
          if length wname > MAX_CHARTER_NAME then Inr False
          else if length wname < unat (ne_minCharterName env) then Inr False
          else Inr (isValidString env wname (ne_strictCharterNames env) True False))"

datatype PetNameInvalidReason =
  PET_NAME_SUCCESS | PET_NAME_INVALID | PET_NAME_TOO_SHORT | PET_NAME_TOO_LONG | PET_NAME_MIXED_LANGUAGES

definition CheckPetName :: "names_env \<Rightarrow> bytes \<Rightarrow> wide_error + PetNameInvalidReason" where
  "CheckPetName env name =
     sbind (Utf8toWStr name) (\<lambda>r. case r of
        None \<Rightarrow> Inr PET_NAME_INVALID
      | Some wname \<Rightarrow>
          if length wname > MAX_PET_NAME then Inr PET_NAME_TOO_LONG
          else if length wname < unat (ne_minPetName env) then Inr PET_NAME_TOO_SHORT
          else if \<not> isValidString env wname (ne_strictPetNames env) False False then Inr PET_NAME_MIXED_LANGUAGES
          else Inr PET_NAME_SUCCESS)"

text \<open>\<^verbatim>\<open>find\<close> of a substring, and the search of the who list\<close>

fun wfind :: "wstring \<Rightarrow> wstring \<Rightarrow> bool" where
  "wfind needle [] \<longleftrightarrow> needle = []"
| "wfind needle (w # ws) \<longleftrightarrow> take (length needle) (w # ws) = needle \<or> wfind needle ws"

definition Utf8FitTo :: "bytes \<Rightarrow> wstring \<Rightarrow> wide_error + bool" where
  "Utf8FitTo str search =
     sbind (Utf8toWStr str) (\<lambda>r. case r of None \<Rightarrow> Inr False | Some temp \<Rightarrow> Inr (wfind search (wstrToLower temp)))"

section \<open>Lemmas\<close>

lemma u8_encode_valid: "u8_encode cps = Inr s \<Longrightarrow> cp \<in> set cps \<Longrightarrow> is_code_point_valid cp"
  by (induction cps arbitrary: s) (auto simp: sbind_Inr dest: u8_append_valid)

lemma u8_encode_total: "(\<forall>cp \<in> set cps. is_code_point_valid cp) \<Longrightarrow> \<exists>s. u8_encode cps = Inr s"
proof (induction cps)
  case (Cons cp cps)
  then have "\<exists>os. u8_append cp = Inr os" by (simp add: u8_append_def)
  with Cons show ?case by auto
qed simp

lemma ucast_bmp: "cp \<le> 0xffff \<Longrightarrow> ucast (ucast cp :: uint16) = (cp :: uint32)"
  using unat_ucast16 [of cp] by (simp add: word_unat_eq_iff word_le_nat_alt del: unsigned_ucast_eq)

lemma units_bmp: "\<forall>cp \<in> set cps. cp \<le> 0xffff \<Longrightarrow> concat (map utf16_units cps) = cps"
  using ucast_bmp by (simp add: utf16_units_bmp map_idI)

lemma length_units: "length (concat (map utf16_units cps)) = length cps + length (filter (\<lambda>cp. cp > 0xffff) cps)"
  by (induction cps) (auto simp: utf16_units_def)

text \<open>A string of the basic plane is decoded to its code points.\<close>

lemma Utf8toWStr_bmp:
  assumes "u8_encode cps = Inr s" and "\<forall>cp \<in> set cps. cp \<le> 0xffff"
  shows "Utf8toWStr s = Inr (Some cps)"
  using u8_distance_encode [OF assms(1)] utf8to16_encode [OF assms(1)] units_bmp [OF assms(2)]
  by (simp add: Utf8toWStr_def)

lemma Utf8toWStr_array_encode:
  assumes "u8_encode cps = Inr s"
  shows "Utf8toWStr_array s (Suc n) n =
    (if length cps > n then Inr None
     else if length cps + length (filter (\<lambda>cp. cp > 0xffff) cps) > Suc n then Inl BufferOverrun
     else Inr (Some (take (length cps) (concat (map utf16_units cps)))))"
  using u8_distance_encode [OF assms] utf8to16_encode [OF assms] length_units [of cps]
  by (auto simp: Utf8toWStr_array_def)

text \<open>C40. A name is normalised to one capital followed by small letters: for a valid UTF-8 name of one
  to fifteen characters of the basic plane the function succeeds, and the new name encodes
  the upper-case form of the first character and the lower-case forms of the others. It
  overruns its sixteen-element array exactly for names of at most fifteen code points that
  need more than sixteen UTF-16 units.\<close>

theorem normalize_player_name:
  assumes enc: "u8_encode cps = Inr name" and ne: "cps \<noteq> []"
  shows "(length cps \<le> 15 \<and> (\<forall>cp \<in> set cps. cp \<le> 0xffff) \<longrightarrow>
       (\<exists>name'. normalizePlayerName name = Inr (Some name')
            \<and> u8_encode (wcharToUpper (hd cps) # map wcharToLower (tl cps)) = Inr name'))
    \<and> (normalizePlayerName name = Inl BufferOverrun \<longleftrightarrow>
         length cps \<le> 15 \<and> length cps + length (filter (\<lambda>cp. cp > 0xffff) cps) > 16)"
proof
  obtain c cs where cps: "cps = c # cs" using ne by (cases cps) auto
  have name: "name \<noteq> []" using u8_encode_next [OF enc [unfolded cps]] by blast
  note arr = Utf8toWStr_array_encode [OF enc, of 15, simplified]
  show "length cps \<le> 15 \<and> (\<forall>cp \<in> set cps. cp \<le> 0xffff) \<longrightarrow>
       (\<exists>name'. normalizePlayerName name = Inr (Some name')
            \<and> u8_encode (wcharToUpper (hd cps) # map wcharToLower (tl cps)) = Inr name')"
  proof
    assume a: "length cps \<le> 15 \<and> (\<forall>cp \<in> set cps. cp \<le> 0xffff)"
    then have bmp: "\<forall>cp \<in> set cps. cp \<le> 0xffff" by blast
    let ?new = "wcharToUpper c # map wcharToLower cs"
    have valid: "\<forall>cp \<in> set cps. is_code_point_valid cp" using u8_encode_valid [OF enc] by blast
    have new: "\<forall>cp \<in> set ?new. is_code_point_valid cp \<and> cp \<le> 0xffff"
      using valid bmp case_valid by (auto simp: cps)
    then obtain name' where n': "u8_encode ?new = Inr name'" using u8_encode_total [of ?new] by blast
    have "utf16to8 ?new = Inr name'"
      using utf16to8_encode [OF n'] units_bmp [of ?new] new by metis
    moreover have "filter (\<lambda>cp. cp > 0xffff) cps = []" using bmp by (auto simp: filter_empty_conv)
    then have "Utf8toWStr_array name 16 15 = Inr (Some cps)"
      using a arr units_bmp [OF bmp] by simp
    ultimately have "normalizePlayerName name = Inr (Some name')"
      using name by (simp add: normalizePlayerName_def MAX_INTERNAL_PLAYER_NAME_def WStrToUtf8_def cps)
    with n' show "\<exists>name'. normalizePlayerName name = Inr (Some name')
            \<and> u8_encode (wcharToUpper (hd cps) # map wcharToLower (tl cps)) = Inr name'"
      by (auto simp: cps simp del: u8_encode.simps)
  qed
  have "normalizePlayerName name = Inl BufferOverrun \<longleftrightarrow> Utf8toWStr_array name 16 15 = Inl BufferOverrun"
    using name by (auto simp: normalizePlayerName_def MAX_INTERNAL_PLAYER_NAME_def sbind_def
        split: sum.splits option.splits list.splits)
  then show "normalizePlayerName name = Inl BufferOverrun \<longleftrightarrow>
         length cps \<le> 15 \<and> length cps + length (filter (\<lambda>cp. cp > 0xffff) cps) > 16"
    unfolding arr by (auto simp: numeral_eq_Suc)
qed

theorem normalize_player_name_witness:
  "(\<exists>name'. normalizePlayerName [98, 79, 66] = Inr (Some name') \<and> u8_encode [66, 111, 98] = Inr name')"
proof -
  have e: "u8_encode [98, 79, 66] = Inr [98, 79, 66]" by code_simp
  have c: "wcharToUpper 98 = 66" "wcharToLower 79 = 111" "wcharToLower 66 = 98" by code_simp+
  show ?thesis using normalize_player_name [OF e] by (simp add: c del: u8_encode.simps)
qed

section \<open>Declined names\<close>

lemma sz_back: "len \<le> n \<Longrightarrow> n < 2 ^ 63 \<Longrightarrow> sz (n + 2 ^ 64 - len) = n - len"
  by (rule sz_diff) simp_all

lemma main_part_loop_ok:
  assumes "\<forall>e \<in> set es. length e \<le> length w" and "length w < 2 ^ 63"
  shows "\<exists>r. main_part_loop w es = Inr r \<and> (r = w \<or> (\<exists>e \<in> set es. w = r @ e))"
  using assms(1)
proof (induction es)
  case (Cons e es)
  then have le: "length e \<le> length w" by simp
  then have len: "sz (length w + 2 ^ 64 - length e) = length w - length e" using assms(2) by (intro sz_back) auto
  have "take (length e) (drop (length w - length e) w) = drop (length w - length e) w" using Cons.prems by simp
  moreover have nl: "(length w < length w - length e) = False" by (simp add: not_less)
  ultimately have step: "main_part_loop w (e # es) =
      (if drop (length w - length e) w = e then Inr (take (length w - length e) w) else main_part_loop w es)"
    unfolding main_part_loop.simps Let_def len wsubstr_def nl if_False by simp
  show ?case
  proof (cases "drop (length w - length e) w = e")
    case True
    then have "w = take (length w - length e) w @ e" by (metis append_take_drop_id)
    with True show ?thesis unfolding step by auto
  next
    case False
    from Cons.IH Cons.prems obtain r where "main_part_loop w es = Inr r" "r = w \<or> (\<exists>e \<in> set es. w = r @ e)" by auto
    with False show ?thesis unfolding step by auto
  qed
qed simp

lemma main_part_short: "main_part_loop [c] ([a, b] # es) = Inl OutOfRange"
  by (simp add: wsubstr_def sz_def)

lemma dropEnds_length: "d \<le> 5 \<Longrightarrow> e \<in> set (dropEnds ! d) \<Longrightarrow> length e \<le> (if d = 4 then 2 else 1)"
proof -
  assume d: "d \<le> 5" "e \<in> set (dropEnds ! d)"
  then have "d \<in> {0, 1, 2, 3, 4, 5}" by auto
  with d(2) show ?thesis by (auto simp: dropEnds_def)
qed

lemma GetMainPartOfName_ok:
  assumes "length w < 2 ^ 63" and "\<not> (d = 4 \<and> (\<exists>c. w = [c] \<and> isCyrillicCharacter c))"
  shows "\<exists>r. GetMainPartOfName w d = Inr r \<and> (r = w \<or> d \<le> 5 \<and> (\<exists>e \<in> set (dropEnds ! d). w = r @ e))"
proof (cases "length w < 1 \<or> \<not> isCyrillicCharacter (hd w) \<or> d > 5")
  case True
  then show ?thesis by (auto simp: GetMainPartOfName_def)
next
  case False
  then have w: "w \<noteq> []" "isCyrillicCharacter (hd w)" "d \<le> 5" by auto
  have "length w \<ge> 2" if "d = 4"
  proof (cases w)
    case (Cons c cs)
    then show ?thesis using assms(2) that w(2) by (cases cs) auto
  qed (use w in simp)
  moreover have "length w \<ge> 1" using w(1) by (cases w) auto
  ultimately have "\<forall>e \<in> set (dropEnds ! d). length e \<le> length w"
    using dropEnds_length [OF w(3)] by (smt (verit, best) le_trans)
  from main_part_loop_ok [OF this assms(1)] show ?thesis using False by (auto simp: GetMainPartOfName_def)
qed

text \<open>The main part of a name is the name without one of the endings of the case, or the name
  itself; but for a name of a single Cyrillic letter and the fourth case the function throws
  out_of_range, because the length of the ending is subtracted from the length of the name in
  \<^verbatim>\<open>size_t\<close>.\<close>

theorem main_part_of_name:
  assumes "length w < 2 ^ 63"
  shows "if d = 4 \<and> (\<exists>c. w = [c] \<and> isCyrillicCharacter c)
    then GetMainPartOfName w d = Inl OutOfRange
    else \<exists>r. GetMainPartOfName w d = Inr r \<and> (r = w \<or> d \<le> 5 \<and> (\<exists>e \<in> set (dropEnds ! d). w = r @ e))"
proof (cases "d = 4 \<and> (\<exists>c. w = [c] \<and> isCyrillicCharacter c)")
  case True
  then obtain c where "w = [c]" "isCyrillicCharacter c" "d = 4" by blast
  then show ?thesis using main_part_short [of c "0x043E" "0x0439"] by (auto simp: GetMainPartOfName_def dropEnds_def)
next
  case False
  with GetMainPartOfName_ok [OF assms False] show ?thesis by (simp only: if_False)
qed

theorem main_part_of_name_witness: "GetMainPartOfName [0x0418] 4 = Inl OutOfRange"
proof -
  have "isCyrillicCharacter 0x0418" by code_simp
  then show ?thesis using main_part_of_name [of "[0x0418]" 4] by simp
qed

text \<open>A client can make the check of declined names throw: if the fourth of the five names it
  sends is a single Cyrillic letter and the three before it are ordinary strings, the
  exception leaves \<^verbatim>\<open>CheckDeclinedNames\<close>, whatever the own name is.\<close>

theorem declined_names_throw:
  assumes own: "length w < 2 ^ 63"
    and first: "\<And>i. i < 3 \<Longrightarrow> u8_encode (ds i) = Inr (names ! i) \<and> (\<forall>cp \<in> set (ds i). cp \<le> 0xffff) \<and> length (ds i) < 2 ^ 63"
    and len: "length names = 5"
    and fourth: "u8_encode [c] = Inr (names ! 3)" "isCyrillicCharacter c"
  shows "CheckDeclinedNames w names = Inl OutOfRange"
proof -
  have c: "c \<le> 0xffff" using fourth(2) by (auto simp: isCyrillicCharacter_def word_le_nat_alt split: if_splits)
  obtain m where m: "GetMainPartOfName w 0 = Inr m" using GetMainPartOfName_ok [OF own, of 0] by auto
  obtain a b d e f where names: "names = [a, b, d, e, f]" using len by (auto simp: numeral_eq_Suc length_Suc_conv)
  have u: "Utf8toWStr (names ! i) = Inr (Some (ds i))" if "i < 3" for i using Utf8toWStr_bmp first [OF that] by blast
  have g: "\<exists>r. GetMainPartOfName (ds i) (i + 1) = Inr r" if "i < 3" for i
    using GetMainPartOfName_ok [of "ds i" "i + 1"] first [OF that] that by force
  have e: "Utf8toWStr e = Inr (Some [c])" using Utf8toWStr_bmp [OF fourth(1)] c names by simp
  have t: "GetMainPartOfName [c] 4 = Inl OutOfRange"
    using main_part_short [of c "0x043E" "0x0439"] fourth(2) by (simp add: GetMainPartOfName_def dropEnds_def)
  obtain r0 where "GetMainPartOfName (ds 0) 1 = Inr r0" using g [of 0] by auto
  moreover obtain r1 where "GetMainPartOfName (ds 1) 2 = Inr r1" using g [of 1] by (auto simp: numeral_2_eq_2)
  moreover obtain r2 where "GetMainPartOfName (ds 2) 3 = Inr r2" using g [of 2] by auto
  ultimately show ?thesis using u [of 0] u [of 1] u [of 2] e t m
    by (simp add: CheckDeclinedNames_def names numeral_eq_Suc)
qed

theorem declined_names_throw_witness: "CheckDeclinedNames [0x0418, 0x0432] [[65], [65], [65], [0xd0, 0x98], [65]] = Inl OutOfRange"
proof (rule declined_names_throw [where ds = "\<lambda>_. [65]" and c = "0x0418"])
  have e: "u8_encode [65] = Inr [65]" by code_simp
  show "u8_encode [65] = Inr ([[65], [65], [65], [0xd0, 0x98], [65]] ! i) \<and> (\<forall>cp \<in> set [65]. cp \<le> (0xffff :: uint32))
      \<and> length [65 :: uint32] < 2 ^ 63" if "i < 3" for i :: nat
  proof -
    from that consider "i = 0" | "i = 1" | "i = 2" by linarith
    then show ?thesis using e by cases (simp_all del: u8_encode.simps)
  qed
  show "u8_encode [0x0418] = Inr ([[65], [65], [65], [0xd0, 0x98], [65]] ! 3)" by code_simp
  show "isCyrillicCharacter 0x0418" by code_simp
qed simp_all

section \<open>The check of player names\<close>

lemma three_consecutive_nth:
  "three_consecutive s \<longleftrightarrow> (\<exists>i. i + 2 < length s \<and> s ! i = s ! (i + 1) \<and> s ! (i + 1) = s ! (i + 2))"
proof (induction s rule: three_consecutive.induct)
  case (1 a b c ws)
  let ?P = "\<lambda>s i. i + 2 < length s \<and> s ! i = s ! (i + 1) \<and> s ! (i + 1) = s ! (i + 2)"
  have "(\<exists>i. ?P (a # b # c # ws) i) \<longleftrightarrow> ?P (a # b # c # ws) 0 \<or> (\<exists>i. ?P (a # b # c # ws) (Suc i))"
    by (metis not0_implies_Suc)
  also have "\<dots> \<longleftrightarrow> (a = b \<and> b = c) \<or> (\<exists>i. ?P (b # c # ws) i)" by simp
  finally show ?case using 1 by auto
qed auto

text \<open>A player name is accepted exactly when it has at most twelve and at least the configured
  number of characters, consists of characters of one permitted alphabet and has no three
  equal characters in a row, upper and lower case not distinguished. A name that is not valid
  UTF-8 is refused as having an invalid character.\<close>

theorem check_player_name:
  "(u8_encode cps = Inr name \<and> (\<forall>cp \<in> set cps. cp \<le> 0xffff) \<longrightarrow>
      (CheckPlayerName env name create = Inr CHAR_NAME_SUCCESS \<longleftrightarrow>
         length cps \<le> 12 \<and> unat (ne_minPlayerName env) \<le> length cps
         \<and> isValidString env cps (ne_strictPlayerNames env) False create
         \<and> \<not> (\<exists>i. i + 2 < length cps \<and> wcharToLower (cps ! i) = wcharToLower (cps ! (i + 1))
                 \<and> wcharToLower (cps ! (i + 1)) = wcharToLower (cps ! (i + 2)))))
   \<and> ((\<nexists>cps. u8_encode cps = Inr name) \<longrightarrow> CheckPlayerName env name create = Inr CHAR_NAME_INVALID_CHARACTER)"
proof (intro conjI impI)
  assume a: "u8_encode cps = Inr name \<and> (\<forall>cp \<in> set cps. cp \<le> 0xffff)"
  have three: "three_consecutive (wstrToLower cps) \<longleftrightarrow>
      (\<exists>i. i + 2 < length cps \<and> wcharToLower (cps ! i) = wcharToLower (cps ! (i + 1))
                 \<and> wcharToLower (cps ! (i + 1)) = wcharToLower (cps ! (i + 2)))"
    unfolding three_consecutive_nth by (auto simp: wstrToLower_def)
  show "CheckPlayerName env name create = Inr CHAR_NAME_SUCCESS \<longleftrightarrow>
         length cps \<le> 12 \<and> unat (ne_minPlayerName env) \<le> length cps
         \<and> isValidString env cps (ne_strictPlayerNames env) False create
         \<and> \<not> (\<exists>i. i + 2 < length cps \<and> wcharToLower (cps ! i) = wcharToLower (cps ! (i + 1))
                 \<and> wcharToLower (cps ! (i + 1)) = wcharToLower (cps ! (i + 2)))"
    unfolding three [symmetric] using a Utf8toWStr_bmp [of cps name]
    by (auto simp: CheckPlayerName_def MAX_PLAYER_NAME_def CHAR_NAME_SUCCESS_def CHAR_NAME_TOO_LONG_def
        CHAR_NAME_TOO_SHORT_def CHAR_NAME_MIXED_LANGUAGES_def CHAR_NAME_THREE_CONSECUTIVE_def)
next
  assume "\<nexists>cps. u8_encode cps = Inr name"
  then obtain e where "u8_distance name = Inl e" using u8_distance_decode by (cases "u8_distance name") blast+
  then show "CheckPlayerName env name create = Inr CHAR_NAME_INVALID_CHARACTER"
    by (simp add: CheckPlayerName_def Utf8toWStr_def)
qed

definition home_realm :: names_env where
  "home_realm = \<lparr>ne_realmZone = 1, ne_minPlayerName = 2, ne_strictPlayerNames = 0, ne_minCharterName = 2,
     ne_strictCharterNames = 0, ne_minPetName = 2, ne_strictPetNames = 0, ne_reservedNames = []\<rparr>"

theorem check_player_name_witness: "CheckPlayerName home_realm [66, 111, 98] True = Inr CHAR_NAME_SUCCESS"
proof -
  let ?cps = "[66, 111, 98] :: wchar list"
  have e: "u8_encode ?cps = Inr [66, 111, 98] \<and> (\<forall>cp \<in> set ?cps. cp \<le> 0xffff)" by code_simp
  have v: "isValidString home_realm ?cps (ne_strictPlayerNames home_realm) False True"
    "wcharToLower 66 \<noteq> wcharToLower 111" by code_simp+
  have n: "\<not> (\<exists>i. i + 2 < length ?cps \<and> wcharToLower (?cps ! i) = wcharToLower (?cps ! (i + 1))
                 \<and> wcharToLower (?cps ! (i + 1)) = wcharToLower (?cps ! (i + 2)))"
    using v(2) by auto
  show ?thesis
    using check_player_name [of ?cps "[66, 111, 98]" home_realm True, THEN conjunct1, THEN mp, OF e] v(1) n
    by (simp add: home_realm_def)
qed

end
