(* ===== verification/Text_Utils.thy ===== *)
theory Text_Utils
  imports Util_Strings
begin

text \<open>
  The text helpers of src/Core/src/server/shared/Utilities/Util.cpp that the commands and the
  chat use: durations and sums of money as text, and the clean-up of a chat line, which works
  in place on the string.
\<close>

definition chars :: "string \<Rightarrow> bytes" where
  "chars s = map (\<lambda>c. of_nat (of_char c)) s"

section \<open>Durations\<close>

definition secsToTimeString :: "uint64 \<Rightarrow> bool \<Rightarrow> bool \<Rightarrow> bytes" where
  "secsToTimeString timeInSecs shortText hoursOnly =
     (let secs = timeInSecs mod 60;
          minutes = timeInSecs mod 3600 div 60;
          hours = timeInSecs mod 86400 div 3600;
          days = timeInSecs div 86400
      in (if days \<noteq> 0 then decimal (unat days) @ (if shortText then chars ''d'' else chars '' Day(s) '') else [])
         @ (if hours \<noteq> 0 \<or> hoursOnly
            then decimal (unat hours) @ (if shortText then chars ''h'' else chars '' Hour(s) '') else [])
         @ (if \<not> hoursOnly
            then (if minutes \<noteq> 0
                  then decimal (unat minutes) @ (if shortText then chars ''m'' else chars '' Minute(s) '') else [])
                 @ (if secs \<noteq> 0 \<or> (days = 0 \<and> hours = 0 \<and> minutes = 0)
                    then decimal (unat secs) @ (if shortText then chars ''s'' else chars '' Second(s).'') else [])
            else []))"

text \<open>The loop over the text; the multiplier is set anew before each use.\<close>

fun time_loop :: "bytes \<Rightarrow> uint32 \<Rightarrow> uint32 \<Rightarrow> uint32" where
  "time_loop [] secs buffer = secs"
| "time_loop (c # cs) secs buffer =
     (if is_digit c then time_loop cs secs (buffer * 10 + (ucast c - 48))
      else if c = 100 then time_loop cs (secs + buffer * 86400) 0
      else if c = 104 then time_loop cs (secs + buffer * 3600) 0
      else if c = 109 then time_loop cs (secs + buffer * 60) 0
      else if c = 115 then time_loop cs (secs + buffer * 1) 0
      else 0)"

definition TimeStringToSecs :: "bytes \<Rightarrow> uint32" where
  "TimeStringToSecs timestring = time_loop timestring 0 0"

section \<open>Money\<close>

text \<open>\<^verbatim>\<open>atoi\<close>: \<^verbatim>\<open>strtol\<close> in base ten, which stops at the bounds of a 64-bit integer, cut to \<^verbatim>\<open>int\<close>.\<close>

definition atoi :: "bytes \<Rightarrow> uint32" where
  "atoi s =
     (let s1 = dropWhile is_space s;
          minus = (s1 \<noteq> [] \<and> hd s1 = 45);
          s2 = (if s1 \<noteq> [] \<and> (hd s1 = 45 \<or> hd s1 = 43) then tl s1 else s1);
          v = int (digits_value s2)
      in of_int (if minus then max (- v) (- (2 ^ 63)) else min v (2 ^ 63 - 1)))"

fun money_loop :: "bytes list \<Rightarrow> int32 \<Rightarrow> int32" where
  "money_loop [] money = money"
| "money_loop (t # ts) money =
     (let gCount = count_list t 103; sCount = count_list t 115; cCount = count_list t 99
      in if gCount + sCount + cCount \<noteq> 1 then 0
         else
           let amount = atoi t
           in money_loop ts (if gCount = 1 then money + amount * 100 * 100
                             else if sCount = 1 then money + amount * 100
                             else if cCount = 1 then money + amount
                             else money))"

definition MoneyStringToMoney :: "bytes \<Rightarrow> int32" where
  "MoneyStringToMoney moneyString =
     (if \<not> (count_list moneyString 103 = 1 \<or> count_list moneyString 115 = 1 \<or> count_list moneyString 99 = 1) then 0
      else money_loop (Tokenizer moneyString 32) 0)"

section \<open>Chat lines\<close>

definition invChars :: bytes where
  "invChars = [32, 9, 7, 10]"

text \<open>The loop with its two positions over the string that it overwrites.\<close>

function strip_loop :: "bytes \<Rightarrow> nat \<Rightarrow> nat \<Rightarrow> bool \<Rightarrow> bytes \<times> nat" where
  "strip_loop str pos wpos space =
     (if pos < length str
      then (let c = str ! pos in
            if c \<in> set invChars
            then (if \<not> space then strip_loop (str[wpos := 32]) (pos + 1) (wpos + 1) True
                  else strip_loop str (pos + 1) wpos space)
            else (if wpos \<noteq> pos then strip_loop (str[wpos := c]) (pos + 1) (wpos + 1) False
                  else strip_loop str (pos + 1) (wpos + 1) False))
      else (str, wpos))"
  by pat_completeness auto
termination
  by (relation "measure (\<lambda>(str, pos, wpos, space). length str - pos)") auto

declare strip_loop.simps [simp del]

fun bfind :: "bytes \<Rightarrow> bytes \<Rightarrow> bool" where
  "bfind needle [] \<longleftrightarrow> needle = []"
| "bfind needle (w # ws) \<longleftrightarrow> take (length needle) (w # ws) = needle \<or> bfind needle ws"

definition stripLineInvisibleChars :: "bytes \<Rightarrow> bytes" where
  "stripLineInvisibleChars src =
     (case strip_loop src 0 0 False of (str, wpos) \<Rightarrow>
        let str' = (if wpos < length str then take wpos str else str)
        in if bfind (chars ''|TInterface'') str' then [] else str')"

section \<open>Lemmas\<close>

lemma time_loop_digits:
  assumes "\<forall>c \<in> set ds. is_digit c"
  shows "time_loop (ds @ rest) s (of_nat b) = time_loop rest s (of_nat (foldl (\<lambda>n c. 10 * n + (unat c - 48)) b ds))"
  using assms
proof (induction ds arbitrary: b)
  case (Cons d ds)
  have "48 \<le> unat d" using Cons.prems by (simp add: is_digit_def word_le_nat_alt)
  then have "(ucast d - 48 :: uint32) = of_nat (unat d - 48)" by (simp add: of_nat_diff)
  then have eq: "of_nat b * 10 + (ucast d - 48) = (of_nat (10 * b + (unat d - 48)) :: uint32)" by simp
  have "time_loop ((d # ds) @ rest) s (of_nat b) = time_loop (ds @ rest) s (of_nat (10 * b + (unat d - 48)))"
    unfolding append_Cons time_loop.simps eq using Cons.prems by simp
  also have "\<dots> = time_loop rest s (of_nat (foldl (\<lambda>n c. 10 * n + (unat c - 48)) (10 * b + (unat d - 48)) ds))"
    by (rule Cons.IH) (use Cons.prems in simp)
  finally show ?case by simp
qed simp

lemma decimal_takeWhile: "takeWhile is_digit (decimal n) = decimal n"
  unfolding takeWhile_eq_all_conv using decimal_digits by blast

lemma time_loop_decimal: "time_loop (decimal n @ rest) s 0 = time_loop rest s (of_nat n)"
proof -
  have d: "\<forall>c \<in> set (decimal n). is_digit c" using decimal_digits by blast
  note tw = decimal_takeWhile [of n]
  then have "foldl (\<lambda>n c. 10 * n + (unat c - 48)) 0 (decimal n) = n"
    using digits_value_decimal [of n] unfolding digits_value_def tw by simp
  with time_loop_digits [OF d, of rest s 0] show ?thesis by simp
qed

lemma unit_chars:
  "chars ''d'' = [100]" "chars ''h'' = [104]" "chars ''m'' = [109]" "chars ''s'' = [115]"
  "\<not> is_digit 100" "\<not> is_digit 104" "\<not> is_digit 109" "\<not> is_digit 115"
  by (simp_all add: chars_def is_digit_def)

lemma seconds_split: "n = n div 86400 * 86400 + n mod 86400 div 3600 * 3600 + n mod 3600 div 60 * 60 + n mod (60 :: nat)"
proof -
  have "n mod 86400 = n mod 86400 div 3600 * 3600 + n mod 86400 mod 3600" by (rule div_mult_mod_eq [symmetric])
  moreover have "n mod 3600 = n mod 3600 div 60 * 60 + n mod 3600 mod 60" by (rule div_mult_mod_eq [symmetric])
  moreover have "n mod 86400 mod 3600 = n mod 3600" "n mod 3600 mod 60 = n mod 60" by (rule mod_mod_cancel, simp)+
  moreover have "n = n div 86400 * 86400 + n mod 86400" by (rule div_mult_mod_eq [symmetric])
  ultimately show ?thesis by linarith
qed

text \<open>Durations are read back as they were written: for every number of seconds the short text
  form is parsed into the same number, modulo 2 to the 32 because the parser counts in 32 bits.\<close>

theorem time_string_round_trip: "TimeStringToSecs (secsToTimeString t True False) = ucast t"
proof -
  define d h m s where "d = t div 86400" and "h = t mod 86400 div 3600" and "m = t mod 3600 div 60" and "s = t mod 60"
  have sum: "time_loop (secsToTimeString t True False) 0 0 =
      of_nat (unat d) * 86400 + of_nat (unat h) * 3600 + of_nat (unat m) * 60 + of_nat (unat s)"
    unfolding secsToTimeString_def Let_def d_def [symmetric] h_def [symmetric] m_def [symmetric] s_def [symmetric]
    by (simp add: time_loop_decimal unit_chars)
  have "unat t = unat d * 86400 + unat h * 3600 + unat m * 60 + unat s"
    using seconds_split [of "unat t"] unfolding d_def h_def m_def s_def by (simp add: unat_div unat_mod)
  then have "(of_nat (unat t) :: uint32) =
      of_nat (unat d) * 86400 + of_nat (unat h) * 3600 + of_nat (unat m) * 60 + of_nat (unat s)"
    by (metis (no_types, lifting) of_nat_add of_nat_mult of_nat_numeral)
  then show ?thesis using sum by (simp add: TimeStringToSecs_def)
qed

lemma count_decimal: "c \<notin> {48..57} \<Longrightarrow> count_list (decimal n) c = 0"
  using decimal_digits [of c n] by (force simp: is_digit_def count_list_0_iff)

lemma atoi_decimal:
  assumes "\<not> is_digit u"
  shows "atoi (decimal (unat (n :: uint32)) @ [u]) = n"
proof -
  obtain c cs where d: "decimal (unat n) = c # cs" by (meson decimal_not_Nil neq_Nil_conv)
  have "is_digit c" using decimal_digits [of c "unat n"] d by simp
  have "takeWhile is_digit (decimal (unat n) @ [u]) = decimal (unat n)"
    using assms decimal_digits by (subst takeWhile_append2) auto
  then have "digits_value (decimal (unat n) @ [u]) = digits_value (decimal (unat n))"
    unfolding digits_value_def decimal_takeWhile by simp
  then have v: "digits_value (c # cs @ [u]) = unat n" using digits_value_decimal [of "unat n"] by (simp add: d)
  have "uint n < 2 ^ 32" using unsigned_less [of n, where 'a = int] by simp
  then have "min (int (unat n)) (2 ^ 63 - 1) = int (unat n)" by simp
  with digit_not_special [OF \<open>is_digit c\<close>] v show ?thesis by (simp add: atoi_def d)
qed

lemma tokenizer_loop_last:
  assumes "\<forall>c \<in> set xs. c \<noteq> 32 \<and> c \<noteq> 0" and "cur @ xs \<noteq> []"
  shows "tokenizer_loop 32 cur xs = [cur @ xs]"
  using assms by (induction xs arbitrary: cur) auto

text \<open>A sum of money written as gold, silver and copper is read as its value in copper, in 32-bit
  arithmetic, for all amounts.\<close>

theorem money_string_value:
  "MoneyStringToMoney (decimal (unat g) @ chars ''g '' @ decimal (unat s) @ chars ''s '' @ decimal (unat c) @ chars ''c'')
   = (g :: uint32) * 10000 + (s :: uint32) * 100 + c"
proof -
  have ok: "\<forall>x \<in> set (decimal (unat n) @ [u]). x \<noteq> 32 \<and> x \<noteq> 0" if "u \<noteq> 32" "u \<noteq> 0" for n :: uint32 and u
    using that decimal_digits digit_not_special by auto
  have units: "chars ''g '' = [103, 32]" "chars ''s '' = [115, 32]" "chars ''c'' = [99]" by (simp_all add: chars_def)
  have nd: "\<not> is_digit 103" "\<not> is_digit 115" "\<not> is_digit 99" by (simp_all add: is_digit_def)
  let ?g = "decimal (unat g) @ [103]" and ?s = "decimal (unat s) @ [115]" and ?c = "decimal (unat c) @ [99]"
  have str: "decimal (unat g) @ chars ''g '' @ decimal (unat s) @ chars ''s '' @ decimal (unat c) @ chars ''c''
      = ?g @ 32 # ?s @ 32 # ?c" by (simp add: units)
  have tok: "Tokenizer (?g @ 32 # ?s @ 32 # ?c) 32 = [?g, ?s, ?c]"
    unfolding Tokenizer_def
    using tokenizer_loop_number [OF ok [of 103 g], of "[]" "?s @ 32 # ?c"] tokenizer_loop_number [OF ok [of 115 s], of "[]" ?c]
      tokenizer_loop_last [OF ok [of 99 c], of "[]"] by simp
  have cnt: "count_list (decimal n) 103 = 0" "count_list (decimal n) 115 = 0" "count_list (decimal n) 99 = 0" for n
    by (rule count_decimal, simp)+
  have "count_list (?g @ 32 # ?s @ 32 # ?c) 103 = 1" by (simp add: cnt count_list_append)
  then have "MoneyStringToMoney (?g @ 32 # ?s @ 32 # ?c) = money_loop [?g, ?s, ?c] 0"
    unfolding MoneyStringToMoney_def tok by simp
  also have "\<dots> = 0 + atoi ?g * 100 * 100 + atoi ?s * 100 + atoi ?c"
    by (simp add: cnt count_list_append Let_def)
  also have "\<dots> = g * 10000 + s * 100 + c" unfolding atoi_decimal [OF nd(1)] atoi_decimal [OF nd(2)] atoi_decimal [OF nd(3)] by simp
  finally show ?thesis unfolding str .
qed

section \<open>Chat lines\<close>

text \<open>What the clean-up is meant to do: every run of blanks, tabs, bells and line ends becomes one blank.\<close>

fun collapse :: "bool \<Rightarrow> bytes \<Rightarrow> bytes" where
  "collapse space [] = []"
| "collapse space (c # cs) =
     (if c \<in> set invChars then (if space then collapse True cs else 32 # collapse True cs)
      else c # collapse False cs)"

lemma length_collapse: "length (collapse space cs) \<le> length cs"
proof (induction space cs rule: collapse.induct)
  case (2 space c cs)
  then show ?case by (cases "c \<in> set invChars"; cases space) auto
qed simp

lemma strip_loop_collapse:
  assumes "wpos \<le> pos" and "pos \<le> length str" and "strip_loop str pos wpos space = (str', wpos')"
  shows "length str' = length str \<and> wpos' \<le> length str \<and> take wpos' str' = take wpos str @ collapse space (drop pos str)"
  using assms
proof (induction str pos wpos space arbitrary: str' wpos' rule: strip_loop.induct)
  case (1 str pos wpos space)
  show ?case
  proof (cases "pos < length str")
    case False
    then have "strip_loop str pos wpos space = (str, wpos)" by (subst strip_loop.simps) simp
    with False 1(5-7) show ?thesis by auto
  next
    case True
    let ?c = "str ! pos"
    have drop: "drop pos str = ?c # drop (pos + 1) str" using True by (simp add: Cons_nth_drop_Suc)
    have upd: "take (wpos + 1) (str[wpos := x]) = take wpos str @ [x]" "drop (pos + 1) (str[wpos := x]) = drop (pos + 1) str"
      for x using True 1(5) by (simp_all add: take_Suc_conv_app_nth)
    have same: "take (wpos + 1) str = take wpos str @ [?c]" if "wpos = pos"
      using that True by (simp add: take_Suc_conv_app_nth)
    note step = 1(7) [unfolded strip_loop.simps [of str pos] Let_def]
    consider (first) "?c \<in> set invChars" "\<not> space" | (run) "?c \<in> set invChars" space
      | (move) "?c \<notin> set invChars" "wpos \<noteq> pos" | (stay) "?c \<notin> set invChars" "wpos = pos" by blast
    then show ?thesis
    proof cases
      case first
      with 1(1) [OF True refl first] step True 1(5) show ?thesis by (simp add: drop upd [simplified])
    next
      case run
      with 1(2) [OF True refl run(1)] step True 1(5) show ?thesis by (simp add: drop)
    next
      case move
      with 1(3) [OF True refl move] step True 1(5) show ?thesis by (simp add: drop upd [simplified])
    next
      case stay
      with 1(4) [OF True refl stay(1)] step True 1(5) same show ?thesis by (simp add: drop)
    qed
  qed
qed

text \<open>The clean-up of a chat line, which overwrites the string it reads, yields the text in which
  every run of blanks, tabs, bells and line ends is one blank, or nothing if that text holds
  the marker of a texture link. Its result has no invisible character but single blanks.\<close>

theorem strip_line_collapses:
  "stripLineInvisibleChars src =
     (if bfind (chars ''|TInterface'') (collapse False src) then [] else collapse False src)
   \<and> length (stripLineInvisibleChars src) \<le> length src
   \<and> (\<forall>c \<in> set (stripLineInvisibleChars src). c \<in> set invChars \<longrightarrow> c = 32)
   \<and> \<not> (\<exists>i. i + 1 < length (stripLineInvisibleChars src)
           \<and> stripLineInvisibleChars src ! i = 32 \<and> stripLineInvisibleChars src ! (i + 1) = 32)"
proof -
  obtain str w where sl: "strip_loop src 0 0 False = (str, w)" by fastforce
  have "take w str = collapse False src" "length str = length src" "w \<le> length src"
    using strip_loop_collapse [OF _ _ sl] by auto
  then have eq: "stripLineInvisibleChars src =
      (if bfind (chars ''|TInterface'') (collapse False src) then [] else collapse False src)"
    by (auto simp: stripLineInvisibleChars_def sl Let_def)
  have inv: "c \<in> set (collapse sp cs) \<Longrightarrow> c \<in> set invChars \<Longrightarrow> c = 32" for c sp cs
    by (induction sp cs rule: collapse.induct) (auto split: if_splits)
  have blank: "32 \<in> set invChars" by (simp add: invChars_def)
  have hd: "collapse True cs \<noteq> [] \<Longrightarrow> hd (collapse True cs) \<noteq> 32" for cs
    using blank by (induction cs) auto
  have pairs: "i + 1 < length (collapse sp cs) \<Longrightarrow> \<not> (collapse sp cs ! i = 32 \<and> collapse sp cs ! (i + 1) = 32)" for i sp cs
  proof (induction sp cs arbitrary: i rule: collapse.induct)
    case (2 sp c cs)
    consider "c \<in> set invChars" sp | "c \<in> set invChars" "\<not> sp" | "c \<notin> set invChars" by blast
    then show ?case
    proof cases
      case 1
      with 2 show ?thesis by simp
    next
      case 2
      show ?thesis
      proof (cases i)
        case 0
        then have "collapse True cs \<noteq> []" using 2 \<open>i + 1 < length (collapse sp (c # cs))\<close> by auto
        with 0 2 hd [of cs] show ?thesis by (simp add: hd_conv_nth)
      next
        case (Suc j)
        with 2 \<open>i + 1 < length (collapse sp (c # cs))\<close> "2.IH"(2) [OF 2] show ?thesis by simp
      qed
    next
      case 3
      then have "c \<noteq> 32" using blank by blast
      with 3 "2.IH"(3) [OF 3] \<open>i + 1 < length (collapse sp (c # cs))\<close> show ?thesis by (cases i) auto
    qed
  qed simp
  show ?thesis unfolding eq using length_collapse [of False src] inv [of _ False src] pairs [of _ False src] by auto
qed

theorem strip_line_collapses_witness:
  "stripLineInvisibleChars [72, 9, 32, 105] = [72, 32, 105]"
proof -
  have "\<not> bfind (chars ''|TInterface'') (collapse False [72, 9, 32, 105])" "collapse False [72, 9, 32, 105] = [72, 32, 105]"
    by code_simp+
  with strip_line_collapses [of "[72, 9, 32, 105]"] show ?thesis by simp
qed

end
