(* ===== verification/Flag96.thy ===== *)
theory Flag96
  imports HG_Prelude
begin

text \<open>
  The 96-bit masks of spell families: \<^verbatim>\<open>flag96\<close> of src/Core/src/server/shared/Utilities/Util.h.
  The comparison of the code makes the type a linear order, the order of the masks read as
  numbers.
\<close>

datatype flag96 = flag96 (part0: uint32) (part1: uint32) (part2: uint32)

definition fl_IsEqual :: "uint32 \<Rightarrow> uint32 \<Rightarrow> uint32 \<Rightarrow> flag96 \<Rightarrow> bool" where
  "fl_IsEqual p1 p2 p3 f \<longleftrightarrow> part0 f = p1 \<and> part1 f = p2 \<and> part2 f = p3"

definition fl_HasFlag :: "uint32 \<Rightarrow> uint32 \<Rightarrow> uint32 \<Rightarrow> flag96 \<Rightarrow> bool" where
  "fl_HasFlag p1 p2 p3 f \<longleftrightarrow> part0 f AND p1 \<noteq> 0 \<or> part1 f AND p2 \<noteq> 0 \<or> part2 f AND p3 \<noteq> 0"

definition fl_Set :: "uint32 \<Rightarrow> uint32 \<Rightarrow> uint32 \<Rightarrow> flag96 \<Rightarrow> flag96" where
  "fl_Set p1 p2 p3 f = flag96 p1 p2 p3"

definition fl_part :: "nat \<Rightarrow> flag96 \<Rightarrow> uint32" where
  "fl_part el f = [part0 f, part1 f, part2 f] ! el"

text \<open>\<^verbatim>\<open>operator <\<close>: the loop from the last part to the first\<close>

fun fl_less_loop :: "nat \<Rightarrow> flag96 \<Rightarrow> flag96 \<Rightarrow> bool" where
  "fl_less_loop 0 f right = False"
| "fl_less_loop (Suc i) f right =
     (if fl_part i f < fl_part i right then True
      else if fl_part i f > fl_part i right then False
      else fl_less_loop i f right)"

definition fl_less :: "flag96 \<Rightarrow> flag96 \<Rightarrow> bool" where
  "fl_less f right = fl_less_loop 3 f right"

definition fl_eq :: "flag96 \<Rightarrow> flag96 \<Rightarrow> bool" where
  "fl_eq f right \<longleftrightarrow> part0 f = part0 right \<and> part1 f = part1 right \<and> part2 f = part2 right"

definition fl_and :: "flag96 \<Rightarrow> flag96 \<Rightarrow> flag96" where
  "fl_and f right = flag96 (part0 f AND part0 right) (part1 f AND part1 right) (part2 f AND part2 right)"

definition fl_or :: "flag96 \<Rightarrow> flag96 \<Rightarrow> flag96" where
  "fl_or f right = flag96 (part0 f OR part0 right) (part1 f OR part1 right) (part2 f OR part2 right)"

definition fl_not :: "flag96 \<Rightarrow> flag96" where
  "fl_not f = flag96 (NOT (part0 f)) (NOT (part1 f)) (NOT (part2 f))"

definition fl_xor :: "flag96 \<Rightarrow> flag96 \<Rightarrow> flag96" where
  "fl_xor f right = flag96 (part0 f XOR part0 right) (part1 f XOR part1 right) (part2 f XOR part2 right)"

definition fl_bool :: "flag96 \<Rightarrow> bool" where
  "fl_bool f \<longleftrightarrow> part0 f \<noteq> 0 \<or> part1 f \<noteq> 0 \<or> part2 f \<noteq> 0"

text \<open>The mask as a number.\<close>

definition fl_value :: "flag96 \<Rightarrow> nat" where
  "fl_value f = unat (part2 f) * 2 ^ 64 + unat (part1 f) * 2 ^ 32 + unat (part0 f)"

lemma fl_less_parts:
  "fl_less f g \<longleftrightarrow> part2 f < part2 g \<or> part2 f = part2 g \<and>
     (part1 f < part1 g \<or> part1 f = part1 g \<and> part0 f < part0 g)"
  by (auto simp: fl_less_def fl_part_def numeral_3_eq_3)

lemma two_digits_less:
  assumes "a0 < n" "b0 < (n :: nat)"
  shows "a1 * n + a0 < b1 * n + b0 \<longleftrightarrow> a1 < b1 \<or> a1 = b1 \<and> a0 < b0"
proof -
  have "a1 * n + a0 < b1 * n + b0" if "a1 < b1"
  proof -
    have "Suc a1 * n \<le> b1 * n" using that by (intro mult_le_mono1) simp
    then show ?thesis using assms by simp
  qed
  moreover have "\<not> a1 * n + a0 < b1 * n + b0" if "b1 < a1"
  proof -
    have "Suc b1 * n \<le> a1 * n" using that by (intro mult_le_mono1) simp
    then show ?thesis using assms by simp
  qed
  ultimately show ?thesis by (cases a1 b1 rule: linorder_cases) auto
qed

lemma fl_less_value: "fl_less f g \<longleftrightarrow> fl_value f < fl_value g"
proof -
  have b: "unat (x :: uint32) < 2 ^ 32" for x using unsigned_less [of x, where 'a = nat] by simp
  have mid: "unat (part1 f) * 2 ^ 32 + unat (part0 f) < unat (part1 g) * 2 ^ 32 + unat (part0 g) \<longleftrightarrow>
      part1 f < part1 g \<or> part1 f = part1 g \<and> part0 f < part0 g"
    by (subst two_digits_less [OF b b]) (auto simp: word_less_nat_alt word_unat_eq_iff)
  have bound: "unat (x :: uint32) * 2 ^ 32 + unat (y :: uint32) < 2 ^ 64" for x y
  proof -
    have "unat x * 2 ^ 32 \<le> (2 ^ 32 - 1) * 2 ^ 32" using b [of x] by (intro mult_le_mono1) simp
    with b [of y] show ?thesis by simp
  qed
  have "fl_value f < fl_value g \<longleftrightarrow> part2 f < part2 g \<or> part2 f = part2 g \<and>
      unat (part1 f) * 2 ^ 32 + unat (part0 f) < unat (part1 g) * 2 ^ 32 + unat (part0 g)"
    unfolding fl_value_def add.assoc
    by (subst two_digits_less [OF bound bound]) (auto simp: word_less_nat_alt word_unat_eq_iff)
  then show ?thesis unfolding mid fl_less_parts by simp
qed

lemma fl_value_inj: "fl_value f = fl_value g \<longleftrightarrow> f = g"
proof
  assume "fl_value f = fl_value g"
  then have "\<not> fl_less f g" "\<not> fl_less g f" by (simp_all add: fl_less_value)
  then show "f = g" by (cases f; cases g) (auto simp: fl_less_parts)
qed simp

text \<open>The order of the code, for the library's ordered containers.\<close>

instantiation flag96 :: linorder
begin

definition less_flag96 :: "flag96 \<Rightarrow> flag96 \<Rightarrow> bool" where
  "less_flag96 f g \<longleftrightarrow> fl_less f g"

definition less_eq_flag96 :: "flag96 \<Rightarrow> flag96 \<Rightarrow> bool" where
  "less_eq_flag96 f g \<longleftrightarrow> fl_less f g \<or> f = g"

instance
  by standard (auto simp: less_flag96_def less_eq_flag96_def fl_less_value fl_value_inj [symmetric])

end

text \<open>The comparison of masks is the order of the numbers they stand for, hence a strict linear
  order as the ordered containers need it; equality is equality of all parts, a mask has a
  flag exactly if its conjunction with it is not empty, and exclusive or undoes itself.\<close>

theorem flag96_order:
  "(fl_less f g \<longleftrightarrow> fl_value f < fl_value g) \<and> (fl_eq f g \<longleftrightarrow> fl_value f = fl_value g)
   \<and> (fl_HasFlag p1 p2 p3 f \<longleftrightarrow> fl_bool (fl_and f (flag96 p1 p2 p3)))
   \<and> fl_xor (fl_xor f g) g = f \<and> fl_not (fl_and f g) = fl_or (fl_not f) (fl_not g)"
proof (intro conjI)
  show "fl_less f g \<longleftrightarrow> fl_value f < fl_value g" by (rule fl_less_value)
  show "fl_eq f g \<longleftrightarrow> fl_value f = fl_value g"
    unfolding fl_value_inj by (cases f; cases g) (auto simp: fl_eq_def)
  show "fl_HasFlag p1 p2 p3 f \<longleftrightarrow> fl_bool (fl_and f (flag96 p1 p2 p3))"
    by (simp add: fl_HasFlag_def fl_bool_def fl_and_def)
  show "fl_xor (fl_xor f g) g = f" by (cases f; cases g) (simp add: fl_xor_def xor.assoc)
  show "fl_not (fl_and f g) = fl_or (fl_not f) (fl_not g)"
    by (simp add: fl_not_def fl_and_def fl_or_def bit.de_Morgan_conj)
qed

end
