(* ===== verification/Big_Number.thy ===== *)
theory Big_Number
  imports Byte_Buffer
begin

text \<open>
  \<^verbatim>\<open>BigNumber\<close> (src/Core/src/server/shared/Cryptography/BigNumber.cpp) and
  \<^verbatim>\<open>SHA1Hash\<close> (SHA1.cpp beside it), the wrappers around OpenSSL that the login server
  computes with. OpenSSL is the record \<open>openssl\<close> of its functions, an argument of the
  operations; a \<^verbatim>\<open>BIGNUM\<close> is represented by the integer it stands for. What the manual
  pages of OpenSSL document of these functions is the predicate \<open>ssl_documented\<close>.
\<close>

section \<open>OpenSSL\<close>

record openssl =
  BN_set_word :: "uint32 \<Rightarrow> int"
  BN_add_word :: "int \<Rightarrow> uint32 \<Rightarrow> int"
  BN_get_word :: "int \<Rightarrow> uint64"
  BN_lshift :: "int \<Rightarrow> nat \<Rightarrow> int"
  BN_bin2bn :: "uint8 list \<Rightarrow> int"
  BN_bn2bin :: "int \<Rightarrow> uint8 list"
  BN_num_bytes :: "int \<Rightarrow> nat"
  BN_hex2bn :: "uint8 list \<Rightarrow> int option"
  BN_bn2hex :: "int \<Rightarrow> uint8 list"
  BN_bn2dec :: "int \<Rightarrow> uint8 list"
  BN_add :: "int \<Rightarrow> int \<Rightarrow> int"
  BN_sub :: "int \<Rightarrow> int \<Rightarrow> int"
  BN_mul :: "int \<Rightarrow> int \<Rightarrow> int"
  BN_div :: "int \<Rightarrow> int \<Rightarrow> int"
  BN_mod :: "int \<Rightarrow> int \<Rightarrow> int"
  BN_exp :: "int \<Rightarrow> int \<Rightarrow> int"
  BN_mod_exp :: "int \<Rightarrow> int \<Rightarrow> int \<Rightarrow> int"
  BN_is_zero :: "int \<Rightarrow> bool"
  SSL_SHA1 :: "uint8 list \<Rightarrow> uint8 list"
  SSL_HMAC_sha1 :: "uint8 list \<Rightarrow> uint8 list \<Rightarrow> uint8 list"

section \<open>BigNumber\<close>

text \<open>\<^verbatim>\<open>BN_new\<close> makes a number of value zero.\<close>

definition bn_new :: int where
  "bn_new = 0"

definition bn_SetDword :: "openssl \<Rightarrow> uint32 \<Rightarrow> int" where
  "bn_SetDword ssl val = BN_set_word ssl val"

definition bn_SetQword :: "openssl \<Rightarrow> uint64 \<Rightarrow> int" where
  "bn_SetQword ssl val =
     (let n = BN_set_word ssl (ucast (drop_bit 32 val));
          n = BN_lshift ssl n 32
      in BN_add_word ssl n (ucast (val AND 0xFFFFFFFF)))"

text \<open>The first \<open>len\<close> bytes, the last one as the most significant.\<close>

definition bn_SetBinary :: "openssl \<Rightarrow> uint8 list \<Rightarrow> nat \<Rightarrow> int" where
  "bn_SetBinary ssl bytes len =
     (let array = map (\<lambda>i. bytes ! (len - 1 - i)) [0 ..< len]
      in BN_bin2bn ssl array)"

text \<open>\<^verbatim>\<open>BN_hex2bn\<close> leaves the number as it was when the text has no digit.\<close>

definition bn_SetHexStr :: "openssl \<Rightarrow> uint8 list \<Rightarrow> int \<Rightarrow> int" where
  "bn_SetHexStr ssl str bn = (case BN_hex2bn ssl str of None \<Rightarrow> bn | Some n \<Rightarrow> n)"

definition bn_plus :: "openssl \<Rightarrow> int \<Rightarrow> int \<Rightarrow> int" where
  "bn_plus ssl a b = BN_add ssl a b"

definition bn_minus :: "openssl \<Rightarrow> int \<Rightarrow> int \<Rightarrow> int" where
  "bn_minus ssl a b = BN_sub ssl a b"

definition bn_times :: "openssl \<Rightarrow> int \<Rightarrow> int \<Rightarrow> int" where
  "bn_times ssl a b = BN_mul ssl a b"

definition bn_divide :: "openssl \<Rightarrow> int \<Rightarrow> int \<Rightarrow> int" where
  "bn_divide ssl a b = BN_div ssl a b"

definition bn_modulo :: "openssl \<Rightarrow> int \<Rightarrow> int \<Rightarrow> int" where
  "bn_modulo ssl a b = BN_mod ssl a b"

definition bn_Exp :: "openssl \<Rightarrow> int \<Rightarrow> int \<Rightarrow> int" where
  "bn_Exp ssl a b = BN_exp ssl a b"

definition bn_ModExp :: "openssl \<Rightarrow> int \<Rightarrow> int \<Rightarrow> int \<Rightarrow> int" where
  "bn_ModExp ssl a bn1 bn2 = BN_mod_exp ssl a bn1 bn2"

definition bn_GetNumBytes :: "openssl \<Rightarrow> int \<Rightarrow> nat" where
  "bn_GetNumBytes ssl a = BN_num_bytes ssl a"

definition bn_AsDword :: "openssl \<Rightarrow> int \<Rightarrow> uint32" where
  "bn_AsDword ssl a = ucast (BN_get_word ssl a)"

definition bn_isZero :: "openssl \<Rightarrow> int \<Rightarrow> bool" where
  "bn_isZero ssl a = BN_is_zero ssl a"

text \<open>
  The array is cleared when it is longer than the number, and \<^verbatim>\<open>BN_bn2bin\<close> writes from
  its start; an array of exactly the length of the number is overwritten in full.
\<close>

definition bn_AsByteArray :: "openssl \<Rightarrow> nat \<Rightarrow> bool \<Rightarrow> int \<Rightarrow> uint8 list" where
  "bn_AsByteArray ssl minSize littleEndian a =
     (let len = (if minSize \<ge> bn_GetNumBytes ssl a then minSize else bn_GetNumBytes ssl a);
          array = vec_write 0 (BN_bn2bin ssl a) (replicate len 0)
      in if littleEndian then rev array else array)"

definition bn_AsHexStr :: "openssl \<Rightarrow> int \<Rightarrow> uint8 list" where
  "bn_AsHexStr ssl a = BN_bn2hex ssl a"

definition bn_AsDecStr :: "openssl \<Rightarrow> int \<Rightarrow> uint8 list" where
  "bn_AsDecStr ssl a = BN_bn2dec ssl a"

section \<open>SHA1Hash\<close>

text \<open>The context is the data it has taken in.\<close>

record sha1hash =
  sh_mC :: "uint8 list"
  sh_mDigest :: "uint8 list"

definition SHA_DIGEST_LENGTH :: nat where
  "SHA_DIGEST_LENGTH = 20"

definition sha_new :: sha1hash where
  "sha_new = \<lparr>sh_mC = [], sh_mDigest = replicate SHA_DIGEST_LENGTH 0\<rparr>"

definition sha_Initialize :: "sha1hash \<Rightarrow> sha1hash" where
  "sha_Initialize h = h\<lparr>sh_mC := []\<rparr>"

definition sha_UpdateData :: "uint8 list \<Rightarrow> sha1hash \<Rightarrow> sha1hash" where
  "sha_UpdateData dta h = h\<lparr>sh_mC := sh_mC h @ dta\<rparr>"

fun sha_UpdateBigNumbers :: "openssl \<Rightarrow> int list \<Rightarrow> sha1hash \<Rightarrow> sha1hash" where
  "sha_UpdateBigNumbers ssl [] h = h"
| "sha_UpdateBigNumbers ssl (bn # bns) h =
     sha_UpdateBigNumbers ssl bns
       (sha_UpdateData (take (bn_GetNumBytes ssl bn) (bn_AsByteArray ssl 0 True bn)) h)"

definition sha_Finalize :: "openssl \<Rightarrow> sha1hash \<Rightarrow> sha1hash" where
  "sha_Finalize ssl h = h\<lparr>sh_mDigest := SSL_SHA1 ssl (sh_mC h)\<rparr>"

lemmas sha_simps =
  sha_new_def sha_Initialize_def sha_UpdateData_def sha_Finalize_def

section \<open>What OpenSSL documents\<close>

fun be_value :: "uint8 list \<Rightarrow> nat" where
  "be_value [] = 0"
| "be_value (x # xs) = unat x * 256 ^ length xs + be_value xs"

definition le_value :: "uint8 list \<Rightarrow> nat" where
  "le_value bs = be_value (rev bs)"

text \<open>
  Numbers are read and written most significant byte first and without leading zeros, the
  arithmetic is that of the integers (used here on non-negative operands only), and a
  digest of SHA-1 has twenty bytes.
\<close>

definition ssl_documented :: "openssl \<Rightarrow> bool" where
  "ssl_documented ssl \<longleftrightarrow>
     (\<forall>bs. BN_bin2bn ssl bs = int (be_value bs))
   \<and> (\<forall>n \<ge> 0. int (be_value (BN_bn2bin ssl n)) = n)
   \<and> (\<forall>n \<ge> 0. BN_bn2bin ssl n \<noteq> [] \<longrightarrow> hd (BN_bn2bin ssl n) \<noteq> 0)
   \<and> (\<forall>n \<ge> 0. BN_num_bytes ssl n = length (BN_bn2bin ssl n))
   \<and> (\<forall>a \<ge> 0. \<forall>b \<ge> 0. BN_add ssl a b = a + b)
   \<and> (\<forall>a \<ge> 0. \<forall>b \<ge> 0. BN_mul ssl a b = a * b)
   \<and> (\<forall>a \<ge> 0. \<forall>m > 0. BN_mod ssl a m = a mod m)
   \<and> (\<forall>a \<ge> 0. \<forall>p \<ge> 0. \<forall>m > 0. BN_mod_exp ssl a p m = a ^ nat p mod m)
   \<and> (\<forall>n. BN_is_zero ssl n \<longleftrightarrow> n = 0)
   \<and> (\<forall>w. BN_set_word ssl w = int (unat w))
   \<and> (\<forall>bs. length (SSL_SHA1 ssl bs) = 20)
   \<and> (\<forall>k m. length (SSL_HMAC_sha1 ssl k m) = 20)"

lemma be_value_append: "be_value (xs @ ys) = be_value xs * 256 ^ length ys + be_value ys"
  by (induction xs) (auto simp: power_add algebra_simps)

lemma be_value_zeros [simp]: "be_value (replicate n 0) = 0"
  by (induction n) auto

lemma be_value_less: "be_value xs < 256 ^ length xs"
proof (induction xs)
  case (Cons x xs)
  have "unat x < 2 ^ LENGTH(8)" by (rule unsigned_less)
  then have "unat x \<le> 255" by simp
  then have "unat x * 256 ^ length xs \<le> 255 * 256 ^ length xs" by (rule mult_le_mono1)
  with Cons have "unat x * 256 ^ length xs + be_value xs < 256 * 256 ^ length xs" by linarith
  then show ?case by simp
qed simp

lemma be_value_eq_0: "be_value xs = 0 \<longleftrightarrow> xs = replicate (length xs) 0"
proof (induction xs)
  case (Cons x xs)
  have "unat x = 0 \<longleftrightarrow> x = 0" by (simp add: unat_eq_0)
  with Cons show ?case by auto
qed simp

text \<open>Of equal length, numbers written in base 256 are equal only if their bytes are.\<close>

lemma be_value_inj: "length xs = length ys \<Longrightarrow> be_value xs = be_value ys \<Longrightarrow> xs = ys"
proof (induction xs ys rule: list_induct2)
  case (Cons x xs y ys)
  have div: "be_value (z # zs) div 256 ^ length zs = unat z" for z zs
    using be_value_less [of zs] by simp
  from Cons have "unat x = unat y" using div [of x xs] div [of y ys] by simp
  with Cons show ?case by (simp add: word_unat_eq_iff)
qed simp

lemma ssl_numbers:
  assumes "ssl_documented ssl"
  shows "BN_bin2bn ssl bs = int (be_value bs)"
    and "BN_is_zero ssl n \<longleftrightarrow> n = 0"
    and "length (SSL_SHA1 ssl bs) = 20"
    and "length (SSL_HMAC_sha1 ssl k m) = 20"
    and "BN_set_word ssl w = int (unat w)"
proof -
  have "\<forall>bs. BN_bin2bn ssl bs = int (be_value bs)" and "\<forall>n. BN_is_zero ssl n \<longleftrightarrow> n = 0"
    and "\<forall>bs. length (SSL_SHA1 ssl bs) = 20" and "\<forall>k m. length (SSL_HMAC_sha1 ssl k m) = 20"
    and "\<forall>w. BN_set_word ssl w = int (unat w)"
    using assms unfolding ssl_documented_def by - (elim conjE, assumption)+
  then show "BN_bin2bn ssl bs = int (be_value bs)" and "BN_is_zero ssl n \<longleftrightarrow> n = 0"
    and "length (SSL_SHA1 ssl bs) = 20" and "length (SSL_HMAC_sha1 ssl k m) = 20"
    and "BN_set_word ssl w = int (unat w)"
    by simp_all
qed

lemma ssl_arith:
  assumes "ssl_documented ssl"
  shows "0 \<le> a \<Longrightarrow> 0 \<le> b \<Longrightarrow> BN_add ssl a b = a + b"
    and "0 \<le> a \<Longrightarrow> 0 \<le> b \<Longrightarrow> BN_mul ssl a b = a * b"
    and "0 \<le> a \<Longrightarrow> 0 < m \<Longrightarrow> BN_mod ssl a m = a mod m"
    and "0 \<le> a \<Longrightarrow> 0 \<le> p \<Longrightarrow> 0 < m \<Longrightarrow> BN_mod_exp ssl a p m = a ^ nat p mod m"
proof -
  have "\<forall>a \<ge> 0. \<forall>b \<ge> 0. BN_add ssl a b = a + b" and "\<forall>a \<ge> 0. \<forall>b \<ge> 0. BN_mul ssl a b = a * b"
    and "\<forall>a \<ge> 0. \<forall>m > 0. BN_mod ssl a m = a mod m"
    and "\<forall>a \<ge> 0. \<forall>p \<ge> 0. \<forall>m > 0. BN_mod_exp ssl a p m = a ^ nat p mod m"
    using assms unfolding ssl_documented_def by - (elim conjE, assumption)+
  then show "0 \<le> a \<Longrightarrow> 0 \<le> b \<Longrightarrow> BN_add ssl a b = a + b"
    and "0 \<le> a \<Longrightarrow> 0 \<le> b \<Longrightarrow> BN_mul ssl a b = a * b"
    and "0 \<le> a \<Longrightarrow> 0 < m \<Longrightarrow> BN_mod ssl a m = a mod m"
    and "0 \<le> a \<Longrightarrow> 0 \<le> p \<Longrightarrow> 0 < m \<Longrightarrow> BN_mod_exp ssl a p m = a ^ nat p mod m"
    by simp_all
qed

lemma bn2bin_facts:
  assumes "ssl_documented ssl" and "0 \<le> n"
  shows "int (be_value (BN_bn2bin ssl n)) = n"
    and "BN_bn2bin ssl n \<noteq> [] \<longrightarrow> hd (BN_bn2bin ssl n) \<noteq> 0"
    and "BN_num_bytes ssl n = length (BN_bn2bin ssl n)"
proof -
  have "\<forall>n \<ge> 0. int (be_value (BN_bn2bin ssl n)) = n"
    and "\<forall>n \<ge> 0. BN_bn2bin ssl n \<noteq> [] \<longrightarrow> hd (BN_bn2bin ssl n) \<noteq> 0"
    and "\<forall>n \<ge> 0. BN_num_bytes ssl n = length (BN_bn2bin ssl n)"
    using assms(1) unfolding ssl_documented_def by - (elim conjE, assumption)+
  with assms(2) show "int (be_value (BN_bn2bin ssl n)) = n"
    and "BN_bn2bin ssl n \<noteq> [] \<longrightarrow> hd (BN_bn2bin ssl n) \<noteq> 0"
    and "BN_num_bytes ssl n = length (BN_bn2bin ssl n)"
    by blast+
qed

text \<open>The shortest representation determines the bytes.\<close>

lemma bn2bin_unique:
  assumes ssl: "ssl_documented ssl" and n: "n = int (be_value bs)" and bs: "bs \<noteq> [] \<longrightarrow> hd bs \<noteq> 0"
  shows "BN_bn2bin ssl n = bs"
proof -
  have pos: "256 ^ (length xs - 1) \<le> be_value xs" if "xs \<noteq> []" "hd xs \<noteq> 0" for xs
  proof -
    obtain x xs' where xs: "xs = x # xs'" using \<open>xs \<noteq> []\<close> by (cases xs) auto
    then have "1 \<le> unat x" using that(2) by (simp add: Suc_leI unat_gt_0)
    then have "1 * 256 ^ length xs' \<le> unat x * 256 ^ length xs'" by (rule mult_le_mono1)
    with xs show ?thesis by (simp add: trans_le_add1)
  qed
  let ?cs = "BN_bn2bin ssl n"
  have cs: "be_value ?cs = be_value bs" and hd: "?cs \<noteq> [] \<longrightarrow> hd ?cs \<noteq> 0"
    using bn2bin_facts [OF ssl, of n] n by simp_all
  have le: "length xs \<le> length ys"
    if "be_value xs = be_value ys" "xs \<noteq> [] \<longrightarrow> hd xs \<noteq> 0" for xs ys
  proof (cases "xs = []")
    case False
    then have "256 ^ (length xs - 1) \<le> be_value xs" using that(2) pos by blast
    with that(1) be_value_less [of ys]
    have "(256 :: nat) ^ (length xs - 1) < 256 ^ length ys" by linarith
    then have "length xs - 1 < length ys" by (rule power_less_imp_less_exp [rotated]) simp
    with False show ?thesis by linarith
  qed simp
  have "length ?cs = length bs"
    using le [OF cs hd] le [OF cs [symmetric] bs] by simp
  then show ?thesis using be_value_inj cs by blast
qed

lemma SetBinary_rev: "len = length bytes \<Longrightarrow> bn_SetBinary ssl bytes len = BN_bin2bn ssl (rev bytes)"
proof -
  assume len: "len = length bytes"
  have "map (\<lambda>i. bytes ! (len - 1 - i)) [0 ..< len] = rev bytes"
    unfolding len by (rule nth_equalityI) (simp_all add: rev_nth)
  then show ?thesis by (simp only: bn_SetBinary_def Let_def)
qed

lemma SetBinary_value:
  "ssl_documented ssl \<Longrightarrow> len = length bytes \<Longrightarrow> bn_SetBinary ssl bytes len = int (le_value bytes)"
  by (simp add: SetBinary_rev le_value_def ssl_numbers)

lemma AsByteArray_shape:
  assumes "ssl_documented ssl" and "0 \<le> n"
  shows "bn_AsByteArray ssl minSize True n
    = replicate (minSize - bn_GetNumBytes ssl n) 0 @ rev (BN_bn2bin ssl n)"
  using bn2bin_facts(3) [OF assms]
  by (auto simp: bn_AsByteArray_def bn_GetNumBytes_def vec_write_def Let_def)

text \<open>
  One implementation that keeps to the documentation, with schoolbook arithmetic and, in
  place of the digests, the first twenty bytes of the data: it evaluates on concrete numbers.
\<close>

fun be_bytes :: "nat \<Rightarrow> uint8 list" where
  "be_bytes n = (if n = 0 then [] else be_bytes (n div 256) @ [of_nat (n mod 256)])"

declare be_bytes.simps [simp del]

definition first20 :: "uint8 list \<Rightarrow> uint8 list" where
  "first20 bs = take 20 (bs @ replicate 20 0)"

definition plain_ssl :: openssl where
  "plain_ssl = \<lparr>BN_set_word = \<lambda>w. int (unat w), BN_add_word = \<lambda>n w. n + int (unat w),
     BN_get_word = \<lambda>n. of_int n, BN_lshift = \<lambda>n k. n * 2 ^ k,
     BN_bin2bn = \<lambda>bs. int (be_value bs), BN_bn2bin = \<lambda>n. be_bytes (nat n),
     BN_num_bytes = \<lambda>n. length (be_bytes (nat n)), BN_hex2bn = \<lambda>bs. Some (int (be_value bs)),
     BN_bn2hex = \<lambda>n. be_bytes (nat n), BN_bn2dec = \<lambda>n. be_bytes (nat n),
     BN_add = (+), BN_sub = (-), BN_mul = (*), BN_div = (div), BN_mod = (mod),
     BN_exp = \<lambda>a p. a ^ nat p, BN_mod_exp = \<lambda>a p m. a ^ nat p mod m,
     BN_is_zero = \<lambda>n. n = 0, SSL_SHA1 = first20, SSL_HMAC_sha1 = \<lambda>k m. first20 (k @ m)\<rparr>"

lemma be_value_be_bytes [simp]: "be_value (be_bytes n) = n"
proof (induction n rule: be_bytes.induct)
  case (1 n)
  then show ?case
    by (subst be_bytes.simps) (simp add: be_value_append unat_of_nat)
qed

lemma hd_be_bytes: "be_bytes n \<noteq> [] \<longrightarrow> hd (be_bytes n) \<noteq> 0"
proof (induction n rule: be_bytes.induct)
  case (1 n)
  show ?case
  proof (cases "n div 256 = 0")
    case True
    then have "n < 256" by simp
    moreover have "be_bytes 0 = []" by (subst be_bytes.simps) simp
    ultimately show ?thesis
      by (subst be_bytes.simps, subst (2) be_bytes.simps) (simp add: True word_unat_eq_iff unat_of_nat)
  next
    case False
    then have "n \<noteq> 0" by auto
    have "be_bytes (n div 256) \<noteq> []" using False by (subst be_bytes.simps) simp
    then show ?thesis
      using 1 \<open>n \<noteq> 0\<close> by (subst be_bytes.simps, subst (2) be_bytes.simps) (simp add: hd_append)
  qed
qed

lemma length_be_bytes:
  assumes "256 ^ k \<le> n" and "n < 256 ^ Suc k"
  shows "length (be_bytes n) = Suc k"
  using assms
proof (induction k arbitrary: n)
  case 0
  then have "n \<noteq> 0" "n div 256 = 0" by simp_all
  then show ?case
    by (subst be_bytes.simps) (simp add: be_bytes.simps [of 0])
next
  case (Suc k)
  then have "256 ^ k \<le> n div 256" "n div 256 < 256 ^ Suc k"
    by (simp_all add: less_eq_div_iff_mult_less_eq div_less_iff_less_mult mult.commute)
  moreover have "n \<noteq> 0" using Suc.prems(1) by (cases "n = 0") simp_all
  ultimately show ?case using Suc.IH by (subst be_bytes.simps) simp
qed

lemma plain_ssl_documented: "ssl_documented plain_ssl"
  by (auto simp: ssl_documented_def plain_ssl_def hd_be_bytes first20_def)

section \<open>Property\<close>

text \<open>
  C11. The byte array of a number: with at least as many bytes as asked for, reading it back
  gives the number; with fewer, the zeros that fill it up stand on the side of the least
  significant byte, so that what a reader of the little-endian array sees is the number
  times 256 for every byte of padding. Only zero survives the padding.
\<close>

theorem byte_array_padding:
  assumes "ssl_documented ssl" and "0 \<le> n"
  shows "bn_SetBinary ssl (bn_AsByteArray ssl minSize True n)
      (length (bn_AsByteArray ssl minSize True n)) = n * 256 ^ (minSize - bn_GetNumBytes ssl n)
    \<and> (bn_SetBinary ssl (bn_AsByteArray ssl minSize True n)
        (length (bn_AsByteArray ssl minSize True n)) = n
       \<longleftrightarrow> n = 0 \<or> minSize \<le> bn_GetNumBytes ssl n)"
proof -
  have "int (le_value (bn_AsByteArray ssl minSize True n)) = n * 256 ^ (minSize - bn_GetNumBytes ssl n)"
    using bn2bin_facts(1) [OF assms]
    by (simp add: AsByteArray_shape [OF assms] le_value_def be_value_append)
  moreover have "n * 256 ^ k = n \<longleftrightarrow> n = 0 \<or> k = 0" for k :: nat
  proof (cases "k = 0")
    case False
    then have "(256 :: int) ^ k \<noteq> 1" using one_less_power [of "256 :: int" k] by linarith
    with False show ?thesis by simp
  qed simp
  ultimately show ?thesis
    by (simp add: SetBinary_value [OF assms(1) refl])
qed

theorem byte_array_padding_witness:
  "bn_SetBinary plain_ssl (bn_AsByteArray plain_ssl 3 True 7)
      (length (bn_AsByteArray plain_ssl 3 True 7)) = 7 * 256 ^ (3 - bn_GetNumBytes plain_ssl 7)
   \<and> bn_GetNumBytes plain_ssl 7 = 1"
  using byte_array_padding [OF plain_ssl_documented, of 7 3]
  by (simp add: bn_GetNumBytes_def plain_ssl_def be_bytes.simps)

end
