(* ===== verification/TOTP.thy ===== *)
theory TOTP
  imports Big_Number Util_Strings
begin

text \<open>
  The one-time passwords of the login server
  (src/Core/src/server/authserver/Authentication/TOTP.cpp): \<^verbatim>\<open>base32_decode\<close> and
  \<^verbatim>\<open>TOTP::GenerateToken\<close>. The theorem relates the bit buffer of the decoder to the
  number that the key denotes in base 32.
\<close>

section \<open>Base 32\<close>

definition b32_skip :: "uint8 \<Rightarrow> bool" where
  "b32_skip ch \<longleftrightarrow> ch = 32 \<or> ch = 9 \<or> ch = 13 \<or> ch = 10 \<or> ch = 45"

text \<open>The commonly mistyped characters, then the look-up of one digit; \<open>None\<close> is the error.\<close>

definition b32_digit :: "uint8 \<Rightarrow> uint8 option" where
  "b32_digit ch0 =
     (let ch = (if ch0 = 48 then 79 else if ch0 = 49 then 76 else if ch0 = 56 then 66 else ch0)
      in if (65 \<le> ch \<and> ch \<le> 90) \<or> (97 \<le> ch \<and> ch \<le> 122) then Some ((ch AND 0x1F) - 1)
         else if 50 \<le> ch \<and> ch \<le> 55 then Some (ch - (50 - 26))
         else None)"

text \<open>
  The loop over the characters up to the terminator: the result code (\<open>None\<close> for -1) and
  the array written to.
\<close>

fun b32_loop :: "bytes \<Rightarrow> nat \<Rightarrow> int32 \<Rightarrow> nat \<Rightarrow> nat \<Rightarrow> bytes \<Rightarrow> nat option \<times> bytes" where
  "b32_loop [] bufSize buffer bitsLeft cnt result = (Some cnt, result)"
| "b32_loop (ch # ptr) bufSize buffer bitsLeft cnt result =
     (if \<not> (cnt < bufSize \<and> ch \<noteq> 0) then (Some cnt, result)
      else if b32_skip ch then b32_loop ptr bufSize buffer bitsLeft cnt result
      else case b32_digit ch of
        None \<Rightarrow> (None, result)
      | Some d \<Rightarrow>
          let buffer = push_bit 5 buffer OR ucast d;
              bitsLeft = bitsLeft + 5
          in if bitsLeft \<ge> 8
             then b32_loop ptr bufSize buffer (bitsLeft - 8) (cnt + 1)
                    (result[cnt := ucast (drop_bit (bitsLeft - 8) buffer)])
             else b32_loop ptr bufSize buffer bitsLeft cnt result)"

definition base32_decode :: "bytes \<Rightarrow> bytes \<Rightarrow> nat \<Rightarrow> nat option \<times> bytes" where
  "base32_decode encoded result bufSize =
     (case b32_loop encoded bufSize 0 0 0 result of
        (None, result) \<Rightarrow> (None, result)
      | (Some cnt, result) \<Rightarrow>
          (Some cnt, if cnt < bufSize then result[cnt := 0] else result))"

section \<open>The token\<close>

text \<open>The time step of thirty seconds, most significant byte first.\<close>

definition totp_challenge :: "uint64 \<Rightarrow> bytes" where
  "totp_challenge now = rev (le_bytes 8 (now div 30))"

text \<open>The key is the whole array, whatever the decoder returned.\<close>

definition GenerateToken :: "openssl \<Rightarrow> uint64 \<Rightarrow> bytes \<Rightarrow> uint32" where
  "GenerateToken ssl now b32key =
     (let keySize = length (takeWhile (\<lambda>c. c \<noteq> 0) b32key);
          bufsize = (keySize + 7) div 8 * 5;
          encoded = snd (base32_decode b32key (replicate bufsize 0) bufsize);
          hmacRes = SSL_HMAC_sha1 ssl encoded (totp_challenge now);
          offset = unat (hmacRes ! 19 AND 0xF);
          truncHash = (push_bit 24 (ucast (hmacRes ! offset)) OR push_bit 16 (ucast (hmacRes ! (offset + 1)))
             OR push_bit 8 (ucast (hmacRes ! (offset + 2))) OR ucast (hmacRes ! (offset + 3))) AND 0x7FFFFFFF
      in truncHash mod 1000000)"

section \<open>The number in base 32\<close>

fun b32_value :: "uint8 list \<Rightarrow> nat \<Rightarrow> nat" where
  "b32_value [] v = v"
| "b32_value (d # ds) v = b32_value ds (v * 32 + unat d)"

text \<open>The digits of a key: separators skipped, \<open>None\<close> where a character is no digit.\<close>

fun b32_digits :: "bytes \<Rightarrow> uint8 list option" where
  "b32_digits [] = Some []"
| "b32_digits (ch # cs) =
     (if b32_skip ch then b32_digits cs
      else case (b32_digit ch, b32_digits cs) of
             (Some d, Some ds) \<Rightarrow> Some (d # ds) | _ \<Rightarrow> None)"

lemma letter_digit_less:
  fixes ch :: uint8
  assumes "65 \<le> ch" "ch \<le> 90 \<or> 97 \<le> ch" "ch \<le> 122"
  shows "unat ((ch AND 0x1F) - 1) < 32"
proof -
  have u: "65 \<le> unat ch" "unat ch \<le> 90 \<or> 97 \<le> unat ch" "unat ch \<le> 122" 
    using assms by (auto simp: word_le_nat_alt)
  have m: "ch AND 0x1F = take_bit 5 ch" 
    using take_bit_eq_mask [of 5 ch] by (simp add: mask_eq_exp_minus_1)
  have v: "unat (take_bit 5 ch) = unat ch mod 32" by (simp add: take_bit_eq_mod unat_mod)
  have "unat ch mod 32 \<noteq> 0" using u by presburger
  then have "1 \<le> take_bit 5 ch" using v by (simp add: word_le_nat_alt)
  then have "unat (take_bit 5 ch - 1) = unat (take_bit 5 ch) - 1" by (simp add: unat_sub word_le_nat_alt)
  then show ?thesis using v m by simp
qed
lemma b32_digit_less:
  assumes "b32_digit ch = Some d"
  shows "unat d < 32"
proof -
  have digit: "unat (c - 24) < 32" if "50 \<le> c" "c \<le> 55" for c :: uint8
    using that unat_sub [of 24 c] by (auto simp: word_le_nat_alt)
  define c where "c = (if ch = 48 then 79 else if ch = 49 then 76 else if ch = 56 then 66 else ch)"
  have "Some d = (if 65 \<le> c \<and> c \<le> 90 \<or> 97 \<le> c \<and> c \<le> 122 then Some ((c AND 0x1F) - 1)
      else if 50 \<le> c \<and> c \<le> 55 then Some (c - (50 - 26)) else None)"
    using assms unfolding b32_digit_def Let_def c_def by (rule sym)
  then have c: "(65 \<le> c \<and> c \<le> 90 \<or> 97 \<le> c \<and> c \<le> 122) \<and> d = (c AND 0x1F) - 1
      \<or> 50 \<le> c \<and> c \<le> 55 \<and> d = c - 24"
    by (auto split: if_splits)
  have "c \<le> 90 \<Longrightarrow> c \<le> 122" "97 \<le> c \<Longrightarrow> 65 \<le> c" by (auto simp: word_le_nat_alt)
  with c letter_digit_less [of c] digit [of c] show ?thesis by blast
qed

text \<open>One digit enters the bit buffer.\<close>

lemma b32_push:
  fixes b :: int32 and d :: uint8
  assumes d: "unat d < 32" and k: "k \<le> 8"
  shows "unat (push_bit 5 b OR ucast d) mod 2 ^ (k + 5) = unat b mod 2 ^ k * 32 + unat d"
proof -
  have ud: "unat (ucast d :: int32) = unat d"
    by (simp add: unsigned_ucast_eq take_bit_nat_eq_self_iff) (use d in simp)
  have "take_bit 5 d = d"
    using d by (simp add: word_unat_eq_iff take_bit_eq_mod unat_mod)
  then have "\<forall>n. bit d n \<longrightarrow> n < 5"
    by (metis bit_take_bit_iff)
  then have "push_bit 5 b AND ucast d = 0"
    by (intro bit_eqI) (auto simp: bit_simps)
  then have "push_bit 5 b OR ucast d = push_bit 5 b + ucast d"
    by (simp add: disjunctive_add_eq_or)
  also have "\<dots> = of_nat (unat b * 32 + unat d)"
    by (simp add: push_bit_eq_mult ud [symmetric])
  finally have "unat (push_bit 5 b OR ucast d) = (unat b * 32 + unat d) mod 2 ^ 32"
    by (simp only: unat_of_nat) simp
  moreover have "(2 :: nat) ^ (k + 5) dvd 2 ^ 32"
    using k by (intro le_imp_power_dvd) simp
  ultimately have "unat (push_bit 5 b OR ucast d) mod 2 ^ (k + 5) = (unat b * 32 + unat d) mod (32 * 2 ^ k)"
    by (simp add: mod_mod_cancel power_add mult.commute)
  also have "\<dots> = unat b mod 2 ^ k * 32 + unat d"
    using d by (simp add: mod_mult2_eq)
  finally show ?thesis .
qed

text \<open>The digit completes a byte, or stays in the buffer.\<close>

lemma b32_byte:
  fixes b :: int32
  assumes "k \<le> 24" and "length out = c"
    and "be_value out * 2 ^ (k + 8) + unat b mod 2 ^ (k + 8) = v"
  shows "be_value (out @ [ucast (drop_bit k b)]) * 2 ^ k + unat b mod 2 ^ k = v"
proof -
  have "unat (ucast (drop_bit k b) :: uint8) = unat b div 2 ^ k mod 256"
  proof -
    have "unat (drop_bit k b) = unat b div 2 ^ k"
      unfolding unsigned_drop_bit_eq using unsigned_less [of b, where 'a = nat]
      by (simp add: drop_bit_eq_div take_bit_nat_eq_self)
    then show ?thesis
      by (simp only: unsigned_ucast_eq take_bit_eq_mod) simp
  qed
  moreover have "unat b mod (2 ^ k * 256) = 2 ^ k * (unat b div 2 ^ k mod 256) + unat b mod 2 ^ k"
    by (rule mod_mult2_eq)
  ultimately show ?thesis
    using assms(3) by (simp add: be_value_append power_add algebra_simps)
qed

lemma b32_loop_value:
  assumes "b32_digits cs = Some ds" and "0 \<notin> set cs" and "k < 8" and "length result = bufSize"
    and "8 * cnt + k + 5 * length ds \<le> 8 * bufSize"
    and "be_value (take cnt result) * 2 ^ k + unat buffer mod 2 ^ k = v"
  shows "\<exists>result'. b32_loop cs bufSize buffer k cnt result
       = (Some (cnt + (k + 5 * length ds) div 8), result') \<and> length result' = bufSize
     \<and> be_value (take (cnt + (k + 5 * length ds) div 8) result')
         = b32_value ds v div 2 ^ ((k + 5 * length ds) mod 8)
     \<and> drop (cnt + (k + 5 * length ds) div 8) result' = drop (cnt + (k + 5 * length ds) div 8) result"
  using assms
proof (induction cs arbitrary: ds k cnt result buffer v)
  case Nil
  have "v div 2 ^ k = be_value (take cnt result)"
    using Nil(6) by auto
  with Nil show ?case by simp
next
  case (Cons ch cs)
  show ?case
  proof (cases "ds = [] \<or> b32_skip ch")
    case True
    have skip: "b32_skip ch" using True Cons.prems(1) by (auto split: if_splits option.splits)
    have stop: "v div 2 ^ k = be_value (take cnt result)"
      using Cons.prems(6) by auto
    show ?thesis
    proof (cases "cnt < bufSize")
      case True
      with skip Cons show ?thesis by auto
    next
      case False
      with Cons.prems(3,5) have "ds = []" "k = 0" by (cases ds; auto)+
      with False stop Cons.prems show ?thesis by simp
    qed
  next
    case False
    then obtain d ds' where d: "b32_digit ch = Some d" "b32_digits cs = Some ds'" "ds = d # ds'"
      using Cons.prems(1) by (auto split: if_splits option.splits)
    let ?b = "push_bit 5 buffer OR ucast d :: int32"
    have room: "cnt < bufSize" "ch \<noteq> 0" "0 \<notin> set cs" using Cons.prems(2,5) d(3) by auto
    have bits: "be_value (take cnt result) * 2 ^ (k + 5) + unat ?b mod 2 ^ (k + 5) = v * 32 + unat d"
      using b32_push [OF b32_digit_less [OF d(1)], of k buffer] Cons.prems(3,6)
      by (auto simp: power_add algebra_simps)
    show ?thesis
    proof (cases "8 \<le> k + 5")
      case True
      have e: "k + 5 - 8 + 8 = k + 5" using True by simp
      let ?r = "result[cnt := ucast (drop_bit (k + 5 - 8) ?b)]"
      have "take (cnt + 1) ?r = take cnt result @ [ucast (drop_bit (k + 5 - 8) ?b)]"
        using room Cons.prems(4) by (simp add: take_Suc_conv_app_nth)
      then have val: "be_value (take (cnt + 1) ?r) * 2 ^ (k + 5 - 8) + unat ?b mod 2 ^ (k + 5 - 8)
          = v * 32 + unat d"
        using b32_byte [of "k + 5 - 8" "take cnt result" cnt ?b "v * 32 + unat d", unfolded e]
          bits room Cons.prems(3,4) by simp
      have "8 * (cnt + 1) + (k + 5 - 8) + 5 * length ds' \<le> 8 * bufSize"
        using Cons.prems(5) d(3) True by simp
      moreover have "k + 5 - 8 < 8" "length ?r = bufSize" using Cons.prems(3,4) by simp_all
      ultimately obtain r' where r': "b32_loop cs bufSize ?b (k + 5 - 8) (cnt + 1) ?r
           = (Some (cnt + 1 + (k + 5 - 8 + 5 * length ds') div 8), r')" "length r' = bufSize"
        "be_value (take (cnt + 1 + (k + 5 - 8 + 5 * length ds') div 8) r')
           = b32_value ds' (v * 32 + unat d) div 2 ^ ((k + 5 - 8 + 5 * length ds') mod 8)"
        "drop (cnt + 1 + (k + 5 - 8 + 5 * length ds') div 8) r'
           = drop (cnt + 1 + (k + 5 - 8 + 5 * length ds') div 8) ?r"
        using Cons.IH [OF d(2) room(3) _ _ _ val] by blast
      have eq: "k + 5 * length ds = (k + 5 - 8 + 5 * length ds') + 8"
        using True d(3) by simp
      have sums: "cnt + (k + 5 * length ds) div 8 = cnt + 1 + (k + 5 - 8 + 5 * length ds') div 8"
        "(k + 5 * length ds) mod 8 = (k + 5 - 8 + 5 * length ds') mod 8"
        unfolding eq by simp_all
      show ?thesis
        unfolding sums using r' room False True d by (intro exI [of _ r']) simp
    next
      case small: False
      have "8 * cnt + (k + 5) + 5 * length ds' \<le> 8 * bufSize"
        using Cons.prems(5) d(3) by simp
      from Cons.IH [OF d(2) room(3) _ Cons.prems(4) this bits] small room False d
      show ?thesis by (simp add: algebra_simps)
    qed
  qed
qed

section \<open>Property\<close>

text \<open>
  A key all of whose characters are base-32 digits or separators is decoded to the
  number it denotes: the \<open>5 * n div 8\<close> bytes written are the digits of the key read as one
  number in base 32, less the bits of the last digit that do not fill a byte, and the rest of
  the array stays zero. The array that \<^verbatim>\<open>GenerateToken\<close> allocates for the key is large enough,
  and the token has at most six digits.
\<close>

theorem totp_key_decoding:
  assumes key: "b32_digits key = Some ds" and "0 \<notin> set key"
  shows "(let n = (length key + 7) div 8 * 5; (code, array) = base32_decode key (replicate n 0) n
      in code = Some (5 * length ds div 8) \<and> length array = n \<and> 5 * length ds div 8 \<le> n
       \<and> be_value (take (5 * length ds div 8) array) = b32_value ds 0 div 2 ^ (5 * length ds mod 8)
       \<and> drop (5 * length ds div 8) array = replicate (n - 5 * length ds div 8) 0)
    \<and> GenerateToken ssl now key < 1000000"
proof -
  let ?n = "(length key + 7) div 8 * 5" and ?c = "5 * length ds div 8"
  have len: "length ds \<le> length key" using key
  proof (induction key arbitrary: ds)
    case (Cons ch cs)
    then show ?case by (auto split: if_splits option.splits intro: le_SucI)
  qed simp
  then have room: "8 * 0 + 0 + 5 * length ds \<le> 8 * ?n" by simp
  obtain r where r: "b32_loop key ?n 0 0 0 (replicate ?n 0) = (Some ?c, r)" "length r = ?n"
    "be_value (take ?c r) = b32_value ds 0 div 2 ^ (5 * length ds mod 8)"
    "drop ?c r = drop ?c (replicate ?n 0)"
    using b32_loop_value [OF key assms(2) _ _ room, of "replicate ?n 0" 0 0] by auto
  have c: "?c \<le> ?n" using room by simp
  have tail: "drop ?c r = replicate (?n - ?c) 0" using r(4) by simp
  have "r[?c := 0] = r" if "?c < ?n"
  proof -
    have "r ! ?c = drop ?c r ! 0" using that r(2) by simp
    then have "r ! ?c = 0" using that by (simp add: tail)
    then show ?thesis by (metis list_update_id)
  qed
  then have "base32_decode key (replicate ?n 0) ?n = (Some ?c, r)"
    using r(1) by (simp add: base32_decode_def)
  moreover have "GenerateToken ssl now key < 1000000"
    by (simp add: GenerateToken_def Let_def word_mod_less_divisor)
  ultimately show ?thesis using r(2,3) c tail by (simp add: Let_def)
qed

text \<open>The key of the test vectors of RFC 6238 denotes the text "12345678901234567890".\<close>

theorem totp_key_decoding_witness:
  "b32_digits [71, 69, 90, 68, 71, 78, 66, 86] = Some [6, 4, 25, 3, 6, 13, 1, 21]
   \<and> be_value (take 5 (snd (base32_decode [71, 69, 90, 68, 71, 78, 66, 86] (replicate 5 0) 5)))
       = b32_value [6, 4, 25, 3, 6, 13, 1, 21] 0"
proof -
  have d: "b32_digits [71, 69, 90, 68, 71, 78, 66, 86] = Some [6, 4, 25, 3, 6, 13, 1, 21]"
    by code_simp
  show ?thesis
    using totp_key_decoding [OF d, of plain_ssl 0] d
    by (simp add: Let_def case_prod_beta del: b32_digits.simps b32_value.simps
        replicate.simps take_all take_all_iff)
qed

end
