(* ===== verification/Realm_List.thy ===== *)
theory Realm_List
  imports Std_Containers Util_Strings "HOL-Library.List_Lexorder"
begin

text \<open>
  The accepted client builds (src/Core/src/server/authserver/Authentication/AuthCodes.cpp)
  and the list of realms of the login server
  (src/Core/src/server/authserver/Realms/RealmList.cpp) with its periodic refresh from the
  database. The rows of the table, the clock and the resolver of host names are arguments.
  \<^verbatim>\<open>std::map\<close> keeps the realms in the order of their names.
\<close>

section \<open>Client builds\<close>

record build_info =
  bi_Build :: int
  bi_MajorVersion :: int
  bi_MinorVersion :: int
  bi_BugfixVersion :: int
  bi_HotfixVersion :: int

definition PostBcAcceptedClientBuilds :: "build_info list" where
  "PostBcAcceptedClientBuilds =
     [\<lparr>bi_Build = 12350, bi_MajorVersion = 3, bi_MinorVersion = 3, bi_BugfixVersion = 5, bi_HotfixVersion = 97\<rparr>,
      \<lparr>bi_Build = 0, bi_MajorVersion = 0, bi_MinorVersion = 0, bi_BugfixVersion = 0, bi_HotfixVersion = 32\<rparr>]"

definition PreBcAcceptedClientBuilds :: "build_info list" where
  "PreBcAcceptedClientBuilds =
     [\<lparr>bi_Build = 0, bi_MajorVersion = 0, bi_MinorVersion = 0, bi_BugfixVersion = 0, bi_HotfixVersion = 32\<rparr>]"

text \<open>The loops run up to the entry of build zero.\<close>

fun build_loop :: "build_info list \<Rightarrow> int \<Rightarrow> build_info option" where
  "build_loop [] build = None"
| "build_loop (i # is) build =
     (if bi_Build i = 0 then None
      else if bi_Build i = build then Some i else build_loop is build)"

definition IsPreBCAcceptedClientBuild :: "int \<Rightarrow> bool" where
  "IsPreBCAcceptedClientBuild build \<longleftrightarrow> build_loop PreBcAcceptedClientBuilds build \<noteq> None"

definition IsPostBCAcceptedClientBuild :: "int \<Rightarrow> bool" where
  "IsPostBCAcceptedClientBuild build \<longleftrightarrow> build_loop PostBcAcceptedClientBuilds build \<noteq> None"

definition IsAcceptedClientBuild :: "int \<Rightarrow> bool" where
  "IsAcceptedClientBuild build \<longleftrightarrow> IsPostBCAcceptedClientBuild build \<or> IsPreBCAcceptedClientBuild build"

definition GetBuildInfo :: "int \<Rightarrow> build_info option" where
  "GetBuildInfo build =
     (case build_loop PostBcAcceptedClientBuilds build of
        Some i \<Rightarrow> Some i
      | None \<Rightarrow> build_loop PreBcAcceptedClientBuilds build)"

lemma accepted_builds [simp]:
  "IsPreBCAcceptedClientBuild build \<longleftrightarrow> False"
  "IsPostBCAcceptedClientBuild build \<longleftrightarrow> build = 12350"
  "IsAcceptedClientBuild build \<longleftrightarrow> build = 12350"
  by (simp_all add: IsAcceptedClientBuild_def IsPreBCAcceptedClientBuild_def
      IsPostBCAcceptedClientBuild_def PreBcAcceptedClientBuilds_def PostBcAcceptedClientBuilds_def)

section \<open>Realms\<close>

text \<open>\<^verbatim>\<open>boost::asio::ip::address\<close>: an address of either version.\<close>

datatype ip_address = V4 uint32 | V6 "uint8 list"

definition SEC_ADMINISTRATOR :: uint8 where "SEC_ADMINISTRATOR = 3"

definition REALM_FLAG_OFFLINE :: uint32 where "REALM_FLAG_OFFLINE = 0x02"
definition REALM_FLAG_SPECIFYBUILD :: uint32 where "REALM_FLAG_SPECIFYBUILD = 0x04"

text \<open>The population is kept as the bits of the \<^verbatim>\<open>float\<close>.\<close>

record realm =
  re_ExternalAddress :: ip_address
  re_LocalAddress :: ip_address
  re_LocalSubnetMask :: ip_address
  re_port :: uint16
  re_name :: bytes
  re_icon :: uint8
  re_flag :: uint32
  re_timezone :: uint8
  re_ID :: uint32
  re_allowedSecurityLevel :: uint8
  re_populationLevel :: uint32
  re_gamebuild :: uint32

record realmlist =
  rl_realms :: "(bytes, realm) omap"
  rl_UpdateInterval :: uint32
  rl_NextUpdateTime :: int

text \<open>A row of the table \<^verbatim>\<open>realmlist\<close>, in the order of the columns.\<close>

record realm_row =
  rr_id :: uint32
  rr_name :: bytes
  rr_address :: bytes
  rr_localAddress :: bytes
  rr_localSubnetMask :: bytes
  rr_port :: uint16
  rr_icon :: uint8
  rr_flag :: uint8
  rr_timezone :: uint8
  rr_allowedSecurityLevel :: uint8
  rr_population :: uint32
  rr_gamebuild :: uint32

definition rl_UpdateRealm ::
  "uint32 \<Rightarrow> bytes \<Rightarrow> ip_address \<Rightarrow> ip_address \<Rightarrow> ip_address \<Rightarrow> uint16 \<Rightarrow> uint8 \<Rightarrow> uint32 \<Rightarrow> uint8
   \<Rightarrow> uint8 \<Rightarrow> uint32 \<Rightarrow> uint32 \<Rightarrow> realmlist \<Rightarrow> realmlist" where
  "rl_UpdateRealm realmId name address localAddr localSubmask port icon flag timezone
       allowedSecurityLevel population build rl =
     rl\<lparr>rl_realms := om_set name
       \<lparr>re_ExternalAddress = address, re_LocalAddress = localAddr, re_LocalSubnetMask = localSubmask,
        re_port = port, re_name = name, re_icon = icon, re_flag = flag, re_timezone = timezone,
        re_ID = realmId, re_allowedSecurityLevel = allowedSecurityLevel, re_populationLevel = population,
        re_gamebuild = build\<rparr> (rl_realms rl)\<rparr>"

definition rl_AddRealm :: "realm \<Rightarrow> realmlist \<Rightarrow> realmlist" where
  "rl_AddRealm NewRealm rl = rl\<lparr>rl_realms := om_set (re_name NewRealm) NewRealm (rl_realms rl)\<rparr>"

text \<open>The function returns at the first address that cannot be resolved.\<close>

fun rl_UpdateRealms :: "(bytes \<Rightarrow> ip_address option) \<Rightarrow> realm_row list \<Rightarrow> realmlist \<Rightarrow> realmlist" where
  "rl_UpdateRealms resolve [] rl = rl"
| "rl_UpdateRealms resolve (row # rows) rl =
     (case resolve (rr_address row) of
        None \<Rightarrow> rl
      | Some externalAddress \<Rightarrow>
     case resolve (rr_localAddress row) of
        None \<Rightarrow> rl
      | Some localAddress \<Rightarrow>
     case resolve (rr_localSubnetMask row) of
        None \<Rightarrow> rl
      | Some localSubmask \<Rightarrow>
          rl_UpdateRealms resolve rows
            (rl_UpdateRealm (rr_id row) (rr_name row) externalAddress localAddress localSubmask
               (rr_port row) (rr_icon row) (ucast (rr_flag row)) (rr_timezone row)
               (if rr_allowedSecurityLevel row \<le> SEC_ADMINISTRATOR
                then rr_allowedSecurityLevel row else SEC_ADMINISTRATOR)
               (rr_population row) (rr_gamebuild row) rl))"

definition rl_new :: "int \<Rightarrow> realmlist" where
  "rl_new now = \<lparr>rl_realms = [], rl_UpdateInterval = 0, rl_NextUpdateTime = now\<rparr>"

definition rl_Initialize ::
  "(bytes \<Rightarrow> ip_address option) \<Rightarrow> realm_row list \<Rightarrow> uint32 \<Rightarrow> realmlist \<Rightarrow> realmlist" where
  "rl_Initialize resolve rows updateInterval rl =
     rl_UpdateRealms resolve rows (rl\<lparr>rl_UpdateInterval := updateInterval\<rparr>)"

definition rl_UpdateIfNeed ::
  "(bytes \<Rightarrow> ip_address option) \<Rightarrow> realm_row list \<Rightarrow> int \<Rightarrow> realmlist \<Rightarrow> realmlist" where
  "rl_UpdateIfNeed resolve rows now rl =
     (if rl_UpdateInterval rl = 0 \<or> rl_NextUpdateTime rl > now then rl
      else rl_UpdateRealms resolve rows
             (rl\<lparr>rl_NextUpdateTime := now + int (unat (rl_UpdateInterval rl)), rl_realms := []\<rparr>))"

text \<open>
  The address a client is sent to. \<^verbatim>\<open>to_v4\<close> throws \<^verbatim>\<open>bad_cast\<close> (\<open>None\<close>) on an address of
  version 6; whether an address is a loopback address is an argument.
\<close>

definition to_v4 :: "ip_address \<Rightarrow> uint32 option" where
  "to_v4 a = (case a of V4 w \<Rightarrow> Some w | V6 _ \<Rightarrow> None)"

definition GetAddressForClient ::
  "(ip_address \<Rightarrow> bool) \<Rightarrow> realm \<Rightarrow> ip_address \<Rightarrow> (ip_address \<times> uint16) option" where
  "GetAddressForClient is_loopback realm clientAddr =
     (if is_loopback clientAddr
      then Some (if is_loopback (re_LocalAddress realm) \<or> is_loopback (re_ExternalAddress realm)
                 then clientAddr else re_LocalAddress realm, re_port realm)
      else case clientAddr of
        V6 _ \<Rightarrow> Some (re_ExternalAddress realm, re_port realm)
      | V4 c \<Rightarrow>
          (case (to_v4 (re_LocalSubnetMask realm), to_v4 (re_LocalAddress realm)) of
             (Some m, Some l) \<Rightarrow>
               Some (if c AND m = l AND m then re_LocalAddress realm
                     else re_ExternalAddress realm, re_port realm)
           | _ \<Rightarrow> None))"

section \<open>The realms after a refresh\<close>

definition resolvable :: "(bytes \<Rightarrow> ip_address option) \<Rightarrow> realm_row \<Rightarrow> bool" where
  "resolvable resolve row \<longleftrightarrow> resolve (rr_address row) \<noteq> None \<and> resolve (rr_localAddress row) \<noteq> None
     \<and> resolve (rr_localSubnetMask row) \<noteq> None"

text \<open>The realm that a row describes.\<close>

definition realm_of_row :: "(bytes \<Rightarrow> ip_address option) \<Rightarrow> realm_row \<Rightarrow> realm" where
  "realm_of_row resolve row =
     \<lparr>re_ExternalAddress = the (resolve (rr_address row)),
      re_LocalAddress = the (resolve (rr_localAddress row)),
      re_LocalSubnetMask = the (resolve (rr_localSubnetMask row)),
      re_port = rr_port row, re_name = rr_name row, re_icon = rr_icon row,
      re_flag = ucast (rr_flag row), re_timezone = rr_timezone row, re_ID = rr_id row,
      re_allowedSecurityLevel = min (rr_allowedSecurityLevel row) SEC_ADMINISTRATOR,
      re_populationLevel = rr_population row, re_gamebuild = rr_gamebuild row\<rparr>"

lemma UpdateRealms_fold:
  "rl_UpdateRealms resolve rows rl =
     rl\<lparr>rl_realms := fold (\<lambda>(k, v). om_set k v)
          (map (\<lambda>row. (rr_name row, realm_of_row resolve row)) (takeWhile (resolvable resolve) rows))
          (rl_realms rl)\<rparr>"
proof (induction rows arbitrary: rl)
  case (Cons row rows)
  show ?case
  proof (cases "resolvable resolve row")
    case True
    then obtain a b c where "resolve (rr_address row) = Some a" "resolve (rr_localAddress row) = Some b"
      "resolve (rr_localSubnetMask row) = Some c"
      by (auto simp: resolvable_def)
    with True Cons show ?thesis
      by (simp add: rl_UpdateRealm_def realm_of_row_def min_def)
  next
    case False
    then show ?thesis by (auto simp: resolvable_def split: option.splits)
  qed
qed simp

lemma om_ok_fold: "om_ok m \<Longrightarrow> om_ok (fold (\<lambda>(k, v). om_set k v) es m)"
  by (induction es arbitrary: m) auto

lemma fold_upd_map_of: "fold (\<lambda>(k, v) f. f(k \<mapsto> v)) es f = f ++ map_of (rev es)"
  by (induction es arbitrary: f) (auto simp: map_add_def fun_eq_iff split: option.splits)

section \<open>Property\<close>

text \<open>
  A refresh that is not due changes nothing. One that is due replaces the whole list:
  afterwards a name leads to the last row with this name among the rows that come before the
  first row with an address that cannot be resolved, and to nothing if there is none; the map
  is in order, and the next refresh is due one interval later. The realms of that row and of
  all rows behind it are gone until then, whatever their own addresses.
\<close>

theorem realm_list_refresh:
  "(if rl_UpdateInterval rl = 0 \<or> now < rl_NextUpdateTime rl
    then rl_UpdateIfNeed resolve rows now rl = rl
    else om_ok (rl_realms (rl_UpdateIfNeed resolve rows now rl))
      \<and> om_find name (rl_realms (rl_UpdateIfNeed resolve rows now rl))
          = map_of (rev (map (\<lambda>row. (rr_name row, realm_of_row resolve row))
                          (takeWhile (resolvable resolve) rows))) name
      \<and> rl_NextUpdateTime (rl_UpdateIfNeed resolve rows now rl)
          = now + int (unat (rl_UpdateInterval rl)))"
  by (simp add: rl_UpdateIfNeed_def UpdateRealms_fold om_ok_fold om.look_fold_upd fold_upd_map_of)

end
