(* ===== verification/Auth_Session.thy ===== *)
theory Auth_Session
  imports Message_Buffer TOTP Realm_List Text_Utils
begin

text \<open>
  One connection of the login server,
  src/Core/src/server/authserver/Server/AuthSession.cpp: the SRP6 login with its challenge
  and proof, the reconnect pair, the creation of accounts through the login name, the realm
  list and the loop that splits the input into packets.

  The database, the configuration, the clock, the random numbers, OpenSSL and the address
  functions of Boost are the fields of the environment \<open>auth_env\<close>; the statements the
  handlers execute are recorded in order. Packets under construction are byte lists (what the
  \<^verbatim>\<open><<\<close> operators append), the structures that overlay the input are read from the
  memory of the read buffer, and a read or write outside a vector is the error
  \<open>AuthUndefined\<close>.
\<close>

section \<open>State and environment\<close>

datatype auth_stmt =
    DelExpiredIpBans
  | UpdExpiredAccountBans
  | UpdVS bytes bytes bytes
  | InsAccount bytes bytes bytes bytes
  | InsRealmCharactersInit
  | UpdLogonProof bytes bytes uint32 bytes bytes
  | InsFalpIpLogging bytes bytes bytes
  | UpdFailedLogins bytes
  | InsAccountAutoBanned uint32 uint32
  | InsIpAutoBanned bytes uint32

record logon_row =
  lr_sha_pass_hash :: bytes
  lr_id :: uint32
  lr_locked :: uint8
  lr_lock_country :: bytes
  lr_last_ip :: bytes
  lr_gmlevel :: uint8
  lr_v :: bytes
  lr_s :: bytes
  lr_token_key :: bytes

record auth_env =
  ae_ssl :: openssl
  ae_big :: bool
  ae_time :: int
  ae_address :: ip_address
  ae_address_string :: bytes
  ae_inet_addr :: uint32
  ae_rand :: "nat \<Rightarrow> int"
  ae_is_loopback :: "ip_address \<Rightarrow> bool"
  ae_endpoint_string :: "ip_address \<Rightarrow> uint16 \<Rightarrow> bytes"
  ae_resolve :: "bytes \<Rightarrow> ip_address option"
  ae_realm_rows :: "realm_row list"
  ae_ip_banned :: bool
  ae_logonchallenge :: "bytes \<Rightarrow> logon_row option"
  ae_country :: "uint32 \<Rightarrow> bytes option"
  ae_account_banned :: "uint32 \<Rightarrow> (uint32 \<times> uint32) option"
  ae_account_id :: "bytes \<Rightarrow> uint32 option"
  ae_sessionkey :: "bytes \<Rightarrow> (bytes \<times> uint32 \<times> uint8) option"
  ae_failedlogins :: "bytes \<Rightarrow> (uint32 \<times> uint32) option"
  ae_numchars :: "uint32 \<Rightarrow> uint32 \<Rightarrow> uint8 option"
  ae_MaxWrongPassCount :: uint32
  ae_WrongPassLogging :: bool
  ae_WrongPassBanTime :: uint32
  ae_WrongPassBanType :: bool

record auth_session =
  as_N :: int
  as_s :: int
  as_g :: int
  as_v :: int
  as_b :: int
  as_B :: int
  as_K :: int
  as_reconnectProof :: int
  as_isAuthenticated :: bool
  as_tokenKey :: bytes
  as_login :: bytes
  as_localizationName :: bytes
  as_os :: bytes
  as_build :: uint16
  as_expversion :: uint8
  as_accountSecurityLevel :: uint8
  as_closed :: bool
  as_closing :: bool
  as_readBuffer :: msgbuf
  as_writeQueue :: "msgbuf list"
  as_stmts :: "auth_stmt list"
  as_realmList :: realmlist

datatype auth_error = AuthUndefined | AuthAssertionFailed | AuthBadCast | AuthOutOfFuel

type_synonym 'a asop = "(auth_error, 'a, auth_session) eff"

definition AUTH_LOGON_CHALLENGE :: uint8 where "AUTH_LOGON_CHALLENGE = 0x00"
definition AUTH_LOGON_PROOF :: uint8 where "AUTH_LOGON_PROOF = 0x01"
definition AUTH_RECONNECT_CHALLENGE :: uint8 where "AUTH_RECONNECT_CHALLENGE = 0x02"
definition AUTH_RECONNECT_PROOF :: uint8 where "AUTH_RECONNECT_PROOF = 0x03"
definition REALM_LIST :: uint8 where "REALM_LIST = 0x10"
definition XFER_ACCEPT :: uint8 where "XFER_ACCEPT = 0x32"
definition XFER_RESUME :: uint8 where "XFER_RESUME = 0x33"
definition XFER_CANCEL :: uint8 where "XFER_CANCEL = 0x34"

definition WOW_SUCCESS :: uint8 where "WOW_SUCCESS = 0x00"
definition WOW_FAIL_BANNED :: uint8 where "WOW_FAIL_BANNED = 0x03"
definition WOW_FAIL_UNKNOWN_ACCOUNT :: uint8 where "WOW_FAIL_UNKNOWN_ACCOUNT = 0x04"
definition WOW_FAIL_VERSION_INVALID :: uint8 where "WOW_FAIL_VERSION_INVALID = 0x09"
definition WOW_FAIL_SUSPENDED :: uint8 where "WOW_FAIL_SUSPENDED = 0x0C"
definition WOW_FAIL_LOCKED_ENFORCED :: uint8 where "WOW_FAIL_LOCKED_ENFORCED = 0x10"
definition WOW_FAIL_USE_BATTLENET :: uint8 where "WOW_FAIL_USE_BATTLENET = 0x12"
definition WOW_FAIL_NO_GAME_ACCOUNT :: uint8 where "WOW_FAIL_NO_GAME_ACCOUNT = 0x15"
definition WOW_FAIL_INTERNET_GAME_ROOM_WITHOUT_BNET :: uint8 where
  "WOW_FAIL_INTERNET_GAME_ROOM_WITHOUT_BNET = 0x17"
definition WOW_FAIL_UNLOCKABLE_LOCK :: uint8 where "WOW_FAIL_UNLOCKABLE_LOCK = 0x19"

definition POST_BC_EXP_FLAG :: uint8 where "POST_BC_EXP_FLAG = 0x2"
definition PRE_BC_EXP_FLAG :: uint8 where "PRE_BC_EXP_FLAG = 0x1"
definition NO_VALID_EXP_FLAG :: uint8 where "NO_VALID_EXP_FLAG = 0x0"

text \<open>The constructors of \<^verbatim>\<open>AuthSession\<close> and \<^verbatim>\<open>Socket\<close>\<close>

definition READ_BLOCK_SIZE :: nat where "READ_BLOCK_SIZE = 4096"

definition as_new :: "openssl \<Rightarrow> realmlist \<Rightarrow> auth_session" where
  "as_new ssl rl =
     \<lparr>as_N = bn_SetHexStr ssl (chars ''894B645E89E1535BBDAD5B8B290650530801B18EBFBF5E8FAB3C82872A3E9BB7'') bn_new,
      as_s = bn_new, as_g = bn_SetDword ssl 7, as_v = bn_new, as_b = bn_new, as_B = bn_new,
      as_K = bn_new, as_reconnectProof = bn_new, as_isAuthenticated = False, as_tokenKey = [],
      as_login = [], as_localizationName = [], as_os = [], as_build = 0, as_expversion = 0,
      as_accountSecurityLevel = 0, as_closed = False, as_closing = False,
      as_readBuffer = mb_Resize READ_BLOCK_SIZE (mb_new 4096), as_writeQueue = [], as_stmts = [],
      as_realmList = rl\<rparr>"

section \<open>Memory and output\<close>

definition as_ofUB :: "'a option \<Rightarrow> 'a asop" where
  "as_ofUB x = (case x of None \<Rightarrow> throw AuthUndefined | Some y \<Rightarrow> ret y)"

text \<open>\<open>len\<close> bytes at \<open>off\<close> behind \<^verbatim>\<open>GetReadPointer()\<close>: the field of an overlaid structure.\<close>

definition as_mem :: "nat \<Rightarrow> nat \<Rightarrow> bytes asop" where
  "as_mem off len s = as_ofUB (map_option (drop off) (mb_peek (off + len) (as_readBuffer s))) s"

text \<open>A C string at this place: it extends to the next zero byte, wherever that is.\<close>

definition as_mem_cstr :: "nat \<Rightarrow> bytes asop" where
  "as_mem_cstr off s =
     (let m = drop (mb_rpos (as_readBuffer s) + off) (mb_storage (as_readBuffer s))
      in if 0 \<in> set m then ret (takeWhile (\<lambda>c. c \<noteq> 0) m) s else throw AuthUndefined s)"

definition as_exec :: "auth_stmt \<Rightarrow> unit asop" where
  "as_exec stmt = modE (\<lambda>s. s\<lparr>as_stmts := as_stmts s @ [stmt]\<rparr>)"

definition as_IsOpen :: "auth_session \<Rightarrow> bool" where
  "as_IsOpen s \<longleftrightarrow> \<not> as_closed s \<and> \<not> as_closing s"

definition as_CloseSocket :: "unit asop" where
  "as_CloseSocket = modE (\<lambda>s. s\<lparr>as_closed := True\<rparr>)"

text \<open>The buffer has the default size of 4096 bytes, and \<^verbatim>\<open>Write\<close> does not check it.\<close>

definition as_SendPacket :: "bytes \<Rightarrow> unit asop" where
  "as_SendPacket packet s =
     (if \<not> as_IsOpen s then ret () s
      else if packet \<noteq> []
      then bindE (as_ofUB (mb_Write packet (mb_new 4096)))
             (\<lambda>buffer. modE (\<lambda>s. s\<lparr>as_writeQueue := as_writeQueue s @ [buffer]\<rparr>)) s
      else ret () s)"

section \<open>The logon challenge\<close>

definition as_exp_flag :: "uint16 \<Rightarrow> uint8" where
  "as_exp_flag build =
     (if IsPostBCAcceptedClientBuild (int (unat build)) then POST_BC_EXP_FLAG
      else if IsPreBCAcceptedClientBuild (int (unat build)) then PRE_BC_EXP_FLAG
      else NO_VALID_EXP_FLAG)"

definition as_sec_level :: "uint8 \<Rightarrow> uint8" where
  "as_sec_level secLevel = (if secLevel \<le> SEC_ADMINISTRATOR then secLevel else SEC_ADMINISTRATOR)"

text \<open>\<^verbatim>\<open>SetVSFields\<close>: a new salt and the verifier from the stored hash of the password\<close>

definition as_SetVSFields :: "auth_env \<Rightarrow> bytes \<Rightarrow> unit asop" where
  "as_SetVSFields env rI =
     (let ssl = ae_ssl env; salt = ae_rand env (32 * 8);
          I = bn_SetHexStr ssl rI bn_new;
          mDigest = rev (take SHA_DIGEST_LENGTH (bn_AsByteArray ssl SHA_DIGEST_LENGTH True I));
          sha = sha_UpdateData (take 32 (bn_AsByteArray ssl 32 True salt)) sha_new;
          sha = sha_UpdateData mDigest sha;
          sha = sha_Finalize ssl sha;
          x = bn_SetBinary ssl (sh_mDigest sha) SHA_DIGEST_LENGTH
      in bindE (modE (\<lambda>s. s\<lparr>as_s := salt, as_v := bn_ModExp ssl (as_g s) x (as_N s)\<rparr>)) (\<lambda>_.
         bindE (getE (\<lambda>s. UpdVS (bn_AsHexStr ssl (as_v s)) (bn_AsHexStr ssl (as_s s)) (as_login s)))
           as_exec))"

text \<open>
  Is the account locked to an address or a country? The result code, when it is. The
  conversion by \<^verbatim>\<open>EndianConvertReverse\<close> acts on little-endian hosts.
\<close>

definition as_locked :: "auth_env \<Rightarrow> logon_row \<Rightarrow> uint8 option" where
  "as_locked env row =
     (if lr_locked row = 1
      then if lr_last_ip row \<noteq> ae_address_string env then Some WOW_FAIL_LOCKED_ENFORCED else None
      else
        let accountCountry = lr_lock_country row
        in if accountCountry = [] \<or> accountCountry = chars ''00'' then None
           else
             let ip = (if ae_big env then ae_inet_addr env
                       else word_of_le (rev (le_bytes 4 (ae_inet_addr env))))
             in case ae_country env ip of
                  Some loginCountry \<Rightarrow>
                    if loginCountry \<noteq> accountCountry then Some WOW_FAIL_UNLOCKABLE_LOCK else None
                | None \<Rightarrow> None)"

text \<open>The SRP6 values and the bytes of the packet behind the first two.\<close>

definition as_srp_challenge :: "auth_env \<Rightarrow> logon_row \<Rightarrow> bytes asop" where
  "as_srp_challenge env row =
     (let ssl = ae_ssl env
      in bindE (if length (lr_v row) \<noteq> 32 * 2 \<or> length (lr_s row) \<noteq> 32 * 2
                then as_SetVSFields env (lr_sha_pass_hash row)
                else modE (\<lambda>s. s\<lparr>as_s := bn_SetHexStr ssl (lr_s row) (as_s s),
                                as_v := bn_SetHexStr ssl (lr_v row) (as_v s)\<rparr>)) (\<lambda>_.
         bindE (modE (\<lambda>s. s\<lparr>as_b := ae_rand env (19 * 8)\<rparr>)) (\<lambda>_.
         bindE (getE (\<lambda>s. bn_ModExp ssl (as_g s) (as_b s) (as_N s))) (\<lambda>gmod.
         bindE (modE (\<lambda>s. s\<lparr>as_B := bn_modulo ssl
                  (bn_plus ssl (bn_times ssl (as_v s) (bn_SetDword ssl 3)) gmod) (as_N s)\<rparr>)) (\<lambda>_.
         bindE (if bn_GetNumBytes ssl gmod \<le> 32 then ret () else throw AuthAssertionFailed) (\<lambda>_.
         bindE (getE (\<lambda>s.
             [if IsAcceptedClientBuild (int (unat (as_build s))) then WOW_SUCCESS
              else WOW_FAIL_VERSION_INVALID]
             @ take 32 (bn_AsByteArray ssl 32 True (as_B s))
             @ [1] @ take 1 (bn_AsByteArray ssl 1 True (as_g s))
             @ [32] @ take 32 (bn_AsByteArray ssl 32 True (as_N s))
             @ take 32 (bn_AsByteArray ssl 32 True (as_s s))
             @ take 16 (bn_AsByteArray ssl 16 True (ae_rand env (16 * 8))))) (\<lambda>pkt.
         bindE (modE (\<lambda>s. s\<lparr>as_tokenKey := lr_token_key row\<rparr>)) (\<lambda>_.
         let securityFlags = (if lr_token_key row \<noteq> [] then 4 else 0 :: uint8);
             pkt = pkt @ [securityFlags]
               @ (if securityFlags AND 0x01 \<noteq> 0 then replicate (4 + 8 + 8) 0 else [])
               @ (if securityFlags AND 0x02 \<noteq> 0 then replicate (4 + 8) 0 else [])
               @ (if securityFlags AND 0x04 \<noteq> 0 then [1] else [])
         in bindE (as_mem 21 4) (\<lambda>country.
            bindE (modE (\<lambda>s. s\<lparr>as_accountSecurityLevel := as_sec_level (lr_gmlevel row),
                              as_localizationName := rev country\<rparr>)) (\<lambda>_.
            ret pkt))))))))))"

text \<open>The branch of an account that exists.\<close>

definition as_challenge_account :: "auth_env \<Rightarrow> logon_row \<Rightarrow> bytes asop" where
  "as_challenge_account env row =
     (case as_locked env row of
        Some code \<Rightarrow> ret [code]
      | None \<Rightarrow>
          bindE (as_exec UpdExpiredAccountBans) (\<lambda>_.
          case ae_account_banned env (lr_id row) of
            Some (bandate, unbandate) \<Rightarrow>
              ret [if bandate = unbandate then WOW_FAIL_BANNED else WOW_FAIL_SUSPENDED]
          | None \<Rightarrow> as_srp_challenge env row))"

text \<open>
  \<^verbatim>\<open>std::string::find\<close> and \<^verbatim>\<open>rfind\<close> of one character, and \<^verbatim>\<open>::toupper\<close> in the
  C locale.
\<close>

fun str_find :: "uint8 \<Rightarrow> nat \<Rightarrow> bytes \<Rightarrow> nat option" where
  "str_find c n [] = None"
| "str_find c n (x # xs) =
     (if n = 0 then if x = c then Some 0 else map_option Suc (str_find c 0 xs)
      else map_option Suc (str_find c (n - 1) xs))"

fun str_rfind :: "uint8 \<Rightarrow> bytes \<Rightarrow> nat option" where
  "str_rfind c [] = None"
| "str_rfind c (x # xs) =
     (case str_rfind c xs of Some i \<Rightarrow> Some (Suc i) | None \<Rightarrow> if x = c then Some 0 else None)"

definition str_substr :: "nat \<Rightarrow> nat \<Rightarrow> bytes \<Rightarrow> bytes" where
  "str_substr pos len xs = take len (drop pos xs)"

definition toupper :: "uint8 \<Rightarrow> uint8" where
  "toupper c = (if 97 \<le> c \<and> c \<le> 122 then c - 32 else c)"

definition hex_digit :: "nat \<Rightarrow> uint8" where
  "hex_digit n = (if n < 10 then of_nat (48 + n) else of_nat (55 + n))"

definition ByteArrayToHexStr :: "bytes \<Rightarrow> bool \<Rightarrow> bytes" where
  "ByteArrayToHexStr bs reverse =
     concat (map (\<lambda>b. [hex_digit (unat b div 16), hex_digit (unat b mod 16)])
       (if reverse then rev bs else bs))"

definition account_hash :: "openssl \<Rightarrow> bytes \<Rightarrow> bytes \<Rightarrow> bytes" where
  "account_hash ssl username password =
     (let sha = sha_Initialize sha_new;
          sha = sha_UpdateData username sha;
          sha = sha_UpdateData (chars '':'') sha;
          sha = sha_UpdateData password sha;
          sha = sha_Finalize ssl sha
      in ByteArrayToHexStr (sh_mDigest sha) False)"

text \<open>
  A login name \<^verbatim>\<open>?name?password?\<close> that is no account asks for the creation of one. The
  position behind the second question mark wraps to zero when there is none.
\<close>

definition as_create_account :: "auth_env \<Rightarrow> bytes asop" where
  "as_create_account env s =
     (let login = as_login s
      in if \<not> (login \<noteq> [] \<and> login ! 0 = 63) then ret [WOW_FAIL_UNKNOWN_ACCOUNT] s
         else
           let pass_start = (case str_find 63 1 login of None \<Rightarrow> 0 | Some p \<Rightarrow> p + 1)
           in if pass_start < 4 then ret [WOW_FAIL_NO_GAME_ACCOUNT] s
              else case str_rfind 63 login of
                None \<Rightarrow> ret [WOW_FAIL_NO_GAME_ACCOUNT] s
              | Some pass_end \<Rightarrow>
                  if pass_end \<le> pass_start then ret [WOW_FAIL_NO_GAME_ACCOUNT] s
                  else
                    let username = map toupper (str_substr 1 (pass_start - 2) login);
                        password = map toupper (str_substr pass_start (pass_end - pass_start) login)
                    in case ae_account_id env username of
                         Some _ \<Rightarrow> ret [WOW_FAIL_INTERNET_GAME_ROOM_WITHOUT_BNET] s
                       | None \<Rightarrow>
                           bindE (as_exec (InsAccount username
                                    (account_hash (ae_ssl env) username password) [] [])) (\<lambda>_.
                           bindE (as_exec InsRealmCharactersInit) (\<lambda>_.
                           ret [WOW_FAIL_USE_BATTLENET])) s)"

definition as_HandleLogonChallenge :: "auth_env \<Rightarrow> bool asop" where
  "as_HandleLogonChallenge env =
     bindE (as_mem 33 1) (\<lambda>I_len.
     bindE (as_mem 34 (unat (hd I_len))) (\<lambda>I.
     bindE (as_mem 11 2) (\<lambda>build.
     bindE (modE (\<lambda>s. s\<lparr>as_login := I, as_build := of_mem_image (ae_big env) build,
                       as_expversion := as_exp_flag (of_mem_image (ae_big env) build)\<rparr>)) (\<lambda>_.
     bindE (as_mem_cstr 17) (\<lambda>os.
     bindE (modE (\<lambda>s. s\<lparr>as_os := os\<rparr>)) (\<lambda>_.
     if length os > 4 then ret False
     else
       bindE (modE (\<lambda>s. s\<lparr>as_os := rev os\<rparr>)) (\<lambda>_.
       bindE (as_exec DelExpiredIpBans) (\<lambda>_.
       bindE (if ae_ip_banned env then ret [WOW_FAIL_BANNED]
              else case ae_logonchallenge env I of
                     Some row \<Rightarrow> as_challenge_account env row
                   | None \<Rightarrow> as_create_account env) (\<lambda>pkt.
       bindE (as_SendPacket ([AUTH_LOGON_CHALLENGE, 0x00] @ pkt)) (\<lambda>_.
       ret True))))))))))"

section \<open>The logon proof\<close>

text \<open>The loops that take every second byte of an array and that put them back.\<close>

definition every_second :: "nat \<Rightarrow> bytes \<Rightarrow> bytes" where
  "every_second off t = map (\<lambda>i. t ! (i * 2 + off)) [0 ..< 16]"

definition interleave :: "bytes \<Rightarrow> bytes \<Rightarrow> bytes" where
  "interleave d0 d1 = concat (map (\<lambda>i. [d0 ! i, d1 ! i]) [0 ..< 20])"

definition srp_session_key :: "openssl \<Rightarrow> int \<Rightarrow> int" where
  "srp_session_key ssl S =
     (let t = take 32 (bn_AsByteArray ssl 32 True S);
          sha = sha_Finalize ssl (sha_UpdateData (every_second 0 t) (sha_Initialize sha_new));
          d0 = sh_mDigest sha;
          sha = sha_Finalize ssl (sha_UpdateData (every_second 1 t) (sha_Initialize sha));
          d1 = sh_mDigest sha
      in bn_SetBinary ssl (interleave d0 d1) 40)"

definition srp_M :: "openssl \<Rightarrow> int \<Rightarrow> int \<Rightarrow> bytes \<Rightarrow> int \<Rightarrow> int \<Rightarrow> int \<Rightarrow> int \<Rightarrow> int" where
  "srp_M ssl N g login s A B K =
     (let sha = sha_Finalize ssl (sha_UpdateBigNumbers ssl [N] (sha_Initialize sha_new));
          hash = sh_mDigest sha;
          sha = sha_Finalize ssl (sha_UpdateBigNumbers ssl [g] (sha_Initialize sha));
          hash = map2 (XOR) hash (sh_mDigest sha);
          t3 = bn_SetBinary ssl hash 20;
          sha = sha_Finalize ssl (sha_UpdateData login (sha_Initialize sha));
          t4 = sh_mDigest sha;
          sha = sha_UpdateBigNumbers ssl [t3] (sha_Initialize sha);
          sha = sha_UpdateData t4 sha;
          sha = sha_Finalize ssl (sha_UpdateBigNumbers ssl [s, A, B, K] sha)
      in bn_SetBinary ssl (sh_mDigest sha) 20)"

definition srp_M2 :: "openssl \<Rightarrow> int \<Rightarrow> int \<Rightarrow> int \<Rightarrow> bytes" where
  "srp_M2 ssl A M K = sh_mDigest (sha_Finalize ssl (sha_UpdateBigNumbers ssl [A, M, K] (sha_Initialize sha_new)))"

text \<open>\<open>(A * v ^ u) ^ b mod N\<close> with \<open>u\<close> the digest of \<open>A\<close> and \<open>B\<close>\<close>

definition srp_u :: "openssl \<Rightarrow> int \<Rightarrow> int \<Rightarrow> int" where
  "srp_u ssl A B =
     bn_SetBinary ssl (sh_mDigest (sha_Finalize ssl (sha_UpdateBigNumbers ssl [A, B] sha_new))) 20"

definition srp_S :: "openssl \<Rightarrow> int \<Rightarrow> int \<Rightarrow> int \<Rightarrow> int \<Rightarrow> int \<Rightarrow> int" where
  "srp_S ssl N A B v b =
     bn_ModExp ssl (bn_times ssl A (bn_ModExp ssl v (srp_u ssl A B) N)) b N"

text \<open>\<^verbatim>\<open>GetLocaleByName\<close> (src/Core/src/server/shared/Common.cpp)\<close>

definition localeNames :: "bytes list" where
  "localeNames = map chars [''enUS'', ''koKR'', ''frFR'', ''deDE'', ''zhCN'', ''zhTW'', ''esES'', ''esMX'', ''ruRU'']"

fun locale_loop :: "bytes \<Rightarrow> uint32 \<Rightarrow> bytes list \<Rightarrow> uint32" where
  "locale_loop name i [] = 0"
| "locale_loop name i (n # ns) = (if name = n then i else locale_loop name (i + 1) ns)"

definition GetLocaleByName :: "bytes \<Rightarrow> uint32" where
  "GetLocaleByName name = locale_loop name 0 localeNames"

text \<open>The packet of the accepted proof: the overlaid structures in the byte order of the host.\<close>

definition proof_packet :: "auth_env \<Rightarrow> uint8 \<Rightarrow> bytes \<Rightarrow> bytes" where
  "proof_packet env expversion M2 =
     (if expversion AND POST_BC_EXP_FLAG \<noteq> 0
      then [AUTH_LOGON_PROOF, 0] @ take 20 M2 @ mem_image (ae_big env) 4 (0x00800000 :: uint32)
           @ mem_image (ae_big env) 4 (0 :: uint32) @ mem_image (ae_big env) 2 (0 :: uint16)
      else [AUTH_LOGON_PROOF, 0] @ take 20 M2 @ mem_image (ae_big env) 4 (0 :: uint32))"

text \<open>
  The check of the token: size and text stand behind the 75 bytes of the proof, and are read
  whether or not they have arrived.
\<close>

definition as_check_token :: "auth_env \<Rightarrow> bool asop" where
  "as_check_token env =
     bindE (as_mem 74 1) (\<lambda>securityFlags.
     bindE (getE as_tokenKey) (\<lambda>tokenKey.
     if hd securityFlags AND 0x04 \<noteq> 0 \<or> tokenKey \<noteq> []
     then
       bindE (as_mem 75 1) (\<lambda>sze.
       bindE (as_mem 76 (unat (hd sze))) (\<lambda>token.
       bindE (modE (\<lambda>s. s\<lparr>as_readBuffer := mb_ReadCompleted (1 + unat (hd sze)) (as_readBuffer s)\<rparr>)) (\<lambda>_.
       ret (GenerateToken (ae_ssl env) (of_int (ae_time env)) tokenKey
              = atoi (takeWhile (\<lambda>c. c \<noteq> 0) token)))))
     else ret True))"

definition as_wrong_password :: "auth_env \<Rightarrow> unit asop" where
  "as_wrong_password env =
     bindE (as_SendPacket [AUTH_LOGON_PROOF, WOW_FAIL_UNKNOWN_ACCOUNT, 3, 0]) (\<lambda>_.
     bindE (getE as_login) (\<lambda>login.
     bindE (if ae_WrongPassLogging env
            then as_exec (InsFalpIpLogging login (ae_address_string env)
                   (chars ''Logged on failed AccountLogin due wrong password''))
            else ret ()) (\<lambda>_.
     if ae_MaxWrongPassCount env > 0
     then
       bindE (as_exec (UpdFailedLogins login)) (\<lambda>_.
       case ae_failedlogins env login of
         None \<Rightarrow> ret ()
       | Some (acc_id, failed_logins) \<Rightarrow>
           if failed_logins \<ge> ae_MaxWrongPassCount env
           then if ae_WrongPassBanType env
                then as_exec (InsAccountAutoBanned acc_id (ae_WrongPassBanTime env))
                else as_exec (InsIpAutoBanned (ae_address_string env) (ae_WrongPassBanTime env))
           else ret ())
     else ret ())))"

definition as_HandleLogonProof :: "auth_env \<Rightarrow> bool asop" where
  "as_HandleLogonProof env s0 =
     (if as_expversion s0 = NO_VALID_EXP_FLAG then ret False s0
      else
        let ssl = ae_ssl env
        in bindE (as_mem 1 32) (\<lambda>Abytes.
           let A = bn_SetBinary ssl Abytes 32
           in if bn_isZero ssl A then ret False
              else
                bindE (modE (\<lambda>s. s\<lparr>as_K := srp_session_key ssl
                         (srp_S ssl (as_N s) A (as_B s) (as_v s) (as_b s))\<rparr>)) (\<lambda>_.
                bindE (getE (\<lambda>s. srp_M ssl (as_N s) (as_g s) (as_login s) (as_s s) A (as_B s) (as_K s))) (\<lambda>M.
                bindE (as_mem 33 20) (\<lambda>M1.
                if take 20 (bn_AsByteArray ssl 20 True M) = M1
                then
                  bindE (getE (\<lambda>s. UpdLogonProof (bn_AsHexStr ssl (as_K s)) (ae_address_string env)
                           (GetLocaleByName (as_localizationName s)) (as_os s) (as_login s))) (\<lambda>stmt.
                  bindE (as_exec stmt) (\<lambda>_.
                  bindE (getE (\<lambda>s. srp_M2 ssl A M (as_K s))) (\<lambda>M2.
                  bindE (as_check_token env) (\<lambda>valid.
                  if \<not> valid
                  then bindE (as_SendPacket [AUTH_LOGON_PROOF, WOW_FAIL_UNKNOWN_ACCOUNT, 3, 0])
                         (\<lambda>_. ret False)
                  else
                    bindE (getE as_expversion) (\<lambda>expversion.
                    bindE (as_SendPacket (proof_packet env expversion M2)) (\<lambda>_.
                    bindE (modE (\<lambda>s. s\<lparr>as_isAuthenticated := True\<rparr>)) (\<lambda>_.
                    ret True)))))))
                else bindE (as_wrong_password env) (\<lambda>_. ret True))))) s0)"

section \<open>Reconnecting\<close>

definition as_HandleReconnectChallenge :: "auth_env \<Rightarrow> bool asop" where
  "as_HandleReconnectChallenge env =
     bindE (as_mem 33 1) (\<lambda>I_len.
     bindE (as_mem 34 (unat (hd I_len))) (\<lambda>I.
     bindE (modE (\<lambda>s. s\<lparr>as_login := I\<rparr>)) (\<lambda>_.
     case ae_sessionkey env I of
       None \<Rightarrow> ret False
     | Some (sessionkey, accId, secLevel) \<Rightarrow>
         bindE (as_mem 11 2) (\<lambda>build.
         bindE (modE (\<lambda>s. s\<lparr>as_build := of_mem_image (ae_big env) build,
                           as_expversion := as_exp_flag (of_mem_image (ae_big env) build)\<rparr>)) (\<lambda>_.
         bindE (as_mem_cstr 17) (\<lambda>os.
         bindE (modE (\<lambda>s. s\<lparr>as_os := os\<rparr>)) (\<lambda>_.
         if length os > 4 then ret False
         else
           bindE (modE (\<lambda>s. s\<lparr>as_os := rev os, as_accountSecurityLevel := as_sec_level secLevel,
                    as_K := bn_SetHexStr (ae_ssl env) sessionkey (as_K s),
                    as_reconnectProof := ae_rand env (16 * 8)\<rparr>)) (\<lambda>_.
           bindE (as_SendPacket ([AUTH_RECONNECT_CHALLENGE, 0x00]
                    @ take 16 (bn_AsByteArray (ae_ssl env) 16 True (ae_rand env (16 * 8)))
                    @ replicate 16 0)) (\<lambda>_.
           ret True)))))))))"

definition as_HandleReconnectProof :: "auth_env \<Rightarrow> bool asop" where
  "as_HandleReconnectProof env s =
     (let ssl = ae_ssl env
      in if as_login s = [] \<or> bn_GetNumBytes ssl (as_reconnectProof s) = 0 \<or> bn_GetNumBytes ssl (as_K s) = 0
         then ret False s
         else
           bindE (as_mem 1 16) (\<lambda>R1.
           bindE (as_mem 17 20) (\<lambda>R2.
           let t1 = bn_SetBinary ssl R1 16;
               sha = sha_UpdateData (as_login s) (sha_Initialize sha_new);
               sha = sha_Finalize ssl (sha_UpdateBigNumbers ssl [t1, as_reconnectProof s, as_K s] sha)
           in if sh_mDigest sha = R2
              then
                bindE (as_SendPacket ([AUTH_RECONNECT_PROOF, 0x00] @ le_bytes 2 (0 :: uint16))) (\<lambda>_.
                bindE (modE (\<lambda>s. s\<lparr>as_isAuthenticated := True\<rparr>)) (\<lambda>_.
                ret True))
              else ret False)) s)"

section \<open>The realm list\<close>

text \<open>
  One realm of the list: nothing for a realm of an unknown build that does not fit the
  client. A build that is not known cannot carry the flag that asks for its numbers.
\<close>

definition as_realm_entry ::
  "auth_env \<Rightarrow> auth_session \<Rightarrow> uint32 \<Rightarrow> bytes \<times> realm \<Rightarrow> auth_error + bytes option" where
  "as_realm_entry env s accId i =
     (let (key, realm) = i;
          exp = as_expversion s;
          okBuild = (exp AND POST_BC_EXP_FLAG \<noteq> 0 \<and> re_gamebuild realm = ucast (as_build s))
            \<or> (exp AND PRE_BC_EXP_FLAG \<noteq> 0 \<and> \<not> IsPreBCAcceptedClientBuild (sint (re_gamebuild realm)));
          buildInfo = GetBuildInfo (sint (re_gamebuild realm))
      in if \<not> okBuild \<and> buildInfo = None then Inr None
         else
           let flag = (if \<not> okBuild then re_flag realm OR (REALM_FLAG_OFFLINE OR REALM_FLAG_SPECIFYBUILD)
                       else re_flag realm);
               flag = (if buildInfo = None then flag AND NOT REALM_FLAG_SPECIFYBUILD else flag);
               specify = (flag AND REALM_FLAG_SPECIFYBUILD \<noteq> 0);
               name = (case buildInfo of
                  Some info \<Rightarrow>
                    if exp AND PRE_BC_EXP_FLAG \<noteq> 0 \<and> specify
                    then key @ chars '' ('' @ decimal (nat (bi_MajorVersion info)) @ chars ''.''
                         @ decimal (nat (bi_MinorVersion info)) @ chars ''.''
                         @ decimal (nat (bi_BugfixVersion info)) @ chars '')''
                    else key
                | None \<Rightarrow> key);
               lock = (if re_allowedSecurityLevel realm > as_accountSecurityLevel s then 1 else 0);
               AmountOfCharacters = (case ae_numchars env (re_ID realm) accId of None \<Rightarrow> 0 | Some n \<Rightarrow> n)
           in case GetAddressForClient (ae_is_loopback env) realm (ae_address env) of
                None \<Rightarrow> Inl AuthBadCast
              | Some (addr, port) \<Rightarrow>
                  Inr (Some ([re_icon realm]
                    @ (if exp AND POST_BC_EXP_FLAG \<noteq> 0 then [lock] else [])
                    @ [ucast flag] @ name @ [0]
                    @ ae_endpoint_string env addr port @ [0]
                    @ le_bytes 4 (re_populationLevel realm)
                    @ [AmountOfCharacters, re_timezone realm]
                    @ (if exp AND POST_BC_EXP_FLAG \<noteq> 0 then [ucast (re_ID realm)] else [0])
                    @ (case buildInfo of
                         Some info \<Rightarrow>
                           if exp AND POST_BC_EXP_FLAG \<noteq> 0 \<and> specify
                           then [of_int (bi_MajorVersion info), of_int (bi_MinorVersion info),
                                 of_int (bi_BugfixVersion info)]
                                @ le_bytes 2 (of_int (bi_Build info) :: uint16)
                           else []
                       | None \<Rightarrow> []))))"

text \<open>The loop over the realms: the bytes and the number of realms written.\<close>

fun as_realm_loop ::
  "auth_env \<Rightarrow> auth_session \<Rightarrow> uint32 \<Rightarrow> (bytes \<times> realm) list \<Rightarrow> bytes \<Rightarrow> nat \<Rightarrow> auth_error + bytes \<times> nat" where
  "as_realm_loop env s accId [] pkt n = Inr (pkt, n)"
| "as_realm_loop env s accId (i # is) pkt n =
     (case as_realm_entry env s accId i of
        Inl e \<Rightarrow> Inl e
      | Inr None \<Rightarrow> as_realm_loop env s accId is pkt n
      | Inr (Some bs) \<Rightarrow> as_realm_loop env s accId is (pkt @ bs) (n + 1))"

definition as_HandleRealmList :: "auth_env \<Rightarrow> bool asop" where
  "as_HandleRealmList env s =
     (case ae_account_id env (as_login s) of
        None \<Rightarrow> ret False s
      | Some accId \<Rightarrow>
          let s = s\<lparr>as_realmList := rl_UpdateIfNeed (ae_resolve env) (ae_realm_rows env) (ae_time env)
                                     (as_realmList s)\<rparr>;
              post = (as_expversion s AND POST_BC_EXP_FLAG \<noteq> 0)
          in case as_realm_loop env s accId (rl_realms (as_realmList s)) [] 0 of
               Inl e \<Rightarrow> throw e s
             | Inr (pkt, RealmListSize) \<Rightarrow>
                 let pkt = pkt @ (if post then [0x10, 0x00] else [0x00, 0x02]);
                     sizeBuffer = le_bytes 4 (0 :: uint32)
                       @ (if post then le_bytes 2 (of_nat RealmListSize :: uint16)
                          else le_bytes 4 (of_nat RealmListSize :: uint32));
                     hdr = [REALM_LIST] @ le_bytes 2 (of_nat (length pkt + length sizeBuffer) :: uint16)
                       @ sizeBuffer @ pkt
                 in bindE (as_SendPacket hdr) (\<lambda>_. ret True) s)"

section \<open>The transfer of patches\<close>

definition as_HandleXferResume :: "bool asop" where "as_HandleXferResume = ret True"
definition as_HandleXferCancel :: "bool asop" where "as_HandleXferCancel = ret False"
definition as_HandleXferAccept :: "bool asop" where "as_HandleXferAccept = ret True"

section \<open>The packets in the input\<close>

datatype auth_status = STATUS_CONNECTED | STATUS_AUTHED

record auth_handler =
  ah_status :: auth_status
  ah_packetSize :: nat
  ah_handler :: "auth_env \<Rightarrow> bool asop"

definition InitHandlers :: "uint8 \<Rightarrow> auth_handler option" where
  "InitHandlers = Map.empty
     (AUTH_LOGON_CHALLENGE \<mapsto> \<lparr>ah_status = STATUS_CONNECTED, ah_packetSize = 4, ah_handler = as_HandleLogonChallenge\<rparr>,
      AUTH_LOGON_PROOF \<mapsto> \<lparr>ah_status = STATUS_CONNECTED, ah_packetSize = 75, ah_handler = as_HandleLogonProof\<rparr>,
      AUTH_RECONNECT_CHALLENGE \<mapsto> \<lparr>ah_status = STATUS_CONNECTED, ah_packetSize = 4, ah_handler = as_HandleReconnectChallenge\<rparr>,
      AUTH_RECONNECT_PROOF \<mapsto> \<lparr>ah_status = STATUS_CONNECTED, ah_packetSize = 58, ah_handler = as_HandleReconnectProof\<rparr>,
      REALM_LIST \<mapsto> \<lparr>ah_status = STATUS_AUTHED, ah_packetSize = 5, ah_handler = as_HandleRealmList\<rparr>,
      XFER_ACCEPT \<mapsto> \<lparr>ah_status = STATUS_AUTHED, ah_packetSize = 1, ah_handler = \<lambda>_. as_HandleXferAccept\<rparr>,
      XFER_RESUME \<mapsto> \<lparr>ah_status = STATUS_AUTHED, ah_packetSize = 9, ah_handler = \<lambda>_. as_HandleXferResume\<rparr>,
      XFER_CANCEL \<mapsto> \<lparr>ah_status = STATUS_AUTHED, ah_packetSize = 1, ah_handler = \<lambda>_. as_HandleXferCancel\<rparr>)"

text \<open>\<^verbatim>\<open>AsyncRead\<close> prepares the buffer for the next read; the result says whether one is started.\<close>

definition as_AsyncRead :: "bool asop" where
  "as_AsyncRead s =
     (if \<not> as_IsOpen s then ret False s
      else bindE (as_ofUB (mb_Normalize (as_readBuffer s)))
             (\<lambda>rb. bindE (modE (\<lambda>s. s\<lparr>as_readBuffer := rb\<rparr>)) (\<lambda>_. ret True)) s)"

text \<open>
  The loop of \<^verbatim>\<open>ReadHandler\<close>; the environment of its passes may differ. The size of the
  packet is computed in sixteen bits. The fuel bounds the number of passes.
\<close>

fun as_read_loop :: "nat \<Rightarrow> (nat \<Rightarrow> auth_env) \<Rightarrow> bool asop" where
  "as_read_loop 0 envs s = throw AuthOutOfFuel s"
| "as_read_loop (Suc fuel) envs s =
     (if mb_GetActiveSize (as_readBuffer s) = 0 then as_AsyncRead s
      else bindE (as_mem 0 1) (\<lambda>cmd.
        case InitHandlers (hd cmd) of
          None \<Rightarrow> bindE (modE (\<lambda>s. s\<lparr>as_readBuffer := mb_Reset (as_readBuffer s)\<rparr>)) (\<lambda>_. as_AsyncRead)
        | Some h \<Rightarrow>
            bindE (getE (\<lambda>s. mb_GetActiveSize (as_readBuffer s))) (\<lambda>active.
            if active < ah_packetSize h then as_AsyncRead
            else
              bindE (if hd cmd = AUTH_LOGON_CHALLENGE \<or> hd cmd = AUTH_RECONNECT_CHALLENGE
                     then bindE (as_mem 2 2) (\<lambda>sze. ret (of_nat (ah_packetSize h) + of_mem_image (ae_big (envs 0)) sze))
                     else ret (of_nat (ah_packetSize h))) (\<lambda>sze :: uint16.
              if active < unat sze then as_AsyncRead
              else
                bindE (ah_handler h (envs 0)) (\<lambda>ok.
                if \<not> ok then bindE as_CloseSocket (\<lambda>_. ret False)
                else
                  bindE (modE (\<lambda>s. s\<lparr>as_readBuffer := mb_ReadCompleted (unat sze) (as_readBuffer s)\<rparr>)) (\<lambda>_.
                  as_read_loop fuel (\<lambda>n. envs (Suc n))))))) s)"

text \<open>
  \<^verbatim>\<open>ReadHandlerInternal\<close>: the bytes a read has put at the write position, at most
  \<^verbatim>\<open>READ_BLOCK_SIZE\<close> of them, are there before anything checks the space.
\<close>

definition as_ReadHandlerInternal :: "nat \<Rightarrow> (nat \<Rightarrow> auth_env) \<Rightarrow> bool \<Rightarrow> bytes \<Rightarrow> bool asop" where
  "as_ReadHandlerInternal fuel envs error data =
     (if error then bindE as_CloseSocket (\<lambda>_. ret False)
      else bindE (\<lambda>s. as_ofUB (mb_poke data (as_readBuffer s)) s) (\<lambda>rb.
     bindE (modE (\<lambda>s. s\<lparr>as_readBuffer := mb_WriteCompleted (length data) rb\<rparr>)) (\<lambda>_.
     as_read_loop fuel envs)))"

end
