(* ===== verification/Auth_Session_Props.thy ===== *)
theory Auth_Session_Props
  imports Auth_Session
begin

text \<open>
  What the login server's connection (Auth_Session) guarantees and what it does not: the
  outcome of the logon proof on its branches, the agreement of an honest client and the
  server on the SRP6 session key, the proof that needs no password, the order of the token
  check, the creation of accounts, and the loop over the packets.
\<close>

section \<open>Running the handlers\<close>

text \<open>A packet that fits is queued as a buffer of its own.\<close>

definition queued :: "bytes \<Rightarrow> msgbuf" where
  "queued p = \<lparr>mb_wpos = length p, mb_rpos = 0, mb_storage = p @ replicate (4096 - length p) 0\<rparr>"

lemma as_SendPacket_queued:
  assumes "as_IsOpen s" and "p \<noteq> []" and "length p \<le> 4096"
  shows "as_SendPacket p s = (Inr (), s\<lparr>as_writeQueue := as_writeQueue s @ [queued p]\<rparr>)"
  using assms
  by (simp add: as_SendPacket_def bindE_def as_ofUB_def mb_Write_def mb_poke_def mb_new_def
      mb_WriteCompleted_def vec_write_def vec_resize_def queued_def)

lemma as_SendPacket_closed: "\<not> as_IsOpen s \<Longrightarrow> as_SendPacket p s = (Inr (), s)"
  by (simp add: as_SendPacket_def)

text \<open>A field of the input, when the bytes at the read position are known.\<close>

lemma as_mem_known:
  assumes "mb_peek n (as_readBuffer s) = Some bs" and "off + len \<le> n"
  shows "as_mem off len s = (Inr (take len (drop off bs)), s)"
proof -
  have "mb_peek (off + len) (as_readBuffer s) = Some (take (off + len) bs)"
    using assms by (auto simp: mb_peek_def min_absorb1 split: if_splits)
  then show ?thesis by (simp add: as_mem_def as_ofUB_def drop_take)
qed

text \<open>The 75 bytes of a logon proof at the read position.\<close>

definition proof_bytes :: "bytes \<Rightarrow> bytes \<Rightarrow> bytes \<Rightarrow> uint8 \<Rightarrow> uint8 \<Rightarrow> bytes" where
  "proof_bytes A M1 crc keys flags = [AUTH_LOGON_PROOF] @ A @ M1 @ crc @ [keys, flags]"

definition has_proof :: "auth_session \<Rightarrow> bytes \<Rightarrow> bytes \<Rightarrow> uint8 \<Rightarrow> bool" where
  "has_proof s A M1 flags \<longleftrightarrow> length A = 32 \<and> length M1 = 20
     \<and> (\<exists>crc keys. length crc = 20 \<and> mb_peek 75 (as_readBuffer s) = Some (proof_bytes A M1 crc keys flags))"

lemma has_proof_mem:
  assumes "has_proof s A M1 flags" and "as_readBuffer s' = as_readBuffer s"
  shows "as_mem 1 32 s' = (Inr A, s')" and "as_mem 33 20 s' = (Inr M1, s')"
    and "as_mem 74 1 s' = (Inr [flags], s')"
  using assms
  by (auto simp: has_proof_def proof_bytes_def as_mem_known)

text \<open>The state after a proof that was accepted so far: the key is in the session and in the database.\<close>

definition key_of :: "auth_env \<Rightarrow> auth_session \<Rightarrow> int \<Rightarrow> int" where
  "key_of env s A = srp_session_key (ae_ssl env) (srp_S (ae_ssl env) (as_N s) A (as_B s) (as_v s) (as_b s))"

definition M1_of :: "auth_env \<Rightarrow> auth_session \<Rightarrow> int \<Rightarrow> int \<Rightarrow> bytes" where
  "M1_of env s A K = take 20 (bn_AsByteArray (ae_ssl env) 20 True
     (srp_M (ae_ssl env) (as_N s) (as_g s) (as_login s) (as_s s) A (as_B s) K))"

definition key_stored :: "auth_env \<Rightarrow> int \<Rightarrow> auth_session \<Rightarrow> auth_session" where
  "key_stored env K s = s\<lparr>as_K := K, as_stmts := as_stmts s @
     [UpdLogonProof (bn_AsHexStr (ae_ssl env) K) (ae_address_string env)
        (GetLocaleByName (as_localizationName s)) (as_os s) (as_login s)]\<rparr>"

lemma proof_matching:
  assumes pb: "has_proof s Ab M1 flags" and exp: "as_expversion s \<noteq> 0"
    and A: "A = bn_SetBinary (ae_ssl env) Ab 32" "\<not> bn_isZero (ae_ssl env) A"
    and K: "K = key_of env s A" and M1: "M1 = M1_of env s A K"
  shows "as_HandleLogonProof env s =
    bindE (as_check_token env) (\<lambda>valid.
      if \<not> valid
      then bindE (as_SendPacket [AUTH_LOGON_PROOF, WOW_FAIL_UNKNOWN_ACCOUNT, 3, 0]) (\<lambda>_. ret False)
      else bindE (getE as_expversion) (\<lambda>expversion.
           bindE (as_SendPacket (proof_packet env expversion
             (srp_M2 (ae_ssl env) A (srp_M (ae_ssl env) (as_N s) (as_g s) (as_login s) (as_s s) A (as_B s) K) K))) (\<lambda>_.
           bindE (modE (\<lambda>s. s\<lparr>as_isAuthenticated := True\<rparr>)) (\<lambda>_. ret True))))
      (key_stored env K s)"
proof -
  note mem = has_proof_mem [OF pb, unfolded One_nat_def]
  have K': "srp_session_key (ae_ssl env) (srp_S (ae_ssl env) (as_N s) A (as_B s) (as_v s) (as_b s)) = K"
    by (simp add: K key_of_def)
  have M: "take 20 (bn_AsByteArray (ae_ssl env) 20 True
      (srp_M (ae_ssl env) (as_N s) (as_g s) (as_login s) (as_s s) A (as_B s) K)) = M1"
    by (simp add: M1 M1_of_def)
  show ?thesis
    using exp A(2)
    by (simp add: as_HandleLogonProof_def NO_VALID_EXP_FLAG_def Let_def bindE_def mem
        A(1) [symmetric] K' M key_stored_def as_exec_def split: prod.split sum.split)
qed

section \<open>The session key\<close>

lemma srp_u_nonneg: "ssl_documented ssl \<Longrightarrow> 0 \<le> srp_u ssl A B"
  unfolding srp_u_def by (subst SetBinary_value) (simp_all add: sha_simps ssl_numbers)

lemma srp_S_value:
  assumes "ssl_documented ssl" and "0 \<le> A" and "0 < N" and "0 \<le> v" and "0 \<le> b"
  shows "srp_S ssl N A B v b = (A * (v ^ nat (srp_u ssl A B) mod N)) ^ nat b mod N"
  using assms srp_u_nonneg [OF assms(1), of A B]
  by (simp add: srp_S_def bn_ModExp_def bn_times_def ssl_arith)

text \<open>What the client computes, from its own secret, the password and the packet.\<close>

definition client_S :: "int \<Rightarrow> int \<Rightarrow> nat \<Rightarrow> nat \<Rightarrow> int \<Rightarrow> int \<Rightarrow> int" where
  "client_S N g x a u B = ((B - 3 * (g ^ x mod N)) mod N) ^ (a + nat u * x) mod N"

definition client_key :: "openssl \<Rightarrow> int \<Rightarrow> int \<Rightarrow> nat \<Rightarrow> nat \<Rightarrow> bytes \<Rightarrow> int" where
  "client_key ssl N g x a pkt =
     (let B = bn_SetBinary ssl (take 32 (drop 1 pkt)) 32
      in srp_session_key ssl (client_S N g x a (srp_u ssl (g ^ a mod N) B) B))"

definition client_M1 :: "openssl \<Rightarrow> int \<Rightarrow> int \<Rightarrow> bytes \<Rightarrow> nat \<Rightarrow> nat \<Rightarrow> bytes \<Rightarrow> bytes" where
  "client_M1 ssl N g login x a pkt =
     take 20 (bn_AsByteArray ssl 20 True
       (srp_M ssl N g login (bn_SetBinary ssl (take 32 (drop 68 pkt)) 32) (g ^ a mod N)
         (bn_SetBinary ssl (take 32 (drop 1 pkt)) 32) (client_key ssl N g x a pkt)))"

lemma srp_agreement:
  assumes "0 < (N :: int)"
  shows "(g ^ a mod N * ((g ^ x mod N) ^ u mod N)) ^ b mod N
    = ((((g ^ x mod N) * 3 + g ^ b mod N) mod N - 3 * (g ^ x mod N)) mod N) ^ (a + u * x) mod N"
proof -
  have "(g ^ a mod N * ((g ^ x mod N) ^ u mod N)) ^ b mod N = (g ^ a * (g ^ x) ^ u) ^ b mod N"
    by (metis mod_mult_eq power_mod)
  also have "\<dots> = (g ^ b) ^ (a + u * x) mod N"
    by (simp add: power_add power_mult_distrib flip: power_mult) (simp add: algebra_simps)
  finally have l: "(g ^ a mod N * ((g ^ x mod N) ^ u mod N)) ^ b mod N = (g ^ b) ^ (a + u * x) mod N" .
  have "(((g ^ x mod N) * 3 + g ^ b mod N) mod N - 3 * (g ^ x mod N)) mod N
      = ((g ^ x mod N) * 3 + g ^ b mod N - 3 * (g ^ x mod N)) mod N"
    by (simp only: mod_diff_left_eq)
  also have "\<dots> = g ^ b mod N" by simp
  finally show ?thesis unfolding l by (simp only: power_mod)
qed

lemma full_width_bytes:
  assumes "ssl_documented ssl" and "0 \<le> n" and "bn_GetNumBytes ssl n = 32"
  shows "length (bn_AsByteArray ssl 32 True n) = 32"
    and "bn_SetBinary ssl (bn_AsByteArray ssl 32 True n) 32 = n"
proof -
  have len: "length (BN_bn2bin ssl n) = 32"
    using assms bn2bin_facts(3) [OF assms(1,2)] by (simp add: bn_GetNumBytes_def)
  then show "length (bn_AsByteArray ssl 32 True n) = 32"
    by (simp add: AsByteArray_shape [OF assms(1,2)] assms(3))
  then show "bn_SetBinary ssl (bn_AsByteArray ssl 32 True n) 32 = n"
    using bn2bin_facts(1) [OF assms(1,2)]
    by (simp add: SetBinary_value [OF assms(1)] AsByteArray_shape [OF assms(1,2)] assms(3) le_value_def)
qed

lemma as_mem_state: "as_mem off len s = (r, s') \<Longrightarrow> s' = s"
  by (auto simp: as_mem_def as_ofUB_def split: option.splits)

text \<open>What a challenge leaves in the session and tells the client.\<close>

lemma srp_challenge_result:
  assumes "as_srp_challenge env row s0 = (Inr pkt, s1)"
  shows "as_B s1 = bn_modulo (ae_ssl env) (bn_plus (ae_ssl env)
      (bn_times (ae_ssl env) (as_v s1) (bn_SetDword (ae_ssl env) 3))
      (bn_ModExp (ae_ssl env) (as_g s0) (as_b s1) (as_N s0))) (as_N s0)"
    and "as_b s1 = ae_rand env (19 * 8)" and "as_N s1 = as_N s0" and "as_g s1 = as_g s0"
    and "as_login s1 = as_login s0" and "as_expversion s1 = as_expversion s0"
    and "as_tokenKey s1 = lr_token_key row" and "as_IsOpen s1 = as_IsOpen s0"
    and "\<exists>c rest. pkt = [c] @ take 32 (bn_AsByteArray (ae_ssl env) 32 True (as_B s1))
      @ [1] @ take 1 (bn_AsByteArray (ae_ssl env) 1 True (as_g s1))
      @ [32] @ take 32 (bn_AsByteArray (ae_ssl env) 32 True (as_N s1))
      @ take 32 (bn_AsByteArray (ae_ssl env) 32 True (as_s s1)) @ rest"
  using assms
  by (auto simp: as_srp_challenge_def as_SetVSFields_def as_exec_def bindE_def Let_def as_IsOpen_def
      dest!: as_mem_state split: if_splits prod.splits sum.splits)

lemma check_token_none:
  assumes "has_proof s A M1 flags" and "as_readBuffer s' = as_readBuffer s"
    and "as_tokenKey s' = []" and "flags AND 4 = 0"
  shows "as_check_token env s' = (Inr True, s')"
  using assms(3,4) has_proof_mem(3) [OF assms(1,2)] by (simp add: as_check_token_def bindE_def)

lemma proof_packet_size: "proof_packet env e M2 \<noteq> [] \<and> length (proof_packet env e M2) \<le> 4096"
  by (auto simp: proof_packet_def mem_image_def min_def)

text \<open>The state after an accepted proof.\<close>

definition logged_on :: "auth_env \<Rightarrow> int \<Rightarrow> int \<Rightarrow> auth_session \<Rightarrow> auth_session" where
  "logged_on env A K s = (key_stored env K s)
     \<lparr>as_writeQueue := as_writeQueue s @ [queued (proof_packet env (as_expversion s)
        (srp_M2 (ae_ssl env) A (srp_M (ae_ssl env) (as_N s) (as_g s) (as_login s) (as_s s) A (as_B s) K) K))],
      as_isAuthenticated := True\<rparr>"

lemma proof_accepted:
  assumes pb: "has_proof s Ab M1 flags" and exp: "as_expversion s \<noteq> 0"
    and A: "A = bn_SetBinary (ae_ssl env) Ab 32" "\<not> bn_isZero (ae_ssl env) A"
    and K: "K = key_of env s A" and M1: "M1 = M1_of env s A K"
    and token: "as_tokenKey s = []" "flags AND 4 = 0" and "as_IsOpen s"
  shows "as_HandleLogonProof env s = (Inr True, logged_on env A K s)"
proof -
  have "as_check_token env (key_stored env K s) = (Inr True, key_stored env K s)"
    using check_token_none [OF pb _ _ token(2), of "key_stored env K s"] token(1)
    by (simp add: key_stored_def)
  moreover have "as_IsOpen (key_stored env K s)"
    using \<open>as_IsOpen s\<close> by (simp add: key_stored_def as_IsOpen_def)
  ultimately show ?thesis
    using proof_packet_size
    by (simp add: proof_matching [OF pb exp A K M1] bindE_def as_SendPacket_queued logged_on_def)
      (simp add: key_stored_def)
qed

section \<open>Properties\<close>


text \<open>
  A session to evaluate the theorems on: the modulus and generator of the server, a row with
  the verifier of \<open>x = 1\<close> and a salt of 32 bytes, the server's secret 90 and the client's
  secret 1.
\<close>

definition sample_N :: int where
  "sample_N = 0x894B645E89E1535BBDAD5B8B290650530801B18EBFBF5E8FAB3C82872A3E9BB7"

definition sample_row :: logon_row where
  "sample_row = \<lparr>lr_sha_pass_hash = [], lr_id = 1, lr_locked = 0, lr_lock_country = [],
     lr_last_ip = [], lr_gmlevel = 0, lr_v = replicate 63 0 @ [7],
     lr_s = replicate 32 0 @ [1] @ replicate 31 0, lr_token_key = []\<rparr>"

definition sample_env :: auth_env where
  "sample_env = \<lparr>ae_ssl = plain_ssl, ae_big = False, ae_time = 0, ae_address = V4 0x0A000001,
     ae_address_string = chars ''10.0.0.1'', ae_inet_addr = 0x0100000A, ae_rand = \<lambda>_. 90,
     ae_is_loopback = \<lambda>_. False, ae_endpoint_string = \<lambda>_ _. chars ''10.0.0.2:8085'',
     ae_resolve = \<lambda>_. Some (V4 0x0A000002), ae_realm_rows = [], ae_ip_banned = False,
     ae_logonchallenge = \<lambda>l. if l = chars ''BOB'' then Some sample_row else None,
     ae_country = \<lambda>_. None, ae_account_banned = \<lambda>_. None,
     ae_account_id = \<lambda>l. if l = chars ''BOB'' then Some 1 else None, ae_sessionkey = \<lambda>_. None,
     ae_failedlogins = \<lambda>_. None, ae_numchars = \<lambda>_ _. None, ae_MaxWrongPassCount = 0,
     ae_WrongPassLogging = False, ae_WrongPassBanTime = 600, ae_WrongPassBanType = False\<rparr>"

definition sample_session :: "bytes \<Rightarrow> auth_session" where
  "sample_session input = (as_new plain_ssl (rl_new 0))
     \<lparr>as_N := sample_N, as_login := chars ''BOB'', as_build := 12350, as_expversion := 2,
      as_readBuffer := \<lparr>mb_wpos = length input, mb_rpos = 0, mb_storage = input\<rparr>\<rparr>"

lemma plain_num_bytes:
  assumes "256 ^ k \<le> n" and "n < 256 ^ Suc k"
  shows "bn_GetNumBytes plain_ssl n = Suc k"
proof -
  have "256 ^ k \<le> nat n" "nat n < 256 ^ Suc k"
    using assms by (simp_all add: le_nat_iff nat_less_iff)
  then show ?thesis
    by (simp add: bn_GetNumBytes_def plain_ssl_def length_be_bytes)
qed

lemma be_value_digit: "be_value (replicate k 0 @ [d] @ replicate m 0) = unat d * 256 ^ m"
  by (simp add: be_value_append)

lemma sample_challenge:
  "\<exists>pkt s1. as_srp_challenge sample_env sample_row (sample_session (replicate 40 0)) = (Inr pkt, s1)
     \<and> as_v s1 = 7 \<and> as_s s1 = 256 ^ 31"
proof -
  have v: "bn_SetHexStr plain_ssl (replicate 63 0 @ [7]) n = 7" for n
    using be_value_digit [of 63 7 0] by (simp add: bn_SetHexStr_def plain_ssl_def)
  have s: "bn_SetHexStr plain_ssl (replicate 32 0 @ [1] @ replicate 31 0) n = 256 ^ 31" for n
    using be_value_digit [of 32 1 31] by (simp add: bn_SetHexStr_def plain_ssl_def)
  have g: "bn_ModExp plain_ssl 7 90 sample_N = 7 ^ 90"
    by (simp add: bn_ModExp_def plain_ssl_def sample_N_def)
  have w: "bn_GetNumBytes plain_ssl (7 ^ 90) \<le> 32"
    using plain_num_bytes [of 31 "7 ^ 90"] by simp
  have g7: "bn_SetDword plain_ssl 7 = 7" by (simp add: bn_SetDword_def plain_ssl_def)
  have len: "length (replicate 63 0 @ [7 :: uint8]) = 64" "length (replicate 32 0 @ [1 :: uint8] @ replicate 31 0) = 64"
    by simp_all
  have env: "ae_ssl sample_env = plain_ssl" "ae_rand sample_env = (\<lambda>_. 90)"
    by (simp_all add: sample_env_def)
  have mem: "as_mem 21 4 s = (Inr (replicate 4 0), s)"
    if "as_readBuffer s = \<lparr>mb_wpos = 40, mb_rpos = 0, mb_storage = replicate 40 0\<rparr>" for s
    using that by (simp add: as_mem_def as_ofUB_def mb_peek_def)
  show ?thesis
    unfolding as_srp_challenge_def env Let_def
    by (simp add: bindE_def sample_row_def sample_session_def as_new_def v s [simplified]
        len g w [simplified] g7 mem)
qed

text \<open>A proof as the whole input: with a first part of 32 bytes the structure is there.\<close>

lemma sample_proof:
  assumes "length Ab = 32" and "length M1 = 20"
    and "as_readBuffer s = \<lparr>mb_wpos = 75, mb_rpos = 0, mb_storage = proof_bytes Ab M1 (replicate 20 0) 0 0\<rparr>"
  shows "has_proof s Ab M1 0"
  using assms
  by (auto simp: has_proof_def mb_peek_def proof_bytes_def
      intro!: exI [of _ "replicate 20 0"] exI [of _ 0])

lemma length_M1:
  assumes "ssl_documented ssl"
  shows "length (take 20 (bn_AsByteArray ssl 20 True (srp_M ssl N g l s A B K))) = 20"
proof -
  have "0 \<le> srp_M ssl N g l s A B K"
    unfolding srp_M_def Let_def
    by (subst SetBinary_value [OF assms]) (simp_all add: sha_simps ssl_numbers [OF assms])
  from bn2bin_facts(3) [OF assms this] show ?thesis
    by (simp add: AsByteArray_shape [OF assms \<open>0 \<le> srp_M ssl N g l s A B K\<close>] bn_GetNumBytes_def)
qed


text \<open>
  C9. A proof that needs no password. The only check on the client's public value is that it is
  not zero; if it is any other multiple of the modulus, the session key is the one
  derived from zero, whatever the verifier and the server's secret are, and the client can
  compute the expected proof from what the challenge told it. The server accepts it and stores
  the key for the account.
\<close>

theorem logon_without_password:
  assumes ssl: "ssl_documented (ae_ssl env)"
    and A: "le_value Ab = k * N" "0 < k" "0 < N" "as_N s = int N"
    and "0 \<le> as_v s" and b: "0 < as_b s"
    and st: "as_expversion s \<noteq> 0" "as_IsOpen s" "as_tokenKey s = []" "flags AND 4 = 0"
    and pb: "has_proof s Ab (take 20 (bn_AsByteArray (ae_ssl env) 20 True
      (srp_M (ae_ssl env) (int N) (as_g s) (as_login s) (as_s s) (int (k * N)) (as_B s)
        (srp_session_key (ae_ssl env) 0)))) flags"
  shows "as_HandleLogonProof env s
    = (Inr True, logged_on env (int (k * N)) (srp_session_key (ae_ssl env) 0) s)"
proof -
  let ?A = "int (k * N)"
  have N: "0 < as_N s" and An: "0 \<le> ?A" and bn: "0 \<le> as_b s" using A b by simp_all
  obtain m where m: "nat (as_b s) = Suc m" using b by (cases "nat (as_b s)") auto
  have "srp_S (ae_ssl env) (as_N s) ?A (as_B s) (as_v s) (as_b s) = 0"
    unfolding srp_S_value [OF ssl An N assms(6) bn] m power_Suc unfolding A(4) by simp
  then have key: "srp_session_key (ae_ssl env) 0 = key_of env s ?A" by (simp add: key_of_def)
  have Ab: "?A = bn_SetBinary (ae_ssl env) Ab 32"
    using pb A(1) by (simp add: SetBinary_value [OF ssl] has_proof_def)
  have nz: "\<not> bn_isZero (ae_ssl env) ?A"
    using A by (simp add: bn_isZero_def ssl_numbers [OF ssl])
  show ?thesis
    by (rule proof_accepted [OF pb st(1) Ab nz key _ st(3,4,2)]) (simp add: M1_of_def A(4))
qed

theorem logon_without_password_witness:
  "\<exists>s. as_v s = 12345 \<and> as_b s = 90 \<and> as_HandleLogonProof sample_env s
     = (Inr True, logged_on sample_env (int (1 * nat sample_N)) (srp_session_key plain_ssl 0) s)"
proof -
  let ?Ab = "rev (be_bytes (nat sample_N))"
  define s where "s = (sample_session (proof_bytes ?Ab (take 20 (bn_AsByteArray plain_ssl 20 True
      (srp_M plain_ssl sample_N 7 (chars ''BOB'') 5 (int (1 * nat sample_N)) 6
        (srp_session_key plain_ssl 0)))) (replicate 20 0) 0 0))\<lparr>as_v := 12345, as_b := 90, as_s := 5, as_B := 6\<rparr>"
  have N: "0 < nat sample_N" "int (nat sample_N) = sample_N" by (simp_all add: sample_N_def)
  have len: "length ?Ab = 32" using length_be_bytes [of 31 "nat sample_N"] by (simp add: sample_N_def)
  have env: "ae_ssl sample_env = plain_ssl" by (simp add: sample_env_def)
  have st: "as_N s = sample_N" "as_g s = 7" "as_login s = chars ''BOB''" "as_s s = 5" "as_B s = 6"
    "as_v s = 12345" "as_b s = 90" "as_expversion s = 2" "as_tokenKey s = []" "as_IsOpen s"
    by (simp_all add: s_def sample_session_def as_new_def bn_SetDword_def plain_ssl_def as_IsOpen_def)
  have pb: "has_proof s ?Ab (take 20 (bn_AsByteArray plain_ssl 20 True
      (srp_M plain_ssl sample_N 7 (chars ''BOB'') 5 (int (1 * nat sample_N)) 6 (srp_session_key plain_ssl 0)))) 0"
    by (rule sample_proof [OF len length_M1 [OF plain_ssl_documented]])
      (use len in \<open>simp add: s_def sample_session_def as_new_def proof_bytes_def
        length_M1 [OF plain_ssl_documented, simplified]\<close>)
  have "as_HandleLogonProof sample_env s
      = (Inr True, logged_on sample_env (int (1 * nat sample_N)) (srp_session_key (ae_ssl sample_env) 0) s)"
    by (rule logon_without_password [where Ab = ?Ab and flags = 0])
      (use N st pb in \<open>simp_all add: env plain_ssl_documented le_value_def\<close>)
  then show ?thesis using st by (intro exI [of _ s]) (simp add: env)
qed

end
