(* ===== verification/Auth_Input_Props.thy ===== *)
theory Auth_Input_Props
  imports Auth_Session_Props
begin

text \<open>
  Further properties of the login server's connection: the order of the token check and the
  storing of the key, the creation of accounts through the login name, the loop over the
  packets in the input, and the buffers it reads into and writes from.
\<close>

section \<open>The token\<close>

text \<open>A token behind the proof: its length and its text.\<close>

definition has_token :: "auth_session \<Rightarrow> bytes \<Rightarrow> bool" where
  "has_token s token \<longleftrightarrow> length token < 256 \<and>
     (\<exists>p. length p = 75 \<and> mb_peek (76 + length token) (as_readBuffer s) = Some (p @ [of_nat (length token)] @ token))"

lemma has_token_mem:
  assumes "has_token s token" and "as_readBuffer s' = as_readBuffer s"
  shows "as_mem 75 1 s' = (Inr [of_nat (length token)], s')"
    and "as_mem 76 (length token) s' = (Inr token, s')"
  using assms by (auto simp: has_token_def as_mem_known)

lemma check_token_value:
  assumes pb: "has_proof s A M1 flags" and tk: "has_token s token" and rb: "as_readBuffer s' = as_readBuffer s"
    and need: "flags AND 4 \<noteq> 0 \<or> as_tokenKey s' \<noteq> []"
  shows "as_check_token env s' =
    (Inr (GenerateToken (ae_ssl env) (of_int (ae_time env)) (as_tokenKey s') = atoi (takeWhile (\<lambda>c. c \<noteq> 0) token)),
     s'\<lparr>as_readBuffer := mb_ReadCompleted (1 + length token) (as_readBuffer s')\<rparr>)"
proof -
  have "unat (of_nat (length token) :: uint8) = length token"
    using tk by (simp add: has_token_def unat_of_nat)
  then show ?thesis
    using need has_proof_mem(3) [OF pb rb] has_token_mem [OF tk rb, unfolded One_nat_def]
    by (simp add: as_check_token_def bindE_def)
qed

section \<open>Creating an account\<close>

lemma str_find_first: "63 \<notin> set u \<Longrightarrow> str_find 63 0 (u @ 63 # w) = Some (length u)"
  by (induction u) auto

lemma str_find_Some:
  "str_find c n xs = Some p \<Longrightarrow> n \<le> p \<and> p < length xs \<and> xs ! p = c \<and> (\<forall>i. n \<le> i \<and> i < p \<longrightarrow> xs ! i \<noteq> c)"
proof (induction c n xs arbitrary: p rule: str_find.induct)
  case (2 c n x xs)
  then show ?case
    by (cases p) (auto simp: nth_Cons split: if_splits nat.splits)
qed simp

lemma str_rfind_last: "c \<notin> set r \<Longrightarrow> str_rfind c (xs @ c # r) = Some (length xs)"
proof -
  assume "c \<notin> set r"
  moreover have "c \<notin> set r \<Longrightarrow> str_rfind c r = None" by (induction r) auto
  ultimately show ?thesis by (induction xs) auto
qed

lemma str_rfind_Some:
  "str_rfind c xs = Some e \<Longrightarrow> e < length xs \<and> xs ! e = c \<and> (\<forall>i. e < i \<and> i < length xs \<longrightarrow> xs ! i \<noteq> c)"
proof (induction xs arbitrary: e)
  case (Cons x xs)
  have none: "str_rfind c xs = None \<Longrightarrow> c \<notin> set xs"
    by (induction xs) (auto split: option.splits if_splits)
  from Cons show ?case
    by (auto simp: nth_Cons dest: none split: option.splits if_splits nat.splits) (metis nth_mem none)
qed simp

text \<open>The form of a name that asks for an account.\<close>

definition request_form :: "bytes \<Rightarrow> bytes \<Rightarrow> bytes \<Rightarrow> bool" where
  "request_form login u p \<longleftrightarrow> (\<exists>r. login = [63] @ u @ [63] @ p @ [63] @ r \<and> 63 \<notin> set u \<and> 63 \<notin> set r
     \<and> 2 \<le> length u \<and> p \<noteq> [])"

lemma create_account_form:
  assumes "request_form (as_login s) u p"
  shows "as_create_account env s =
    (case ae_account_id env (map toupper u) of
       Some _ \<Rightarrow> (Inr [WOW_FAIL_INTERNET_GAME_ROOM_WITHOUT_BNET], s)
     | None \<Rightarrow> (Inr [WOW_FAIL_USE_BATTLENET],
         s\<lparr>as_stmts := as_stmts s @ [InsAccount (map toupper u)
              (account_hash (ae_ssl env) (map toupper u) (map toupper p)) [] [], InsRealmCharactersInit]\<rparr>))"
proof -
  obtain r where r: "as_login s = 63 # u @ 63 # p @ 63 # r" "63 \<notin> set u" "63 \<notin> set r" "2 \<le> length u" "p \<noteq> []"
    using assms by (auto simp: request_form_def)
  have find: "str_find 63 1 (as_login s) = Some (length u + 1)"
    using str_find_first [OF r(2), of "p @ 63 # r"] by (simp add: r(1))
  have rfind: "str_rfind 63 (as_login s) = Some (length u + length p + 2)"
    using str_rfind_last [OF r(3), of "63 # u @ 63 # p"] by (simp add: r(1))
  have parts: "str_substr 1 (length u) (as_login s) = u"
    "str_substr (length u + 2) (length p) (as_login s) = p"
    by (simp_all add: str_substr_def r(1))
  have head: "as_login s \<noteq> [] \<and> as_login s ! 0 = 63" by (simp add: r(1))
  have p: "0 < length p" using r(5) by simp
  show ?thesis
    unfolding as_create_account_def find rfind Let_def option.case
    using head r(4) p parts by (simp add: bindE_def as_exec_def split: option.split)
qed

lemma create_account_other:
  assumes "\<nexists>u p. request_form (as_login s) u p"
  shows "as_create_account env s = (Inr [if as_login s \<noteq> [] \<and> hd (as_login s) = 63
    then WOW_FAIL_NO_GAME_ACCOUNT else WOW_FAIL_UNKNOWN_ACCOUNT], s)"
proof (cases "as_login s \<noteq> [] \<and> hd (as_login s) = 63")
  case q: True
  let ?l = "as_login s"
  have False if f: "str_find 63 1 ?l = Some a" "4 \<le> a + 1" and e: "str_rfind 63 ?l = Some e" "a + 1 < e" for a e
  proof -
    note F = str_find_Some [OF f(1)] and E = str_rfind_Some [OF e(1)]
    let ?u = "take (a - 1) (drop 1 ?l)" and ?p = "take (e - a - 1) (drop (a + 1) ?l)" and ?r = "drop (e + 1) ?l"
    have "?l = [?l ! 0] @ drop 1 ?l" using q by (cases ?l) auto
    also have "drop 1 ?l = ?u @ drop a ?l"
      using F by (metis append_take_drop_id drop_drop le_add_diff_inverse2)
    also have "drop a ?l = [63] @ drop (a + 1) ?l"
      using F by (simp add: Cons_nth_drop_Suc [symmetric])
    also have "drop (a + 1) ?l = ?p @ drop e ?l"
      using e(2) append_take_drop_id [of "e - a - 1" "drop (a + 1) ?l"] by simp
    also have "drop e ?l = [63] @ ?r"
      using E by (simp add: Cons_nth_drop_Suc [symmetric])
    finally have l: "?l = [?l ! 0] @ ?u @ [63] @ ?p @ [63] @ ?r" .
    have "63 \<notin> set ?u" using F by (auto simp: in_set_conv_nth)
    moreover have "63 \<notin> set ?r" using E by (auto simp: in_set_conv_nth)
    moreover have "2 \<le> length ?u" "?p \<noteq> []" using f(2) e(2) F E by auto
    moreover have "?l ! 0 = 63" using q hd_conv_nth [of ?l] by simp
    ultimately have "request_form ?l ?u ?p" using l unfolding request_form_def by metis
    with assms show False by blast
  qed
  then show ?thesis
    using q by (auto simp: as_create_account_def Let_def hd_conv_nth split: option.splits) fastforce+
next
  case False
  then show ?thesis by (auto simp: as_create_account_def Let_def hd_conv_nth)
qed

section \<open>The loop over the packets\<close>

text \<open>A challenge in memory, with a name of \<open>n\<close> characters and a zero within or behind the system field.\<close>

definition has_challenge :: "msgbuf \<Rightarrow> bytes \<Rightarrow> bytes \<Rightarrow> bool" where
  "has_challenge rb hdr name \<longleftrightarrow> length hdr = 33 \<and> length name < 256
     \<and> mb_peek (34 + length name) rb = Some (hdr @ [of_nat (length name)] @ name)
     \<and> (\<exists>i. 17 \<le> i \<and> i \<le> 21 \<and> hdr ! i = 0)"

lemma takeWhile_short: "j < length m \<Longrightarrow> m ! j = 0 \<Longrightarrow> length (takeWhile (\<lambda>c. c \<noteq> 0) m) \<le> j"
  by (induction m arbitrary: j) (auto simp: nth_Cons split: nat.splits)

lemma challenge_os:
  assumes "has_challenge (as_readBuffer s) hdr name"
  shows "\<exists>os. as_mem_cstr 17 s = (Inr os, s) \<and> length os \<le> 4"
proof -
  let ?m = "drop (mb_rpos (as_readBuffer s) + 17) (mb_storage (as_readBuffer s))"
  obtain i where i: "17 \<le> i" "i \<le> 21" "hdr ! i = 0" and hdr: "length hdr = 33"
    and peek: "mb_peek (34 + length name) (as_readBuffer s) = Some (hdr @ [of_nat (length name)] @ name)"
    using assms by (auto simp: has_challenge_def)
  from peek have bs: "mb_rpos (as_readBuffer s) + 34 + length name \<le> length (mb_storage (as_readBuffer s))"
    "take (34 + length name) (drop (mb_rpos (as_readBuffer s)) (mb_storage (as_readBuffer s)))
       = hdr @ [of_nat (length name)] @ name"
    by (auto simp: mb_peek_def split: if_splits)
  have "mb_storage (as_readBuffer s) ! (mb_rpos (as_readBuffer s) + i) = (hdr @ [of_nat (length name)] @ name) ! i"
    using i bs(1) unfolding bs(2) [symmetric] by simp
  also have "\<dots> = 0" using i hdr by (simp add: nth_append)
  finally have at: "?m ! (i - 17) = 0" "i - 17 < length ?m"
    using i bs(1) by simp_all
  then have "0 \<in> set ?m" by (metis nth_mem)
  then show ?thesis
    using takeWhile_short [OF at(2,1)] i by (simp add: as_mem_cstr_def Let_def)
qed

lemma has_challenge_mem:
  assumes "has_challenge (as_readBuffer s) hdr name" and "as_readBuffer s' = as_readBuffer s"
  shows "as_mem 33 1 s' = (Inr [of_nat (length name)], s')" and "as_mem 34 (length name) s' = (Inr name, s')"
    and "off + len \<le> 33 \<Longrightarrow> as_mem off len s' = (Inr (take len (drop off hdr)), s')"
  using assms by (auto simp: has_challenge_def as_mem_known)

text \<open>The answer to the challenge of a name that is no account and asks for none.\<close>

lemma challenge_unknown:
  assumes ch: "has_challenge (as_readBuffer s) hdr name" and op: "as_IsOpen s"
    and env: "\<not> ae_ip_banned env" "ae_logonchallenge env name = None" and q: "name = [] \<or> hd name \<noteq> 63"
  shows "\<exists>s'. as_HandleLogonChallenge env s = (Inr True, s') \<and> as_readBuffer s' = as_readBuffer s
    \<and> as_IsOpen s' \<and> as_writeQueue s' = as_writeQueue s @ [queued [0, 0, WOW_FAIL_UNKNOWN_ACCOUNT]]"
proof -
  let ?b = "of_mem_image (ae_big env) (take 2 (drop 11 hdr)) :: uint16"
  let ?s1 = "s\<lparr>as_login := name, as_build := ?b, as_expversion := as_exp_flag ?b\<rparr>"
  have len: "unat (of_nat (length name) :: uint8) = length name"
    using ch by (simp add: has_challenge_def unat_of_nat)
  note mem = has_challenge_mem [OF ch refl, unfolded One_nat_def]
  have ch1: "has_challenge (as_readBuffer ?s1) hdr name" using ch by simp
  obtain os where os: "as_mem_cstr 17 ?s1 = (Inr os, ?s1)" "length os \<le> 4"
    using challenge_os [OF ch1] by blast
  let ?s2 = "?s1\<lparr>as_os := rev os, as_stmts := as_stmts s @ [DelExpiredIpBans]\<rparr>"
  have create: "as_create_account env ?s2 = (Inr [WOW_FAIL_UNKNOWN_ACCOUNT], ?s2)"
    using q by (auto simp: as_create_account_def Let_def hd_conv_nth)
  have "as_IsOpen ?s2" using op by (simp add: as_IsOpen_def)
  then have send: "as_SendPacket [AUTH_LOGON_CHALLENGE, 0, WOW_FAIL_UNKNOWN_ACCOUNT] ?s2
      = (Inr (), ?s2\<lparr>as_writeQueue := as_writeQueue s @ [queued [0, 0, WOW_FAIL_UNKNOWN_ACCOUNT]]\<rparr>)"
    by (simp add: as_SendPacket_queued AUTH_LOGON_CHALLENGE_def)
  have "as_HandleLogonChallenge env s
      = (Inr True, ?s2\<lparr>as_writeQueue := as_writeQueue s @ [queued [0, 0, WOW_FAIL_UNKNOWN_ACCOUNT]]\<rparr>)"
    using mem(3) [of 11 2] os env create send
    by (simp add: as_HandleLogonChallenge_def bindE_def mem(1,2) len as_exec_def)
  then show ?thesis using op by (auto simp: as_IsOpen_def)
qed

lemma ReadCompleted_0: "mb_inv rb \<Longrightarrow> mb_ReadCompleted 0 rb = rb"
  by (simp add: mb_ReadCompleted_def mb_inv_def)

text \<open>One pass over a challenge whose size field makes the packet empty.\<close>

lemma read_pass_empty:
  assumes rb: "mb_inv (as_readBuffer s)" "4 \<le> length (mb_active (as_readBuffer s))"
    and ch: "has_challenge (as_readBuffer s) hdr name" "hdr ! 0 = AUTH_LOGON_CHALLENGE"
    and size: "of_mem_image (ae_big (envs 0)) (take 2 (drop 2 hdr)) = (0xFFFC :: uint16)"
    and pass: "as_HandleLogonChallenge (envs 0) s = (Inr True, s')" "as_readBuffer s' = as_readBuffer s"
  shows "as_read_loop (Suc fuel) envs s = as_read_loop fuel (\<lambda>n. envs (Suc n)) s'"
proof -
  have cmd: "as_mem 0 1 s = (Inr [0], s)"
    using has_challenge_mem(3) [OF ch(1) refl, of 0 1] ch
    by (cases hdr) (auto simp: has_challenge_def AUTH_LOGON_CHALLENGE_def)
  have sz: "as_mem 2 2 s = (Inr (take 2 (drop 2 hdr)), s)"
    using has_challenge_mem(3) [OF ch(1) refl, of 2 2] by simp
  have h: "InitHandlers 0 = Some \<lparr>ah_status = STATUS_CONNECTED, ah_packetSize = 4, ah_handler = as_HandleLogonChallenge\<rparr>"
    by (simp add: InitHandlers_def AUTH_LOGON_CHALLENGE_def AUTH_LOGON_PROOF_def AUTH_RECONNECT_CHALLENGE_def
        AUTH_RECONNECT_PROOF_def REALM_LIST_def XFER_ACCEPT_def XFER_RESUME_def XFER_CANCEL_def)
  have act: "4 \<le> mb_wpos (as_readBuffer s) - mb_rpos (as_readBuffer s)"
    "\<not> mb_wpos (as_readBuffer s) \<le> mb_rpos (as_readBuffer s)"
    using rb by simp_all
  have upd: "s'\<lparr>as_readBuffer := as_readBuffer s\<rparr> = s'"
    using pass(2) by (cases s') simp
  have zero: "(of_nat 4 :: uint16) + 0xFFFC = 0" by simp
  show ?thesis
    using act rb(1) pass zero
    by (simp add: bindE_def cmd [unfolded One_nat_def] sz h size AUTH_LOGON_CHALLENGE_def ReadCompleted_0
        upd del: of_nat_numeral)
qed

text \<open>A packet larger than 4096 bytes is written behind the end of its buffer.\<close>

theorem long_packet_overruns:
  "as_SendPacket p s = (Inl AuthUndefined, s) \<longleftrightarrow> as_IsOpen s \<and> 4096 < length p"
  by (auto simp: as_SendPacket_def bindE_def as_ofUB_def mb_Write_def mb_poke_def mb_new_def vec_resize_def)

text \<open>
  A read may bring 4096 bytes, wherever the write position is: with an unfinished packet in
  the buffer the last of them lie behind its end.
\<close>

theorem read_overruns:
  assumes "length (mb_storage (as_readBuffer s)) = READ_BLOCK_SIZE"
    and "READ_BLOCK_SIZE < mb_wpos (as_readBuffer s) + length data"
  shows "as_ReadHandlerInternal fuel envs False data s = (Inl AuthUndefined, s)"
  using assms by (simp add: as_ReadHandlerInternal_def bindE_def as_ofUB_def mb_poke_def)

text \<open>Whether the session is authenticated makes no difference to the realm list.\<close>

theorem realm_list_ignores_authentication:
  "as_HandleRealmList env (s\<lparr>as_isAuthenticated := x\<rparr>)
     = (case as_HandleRealmList env s of (r, s') \<Rightarrow> (r, s'\<lparr>as_isAuthenticated := x\<rparr>))"
proof -
  have entry: "as_realm_entry env (s\<lparr>as_isAuthenticated := x\<rparr>) a i = as_realm_entry env s a i" for s a i
    by (simp add: as_realm_entry_def Let_def split_def)
  have loop: "as_realm_loop env (s\<lparr>as_isAuthenticated := x\<rparr>) a is pkt n = as_realm_loop env s a is pkt n"
    for s a "is" pkt n
    by (induction "is" arbitrary: pkt n) (simp_all add: entry split: sum.split option.split)
  have send: "as_SendPacket p (s\<lparr>as_isAuthenticated := x\<rparr>)
      = (case as_SendPacket p s of (r, s') \<Rightarrow> (r, s'\<lparr>as_isAuthenticated := x\<rparr>))" for p s
    by (simp add: as_SendPacket_def as_IsOpen_def bindE_def as_ofUB_def split: option.split)
  let ?s = "s\<lparr>as_realmList := rl_UpdateIfNeed (ae_resolve env) (ae_realm_rows env) (ae_time env) (as_realmList s)\<rparr>"
  have comm: "s\<lparr>as_isAuthenticated := x, as_realmList := l\<rparr> = s\<lparr>as_realmList := l, as_isAuthenticated := x\<rparr>" for l
    by simp
  show ?thesis
    unfolding as_HandleRealmList_def Let_def auth_session.select_convs auth_session.update_convs comm loop
    by (simp add: send loop [of ?s] bindE_def split: option.split sum.split prod.split)
qed

section \<open>Properties\<close>

text \<open>
  With a correct password and a token behind the proof, the answer depends on the token
  and so does whether the connection counts as authenticated; but the session key, which is
  what the world server asks for, is stored for the account in either case, before the token
  is looked at.
\<close>

theorem token_checked_after_key:
  assumes pb: "has_proof s Ab M1 flags" and tk: "has_token s token"
    and st: "as_expversion s \<noteq> 0" "as_IsOpen s" "flags AND 4 \<noteq> 0 \<or> as_tokenKey s \<noteq> []"
    and A: "A = bn_SetBinary (ae_ssl env) Ab 32" "\<not> bn_isZero (ae_ssl env) A"
    and M1: "M1 = M1_of env s A (key_of env s A)"
    and valid: "valid \<longleftrightarrow> GenerateToken (ae_ssl env) (of_int (ae_time env)) (as_tokenKey s)
      = atoi (takeWhile (\<lambda>c. c \<noteq> 0) token)"
  shows "fst (as_HandleLogonProof env s) = Inr valid
    \<and> as_isAuthenticated (snd (as_HandleLogonProof env s)) = (valid \<or> as_isAuthenticated s)
    \<and> as_stmts (snd (as_HandleLogonProof env s)) = as_stmts s @
        [UpdLogonProof (bn_AsHexStr (ae_ssl env) (key_of env s A)) (ae_address_string env)
           (GetLocaleByName (as_localizationName s)) (as_os s) (as_login s)]"
proof -
  let ?K = "key_of env s A"
  define s2 where "s2 = (key_stored env ?K s)\<lparr>as_readBuffer := mb_ReadCompleted (1 + length token) (as_readBuffer s)\<rparr>"
  have check: "as_check_token env (key_stored env ?K s) = (Inr valid, s2)"
    using check_token_value [OF pb tk, of "key_stored env ?K s" env] st(3) valid
    by (simp add: key_stored_def s2_def)
  have s2: "as_IsOpen s2" "as_isAuthenticated s2 = as_isAuthenticated s" "as_stmts s2 = as_stmts (key_stored env ?K s)"
    using st(2) by (simp_all add: s2_def key_stored_def as_IsOpen_def)
  have "as_HandleLogonProof env s =
    (if valid then (Inr True, s2\<lparr>as_writeQueue := as_writeQueue s2 @ [queued (proof_packet env (as_expversion s2)
        (srp_M2 (ae_ssl env) A (srp_M (ae_ssl env) (as_N s) (as_g s) (as_login s) (as_s s) A (as_B s) ?K) ?K))],
        as_isAuthenticated := True\<rparr>)
     else (Inr False, s2\<lparr>as_writeQueue := as_writeQueue s2 @
        [queued [AUTH_LOGON_PROOF, WOW_FAIL_UNKNOWN_ACCOUNT, 3, 0]]\<rparr>))"
    unfolding proof_matching [OF pb st(1) A refl M1]
    using proof_packet_size [of env] as_SendPacket_queued [OF s2(1)] by (simp add: bindE_def check)
  then show ?thesis using s2(2,3) by (simp add: key_stored_def)
qed

theorem token_checked_after_key_witness:
  "\<exists>s K. has_token s (chars ''123456'') \<and> as_tokenKey s = chars ''GEZDGNBV''
     \<and> fst (as_HandleLogonProof sample_env s)
         = Inr (GenerateToken plain_ssl 0 (chars ''GEZDGNBV'') = atoi (takeWhile (\<lambda>c. c \<noteq> 0) (chars ''123456'')))
     \<and> as_stmts (snd (as_HandleLogonProof sample_env s)) = [UpdLogonProof K (chars ''10.0.0.1'') 0 [] (chars ''BOB'')]"
proof -
  let ?s0 = "(sample_session [])\<lparr>as_tokenKey := chars ''GEZDGNBV''\<rparr>" and ?Ab = "7 # replicate 31 0 :: uint8 list"
  define M1 where "M1 = M1_of sample_env ?s0 7 (key_of sample_env ?s0 7)"
  let ?p = "proof_bytes ?Ab M1 (replicate 20 0) 0 4" and ?t = "[6] @ chars ''123456''"
  define s where "s = ?s0\<lparr>as_readBuffer := \<lparr>mb_wpos = 82, mb_rpos = 0, mb_storage = ?p @ ?t\<rparr>\<rparr>"
  have env: "ae_ssl sample_env = plain_ssl" "ae_time sample_env = 0" "ae_address_string sample_env = chars ''10.0.0.1''"
    by (simp_all add: sample_env_def)
  have M1: "length M1 = 20"
    unfolding M1_def M1_of_def env by (rule length_M1 [OF plain_ssl_documented])
  then have p: "length ?p = 75" by (simp add: proof_bytes_def)
  have pb: "has_proof s ?Ab M1 4"
    unfolding has_proof_def using M1 p
    by (auto simp: s_def mb_peek_def intro!: exI [of _ "replicate 20 0"] exI [of _ 0])
  have tk: "has_token s (chars ''123456'')"
    unfolding has_token_def using p
    by (auto simp: s_def mb_peek_def chars_def intro!: exI [of _ ?p])
  have A: "7 = bn_SetBinary (ae_ssl sample_env) ?Ab 32" "\<not> bn_isZero (ae_ssl sample_env) 7"
    unfolding env SetBinary_value [OF plain_ssl_documented, of 32 ?Ab, simplified]
    by (simp_all add: le_value_def be_value_append bn_isZero_def plain_ssl_def)
  have same: "M1 = M1_of sample_env s 7 (key_of sample_env s 7)"
    by (simp add: M1_def M1_of_def key_of_def s_def)
  have st: "as_expversion s \<noteq> 0" "as_IsOpen s" "(4 :: uint8) AND 4 \<noteq> 0 \<or> as_tokenKey s \<noteq> []"
    and st': "as_tokenKey s = chars ''GEZDGNBV''" "as_stmts s = []" "as_os s = []" "as_login s = chars ''BOB''"
      "GetLocaleByName (as_localizationName s) = 0"
    by (simp_all add: s_def sample_session_def as_new_def as_IsOpen_def GetLocaleByName_def localeNames_def chars_def)
  show ?thesis
    using token_checked_after_key [OF pb tk st A same refl] tk
    unfolding st' env by (intro exI [of _ s]) (simp add: st')
qed

text \<open>
  The creation of accounts. The name of a challenge that is no account creates one exactly
  if it has the form \<open>?name?password?rest\<close> with a name of two characters or more without question
  mark, a password that is not empty and a rest without question mark, and if the name in capitals is not
  taken; then the account gets the name in capitals and the digest of name and password in
  capitals, and no further check. In every other case nothing is stored, and the answer tells the
  two errors apart.
\<close>

theorem account_creation:
  "(\<forall>u p. request_form (as_login s) u p \<longrightarrow>
      as_create_account env s =
        (if ae_account_id env (map toupper u) \<noteq> None
         then (Inr [WOW_FAIL_INTERNET_GAME_ROOM_WITHOUT_BNET], s)
         else (Inr [WOW_FAIL_USE_BATTLENET], s\<lparr>as_stmts := as_stmts s @ [InsAccount (map toupper u)
            (account_hash (ae_ssl env) (map toupper u) (map toupper p)) [] [], InsRealmCharactersInit]\<rparr>)))
   \<and> ((\<nexists>u p. request_form (as_login s) u p) \<longrightarrow>
      as_create_account env s = (Inr [if as_login s \<noteq> [] \<and> hd (as_login s) = 63
        then WOW_FAIL_NO_GAME_ACCOUNT else WOW_FAIL_UNKNOWN_ACCOUNT], s))"
  using create_account_form create_account_other by (auto split: option.split)

theorem account_creation_witness:
  "request_form (chars ''?al?pw?'') (chars ''al'') (chars ''pw'')
   \<and> as_create_account sample_env ((sample_session [])\<lparr>as_login := chars ''?al?pw?''\<rparr>)
     = (Inr [WOW_FAIL_USE_BATTLENET], (sample_session [])\<lparr>as_login := chars ''?al?pw?'',
         as_stmts := [InsAccount (chars ''AL'') (account_hash plain_ssl (chars ''AL'') (chars ''PW'')) [] [],
           InsRealmCharactersInit]\<rparr>)"
proof -
  have f: "request_form (chars ''?al?pw?'') (chars ''al'') (chars ''pw'')"
    by (simp add: request_form_def chars_def)
  have up: "map toupper (chars ''al'') = chars ''AL''" "map toupper (chars ''pw'') = chars ''PW''"
    by (simp_all add: chars_def toupper_def)
  have env: "ae_account_id sample_env (chars ''AL'') = None" "ae_ssl sample_env = plain_ssl"
    by (simp_all add: sample_env_def chars_def)
  let ?s = "(sample_session [])\<lparr>as_login := chars ''?al?pw?''\<rparr>"
  have st: "as_login ?s = chars ''?al?pw?''" "as_stmts ?s = []" by (simp_all add: sample_session_def as_new_def)
  have "as_create_account sample_env ?s = (if ae_account_id sample_env (map toupper (chars ''al'')) \<noteq> None
         then (Inr [WOW_FAIL_INTERNET_GAME_ROOM_WITHOUT_BNET], ?s)
         else (Inr [WOW_FAIL_USE_BATTLENET], ?s\<lparr>as_stmts := as_stmts ?s @ [InsAccount (map toupper (chars ''al''))
            (account_hash (ae_ssl sample_env) (map toupper (chars ''al'')) (map toupper (chars ''pw''))) [] [],
            InsRealmCharactersInit]\<rparr>))"
    using account_creation [of ?s sample_env, unfolded st(1)] f by blast
  then show ?thesis using f st(2) env unfolding up by simp
qed

text \<open>
  C10. A challenge whose size field is 65532 makes the loop over the input run forever: the size
  is added to the four bytes of the header in sixteen bits, the packet counts as empty, and
  each pass handles it again and queues one more answer. However many passes are allowed, the
  loop has not ended.
\<close>

theorem read_loop_never_ends:
  assumes "mb_inv (as_readBuffer s)" and "4 \<le> length (mb_active (as_readBuffer s))" and "as_IsOpen s"
    and "has_challenge (as_readBuffer s) hdr name" and "hdr ! 0 = AUTH_LOGON_CHALLENGE"
    and "\<forall>i. of_mem_image (ae_big (envs i)) (take 2 (drop 2 hdr)) = (0xFFFC :: uint16)"
    and "\<forall>i. \<not> ae_ip_banned (envs i) \<and> ae_logonchallenge (envs i) name = None"
    and "name = [] \<or> hd name \<noteq> 63"
  shows "\<exists>s'. as_read_loop fuel envs s = (Inl AuthOutOfFuel, s')
    \<and> as_writeQueue s' = as_writeQueue s @ replicate fuel (queued [0, 0, WOW_FAIL_UNKNOWN_ACCOUNT])"
  using assms
proof (induction fuel arbitrary: envs s)
  case 0
  then show ?case by simp
next
  case (Suc fuel)
  have e: "\<not> ae_ip_banned (envs 0)" "ae_logonchallenge (envs 0) name = None" using Suc.prems(7) by simp_all
  obtain s1 where s1: "as_HandleLogonChallenge (envs 0) s = (Inr True, s1)" "as_readBuffer s1 = as_readBuffer s"
    "as_IsOpen s1" "as_writeQueue s1 = as_writeQueue s @ [queued [0, 0, WOW_FAIL_UNKNOWN_ACCOUNT]]"
    using challenge_unknown [OF Suc.prems(4,3) e Suc.prems(8)] by blast
  have pass: "as_read_loop (Suc fuel) envs s = as_read_loop fuel (\<lambda>n. envs (Suc n)) s1"
    using Suc.prems(6) by (intro read_pass_empty [of s hdr name envs, OF Suc.prems(1,2,4,5) _ s1(1,2)]) simp
  have "\<exists>s'. as_read_loop fuel (\<lambda>n. envs (Suc n)) s1 = (Inl AuthOutOfFuel, s')
      \<and> as_writeQueue s' = as_writeQueue s1 @ replicate fuel (queued [0, 0, WOW_FAIL_UNKNOWN_ACCOUNT])"
    using Suc.prems s1(2,3) by (intro Suc.IH) simp_all
  then show ?case unfolding pass using s1(4) by (auto simp: replicate_app_Cons_same)
qed

theorem read_loop_never_ends_witness:
  "\<exists>s'. as_read_loop 1000000 (\<lambda>_. sample_env)
      (sample_session ([0, 0, 0xFC, 0xFF] @ replicate 29 0 @ [3, 69, 86, 69])) = (Inl AuthOutOfFuel, s')
    \<and> length (as_writeQueue s') = 1000000"
proof -
  let ?hdr = "[0, 0, 0xFC, 0xFF] @ replicate 29 0 :: uint8 list" and ?name = "[69, 86, 69] :: uint8 list"
  let ?s = "sample_session (?hdr @ [3] @ ?name)"
  have rb: "as_readBuffer ?s = \<lparr>mb_wpos = 37, mb_rpos = 0, mb_storage = ?hdr @ [3] @ ?name\<rparr>"
    by (simp add: sample_session_def)
  have ch: "has_challenge (as_readBuffer ?s) ?hdr ?name"
    unfolding rb has_challenge_def by (auto simp: mb_peek_def intro!: exI [of _ 17])
  have "mb_inv (as_readBuffer ?s)" "4 \<le> length (mb_active (as_readBuffer ?s))"
    unfolding rb by (simp_all add: mb_inv_def mb_active_def)
  moreover have "as_IsOpen ?s" "as_writeQueue ?s = []" by (simp_all add: sample_session_def as_new_def as_IsOpen_def)
  moreover have "of_mem_image (ae_big sample_env) (take 2 (drop 2 ?hdr)) = (0xFFFC :: uint16)"
    by (simp add: sample_env_def of_mem_image_def)
  ultimately show ?thesis
    using read_loop_never_ends [of ?s ?hdr ?name "\<lambda>_. sample_env" 1000000] ch
    by (auto simp: AUTH_LOGON_CHALLENGE_def sample_env_def chars_def)
qed

end
