(* ===== verification/Group_Sizes.thy ===== *)
theory Group_Sizes
  imports Std_Containers
begin

text \<open>
  What \<^verbatim>\<open>Group\<close> and the dungeon finder share: the size of a party (src/Core/src/server/game/Groups/Group.h),
  the ways to leave a group (Miscellaneous/SharedDefines.h) and the votes a kick needs
  (DungeonFinding/LFGMgr.h).
\<close>

definition MAXGROUPSIZE :: nat where "MAXGROUPSIZE = 5"
definition LFG_GROUP_KICK_VOTES_NEEDED :: nat where "LFG_GROUP_KICK_VOTES_NEEDED = 3"

datatype remove_method = REMOVE_DEFAULT | REMOVE_KICK | REMOVE_LEAVE | REMOVE_KICK_LFG

end
