(* ===== verification/Group.thy ===== *)
theory Group
  imports Message_Buffer Group_Sizes
begin

text \<open>
  Parties and raids: \<^verbatim>\<open>Group\<close> (src/Core/src/server/game/Groups/Group.cpp and Group.h),
  the members with their subgroups, flags and leader, the invitations, the target icons, the
  turn of the looter and the rolls for loot. This theory has the state, the access functions, the
  links to the players and the packets; the rolls are in Group_Rolls, the operations on the
  members in Group_Ops.

  The state holds the group, the online players and the loots as far as the group reads and writes them. Packets,
  database statements and calls into other components (instances, quests, dungeon finder,
  scripts) are appended to \<open>gw_events\<close> in the order of the code. What the code asks other
  components is the environment.
\<close>

section \<open>State\<close>

record member_slot =
  ms_guid :: uint64
  ms_name :: "uint8 list"
  ms_group :: uint8
  ms_flags :: uint8
  ms_roles :: uint8

datatype roll_vote = PASS | NEED | GREED | DISENCHANT | NOT_EMITED_YET | NOT_VALID

record roll =
  ro_itemGUID :: uint64
  ro_itemid :: uint32
  ro_itemRandomPropId :: int32
  ro_itemRandomSuffix :: uint32
  ro_itemCount :: uint8
  ro_playerVote :: "(uint64, roll_vote) omap"
  ro_totalPlayersRolling :: uint8
  ro_totalNeed :: uint8
  ro_totalGreed :: uint8
  ro_totalPass :: uint8
  ro_itemSlot :: uint8
  ro_rollVoteMask :: uint8
  ro_loot :: "uint32 option"

text \<open>A group and a loot are referred to by a number that stands for their address.\<close>

record group =
  gr_memberSlots :: "member_slot list"
  gr_memberMgr :: "uint64 list"
  gr_invitees :: "uint64 list"
  gr_leaderGuid :: uint64
  gr_leaderName :: "uint8 list"
  gr_groupType :: uint8
  gr_dungeonDifficulty :: uint8
  gr_raidDifficulty :: uint8
  gr_bgGroup :: bool
  gr_bfGroup :: bool
  gr_targetIcons :: "uint64 list"
  gr_lootMethod :: uint8
  gr_lootThreshold :: uint8
  gr_looterGuid :: uint64
  gr_masterLooterGuid :: uint64
  gr_RollId :: "roll list"
  gr_subGroupsCounts :: "uint8 list option"
  gr_ref :: uint32
  gr_lowGuid :: uint32
  gr_counter :: uint32
  gr_maxEnchantingLevel :: uint32
  gr_dbStoreId :: uint32

record gplayer =
  gp_name :: "uint8 list"
  gp_group :: "uint32 option"
  gp_subGroup :: uint8
  gp_originalGroup :: "uint32 option"
  gp_originalSubGroup :: uint8
  gp_groupInvite :: "uint32 option"
  gp_groupLeaderFlag :: bool
  gp_level :: uint8
  gp_dungeonDifficulty :: uint8
  gp_raidDifficulty :: uint8
  gp_enchanting :: uint32
  gp_logout :: bool
  gp_alive :: bool
  gp_mapId :: uint32
  gp_instanceId :: uint32

datatype g_event =
    GSend uint64 worldpacket
  | GInsGroup uint32 uint32 uint8 uint32 uint8 "uint64 list" uint8 uint8 uint8 uint32
  | GInsGroupMember uint32 uint32 uint8 uint8 uint8
  | GDelGroupMember uint32
  | GDelGroupMemberAll uint32
  | GDelGroup uint32
  | GDelLfgData uint32
  | GUpdGroupType uint8 uint32
  | GUpdGroupLeader uint32 uint32
  | GUpdGroupDifficulty uint8 uint32
  | GUpdGroupRaidDifficulty uint8 uint32
  | GUpdMemberSubgroup uint8 uint32
  | GUpdMemberFlag uint8 uint32
  | GOnInvite uint64
  | GOnAddMember uint64
  | GOnRemoveMember uint64 remove_method
  | GOnChangeLeader uint64 uint64
  | GOnDisband
  | GSetupLfgMember uint64
  | GConvertInstances uint64 bool
  | GUnbindPermanent
  | GResetInstances uint64 bool
  | GResetGroupInstances bool
  | GRegisterStoreId uint32
  | GLfgLoad
  | GSendUpdateOf uint32
  | GLootList uint64
  | GInstanceValid uint64
  | GHomebind uint64
  | GQuestObjects uint64
  | GPartyFields uint64
  | GForceValues uint64
  | GStatsOutOfRange uint64
  | GSendDifficulty uint64 bool uint8
  | GFreeStoreId uint32
  | GRemoveGroup uint32
  | GAddGroup uint32
  | GVoteAchievement uint64 uint8
  | GRollAchievement uint64 uint32 uint8 bool
  | GDisenchantAchievement uint64
  | GNotifyItemRemoved uint32 uint8
  | GStoreNewItem uint64 uint32
  | GEquipError uint64 uint32
  | GAutoStoreDisenchant uint64 uint32
  | GMailDisenchant uint64 uint32
  | GLootTimer uint32

text \<open>The loot of a corpse or chest, as far as the rolls read and write it.\<close>

record loot_item =
  li_itemid :: uint32
  li_randomSuffix :: uint32
  li_randomPropertyId :: int32
  li_count :: uint8
  li_is_looted :: bool
  li_is_blocked :: bool
  li_freeforall :: bool
  li_is_underthreshold :: bool
  li_follow_loot_rules :: bool

record loot =
  lo_items :: "loot_item list"
  lo_quest_items :: "loot_item list"
  lo_unlootedCount :: uint8

record gworld =
  gw_group :: group
  gw_players :: "uint64 \<Rightarrow> gplayer option"
  gw_loots :: "uint32 \<Rightarrow> loot option"
  gw_drawn :: nat
  gw_disbanded :: bool
  gw_events :: "g_event list"

record g_env =
  ge_newGroupId :: uint32
  ge_newStoreId :: uint32
  ge_playerName :: "uint64 \<Rightarrow> uint8 list option"
  ge_boundInstance :: "uint64 \<Rightarrow> uint32 option"
  ge_lfgFinished :: bool
  ge_lfgDungeon :: uint32
  ge_lfgMapId :: uint32
  ge_near :: "uint64 \<Rightarrow> bool"
  ge_urand :: "nat \<Rightarrow> uint8"
  ge_canStore :: "uint64 \<Rightarrow> uint32 \<Rightarrow> bool"

datatype g_error = GroupUndefined | GroupAssertion

type_synonym 'a gop = "(g_error, 'a, gworld) eff"

definition MAXRAIDSIZE :: nat where "MAXRAIDSIZE = 40"
definition MAX_RAID_SUBGROUPS :: nat where "MAX_RAID_SUBGROUPS = 40 div 5"
definition TARGETICONCOUNT :: nat where "TARGETICONCOUNT = 8"

definition MEMBER_FLAG_ASSISTANT :: uint8 where "MEMBER_FLAG_ASSISTANT = 0x01"
definition MEMBER_FLAG_MAINTANK :: uint8 where "MEMBER_FLAG_MAINTANK = 0x02"
definition MEMBER_FLAG_MAINASSIST :: uint8 where "MEMBER_FLAG_MAINASSIST = 0x04"

definition GROUPTYPE_BGRAID :: uint8 where "GROUPTYPE_BGRAID = 0x03"
definition GROUPTYPE_RAID :: uint8 where "GROUPTYPE_RAID = 0x02"
definition GROUPTYPE_LFG_RESTRICTED :: uint8 where "GROUPTYPE_LFG_RESTRICTED = 0x04"
definition GROUPTYPE_LFG :: uint8 where "GROUPTYPE_LFG = 0x08"

definition SMSG_GROUP_UNINVITE :: uint16 where "SMSG_GROUP_UNINVITE = 0x077"
definition SMSG_GROUP_SET_LEADER :: uint16 where "SMSG_GROUP_SET_LEADER = 0x079"
definition SMSG_GROUP_DESTROYED :: uint16 where "SMSG_GROUP_DESTROYED = 0x07C"
definition SMSG_GROUP_LIST :: uint16 where "SMSG_GROUP_LIST = 0x07D"
definition MSG_RAID_TARGET_UPDATE :: uint16 where "MSG_RAID_TARGET_UPDATE = 0x321"
definition MSG_RAID_READY_CHECK_CONFIRM :: uint16 where "MSG_RAID_READY_CHECK_CONFIRM = 0x3AE"

text \<open>The loot methods and the quality that are named here\<close>

definition FREE_FOR_ALL :: uint8 where "FREE_FOR_ALL = 0"
definition MASTER_LOOT :: uint8 where "MASTER_LOOT = 2"
definition GROUP_LOOT :: uint8 where "GROUP_LOOT = 3"
definition NEED_BEFORE_GREED :: uint8 where "NEED_BEFORE_GREED = 4"
definition ITEM_QUALITY_UNCOMMON :: uint8 where "ITEM_QUALITY_UNCOMMON = 2"

definition gr_new :: "uint32 \<Rightarrow> group" where
  "gr_new ref = \<lparr>gr_memberSlots = [], gr_memberMgr = [], gr_invitees = [], gr_leaderGuid = 0, gr_leaderName = [],
     gr_groupType = 0, gr_dungeonDifficulty = 0, gr_raidDifficulty = 0, gr_bgGroup = False,
     gr_bfGroup = False, gr_targetIcons = replicate TARGETICONCOUNT 0, gr_lootMethod = FREE_FOR_ALL,
     gr_lootThreshold = ITEM_QUALITY_UNCOMMON, gr_looterGuid = 0, gr_masterLooterGuid = 0, gr_RollId = [],
     gr_subGroupsCounts = None, gr_ref = ref, gr_lowGuid = 0, gr_counter = 0, gr_maxEnchantingLevel = 0, gr_dbStoreId = 0\<rparr>"

section \<open>Access\<close>

definition gr_isLFGGroup :: "group \<Rightarrow> bool" where
  "gr_isLFGGroup g \<longleftrightarrow> gr_groupType g AND GROUPTYPE_LFG \<noteq> 0"

definition gr_isRaidGroup :: "group \<Rightarrow> bool" where
  "gr_isRaidGroup g \<longleftrightarrow> gr_groupType g AND GROUPTYPE_RAID \<noteq> 0"

definition gr_isBG :: "group \<Rightarrow> bool" where
  "gr_isBG g \<longleftrightarrow> gr_bgGroup g \<or> gr_bfGroup g"

definition gr_GetMembersCount :: "group \<Rightarrow> nat" where
  "gr_GetMembersCount g = length (gr_memberSlots g)"

definition gr_IsFull :: "group \<Rightarrow> bool" where
  "gr_IsFull g \<longleftrightarrow> (if gr_isRaidGroup g then length (gr_memberSlots g) \<ge> MAXRAIDSIZE
                    else length (gr_memberSlots g) \<ge> MAXGROUPSIZE)"

definition gr_IsCreated :: "group \<Rightarrow> bool" where
  "gr_IsCreated g \<longleftrightarrow> gr_GetMembersCount g > 0"

definition gr_IsLeader :: "uint64 \<Rightarrow> group \<Rightarrow> bool" where
  "gr_IsLeader guid g \<longleftrightarrow> gr_leaderGuid g = guid"

text \<open>\<^verbatim>\<open>_getMemberCSlot\<close> and \<^verbatim>\<open>_getMemberWSlot\<close>: the first slot of the player\<close>

definition gr_slot :: "uint64 \<Rightarrow> group \<Rightarrow> member_slot option" where
  "gr_slot guid g = find (\<lambda>m. ms_guid m = guid) (gr_memberSlots g)"

text \<open>A write through \<^verbatim>\<open>_getMemberWSlot\<close>, and \<^verbatim>\<open>m_memberSlots.erase(slot)\<close>\<close>

fun upd_slot :: "uint64 \<Rightarrow> (member_slot \<Rightarrow> member_slot) \<Rightarrow> member_slot list \<Rightarrow> member_slot list" where
  "upd_slot guid f [] = []"
| "upd_slot guid f (m # ms) = (if ms_guid m = guid then f m # ms else m # upd_slot guid f ms)"

fun del_slot :: "uint64 \<Rightarrow> member_slot list \<Rightarrow> member_slot list" where
  "del_slot guid [] = []"
| "del_slot guid (m # ms) = (if ms_guid m = guid then ms else m # del_slot guid ms)"

definition gr_IsMember :: "uint64 \<Rightarrow> group \<Rightarrow> bool" where
  "gr_IsMember guid g \<longleftrightarrow> gr_slot guid g \<noteq> None"

definition gr_GetMemberGUID :: "uint8 list \<Rightarrow> group \<Rightarrow> uint64" where
  "gr_GetMemberGUID name g =
     (case find (\<lambda>m. ms_name m = name) (gr_memberSlots g) of None \<Rightarrow> 0 | Some m \<Rightarrow> ms_guid m)"

definition gr_IsAssistant :: "uint64 \<Rightarrow> group \<Rightarrow> bool" where
  "gr_IsAssistant guid g =
     (case gr_slot guid g of None \<Rightarrow> False | Some m \<Rightarrow> ms_flags m AND MEMBER_FLAG_ASSISTANT \<noteq> 0)"

definition gr_SameSubGroup :: "uint64 \<Rightarrow> uint64 \<Rightarrow> group \<Rightarrow> bool" where
  "gr_SameSubGroup guid1 guid2 g =
     (case (gr_slot guid1 g, gr_slot guid2 g) of
        (Some m1, Some m2) \<Rightarrow> ms_group m1 = ms_group m2 | _ \<Rightarrow> False)"

definition gr_GetMemberGroup :: "uint64 \<Rightarrow> group \<Rightarrow> uint8" where
  "gr_GetMemberGroup guid g =
     (case gr_slot guid g of None \<Rightarrow> of_nat (MAX_RAID_SUBGROUPS + 1) | Some m \<Rightarrow> ms_group m)"

definition gr_GetDifficulty :: "bool \<Rightarrow> group \<Rightarrow> uint8" where
  "gr_GetDifficulty isRaid g = (if isRaid then gr_raidDifficulty g else gr_dungeonDifficulty g)"

definition gr_isRollLootActive :: "group \<Rightarrow> bool" where
  "gr_isRollLootActive g \<longleftrightarrow> gr_RollId g \<noteq> []"

text \<open>\<^verbatim>\<open>HasFreeSlotSubGroup\<close> reads the counter without a check of the index.\<close>

definition gr_HasFreeSlotSubGroup :: "uint8 \<Rightarrow> group \<Rightarrow> g_error + bool" where
  "gr_HasFreeSlotSubGroup subgroup g =
     (case gr_subGroupsCounts g of
        None \<Rightarrow> Inr False
      | Some cs \<Rightarrow> if unat subgroup < length cs then Inr (unat (cs ! unat subgroup) < MAXGROUPSIZE)
                   else Inl GroupUndefined)"

definition gr_GetInvited :: "uint64 \<Rightarrow> group \<Rightarrow> bool" where
  "gr_GetInvited guid g \<longleftrightarrow> guid \<in> set (gr_invitees g)"

section \<open>Effects\<close>

definition g_emit :: "g_event \<Rightarrow> unit gop" where
  "g_emit e = modE (\<lambda>w. w\<lparr>gw_events := gw_events w @ [e]\<rparr>)"

definition g_upd :: "(group \<Rightarrow> group) \<Rightarrow> unit gop" where
  "g_upd f = modE (\<lambda>w. w\<lparr>gw_group := f (gw_group w)\<rparr>)"

definition g_get :: "(group \<Rightarrow> 'a) \<Rightarrow> 'a gop" where
  "g_get f = getE (\<lambda>w. f (gw_group w))"

definition g_when :: "bool \<Rightarrow> unit gop \<Rightarrow> unit gop" where
  "g_when b m = (if b then m else ret ())"

text \<open>\<^verbatim>\<open>ObjectAccessor::FindPlayer\<close>, and a write to the player\<close>

definition g_FindPlayer :: "uint64 \<Rightarrow> gplayer option gop" where
  "g_FindPlayer guid = getE (\<lambda>w. gw_players w guid)"

definition g_player :: "uint64 \<Rightarrow> (gplayer \<Rightarrow> gplayer) \<Rightarrow> unit gop" where
  "g_player guid f = modE (\<lambda>w. w\<lparr>gw_players := (gw_players w)(guid := map_option f (gw_players w guid))\<rparr>)"

definition g_ifOnline :: "uint64 \<Rightarrow> (gplayer \<Rightarrow> unit gop) \<Rightarrow> unit gop" where
  "g_ifOnline guid f = bindE (g_FindPlayer guid) (\<lambda>p. case p of None \<Rightarrow> ret () | Some p \<Rightarrow> f p)"

text \<open>
  The references between players and groups (src/Core/src/server/game/Entities/Player/Player.cpp,
  GroupReference.cpp): linking to this group puts the player in front of its list of references,
  unlinking takes him out. Links to other groups only change the player.
\<close>

text \<open>\<^verbatim>\<open>ObjectGuid::GetCounter\<close> of a player: the low half\<close>

definition guid_counter :: "uint64 \<Rightarrow> uint32" where
  "guid_counter guid = ucast guid"

definition gr_LinkMember :: "uint64 \<Rightarrow> group \<Rightarrow> group" where
  "gr_LinkMember guid g = g\<lparr>gr_memberMgr := guid # gr_memberMgr g\<rparr>"

definition gr_unlink :: "uint64 \<Rightarrow> group \<Rightarrow> group" where
  "gr_unlink guid g = g\<lparr>gr_memberMgr := remove1 guid (gr_memberMgr g)\<rparr>"

text \<open>\<^verbatim>\<open>m_group.unlink()\<close> and \<^verbatim>\<open>m_group.link(group, this)\<close>, which unlinks first\<close>

definition g_unlink_group :: "uint64 \<Rightarrow> unit gop" where
  "g_unlink_group guid w =
     (case gw_players w guid of
        None \<Rightarrow> ret () w
      | Some p \<Rightarrow>
          bindE (g_upd (if gp_group p = Some (gr_ref (gw_group w)) then gr_unlink guid else id)) (\<lambda>_.
          g_player guid (\<lambda>p. p\<lparr>gp_group := None\<rparr>)) w)"

definition g_link_group :: "uint64 \<Rightarrow> uint32 \<Rightarrow> uint8 \<Rightarrow> unit gop" where
  "g_link_group guid grp subgroup =
     bindE (g_unlink_group guid) (\<lambda>_.
     bindE (\<lambda>w. g_upd (if grp = gr_ref (gw_group w) then gr_LinkMember guid else id) w) (\<lambda>_.
     g_player guid (\<lambda>p. p\<lparr>gp_group := Some grp, gp_subGroup := subgroup\<rparr>)))"

definition g_unlink_original :: "uint64 \<Rightarrow> unit gop" where
  "g_unlink_original guid w =
     (case gw_players w guid of
        None \<Rightarrow> ret () w
      | Some p \<Rightarrow>
          bindE (g_upd (if gp_originalGroup p = Some (gr_ref (gw_group w)) then gr_unlink guid else id)) (\<lambda>_.
          g_player guid (\<lambda>p. p\<lparr>gp_originalGroup := None\<rparr>)) w)"

definition g_link_original :: "uint64 \<Rightarrow> uint32 \<Rightarrow> uint8 \<Rightarrow> unit gop" where
  "g_link_original guid grp subgroup =
     bindE (g_unlink_original guid) (\<lambda>_.
     bindE (\<lambda>w. g_upd (if grp = gr_ref (gw_group w) then gr_LinkMember guid else id) w) (\<lambda>_.
     g_player guid (\<lambda>p. p\<lparr>gp_originalGroup := Some grp, gp_originalSubGroup := subgroup\<rparr>)))"

definition pl_SetGroup :: "uint64 \<Rightarrow> (uint32 \<times> uint8) option \<Rightarrow> unit gop" where
  "pl_SetGroup guid grp =
     (case grp of None \<Rightarrow> g_unlink_group guid | Some (grp, sub) \<Rightarrow> g_link_group guid grp sub)"

definition pl_SetOriginalGroup :: "uint64 \<Rightarrow> (uint32 \<times> uint8) option \<Rightarrow> unit gop" where
  "pl_SetOriginalGroup guid grp =
     (case grp of None \<Rightarrow> g_unlink_original guid | Some (grp, sub) \<Rightarrow> g_link_original guid grp sub)"

definition pl_SetBattlegroundOrBattlefieldRaid :: "uint64 \<Rightarrow> uint32 \<Rightarrow> uint8 \<Rightarrow> unit gop" where
  "pl_SetBattlegroundOrBattlefieldRaid guid grp sub =
     bindE (g_ifOnline guid (\<lambda>p. pl_SetOriginalGroup guid (map_option (\<lambda>o'. (o', gp_subGroup p)) (gp_group p)))) (\<lambda>_.
     bindE (g_unlink_group guid) (\<lambda>_. g_link_group guid grp sub))"

definition pl_RemoveFromBattlegroundOrBattlefieldRaid :: "uint64 \<Rightarrow> unit gop" where
  "pl_RemoveFromBattlegroundOrBattlefieldRaid guid =
     bindE (g_unlink_group guid) (\<lambda>_.
     bindE (g_ifOnline guid (\<lambda>p. case gp_originalGroup p of
              None \<Rightarrow> ret () | Some o' \<Rightarrow> g_link_group guid o' (gp_originalSubGroup p))) (\<lambda>_.
     pl_SetOriginalGroup guid None))"

text \<open>The counters of the subgroups: the index is not checked.\<close>

definition gr_SubGroupCounterIncrease :: "uint8 \<Rightarrow> unit gop" where
  "gr_SubGroupCounterIncrease subgroup w =
     (case gr_subGroupsCounts (gw_group w) of
        None \<Rightarrow> ret () w
      | Some cs \<Rightarrow>
          if unat subgroup < length cs
          then g_upd (\<lambda>g. g\<lparr>gr_subGroupsCounts := Some (cs[unat subgroup := cs ! unat subgroup + 1])\<rparr>) w
          else throw GroupUndefined w)"

definition gr_SubGroupCounterDecrease :: "uint8 \<Rightarrow> unit gop" where
  "gr_SubGroupCounterDecrease subgroup w =
     (case gr_subGroupsCounts (gw_group w) of
        None \<Rightarrow> ret () w
      | Some cs \<Rightarrow>
          if unat subgroup < length cs
          then g_upd (\<lambda>g. g\<lparr>gr_subGroupsCounts := Some (cs[unat subgroup := cs ! unat subgroup - 1])\<rparr>) w
          else throw GroupUndefined w)"

text \<open>\<^verbatim>\<open>_initRaidSubGroupsCounter\<close>: cleared, then increased for every member\<close>

definition gr_initRaidSubGroupsCounter :: "unit gop" where
  "gr_initRaidSubGroupsCounter =
     bindE (g_upd (\<lambda>g. g\<lparr>gr_subGroupsCounts := Some (replicate MAX_RAID_SUBGROUPS 0)\<rparr>)) (\<lambda>_.
     bindE (g_get gr_memberSlots) (forE (\<lambda>m. gr_SubGroupCounterIncrease (ms_group m))))"

section \<open>Packets\<close>

definition g_send :: "uint64 \<Rightarrow> uint16 \<Rightarrow> uint8 list \<Rightarrow> unit gop" where
  "g_send guid opcode bs = g_emit (GSend guid (packet_of opcode bs))"

definition gr_GetGUID :: "group \<Rightarrow> uint64" where
  "gr_GetGUID g = (if gr_lowGuid g = 0 then 0 else ucast (gr_lowGuid g) OR push_bit 48 0x1F50)"

definition gr_guid_bytes :: "group \<Rightarrow> uint8 list" where
  "gr_guid_bytes g = le_bytes 8 (gr_GetGUID g)"

text \<open>One other member in the list of the group.\<close>

definition gr_member_bytes :: "(uint64 \<Rightarrow> gplayer option) \<Rightarrow> group \<Rightarrow> member_slot \<Rightarrow> uint8 list" where
  "gr_member_bytes players g m =
     (let online = (case players (ms_guid m) of
            None \<Rightarrow> (0 :: uint8)
          | Some p \<Rightarrow> (if gp_logout p then 0 else 1));
          online = online OR (if gr_isBG g then 0x02 else 0)
      in ms_name m @ [0] @ le_bytes 8 (ms_guid m) @ [online, ms_group m, ms_flags m, ms_roles m])"

definition gr_list_bytes :: "g_env \<Rightarrow> (uint64 \<Rightarrow> gplayer option) \<Rightarrow> group \<Rightarrow> member_slot \<Rightarrow> uint8 list" where
  "gr_list_bytes env players g slot =
     [gr_groupType g, ms_group slot, ms_flags slot, ms_roles slot]
     @ (if gr_isLFGGroup g then [if ge_lfgFinished env then 2 else 0] @ le_bytes 4 (ge_lfgDungeon env) else [])
     @ gr_guid_bytes g @ le_bytes 4 (gr_counter g) @ le_bytes 4 (of_nat (gr_GetMembersCount g) - 1 :: uint32)
     @ concat (map (gr_member_bytes players g) (filter (\<lambda>m. ms_guid m \<noteq> ms_guid slot) (gr_memberSlots g)))
     @ le_bytes 8 (gr_leaderGuid g)
     @ (if gr_GetMembersCount g \<noteq> 1
        then [gr_lootMethod g] @ le_bytes 8 (if gr_lootMethod g = MASTER_LOOT then gr_masterLooterGuid g else 0)
             @ [gr_lootThreshold g, gr_dungeonDifficulty g, gr_raidDifficulty g,
                if gr_raidDifficulty g \<ge> 2 then 1 else 0]
        else [])"

definition gr_SendUpdateToPlayer :: "g_env \<Rightarrow> uint64 \<Rightarrow> member_slot option \<Rightarrow> unit gop" where
  "gr_SendUpdateToPlayer env playerGUID slot w =
     (case gw_players w playerGUID of
        None \<Rightarrow> ret () w
      | Some p \<Rightarrow>
          if gp_group p \<noteq> Some (gr_ref (gw_group w)) then ret () w
          else
            case (case slot of None \<Rightarrow> gr_slot playerGUID (gw_group w) | Some m \<Rightarrow> Some m) of
              None \<Rightarrow> ret () w
            | Some m \<Rightarrow>
                let bs = gr_list_bytes env (gw_players w) (gw_group w) m
                in bindE (g_upd (\<lambda>g. g\<lparr>gr_counter := gr_counter g + 1\<rparr>)) (\<lambda>_.
                   g_send playerGUID SMSG_GROUP_LIST bs) w)"

definition gr_SendUpdate :: "g_env \<Rightarrow> unit gop" where
  "gr_SendUpdate env =
     bindE (g_get gr_memberSlots) (forE (\<lambda>m. gr_SendUpdateToPlayer env (ms_guid m) (Some m)))"

text \<open>The packet that tells a player that he has no group.\<close>

definition gr_empty_list :: "group \<Rightarrow> uint8 list" where
  "gr_empty_list g = [0x10, 0, 0, 0] @ gr_guid_bytes g @ le_bytes 4 (gr_counter g)
     @ le_bytes 4 (0 :: uint32) @ le_bytes 8 (0 :: uint64)"

definition gr_BroadcastPacket :: "uint16 \<Rightarrow> uint8 list \<Rightarrow> bool \<Rightarrow> uint8 option \<Rightarrow> uint64 \<Rightarrow> unit gop" where
  "gr_BroadcastPacket opcode bs ignorePlayersInBGRaid sub ignoredPlayer =
     bindE (g_get gr_memberMgr) (forE (\<lambda>guid w.
       case gw_players w guid of
         None \<Rightarrow> ret () w
       | Some p \<Rightarrow>
           if (ignoredPlayer \<noteq> 0 \<and> guid = ignoredPlayer)
              \<or> (ignorePlayersInBGRaid \<and> gp_group p \<noteq> Some (gr_ref (gw_group w)))
           then ret () w
           else
             let itrSub = (if gp_group p = Some (gr_ref (gw_group w)) then gp_subGroup p else gp_originalSubGroup p)
             in g_when (case sub of None \<Rightarrow> True | Some n \<Rightarrow> itrSub = n) (g_send guid opcode bs) w))"

definition gr_BroadcastReadyCheck :: "uint8 list \<Rightarrow> unit gop" where
  "gr_BroadcastReadyCheck bs =
     bindE (g_get gr_memberMgr) (forE (\<lambda>guid w.
       g_when (gw_players w guid \<noteq> None \<and> (gr_IsLeader guid (gw_group w) \<or> gr_IsAssistant guid (gw_group w)))
         (g_send guid MSG_RAID_READY_CHECK_CONFIRM bs) w))"

definition gr_OfflineReadyCheck :: "unit gop" where
  "gr_OfflineReadyCheck =
     bindE (g_get gr_memberSlots) (forE (\<lambda>m.
       bindE (g_FindPlayer (ms_guid m)) (\<lambda>p.
         g_when (p = None) (gr_BroadcastReadyCheck (le_bytes 8 (ms_guid m) @ [0])))))"

definition gr_BroadcastGroupUpdate :: "unit gop" where
  "gr_BroadcastGroupUpdate =
     bindE (g_get gr_memberSlots) (forE (\<lambda>m. g_ifOnline (ms_guid m) (\<lambda>_. g_emit (GForceValues (ms_guid m)))))"

end
