(* ===== verification/Group_Rolls.thy ===== *)
theory Group_Rolls
  imports Group
begin

text \<open>
  The rolls for loot of a group (src/Core/src/server/game/Groups/Group.cpp): the votes, the
  count of the votes and the hand-over of the item, the start of the rolls when a corpse is
  looted. A roll is referred to by its place in \<^verbatim>\<open>RollId\<close>. The dice are the environment's
  sequence \<open>ge_urand\<close>, of which \<open>gw_drawn\<close> numbers have been used.
\<close>

definition ROLL_PASS :: uint8 where "ROLL_PASS = 0"
definition ROLL_NEED :: uint8 where "ROLL_NEED = 1"
definition ROLL_GREED :: uint8 where "ROLL_GREED = 2"
definition ROLL_DISENCHANT :: uint8 where "ROLL_DISENCHANT = 3"
definition MAX_ROLL_TYPE :: uint8 where "MAX_ROLL_TYPE = 4"

definition ROLL_FLAG_TYPE_NEED :: uint8 where "ROLL_FLAG_TYPE_NEED = 0x02"
definition ROLL_FLAG_TYPE_DISENCHANT :: uint8 where "ROLL_FLAG_TYPE_DISENCHANT = 0x08"
definition ROLL_ALL_TYPE_NO_DISENCHANT :: uint8 where "ROLL_ALL_TYPE_NO_DISENCHANT = 0x07"

definition SMSG_LOOT_ALL_PASSED :: uint16 where "SMSG_LOOT_ALL_PASSED = 0x29E"
definition SMSG_LOOT_ROLL_WON :: uint16 where "SMSG_LOOT_ROLL_WON = 0x29F"
definition SMSG_LOOT_START_ROLL :: uint16 where "SMSG_LOOT_START_ROLL = 0x2A1"
definition SMSG_LOOT_ROLL :: uint16 where "SMSG_LOOT_ROLL = 0x2A2"

text \<open>\<^verbatim>\<open>RollVote\<close> as a number, in the order of the enumeration\<close>

fun vote_code :: "roll_vote \<Rightarrow> uint8" where
  "vote_code PASS = 0"
| "vote_code NEED = 1"
| "vote_code GREED = 2"
| "vote_code DISENCHANT = 3"
| "vote_code NOT_EMITED_YET = 4"
| "vote_code NOT_VALID = 5"

definition ro_new :: "uint64 \<Rightarrow> loot_item \<Rightarrow> roll" where
  "ro_new guid li = \<lparr>ro_itemGUID = guid, ro_itemid = li_itemid li, ro_itemRandomPropId = li_randomPropertyId li,
     ro_itemRandomSuffix = li_randomSuffix li, ro_itemCount = li_count li, ro_playerVote = [],
     ro_totalPlayersRolling = 0, ro_totalNeed = 0, ro_totalGreed = 0, ro_totalPass = 0, ro_itemSlot = 0,
     ro_rollVoteMask = ROLL_ALL_TYPE_NO_DISENCHANT, ro_loot = None\<rparr>"

section \<open>Packets\<close>

text \<open>To the online players of a roll whose vote satisfies the condition.\<close>

definition ro_send :: "(roll_vote \<Rightarrow> bool) \<Rightarrow> uint16 \<Rightarrow> uint8 list \<Rightarrow> roll \<Rightarrow> unit gop" where
  "ro_send P opcode bs r =
     forE (\<lambda>(guid, vote). g_ifOnline guid (\<lambda>_. g_when (P vote) (g_send guid opcode bs))) (ro_playerVote r)"

definition start_roll_bytes :: "uint32 \<Rightarrow> uint32 \<Rightarrow> uint8 \<Rightarrow> roll \<Rightarrow> uint8 list" where
  "start_roll_bytes countDown mapid voteMask r =
     le_bytes 8 (ro_itemGUID r) @ le_bytes 4 mapid @ le_bytes 4 (ucast (ro_itemSlot r) :: uint32)
     @ le_bytes 4 (ro_itemid r) @ le_bytes 4 (ro_itemRandomSuffix r) @ le_bytes 4 (ro_itemRandomPropId r)
     @ le_bytes 4 (ucast (ro_itemCount r) :: uint32) @ le_bytes 4 countDown @ [voteMask]"

definition gr_SendLootStartRoll :: "uint32 \<Rightarrow> uint32 \<Rightarrow> roll \<Rightarrow> unit gop" where
  "gr_SendLootStartRoll countDown mapid r =
     ro_send (\<lambda>v. v = NOT_EMITED_YET) SMSG_LOOT_START_ROLL (start_roll_bytes countDown mapid (ro_rollVoteMask r) r) r"

definition gr_SendLootStartRollToPlayer :: "uint32 \<Rightarrow> uint32 \<Rightarrow> uint64 \<Rightarrow> bool \<Rightarrow> roll \<Rightarrow> unit gop" where
  "gr_SendLootStartRollToPlayer countDown mapId p canNeed r =
     g_send p SMSG_LOOT_START_ROLL (start_roll_bytes countDown mapId
       (if \<not> canNeed then ro_rollVoteMask r AND NOT ROLL_FLAG_TYPE_NEED else ro_rollVoteMask r) r)"

definition gr_SendLootRoll :: "uint64 \<Rightarrow> uint64 \<Rightarrow> uint8 \<Rightarrow> uint8 \<Rightarrow> roll \<Rightarrow> unit gop" where
  "gr_SendLootRoll sourceGuid targetGuid rollNumber rollType r =
     ro_send (\<lambda>v. v \<noteq> NOT_VALID) SMSG_LOOT_ROLL
       (le_bytes 8 sourceGuid @ le_bytes 4 (ucast (ro_itemSlot r) :: uint32) @ le_bytes 8 targetGuid
        @ le_bytes 4 (ro_itemid r) @ le_bytes 4 (ro_itemRandomSuffix r) @ le_bytes 4 (ro_itemRandomPropId r)
        @ [rollNumber, rollType, 0]) r"

definition gr_SendLootRollWon :: "uint64 \<Rightarrow> uint64 \<Rightarrow> uint8 \<Rightarrow> uint8 \<Rightarrow> roll \<Rightarrow> unit gop" where
  "gr_SendLootRollWon sourceGuid targetGuid rollNumber rollType r =
     ro_send (\<lambda>v. v \<noteq> NOT_VALID) SMSG_LOOT_ROLL_WON
       (le_bytes 8 sourceGuid @ le_bytes 4 (ucast (ro_itemSlot r) :: uint32) @ le_bytes 4 (ro_itemid r)
        @ le_bytes 4 (ro_itemRandomSuffix r) @ le_bytes 4 (ro_itemRandomPropId r) @ le_bytes 8 targetGuid
        @ [rollNumber, rollType]) r"

definition gr_SendLootAllPassed :: "roll \<Rightarrow> unit gop" where
  "gr_SendLootAllPassed r =
     ro_send (\<lambda>v. v \<noteq> NOT_VALID) SMSG_LOOT_ALL_PASSED
       (le_bytes 8 (ro_itemGUID r) @ le_bytes 4 (ucast (ro_itemSlot r) :: uint32) @ le_bytes 4 (ro_itemid r)
        @ le_bytes 4 (ro_itemRandomPropId r) @ le_bytes 4 (ro_itemRandomSuffix r)) r"

section \<open>The item\<close>

text \<open>
  The item of a roll: the slots behind the items of the loot are those of its quest items. A slot
  behind both lists is outside the vector.
\<close>

definition lo_item :: "uint8 \<Rightarrow> loot \<Rightarrow> loot_item option" where
  "lo_item slot l =
     (let n = length (lo_items l)
      in if unat slot \<ge> n
         then if unat slot - n < length (lo_quest_items l) then Some (lo_quest_items l ! (unat slot - n)) else None
         else Some (lo_items l ! unat slot))"

definition lo_upd_item :: "uint8 \<Rightarrow> (loot_item \<Rightarrow> loot_item) \<Rightarrow> loot \<Rightarrow> loot" where
  "lo_upd_item slot f l =
     (let n = length (lo_items l)
      in if unat slot \<ge> n
         then l\<lparr>lo_quest_items := (lo_quest_items l)[unat slot - n := f (lo_quest_items l ! (unat slot - n))]\<rparr>
         else l\<lparr>lo_items := (lo_items l)[unat slot := f (lo_items l ! unat slot)]\<rparr>)"

definition g_loot :: "uint32 \<Rightarrow> (loot \<Rightarrow> loot) \<Rightarrow> unit gop" where
  "g_loot k f = modE (\<lambda>w. w\<lparr>gw_loots := (gw_loots w)(k := map_option f (gw_loots w k))\<rparr>)"

text \<open>The item must be there: a write to it otherwise is outside the vector.\<close>

definition g_item :: "uint32 \<Rightarrow> uint8 \<Rightarrow> (loot_item \<Rightarrow> loot_item) \<Rightarrow> unit gop" where
  "g_item k slot f w =
     (case Option.bind (gw_loots w k) (lo_item slot) of
        None \<Rightarrow> throw GroupUndefined w
      | Some _ \<Rightarrow> g_loot k (lo_upd_item slot f) w)"

definition item_taken :: "uint32 \<Rightarrow> uint8 \<Rightarrow> unit gop" where
  "item_taken k slot =
     bindE (g_item k slot (\<lambda>i. i\<lparr>li_is_looted := True\<rparr>)) (\<lambda>_.
     bindE (g_emit (GNotifyItemRemoved k slot)) (\<lambda>_.
     g_loot k (\<lambda>l. l\<lparr>lo_unlootedCount := lo_unlootedCount l - 1\<rparr>)))"

text \<open>The winner gets the item, or the item is free for everybody when he cannot store it.\<close>

definition store_item :: "g_env \<Rightarrow> uint64 \<Rightarrow> uint32 \<Rightarrow> roll \<Rightarrow> unit gop" where
  "store_item env guid k r =
     (if ge_canStore env guid (ro_itemid r)
      then bindE (item_taken k (ro_itemSlot r)) (\<lambda>_. g_emit (GStoreNewItem guid (ro_itemid r)))
      else bindE (g_item k (ro_itemSlot r) (\<lambda>i. i\<lparr>li_is_blocked := False\<rparr>)) (\<lambda>_.
           g_emit (GEquipError guid (ro_itemid r))))"

definition disenchant_item :: "g_env \<Rightarrow> uint64 \<Rightarrow> uint32 \<Rightarrow> roll \<Rightarrow> unit gop" where
  "disenchant_item env guid k r =
     bindE (item_taken k (ro_itemSlot r)) (\<lambda>_.
     bindE (g_emit (GDisenchantAchievement guid)) (\<lambda>_.
     g_emit (if ge_canStore env guid (ro_itemid r) then GAutoStoreDisenchant guid (ro_itemid r)
             else GMailDisenchant guid (ro_itemid r))))"

section \<open>The count\<close>

definition g_urand :: "g_env \<Rightarrow> uint8 gop" where
  "g_urand env w = (Inr (ge_urand env (gw_drawn w)), w\<lparr>gw_drawn := gw_drawn w + 1\<rparr>)"

text \<open>
  The loop over the votes: a number for each that counts, the first highest number wins. The
  result is the winner, his number and his vote.
\<close>

fun roll_loop ::
  "g_env \<Rightarrow> (roll_vote \<Rightarrow> bool) \<Rightarrow> roll \<Rightarrow> (uint64 \<times> roll_vote) list \<Rightarrow> uint64 \<times> uint8 \<times> roll_vote
   \<Rightarrow> (uint64 \<times> uint8 \<times> roll_vote) gop" where
  "roll_loop env P r [] best = ret best"
| "roll_loop env P r ((guid, vote) # vs) best =
     (if \<not> P vote then roll_loop env P r vs best
      else
        bindE (g_urand env) (\<lambda>randomN.
        bindE (gr_SendLootRoll 0 guid randomN (vote_code vote) r) (\<lambda>_.
        roll_loop env P r vs (if fst (snd best) < randomN then (guid, randomN, vote) else best))))"

definition erase_at :: "nat \<Rightarrow> 'a list \<Rightarrow> 'a list" where
  "erase_at i xs = take i xs @ drop (Suc i) xs"

text \<open>The numbers are drawn, the winner gets the item or everybody may take it.\<close>

definition decide_roll :: "g_env \<Rightarrow> roll \<Rightarrow> unit gop" where
  "decide_roll env r =
     (case ro_loot r of
          None \<Rightarrow> ret ()
        | Some k \<Rightarrow>
            if ro_totalNeed r > 0
            then
              if ro_playerVote r \<noteq> []
              then
                bindE (roll_loop env (\<lambda>v. v = NEED) r (ro_playerVote r) (fst (hd (ro_playerVote r)), 0, NOT_VALID))
                  (\<lambda>(maxguid, maxresul, _).
                bindE (gr_SendLootRollWon 0 maxguid maxresul ROLL_NEED r) (\<lambda>_.
                g_ifOnline maxguid (\<lambda>_.
                  bindE (g_emit (GRollAchievement maxguid (ro_itemid r) maxresul True)) (\<lambda>_.
                  store_item env maxguid k r))))
              else ret ()
            else if ro_totalGreed r > 0
            then
              if ro_playerVote r \<noteq> []
              then
                bindE (roll_loop env (\<lambda>v. v = GREED \<or> v = DISENCHANT) r (ro_playerVote r)
                         (fst (hd (ro_playerVote r)), 0, NOT_VALID)) (\<lambda>(maxguid, maxresul, rollvote).
                bindE (gr_SendLootRollWon 0 maxguid maxresul (vote_code rollvote) r) (\<lambda>_.
                g_ifOnline maxguid (\<lambda>_.
                  bindE (g_emit (GRollAchievement maxguid (ro_itemid r) maxresul False)) (\<lambda>_.
                  if rollvote = GREED then store_item env maxguid k r
                  else if rollvote = DISENCHANT then disenchant_item env maxguid k r
                  else ret ()))))
              else ret ()
            else
              bindE (gr_SendLootAllPassed r) (\<lambda>_.
              g_item k (ro_itemSlot r) (\<lambda>it. it\<lparr>li_is_blocked := False\<rparr>)))"

definition gr_CountTheRoll :: "g_env \<Rightarrow> nat \<Rightarrow> unit gop" where
  "gr_CountTheRoll env i =
     bindE (g_get gr_RollId) (\<lambda>rolls.
     bindE (decide_roll env (rolls ! i)) (\<lambda>_.
     g_upd (\<lambda>g. g\<lparr>gr_RollId := erase_at i (gr_RollId g)\<rparr>)))"

section \<open>The votes\<close>

text \<open>The place of the first roll for the item whose loot still exists.\<close>

fun roll_index :: "uint64 \<Rightarrow> roll list \<Rightarrow> nat option" where
  "roll_index guid [] = None"
| "roll_index guid (r # rs) =
     (if ro_itemGUID r = guid \<and> ro_loot r \<noteq> None then Some 0 else map_option Suc (roll_index guid rs))"

text \<open>What a choice does to the roll; other choices than the four do nothing.\<close>

definition roll_choice :: "uint64 \<Rightarrow> uint8 \<Rightarrow> roll \<Rightarrow> roll" where
  "roll_choice playerGUID choice r =
     (if choice = ROLL_PASS
      then r\<lparr>ro_totalPass := ro_totalPass r + 1, ro_playerVote := om_set playerGUID PASS (ro_playerVote r)\<rparr>
      else if choice = ROLL_NEED
      then r\<lparr>ro_totalNeed := ro_totalNeed r + 1, ro_playerVote := om_set playerGUID NEED (ro_playerVote r)\<rparr>
      else if choice = ROLL_GREED
      then r\<lparr>ro_totalGreed := ro_totalGreed r + 1, ro_playerVote := om_set playerGUID GREED (ro_playerVote r)\<rparr>
      else if choice = ROLL_DISENCHANT
      then r\<lparr>ro_totalGreed := ro_totalGreed r + 1, ro_playerVote := om_set playerGUID DISENCHANT (ro_playerVote r)\<rparr>
      else r)"

definition roll_announce :: "uint64 \<Rightarrow> uint8 \<Rightarrow> roll \<Rightarrow> unit gop" where
  "roll_announce playerGUID choice r =
     (if choice = ROLL_PASS then gr_SendLootRoll 0 playerGUID 128 ROLL_PASS r
      else if choice = ROLL_NEED then gr_SendLootRoll 0 playerGUID 0 0 r
      else if choice = ROLL_GREED then gr_SendLootRoll 0 playerGUID 128 ROLL_GREED r
      else if choice = ROLL_DISENCHANT then gr_SendLootRoll 0 playerGUID 128 ROLL_DISENCHANT r
      else ret ())"

text \<open>The sums are those of \<^verbatim>\<open>int\<close>.\<close>

definition roll_complete :: "roll \<Rightarrow> bool" where
  "roll_complete r \<longleftrightarrow>
     unat (ro_totalPass r) + unat (ro_totalNeed r) + unat (ro_totalGreed r) \<ge> unat (ro_totalPlayersRolling r)"

definition gr_CountRollVote :: "g_env \<Rightarrow> uint64 \<Rightarrow> uint64 \<Rightarrow> uint8 \<Rightarrow> unit gop" where
  "gr_CountRollVote env playerGUID guid choice w =
     (case roll_index guid (gr_RollId (gw_group w)) of
        None \<Rightarrow> ret () w
      | Some i \<Rightarrow>
          let r = gr_RollId (gw_group w) ! i
          in if om_find playerGUID (ro_playerVote r) = None then ret () w
             else if (case Option.bind (ro_loot r) (gw_loots w) of Some l \<Rightarrow> lo_items l = [] | None \<Rightarrow> False)
             then ret () w
             else
               bindE (roll_announce playerGUID choice r) (\<lambda>_.
               bindE (g_upd (\<lambda>g. g\<lparr>gr_RollId := (gr_RollId g)[i := roll_choice playerGUID choice r]\<rparr>)) (\<lambda>_.
               g_when (roll_complete (roll_choice playerGUID choice r)) (gr_CountTheRoll env i))) w)"

text \<open>
  \<^verbatim>\<open>EndRoll\<close>: counts the rolls of a loot one after the other, from the start again after
  each. As every count removes a roll, as many passes as there are rolls are enough.
\<close>

fun end_roll_loop :: "g_env \<Rightarrow> uint32 \<Rightarrow> nat \<Rightarrow> unit gop" where
  "end_roll_loop env k 0 w = ret () w"
| "end_roll_loop env k (Suc n) w =
     (case find (\<lambda>i. ro_loot (gr_RollId (gw_group w) ! i) = Some k) [0 ..< length (gr_RollId (gw_group w))] of
        None \<Rightarrow> ret () w
      | Some i \<Rightarrow> bindE (gr_CountTheRoll env i) (\<lambda>_. end_roll_loop env k n) w)"

definition gr_EndRoll :: "g_env \<Rightarrow> uint32 \<Rightarrow> unit gop" where
  "gr_EndRoll env k w = end_roll_loop env k (length (gr_RollId (gw_group w))) w"

end
