(* ===== verification/Group_Ops.thy ===== *)
theory Group_Ops
  imports Group_Rolls
begin

text \<open>
  The operations of \<^verbatim>\<open>Group\<close> on its members (src/Core/src/server/game/Groups/Group.cpp):
  creation and loading, invitations, joining and leaving, the leader, the subgroups, the flags,
  the target icons, the turn of the looter and the end of the group. A player passed as a pointer
  is passed as his GUID; he must be online, otherwise the pointer would be dangling.
\<close>

definition g_deref :: "uint64 \<Rightarrow> (gplayer \<Rightarrow> 'a gop) \<Rightarrow> 'a gop" where
  "g_deref guid f w = (case gw_players w guid of None \<Rightarrow> throw GroupUndefined w | Some p \<Rightarrow> f p w)"

definition LEVELREQUIREMENT_HEROIC :: uint8 where "LEVELREQUIREMENT_HEROIC = 70"
definition MAX_DUNGEON_DIFFICULTY :: uint8 where "MAX_DUNGEON_DIFFICULTY = 3"
definition MAX_RAID_DIFFICULTY :: uint8 where "MAX_RAID_DIFFICULTY = 4"

section \<open>Invitations\<close>

definition gr_RemoveInvite :: "uint64 \<Rightarrow> unit gop" where
  "gr_RemoveInvite guid =
     bindE (g_upd (\<lambda>g. g\<lparr>gr_invitees := ss_erase guid (gr_invitees g)\<rparr>)) (\<lambda>_.
     g_player guid (\<lambda>p. p\<lparr>gp_groupInvite := None\<rparr>))"

definition gr_RemoveAllInvites :: "unit gop" where
  "gr_RemoveAllInvites =
     bindE (g_get gr_invitees) (\<lambda>is.
     bindE (forE (\<lambda>guid. g_player guid (\<lambda>p. p\<lparr>gp_groupInvite := None\<rparr>)) is) (\<lambda>_.
     g_upd (\<lambda>g. g\<lparr>gr_invitees := []\<rparr>)))"

text \<open>
  A player who is in a battleground group counts with his original group; whether a group of
  another player is one of a battleground is the environment's \<open>isbg\<close>.
\<close>

definition gr_AddInvite :: "(uint32 \<Rightarrow> bool) \<Rightarrow> uint64 \<Rightarrow> bool gop" where
  "gr_AddInvite isbg guid =
     g_deref guid (\<lambda>p.
       let grp = (case gp_group p of
              None \<Rightarrow> None
            | Some k \<Rightarrow> if isbg k then gp_originalGroup p else Some k)
       in if gp_groupInvite p \<noteq> None \<or> grp \<noteq> None then ret False
          else
            bindE (gr_RemoveInvite guid) (\<lambda>_.
            bindE (g_upd (\<lambda>g. g\<lparr>gr_invitees := ss_insert guid (gr_invitees g)\<rparr>)) (\<lambda>_.
            bindE (g_get gr_ref) (\<lambda>ref.
            bindE (g_player guid (\<lambda>p. p\<lparr>gp_groupInvite := Some ref\<rparr>)) (\<lambda>_.
            bindE (g_emit (GOnInvite guid)) (\<lambda>_. ret True))))))"

definition gr_AddLeaderInvite :: "(uint32 \<Rightarrow> bool) \<Rightarrow> uint64 \<Rightarrow> bool gop" where
  "gr_AddLeaderInvite isbg guid =
     bindE (gr_AddInvite isbg guid) (\<lambda>ok.
       if \<not> ok then ret False
       else g_deref guid (\<lambda>p.
              bindE (g_upd (\<lambda>g. g\<lparr>gr_leaderGuid := guid, gr_leaderName := gp_name p\<rparr>)) (\<lambda>_. ret True)))"

section \<open>Joining\<close>

text \<open>The first subgroup with a free slot, the first one when there are no counters\<close>

definition gr_find_subgroup :: "group \<Rightarrow> uint8 option" where
  "gr_find_subgroup g =
     (case gr_subGroupsCounts g of
        None \<Rightarrow> Some 0
      | Some cs \<Rightarrow> map_option of_nat (find (\<lambda>i. unat (cs ! i) < MAXGROUPSIZE) [0 ..< MAX_RAID_SUBGROUPS]))"

definition add_link :: "uint64 \<Rightarrow> uint8 \<Rightarrow> unit gop" where
  "add_link guid sub =
     g_deref guid (\<lambda>p.
     bindE (g_get id) (\<lambda>g.
       if gp_group p \<noteq> None
       then if gr_isBG g then pl_SetBattlegroundOrBattlefieldRaid guid (gr_ref g) sub
            else pl_SetOriginalGroup guid (Some (gr_ref g, sub))
       else pl_SetGroup guid (Some (gr_ref g, sub))))"

definition add_instances :: "uint64 \<Rightarrow> unit gop" where
  "add_instances guid =
     bindE (g_emit (GResetInstances guid False)) (\<lambda>_.
     bindE (g_emit (GResetInstances guid True)) (\<lambda>_.
     g_deref guid (\<lambda>p.
     bindE (g_get id) (\<lambda>g.
       g_when (gp_level p \<ge> LEVELREQUIREMENT_HEROIC)
         (bindE (g_when (gp_dungeonDifficulty p \<noteq> gr_dungeonDifficulty g)
                  (bindE (g_player guid (\<lambda>p. p\<lparr>gp_dungeonDifficulty := gr_dungeonDifficulty g\<rparr>)) (\<lambda>_.
                   g_emit (GSendDifficulty guid False (gr_dungeonDifficulty g))))) (\<lambda>_.
          g_when (gp_raidDifficulty p \<noteq> gr_raidDifficulty g)
            (bindE (g_player guid (\<lambda>p. p\<lparr>gp_raidDifficulty := gr_raidDifficulty g\<rparr>)) (\<lambda>_.
             g_emit (GSendDifficulty guid True (gr_raidDifficulty g))))))))))"

definition push_member :: "member_slot \<Rightarrow> unit gop" where
  "push_member m =
     bindE (g_upd (\<lambda>g. g\<lparr>gr_memberSlots := gr_memberSlots g @ [m]\<rparr>)) (\<lambda>_.
     gr_SubGroupCounterIncrease (ms_group m))"

text \<open>What follows when the new member is in the list\<close>

definition add_follow :: "g_env \<Rightarrow> uint64 \<Rightarrow> gplayer \<Rightarrow> uint8 \<Rightarrow> unit gop" where
  "add_follow env guid player sub =
     bindE (g_player guid (\<lambda>p. p\<lparr>gp_groupInvite := None\<rparr>)) (\<lambda>_.
     bindE (add_link guid sub) (\<lambda>_.
     bindE (g_when (ge_boundInstance env guid = Some (gp_instanceId player)) (g_emit (GInstanceValid guid))) (\<lambda>_.
     bindE (g_upd (\<lambda>g. if gr_isRaidGroup g then g else g\<lparr>gr_targetIcons := replicate TARGETICONCOUNT 0\<rparr>)) (\<lambda>_.
     bindE (g_get id) (\<lambda>g.
     bindE (g_when (\<not> gr_isBG g)
              (g_emit (GInsGroupMember (gr_dbStoreId g) (guid_counter guid) 0 sub 0))) (\<lambda>_.
     bindE (gr_SendUpdate env) (\<lambda>_.
     bindE (g_emit (GOnAddMember guid)) (\<lambda>_.
     bindE (g_when (\<not> gr_IsLeader guid g \<and> \<not> gr_isBG g) (add_instances guid)) (\<lambda>_.
     bindE (g_emit (GStatsOutOfRange guid)) (\<lambda>_.
     bindE (g_when (gr_isRaidGroup g) (g_emit (GQuestObjects guid))) (\<lambda>_.
     bindE (g_emit (GPartyFields guid)) (\<lambda>_.
     g_upd (\<lambda>g. if gr_maxEnchantingLevel g < gp_enchanting player
                then g\<lparr>gr_maxEnchantingLevel := gp_enchanting player\<rparr> else g)))))))))))))"

definition gr_AddMember :: "g_env \<Rightarrow> uint64 \<Rightarrow> bool gop" where
  "gr_AddMember env guid =
     g_deref guid (\<lambda>player.
     bindE (g_get gr_find_subgroup) (\<lambda>found.
     case found of
       None \<Rightarrow> ret False
     | Some sub \<Rightarrow>
         bindE (push_member \<lparr>ms_guid = guid, ms_name = gp_name player, ms_group = sub, ms_flags = 0, ms_roles = 0\<rparr>) (\<lambda>_.
         bindE (add_follow env guid player sub) (\<lambda>_.
         ret True))))"

text \<open>The counters start with the group when it is one of a battleground.\<close>

definition create_kind :: "unit gop" where
  "create_kind =
     bindE (g_upd (\<lambda>g. if gr_isBG g then g\<lparr>gr_groupType := GROUPTYPE_BGRAID\<rparr> else g)) (\<lambda>_.
     bindE (g_get gr_isRaidGroup) (\<lambda>raid. g_when raid gr_initRaidSubGroupsCounter))"

definition gr_Create :: "g_env \<Rightarrow> uint64 \<Rightarrow> bool gop" where
  "gr_Create env leader =
     g_deref leader (\<lambda>p.
     bindE (g_upd (\<lambda>g. g\<lparr>gr_lowGuid := ge_newGroupId env, gr_leaderGuid := leader, gr_leaderName := gp_name p\<rparr>)) (\<lambda>_.
     bindE (g_player leader (\<lambda>p. p\<lparr>gp_groupLeaderFlag := True\<rparr>)) (\<lambda>_.
     bindE create_kind (\<lambda>_.
     bindE (g_upd (\<lambda>g. if gr_isLFGGroup g then g else g\<lparr>gr_lootMethod := GROUP_LOOT\<rparr>)) (\<lambda>_.
     bindE (g_upd (\<lambda>g. g\<lparr>gr_lootThreshold := ITEM_QUALITY_UNCOMMON, gr_looterGuid := leader, gr_masterLooterGuid := 0,
                         gr_dungeonDifficulty := 0, gr_raidDifficulty := 0\<rparr>)) (\<lambda>_.
     bindE (g_get gr_isBG) (\<lambda>bg.
     if bg then gr_AddMember env leader
     else
       bindE (g_upd (\<lambda>g. g\<lparr>gr_dungeonDifficulty := gp_dungeonDifficulty p, gr_raidDifficulty := gp_raidDifficulty p,
                           gr_dbStoreId := ge_newStoreId env\<rparr>)) (\<lambda>_.
       bindE (g_emit (GRegisterStoreId (ge_newStoreId env))) (\<lambda>_.
       bindE (g_get id) (\<lambda>g.
       bindE (g_emit (GInsGroup (gr_dbStoreId g) (guid_counter (gr_leaderGuid g)) (gr_lootMethod g)
                (guid_counter (gr_looterGuid g)) (gr_lootThreshold g) (gr_targetIcons g) (gr_groupType g)
                (gr_dungeonDifficulty g) (gr_raidDifficulty g) (guid_counter (gr_masterLooterGuid g)))) (\<lambda>_.
       bindE (gr_AddMember env leader) (\<lambda>ok.
       if \<not> ok then throw GroupAssertion
       else bindE (g_emit (GConvertInstances leader False)) (\<lambda>_. ret True)))))))))))))"

section \<open>Loading\<close>

record g_row =
  gf_leader :: uint32
  gf_lootMethod :: uint8
  gf_looter :: uint32
  gf_lootThreshold :: uint8
  gf_icons :: "uint64 list"
  gf_groupType :: uint8
  gf_difficulty :: uint8
  gf_raidDifficulty :: uint8
  gf_masterLooter :: uint32
  gf_storeId :: uint32

definition gr_LoadGroupFromDB :: "g_env \<Rightarrow> g_row \<Rightarrow> unit gop" where
  "gr_LoadGroupFromDB env f =
     bindE (g_upd (\<lambda>g. g\<lparr>gr_dbStoreId := gf_storeId f, gr_lowGuid := ge_newGroupId env,
                         gr_leaderGuid := ucast (gf_leader f)\<rparr>)) (\<lambda>_.
     case ge_playerName env (ucast (gf_leader f)) of
       None \<Rightarrow> ret ()
     | Some name \<Rightarrow>
         bindE (g_upd (\<lambda>g. g\<lparr>gr_leaderName := name, gr_lootMethod := gf_lootMethod f,
                             gr_looterGuid := ucast (gf_looter f), gr_lootThreshold := gf_lootThreshold f,
                             gr_targetIcons := gf_icons f, gr_groupType := gf_groupType f\<rparr>)) (\<lambda>_.
         bindE (g_get gr_isRaidGroup) (\<lambda>raid.
         bindE (g_when raid gr_initRaidSubGroupsCounter) (\<lambda>_.
         bindE (g_upd (\<lambda>g. g\<lparr>
                  gr_dungeonDifficulty := (if gf_difficulty f \<ge> MAX_DUNGEON_DIFFICULTY then 0 else gf_difficulty f),
                  gr_raidDifficulty := (if gf_raidDifficulty f \<ge> MAX_RAID_DIFFICULTY then 0 else gf_raidDifficulty f),
                  gr_masterLooterGuid := ucast (gf_masterLooter f)\<rparr>)) (\<lambda>_.
         bindE (g_get gr_isLFGGroup) (\<lambda>lfg. g_when lfg (g_emit GLfgLoad)))))))"

definition gr_LoadMemberFromDB :: "g_env \<Rightarrow> uint32 \<Rightarrow> uint8 \<Rightarrow> uint8 \<Rightarrow> uint8 \<Rightarrow> unit gop" where
  "gr_LoadMemberFromDB env guidLow memberFlags subgroup roles =
     (case ge_playerName env (ucast guidLow) of
        None \<Rightarrow> g_emit (GDelGroupMember guidLow)
      | Some name \<Rightarrow>
          bindE (push_member \<lparr>ms_guid = ucast guidLow, ms_name = name, ms_group = subgroup, ms_flags = memberFlags,
                   ms_roles = roles\<rparr>) (\<lambda>_.
          g_emit (GSetupLfgMember (ucast guidLow))))"

section \<open>The kind of the group\<close>

definition upd_type :: "unit gop" where
  "upd_type = bindE (g_get id) (\<lambda>g. g_when (\<not> gr_isBG g) (g_emit (GUpdGroupType (gr_groupType g) (gr_dbStoreId g))))"

definition gr_ConvertToLFG :: "g_env \<Rightarrow> unit gop" where
  "gr_ConvertToLFG env =
     bindE (g_upd (\<lambda>g. g\<lparr>gr_groupType := gr_groupType g OR GROUPTYPE_LFG OR GROUPTYPE_LFG_RESTRICTED,
                         gr_lootMethod := NEED_BEFORE_GREED\<rparr>)) (\<lambda>_.
     bindE upd_type (\<lambda>_. gr_SendUpdate env))"

definition raise_raid :: "unit gop" where
  "raise_raid =
     bindE (g_upd (\<lambda>g. g\<lparr>gr_groupType := gr_groupType g OR GROUPTYPE_RAID\<rparr>)) (\<lambda>_. gr_initRaidSubGroupsCounter)"

definition gr_ConvertToRaid :: "g_env \<Rightarrow> unit gop" where
  "gr_ConvertToRaid env =
     bindE raise_raid (\<lambda>_.
     bindE upd_type (\<lambda>_.
     bindE (gr_SendUpdate env) (\<lambda>_.
     bindE (g_get gr_memberSlots) (forE (\<lambda>m. g_ifOnline (ms_guid m) (\<lambda>_. g_emit (GQuestObjects (ms_guid m))))))))"

definition gr_SetDungeonDifficulty :: "uint8 \<Rightarrow> unit gop" where
  "gr_SetDungeonDifficulty d =
     bindE (g_upd (\<lambda>g. g\<lparr>gr_dungeonDifficulty := d\<rparr>)) (\<lambda>_.
     bindE (g_get id) (\<lambda>g.
     bindE (g_when (\<not> gr_isBG g) (g_emit (GUpdGroupDifficulty d (gr_dbStoreId g)))) (\<lambda>_.
     forE (\<lambda>guid. g_deref guid (\<lambda>_.
             bindE (g_player guid (\<lambda>p. p\<lparr>gp_dungeonDifficulty := d\<rparr>)) (\<lambda>_.
             g_emit (GSendDifficulty guid False d)))) (gr_memberMgr g))))"

definition gr_SetRaidDifficulty :: "uint8 \<Rightarrow> unit gop" where
  "gr_SetRaidDifficulty d =
     bindE (g_upd (\<lambda>g. g\<lparr>gr_raidDifficulty := d\<rparr>)) (\<lambda>_.
     bindE (g_get id) (\<lambda>g.
     bindE (g_when (\<not> gr_isBG g) (g_emit (GUpdGroupRaidDifficulty d (gr_dbStoreId g)))) (\<lambda>_.
     forE (\<lambda>guid. g_deref guid (\<lambda>_.
             bindE (g_player guid (\<lambda>p. p\<lparr>gp_raidDifficulty := d\<rparr>)) (\<lambda>_.
             g_emit (GSendDifficulty guid True d)))) (gr_memberMgr g))))"

section \<open>Flags, target icons, subgroups\<close>

definition toggle_flag :: "uint8 \<Rightarrow> bool \<Rightarrow> member_slot \<Rightarrow> member_slot" where
  "toggle_flag flag apply m = m\<lparr>ms_flags := (if apply then ms_flags m OR flag else ms_flags m AND NOT flag)\<rparr>"

text \<open>\<^verbatim>\<open>ToggleGroupMemberFlag\<close> on the slot of the player\<close>

definition gr_ToggleGroupMemberFlag :: "uint64 \<Rightarrow> uint8 \<Rightarrow> bool \<Rightarrow> unit gop" where
  "gr_ToggleGroupMemberFlag guid flag apply =
     g_upd (\<lambda>g. g\<lparr>gr_memberSlots := upd_slot guid (toggle_flag flag apply) (gr_memberSlots g)\<rparr>)"

definition gr_RemoveUniqueGroupMemberFlag :: "uint8 \<Rightarrow> unit gop" where
  "gr_RemoveUniqueGroupMemberFlag flag =
     g_upd (\<lambda>g. g\<lparr>gr_memberSlots :=
       map (\<lambda>m. if ms_flags m AND flag \<noteq> 0 then toggle_flag flag False m else m) (gr_memberSlots g)\<rparr>)"

definition gr_SetGroupMemberFlag :: "g_env \<Rightarrow> uint64 \<Rightarrow> bool \<Rightarrow> uint8 \<Rightarrow> unit gop" where
  "gr_SetGroupMemberFlag env guid apply flag w =
     (if \<not> gr_isRaidGroup (gw_group w) then ret () w
      else case gr_slot guid (gw_group w) of
        None \<Rightarrow> ret () w
      | Some _ \<Rightarrow>
          if flag \<noteq> MEMBER_FLAG_MAINASSIST \<and> flag \<noteq> MEMBER_FLAG_MAINTANK \<and> flag \<noteq> MEMBER_FLAG_ASSISTANT
          then ret () w
          else
            bindE (g_when (flag \<noteq> MEMBER_FLAG_ASSISTANT) (gr_RemoveUniqueGroupMemberFlag flag)) (\<lambda>_.
            bindE (gr_ToggleGroupMemberFlag guid flag apply) (\<lambda>_.
            bindE (g_get (gr_slot guid)) (\<lambda>slot.
            bindE (case slot of None \<Rightarrow> ret ()
                   | Some m \<Rightarrow> g_emit (GUpdMemberFlag (ms_flags m) (guid_counter guid))) (\<lambda>_.
            gr_SendUpdate env)))) w)"

text \<open>
  \<^verbatim>\<open>SetTargetIcon\<close> calls itself for the icons that already show the target; these calls have
  no target, so they only store and broadcast.
\<close>

definition store_icon :: "uint8 \<Rightarrow> uint64 \<Rightarrow> uint64 \<Rightarrow> unit gop" where
  "store_icon i whoGuid targetGuid =
     bindE (g_upd (\<lambda>g. g\<lparr>gr_targetIcons := (gr_targetIcons g)[unat i := targetGuid]\<rparr>)) (\<lambda>_.
     gr_BroadcastPacket MSG_RAID_TARGET_UPDATE ([0] @ le_bytes 8 whoGuid @ [i] @ le_bytes 8 targetGuid) True None 0)"

definition gr_SetTargetIcon :: "uint8 \<Rightarrow> uint64 \<Rightarrow> uint64 \<Rightarrow> unit gop" where
  "gr_SetTargetIcon i whoGuid targetGuid =
     (if unat i \<ge> TARGETICONCOUNT then ret ()
      else
        bindE (g_when (targetGuid \<noteq> 0)
                 (forE (\<lambda>j. bindE (g_get gr_targetIcons) (\<lambda>icons.
                          g_when (icons ! j = targetGuid) (store_icon (of_nat j) 0 0))) [0 ..< TARGETICONCOUNT])) (\<lambda>_.
        store_icon i whoGuid targetGuid))"

definition icon_list_bytes :: "uint64 list \<Rightarrow> uint8 list" where
  "icon_list_bytes icons =
     [1] @ concat (map (\<lambda>i. if icons ! i = 0 then [] else of_nat i # le_bytes 8 (icons ! i)) [0 ..< TARGETICONCOUNT])"

definition gr_SendTargetIconList :: "uint64 \<Rightarrow> unit gop" where
  "gr_SendTargetIconList guid =
     bindE (g_get gr_targetIcons) (\<lambda>icons. g_send guid MSG_RAID_TARGET_UPDATE (icon_list_bytes icons))"

definition set_slot_group :: "uint64 \<Rightarrow> uint8 \<Rightarrow> unit gop" where
  "set_slot_group guid sub =
     g_upd (\<lambda>g. g\<lparr>gr_memberSlots := upd_slot guid (\<lambda>m. m\<lparr>ms_group := sub\<rparr>) (gr_memberSlots g)\<rparr>)"

definition save_subgroup :: "uint64 \<Rightarrow> uint8 \<Rightarrow> unit gop" where
  "save_subgroup guid sub = bindE (g_get gr_isBG) (\<lambda>bg. g_when (\<not> bg) (g_emit (GUpdMemberSubgroup sub (guid_counter guid))))"

definition gr_setMembersGroup :: "uint64 \<Rightarrow> uint8 \<Rightarrow> bool gop" where
  "gr_setMembersGroup guid sub w =
     (if \<not> gr_IsMember guid (gw_group w) then ret False w
      else
        bindE (set_slot_group guid sub) (\<lambda>_.
        bindE (gr_SubGroupCounterIncrease sub) (\<lambda>_.
        bindE (save_subgroup guid sub) (\<lambda>_. ret True))) w)"

definition gr_ChangeMembersGroup :: "g_env \<Rightarrow> uint64 \<Rightarrow> uint8 \<Rightarrow> unit gop" where
  "gr_ChangeMembersGroup env guid sub w =
     (if \<not> gr_isRaidGroup (gw_group w) then ret () w
      else case gr_slot guid (gw_group w) of
        None \<Rightarrow> ret () w
      | Some m \<Rightarrow>
          if ms_group m = sub then ret () w
          else
            bindE (set_slot_group guid sub) (\<lambda>_.
            bindE (gr_SubGroupCounterIncrease sub) (\<lambda>_.
            bindE (gr_SubGroupCounterDecrease (ms_group m)) (\<lambda>_.
            bindE (save_subgroup guid sub) (\<lambda>_.
            bindE (\<lambda>w. g_player guid (\<lambda>p. if gp_group p = Some (gr_ref (gw_group w))
                                          then p\<lparr>gp_subGroup := sub\<rparr> else p\<lparr>gp_originalSubGroup := sub\<rparr>) w) (\<lambda>_.
            gr_SendUpdate env))))) w)"

definition gr_SetLfgRoles :: "g_env \<Rightarrow> uint64 \<Rightarrow> uint8 \<Rightarrow> unit gop" where
  "gr_SetLfgRoles env guid roles w =
     (if \<not> gr_IsMember guid (gw_group w) then ret () w
      else
        bindE (g_upd (\<lambda>g. g\<lparr>gr_memberSlots := upd_slot guid (\<lambda>m. m\<lparr>ms_roles := roles\<rparr>) (gr_memberSlots g)\<rparr>)) (\<lambda>_.
        gr_SendUpdate env) w)"

definition gr_ResetMaxEnchantingLevel :: "unit gop" where
  "gr_ResetMaxEnchantingLevel =
     bindE (g_upd (\<lambda>g. g\<lparr>gr_maxEnchantingLevel := 0\<rparr>)) (\<lambda>_.
     bindE (g_get gr_memberSlots) (forE (\<lambda>m. g_ifOnline (ms_guid m) (\<lambda>p.
       g_upd (\<lambda>g. if gr_maxEnchantingLevel g < gp_enchanting p
                  then g\<lparr>gr_maxEnchantingLevel := gp_enchanting p\<rparr> else g)))))"

section \<open>Loot settings\<close>

definition gr_SetLootMethod :: "uint8 \<Rightarrow> unit gop" where
  "gr_SetLootMethod m = g_upd (\<lambda>g. g\<lparr>gr_lootMethod := m\<rparr>)"

definition gr_SetLooterGuid :: "uint64 \<Rightarrow> unit gop" where
  "gr_SetLooterGuid guid = g_upd (\<lambda>g. g\<lparr>gr_looterGuid := guid\<rparr>)"

definition gr_SetMasterLooterGuid :: "uint64 \<Rightarrow> unit gop" where
  "gr_SetMasterLooterGuid guid = g_upd (\<lambda>g. g\<lparr>gr_masterLooterGuid := guid\<rparr>)"

definition gr_SetLootThreshold :: "uint8 \<Rightarrow> unit gop" where
  "gr_SetLootThreshold q = g_upd (\<lambda>g. g\<lparr>gr_lootThreshold := q\<rparr>)"

text \<open>The position behind the current looter; without a current looter the end of the list\<close>

fun after_slot :: "uint64 \<Rightarrow> member_slot list \<Rightarrow> nat" where
  "after_slot guid [] = 0"
| "after_slot guid (m # ms) = (if ms_guid m = guid then 1 else Suc (after_slot guid ms))"

definition can_loot :: "g_env \<Rightarrow> (uint64 \<Rightarrow> gplayer option) \<Rightarrow> member_slot \<Rightarrow> bool" where
  "can_loot env players m \<longleftrightarrow> players (ms_guid m) \<noteq> None \<and> ge_near env (ms_guid m)"

definition next_looter :: "g_env \<Rightarrow> (uint64 \<Rightarrow> gplayer option) \<Rightarrow> group \<Rightarrow> member_slot option" where
  "next_looter env players g =
     (let ms = gr_memberSlots g; n = after_slot (gr_looterGuid g) ms
      in case find (can_loot env players) (drop n ms) of
           Some m \<Rightarrow> Some m
         | None \<Rightarrow> find (can_loot env players) (take n ms))"

definition gr_UpdateLooterGuid :: "g_env \<Rightarrow> bool \<Rightarrow> unit gop" where
  "gr_UpdateLooterGuid env ifneed w =
     (let g = gw_group w
      in if gr_lootMethod g = FREE_FOR_ALL then ret () w
         else if ifneed \<and> (case gr_slot (gr_looterGuid g) g of None \<Rightarrow> False | Some m \<Rightarrow> can_loot env (gw_players w) m)
         then ret () w
         else case next_looter env (gw_players w) g of
             Some m \<Rightarrow> if gr_looterGuid g \<noteq> ms_guid m
                       then bindE (gr_SetLooterGuid (ms_guid m)) (\<lambda>_. gr_SendUpdate env) w else ret () w
           | None \<Rightarrow> bindE (gr_SetLooterGuid 0) (\<lambda>_. gr_SendUpdate env) w)"

section \<open>The leader\<close>

definition gr_ChangeLeader :: "uint64 \<Rightarrow> unit gop" where
  "gr_ChangeLeader newLeaderGuid w =
     (case (gr_slot newLeaderGuid (gw_group w), gw_players w newLeaderGuid) of
        (Some slot, Some newLeader) \<Rightarrow>
          bindE (g_emit (GOnChangeLeader newLeaderGuid (gr_leaderGuid (gw_group w)))) (\<lambda>_.
          bindE (g_when (\<not> gr_isBG (gw_group w))
                   (bindE (g_emit GUnbindPermanent) (\<lambda>_.
                    bindE (g_emit (GConvertInstances newLeaderGuid True)) (\<lambda>_.
                    g_emit (GUpdGroupLeader (guid_counter newLeaderGuid) (gr_dbStoreId (gw_group w))))))) (\<lambda>_.
          bindE (g_player (gr_leaderGuid (gw_group w)) (\<lambda>p. p\<lparr>gp_groupLeaderFlag := False\<rparr>)) (\<lambda>_.
          bindE (g_player newLeaderGuid (\<lambda>p. p\<lparr>gp_groupLeaderFlag := True\<rparr>)) (\<lambda>_.
          bindE (g_upd (\<lambda>g. g\<lparr>gr_leaderGuid := newLeaderGuid, gr_leaderName := gp_name newLeader\<rparr>)) (\<lambda>_.
          bindE (gr_ToggleGroupMemberFlag newLeaderGuid MEMBER_FLAG_ASSISTANT False) (\<lambda>_.
          gr_BroadcastPacket SMSG_GROUP_SET_LEADER (ms_name slot @ [0]) True None 0)))))) w
      | _ \<Rightarrow> ret () w)"

section \<open>Leaving\<close>

text \<open>The player loses this group; in a battleground he falls back to his original group.\<close>

definition leave_group :: "uint64 \<Rightarrow> unit gop" where
  "leave_group guid w =
     (if gr_isBG (gw_group w) then pl_RemoveFromBattlegroundOrBattlefieldRaid guid w
      else case gw_players w guid of
        None \<Rightarrow> ret () w
      | Some p \<Rightarrow> if gp_originalGroup p = Some (gr_ref (gw_group w))
                  then pl_SetOriginalGroup guid None w else pl_SetGroup guid None w)"

definition disband_member :: "g_env \<Rightarrow> bool \<Rightarrow> uint64 \<Rightarrow> unit gop" where
  "disband_member env hideDestroy guid w =
     (if gw_players w guid = None then ret () w
      else
        bindE (leave_group guid) (\<lambda>_.
        bindE (g_get gr_isRaidGroup) (\<lambda>raid.
        bindE (g_when raid (g_emit (GQuestObjects guid))) (\<lambda>_.
        bindE (g_when (\<not> hideDestroy) (g_send guid SMSG_GROUP_DESTROYED [])) (\<lambda>_.
        bindE (g_get id) (\<lambda>g.
        bindE (g_ifOnline guid (\<lambda>p.
                 case gp_group p of
                   None \<Rightarrow> g_send guid SMSG_GROUP_LIST (gr_empty_list g)
                 | Some k \<Rightarrow> if k = gr_ref g then gr_SendUpdate env else g_emit (GSendUpdateOf k))) (\<lambda>_.
        g_emit (GHomebind guid))))))) w)"

definition gr_Disband :: "g_env \<Rightarrow> bool \<Rightarrow> unit gop" where
  "gr_Disband env hideDestroy =
     bindE (g_emit GOnDisband) (\<lambda>_.
     bindE (g_get gr_memberSlots) (\<lambda>ms.
     bindE (forE (\<lambda>m. disband_member env hideDestroy (ms_guid m)) ms) (\<lambda>_.
     bindE (g_upd (\<lambda>g. g\<lparr>gr_RollId := [], gr_memberSlots := []\<rparr>)) (\<lambda>_.
     bindE gr_RemoveAllInvites (\<lambda>_.
     bindE (g_get id) (\<lambda>g.
     bindE (g_when (\<not> gr_isBG g)
              (forE g_emit [GDelGroup (gr_dbStoreId g), GDelGroupMemberAll (gr_dbStoreId g),
                 GResetGroupInstances False, GResetGroupInstances True, GDelLfgData (gr_dbStoreId g),
                 GFreeStoreId (gr_dbStoreId g)])) (\<lambda>_.
     bindE (g_emit (GRemoveGroup (gr_lowGuid g))) (\<lambda>_.
     modE (\<lambda>w. w\<lparr>gw_disbanded := True\<rparr>)))))))))"

definition gr_DelinkMember :: "uint64 \<Rightarrow> unit gop" where
  "gr_DelinkMember guid w =
     (if guid \<notin> set (gr_memberMgr (gw_group w)) then ret () w
      else case gw_players w guid of
        None \<Rightarrow> g_upd (gr_unlink guid) w
      | Some p \<Rightarrow> if gp_group p = Some (gr_ref (gw_group w)) then g_unlink_group guid w
                  else g_unlink_original guid w)"

text \<open>The vote of a leaving player is taken out of a roll.\<close>

definition withdraw_vote :: "uint64 \<Rightarrow> roll_vote \<Rightarrow> roll \<Rightarrow> roll" where
  "withdraw_vote guid v r =
     (let r = (case v of
            GREED \<Rightarrow> r\<lparr>ro_totalGreed := ro_totalGreed r - 1\<rparr>
          | DISENCHANT \<Rightarrow> r\<lparr>ro_totalGreed := ro_totalGreed r - 1\<rparr>
          | NEED \<Rightarrow> r\<lparr>ro_totalNeed := ro_totalNeed r - 1\<rparr>
          | PASS \<Rightarrow> r\<lparr>ro_totalPass := ro_totalPass r - 1\<rparr>
          | _ \<Rightarrow> r);
          r = (if v \<noteq> NOT_VALID then r\<lparr>ro_totalPlayersRolling := ro_totalPlayersRolling r - 1\<rparr> else r)
      in r\<lparr>ro_playerVote := om_erase guid (ro_playerVote r)\<rparr>)"

definition leave_roll :: "g_env \<Rightarrow> uint64 \<Rightarrow> nat \<Rightarrow> unit gop" where
  "leave_roll env guid i w =
     (if i < length (gr_RollId (gw_group w))
      then
        let r = gr_RollId (gw_group w) ! i
        in case om_find guid (ro_playerVote r) of
             None \<Rightarrow> ret () w
           | Some v \<Rightarrow>
               bindE (g_upd (\<lambda>g. g\<lparr>gr_RollId := (gr_RollId g)[i := withdraw_vote guid v r]\<rparr>)) (\<lambda>_.
               gr_CountRollVote env guid (ro_itemGUID r) MAX_ROLL_TYPE) w
      else throw GroupUndefined w)"

definition leave_rolls :: "g_env \<Rightarrow> uint64 \<Rightarrow> unit gop" where
  "leave_rolls env guid =
     bindE (g_get gr_RollId) (\<lambda>rs. forE (leave_roll env guid) [0 ..< length rs])"

definition remove_slot :: "uint64 \<Rightarrow> unit gop" where
  "remove_slot guid w =
     (case gr_slot guid (gw_group w) of
        None \<Rightarrow> ret () w
      | Some m \<Rightarrow>
          bindE (gr_SubGroupCounterDecrease (ms_group m)) (\<lambda>_.
          g_upd (\<lambda>g. g\<lparr>gr_memberSlots := del_slot guid (gr_memberSlots g)\<rparr>)) w)"

definition pick_leader :: "uint64 \<Rightarrow> unit gop" where
  "pick_leader guid w =
     (if gr_leaderGuid (gw_group w) \<noteq> guid then ret () w
      else case find (\<lambda>m. gw_players w (ms_guid m) \<noteq> None) (gr_memberSlots (gw_group w)) of
        None \<Rightarrow> ret () w
      | Some m \<Rightarrow> gr_ChangeLeader (ms_guid m) w)"

definition tell_removed :: "uint64 \<Rightarrow> remove_method \<Rightarrow> unit gop" where
  "tell_removed guid how =
     bindE (g_when (how = REMOVE_KICK \<or> how = REMOVE_KICK_LFG) (g_send guid SMSG_GROUP_UNINVITE [])) (\<lambda>_.
     bindE (g_get gr_empty_list) (\<lambda>bs.
     bindE (g_send guid SMSG_GROUP_LIST bs) (\<lambda>_.
     g_emit (GHomebind guid))))"

text \<open>What is left to decide when the member is gone: a group of one in a dungeon, or too few links.\<close>

definition after_removal :: "g_env \<Rightarrow> bool gop" where
  "after_removal env w =
     (let g = gw_group w;
          lone = gr_isLFGGroup g \<and> gr_GetMembersCount g = 1
                 \<and> (ge_lfgMapId env = 0
                    \<or> (case gw_players w (gr_leaderGuid g) of
                         None \<Rightarrow> True
                       | Some l \<Rightarrow> gp_alive l \<and> gp_mapId l \<noteq> ge_lfgMapId env))
      in if lone then bindE (gr_Disband env False) (\<lambda>_. ret False) w
         else if length (gr_memberMgr g) < (if gr_isLFGGroup g \<or> gr_bgGroup g then 1 else 2)
         then bindE (gr_Disband env False) (\<lambda>_. ret True) w
         else ret True w)"

definition gr_RemoveMember :: "g_env \<Rightarrow> uint64 \<Rightarrow> remove_method \<Rightarrow> bool gop" where
  "gr_RemoveMember env guid how =
     bindE gr_BroadcastGroupUpdate (\<lambda>_.
     bindE (g_emit (GOnRemoveMember guid how)) (\<lambda>_.
     bindE (g_get id) (\<lambda>g.
     if gr_isLFGGroup g \<and> how = REMOVE_KICK then ret (gr_memberSlots g \<noteq> [])
     else if gr_GetMembersCount g > (if gr_isBG g \<or> gr_isLFGGroup g then 1 else 2)
     then
       bindE (g_FindPlayer guid) (\<lambda>player.
       bindE (g_when (player \<noteq> None)
                (bindE (leave_group guid) (\<lambda>_.
                 bindE (g_when (\<not> gr_isBG g) (g_emit (GQuestObjects guid))) (\<lambda>_.
                 tell_removed guid how)))) (\<lambda>_.
       bindE (g_when (\<not> gr_isBG g)
                (bindE (g_emit (GDelGroupMember (guid_counter guid))) (\<lambda>_. gr_DelinkMember guid))) (\<lambda>_.
       bindE (g_when (case player of None \<Rightarrow> True | Some p \<Rightarrow> gp_enchanting p \<noteq> 0)
                gr_ResetMaxEnchantingLevel) (\<lambda>_.
       bindE (leave_rolls env guid) (\<lambda>_.
       bindE (remove_slot guid) (\<lambda>_.
       bindE (pick_leader guid) (\<lambda>_.
       bindE (gr_SendUpdate env) (\<lambda>_.
       after_removal env))))))))
     else bindE (gr_Disband env False) (\<lambda>_. ret False))))"

end
