(* ===== verification/Group_Handlers.thy ===== *)
theory Group_Handlers
  imports Group_Ops Names
begin

text \<open>
  The messages of the clients to their groups (src/Core/src/server/game/Handlers/GroupHandler.cpp,
  with \<^verbatim>\<open>UninviteFromGroup\<close> and \<^verbatim>\<open>CanUninviteFromGroup\<close> of
  src/Core/src/server/game/Entities/Player/Player.cpp). The state holds one group; a message of a player who is
  in another group or in none does not concern it. The messages are given by what the
  handlers read from them.
\<close>

record h_env =
  he_findByName :: "uint8 list \<Rightarrow> uint64 option"
  he_guidByName :: "uint8 list \<Rightarrow> uint64"
  he_inBattleground :: "uint64 \<Rightarrow> bool"
  he_hostile :: "uint64 \<Rightarrow> uint64 \<Rightarrow> bool"
  he_kicksLeft :: uint8
  he_lfgBoot :: bool
  he_inCombat :: "uint64 \<Rightarrow> bool"
  he_isBGGroup :: "uint32 \<Rightarrow> bool"
  he_isBFGroup :: "uint32 \<Rightarrow> bool"
  he_allowGMGroup :: bool
  he_twoSide :: bool
  he_gm :: "uint64 \<Rightarrow> bool"
  he_team :: "uint64 \<Rightarrow> uint32"
  he_ignores :: "uint64 \<Rightarrow> uint64 \<Rightarrow> bool"
  he_urand :: "uint32 \<Rightarrow> uint32 \<Rightarrow> uint32"

definition SMSG_GROUP_INVITE :: uint16 where "SMSG_GROUP_INVITE = 0x06F"
definition SMSG_GROUP_DECLINE :: uint16 where "SMSG_GROUP_DECLINE = 0x074"
definition SMSG_PARTY_COMMAND_RESULT :: uint16 where "SMSG_PARTY_COMMAND_RESULT = 0x07F"
definition MSG_MINIMAP_PING :: uint16 where "MSG_MINIMAP_PING = 0x1D5"
definition MSG_RANDOM_ROLL :: uint16 where "MSG_RANDOM_ROLL = 0x1FB"
definition MSG_RAID_READY_CHECK :: uint16 where "MSG_RAID_READY_CHECK = 0x322"

definition ITEM_QUALITY_ARTIFACT :: nat where "ITEM_QUALITY_ARTIFACT = 6"
definition GROUP_ASSIGN_MAINTANK :: uint8 where "GROUP_ASSIGN_MAINTANK = 0"
definition GROUP_ASSIGN_MAINASSIST :: uint8 where "GROUP_ASSIGN_MAINASSIST = 1"

datatype party_operation = PARTY_OP_INVITE | PARTY_OP_UNINVITE | PARTY_OP_LEAVE | PARTY_OP_SWAP

fun party_operation_code :: "party_operation \<Rightarrow> uint32" where
  "party_operation_code PARTY_OP_INVITE = 0"
| "party_operation_code PARTY_OP_UNINVITE = 1"
| "party_operation_code PARTY_OP_LEAVE = 2"
| "party_operation_code PARTY_OP_SWAP = 4"

datatype party_result = ERR_PARTY_RESULT_OK | ERR_BAD_PLAYER_NAME_S | ERR_TARGET_NOT_IN_GROUP_S
  | ERR_TARGET_NOT_IN_INSTANCE_S | ERR_GROUP_FULL | ERR_ALREADY_IN_GROUP_S | ERR_NOT_IN_GROUP
  | ERR_NOT_LEADER | ERR_PLAYER_WRONG_FACTION | ERR_IGNORING_YOU_S | ERR_INVITE_RESTRICTED
  | ERR_PARTY_LFG_BOOT_LIMIT | ERR_PARTY_LFG_BOOT_IN_PROGRESS | ERR_PARTY_LFG_BOOT_TOO_FEW_PLAYERS
  | ERR_PARTY_LFG_BOOT_IN_COMBAT | ERR_PARTY_LFG_BOOT_DUNGEON_COMPLETE | ERR_PARTY_LFG_BOOT_LOOT_ROLLS

fun party_result_code :: "party_result \<Rightarrow> uint32" where
  "party_result_code ERR_PARTY_RESULT_OK = 0"
| "party_result_code ERR_BAD_PLAYER_NAME_S = 1"
| "party_result_code ERR_TARGET_NOT_IN_GROUP_S = 2"
| "party_result_code ERR_TARGET_NOT_IN_INSTANCE_S = 3"
| "party_result_code ERR_GROUP_FULL = 4"
| "party_result_code ERR_ALREADY_IN_GROUP_S = 5"
| "party_result_code ERR_NOT_IN_GROUP = 6"
| "party_result_code ERR_NOT_LEADER = 7"
| "party_result_code ERR_PLAYER_WRONG_FACTION = 8"
| "party_result_code ERR_IGNORING_YOU_S = 9"
| "party_result_code ERR_INVITE_RESTRICTED = 13"
| "party_result_code ERR_PARTY_LFG_BOOT_LIMIT = 20"
| "party_result_code ERR_PARTY_LFG_BOOT_IN_PROGRESS = 22"
| "party_result_code ERR_PARTY_LFG_BOOT_TOO_FEW_PLAYERS = 23"
| "party_result_code ERR_PARTY_LFG_BOOT_IN_COMBAT = 26"
| "party_result_code ERR_PARTY_LFG_BOOT_DUNGEON_COMPLETE = 28"
| "party_result_code ERR_PARTY_LFG_BOOT_LOOT_ROLLS = 29"

definition h_SendPartyResult :: "uint64 \<Rightarrow> party_operation \<Rightarrow> uint8 list \<Rightarrow> party_result \<Rightarrow> unit gop" where
  "h_SendPartyResult me oper member res =
     g_send me SMSG_PARTY_COMMAND_RESULT
       (le_bytes 4 (party_operation_code oper) @ member @ [0] @ le_bytes 4 (party_result_code res)
        @ le_bytes 4 (0 :: uint32))"

text \<open>The handlers of a player whose group this is\<close>

definition h_group :: "uint64 \<Rightarrow> (gplayer \<Rightarrow> unit gop) \<Rightarrow> unit gop" where
  "h_group me f w =
     (case gw_players w me of
        None \<Rightarrow> ret () w
      | Some p \<Rightarrow> if gp_group p = Some (gr_ref (gw_group w)) then f p w else ret () w)"

text \<open>With an answer for the player who is in no group\<close>

definition h_group_else :: "uint64 \<Rightarrow> (gplayer \<Rightarrow> unit gop) \<Rightarrow> (gplayer \<Rightarrow> unit gop) \<Rightarrow> unit gop" where
  "h_group_else me none f w =
     (case gw_players w me of
        None \<Rightarrow> ret () w
      | Some p \<Rightarrow>
          if gp_group p = None then none p w
          else if gp_group p = Some (gr_ref (gw_group w)) then f p w else ret () w)"

definition h_leads :: "uint64 \<Rightarrow> group \<Rightarrow> bool" where
  "h_leads me g \<longleftrightarrow> gr_IsLeader me g \<or> gr_IsAssistant me g"

section \<open>Invitation\<close>

definition invite_bytes :: "uint8 \<Rightarrow> uint8 list \<Rightarrow> uint8 list" where
  "invite_bytes flag name = [flag] @ name @ [0] @ le_bytes 4 (0 :: uint32) @ [0] @ le_bytes 4 (0 :: uint32)"

definition home_group :: "h_env \<Rightarrow> gplayer \<Rightarrow> uint32 option" where
  "home_group he p =
     (case gp_group p of None \<Rightarrow> None | Some k \<Rightarrow> if he_isBGGroup he k then gp_originalGroup p else Some k)"

text \<open>The checks before the groups are looked at: the reason of a refusal.\<close>

definition invite_refused :: "h_env \<Rightarrow> uint64 \<Rightarrow> gplayer \<Rightarrow> uint64 \<Rightarrow> gplayer \<Rightarrow> party_result option" where
  "invite_refused he me p guid q =
     (if \<not> he_allowGMGroup he \<and> \<not> he_gm he me \<and> he_gm he guid then Some ERR_BAD_PLAYER_NAME_S
      else if \<not> he_gm he me \<and> \<not> he_twoSide he \<and> he_team he me \<noteq> he_team he guid then Some ERR_PLAYER_WRONG_FACTION
      else if gp_instanceId p \<noteq> 0 \<and> gp_instanceId q \<noteq> 0 \<and> gp_instanceId p \<noteq> gp_instanceId q
              \<and> gp_mapId p = gp_mapId q then Some ERR_TARGET_NOT_IN_INSTANCE_S
      else if gp_instanceId q \<noteq> 0 \<and> gp_dungeonDifficulty q \<noteq> gp_dungeonDifficulty p then Some ERR_IGNORING_YOU_S
      else if he_ignores he guid me then Some ERR_IGNORING_YOU_S
      else None)"

text \<open>
  Without a group of his own the player invites into a new group, which is then the group of the
  state; it is deleted when it cannot be used.
\<close>

definition delete_group :: "unit gop" where
  "delete_group = modE (\<lambda>w. w\<lparr>gw_disbanded := True\<rparr>)"

definition h_invite_into :: "h_env \<Rightarrow> uint64 \<Rightarrow> bool \<Rightarrow> uint64 \<Rightarrow> bool gop" where
  "h_invite_into he me isNew guid =
     (let isbg = (\<lambda>k. he_isBGGroup he k \<or> he_isBFGroup he k)
      in if isNew
         then bindE (gr_AddLeaderInvite isbg me) (\<lambda>ok.
                if \<not> ok then bindE delete_group (\<lambda>_. ret False)
                else bindE (gr_AddInvite isbg guid) (\<lambda>ok.
                       if \<not> ok then bindE delete_group (\<lambda>_. ret False) else ret True))
         else gr_AddInvite isbg guid)"

definition HandleGroupInvite :: "h_env \<Rightarrow> uint64 \<Rightarrow> uint8 list \<Rightarrow> unit gop" where
  "HandleGroupInvite he me membername w =
     (case normalizePlayerName membername of
        Inl _ \<Rightarrow> throw GroupUndefined w
      | Inr None \<Rightarrow> h_SendPartyResult me PARTY_OP_INVITE membername ERR_BAD_PLAYER_NAME_S w
      | Inr (Some name) \<Rightarrow>
          case (gw_players w me, he_findByName he name) of
            (Some p, Some guid) \<Rightarrow>
              (case gw_players w guid of
                 None \<Rightarrow> throw GroupUndefined w
               | Some q \<Rightarrow>
                   case invite_refused he me p guid q of
                     Some res \<Rightarrow> h_SendPartyResult me PARTY_OP_INVITE name res w
                   | None \<Rightarrow>
                       if home_group he q \<noteq> None \<or> gp_groupInvite q \<noteq> None
                       then bindE (h_SendPartyResult me PARTY_OP_INVITE name ERR_ALREADY_IN_GROUP_S) (\<lambda>_.
                            g_when (home_group he q \<noteq> None) (g_send guid SMSG_GROUP_INVITE (invite_bytes 0 (gp_name p)))) w
                       else if home_group he p \<noteq> None \<and> home_group he p \<noteq> Some (gr_ref (gw_group w)) then ret () w
                       else if home_group he p \<noteq> None \<and> \<not> h_leads me (gw_group w)
                       then h_SendPartyResult me PARTY_OP_INVITE [] ERR_NOT_LEADER w
                       else if home_group he p \<noteq> None \<and> gr_IsFull (gw_group w)
                       then h_SendPartyResult me PARTY_OP_INVITE [] ERR_GROUP_FULL w
                       else bindE (h_invite_into he me (home_group he p = None) guid) (\<lambda>ok.
                              g_when ok (bindE (g_send guid SMSG_GROUP_INVITE (invite_bytes 1 (gp_name p))) (\<lambda>_.
                                         h_SendPartyResult me PARTY_OP_INVITE name ERR_PARTY_RESULT_OK))) w)
          | (Some _, None) \<Rightarrow> h_SendPartyResult me PARTY_OP_INVITE name ERR_BAD_PLAYER_NAME_S w
          | (None, _) \<Rightarrow> throw GroupUndefined w)"

section \<open>Acceptance and refusal\<close>

text \<open>A group that has only invitations is created with its leader; the result is whether it exists.\<close>

definition accept_create :: "g_env \<Rightarrow> bool gop" where
  "accept_create env w =
     (let g = gw_group w
      in if gr_IsCreated g then ret True w
         else case gw_players w (gr_leaderGuid g) of
           None \<Rightarrow> bindE gr_RemoveAllInvites (\<lambda>_. ret False) w
         | Some _ \<Rightarrow>
             bindE (gr_RemoveInvite (gr_leaderGuid g)) (\<lambda>_.
             bindE (gr_Create env (gr_leaderGuid g)) (\<lambda>_.
             bindE (g_get gr_lowGuid) (\<lambda>low.
             bindE (g_emit (GAddGroup low)) (\<lambda>_. ret True)))) w)"

definition HandleGroupAccept :: "g_env \<Rightarrow> uint64 \<Rightarrow> unit gop" where
  "HandleGroupAccept env me w =
     (if Option.bind (gw_players w me) gp_groupInvite \<noteq> Some (gr_ref (gw_group w)) then ret () w
      else
        bindE (gr_RemoveInvite me) (\<lambda>_.
        bindE (g_get id) (\<lambda>g.
        if gr_leaderGuid g = me then ret ()
        else if gr_IsFull g then h_SendPartyResult me PARTY_OP_INVITE [] ERR_GROUP_FULL
        else
          bindE (accept_create env) (\<lambda>ok.
          if \<not> ok then ret ()
          else bindE (gr_AddMember env me) (\<lambda>ok. g_when ok gr_BroadcastGroupUpdate)))) w)"

definition pl_UninviteFromGroup :: "g_env \<Rightarrow> uint64 \<Rightarrow> unit gop" where
  "pl_UninviteFromGroup env guid w =
     (if Option.bind (gw_players w guid) gp_groupInvite \<noteq> Some (gr_ref (gw_group w)) then ret () w
      else
        bindE (gr_RemoveInvite guid) (\<lambda>_.
        bindE (g_get gr_GetMembersCount) (\<lambda>n.
        g_when (n \<le> 1)
          (if n > 0 then gr_Disband env True else bindE gr_RemoveAllInvites (\<lambda>_. delete_group)))) w)"

definition HandleGroupDecline :: "g_env \<Rightarrow> uint64 \<Rightarrow> unit gop" where
  "HandleGroupDecline env me w =
     (case gw_players w me of
        None \<Rightarrow> ret () w
      | Some p \<Rightarrow>
          if gp_groupInvite p \<noteq> Some (gr_ref (gw_group w)) then ret () w
          else
            let leader = gr_leaderGuid (gw_group w); online = (gw_players w leader \<noteq> None)
            in bindE (pl_UninviteFromGroup env me) (\<lambda>_.
               g_when online (g_send leader SMSG_GROUP_DECLINE (gp_name p @ [0]))) w)"

section \<open>Removal\<close>

text \<open>The result for a player whose group this is; without a group it is \<^verbatim>\<open>ERR_NOT_IN_GROUP\<close>.\<close>

definition pl_CanUninviteFromGroup :: "g_env \<Rightarrow> h_env \<Rightarrow> uint64 \<Rightarrow> group \<Rightarrow> party_result" where
  "pl_CanUninviteFromGroup env he me g =
     (if gr_isLFGGroup g
      then
        if he_kicksLeft he = 0 then ERR_PARTY_LFG_BOOT_LIMIT
        else if he_lfgBoot he then ERR_PARTY_LFG_BOOT_IN_PROGRESS
        else if gr_GetMembersCount g \<le> LFG_GROUP_KICK_VOTES_NEEDED then ERR_PARTY_LFG_BOOT_TOO_FEW_PLAYERS
        else if ge_lfgFinished env then ERR_PARTY_LFG_BOOT_DUNGEON_COMPLETE
        else if gr_isRollLootActive g then ERR_PARTY_LFG_BOOT_LOOT_ROLLS
        else if \<exists>guid \<in> set (gr_memberMgr g). he_inCombat he guid then ERR_PARTY_LFG_BOOT_IN_COMBAT
        else ERR_PARTY_RESULT_OK
      else if \<not> h_leads me g then ERR_NOT_LEADER
      else if he_inBattleground he me then ERR_INVITE_RESTRICTED
      else ERR_PARTY_RESULT_OK)"

definition HandleGroupUninviteGuid :: "g_env \<Rightarrow> h_env \<Rightarrow> uint64 \<Rightarrow> uint64 \<Rightarrow> unit gop" where
  "HandleGroupUninviteGuid env he me guid =
     (if guid = me then ret ()
      else h_group_else me (\<lambda>_. h_SendPartyResult me PARTY_OP_UNINVITE [] ERR_NOT_IN_GROUP) (\<lambda>_ w.
        let g = gw_group w; res = pl_CanUninviteFromGroup env he me g
        in if res \<noteq> ERR_PARTY_RESULT_OK then h_SendPartyResult me PARTY_OP_UNINVITE [] res w
           else if gr_IsLeader guid g then h_SendPartyResult me PARTY_OP_UNINVITE [] ERR_NOT_LEADER w
           else if gr_IsMember guid g then bindE (gr_RemoveMember env guid REMOVE_KICK) (\<lambda>_. ret ()) w
           else if gr_GetInvited guid g then pl_UninviteFromGroup env guid w
           else h_SendPartyResult me PARTY_OP_UNINVITE [] ERR_TARGET_NOT_IN_GROUP_S w))"

definition gr_GetInvitedByName :: "uint8 list \<Rightarrow> gworld \<Rightarrow> uint64 option" where
  "gr_GetInvitedByName name w =
     find (\<lambda>guid. map_option gp_name (gw_players w guid) = Some name) (gr_invitees (gw_group w))"

definition HandleGroupUninvite :: "g_env \<Rightarrow> h_env \<Rightarrow> uint64 \<Rightarrow> uint8 list \<Rightarrow> unit gop" where
  "HandleGroupUninvite env he me membername =
     (case normalizePlayerName membername of
        Inl _ \<Rightarrow> throw GroupUndefined
      | Inr None \<Rightarrow> ret ()
      | Inr (Some name) \<Rightarrow>
          h_group_else me
            (\<lambda>p. if gp_name p = name then ret () else h_SendPartyResult me PARTY_OP_UNINVITE [] ERR_NOT_IN_GROUP)
            (\<lambda>p w.
            let g = gw_group w; res = pl_CanUninviteFromGroup env he me g; guid = gr_GetMemberGUID name g
            in if gp_name p = name then ret () w
               else if res \<noteq> ERR_PARTY_RESULT_OK then h_SendPartyResult me PARTY_OP_UNINVITE [] res w
               else if guid \<noteq> 0 then bindE (gr_RemoveMember env guid REMOVE_KICK) (\<lambda>_. ret ()) w
               else case gr_GetInvitedByName name w of
                   Some i \<Rightarrow> pl_UninviteFromGroup env i w
                 | None \<Rightarrow> h_SendPartyResult me PARTY_OP_UNINVITE name ERR_TARGET_NOT_IN_GROUP_S w))"

definition HandleGroupDisband :: "g_env \<Rightarrow> h_env \<Rightarrow> uint64 \<Rightarrow> unit gop" where
  "HandleGroupDisband env he me =
     h_group me (\<lambda>p.
       if he_inBattleground he me then h_SendPartyResult me PARTY_OP_INVITE [] ERR_INVITE_RESTRICTED
       else bindE (h_SendPartyResult me PARTY_OP_LEAVE (gp_name p) ERR_PARTY_RESULT_OK) (\<lambda>_.
            bindE (gr_RemoveMember env me REMOVE_LEAVE) (\<lambda>_. ret ())))"

section \<open>Leader and loot\<close>

definition HandleGroupSetLeader :: "g_env \<Rightarrow> uint64 \<Rightarrow> uint64 \<Rightarrow> unit gop" where
  "HandleGroupSetLeader env me guid =
     h_group me (\<lambda>_ w.
       case gw_players w guid of
         None \<Rightarrow> ret () w
       | Some q \<Rightarrow>
           if \<not> gr_IsLeader me (gw_group w) \<or> gp_group q \<noteq> Some (gr_ref (gw_group w)) then ret () w
           else bindE (gr_ChangeLeader guid) (\<lambda>_. gr_SendUpdate env) w)"

definition HandleLootMethod :: "g_env \<Rightarrow> uint64 \<Rightarrow> uint32 \<Rightarrow> uint64 \<Rightarrow> uint32 \<Rightarrow> unit gop" where
  "HandleLootMethod env me lootMethod lootMaster lootThreshold =
     h_group me (\<lambda>_ w.
       if \<not> gr_IsLeader me (gw_group w) \<or> unat lootMethod > unat NEED_BEFORE_GREED
          \<or> unat lootThreshold < unat ITEM_QUALITY_UNCOMMON \<or> unat lootThreshold > ITEM_QUALITY_ARTIFACT
          \<or> (unat lootMethod = unat MASTER_LOOT \<and> \<not> gr_IsMember lootMaster (gw_group w))
       then ret () w
       else
         bindE (gr_SetLootMethod (ucast lootMethod)) (\<lambda>_.
         bindE (gr_SetMasterLooterGuid lootMaster) (\<lambda>_.
         bindE (gr_SetLootThreshold (ucast lootThreshold)) (\<lambda>_.
         gr_SendUpdate env))) w)"

definition HandleLootRoll :: "g_env \<Rightarrow> uint64 \<Rightarrow> uint64 \<Rightarrow> uint8 \<Rightarrow> unit gop" where
  "HandleLootRoll env me guid rollType =
     h_group me (\<lambda>_.
       bindE (gr_CountRollVote env me guid rollType) (\<lambda>_.
       g_when (rollType = ROLL_NEED \<or> rollType = ROLL_GREED) (g_emit (GVoteAchievement me rollType))))"

text \<open>The coordinates are passed on as the eight bytes that were read.\<close>

definition HandleMinimapPing :: "uint64 \<Rightarrow> uint8 list \<Rightarrow> unit gop" where
  "HandleMinimapPing me xy =
     h_group me (\<lambda>_. gr_BroadcastPacket MSG_MINIMAP_PING (le_bytes 8 me @ xy) True None me)"

text \<open>The answer of a player without a group goes only to him; it does not concern the group.\<close>

definition HandleRandomRoll :: "h_env \<Rightarrow> uint64 \<Rightarrow> uint32 \<Rightarrow> uint32 \<Rightarrow> unit gop" where
  "HandleRandomRoll he me minimum maximum =
     (if minimum > maximum \<or> maximum > 10000 then ret ()
      else
        let bs = le_bytes 4 minimum @ le_bytes 4 maximum @ le_bytes 4 (he_urand he minimum maximum) @ le_bytes 8 me
        in h_group_else me (\<lambda>_. g_send me MSG_RANDOM_ROLL bs) (\<lambda>_. gr_BroadcastPacket MSG_RANDOM_ROLL bs False None 0))"

section \<open>Raids\<close>

definition guid_IsPlayer :: "uint64 \<Rightarrow> bool" where
  "guid_IsPlayer guid \<longleftrightarrow> guid \<noteq> 0 \<and> drop_bit 48 guid = 0"

definition HandleRaidTargetUpdate :: "h_env \<Rightarrow> uint64 \<Rightarrow> uint8 \<Rightarrow> uint64 \<Rightarrow> unit gop" where
  "HandleRaidTargetUpdate he me x guid =
     h_group me (\<lambda>_ w.
       if x = 0xFF then gr_SendTargetIconList me w
       else if gr_isRaidGroup (gw_group w) \<and> \<not> h_leads me (gw_group w) then ret () w
       else if guid_IsPlayer guid \<and> (gw_players w guid = None \<or> he_hostile he guid me) then ret () w
       else gr_SetTargetIcon x me guid w)"

definition HandleGroupRaidConvert :: "g_env \<Rightarrow> h_env \<Rightarrow> uint64 \<Rightarrow> unit gop" where
  "HandleGroupRaidConvert env he me =
     h_group me (\<lambda>_ w.
       if he_inBattleground he me \<or> \<not> gr_IsLeader me (gw_group w) \<or> gr_GetMembersCount (gw_group w) < 2
       then ret () w
       else bindE (h_SendPartyResult me PARTY_OP_INVITE [] ERR_PARTY_RESULT_OK) (\<lambda>_. gr_ConvertToRaid env) w)"

definition HandleGroupChangeSubGroup :: "g_env \<Rightarrow> h_env \<Rightarrow> uint64 \<Rightarrow> uint8 list \<Rightarrow> uint8 \<Rightarrow> unit gop" where
  "HandleGroupChangeSubGroup env he me name groupNr =
     h_group me (\<lambda>_ w.
       if unat groupNr \<ge> MAX_RAID_SUBGROUPS \<or> \<not> h_leads me (gw_group w) then ret () w
       else case gr_HasFreeSlotSubGroup groupNr (gw_group w) of
         Inl e \<Rightarrow> throw e w
       | Inr False \<Rightarrow> ret () w
       | Inr True \<Rightarrow>
           let guid = (case he_findByName he name of Some q \<Rightarrow> q | None \<Rightarrow> he_guidByName he name)
           in gr_ChangeMembersGroup env guid groupNr w)"

definition HandleGroupAssistantLeader :: "g_env \<Rightarrow> uint64 \<Rightarrow> uint64 \<Rightarrow> bool \<Rightarrow> unit gop" where
  "HandleGroupAssistantLeader env me guid apply =
     h_group me (\<lambda>_ w.
       if \<not> gr_IsLeader me (gw_group w) then ret () w
       else gr_SetGroupMemberFlag env guid apply MEMBER_FLAG_ASSISTANT w)"

definition HandlePartyAssignment :: "g_env \<Rightarrow> uint64 \<Rightarrow> uint8 \<Rightarrow> bool \<Rightarrow> uint64 \<Rightarrow> unit gop" where
  "HandlePartyAssignment env me assignment apply guid =
     h_group me (\<lambda>_ w.
       if \<not> h_leads me (gw_group w) then ret () w
       else
         bindE (if assignment = GROUP_ASSIGN_MAINASSIST
                then bindE (gr_RemoveUniqueGroupMemberFlag MEMBER_FLAG_MAINASSIST) (\<lambda>_.
                     gr_SetGroupMemberFlag env guid apply MEMBER_FLAG_MAINASSIST)
                else if assignment = GROUP_ASSIGN_MAINTANK
                then bindE (gr_RemoveUniqueGroupMemberFlag MEMBER_FLAG_MAINTANK) (\<lambda>_.
                     gr_SetGroupMemberFlag env guid apply MEMBER_FLAG_MAINTANK)
                else ret ()) (\<lambda>_. gr_SendUpdate env) w)"

text \<open>An empty message is the request, otherwise it is the answer.\<close>

definition HandleRaidReadyCheck :: "uint64 \<Rightarrow> uint8 option \<Rightarrow> unit gop" where
  "HandleRaidReadyCheck me state =
     h_group me (\<lambda>_ w.
       case state of
         None \<Rightarrow>
           if \<not> h_leads me (gw_group w) then ret () w
           else bindE (gr_BroadcastPacket MSG_RAID_READY_CHECK (le_bytes 8 me) False None 0) (\<lambda>_. gr_OfflineReadyCheck) w
       | Some st \<Rightarrow> gr_BroadcastReadyCheck (le_bytes 8 me @ [st]) w)"

section \<open>The messages as steps\<close>

datatype g_msg =
    MInvite uint64 "uint8 list"
  | MAccept uint64
  | MDecline uint64
  | MUninviteGuid uint64 uint64
  | MUninvite uint64 "uint8 list"
  | MLeave uint64
  | MSetLeader uint64 uint64
  | MLootMethod uint64 uint32 uint64 uint32
  | MLootRoll uint64 uint64 uint8
  | MMinimapPing uint64 "uint8 list"
  | MRandomRoll uint64 uint32 uint32
  | MRaidTarget uint64 uint8 uint64
  | MRaidConvert uint64
  | MChangeSubGroup uint64 "uint8 list" uint8
  | MAssistant uint64 uint64 bool
  | MAssignment uint64 uint8 bool uint64
  | MReadyCheck uint64 "uint8 option"

fun g_handle :: "g_env \<Rightarrow> h_env \<Rightarrow> g_msg \<Rightarrow> unit gop" where
  "g_handle env he (MInvite me name) = HandleGroupInvite he me name"
| "g_handle env he (MAccept me) = HandleGroupAccept env me"
| "g_handle env he (MDecline me) = HandleGroupDecline env me"
| "g_handle env he (MUninviteGuid me guid) = HandleGroupUninviteGuid env he me guid"
| "g_handle env he (MUninvite me name) = HandleGroupUninvite env he me name"
| "g_handle env he (MLeave me) = HandleGroupDisband env he me"
| "g_handle env he (MSetLeader me guid) = HandleGroupSetLeader env me guid"
| "g_handle env he (MLootMethod me m l q) = HandleLootMethod env me m l q"
| "g_handle env he (MLootRoll me guid c) = HandleLootRoll env me guid c"
| "g_handle env he (MMinimapPing me xy) = HandleMinimapPing me xy"
| "g_handle env he (MRandomRoll me lo hi) = HandleRandomRoll he me lo hi"
| "g_handle env he (MRaidTarget me x guid) = HandleRaidTargetUpdate he me x guid"
| "g_handle env he (MRaidConvert me) = HandleGroupRaidConvert env he me"
| "g_handle env he (MChangeSubGroup me name n) = HandleGroupChangeSubGroup env he me name n"
| "g_handle env he (MAssistant me guid b) = HandleGroupAssistantLeader env me guid b"
| "g_handle env he (MAssignment me a b guid) = HandlePartyAssignment env me a b guid"
| "g_handle env he (MReadyCheck me st) = HandleRaidReadyCheck me st"

text \<open>
  The states a group can be in: a new group of players or of a battleground, then step after step,
  each under any answers of the environment. A group that has been deleted takes no further step.
  Besides the messages there are the steps of the server: a battleground adds a player, the looter
  is chosen, the dungeon finder marks the group, the timer of a loot ends its rolls; players come online,
  go offline and change, loots appear, rolls start.
\<close>

inductive g_step :: "gworld \<Rightarrow> gworld \<Rightarrow> bool" where
  msg: "g_step w (snd (g_handle env he m w))"
| bg_create: "gr_memberSlots (gw_group w) = [] \<Longrightarrow> g_step w (snd (gr_Create env leader w))"
| bg_join: "gr_isBG (gw_group w) \<Longrightarrow> gr_memberSlots (gw_group w) \<noteq> [] \<Longrightarrow> g_step w (snd (gr_AddMember env guid w))"
| remove: "g_step w (snd (gr_RemoveMember env guid how w))"
| looter: "g_step w (snd (gr_UpdateLooterGuid env ifneed w))"
| lfg: "g_step w (snd (gr_ConvertToLFG env w))"
| roles: "g_step w (snd (gr_SetLfgRoles env guid r w))"
| end_roll: "g_step w (snd (gr_EndRoll env k w))"
| world: "g_step w (w\<lparr>gw_players := ps, gw_loots := ls, gw_group := (gw_group w)\<lparr>gr_RollId := rs, gr_memberMgr := ms\<rparr>\<rparr>)"

inductive g_reach :: "gworld \<Rightarrow> bool" where
  new: "gw_group w = (gr_new ref)\<lparr>gr_bgGroup := bg, gr_bfGroup := bf\<rparr> \<Longrightarrow> g_reach w"
| step: "g_reach w \<Longrightarrow> \<not> gw_disbanded w \<Longrightarrow> g_step w w' \<Longrightarrow> g_reach w'"

end
