(* ===== verification/Group_Inv.thy ===== *)
theory Group_Inv
  imports Group_Handlers
begin

text \<open>
  The invariant of a group: the counters of the subgroups are the numbers of members in the
  subgroups, no subgroup has more than five members, and only raids have counters. The locale
  \<open>group_frame\<close> collects the operations that change none of the fields the invariant looks at.
\<close>

section \<open>The invariant\<close>

definition sub_size :: "group \<Rightarrow> nat \<Rightarrow> nat" where
  "sub_size g i = length (filter (\<lambda>m. unat (ms_group m) = i) (gr_memberSlots g))"

definition group_ok :: "group \<Rightarrow> bool" where
  "group_ok g \<longleftrightarrow>
     gr_subGroupsCounts g =
       (if gr_isRaidGroup g then Some (map (\<lambda>i. of_nat (sub_size g i)) [0 ..< MAX_RAID_SUBGROUPS]) else None)
     \<and> (\<forall>m \<in> set (gr_memberSlots g). unat (ms_group m) < MAX_RAID_SUBGROUPS)
     \<and> (\<forall>i. sub_size g i \<le> MAXGROUPSIZE)
     \<and> (\<not> gr_isRaidGroup g \<longrightarrow> (\<forall>m \<in> set (gr_memberSlots g). ms_group m = 0))
     \<and> (gr_isBG g \<and> gr_memberSlots g \<noteq> [] \<longrightarrow> gr_isRaidGroup g)"

text \<open>The condition on a state: it holds of the group as long as it has not been deleted.\<close>

definition of_group :: "(group \<Rightarrow> bool) \<Rightarrow> gworld \<Rightarrow> bool" where
  "of_group P w \<longleftrightarrow> gw_disbanded w \<or> P (gw_group w)"

definition group_okn :: "nat \<Rightarrow> group \<Rightarrow> bool" where
  "group_okn n g \<longleftrightarrow> group_ok g \<and> length (gr_memberSlots g) = n"

text \<open>
  What the invariant looks at and which players are online, without the leader and the mark of
  the dungeon finder and with them
\<close>

definition group_view :: "group \<Rightarrow> uint64 list \<times> uint8 list \<times> uint8 list option \<times> bool \<times> bool" where
  "group_view g = (map ms_guid (gr_memberSlots g), map ms_group (gr_memberSlots g), gr_subGroupsCounts g,
     gr_isRaidGroup g, gr_isBG g)"

definition same_group :: "gworld \<Rightarrow> gworld \<Rightarrow> bool" where
  "same_group w w' \<longleftrightarrow> gw_disbanded w' = gw_disbanded w \<and> dom (gw_players w') = dom (gw_players w)
     \<and> group_view (gw_group w') = group_view (gw_group w)"

definition leader_view :: "group \<Rightarrow> (uint64 list \<times> uint8 list \<times> uint8 list option \<times> bool \<times> bool) \<times> uint64 \<times> bool" where
  "leader_view g = (group_view g, gr_leaderGuid g, gr_isLFGGroup g)"

definition same_leader :: "gworld \<Rightarrow> gworld \<Rightarrow> bool" where
  "same_leader w w' \<longleftrightarrow> same_group w w' \<and> gr_leaderGuid (gw_group w') = gr_leaderGuid (gw_group w)
     \<and> gr_isLFGGroup (gw_group w') = gr_isLFGGroup (gw_group w)"

section \<open>Operations outside the view of the invariant\<close>

locale leader_frame =
  fixes P :: "gworld \<Rightarrow> bool"
  assumes frame: "same_leader w w' \<Longrightarrow> P w \<Longrightarrow> P w'"
begin

lemma keeps_same: "(\<And>w. same_leader w (snd (m w))) \<Longrightarrow> keeps P m"
  unfolding keeps_def by (metis frame)

lemma keeps_upd: "(\<And>g. leader_view (f g) = leader_view g) \<Longrightarrow> keeps P (g_upd f)"
  by (rule keeps_same) (simp add: g_upd_def same_leader_def same_group_def leader_view_def)

lemma keeps_emit: "keeps P (g_emit e)"
  by (rule keeps_same) (simp add: g_emit_def same_leader_def same_group_def)

lemma keeps_get: "keeps P (g_get f)"
  by (simp add: keeps_def g_get_def)

lemma keeps_when: "(b \<Longrightarrow> keeps P m) \<Longrightarrow> keeps P (g_when b m)"
  by (simp add: g_when_def keeps_ret)

lemma keeps_find: "keeps P (g_FindPlayer guid)"
  by (simp add: keeps_def g_FindPlayer_def)

lemma keeps_player: "keeps P (g_player guid f)"
  by (rule keeps_same) (auto simp: g_player_def same_leader_def same_group_def dom_def map_option_case split: option.splits)

lemma keeps_loot: "keeps P (g_loot k f)"
  by (rule keeps_same) (simp add: g_loot_def same_leader_def same_group_def)

lemma keeps_urand: "keeps P (g_urand env)"
  by (rule keeps_same) (simp add: g_urand_def same_leader_def same_group_def)

lemma keeps_opt:
  "keeps I m \<Longrightarrow> (\<And>x. keeps I (f x)) \<Longrightarrow> keeps I (case_option m f r)"
  by (simp split: option.split)

lemma keeps_ifOnline: "(\<And>p. keeps P (f p)) \<Longrightarrow> keeps P (g_ifOnline guid f)"
  unfolding g_ifOnline_def by (rule keeps_bindE [OF keeps_find]) (simp add: keeps_ret split: option.split)

lemma keeps_deref: "(\<And>p. keeps P (f p)) \<Longrightarrow> keeps P (g_deref guid f)"
  unfolding g_deref_def by (rule keepsI) (auto split: option.split dest: keepsD)

lemma keeps_send: "keeps P (g_send guid opcode bs)"
  unfolding g_send_def by (rule keeps_emit)

text \<open>For operations that are defined by their value in a state\<close>

lemma at_bind:
  "P w \<Longrightarrow> keeps P m \<Longrightarrow> (\<And>x. keeps P (f x)) \<Longrightarrow>
   P (snd (bindE m f w))"
  by (blast intro: keepsD keeps_bindE)

lemma at_ret: "P w \<Longrightarrow> P (snd (ret x w))"
  by simp

lemma at_when: "P w \<Longrightarrow> keeps P m \<Longrightarrow> P (snd (g_when b m w))"
  by (blast intro: keepsD keeps_when)

lemmas basic = keeps_rules keeps_emit keeps_get keeps_when keeps_find keeps_player keeps_loot
  keeps_urand keeps_opt keeps_ifOnline keeps_deref keeps_send

lemmas views = leader_view_def group_view_def gr_isRaidGroup_def gr_isBG_def gr_isLFGGroup_def

text \<open>Links\<close>

lemma keeps_upd_unlink: "keeps P (g_upd (if b then gr_unlink guid else id))"
  by (rule keeps_upd) (simp add: views gr_unlink_def)

lemma keeps_upd_unlinks: "keeps P (g_upd (gr_unlink guid))" "keeps P (g_upd id)"
  using keeps_upd_unlink [of True guid] keeps_upd_unlink [of False guid] by simp_all

lemma keeps_upd_link: "keeps P (g_upd (if b then gr_LinkMember guid else id))"
  by (rule keeps_upd) (simp add: views gr_LinkMember_def)

lemma keeps_unlink_group: "keeps P (g_unlink_group guid)"
  unfolding keeps_def g_unlink_group_def
  by (auto split: option.split intro!: at_bind keeps_player keeps_upd_unlinks)

lemma keeps_unlink_original: "keeps P (g_unlink_original guid)"
  unfolding keeps_def g_unlink_original_def
  by (auto split: option.split intro!: at_bind keeps_player keeps_upd_unlinks)

lemma keeps_link_state: "keeps P (\<lambda>w. g_upd (if grp = gr_ref (gw_group w) then gr_LinkMember guid else id) w)"
  using keeps_upd_link [of _ guid] by (simp add: keeps_def)

lemma keeps_link_group: "keeps P (g_link_group guid grp sub)"
  unfolding g_link_group_def by (intro keeps_bindE keeps_unlink_group keeps_link_state keeps_player)

lemma keeps_link_original: "keeps P (g_link_original guid grp sub)"
  unfolding g_link_original_def by (intro keeps_bindE keeps_unlink_original keeps_link_state keeps_player)

lemma keeps_SetGroup: "keeps P (pl_SetGroup guid grp)"
  by (simp add: pl_SetGroup_def keeps_unlink_group keeps_link_group split: option.split prod.split)

lemma keeps_SetOriginalGroup: "keeps P (pl_SetOriginalGroup guid grp)"
  by (simp add: pl_SetOriginalGroup_def keeps_unlink_original keeps_link_original split: option.split prod.split)

lemma keeps_SetBattleground: "keeps P (pl_SetBattlegroundOrBattlefieldRaid guid grp sub)"
  unfolding pl_SetBattlegroundOrBattlefieldRaid_def
  by (intro keeps_bindE keeps_ifOnline keeps_SetOriginalGroup keeps_unlink_group keeps_link_group)

lemma keeps_RemoveFromBattleground: "keeps P (pl_RemoveFromBattlegroundOrBattlefieldRaid guid)"
  unfolding pl_RemoveFromBattlegroundOrBattlefieldRaid_def
  by (intro keeps_bindE keeps_ifOnline keeps_opt keeps_ret keeps_SetOriginalGroup keeps_unlink_group keeps_link_group)

lemmas links = keeps_unlink_group keeps_unlink_original keeps_SetGroup keeps_SetOriginalGroup
  keeps_SetBattleground keeps_RemoveFromBattleground

text \<open>Packets\<close>

lemma keeps_SendUpdateToPlayer: "keeps P (gr_SendUpdateToPlayer env guid slot)"
proof -
  have c: "keeps P (g_upd (\<lambda>g. g\<lparr>gr_counter := gr_counter g + 1\<rparr>))"
    by (rule keeps_upd) (simp add: views)
  show ?thesis unfolding keeps_def gr_SendUpdateToPlayer_def
    by (auto simp: Let_def split: option.split intro!: at_bind c keeps_send)
qed

lemma keeps_SendUpdate: "keeps P (gr_SendUpdate env)"
  unfolding gr_SendUpdate_def by (intro keeps_bindE keeps_get keeps_forE keeps_SendUpdateToPlayer)

lemma keeps_BroadcastPacket: "keeps P (gr_BroadcastPacket opcode bs b sub guid)"
  unfolding gr_BroadcastPacket_def
  by (intro keeps_bindE keeps_get keeps_forE)
     (rule keepsI, auto simp: Let_def split: option.split intro!: at_when keeps_send)

lemma keeps_BroadcastReadyCheck: "keeps P (gr_BroadcastReadyCheck bs)"
  unfolding gr_BroadcastReadyCheck_def
  by (intro keeps_bindE keeps_get keeps_forE) (rule keepsI, auto intro!: at_when keeps_send)

lemma keeps_OfflineReadyCheck: "keeps P gr_OfflineReadyCheck"
  unfolding gr_OfflineReadyCheck_def
  by (intro keeps_bindE keeps_get keeps_forE keeps_find keeps_when keeps_BroadcastReadyCheck)

lemma keeps_BroadcastGroupUpdate: "keeps P gr_BroadcastGroupUpdate"
  unfolding gr_BroadcastGroupUpdate_def
  by (intro keeps_bindE keeps_get keeps_forE keeps_ifOnline keeps_emit)

lemma keeps_SendPartyResult: "keeps P (h_SendPartyResult me oper name res)"
  unfolding h_SendPartyResult_def by (rule keeps_send)

lemmas packets = keeps_SendUpdate keeps_BroadcastPacket keeps_BroadcastReadyCheck keeps_OfflineReadyCheck
  keeps_BroadcastGroupUpdate keeps_SendPartyResult

text \<open>Rolls\<close>

lemma keeps_ro_send: "keeps P (ro_send Q opcode bs r)"
  unfolding ro_send_def
  by (intro keeps_forE) (auto split: prod.split intro!: keeps_ifOnline keeps_when keeps_send)

lemma keeps_SendLootRoll: "keeps P (gr_SendLootRoll s t n k r)"
  unfolding gr_SendLootRoll_def by (rule keeps_ro_send)

lemma keeps_item: "keeps P (g_item k slot f)"
  unfolding keeps_def g_item_def by (auto split: option.split intro!: keepsD [OF keeps_loot])

lemma keeps_item_taken: "keeps P (item_taken k slot)"
  unfolding item_taken_def by (intro keeps_bindE keeps_item keeps_emit keeps_loot)

lemma keeps_store_item: "keeps P (store_item env guid k r)"
  unfolding store_item_def by (intro keeps_if keeps_bindE keeps_item keeps_item_taken keeps_emit)

lemma keeps_disenchant_item: "keeps P (disenchant_item env guid k r)"
  unfolding disenchant_item_def by (intro keeps_bindE keeps_item_taken keeps_emit)

lemma keeps_roll_loop: "keeps P (roll_loop env Q r vs best)"
  by (induction env Q r vs best rule: roll_loop.induct)
     (simp_all add: keeps_ret keeps_bindE keeps_urand keeps_SendLootRoll del: ret_apply)

lemma keeps_rolls_upd: "keeps P (g_upd (\<lambda>g. g\<lparr>gr_RollId := f g\<rparr>))"
  by (rule keeps_upd) (simp add: views)

lemma keeps_decide_roll: "keeps P (decide_roll env r)"
  unfolding decide_roll_def gr_SendLootRollWon_def gr_SendLootAllPassed_def
  by (auto split: option.split prod.split intro!: keeps_bindE keeps_ret keeps_roll_loop keeps_ro_send keeps_ifOnline
      keeps_emit keeps_store_item keeps_disenchant_item keeps_item simp del: ret_apply)

lemma keeps_CountTheRoll: "keeps P (gr_CountTheRoll env i)"
  unfolding gr_CountTheRoll_def by (intro keeps_bindE keeps_get keeps_decide_roll keeps_rolls_upd)

lemma keeps_announce: "keeps P (roll_announce guid choice r)"
  unfolding roll_announce_def by (intro keeps_if keeps_SendLootRoll keeps_ret)

lemma keeps_CountRollVote: "keeps P (gr_CountRollVote env me guid choice)"
proof -
  have u: "keeps P (g_upd (\<lambda>g. g\<lparr>gr_RollId := (gr_RollId g)[i := r]\<rparr>))" for i r
    by (rule keeps_rolls_upd)
  show ?thesis unfolding keeps_def gr_CountRollVote_def
    by (auto simp: Let_def split: option.split
          intro!: at_bind keeps_bindE keeps_announce u keeps_when keeps_CountTheRoll)
qed

lemma keeps_end_roll_loop: "keeps P (end_roll_loop env k n)"
proof (induction n)
  case 0
  show ?case by (simp add: keeps_def)
next
  case (Suc n)
  show ?case by (rule keepsI) (auto split: option.split intro!: at_bind keeps_CountTheRoll Suc.IH)
qed

lemma keeps_EndRoll: "keeps P (gr_EndRoll env k)"
  using keeps_end_roll_loop [of env k] by (simp add: keeps_def gr_EndRoll_def)

lemmas rolls = keeps_CountRollVote keeps_EndRoll

section \<open>Operations on the group that keep the view\<close>

end

lemma map_group_upd_slot [simp]:
  "(\<And>m. ms_group (f m) = ms_group m) \<Longrightarrow> map ms_group (upd_slot guid f ms) = map ms_group ms"
  by (induction guid f ms rule: upd_slot.induct) auto

lemma ms_group_toggle [simp]: "ms_group (toggle_flag flag b m) = ms_group m"
  by (simp add: toggle_flag_def)

lemma isRaid_LFG: "(t OR GROUPTYPE_LFG OR GROUPTYPE_LFG_RESTRICTED) AND GROUPTYPE_RAID = t AND GROUPTYPE_RAID"
  by (simp add: word_ao_dist GROUPTYPE_LFG_def GROUPTYPE_LFG_RESTRICTED_def GROUPTYPE_RAID_def)

lemma map_guid_upd_slot [simp]:
  "(\<And>m. ms_guid (f m) = ms_guid m) \<Longrightarrow> map ms_guid (upd_slot guid f ms) = map ms_guid ms"
  by (induction guid f ms rule: upd_slot.induct) auto

lemma ms_guid_toggle [simp]: "ms_guid (toggle_flag flag b m) = ms_guid m"
  by (simp add: toggle_flag_def)

context leader_frame
begin

lemma keeps_RemoveInvite: "keeps P (gr_RemoveInvite guid)"
  unfolding gr_RemoveInvite_def by (intro keeps_bindE keeps_player keeps_upd) (simp add: views)

lemma keeps_RemoveAllInvites: "keeps P gr_RemoveAllInvites"
  unfolding gr_RemoveAllInvites_def
  by (intro keeps_bindE keeps_get keeps_forE keeps_player keeps_upd) (simp add: views)

lemma keeps_AddInvite: "keeps P (gr_AddInvite isbg guid)"
  unfolding gr_AddInvite_def Let_def
  by (intro keeps_deref keeps_if keeps_bindE keeps_ret keeps_RemoveInvite keeps_get keeps_player keeps_emit keeps_upd)
     (simp add: views)

lemma keeps_add_link: "keeps P (add_link guid sub)"
  unfolding add_link_def by (intro keeps_deref keeps_bindE keeps_get keeps_if links)

lemma keeps_add_instances: "keeps P (add_instances guid)"
  unfolding add_instances_def by (intro keeps_bindE keeps_emit keeps_deref keeps_get keeps_when keeps_player)

lemma keeps_add_follow: "keeps P (add_follow env guid player sub)"
proof -
  have i: "keeps P (g_upd (\<lambda>g. if gr_isRaidGroup g then g
             else g\<lparr>gr_targetIcons := replicate TARGETICONCOUNT 0\<rparr>))"
    and e: "keeps P (g_upd (\<lambda>g. if gr_maxEnchantingLevel g < n
             then g\<lparr>gr_maxEnchantingLevel := n\<rparr> else g))" for n
    by (rule keeps_upd, simp add: views)+
  show ?thesis unfolding add_follow_def
    by (intro keeps_bindE keeps_player keeps_add_link keeps_when keeps_emit i keeps_get keeps_SendUpdate
          keeps_add_instances e)
qed

lemma keeps_upd_type: "keeps P upd_type"
  unfolding upd_type_def by (intro keeps_bindE keeps_get keeps_when keeps_emit)

lemma keeps_Toggle: "keeps P (gr_ToggleGroupMemberFlag guid flag b)"
  unfolding gr_ToggleGroupMemberFlag_def by (rule keeps_upd) (simp add: views)

lemma keeps_RemoveUnique: "keeps P (gr_RemoveUniqueGroupMemberFlag flag)"
  unfolding gr_RemoveUniqueGroupMemberFlag_def by (rule keeps_upd) (simp add: views)

lemma keeps_SetGroupMemberFlag: "keeps P (gr_SetGroupMemberFlag env guid b flag)"
  by (rule keepsI)
     (auto simp: gr_SetGroupMemberFlag_def split: option.split
       intro!: at_ret at_bind keeps_bindE keeps_when keeps_RemoveUnique keeps_Toggle keeps_get keeps_opt keeps_ret
         keeps_emit keeps_SendUpdate simp del: ret_apply)

lemma keeps_store_icon: "keeps P (store_icon i who target)"
  unfolding store_icon_def by (intro keeps_bindE keeps_BroadcastPacket keeps_upd) (simp add: views)

lemma keeps_SetTargetIcon: "keeps P (gr_SetTargetIcon i who target)"
  unfolding gr_SetTargetIcon_def
  by (intro keeps_if keeps_ret keeps_bindE keeps_when keeps_forE keeps_get keeps_store_icon)

lemma keeps_SendTargetIconList: "keeps P (gr_SendTargetIconList guid)"
  unfolding gr_SendTargetIconList_def by (intro keeps_bindE keeps_get keeps_send)

lemma keeps_SetLfgRoles: "keeps P (gr_SetLfgRoles env guid roles)"
proof -
  have "keeps P (g_upd (\<lambda>g. g\<lparr>gr_memberSlots := upd_slot guid (\<lambda>m. m\<lparr>ms_roles := roles\<rparr>) (gr_memberSlots g)\<rparr>))"
    by (rule keeps_upd) (simp add: views)
  then show ?thesis
    by - (rule keepsI, auto simp: gr_SetLfgRoles_def intro!: at_bind keeps_SendUpdate)
qed

lemma keeps_ResetMax: "keeps P gr_ResetMaxEnchantingLevel"
  unfolding gr_ResetMaxEnchantingLevel_def
  by (intro keeps_bindE keeps_get keeps_forE keeps_ifOnline keeps_upd) (simp_all add: views)

lemma keeps_loot_settings:
  "keeps P (gr_SetLootMethod m)" "keeps P (gr_SetLooterGuid guid)"
  "keeps P (gr_SetMasterLooterGuid guid)" "keeps P (gr_SetLootThreshold q)"
  unfolding gr_SetLootMethod_def gr_SetLooterGuid_def gr_SetMasterLooterGuid_def gr_SetLootThreshold_def
  by (rule keeps_upd, simp add: views)+

lemma keeps_UpdateLooterGuid: "keeps P (gr_UpdateLooterGuid env b)"
  by (rule keepsI)
     (auto simp: gr_UpdateLooterGuid_def Let_def split: option.split
       intro!: at_bind keeps_loot_settings keeps_SendUpdate)

lemma keeps_leave_group: "keeps P (leave_group guid)"
  by (rule keepsI)
     (auto simp: leave_group_def split: option.split
       intro: keepsD [OF keeps_RemoveFromBattleground] keepsD [OF keeps_SetOriginalGroup] keepsD [OF keeps_SetGroup])

lemma keeps_disband_member: "keeps P (disband_member env hide guid)"
  by (rule keepsI)
     (auto simp: disband_member_def
       intro!: at_bind keeps_bindE keeps_leave_group keeps_get keeps_when keeps_emit keeps_send keeps_ifOnline
         keeps_opt keeps_if keeps_SendUpdate)

lemma keeps_Delink: "keeps P (gr_DelinkMember guid)"
  by (rule keepsI)
     (auto simp: gr_DelinkMember_def split: option.split
       intro: keepsD [OF keeps_unlink_group] keepsD [OF keeps_unlink_original] keepsD [OF keeps_upd_unlinks(1)])

lemma keeps_leave_rolls: "keeps P (leave_rolls env guid)"
proof -
  have u: "keeps P (g_upd (\<lambda>g. g\<lparr>gr_RollId := (gr_RollId g)[i := r]\<rparr>))" for i r
    by (rule keeps_rolls_upd)
  have "keeps P (leave_roll env guid i)" for i
    by (rule keepsI)
       (auto simp: leave_roll_def Let_def split: option.split intro!: at_bind u keeps_CountRollVote)
  then show ?thesis unfolding leave_rolls_def by (intro keeps_bindE keeps_get keeps_forE)
qed

lemma keeps_tell_removed: "keeps P (tell_removed guid how)"
  unfolding tell_removed_def by (intro keeps_bindE keeps_when keeps_send keeps_get keeps_emit)

end

text \<open>Conditions that look at neither\<close>

locale group_frame = leader_frame +
  assumes frame_group: "same_group w w' \<Longrightarrow> P w \<Longrightarrow> P w'"
begin

lemma keeps_upd_leader: "(\<And>g. group_view (f g) = group_view g) \<Longrightarrow> keeps P (g_upd f)"
proof (rule keepsI)
  fix w assume "\<And>g. group_view (f g) = group_view g" and "P w"
  then show "P (snd (g_upd f w))" by - (rule frame_group [of w], simp_all add: same_group_def g_upd_def)
qed

lemma keeps_AddLeaderInvite: "keeps P (gr_AddLeaderInvite isbg guid)"
  unfolding gr_AddLeaderInvite_def
  by (intro keeps_bindE keeps_AddInvite keeps_if keeps_ret keeps_deref keeps_upd_leader) (simp add: views)

lemma keeps_ConvertToLFG: "keeps P (gr_ConvertToLFG env)"
  unfolding gr_ConvertToLFG_def
  by (intro keeps_bindE keeps_upd_type keeps_SendUpdate keeps_upd_leader) (simp add: views isRaid_LFG)

lemma keeps_ChangeLeader: "keeps P (gr_ChangeLeader guid)"
proof -
  have "keeps P (g_upd (\<lambda>g. g\<lparr>gr_leaderGuid := n, gr_leaderName := name\<rparr>))" for n name
    by (rule keeps_upd_leader) (simp add: views)
  then show ?thesis
    by - (rule keepsI, auto simp: gr_ChangeLeader_def split: option.split
       intro!: at_bind keeps_bindE keeps_emit keeps_when keeps_player keeps_Toggle keeps_BroadcastPacket)
qed

lemma keeps_pick_leader: "keeps P (pick_leader guid)"
  by (rule keepsI) (auto simp: pick_leader_def split: option.split intro: keepsD [OF keeps_ChangeLeader])

end

section \<open>Operations that change the members\<close>

text \<open>From one condition on the group to another; a throw leaves the group as the invariant says.\<close>

definition leads_to :: "(group \<Rightarrow> bool) \<Rightarrow> 'a gop \<Rightarrow> (group \<Rightarrow> bool) \<Rightarrow> bool" where
  "leads_to P m Q \<longleftrightarrow>
     (\<forall>w. of_group P w \<longrightarrow> of_group (case fst (m w) of Inl _ \<Rightarrow> group_ok | Inr _ \<Rightarrow> Q) (snd (m w)))"

lemma leads_toI:
  "(\<And>w. of_group P w \<Longrightarrow> of_group Q (snd (m w))) \<Longrightarrow> (\<And>g. Q g \<Longrightarrow> group_ok g) \<Longrightarrow> leads_to P m Q"
  by (auto simp: leads_to_def of_group_def split: sum.split)

lemma leads_toD: "leads_to P m Q \<Longrightarrow> of_group P w \<Longrightarrow> (\<And>g. Q g \<Longrightarrow> group_ok g) \<Longrightarrow> of_group group_ok (snd (m w))"
  unfolding leads_to_def of_group_def by (metis (mono_tags, lifting) sum.case_eq_if)

lemma leads_to_keeps: "keeps (of_group P) m \<Longrightarrow> (\<And>g. P g \<Longrightarrow> group_ok g) \<Longrightarrow> leads_to P m P"
  by (rule leads_toI) (simp_all add: keeps_def)

lemma leads_to_weaken: "leads_to P m Q \<Longrightarrow> (\<And>g. Q g \<Longrightarrow> Q' g) \<Longrightarrow> leads_to P m Q'"
  by (auto simp: leads_to_def of_group_def split: sum.splits)

lemma leads_to_stronger: "leads_to P m Q \<Longrightarrow> (\<And>g. P' g \<Longrightarrow> P g) \<Longrightarrow> leads_to P' m Q"
  by (auto simp: leads_to_def of_group_def)

lemma leads_to_cases: "leads_to P m R \<Longrightarrow> leads_to Q m R \<Longrightarrow> leads_to (\<lambda>g. P g \<or> Q g) m R"
  by (auto simp: leads_to_def of_group_def)

lemma leads_to_bind:
  assumes "leads_to P m Q" and "\<And>x. leads_to Q (f x) R"
  shows "leads_to P (bindE m f) R"
  unfolding leads_to_def
proof (intro allI impI)
  fix w assume w: "of_group P w"
  obtain r w' where m: "m w = (r, w')" by (cases "m w")
  show "of_group (case fst (bindE m f w) of Inl _ \<Rightarrow> group_ok | Inr _ \<Rightarrow> R) (snd (bindE m f w))"
  proof (cases r)
    case (Inl e)
    then show ?thesis using assms(1) w m by (simp add: leads_to_def bindE_def) force
  next
    case (Inr x)
    then have "of_group Q w'" using assms(1) w m by (simp add: leads_to_def) force
    then show ?thesis using assms(2) [of x] Inr m by (simp add: leads_to_def bindE_def)
  qed
qed

lemma leads_to_deref:
  "(\<And>p. leads_to P (f p) Q) \<Longrightarrow> (\<And>g. P g \<Longrightarrow> group_ok g) \<Longrightarrow> leads_to P (g_deref guid f) Q"
  by (auto simp: leads_to_def g_deref_def of_group_def split: option.split)

text \<open>Ready for another member\<close>

definition joined :: "nat \<Rightarrow> group \<Rightarrow> bool" where
  "joined n g \<longleftrightarrow> group_okn n g \<and> (gr_isBG g \<longrightarrow> gr_isRaidGroup g)"

definition join_ok :: "nat \<Rightarrow> group \<Rightarrow> bool" where
  "join_ok n g \<longleftrightarrow> joined n g \<and> (\<not> gr_isRaidGroup g \<longrightarrow> n < MAXGROUPSIZE)"

lemma joined_ok: "joined n g \<Longrightarrow> group_ok g" "group_okn n g \<Longrightarrow> group_ok g" "join_ok n g \<Longrightarrow> group_ok g"
  by (simp_all add: joined_def join_ok_def group_okn_def)

lemma view_ok:
  assumes "group_view g' = group_view g"
  shows "group_ok g' = group_ok g" "length (gr_memberSlots g') = length (gr_memberSlots g)"
    "gr_isRaidGroup g' = gr_isRaidGroup g" "gr_isBG g' = gr_isBG g"
proof -
  have m: "map ms_group (gr_memberSlots g') = map ms_group (gr_memberSlots g)"
    and c: "gr_subGroupsCounts g' = gr_subGroupsCounts g"
    and k: "gr_isRaidGroup g' = gr_isRaidGroup g" "gr_isBG g' = gr_isBG g"
    using assms by (simp_all add: group_view_def)
  have ss: "sub_size g i = length (filter (\<lambda>k. unat k = i) (map ms_group (gr_memberSlots g)))" for g i
    by (simp add: sub_size_def filter_map o_def)
  have sub: "sub_size g' = sub_size g" by (rule ext) (simp only: ss m)
  have set: "ms_group ` set (gr_memberSlots g') = ms_group ` set (gr_memberSlots g)"
    using arg_cong [OF m, of set] by simp
  have all: "(\<forall>x \<in> set (gr_memberSlots g'). Q (ms_group x)) = (\<forall>x \<in> set (gr_memberSlots g). Q (ms_group x))" for Q
    using arg_cong [OF set, of "\<lambda>A. \<forall>k \<in> A. Q k"] by (simp only: ball_simps)
  show len: "length (gr_memberSlots g') = length (gr_memberSlots g)" using map_eq_imp_length_eq [OF m] .
  have "gr_memberSlots g' = [] \<longleftrightarrow> gr_memberSlots g = []" using len by (metis length_0_conv)
  then show "group_ok g' = group_ok g"
    unfolding group_ok_def using c k sub
      all [of "\<lambda>k. unat k < MAX_RAID_SUBGROUPS"] all [of "\<lambda>k. k = 0"] by simp
  show "gr_isRaidGroup g' = gr_isRaidGroup g" "gr_isBG g' = gr_isBG g" by (fact k)+
qed

lemma same_group_of_group:
  assumes "\<And>g g'. group_view g' = group_view g \<Longrightarrow> P g \<Longrightarrow> P g'"
  shows "group_frame (of_group P)"
  by unfold_locales (use assms in \<open>auto simp: same_leader_def same_group_def of_group_def\<close>)

interpretation ok: group_frame "of_group group_ok"
  by (rule same_group_of_group) (metis view_ok(1))

interpretation okn: group_frame "of_group (group_okn n)" for n
  by (rule same_group_of_group) (metis view_ok(1,2) group_okn_def)

interpretation jn: group_frame "of_group (joined n)" for n
  by (rule same_group_of_group) (metis view_ok joined_def group_okn_def)

interpretation gone: group_frame "of_group (\<lambda>_. False)"
  by (rule same_group_of_group)

lemma delete_ok: "keeps (of_group P) delete_group"
  by (simp add: keeps_def delete_group_def of_group_def)

text \<open>A member is added to a subgroup with a free slot.\<close>

lemma sub_size_push:
  "sub_size (g\<lparr>gr_memberSlots := gr_memberSlots g @ [m]\<rparr>) i = sub_size g i + (if unat (ms_group m) = i then 1 else 0)"
  by (simp add: sub_size_def)

lemma counts_increase:
  assumes "k < length cs" and "\<And>i. f' i = f i + (if k = i then 1 else 0 :: nat)"
    and "cs = map (\<lambda>i. of_nat (f i)) [0 ..< n]"
  shows "cs[k := cs ! k + 1] = (map (\<lambda>i. of_nat (f' i)) [0 ..< n] :: uint8 list)"
  using assms by (auto intro!: nth_equalityI simp: nth_list_update add.commute)

lemma push_member_ok:
  assumes ok: "joined n (gw_group w)" and free: "sub_size (gw_group w) (unat (ms_group m)) < MAXGROUPSIZE"
    and small: "unat (ms_group m) < MAX_RAID_SUBGROUPS"
    and raid: "\<not> gr_isRaidGroup (gw_group w) \<Longrightarrow> ms_group m = 0"
  shows "\<exists>w'. push_member m w = (Inr (), w') \<and> joined (Suc n) (gw_group w') \<and> gw_disbanded w' = gw_disbanded w"
proof -
  let ?g = "gw_group w" and ?g' = "(gw_group w)\<lparr>gr_memberSlots := gr_memberSlots (gw_group w) @ [m]\<rparr>"
  have bounds: "sub_size ?g' i \<le> MAXGROUPSIZE" for i
    using ok free by (auto simp: sub_size_push joined_def group_okn_def group_ok_def)
  show ?thesis
  proof (cases "gr_isRaidGroup ?g")
    case True
    let ?cs = "map (\<lambda>i. of_nat (sub_size ?g i)) [0 ..< MAX_RAID_SUBGROUPS] :: uint8 list"
    have cs: "gr_subGroupsCounts ?g = Some ?cs" using ok True by (simp add: joined_def group_okn_def group_ok_def)
    have cs': "?cs[unat (ms_group m) := ?cs ! unat (ms_group m) + 1]
                 = map (\<lambda>i. of_nat (sub_size ?g' i)) [0 ..< MAX_RAID_SUBGROUPS]"
      using small by (intro counts_increase [where f = "sub_size ?g"]) (simp_all add: sub_size_push)
    let ?g2 = "?g'\<lparr>gr_subGroupsCounts := Some (map (\<lambda>i. of_nat (sub_size ?g' i)) [0 ..< MAX_RAID_SUBGROUPS])\<rparr>"
    have eq: "push_member m w = (Inr (), w\<lparr>gw_group := ?g2\<rparr>)"
      using small cs cs' by (simp add: push_member_def g_upd_def bindE_def gr_SubGroupCounterIncrease_def)
    have sub: "sub_size ?g2 = sub_size ?g'" by (simp add: fun_eq_iff sub_size_def)
    have "joined (Suc n) ?g2"
      using ok True bounds small unfolding joined_def group_okn_def group_ok_def sub
      by (simp add: gr_isRaidGroup_def gr_isBG_def)
    then show ?thesis using eq by simp
  next
    case False
    have none: "gr_subGroupsCounts ?g = None" using ok False by (simp add: joined_def group_okn_def group_ok_def)
    have eq: "push_member m w = (Inr (), w\<lparr>gw_group := ?g'\<rparr>)"
      using none by (simp add: push_member_def g_upd_def bindE_def gr_SubGroupCounterIncrease_def)
    have "joined (Suc n) ?g'"
      using ok False bounds small raid [OF False] unfolding joined_def group_okn_def group_ok_def
      by (auto simp: gr_isRaidGroup_def gr_isBG_def)
    then show ?thesis using eq by simp
  qed
qed

lemma find_subgroup_ok:
  assumes ok: "join_ok n g" and f: "gr_find_subgroup g = Some sub"
  shows "unat sub < MAX_RAID_SUBGROUPS \<and> sub_size g (unat sub) < MAXGROUPSIZE
    \<and> (\<not> gr_isRaidGroup g \<longrightarrow> sub = 0)"
proof (cases "gr_isRaidGroup g")
  case True
  then have cs: "gr_subGroupsCounts g = Some (map (\<lambda>i. of_nat (sub_size g i)) [0 ..< MAX_RAID_SUBGROUPS])"
    using ok by (simp add: join_ok_def joined_def group_okn_def group_ok_def)
  obtain i where i: "find (\<lambda>i. unat ((map (\<lambda>i. of_nat (sub_size g i)) [0 ..< MAX_RAID_SUBGROUPS] :: uint8 list) ! i)
                        < MAXGROUPSIZE) [0 ..< MAX_RAID_SUBGROUPS] = Some i" "sub = of_nat i"
    using f cs by (auto simp: gr_find_subgroup_def)
  then have i8: "i < MAX_RAID_SUBGROUPS" and less: "unat (of_nat (sub_size g i) :: uint8) < MAXGROUPSIZE"
    by (auto simp: find_Some_iff)
  have "sub_size g i \<le> MAXGROUPSIZE" using ok by (simp add: join_ok_def joined_def group_okn_def group_ok_def)
  then have "unat (of_nat (sub_size g i) :: uint8) = sub_size g i"
    by (simp add: unat_of_nat MAXGROUPSIZE_def)
  moreover have "unat sub = i" using i8 i(2) by (simp add: unat_of_nat MAX_RAID_SUBGROUPS_def)
  ultimately show ?thesis using True i8 less by simp
next
  case False
  then have "sub = 0" using ok f by (simp add: gr_find_subgroup_def join_ok_def joined_def group_okn_def group_ok_def)
  moreover have "sub_size g 0 \<le> length (gr_memberSlots g)" by (simp add: sub_size_def)
  ultimately show ?thesis using ok False
    by (simp add: join_ok_def joined_def group_okn_def MAX_RAID_SUBGROUPS_def)
qed

lemma increase_gone: "keeps (of_group (\<lambda>_. False)) (gr_SubGroupCounterIncrease sub)"
  by (simp add: keeps_def gr_SubGroupCounterIncrease_def g_upd_def of_group_def split: option.split)

lemma push_gone: "keeps (of_group (\<lambda>_. False)) (push_member m)"
  unfolding push_member_def
  by (intro keeps_bindE increase_gone) (simp add: keeps_def g_upd_def of_group_def)

lemma AddMember_gone: "keeps (of_group (\<lambda>_. False)) (gr_AddMember env guid)"
  unfolding gr_AddMember_def
  by (intro gone.keeps_deref keeps_bindE gone.keeps_get gone.keeps_opt keeps_ret push_gone gone.keeps_add_follow)

lemma gone_leads_to: "keeps (of_group (\<lambda>_. False)) m \<Longrightarrow> gw_disbanded w \<Longrightarrow> of_group Q (snd (m w))"
  by (simp add: keeps_def of_group_def)

lemma AddMember_joined:
  "leads_to (join_ok n) (gr_AddMember env guid) (\<lambda>g. joined n g \<or> joined (Suc n) g)"
proof (rule leads_toI)
  fix w assume w: "of_group (join_ok n) w"
  let ?Q = "\<lambda>g. joined n g \<or> joined (Suc n) g"
  show "of_group ?Q (snd (gr_AddMember env guid w))"
  proof (cases "gw_disbanded w")
    case True
    then show ?thesis by (rule gone_leads_to [OF AddMember_gone])
  next
    case False
    then have ok: "join_ok n (gw_group w)" using w by (simp add: of_group_def)
    then have j: "joined n (gw_group w)" by (simp add: join_ok_def)
    show ?thesis
    proof (cases "gw_players w guid")
      case None
      then show ?thesis using j by (simp add: gr_AddMember_def g_deref_def of_group_def)
    next
      case (Some p)
      show ?thesis
      proof (cases "gr_find_subgroup (gw_group w)")
        case None
        then show ?thesis using j Some
          by (simp add: gr_AddMember_def g_deref_def g_get_def bindE_def of_group_def)
      next
        case sub: (Some sub)
        let ?m = "\<lparr>ms_guid = guid, ms_name = gp_name p, ms_group = sub, ms_flags = 0, ms_roles = 0\<rparr>"
        note f = find_subgroup_ok [OF ok sub]
        obtain w' where w': "push_member ?m w = (Inr (), w')" "joined (Suc n) (gw_group w')"
          using push_member_ok [OF j, of ?m] f by auto
        have "gr_AddMember env guid w = bindE (add_follow env guid p sub) (\<lambda>_. ret True) w'"
          using Some sub w'(1) by (simp add: gr_AddMember_def g_deref_def g_get_def bindE_def [of "getE _"] bindE_ok)
        moreover have "of_group (joined (Suc n)) (snd (bindE (add_follow env guid p sub) (\<lambda>_. ret True) w'))"
          using w'(2) by (intro jn.at_bind jn.keeps_add_follow keeps_ret) (simp add: of_group_def)
        ultimately show ?thesis unfolding of_group_def by auto
      qed
    qed
  qed
qed (auto simp: joined_ok)

text \<open>The counters are set up from the list of members.\<close>

lemma increase_loop:
  assumes "gr_subGroupsCounts (gw_group w) = Some cs" and "length cs = MAX_RAID_SUBGROUPS"
    and "\<forall>m \<in> set ms. unat (ms_group m) < MAX_RAID_SUBGROUPS"
  shows "forE (\<lambda>m. gr_SubGroupCounterIncrease (ms_group m)) ms w =
    (Inr (), w\<lparr>gw_group := (gw_group w)\<lparr>gr_subGroupsCounts :=
       Some (map (\<lambda>i. cs ! i + of_nat (length (filter (\<lambda>m. unat (ms_group m) = i) ms))) [0 ..< MAX_RAID_SUBGROUPS])\<rparr>\<rparr>)"
  using assms
proof (induction ms arbitrary: w cs)
  case Nil
  have "map (\<lambda>i. cs ! i) [0 ..< MAX_RAID_SUBGROUPS] = cs" using Nil.prems(2) map_nth [of cs] by simp
  then show ?case using Nil.prems(1) by simp
next
  case (Cons m ms)
  let ?cs = "cs[unat (ms_group m) := cs ! unat (ms_group m) + 1]"
  let ?w = "w\<lparr>gw_group := (gw_group w)\<lparr>gr_subGroupsCounts := Some ?cs\<rparr>\<rparr>"
  have small: "unat (ms_group m) < length cs" using Cons.prems(2,3) by simp
  have one: "gr_SubGroupCounterIncrease (ms_group m) w = (Inr (), ?w)"
    using small Cons.prems(1) by (simp add: gr_SubGroupCounterIncrease_def g_upd_def)
  have "map (\<lambda>i. ?cs ! i + of_nat (length (filter (\<lambda>m. unat (ms_group m) = i) ms))) [0 ..< MAX_RAID_SUBGROUPS]
        = map (\<lambda>i. cs ! i + of_nat (length (filter (\<lambda>m. unat (ms_group m) = i) (m # ms)))) [0 ..< MAX_RAID_SUBGROUPS]"
    using Cons.prems(2) by (auto simp: nth_list_update)
  moreover have "forE (\<lambda>m. gr_SubGroupCounterIncrease (ms_group m)) ms ?w =
    (Inr (), ?w\<lparr>gw_group := (gw_group ?w)\<lparr>gr_subGroupsCounts :=
       Some (map (\<lambda>i. ?cs ! i + of_nat (length (filter (\<lambda>m. unat (ms_group m) = i) ms))) [0 ..< MAX_RAID_SUBGROUPS])\<rparr>\<rparr>)"
    by (rule Cons.IH) (use Cons.prems in auto)
  ultimately show ?case using one by (simp add: bindE_ok)
qed

lemma init_counters:
  assumes "\<forall>m \<in> set (gr_memberSlots (gw_group w)). unat (ms_group m) < MAX_RAID_SUBGROUPS"
  shows "gr_initRaidSubGroupsCounter w = (Inr (), w\<lparr>gw_group := (gw_group w)\<lparr>gr_subGroupsCounts :=
           Some (map (\<lambda>i. of_nat (sub_size (gw_group w) i)) [0 ..< MAX_RAID_SUBGROUPS])\<rparr>\<rparr>)"
proof -
  let ?w = "w\<lparr>gw_group := (gw_group w)\<lparr>gr_subGroupsCounts := Some (replicate MAX_RAID_SUBGROUPS 0)\<rparr>\<rparr>"
  have "map (\<lambda>i. replicate MAX_RAID_SUBGROUPS 0 ! i + (of_nat (length (filter (\<lambda>m. unat (ms_group m) = i) ms)) :: uint8))
          [0 ..< MAX_RAID_SUBGROUPS]
        = map (\<lambda>i. of_nat (length (filter (\<lambda>m. unat (ms_group m) = i) ms))) [0 ..< MAX_RAID_SUBGROUPS]" for ms
    by simp
  then have "forE (\<lambda>m. gr_SubGroupCounterIncrease (ms_group m)) (gr_memberSlots (gw_group w)) ?w =
    (Inr (), ?w\<lparr>gw_group := (gw_group ?w)\<lparr>gr_subGroupsCounts :=
       Some (map (\<lambda>i. of_nat (sub_size (gw_group w) i)) [0 ..< MAX_RAID_SUBGROUPS])\<rparr>\<rparr>)"
    unfolding sub_size_def using increase_loop [of ?w "replicate MAX_RAID_SUBGROUPS 0" "gr_memberSlots (gw_group w)"] assms
    by simp
  then show ?thesis by (simp add: gr_initRaidSubGroupsCounter_def g_upd_def g_get_def bindE_def [of "modE _"] bindE_def [of "getE _"])
qed

lemma sub_size_frame: "gr_memberSlots g' = gr_memberSlots g \<Longrightarrow> sub_size g' = sub_size g"
  by (simp add: fun_eq_iff sub_size_def)

lemma init_gone: "keeps (of_group (\<lambda>_. False)) gr_initRaidSubGroupsCounter"
  unfolding gr_initRaidSubGroupsCounter_def
  by (intro keeps_bindE keeps_forE gone.keeps_get increase_gone) (simp add: keeps_def g_upd_def of_group_def)

lemma raise_raid_ok: "keeps (of_group group_ok) raise_raid"
proof (rule keepsI)
  fix w assume w: "of_group group_ok w"
  have gone: "keeps (of_group (\<lambda>_. False)) raise_raid" unfolding raise_raid_def
    by (intro keeps_bindE init_gone) (simp add: keeps_def g_upd_def of_group_def)
  show "of_group group_ok (snd (raise_raid w))"
  proof (cases "gw_disbanded w")
    case True
    then show ?thesis by (rule gone_leads_to [OF gone])
  next
    case False
    then have ok: "group_ok (gw_group w)" using w by (simp add: of_group_def)
    let ?g = "(gw_group w)\<lparr>gr_groupType := gr_groupType (gw_group w) OR GROUPTYPE_RAID\<rparr>"
    let ?g2 = "?g\<lparr>gr_subGroupsCounts := Some (map (\<lambda>i. of_nat (sub_size ?g i)) [0 ..< MAX_RAID_SUBGROUPS])\<rparr>"
    have "raise_raid w = (Inr (), w\<lparr>gw_group := ?g2\<rparr>)"
    proof -
      have "\<forall>m \<in> set (gr_memberSlots (gw_group (w\<lparr>gw_group := ?g\<rparr>))). unat (ms_group m) < MAX_RAID_SUBGROUPS"
        using ok unfolding group_ok_def by simp
      from init_counters [OF this] show ?thesis by (simp add: raise_raid_def bindE_def g_upd_def)
    qed
    moreover have sub: "sub_size ?g2 = sub_size (gw_group w)" "sub_size ?g = sub_size (gw_group w)"
      by (rule sub_size_frame, simp)+
    have "gr_isRaidGroup ?g2" by (simp add: gr_isRaidGroup_def word_ao_dist GROUPTYPE_RAID_def)
    then have "group_ok ?g2" using ok sub unfolding group_ok_def by (simp add: gr_isBG_def)
    ultimately show ?thesis by (simp add: of_group_def)
  qed
qed

text \<open>The kind of the group at its creation\<close>

lemma create_kind_ok: "leads_to (group_okn 0) create_kind (joined 0)"
proof (rule leads_toI)
  fix w assume w: "of_group (group_okn 0) w"
  have gone: "keeps (of_group (\<lambda>_. False)) create_kind" unfolding create_kind_def
    by (intro keeps_bindE gone.keeps_get gone.keeps_when init_gone) (simp add: keeps_def g_upd_def of_group_def)
  show "of_group (joined 0) (snd (create_kind w))"
  proof (cases "gw_disbanded w")
    case True
    then show ?thesis by (rule gone_leads_to [OF gone])
  next
    case False
    then have ok: "group_okn 0 (gw_group w)" using w by (simp add: of_group_def)
    let ?g = "if gr_isBG (gw_group w) then (gw_group w)\<lparr>gr_groupType := GROUPTYPE_BGRAID\<rparr> else gw_group w"
    let ?w = "w\<lparr>gw_group := ?g\<rparr>"
    have mem: "gr_memberSlots ?g = []" using ok by (simp add: group_okn_def)
    have kind: "gr_isBG ?g \<Longrightarrow> gr_isRaidGroup ?g"
      by (auto simp: gr_isBG_def gr_isRaidGroup_def GROUPTYPE_BGRAID_def GROUPTYPE_RAID_def split: if_splits)
    have run: "create_kind w = (if gr_isRaidGroup ?g then gr_initRaidSubGroupsCounter ?w else (Inr (), ?w))"
      by (simp add: create_kind_def bindE_def g_upd_def g_get_def g_when_def)
    show ?thesis
    proof (cases "gr_isRaidGroup ?g")
      case True
      have init: "gr_initRaidSubGroupsCounter ?w = (Inr (), ?w\<lparr>gw_group := (gw_group ?w)\<lparr>gr_subGroupsCounts :=
           Some (map (\<lambda>i. of_nat (sub_size (gw_group ?w) i)) [0 ..< MAX_RAID_SUBGROUPS])\<rparr>\<rparr>)"
        by (rule init_counters) (use mem in simp)
      have "joined 0 (?g\<lparr>gr_subGroupsCounts := Some (map (\<lambda>i. of_nat (sub_size ?g i)) [0 ..< MAX_RAID_SUBGROUPS])\<rparr>)"
        using True mem unfolding joined_def group_okn_def group_ok_def
        by (simp add: sub_size_def gr_isRaidGroup_def gr_isBG_def)
      then show ?thesis using run init True by (simp add: of_group_def)
    next
      case False
      then have "\<not> gr_isBG (gw_group w)" using kind by (auto simp: gr_isBG_def)
      then have "joined 0 ?g" using ok by (simp add: joined_def)
      then show ?thesis using run False by (simp add: of_group_def)
    qed
  qed
qed (simp add: joined_ok)

lemma joined_ready: "joined 0 g \<Longrightarrow> join_ok 0 g"
  by (simp add: join_ok_def MAXGROUPSIZE_def)

lemma okn_bind:
  "keeps (of_group (group_okn n)) m \<Longrightarrow> (\<And>x. leads_to (group_okn n) (f x) R) \<Longrightarrow> leads_to (group_okn n) (bindE m f) R"
  by (rule leads_to_bind [OF leads_to_keeps]) (simp_all add: joined_ok)

lemma joined_bind:
  "keeps (of_group (joined n)) m \<Longrightarrow> (\<And>x. leads_to (joined n) (f x) R) \<Longrightarrow> leads_to (joined n) (bindE m f) R"
  by (rule leads_to_bind [OF leads_to_keeps]) (simp_all add: joined_ok)

lemma Create_joined:
  "leads_to (group_okn 0) (gr_Create env leader) (\<lambda>g. joined 0 g \<or> joined 1 g)" (is "leads_to _ _ ?R")
proof -
  have u1: "keeps (of_group (group_okn 0)) (g_upd (\<lambda>g. g\<lparr>gr_lowGuid := n, gr_leaderGuid := leader, gr_leaderName := name\<rparr>))" for n name
    by (rule okn.keeps_upd_leader) (simp add: okn.views)
  have u2: "keeps (of_group (joined 0)) (g_upd (\<lambda>g. if gr_isLFGGroup g then g else g\<lparr>gr_lootMethod := GROUP_LOOT\<rparr>))"
    by (rule jn.keeps_upd) (simp add: jn.views)
  have u3: "keeps (of_group (joined 0)) (g_upd (\<lambda>g. g\<lparr>gr_lootThreshold := ITEM_QUALITY_UNCOMMON, gr_looterGuid := leader,
                 gr_masterLooterGuid := 0, gr_dungeonDifficulty := 0, gr_raidDifficulty := 0\<rparr>))"
    by (rule jn.keeps_upd) (simp add: jn.views)
  have u4: "keeps (of_group (joined 0)) (g_upd (\<lambda>g. g\<lparr>gr_dungeonDifficulty := d, gr_raidDifficulty := r, gr_dbStoreId := k\<rparr>))" for d r k
    by (rule jn.keeps_upd) (simp add: jn.views)
  have u5: "keeps (of_group ?R) (g_emit e)" for e by (simp add: keeps_def g_emit_def of_group_def)
  have add: "leads_to (joined 0) (gr_AddMember env leader) ?R"
    using leads_to_stronger [OF AddMember_joined joined_ready] by simp
  have last: "leads_to ?R (if \<not> ok then throw GroupAssertion else bindE (g_emit (GConvertInstances leader False)) (\<lambda>_. ret True)) ?R" for ok
    by (intro leads_to_keeps keeps_if keeps_throw keeps_bindE u5 keeps_ret) (auto simp: joined_ok)
  show ?thesis unfolding gr_Create_def
    apply (rule leads_to_deref)
     apply (rule okn_bind [OF u1])
     apply (rule okn_bind [OF okn.keeps_player])
     apply (rule leads_to_bind [OF create_kind_ok])
     apply (rule joined_bind [OF u2], rule joined_bind [OF u3], rule joined_bind [OF jn.keeps_get])
     apply (simp only: split: if_split, intro conjI impI, rule add)
     apply (rule joined_bind [OF u4], rule joined_bind [OF jn.keeps_emit], rule joined_bind [OF jn.keeps_get], rule joined_bind [OF jn.keeps_emit])
     apply (rule leads_to_bind [OF add last])
    apply (simp add: joined_ok)
    done
qed

section \<open>Members who leave or move\<close>

lemma filter_del_slot:
  "find (\<lambda>m. ms_guid m = guid) ms = Some m \<Longrightarrow>
   length (filter Q ms) = length (filter Q (del_slot guid ms)) + (if Q m then 1 else 0)"
  by (induction guid ms rule: del_slot.induct) (auto split: if_splits)

lemma set_del_slot: "set (del_slot guid ms) \<subseteq> set ms"
  by (induction guid ms rule: del_slot.induct) auto

lemma filter_upd_slot:
  "find (\<lambda>m. ms_guid m = guid) ms = Some m \<Longrightarrow>
   length (filter Q (upd_slot guid f ms)) + (if Q m then 1 else 0) = length (filter Q ms) + (if Q (f m) then 1 else 0)"
  by (induction guid f ms rule: upd_slot.induct) (auto split: if_splits)

lemma set_upd_slot: "x \<in> set (upd_slot guid f ms) \<Longrightarrow> x \<in> set ms \<or> (\<exists>m \<in> set ms. x = f m)"
  by (induction guid f ms rule: upd_slot.induct) (auto split: if_splits)

lemma upd_slot_Nil [simp]: "upd_slot guid f ms = [] \<longleftrightarrow> ms = []"
  by (induction guid f ms rule: upd_slot.induct) auto

lemma gr_slot_mem: "gr_slot guid g = Some m \<Longrightarrow> m \<in> set (gr_memberSlots g) \<and> ms_guid m = guid"
  unfolding gr_slot_def by (auto simp: find_Some_iff)

lemma counts_decrease:
  assumes "k < length cs" and "\<And>i. f i = f' i + (if k = i then 1 else 0 :: nat)"
    and "cs = map (\<lambda>i. of_nat (f i)) [0 ..< n]"
  shows "cs[k := cs ! k - 1] = (map (\<lambda>i. of_nat (f' i)) [0 ..< n] :: uint8 list)"
  using assms by (auto intro!: nth_equalityI simp: nth_list_update)

lemma remove_slot_ok: "keeps (of_group group_ok) (remove_slot guid)"
proof (rule keepsI)
  fix w assume w: "of_group group_ok w"
  show "of_group group_ok (snd (remove_slot guid w))"
  proof (cases "gr_slot guid (gw_group w)")
    case None
    then show ?thesis using w by (simp add: remove_slot_def)
  next
    case (Some m)
    let ?g = "gw_group w" let ?g1 = "(gw_group w)\<lparr>gr_memberSlots := del_slot guid (gr_memberSlots (gw_group w))\<rparr>"
    have gone: "keeps (of_group (\<lambda>_. False)) (remove_slot guid)"
      by (auto simp: keeps_def remove_slot_def gr_SubGroupCounterDecrease_def bindE_def g_upd_def of_group_def
          split: option.split)
    show ?thesis
    proof (cases "gw_disbanded w")
      case True
      then show ?thesis by (rule gone_leads_to [OF gone])
    next
      case False
      then have ok: "group_ok ?g" using w by (simp add: of_group_def)
      have sub: "sub_size ?g i = sub_size ?g1 i + (if unat (ms_group m) = i then 1 else 0)" for i
        unfolding sub_size_def using filter_del_slot [OF Some [unfolded gr_slot_def], of "\<lambda>m. unat (ms_group m) = i"] by simp
      have small: "unat (ms_group m) < MAX_RAID_SUBGROUPS" using ok gr_slot_mem [OF Some] by (simp add: group_ok_def)
      have mem: "x \<in> set (gr_memberSlots ?g)" if "x \<in> set (gr_memberSlots ?g1)" for x
        using that set_del_slot by fastforce
      have bound: "sub_size ?g1 i \<le> MAXGROUPSIZE" for i
        using ok sub [of i] unfolding group_ok_def by (metis add_leD1)
      show ?thesis
      proof (cases "gr_isRaidGroup ?g")
        case True
        let ?cs = "map (\<lambda>i. of_nat (sub_size ?g i)) [0 ..< MAX_RAID_SUBGROUPS] :: uint8 list"
        let ?g2 = "?g1\<lparr>gr_subGroupsCounts := Some (map (\<lambda>i. of_nat (sub_size ?g1 i)) [0 ..< MAX_RAID_SUBGROUPS])\<rparr>"
        have cs: "gr_subGroupsCounts ?g = Some ?cs" using ok True by (simp add: group_ok_def)
        have "?cs[unat (ms_group m) := ?cs ! unat (ms_group m) - 1]
               = map (\<lambda>i. of_nat (sub_size ?g1 i)) [0 ..< MAX_RAID_SUBGROUPS]"
          by (rule counts_decrease [where f = "sub_size ?g"]) (use small sub in simp_all)
        then have run: "remove_slot guid w = (Inr (), w\<lparr>gw_group := ?g2\<rparr>)"
          using Some cs small by (simp add: remove_slot_def gr_SubGroupCounterDecrease_def bindE_def g_upd_def)
        have s2: "sub_size ?g2 = sub_size ?g1" by (rule sub_size_frame) simp
        have "group_ok ?g2" using True ok bound mem unfolding group_ok_def s2
          by (simp add: gr_isRaidGroup_def gr_isBG_def)
        then show ?thesis using run by (simp add: of_group_def)
      next
        case False
        have none: "gr_subGroupsCounts ?g = None" using ok False by (simp add: group_ok_def)
        have run: "remove_slot guid w = (Inr (), w\<lparr>gw_group := ?g1\<rparr>)"
          using Some none by (simp add: remove_slot_def gr_SubGroupCounterDecrease_def bindE_def g_upd_def)
        have "gr_isBG ?g \<Longrightarrow> gr_memberSlots ?g = []" using ok False by (auto simp: group_ok_def)
        then have "group_ok ?g1" using False ok bound mem unfolding group_ok_def
          by (auto simp: gr_isRaidGroup_def gr_isBG_def)
        then show ?thesis using run by (simp add: of_group_def)
      qed
    qed
  qed
qed

text \<open>A member moves to another subgroup of a raid, which has a free slot.\<close>

lemma move_ok:
  assumes ok: "group_ok (gw_group w)" and raid: "gr_isRaidGroup (gw_group w)"
    and slot: "gr_slot guid (gw_group w) = Some m" and other: "ms_group m \<noteq> sub"
    and small: "unat sub < MAX_RAID_SUBGROUPS" and free: "sub_size (gw_group w) (unat sub) < MAXGROUPSIZE"
  shows "\<exists>w'. bindE (set_slot_group guid sub) (\<lambda>_. bindE (gr_SubGroupCounterIncrease sub) (\<lambda>_.
            gr_SubGroupCounterDecrease (ms_group m))) w = (Inr (), w')
          \<and> group_ok (gw_group w') \<and> gw_disbanded w' = gw_disbanded w"
proof -
  let ?g = "gw_group w" and ?n = MAX_RAID_SUBGROUPS
  let ?g1 = "?g\<lparr>gr_memberSlots := upd_slot guid (\<lambda>m. m\<lparr>ms_group := sub\<rparr>) (gr_memberSlots ?g)\<rparr>"
  let ?cs = "map (\<lambda>i. of_nat (sub_size ?g i)) [0 ..< ?n] :: uint8 list"
  let ?cs' = "map (\<lambda>i. of_nat (sub_size ?g i + (if unat sub = i then 1 else 0))) [0 ..< ?n] :: uint8 list"
  let ?g2 = "?g1\<lparr>gr_subGroupsCounts := Some (map (\<lambda>i. of_nat (sub_size ?g1 i)) [0 ..< ?n])\<rparr>"
  have cs: "gr_subGroupsCounts ?g = Some ?cs" using ok raid by (simp add: group_ok_def)
  have m: "unat (ms_group m) < ?n" using ok gr_slot_mem [OF slot] by (simp add: group_ok_def)
  have ne: "unat (ms_group m) \<noteq> unat sub" using other by (simp add: word_unat_eq_iff)
  have sub: "sub_size ?g1 i + (if unat (ms_group m) = i then 1 else 0) = sub_size ?g i + (if unat sub = i then 1 else 0)" for i
    unfolding sub_size_def
    using filter_upd_slot [OF slot [unfolded gr_slot_def], of "\<lambda>m. unat (ms_group m) = i" "\<lambda>m. m\<lparr>ms_group := sub\<rparr>"] by simp
  have up: "?cs[unat sub := ?cs ! unat sub + 1] = ?cs'"
    by (rule counts_increase [where f = "sub_size ?g"]) (use small in simp_all)
  have down: "?cs'[unat (ms_group m) := ?cs' ! unat (ms_group m) - 1] = map (\<lambda>i. of_nat (sub_size ?g1 i)) [0 ..< ?n]"
    by (rule counts_decrease [where f = "\<lambda>i. sub_size ?g i + (if unat sub = i then 1 else 0)"])
       (use m sub in simp_all)
  have run: "bindE (set_slot_group guid sub) (\<lambda>_. bindE (gr_SubGroupCounterIncrease sub) (\<lambda>_.
            gr_SubGroupCounterDecrease (ms_group m))) w = (Inr (), w\<lparr>gw_group := ?g2\<rparr>)"
    using small m cs up down
    by (simp add: set_slot_group_def bindE_def g_upd_def gr_SubGroupCounterIncrease_def gr_SubGroupCounterDecrease_def)
  have bound: "sub_size ?g1 i \<le> MAXGROUPSIZE" for i
  proof (cases "unat sub = i")
    case True
    then show ?thesis using sub [of i] ne free by auto
  next
    case False
    moreover have "sub_size ?g i \<le> MAXGROUPSIZE" using ok by (simp add: group_ok_def)
    ultimately show ?thesis using sub [of i] by simp
  qed
  have mem: "unat (ms_group x) < ?n" if "x \<in> set (gr_memberSlots ?g1)" for x
  proof -
    have old: "\<forall>m \<in> set (gr_memberSlots ?g). unat (ms_group m) < ?n" using ok by (simp add: group_ok_def)
    have "x \<in> set (upd_slot guid (\<lambda>m. m\<lparr>ms_group := sub\<rparr>) (gr_memberSlots ?g))" using that by simp
    from set_upd_slot [OF this] show ?thesis using old small by auto
  qed
  have s2: "sub_size ?g2 = sub_size ?g1" by (rule sub_size_frame) simp
  have "group_ok ?g2" using ok raid bound mem unfolding group_ok_def s2 by (simp add: gr_isRaidGroup_def gr_isBG_def)
  then show ?thesis using run by simp
qed

lemma HasFree_ok:
  assumes "group_ok g" and "unat sub < MAX_RAID_SUBGROUPS"
  shows "gr_HasFreeSlotSubGroup sub g = Inr (gr_isRaidGroup g \<and> sub_size g (unat sub) < MAXGROUPSIZE)"
proof (cases "gr_isRaidGroup g")
  case True
  have "sub_size g (unat sub) \<le> MAXGROUPSIZE" using assms(1) by (simp add: group_ok_def)
  then have "unat (of_nat (sub_size g (unat sub)) :: uint8) = sub_size g (unat sub)"
    by (simp add: unat_of_nat MAXGROUPSIZE_def)
  then show ?thesis using True assms by (simp add: gr_HasFreeSlotSubGroup_def group_ok_def)
next
  case False
  then show ?thesis using assms(1) by (simp add: gr_HasFreeSlotSubGroup_def group_ok_def)
qed

lemma ChangeMembersGroup_ok:
  assumes ok: "group_ok (gw_group w)" and small: "unat sub < MAX_RAID_SUBGROUPS"
    and free: "sub_size (gw_group w) (unat sub) < MAXGROUPSIZE"
  shows "of_group group_ok (snd (gr_ChangeMembersGroup env guid sub w))"
proof (cases "gr_isRaidGroup (gw_group w)")
  case raid: True
  show ?thesis
  proof (cases "gr_slot guid (gw_group w)")
    case None
    then show ?thesis using ok by (simp add: gr_ChangeMembersGroup_def of_group_def)
  next
    case (Some m)
    show ?thesis
    proof (cases "ms_group m = sub")
      case True
      then show ?thesis using ok Some by (simp add: gr_ChangeMembersGroup_def of_group_def)
    next
      case False
      let ?move = "bindE (set_slot_group guid sub) (\<lambda>_. bindE (gr_SubGroupCounterIncrease sub) (\<lambda>_.
                     gr_SubGroupCounterDecrease (ms_group m)))"
      let ?rest = "bindE (save_subgroup guid sub) (\<lambda>_.
            bindE (\<lambda>w. g_player guid (\<lambda>p. if gp_group p = Some (gr_ref (gw_group w))
                                          then p\<lparr>gp_subGroup := sub\<rparr> else p\<lparr>gp_originalSubGroup := sub\<rparr>) w) (\<lambda>_.
            gr_SendUpdate env))"
      obtain w' where w': "?move w = (Inr (), w')" "group_ok (gw_group w')"
        using move_ok [OF ok raid Some False small free] by auto
      have "gr_ChangeMembersGroup env guid sub w = bindE ?move (\<lambda>_. ?rest) w"
        using raid Some False by (simp add: gr_ChangeMembersGroup_def bindE_assoc)
      then have run: "gr_ChangeMembersGroup env guid sub w = ?rest w'" using w'(1) by (simp add: bindE_ok)
      have p: "keeps (of_group group_ok) (\<lambda>w. g_player guid (f w) w)" for f :: "gworld \<Rightarrow> gplayer \<Rightarrow> gplayer"
        by (simp add: keeps_def g_player_def of_group_def)
      have "keeps (of_group group_ok) ?rest" unfolding save_subgroup_def
        by (intro keeps_bindE ok.keeps_get ok.keeps_when ok.keeps_emit p ok.keeps_SendUpdate)
      then show ?thesis using w'(2) by (simp add: run keepsD of_group_def [of _ w'])
    qed
  qed
next
  case False
  then show ?thesis using ok by (simp add: gr_ChangeMembersGroup_def of_group_def)
qed

text \<open>The end of a group: what follows the loop over the members cannot throw.\<close>

definition returns :: "'a gop \<Rightarrow> bool" where
  "returns m \<longleftrightarrow> (\<forall>w. \<exists>x w'. m w = (Inr x, w'))"

lemma returns_bindE: "returns m \<Longrightarrow> (\<And>x. returns (f x)) \<Longrightarrow> returns (bindE m f)"
  unfolding returns_def bindE_def by (metis (mono_tags, lifting) old.prod.case old.sum.simps(6))

lemma returns_basic:
  "returns (ret x)" "returns (g_emit e)" "returns (g_upd f)" "returns (g_get h)" "returns (g_player guid k)"
  "returns (modE j)"
  by (simp_all add: returns_def g_emit_def g_upd_def g_get_def g_player_def)

lemma returns_forE: "(\<And>x. returns (f x)) \<Longrightarrow> returns (forE f xs)"
  by (induction xs) (simp_all add: returns_basic returns_bindE del: ret_apply)

lemma returns_when: "returns m \<Longrightarrow> returns (g_when b m)"
  by (simp add: g_when_def returns_basic del: ret_apply)

lemma returns_last:
  assumes "returns m" and "\<And>x w. D (snd (f x w))"
  shows "D (snd (bindE m f w))"
  using assms(1) assms(2) unfolding returns_def bindE_def by (metis (mono_tags, lifting) old.prod.case old.sum.simps(6))

lemma Disband_ok: "keeps (of_group group_ok) (gr_Disband env hide)"
proof -
  let ?done = "modE (\<lambda>w. w\<lparr>gw_disbanded := True\<rparr>) :: unit gop"
  have inv: "returns gr_RemoveAllInvites"
    unfolding gr_RemoveAllInvites_def by (intro returns_bindE returns_forE returns_basic)
  have last: "keeps (of_group group_ok) (bindE (g_upd (\<lambda>g. g\<lparr>gr_RollId := [], gr_memberSlots := []\<rparr>)) (\<lambda>_.
     bindE gr_RemoveAllInvites (\<lambda>_.
     bindE (g_get id) (\<lambda>g.
     bindE (g_when (\<not> gr_isBG g)
              (forE g_emit [GDelGroup (gr_dbStoreId g), GDelGroupMemberAll (gr_dbStoreId g),
                 GResetGroupInstances False, GResetGroupInstances True, GDelLfgData (gr_dbStoreId g),
                 GFreeStoreId (gr_dbStoreId g)])) (\<lambda>_.
     bindE (g_emit (GRemoveGroup (gr_lowGuid g))) (\<lambda>_. ?done))))))"
    by (rule keepsI, intro returns_last [where D = "of_group group_ok"] returns_basic inv returns_when returns_forE) (simp add: of_group_def)
  show ?thesis unfolding gr_Disband_def
    by (intro keeps_bindE ok.keeps_emit ok.keeps_get keeps_forE ok.keeps_disband_member last)
qed

lemma after_removal_ok: "keeps (of_group group_ok) (after_removal env)"
proof (rule keepsI)
  fix w assume w: "of_group group_ok w"
  have d: "of_group group_ok (snd (bindE (gr_Disband env False) (\<lambda>_. ret b) w))" for b
    using w by (intro ok.at_bind Disband_ok keeps_ret)
  show "of_group group_ok (snd (after_removal env w))"
    by (simp add: after_removal_def Let_def d ok.at_ret w del: ret_apply)
qed

lemma RemoveMember_ok: "keeps (of_group group_ok) (gr_RemoveMember env guid how)"
  unfolding gr_RemoveMember_def
  by (intro keeps_bindE ok.keeps_BroadcastGroupUpdate ok.keeps_emit ok.keeps_get keeps_if keeps_ret ok.keeps_find
      ok.keeps_when ok.keeps_leave_group ok.keeps_tell_removed ok.keeps_Delink ok.keeps_ResetMax ok.keeps_leave_rolls
      remove_slot_ok ok.keeps_pick_leader ok.keeps_SendUpdate after_removal_ok Disband_ok)

end
