(* ===== verification/Group_Theorems.thy ===== *)
theory Group_Theorems
  imports Group_Inv
begin

text \<open>
  The invariant of a group over every message and every step of the server, and that the
  counters are never read or written outside their array.
\<close>

section \<open>Messages\<close>

lemma ret_bind: "bindE (ret x) f = f x"
  by (rule ext) (simp add: bindE_def)

lemma h_group_ok: "(\<And>p. keeps (of_group group_ok) (f p)) \<Longrightarrow> keeps (of_group group_ok) (h_group me f)"
  by (auto simp: keeps_def h_group_def split: option.split)

text \<open>A handler looks at the state before it acts.\<close>

lemma look_ok: "(\<And>v. keeps (of_group group_ok) (f v)) \<Longrightarrow> keeps (of_group group_ok) (\<lambda>w. f (h w) w)"
  by (simp add: keeps_def)

lemma AddMember_ok:
  "leads_to (join_ok n) (bindE (gr_AddMember env me) (\<lambda>ok. g_when (P ok) gr_BroadcastGroupUpdate)) group_ok"
proof -
  have "leads_to (joined k) (g_when b gr_BroadcastGroupUpdate) group_ok" for k b
    by (rule leads_to_stronger [OF leads_to_keeps]) (simp_all add: ok.keeps_when ok.keeps_BroadcastGroupUpdate joined_ok)
  then show ?thesis by (intro leads_to_bind [OF AddMember_joined] leads_to_cases)
qed

lemma created_ready:
  assumes "group_ok g" and "\<not> gr_IsFull g" and "gr_IsCreated g"
  shows "join_ok (length (gr_memberSlots g)) g"
  using assms by (auto simp: join_ok_def joined_def group_okn_def group_ok_def gr_IsFull_def gr_IsCreated_def
      gr_GetMembersCount_def)

lemma one_ready: "joined 1 g \<Longrightarrow> join_ok 1 g"
  by (simp add: join_ok_def MAXGROUPSIZE_def)

lemma join_new_group:
  "leads_to (group_okn 0) (bindE (gr_RemoveInvite l) (\<lambda>_. bindE (gr_Create env l) (\<lambda>_.
     bindE (g_get gr_lowGuid) (\<lambda>low. bindE (g_emit (GAddGroup low)) (\<lambda>_.
     bindE (gr_AddMember env me) (\<lambda>ok. g_when ok gr_BroadcastGroupUpdate)))))) group_ok"
proof -
  let ?R = "\<lambda>g. joined 0 g \<or> joined 1 g" and ?add = "bindE (gr_AddMember env me) (\<lambda>ok. g_when ok gr_BroadcastGroupUpdate)"
  have add: "leads_to ?R ?add group_ok"
    by (intro leads_to_cases leads_to_stronger [OF AddMember_ok [where P = id, unfolded id_def] joined_ready]
        leads_to_stronger [OF AddMember_ok [where P = id, unfolded id_def] one_ready])
  have k: "keeps (of_group ?R) (g_get gr_lowGuid)" "\<And>e. keeps (of_group ?R) (g_emit e)"
    by (simp_all add: keeps_def g_get_def g_emit_def of_group_def)
  have ok: "\<And>g. ?R g \<Longrightarrow> group_ok g" by (auto simp: joined_ok)
  note r = leads_to_keeps [OF k(1) ok] leads_to_keeps [OF k(2) ok]
  show ?thesis
    by (intro okn_bind [OF okn.keeps_RemoveInvite] leads_to_bind [OF Create_joined] leads_to_bind [OF r(1)]
        leads_to_bind [OF r(2)] add)
qed

lemma Accept_ok: "keeps (of_group group_ok) (HandleGroupAccept env me)"
proof -
  let ?add = "bindE (gr_AddMember env me) (\<lambda>ok. g_when ok gr_BroadcastGroupUpdate)"
  let ?tail = "bindE (accept_create env) (\<lambda>ok. if \<not> ok then ret () else ?add)"
  have gone: "keeps (of_group (\<lambda>_. False)) ?add"
    by (intro keeps_bindE AddMember_gone gone.keeps_when gone.keeps_BroadcastGroupUpdate)
  have tail: "of_group group_ok (snd (?tail w))" if w: "of_group group_ok w" and nf: "\<not> gr_IsFull (gw_group w)" for w
  proof (cases "gr_IsCreated (gw_group w)")
    case True
    then have run: "?tail w = ?add w" by (simp add: accept_create_def bindE_def [of "accept_create env"])
    have "of_group (join_ok (length (gr_memberSlots (gw_group w)))) w"
      using w nf True created_ready by (auto simp: of_group_def)
    then show ?thesis unfolding run by (rule leads_toD [OF AddMember_ok [where P = id, unfolded id_def]])
  next
    case False
    then have w0: "of_group (group_okn 0) w"
      using w by (auto simp: of_group_def group_okn_def gr_IsCreated_def gr_GetMembersCount_def)
    show ?thesis
    proof (cases "gw_players w (gr_leaderGuid (gw_group w))")
      case None
      then have "?tail w = bindE (bindE gr_RemoveAllInvites (\<lambda>_. ret False)) (\<lambda>ok. if \<not> ok then ret () else ?add) w"
        using False by (simp add: accept_create_def bindE_def [of "accept_create env"] bindE_def [of "bindE _ _"])
      then have run: "?tail w = bindE gr_RemoveAllInvites (\<lambda>_. ret ()) w"
        by (simp add: bindE_assoc ret_bind del: ret_apply)
      show ?thesis unfolding run by (intro ok.at_bind w ok.keeps_RemoveAllInvites keeps_ret)
    next
      case (Some l)
      let ?new = "bindE (gr_RemoveInvite (gr_leaderGuid (gw_group w))) (\<lambda>_.
             bindE (gr_Create env (gr_leaderGuid (gw_group w))) (\<lambda>_.
             bindE (g_get gr_lowGuid) (\<lambda>low.
             bindE (g_emit (GAddGroup low)) (\<lambda>_. ret True))))"
      have "?tail w = bindE ?new (\<lambda>ok. if \<not> ok then ret () else ?add) w"
        using False Some by (simp add: accept_create_def Let_def bindE_def [of "accept_create env"] bindE_def [of "bindE _ _"])
      then have "?tail w = bindE (gr_RemoveInvite (gr_leaderGuid (gw_group w))) (\<lambda>_.
             bindE (gr_Create env (gr_leaderGuid (gw_group w))) (\<lambda>_.
             bindE (g_get gr_lowGuid) (\<lambda>low.
             bindE (g_emit (GAddGroup low)) (\<lambda>_. ?add)))) w"
        by (simp add: bindE_assoc ret_bind del: ret_apply)
      then show ?thesis using leads_toD [OF join_new_group w0] by simp
    qed
  qed
  let ?f = "\<lambda>g. if gr_leaderGuid g = me then ret ()
        else if gr_IsFull g then h_SendPartyResult me PARTY_OP_INVITE [] ERR_GROUP_FULL else ?tail"
  have "keeps (of_group group_ok) (bindE (g_get id) ?f)"
  proof (rule keepsI)
    fix w assume w: "of_group group_ok w"
    have "bindE (g_get id) ?f w = ?f (gw_group w) w" by (simp add: bindE_def g_get_def)
    then show "of_group group_ok (snd (bindE (g_get id) ?f w))"
      using w tail [OF w] keepsD [OF ok.keeps_SendPartyResult w] by simp
  qed
  then have k: "keeps (of_group group_ok) (bindE (gr_RemoveInvite me) (\<lambda>_. bindE (g_get id) ?f))"
    by - (rule keeps_bindE [OF ok.keeps_RemoveInvite])
  show ?thesis by (rule keepsI) (use k in \<open>auto simp: HandleGroupAccept_def keeps_def\<close>)
qed

lemma Uninvite_ok: "keeps (of_group group_ok) (pl_UninviteFromGroup env guid)"
  by (rule keepsI)
     (auto simp: pl_UninviteFromGroup_def intro!: ok.at_bind ok.keeps_RemoveInvite keeps_bindE ok.keeps_get ok.keeps_when
       keeps_if Disband_ok ok.keeps_RemoveAllInvites delete_ok)

lemma Decline_ok: "keeps (of_group group_ok) (HandleGroupDecline env me)"
  by (rule keepsI)
     (auto simp: HandleGroupDecline_def Let_def split: option.split
       intro!: ok.at_bind Uninvite_ok ok.keeps_when ok.keeps_send)

lemma invite_into_ok: "keeps (of_group group_ok) (h_invite_into he me isNew guid)"
  unfolding h_invite_into_def Let_def
  by (intro keeps_if keeps_bindE ok.keeps_AddLeaderInvite ok.keeps_AddInvite delete_ok keeps_ret)

lemma Invite_ok: "keeps (of_group group_ok) (HandleGroupInvite he me name)"
proof (rule keepsI)
  fix w assume w: "of_group group_ok w"
  note one = keepsD [OF ok.keeps_SendPartyResult w]
  have two: "of_group group_ok (snd (bindE (h_SendPartyResult me PARTY_OP_INVITE n r) (\<lambda>_. g_when b (g_send g k bs)) w))" for n r b g k bs
    by (intro ok.at_bind w ok.keeps_SendPartyResult ok.keeps_when ok.keeps_send)
  have into: "of_group group_ok (snd (bindE (h_invite_into he me b guid) (\<lambda>ok. g_when ok (bindE (g_send guid k bs) (\<lambda>_.
      h_SendPartyResult me PARTY_OP_INVITE n ERR_PARTY_RESULT_OK))) w))" for b guid k bs n
    by (intro ok.at_bind w invite_into_ok ok.keeps_when keeps_bindE ok.keeps_send ok.keeps_SendPartyResult)
  show "of_group group_ok (snd (HandleGroupInvite he me name w))"
    unfolding HandleGroupInvite_def
    by (auto split: sum.split option.split simp: w one two into)
qed

lemma h_group_else_ok:
  "(\<And>p. keeps (of_group group_ok) (none p)) \<Longrightarrow> (\<And>p. keeps (of_group group_ok) (f p))
    \<Longrightarrow> keeps (of_group group_ok) (h_group_else me none f)"
  by (auto simp: keeps_def h_group_else_def split: option.split)

lemma UninviteGuid_ok: "keeps (of_group group_ok) (HandleGroupUninviteGuid env he me guid)"
  unfolding HandleGroupUninviteGuid_def
  by (intro keeps_if keeps_ret h_group_else_ok ok.keeps_SendPartyResult keepsI)
     (auto simp: Let_def intro!: keepsD [OF ok.keeps_SendPartyResult] keepsD [OF Uninvite_ok] ok.at_bind RemoveMember_ok keeps_ret simp del: ret_apply)

lemma Uninvite_name_ok: "keeps (of_group group_ok) (HandleGroupUninvite env he me name)"
proof -
  have remove: "of_group group_ok w \<Longrightarrow> of_group group_ok (snd (bindE (gr_RemoveMember env guid how) (\<lambda>_. ret ()) w))" for guid how w
    by (intro ok.at_bind RemoveMember_ok keeps_ret)
  have "keeps (of_group group_ok) (h_group_else me
            (\<lambda>p. if gp_name p = n then ret () else h_SendPartyResult me PARTY_OP_UNINVITE [] ERR_NOT_IN_GROUP) (\<lambda>p w.
            let g = gw_group w; res = pl_CanUninviteFromGroup env he me g; guid = gr_GetMemberGUID n g
            in if gp_name p = n then ret () w
               else if res \<noteq> ERR_PARTY_RESULT_OK then h_SendPartyResult me PARTY_OP_UNINVITE [] res w
               else if guid \<noteq> 0 then bindE (gr_RemoveMember env guid REMOVE_KICK) (\<lambda>_. ret ()) w
               else case gr_GetInvitedByName n w of
                   Some i \<Rightarrow> pl_UninviteFromGroup env i w
                 | None \<Rightarrow> h_SendPartyResult me PARTY_OP_UNINVITE n ERR_TARGET_NOT_IN_GROUP_S w))" for n
    by (intro h_group_else_ok keepsI)
       (auto simp: Let_def remove keepsD [OF ok.keeps_SendPartyResult] keepsD [OF Uninvite_ok] split: option.split simp del: ret_apply,
        simp_all)
  then show ?thesis unfolding HandleGroupUninvite_def
    by (simp add: keeps_ret keeps_throw split: sum.split option.split del: ret_apply throw_apply)
qed

lemma Leave_ok: "keeps (of_group group_ok) (HandleGroupDisband env he me)"
  unfolding HandleGroupDisband_def
  by (intro h_group_ok keeps_if ok.keeps_SendPartyResult keeps_bindE RemoveMember_ok keeps_ret)

lemma decrease_gone: "keeps (of_group (\<lambda>_. False)) (gr_SubGroupCounterDecrease sub)"
  by (simp add: keeps_def gr_SubGroupCounterDecrease_def g_upd_def of_group_def split: option.split)

lemma ChangeMembers_gone: "keeps (of_group (\<lambda>_. False)) (gr_ChangeMembersGroup env guid sub)"
proof (rule keepsI)
  fix w :: gworld assume w: "of_group (\<lambda>_. False) w"
  have p: "keeps (of_group (\<lambda>_. False)) (\<lambda>w. g_player guid (f w) w)" for f :: "gworld \<Rightarrow> gplayer \<Rightarrow> gplayer"
    by (simp add: keeps_def g_player_def of_group_def)
  have s: "keeps (of_group (\<lambda>_. False)) (set_slot_group guid sub)"
    by (simp add: keeps_def set_slot_group_def g_upd_def of_group_def)
  have "of_group (\<lambda>_. False) (snd (bindE (set_slot_group guid sub) (\<lambda>_. bindE (gr_SubGroupCounterIncrease sub) (\<lambda>_.
            bindE (gr_SubGroupCounterDecrease k) (\<lambda>_. bindE (save_subgroup guid sub) (\<lambda>_.
            bindE (\<lambda>w. g_player guid (f w) w) (\<lambda>_. gr_SendUpdate env))))) w))" for k f
    unfolding save_subgroup_def
    by (intro gone.at_bind w s keeps_bindE increase_gone decrease_gone gone.keeps_get gone.keeps_when gone.keeps_emit p
        gone.keeps_SendUpdate)
  then show "of_group (\<lambda>_. False) (snd (gr_ChangeMembersGroup env guid sub w))"
    using w by (auto simp: gr_ChangeMembersGroup_def split: option.split)
qed

lemma ChangeSubGroup_ok: "keeps (of_group group_ok) (HandleGroupChangeSubGroup env he me name n)"
  unfolding HandleGroupChangeSubGroup_def
proof (intro h_group_ok keepsI)
  fix w assume w: "of_group group_ok w"
  let ?guid = "case he_findByName he name of Some q \<Rightarrow> q | None \<Rightarrow> he_guidByName he name"
  have "of_group group_ok (snd (gr_ChangeMembersGroup env ?guid n w))"
    if "unat n < MAX_RAID_SUBGROUPS" and "gr_HasFreeSlotSubGroup n (gw_group w) = Inr True"
  proof (cases "gw_disbanded w")
    case True
    then show ?thesis by (rule gone_leads_to [OF ChangeMembers_gone])
  next
    case False
    then have ok: "group_ok (gw_group w)" using w by (simp add: of_group_def)
    then have "sub_size (gw_group w) (unat n) < MAXGROUPSIZE" using HasFree_ok [OF ok that(1)] that(2) by simp
    then show ?thesis by (rule ChangeMembersGroup_ok [OF ok that(1)])
  qed
  then show "of_group group_ok (snd (if MAX_RAID_SUBGROUPS \<le> unat n \<or> \<not> h_leads me (gw_group w) then ret () w
       else case gr_HasFreeSlotSubGroup n (gw_group w) of
         Inl e \<Rightarrow> throw e w
       | Inr False \<Rightarrow> ret () w
       | Inr True \<Rightarrow> let guid = ?guid in gr_ChangeMembersGroup env guid n w))"
    using w by (auto simp: Let_def split: sum.split bool.split)
qed

lemma handle_ok: "keeps (of_group group_ok) (g_handle env he m)"
proof (cases m)
  case (MLootRoll me guid c)
  then show ?thesis
    by (auto simp: HandleLootRoll_def intro!: h_group_ok keeps_bindE ok.keeps_CountRollVote ok.keeps_when ok.keeps_emit)
next
  case (MSetLeader me guid)
  have "keeps (of_group group_ok) (HandleGroupSetLeader env me guid)" unfolding HandleGroupSetLeader_def
    by (intro h_group_ok keepsI) (auto split: option.split intro!: ok.at_bind ok.keeps_ChangeLeader ok.keeps_SendUpdate)
  then show ?thesis using MSetLeader by simp
next
  case (MLootMethod me k l q)
  have "keeps (of_group group_ok) (HandleLootMethod env me k l q)" unfolding HandleLootMethod_def
    by (intro h_group_ok keepsI) (auto intro!: ok.at_bind keeps_bindE ok.keeps_loot_settings ok.keeps_SendUpdate)
  then show ?thesis using MLootMethod by simp
next
  case (MRaidConvert me)
  have "keeps (of_group group_ok) (HandleGroupRaidConvert env he me)"
    unfolding HandleGroupRaidConvert_def gr_ConvertToRaid_def
    by (intro h_group_ok keepsI) (auto intro!: ok.at_bind keeps_bindE ok.keeps_SendPartyResult raise_raid_ok ok.keeps_upd_type
          ok.keeps_SendUpdate ok.keeps_get keeps_forE ok.keeps_ifOnline ok.keeps_emit)
  then show ?thesis using MRaidConvert by simp
next
  case (MAssignment me a b guid)
  have "keeps (of_group group_ok) (HandlePartyAssignment env me a b guid)" unfolding HandlePartyAssignment_def
    by (intro h_group_ok keepsI)
       (simp add: ok.at_bind keeps_bindE ok.keeps_RemoveUnique ok.keeps_SetGroupMemberFlag ok.keeps_SendUpdate
         keeps_ret ok.at_ret del: ret_apply)
  then show ?thesis using MAssignment by simp
next
  case (MAssistant me guid b)
  have "keeps (of_group group_ok) (HandleGroupAssistantLeader env me guid b)" unfolding HandleGroupAssistantLeader_def
    by (intro h_group_ok keepsI) (auto intro!: keepsD [OF ok.keeps_SetGroupMemberFlag])
  then show ?thesis using MAssistant by simp
next
  case (MReadyCheck me st)
  have "keeps (of_group group_ok) (HandleRaidReadyCheck me st)" unfolding HandleRaidReadyCheck_def
    by (intro h_group_ok keepsI) (auto split: option.split intro!: ok.at_bind ok.keeps_BroadcastPacket ok.keeps_OfflineReadyCheck
          keepsD [OF ok.keeps_BroadcastReadyCheck])
  then show ?thesis using MReadyCheck by simp
next
  case (MRaidTarget me x guid)
  have "keeps (of_group group_ok) (HandleRaidTargetUpdate he me x guid)" unfolding HandleRaidTargetUpdate_def
    by (intro h_group_ok keepsI) (auto intro!: keepsD [OF ok.keeps_SendTargetIconList] keepsD [OF ok.keeps_SetTargetIcon])
  then show ?thesis using MRaidTarget by simp
qed (simp_all add: Invite_ok Accept_ok Decline_ok UninviteGuid_ok Uninvite_name_ok Leave_ok ChangeSubGroup_ok
      HandleMinimapPing_def HandleRandomRoll_def Let_def h_group_ok h_group_else_ok ok.keeps_send ok.keeps_BroadcastPacket keeps_ret del: ret_apply)

section \<open>The invariant in every state\<close>

lemma Create_any:
  assumes "of_group group_ok w" and "gr_memberSlots (gw_group w) = []"
  shows "of_group group_ok (snd (gr_Create env leader w))"
proof -
  have "of_group (group_okn 0) w" using assms by (simp add: of_group_def group_okn_def)
  then show ?thesis by (rule leads_toD [OF Create_joined]) (auto simp: joined_ok)
qed

lemma bg_join_ok:
  assumes w: "of_group group_ok w" and bg: "gr_isBG (gw_group w)" "gr_memberSlots (gw_group w) \<noteq> []"
  shows "of_group group_ok (snd (gr_AddMember env guid w))"
proof -
  have "of_group (join_ok (length (gr_memberSlots (gw_group w)))) w"
    using w bg by (auto simp: of_group_def join_ok_def joined_def group_okn_def group_ok_def)
  then show ?thesis by (rule leads_toD [OF AddMember_joined]) (auto simp: joined_ok)
qed

lemma step_ok: "g_step w w' \<Longrightarrow> of_group group_ok w \<Longrightarrow> of_group group_ok w'"
proof (induction rule: g_step.induct)
  case world
  have "group_view (g\<lparr>gr_RollId := rs, gr_memberMgr := ms\<rparr>) = group_view g" for g :: group and rs ms
    by (simp add: ok.views)
  from view_ok(1) [OF this] world show ?case by (simp add: of_group_def)
qed (simp_all add: keepsD [OF handle_ok] Create_any bg_join_ok keepsD [OF RemoveMember_ok]
       keepsD [OF ok.keeps_UpdateLooterGuid] keepsD [OF ok.keeps_ConvertToLFG] keepsD [OF ok.keeps_SetLfgRoles]
       keepsD [OF ok.keeps_EndRoll])

lemma new_ok: "group_ok ((gr_new ref)\<lparr>gr_bgGroup := bg, gr_bfGroup := bf\<rparr>)"
  by (simp add: group_ok_def gr_new_def sub_size_def gr_isRaidGroup_def)

lemma reach_ok: "g_reach w \<Longrightarrow> of_group group_ok w"
proof (induction rule: g_reach.induct)
  case (new w ref bg bf)
  then show ?case by (simp add: of_group_def new_ok)
next
  case (step w w')
  then show ?case by (blast intro: step_ok)
qed

lemma length_sub_sizes:
  "(\<forall>m \<in> set ms. unat (ms_group m) < k) \<Longrightarrow> length ms = (\<Sum>i<k. length (filter (\<lambda>m. unat (ms_group m) = i) ms))"
proof (induction ms)
  case Nil
  then show ?case by simp
next
  case (Cons m ms)
  have "(\<Sum>i<k. length (filter (\<lambda>x. unat (ms_group x) = i) (m # ms)))
        = (\<Sum>i<k. (if unat (ms_group m) = i then 1 else 0) + length (filter (\<lambda>x. unat (ms_group x) = i) ms))"
    by (rule sum.cong) auto
  also have "\<dots> = 1 + length ms" using Cons by (simp add: sum.distrib)
  finally show ?case by simp
qed

lemma group_size:
  assumes "group_ok g"
  shows "length (gr_memberSlots g) \<le> (if gr_isRaidGroup g then MAXRAIDSIZE else MAXGROUPSIZE)"
proof -
  have b: "sub_size g i \<le> MAXGROUPSIZE" for i using assms by (simp add: group_ok_def)
  have "length (gr_memberSlots g) = (\<Sum>i<MAX_RAID_SUBGROUPS. sub_size g i)"
    unfolding sub_size_def using assms by (intro length_sub_sizes) (simp add: group_ok_def)
  moreover have "(\<Sum>i<MAX_RAID_SUBGROUPS. sub_size g i) \<le> MAX_RAID_SUBGROUPS * MAXGROUPSIZE"
    using sum_bounded_above [of "{..<MAX_RAID_SUBGROUPS}" "sub_size g" MAXGROUPSIZE] b by simp
  moreover have "length (gr_memberSlots g) = sub_size g 0" if "\<not> gr_isRaidGroup g"
    using assms that unfolding sub_size_def group_ok_def by (simp add: filter_id_conv)
  ultimately show ?thesis using b [of 0] by (simp add: MAX_RAID_SUBGROUPS_def MAXGROUPSIZE_def MAXRAIDSIZE_def)
qed

text \<open>C19. In every state a group can reach, whatever messages the clients send and whatever the
  server does in between, a raid's counters of the subgroups are the numbers of members in the eight
  subgroups and a party has no counters; no subgroup has more than five members, all
  members are in one of the eight subgroups, in the first one as long as the group is a
  party; a raid has at most forty members and a party at most five.\<close>
theorem subgroup_counters:
  assumes "g_reach w" and "\<not> gw_disbanded w"
  shows "(let g = gw_group w; n = (\<lambda>i. length (filter (\<lambda>m. unat (ms_group m) = i) (gr_memberSlots g)))
     in gr_subGroupsCounts g = (if gr_isRaidGroup g then Some (map (\<lambda>i. of_nat (n i)) [0 ..< 8]) else None)
        \<and> (\<forall>i. n i \<le> 5)
        \<and> (\<forall>m \<in> set (gr_memberSlots g). if gr_isRaidGroup g then ms_group m < 8 else ms_group m = 0)
        \<and> length (gr_memberSlots g) \<le> (if gr_isRaidGroup g then 40 else 5))"
proof -
  have ok: "group_ok (gw_group w)" using reach_ok [OF assms(1)] assms(2) by (simp add: of_group_def)
  have "\<forall>m \<in> set (gr_memberSlots (gw_group w)).
          if gr_isRaidGroup (gw_group w) then ms_group m < 8 else ms_group m = 0"
    using ok by (auto simp: group_ok_def MAX_RAID_SUBGROUPS_def word_less_nat_alt)
  then show ?thesis
    using ok group_size [OF ok]
    by (auto simp: Let_def group_ok_def sub_size_def MAX_RAID_SUBGROUPS_def MAXGROUPSIZE_def MAXRAIDSIZE_def)
qed

text \<open>A battleground's group with two players, the first of whom goes offline before the second joins\<close>

definition sample_player :: "uint8 list \<Rightarrow> gplayer" where
  "sample_player name = \<lparr>gp_name = name, gp_group = None, gp_subGroup = 0, gp_originalGroup = None, gp_originalSubGroup = 0,
     gp_groupInvite = None, gp_groupLeaderFlag = False, gp_level = 80, gp_dungeonDifficulty = 0, gp_raidDifficulty = 0,
     gp_enchanting = 0, gp_logout = False, gp_alive = True, gp_mapId = 0, gp_instanceId = 0\<rparr>"

definition sample_env :: g_env where
  "sample_env = \<lparr>ge_newGroupId = 9, ge_newStoreId = 4, ge_playerName = (\<lambda>_. None), ge_boundInstance = (\<lambda>_. None),
     ge_lfgFinished = False, ge_lfgDungeon = 0, ge_lfgMapId = 0, ge_near = (\<lambda>_. True), ge_urand = of_nat,
     ge_canStore = (\<lambda>_ _. True)\<rparr>"

definition sample_henv :: h_env where
  "sample_henv = \<lparr>he_findByName = (\<lambda>_. Some 2), he_guidByName = (\<lambda>_. 0), he_inBattleground = (\<lambda>_. False),
     he_hostile = (\<lambda>_ _. False), he_kicksLeft = 0, he_lfgBoot = False, he_inCombat = (\<lambda>_. False),
     he_isBGGroup = (\<lambda>_. False), he_isBFGroup = (\<lambda>_. False), he_allowGMGroup = False, he_twoSide = False,
     he_gm = (\<lambda>_. False), he_team = (\<lambda>_. 0), he_ignores = (\<lambda>_ _. False), he_urand = (\<lambda>lo hi. lo)\<rparr>"

definition sample_start :: gworld where
  "sample_start = \<lparr>gw_group = (gr_new 7)\<lparr>gr_bgGroup := True, gr_bfGroup := False\<rparr>,
     gw_players = [1 \<mapsto> sample_player [65], 2 \<mapsto> sample_player [66]],
     gw_loots = Map.empty, gw_drawn = 0, gw_disbanded = False, gw_events = []\<rparr>"

definition sample_one :: gworld where "sample_one = snd (gr_Create sample_env 1 sample_start)"
definition sample_mid :: gworld where
  "sample_mid = sample_one\<lparr>gw_players := [2 \<mapsto> sample_player [66]], gw_loots := Map.empty,
     gw_group := (gw_group sample_one)\<lparr>gr_RollId := [], gr_memberMgr := []\<rparr>\<rparr>"
definition sample_two :: gworld where "sample_two = snd (gr_AddMember sample_env 2 sample_mid)"

lemma sample_one_value:
  "(gw_disbanded sample_one, gr_isBG (gw_group sample_one), gr_memberSlots (gw_group sample_one) = []) = (False, True, False)"
  by code_simp

lemma sample_one_facts:
  "\<not> gw_disbanded sample_one" "gr_isBG (gw_group sample_one)" "gr_memberSlots (gw_group sample_one) \<noteq> []"
  using sample_one_value by simp_all

lemma sample_mid_facts:
  "\<not> gw_disbanded sample_mid" "gr_isBG (gw_group sample_mid)" "gr_memberSlots (gw_group sample_mid) \<noteq> []"
  using sample_one_facts by (simp_all add: sample_mid_def gr_isBG_def)

lemma sample_two_value:
  "(gw_disbanded sample_two, gr_subGroupsCounts (gw_group sample_two)) = (False, Some [2, 0, 0, 0, 0, 0, 0, 0])"
  by code_simp

lemma sample_two_facts:
  "\<not> gw_disbanded sample_two" "gr_subGroupsCounts (gw_group sample_two) = Some [2, 0, 0, 0, 0, 0, 0, 0]"
  using sample_two_value by simp_all

lemma sample_reach: "g_reach sample_two"
proof -
  have "gw_group sample_start = (gr_new 7)\<lparr>gr_bgGroup := True, gr_bfGroup := False\<rparr>" by (simp only: sample_start_def gworld.simps)
  then have start: "g_reach sample_start" by (rule g_reach.new)
  have step1: "g_step sample_start sample_one"
    unfolding sample_one_def by (rule g_step.bg_create) (simp add: sample_start_def gr_new_def)
  have "\<not> gw_disbanded sample_start" by (simp only: sample_start_def gworld.simps) simp
  from g_reach.step [OF start this step1] have one: "g_reach sample_one" .
  have step2: "g_step sample_one sample_mid" unfolding sample_mid_def by (rule g_step.world)
  from g_reach.step [OF one sample_one_facts(1) step2] have mid: "g_reach sample_mid" .
  have step3: "g_step sample_mid sample_two"
    unfolding sample_two_def by (rule g_step.bg_join) (rule sample_mid_facts)+
  from g_reach.step [OF mid sample_mid_facts(1) step3] show ?thesis .
qed

theorem subgroup_counters_witness:
  "gr_subGroupsCounts (gw_group sample_two) = Some [2, 0, 0, 0, 0, 0, 0, 0]
   \<and> length (filter (\<lambda>m. unat (ms_group m) = 0) (gr_memberSlots (gw_group sample_two))) \<le> 5"
  using subgroup_counters [OF sample_reach sample_two_facts(1)] sample_two_facts(2) by (simp add: Let_def)

section \<open>No access outside the counters\<close>

lemma returns_SendUpdate: "returns (gr_SendUpdate env)"
proof -
  have "returns (gr_SendUpdateToPlayer env guid slot)" for guid slot
    unfolding returns_def gr_SendUpdateToPlayer_def
    by (auto simp: Let_def bindE_def g_upd_def g_send_def g_emit_def split: option.split)
  then show ?thesis unfolding gr_SendUpdate_def by (intro returns_bindE returns_basic returns_forE)
qed

lemma ChangeMembersGroup_defined:
  assumes ok: "group_ok (gw_group w)" and small: "unat sub < MAX_RAID_SUBGROUPS"
    and free: "sub_size (gw_group w) (unat sub) < MAXGROUPSIZE"
  shows "fst (gr_ChangeMembersGroup env guid sub w) = Inr ()"
proof (cases "gr_isRaidGroup (gw_group w) \<and> (\<exists>m. gr_slot guid (gw_group w) = Some m \<and> ms_group m \<noteq> sub)")
  case True
  then obtain m where raid: "gr_isRaidGroup (gw_group w)" and m: "gr_slot guid (gw_group w) = Some m" "ms_group m \<noteq> sub"
    by blast
  let ?move = "bindE (set_slot_group guid sub) (\<lambda>_. bindE (gr_SubGroupCounterIncrease sub) (\<lambda>_.
                 gr_SubGroupCounterDecrease (ms_group m)))"
  let ?rest = "bindE (save_subgroup guid sub) (\<lambda>_.
        bindE (\<lambda>w. g_player guid (\<lambda>p. if gp_group p = Some (gr_ref (gw_group w))
                                      then p\<lparr>gp_subGroup := sub\<rparr> else p\<lparr>gp_originalSubGroup := sub\<rparr>) w) (\<lambda>_.
        gr_SendUpdate env))"
  obtain w' where w': "?move w = (Inr (), w')" using move_ok [OF ok raid m small free] by auto
  have p: "returns (\<lambda>w. g_player guid (f w) w)" for f :: "gworld \<Rightarrow> gplayer \<Rightarrow> gplayer"
    by (simp add: returns_def g_player_def)
  have "returns ?rest" unfolding save_subgroup_def
    by (intro returns_bindE returns_basic returns_when p returns_SendUpdate)
  then obtain w2 where "?rest w' = (Inr (), w2)" unfolding returns_def by fastforce
  moreover have "gr_ChangeMembersGroup env guid sub w = bindE ?move (\<lambda>_. ?rest) w"
    using raid m by (simp add: gr_ChangeMembersGroup_def bindE_assoc)
  ultimately show ?thesis using w' by (simp add: bindE_ok)
next
  case False
  then show ?thesis by (auto simp: gr_ChangeMembersGroup_def split: option.split)
qed

text \<open>C20. In every state a group can reach, a request to move a member to another subgroup, with any
  name and any number of a subgroup from the client, is answered without reading or writing outside the
  array of the counters: the handler's checks are enough for \<^verbatim>\<open>HasFreeSlotSubGroup\<close>
  and \<^verbatim>\<open>ChangeMembersGroup\<close>, which have none.\<close>
theorem change_subgroup_defined:
  assumes "g_reach w" and "\<not> gw_disbanded w"
  shows "fst (HandleGroupChangeSubGroup env he me name n w) = Inr ()"
proof -
  have ok: "group_ok (gw_group w)" using reach_ok [OF assms(1)] assms(2) by (simp add: of_group_def)
  have move: "fst (gr_ChangeMembersGroup env guid n w) = Inr ()"
    if "unat n < MAX_RAID_SUBGROUPS" and "gr_HasFreeSlotSubGroup n (gw_group w) = Inr True" for guid
    using ChangeMembersGroup_defined [OF ok that(1)] HasFree_ok [OF ok that(1)] that(2) by simp
  have free: "\<exists>b. gr_HasFreeSlotSubGroup n (gw_group w) = Inr b" if "unat n < MAX_RAID_SUBGROUPS"
    using HasFree_ok [OF ok that] by blast
  show ?thesis unfolding HandleGroupChangeSubGroup_def h_group_def
    using move free by (auto simp: Let_def not_le split: option.split sum.split bool.split)
qed

theorem change_subgroup_defined_witness:
  "fst (HandleGroupChangeSubGroup sample_env sample_henv 1 [66] 200 sample_two) = Inr ()"
  by (rule change_subgroup_defined [OF sample_reach sample_two_facts(1)])

end
