(* ===== verification/Group_Member_Props.thy ===== *)
theory Group_Member_Props
  imports Group_Inv
begin

text \<open>
  What a departure does to the members and to the leader, and the two messages with which
  a member removes another one.
\<close>

section \<open>Members, leader and online players through an operation\<close>

definition at_members :: "uint64 list \<Rightarrow> uint64 set \<Rightarrow> uint64 \<Rightarrow> gworld \<Rightarrow> bool" where
  "at_members ids D l w \<longleftrightarrow> map ms_guid (gr_memberSlots (gw_group w)) = ids \<and> dom (gw_players w) = D
     \<and> gr_leaderGuid (gw_group w) = l"

interpretation at: leader_frame "at_members ids D l" for ids D l
  by unfold_locales (auto simp: same_leader_def same_group_def group_view_def at_members_def)

interpretation since: leader_frame "same_leader w" for w
  by unfold_locales (auto simp: same_leader_def same_group_def)

text \<open>What holds when an operation returns\<close>

definition yields :: "(gworld \<Rightarrow> bool) \<Rightarrow> 'a gop \<Rightarrow> (gworld \<Rightarrow> bool) \<Rightarrow> bool" where
  "yields P m Q \<longleftrightarrow> (\<forall>w x w'. P w \<longrightarrow> m w = (Inr x, w') \<longrightarrow> Q w')"

lemma yields_keeps: "keeps P m \<Longrightarrow> yields P m P"
  unfolding yields_def keeps_def by (metis snd_conv)

lemma yields_bind:
  assumes "yields P m Q" and "\<And>x. yields Q (f x) R"
  shows "yields P (bindE m f) R"
  unfolding yields_def
proof (intro allI impI)
  fix w y w' assume w: "P w" and run: "bindE m f w = (Inr y, w')"
  from run obtain x w1 where "m w = (Inr x, w1)" "f x w1 = (Inr y, w')" by (cases rule: bindE_cases) auto
  then show "R w'" using assms w unfolding yields_def by blast
qed

lemma yields_keep_bind: "keeps P m \<Longrightarrow> (\<And>x. yields P (f x) R) \<Longrightarrow> yields P (bindE m f) R"
  by (rule yields_bind [OF yields_keeps])

lemma map_guid_del_slot: "map ms_guid (del_slot guid ms) = remove1 guid (map ms_guid ms)"
  by (induction guid ms rule: del_slot.induct) auto

lemma gr_slot_None: "gr_slot guid g = None \<longleftrightarrow> guid \<notin> ms_guid ` set (gr_memberSlots g)"
  by (auto simp: gr_slot_def find_None_iff)

lemma remove_slot_yields: "yields (at_members ids D l) (remove_slot guid) (at_members (remove1 guid ids) D l)"
  unfolding yields_def remove_slot_def
proof (intro allI impI)
  fix w x w' assume w: "at_members ids D l w"
    and run: "(case gr_slot guid (gw_group w) of None \<Rightarrow> ret () w
      | Some m \<Rightarrow> bindE (gr_SubGroupCounterDecrease (ms_group m)) (\<lambda>_.
          g_upd (\<lambda>g. g\<lparr>gr_memberSlots := del_slot guid (gr_memberSlots g)\<rparr>)) w) = (Inr x, w')"
  show "at_members (remove1 guid ids) D l w'"
  proof (cases "gr_slot guid (gw_group w)")
    case None
    then have "guid \<notin> set ids" using w by (auto simp: gr_slot_None at_members_def)
    then show ?thesis using None run w by (simp add: remove1_idem)
  next
    case (Some m)
    then show ?thesis using run w
      by (auto simp: bindE_def gr_SubGroupCounterDecrease_def g_upd_def at_members_def map_guid_del_slot
          split: option.splits if_splits)
  qed
qed

lemma ChangeLeader_yields:
  assumes "new \<in> set ids" and "new \<in> D"
  shows "yields (at_members ids D l) (gr_ChangeLeader new) (at_members ids D new)"
proof -
  have u: "yields (at_members ids D l) (g_upd (\<lambda>g. g\<lparr>gr_leaderGuid := new, gr_leaderName := name\<rparr>)) (at_members ids D new)" for name
    by (auto simp: yields_def g_upd_def at_members_def)
  have chain: "yields (at_members ids D l)
     (bindE (g_emit e) (\<lambda>_.
      bindE (g_when b (bindE (g_emit e1) (\<lambda>_. bindE (g_emit e2) (\<lambda>_. g_emit e3)))) (\<lambda>_.
      bindE (g_player g1 f1) (\<lambda>_.
      bindE (g_player new f2) (\<lambda>_.
      bindE (g_upd (\<lambda>g. g\<lparr>gr_leaderGuid := new, gr_leaderName := name\<rparr>)) (\<lambda>_.
      bindE (gr_ToggleGroupMemberFlag new MEMBER_FLAG_ASSISTANT False) (\<lambda>_.
      gr_BroadcastPacket opc bs True None 0))))))) (at_members ids D new)" for e b e1 e2 e3 g1 f1 f2 name opc bs
  proof -
    have db: "keeps (at_members ids D l) (g_when b (bindE (g_emit e1) (\<lambda>_. bindE (g_emit e2) (\<lambda>_. g_emit e3))))"
      by (intro at.keeps_when keeps_bindE at.keeps_emit)
    have last: "yields (at_members ids D new) (bindE (gr_ToggleGroupMemberFlag new MEMBER_FLAG_ASSISTANT False) (\<lambda>_.
                  gr_BroadcastPacket opc bs True None 0)) (at_members ids D new)"
      by (intro yields_keeps keeps_bindE at.keeps_Toggle at.keeps_BroadcastPacket)
    show ?thesis
      by (rule yields_keep_bind [OF at.keeps_emit], rule yields_keep_bind [OF db],
          rule yields_keep_bind [OF at.keeps_player], rule yields_keep_bind [OF at.keeps_player],
          rule yields_bind [OF u last])
  qed
  show ?thesis unfolding yields_def
  proof (intro allI impI)
    fix w x w' assume w: "at_members ids D l w" and run: "gr_ChangeLeader new w = (Inr x, w')"
    obtain slot where "gr_slot new (gw_group w) = Some slot"
      using w assms(1) gr_slot_None [of new "gw_group w"] by (auto simp: at_members_def)
    moreover obtain p where "gw_players w new = Some p" using w assms(2) by (auto simp: at_members_def)
    ultimately show "at_members ids D new w'"
      using run w chain unfolding yields_def by (simp add: gr_ChangeLeader_def)
  qed
qed

lemma find_map: "find P (map f xs) = map_option f (find (\<lambda>x. P (f x)) xs)"
  by (induction xs) auto

definition successor :: "uint64 list \<Rightarrow> uint64 set \<Rightarrow> uint64 \<Rightarrow> uint64 \<Rightarrow> uint64" where
  "successor ids D l guid =
     (if l \<noteq> guid then l else case find (\<lambda>i. i \<in> D) ids of Some i \<Rightarrow> i | None \<Rightarrow> guid)"

lemma pick_leader_yields: "yields (at_members ids D l) (pick_leader guid) (at_members ids D (successor ids D l guid))"
  unfolding yields_def
proof (intro allI impI)
  fix w x w' assume w: "at_members ids D l w" and run: "pick_leader guid w = (Inr x, w')"
  let ?f = "find (\<lambda>m. gw_players w (ms_guid m) \<noteq> None) (gr_memberSlots (gw_group w))"
  have online: "gw_players w i \<noteq> None \<longleftrightarrow> i \<in> D" for i using w by (auto simp: at_members_def)
  have f: "find (\<lambda>i. i \<in> D) ids = map_option ms_guid ?f"
  proof -
    have ids: "ids = map ms_guid (gr_memberSlots (gw_group w))" using w by (simp add: at_members_def)
    show ?thesis unfolding ids find_map by (simp only: online)
  qed
  show "at_members ids D (successor ids D l guid) w'"
  proof (cases "l = guid")
    case True
    show ?thesis
    proof (cases ?f)
      case None
      then show ?thesis using run w True f by (auto simp: pick_leader_def at_members_def successor_def)
    next
      case (Some m)
      then have "ms_guid m \<in> set ids" "ms_guid m \<in> D"
        using w online by (auto simp: find_Some_iff at_members_def)
      moreover have "gr_ChangeLeader (ms_guid m) w = (Inr x, w')"
        using run w True Some by (simp add: pick_leader_def at_members_def)
      ultimately have "at_members ids D (ms_guid m) w'"
        using w ChangeLeader_yields unfolding yields_def by blast
      then show ?thesis using True Some f by (simp add: successor_def)
    qed
  next
    case False
    then show ?thesis using run w by (auto simp: pick_leader_def at_members_def successor_def)
  qed
qed

lemma Disband_returns: "gr_Disband env hide w = (Inr x, w') \<Longrightarrow> gw_disbanded w'"
  by (auto simp: gr_Disband_def elim!: bindE_cases)

lemma after_removal_yields:
  "yields (at_members ids D l) (after_removal env) (\<lambda>w. gw_disbanded w \<or> at_members ids D l w)"
  unfolding yields_def after_removal_def Let_def
  by (auto dest: Disband_returns elim!: bindE_cases split: if_splits)

text \<open>What a removal does after the checks\<close>

definition remove_steps :: "g_env \<Rightarrow> uint64 \<Rightarrow> remove_method \<Rightarrow> bool \<Rightarrow> gplayer option \<Rightarrow> bool gop" where
  "remove_steps env guid how bg player =
     bindE (g_when (player \<noteq> None)
              (bindE (leave_group guid) (\<lambda>_.
               bindE (g_when (\<not> bg) (g_emit (GQuestObjects guid))) (\<lambda>_.
               tell_removed guid how)))) (\<lambda>_.
     bindE (g_when (\<not> bg)
              (bindE (g_emit (GDelGroupMember (guid_counter guid))) (\<lambda>_. gr_DelinkMember guid))) (\<lambda>_.
     bindE (g_when (case player of None \<Rightarrow> True | Some p \<Rightarrow> gp_enchanting p \<noteq> 0)
              gr_ResetMaxEnchantingLevel) (\<lambda>_.
     bindE (leave_rolls env guid) (\<lambda>_.
     bindE (remove_slot guid) (\<lambda>_.
     bindE (pick_leader guid) (\<lambda>_.
     bindE (gr_SendUpdate env) (\<lambda>_.
     after_removal env)))))))"

lemma remove_steps_yields:
  "yields (at_members ids D l) (remove_steps env guid how bg player)
    (\<lambda>w. gw_disbanded w \<or> at_members (remove1 guid ids) D (successor (remove1 guid ids) D l guid) w)"
  unfolding remove_steps_def
  by (intro yields_keep_bind [OF at.keeps_when] yields_keep_bind [OF at.keeps_leave_rolls]
        yields_bind [OF remove_slot_yields] yields_bind [OF pick_leader_yields]
        yields_keep_bind [OF at.keeps_SendUpdate] after_removal_yields
        keeps_bindE at.keeps_leave_group at.keeps_when at.keeps_emit at.keeps_tell_removed at.keeps_Delink at.keeps_ResetMax)

text \<open>C21. A member leaves a group that is large enough to live on: exactly he is taken out of the list,
  and when he was the leader, the first member in the list who is online becomes
  the leader; when nobody is online, the group keeps the GUID of the player who left as its
  leader. Otherwise the leader stays.\<close>
theorem member_leaves:
  assumes "\<not> (gr_isLFGGroup (gw_group w) \<and> how = REMOVE_KICK)"
    and "gr_GetMembersCount (gw_group w) > (if gr_isBG (gw_group w) \<or> gr_isLFGGroup (gw_group w) then 1 else 2)"
    and run: "gr_RemoveMember env guid how w = (Inr b, w')" and live: "\<not> gw_disbanded w'"
  shows "map ms_guid (gr_memberSlots (gw_group w')) = remove1 guid (map ms_guid (gr_memberSlots (gw_group w)))
    \<and> gr_leaderGuid (gw_group w') =
        (if gr_leaderGuid (gw_group w) \<noteq> guid then gr_leaderGuid (gw_group w)
         else case find (\<lambda>i. gw_players w i \<noteq> None) (remove1 guid (map ms_guid (gr_memberSlots (gw_group w)))) of
                Some i \<Rightarrow> i | None \<Rightarrow> guid)"
proof -
  let ?g = "gw_group w" and ?ids = "map ms_guid (gr_memberSlots (gw_group w))" and ?D = "dom (gw_players w)"
  let ?l = "gr_leaderGuid (gw_group w)"
  let ?start = "bindE gr_BroadcastGroupUpdate (\<lambda>_. g_emit (GOnRemoveMember guid how))"
  have k: "keeps (same_leader w) ?start"
    by (intro keeps_bindE since.keeps_BroadcastGroupUpdate since.keeps_emit)
  from run obtain x w1 where start: "?start w = (Inr x, w1)"
    and body: "(let g = gw_group w1 in if gr_isLFGGroup g \<and> how = REMOVE_KICK then ret (gr_memberSlots g \<noteq> [])
       else if gr_GetMembersCount g > (if gr_isBG g \<or> gr_isLFGGroup g then 1 else 2)
       then bindE (g_FindPlayer guid) (remove_steps env guid how (gr_isBG g))
       else bindE (gr_Disband env False) (\<lambda>_. ret False)) w1 = (Inr b, w')"
    unfolding gr_RemoveMember_def remove_steps_def [symmetric] by (elim bindE_cases) (auto simp: g_get_def Let_def bindE_ok)
  have same: "same_leader w w1"
    using keepsD [OF k, of w] start by (simp add: same_leader_def same_group_def)
  then have eq: "gr_isLFGGroup (gw_group w1) = gr_isLFGGroup ?g" "gr_isBG (gw_group w1) = gr_isBG ?g"
      "gr_GetMembersCount (gw_group w1) = gr_GetMembersCount ?g" and at1: "at_members ?ids ?D ?l w1"
    by (auto simp: same_leader_def same_group_def group_view_def at_members_def gr_GetMembersCount_def
        dest: map_eq_imp_length_eq)
  have "remove_steps env guid how (gr_isBG ?g) (gw_players w1 guid) w1 = (Inr b, w')"
    using body assms(1,2) by (simp add: eq Let_def g_FindPlayer_def bindE_def [of "getE _"] split: if_splits)
  then have "at_members (remove1 guid ?ids) ?D (successor (remove1 guid ?ids) ?D ?l guid) w'"
    using remove_steps_yields at1 live unfolding yields_def by blast
  moreover have "(\<lambda>i. i \<in> ?D) = (\<lambda>i. gw_players w i \<noteq> None)" by auto
  ultimately show ?thesis by (simp add: at_members_def successor_def)
qed

text \<open>A party of three whose leader is offline\<close>

definition trio :: group where
  "trio = (gr_new 7)\<lparr>gr_memberSlots := [\<lparr>ms_guid = 1, ms_name = [65], ms_group = 0, ms_flags = 0, ms_roles = 0\<rparr>,
      \<lparr>ms_guid = 2, ms_name = [66], ms_group = 0, ms_flags = MEMBER_FLAG_ASSISTANT, ms_roles = 0\<rparr>,
      \<lparr>ms_guid = 3, ms_name = [67], ms_group = 0, ms_flags = 0, ms_roles = 0\<rparr>],
    gr_memberMgr := [3, 2], gr_leaderGuid := 1\<rparr>"

definition trio_player :: gplayer where
  "trio_player = \<lparr>gp_name = [66], gp_group = Some 7, gp_subGroup = 0, gp_originalGroup = None, gp_originalSubGroup = 0,
     gp_groupInvite = None, gp_groupLeaderFlag = False, gp_level = 80, gp_dungeonDifficulty = 0, gp_raidDifficulty = 0,
     gp_enchanting = 0, gp_logout = False, gp_alive = True, gp_mapId = 0, gp_instanceId = 0\<rparr>"

definition trio_world :: gworld where
  "trio_world = \<lparr>gw_group = trio, gw_players = [2 \<mapsto> trio_player],
     gw_loots = Map.empty, gw_drawn = 0, gw_disbanded = False, gw_events = []\<rparr>"

definition trio_env :: g_env where
  "trio_env = \<lparr>ge_newGroupId = 9, ge_newStoreId = 4, ge_playerName = (\<lambda>_. None), ge_boundInstance = (\<lambda>_. None),
     ge_lfgFinished = False, ge_lfgDungeon = 0, ge_lfgMapId = 0, ge_near = (\<lambda>_. True), ge_urand = of_nat,
     ge_canStore = (\<lambda>_ _. True)\<rparr>"

definition trio_after :: gworld where "trio_after = snd (gr_RemoveMember trio_env 1 REMOVE_LEAVE trio_world)"

lemma trio_value:
  "(fst (gr_RemoveMember trio_env 1 REMOVE_LEAVE trio_world), gw_disbanded trio_after,
    gr_isLFGGroup (gw_group trio_world), gr_isBG (gw_group trio_world), gr_GetMembersCount (gw_group trio_world))
   = (Inr True, False, False, False, 3)"
  by code_simp

theorem member_leaves_witness:
  "map ms_guid (gr_memberSlots (gw_group trio_after)) = [2, 3] \<and> gr_leaderGuid (gw_group trio_after) = 2"
proof -
  note v = trio_value
  have run: "gr_RemoveMember trio_env 1 REMOVE_LEAVE trio_world = (Inr True, trio_after)"
    using v unfolding trio_after_def by (metis prod.collapse prod.inject)
  have "map ms_guid (gr_memberSlots (gw_group trio_world)) = [1, 2, 3]" "gr_leaderGuid (gw_group trio_world) = 1"
    "gw_players trio_world 2 \<noteq> None"
    by (simp_all add: trio_world_def trio_def gr_new_def)
  then show ?thesis using member_leaves [OF _ _ run] v by simp
qed

section \<open>Removing another member\<close>

text \<open>C26. An assistant may not remove the leader by his GUID: the only effect is the answer that he is
  not the leader. But the same request with the leader's name is granted, because the
  handler for names has no such check: the leader is removed and the first member who is online,
  the assistant or somebody before him, becomes the leader.\<close>
theorem assistant_kicks_leader:
  assumes me: "gw_players w me = Some p" "gp_group p = Some (gr_ref (gw_group w))"
    and assistant: "gr_IsAssistant me (gw_group w)" and leader: "gr_leaderGuid (gw_group w) = l" "l \<noteq> me" "l \<noteq> 0"
    and normal: "\<not> gr_isLFGGroup (gw_group w)" "\<not> he_inBattleground he me" "gr_GetMembersCount (gw_group w) > 2"
    and name: "normalizePlayerName s = Inr (Some n)" "gp_name p \<noteq> n" "gr_GetMemberGUID n (gw_group w) = l"
  shows "HandleGroupUninviteGuid env he me l w = h_SendPartyResult me PARTY_OP_UNINVITE [] ERR_NOT_LEADER w
    \<and> (\<forall>w'. HandleGroupUninvite env he me s w = (Inr (), w') \<and> \<not> gw_disbanded w' \<longrightarrow>
         map ms_guid (gr_memberSlots (gw_group w')) = remove1 l (map ms_guid (gr_memberSlots (gw_group w)))
         \<and> find (\<lambda>i. gw_players w i \<noteq> None) (remove1 l (map ms_guid (gr_memberSlots (gw_group w))))
             = Some (gr_leaderGuid (gw_group w')))"
proof -
  let ?g = "gw_group w" and ?ids = "map ms_guid (gr_memberSlots (gw_group w))"
  have can: "pl_CanUninviteFromGroup env he me ?g = ERR_PARTY_RESULT_OK"
    using normal assistant by (simp add: pl_CanUninviteFromGroup_def h_leads_def)
  have guid: "HandleGroupUninviteGuid env he me l w = h_SendPartyResult me PARTY_OP_UNINVITE [] ERR_NOT_LEADER w"
    using me leader can by (simp add: HandleGroupUninviteGuid_def h_group_else_def Let_def gr_IsLeader_def)
  have by_name: "HandleGroupUninvite env he me s w = bindE (gr_RemoveMember env l REMOVE_KICK) (\<lambda>_. ret ()) w"
    using me leader can name by (simp add: HandleGroupUninvite_def h_group_else_def Let_def)
  have "me \<in> set ?ids" using assistant gr_slot_None [of me ?g] by (cases "gr_slot me ?g") (auto simp: gr_IsAssistant_def)
  then have "me \<in> set (remove1 l ?ids)" using leader(2) by simp
  then obtain i where i: "find (\<lambda>i. gw_players w i \<noteq> None) (remove1 l ?ids) = Some i"
    using me(1) by (cases "find (\<lambda>i. gw_players w i \<noteq> None) (remove1 l ?ids)") (auto simp: find_None_iff)
  have "map ms_guid (gr_memberSlots (gw_group w')) = remove1 l ?ids \<and> gr_leaderGuid (gw_group w') = i"
    if run: "HandleGroupUninvite env he me s w = (Inr (), w')" and live: "\<not> gw_disbanded w'" for w'
  proof -
    obtain b where "gr_RemoveMember env l REMOVE_KICK w = (Inr b, w')"
      using run unfolding by_name by (cases rule: bindE_cases) auto
    then show ?thesis using member_leaves [of w REMOVE_KICK env l b w'] normal leader live i by simp
  qed
  then show ?thesis using guid i by auto
qed

definition trio_henv :: h_env where
  "trio_henv = \<lparr>he_findByName = (\<lambda>_. None), he_guidByName = (\<lambda>_. 0), he_inBattleground = (\<lambda>_. False),
     he_hostile = (\<lambda>_ _. False), he_kicksLeft = 0, he_lfgBoot = False, he_inCombat = (\<lambda>_. False),
     he_isBGGroup = (\<lambda>_. False), he_isBFGroup = (\<lambda>_. False), he_allowGMGroup = False, he_twoSide = False,
     he_gm = (\<lambda>_. False), he_team = (\<lambda>_. 0), he_ignores = (\<lambda>_ _. False), he_urand = (\<lambda>lo hi. lo)\<rparr>"

definition trio_kicked :: gworld where "trio_kicked = snd (HandleGroupUninvite trio_env trio_henv 2 [97] trio_world)"

lemma trio_kick_value:
  "(fst (HandleGroupUninvite trio_env trio_henv 2 [97] trio_world), gw_disbanded trio_kicked) = (Inr (), False)"
  by code_simp

lemma normalize_a: "normalizePlayerName [97] = Inr (Some [65])"
  by code_simp

theorem assistant_kicks_leader_witness:
  "map ms_guid (gr_memberSlots (gw_group trio_kicked)) = [2, 3] \<and> gr_leaderGuid (gw_group trio_kicked) = 2"
proof -
  have run: "HandleGroupUninvite trio_env trio_henv 2 [97] trio_world = (Inr (), trio_kicked)"
    using trio_kick_value unfolding trio_kicked_def by (metis prod.collapse prod.inject)
  have ids: "map ms_guid (gr_memberSlots (gw_group trio_world)) = [1, 2, 3]" "gw_players trio_world 2 = Some trio_player"
    by (simp_all add: trio_world_def trio_def gr_new_def)
  have "map ms_guid (gr_memberSlots (gw_group trio_kicked)) = remove1 1 [1, 2, 3]
     \<and> find (\<lambda>i. gw_players trio_world i \<noteq> None) (remove1 1 [1, 2, 3]) = Some (gr_leaderGuid (gw_group trio_kicked))"
    unfolding ids(1) [symmetric]
    by (rule assistant_kicks_leader [where p = trio_player and n = "[65]", THEN conjunct2, rule_format, OF _ _ _ _ _ _ _ _ _ normalize_a])
       (use run trio_kick_value in \<open>simp_all add: trio_world_def trio_def trio_player_def gr_new_def gr_IsAssistant_def gr_slot_def
          MEMBER_FLAG_ASSISTANT_def gr_isLFGGroup_def trio_henv_def gr_GetMembersCount_def gr_GetMemberGUID_def\<close>)
  then show ?thesis using ids by simp
qed

end
