(* ===== verification/Group_Loot_Props.thy ===== *)
theory Group_Loot_Props
  imports Group_Ops
begin

text \<open>
  The loot of a group: the turn of the looter goes round, the highest number wins a roll, and
  what a second vote of the same player does.
\<close>

section \<open>The turn of the looter\<close>

definition at_loot :: "member_slot list \<Rightarrow> (uint64 \<Rightarrow> gplayer option) \<Rightarrow> uint8 \<Rightarrow> uint64 \<Rightarrow> gworld \<Rightarrow> bool" where
  "at_loot ms ps how looter w \<longleftrightarrow> gr_memberSlots (gw_group w) = ms \<and> gw_players w = ps
     \<and> gr_lootMethod (gw_group w) = how \<and> gr_looterGuid (gw_group w) = looter"

lemma SendUpdate_at_loot: "keeps (at_loot ms ps how looter) (gr_SendUpdate env)"
proof -
  have "keeps (at_loot ms ps how looter) (gr_SendUpdateToPlayer env guid slot)" for guid slot
    by (rule keepsI)
       (auto simp: gr_SendUpdateToPlayer_def Let_def bindE_def g_upd_def g_send_def g_emit_def at_loot_def
         split: option.split)
  then show ?thesis unfolding gr_SendUpdate_def
    by (intro keeps_bindE keeps_forE) (simp add: keeps_def g_get_def)
qed

lemma after_slot_nth:
  "distinct (map ms_guid ms) \<Longrightarrow> j < length ms \<Longrightarrow> after_slot (ms_guid (ms ! j)) ms = Suc j"
proof (induction ms arbitrary: j)
  case Nil
  then show ?case by simp
next
  case (Cons m ms)
  then show ?case by (cases j) auto
qed

lemma next_looter_all:
  assumes all: "\<forall>m \<in> set ms. can_loot env ps m" and ms: "gr_memberSlots g = ms" "distinct (map ms_guid ms)"
    and j: "j < length ms" "gr_looterGuid g = ms_guid (ms ! j)"
  shows "next_looter env ps g = Some (ms ! (Suc j mod length ms))"
proof (cases "Suc j < length ms")
  case True
  then have "drop (Suc j) ms = ms ! Suc j # drop (Suc (Suc j)) ms" by (simp add: Cons_nth_drop_Suc)
  then show ?thesis using assms after_slot_nth [OF ms(2) j(1)] True by (simp add: next_looter_def Let_def)
next
  case False
  then have n: "length ms = Suc j" using j(1) by simp
  then have "find (can_loot env ps) (take (Suc j) ms) = Some (ms ! 0)" using all by (cases ms) auto
  then show ?thesis using assms after_slot_nth [OF ms(2) j(1)] n by (simp add: next_looter_def Let_def)
qed

definition looter_step :: "g_env \<Rightarrow> gworld \<Rightarrow> gworld" where
  "looter_step env w = snd (gr_UpdateLooterGuid env False w)"

lemma looter_step_next:
  assumes at: "at_loot ms ps how (ms_guid (ms ! j)) w" and j: "j < length ms" and how: "how \<noteq> FREE_FOR_ALL"
    and dist: "distinct (map ms_guid ms)" and all: "\<forall>m \<in> set ms. can_loot env ps m"
  shows "at_loot ms ps how (ms_guid (ms ! (Suc j mod length ms))) (looter_step env w)"
proof -
  let ?m = "ms ! (Suc j mod length ms)"
  have n: "next_looter env (gw_players w) (gw_group w) = Some ?m"
    using next_looter_all [OF all _ dist j, of "gw_group w"] at by (simp add: at_loot_def)
  have "keeps (at_loot ms ps how (ms_guid ?m)) (gr_SendUpdate env)" by (rule SendUpdate_at_loot)
  then show ?thesis using at how n
    by (auto simp: looter_step_def gr_UpdateLooterGuid_def Let_def gr_SetLooterGuid_def g_upd_def bindE_def keeps_def at_loot_def)
qed


text \<open>Three members, of whom the second has the turn\<close>

definition party :: gworld where
  "party = \<lparr>gw_group = (gr_new 7)\<lparr>gr_memberSlots := map (\<lambda>i. \<lparr>ms_guid = i, ms_name = [], ms_group = 0, ms_flags = 0,
        ms_roles = 0\<rparr>) [4, 5, 6], gr_lootMethod := GROUP_LOOT, gr_looterGuid := 5\<rparr>,
     gw_players = (\<lambda>_. Some \<lparr>gp_name = [], gp_group = None, gp_subGroup = 0, gp_originalGroup = None, gp_originalSubGroup = 0,
        gp_groupInvite = None, gp_groupLeaderFlag = False, gp_level = 80, gp_dungeonDifficulty = 0, gp_raidDifficulty = 0,
        gp_enchanting = 0, gp_logout = False, gp_alive = True, gp_mapId = 0, gp_instanceId = 0\<rparr>),
     gw_loots = Map.empty, gw_drawn = 0, gw_disbanded = False, gw_events = []\<rparr>"

definition party_env :: g_env where
  "party_env = \<lparr>ge_newGroupId = 9, ge_newStoreId = 4, ge_playerName = (\<lambda>_. None), ge_boundInstance = (\<lambda>_. None),
     ge_lfgFinished = False, ge_lfgDungeon = 0, ge_lfgMapId = 0, ge_near = (\<lambda>_. True), ge_urand = (\<lambda>i. [30, 80, 80, 5] ! i),
     ge_canStore = (\<lambda>_ _. True)\<rparr>"


section \<open>Rolls\<close>

text \<open>What the operations on a roll leave alone: the group and the players\<close>

definition at_rolls :: "group \<Rightarrow> (uint64 \<Rightarrow> gplayer option) \<Rightarrow> gworld \<Rightarrow> bool" where
  "at_rolls g ps w \<longleftrightarrow> gw_group w = g \<and> gw_players w = ps"

lemma at_rolls_basic:
  "keeps (at_rolls g ps) (g_emit e)" "keeps (at_rolls g ps) (g_send guid opc bs)" "keeps (at_rolls g ps) (g_urand env)"
  "keeps (at_rolls g ps) (g_loot k f)" "keeps (at_rolls g ps) (g_FindPlayer guid)" "keeps (at_rolls g ps) (g_get h)"
  by (simp_all add: keeps_def g_emit_def g_send_def g_urand_def g_loot_def g_FindPlayer_def g_get_def at_rolls_def)

lemma at_rolls_when: "keeps (at_rolls g ps) m \<Longrightarrow> keeps (at_rolls g ps) (g_when b m)"
  by (simp add: g_when_def keeps_ret del: ret_apply)

lemma at_rolls_ifOnline: "(\<And>p. keeps (at_rolls g ps) (f p)) \<Longrightarrow> keeps (at_rolls g ps) (g_ifOnline guid f)"
  unfolding g_ifOnline_def
  by (rule keeps_bindE [OF at_rolls_basic(5)]) (simp add: keeps_ret split: option.split del: ret_apply)

lemma at_rolls_send: "keeps (at_rolls g ps) (ro_send P opc bs r)"
  unfolding ro_send_def
  by (intro keeps_forE) (auto split: prod.split intro!: at_rolls_ifOnline at_rolls_when at_rolls_basic)

lemma at_rolls_SendLootRoll: "keeps (at_rolls g ps) (gr_SendLootRoll s t n k r)"
  unfolding gr_SendLootRoll_def by (rule at_rolls_send)

lemma at_rolls_item: "keeps (at_rolls g ps) (g_item k slot f)"
  by (rule keepsI) (auto simp: g_item_def split: option.split intro: keepsD [OF at_rolls_basic(4)])

lemma at_rolls_taken: "keeps (at_rolls g ps) (item_taken k slot)"
  unfolding item_taken_def by (intro keeps_bindE at_rolls_item at_rolls_basic)

lemma at_rolls_store: "keeps (at_rolls g ps) (store_item env guid k r)"
  unfolding store_item_def by (intro keeps_if keeps_bindE at_rolls_taken at_rolls_item at_rolls_basic)

lemma at_rolls_disenchant: "keeps (at_rolls g ps) (disenchant_item env guid k r)"
  unfolding disenchant_item_def by (intro keeps_bindE at_rolls_taken at_rolls_basic)

lemma at_rolls_loop: "keeps (at_rolls g ps) (roll_loop env P r vs best)"
  by (induction env P r vs best rule: roll_loop.induct)
     (simp_all add: keeps_ret keeps_bindE at_rolls_basic at_rolls_SendLootRoll del: ret_apply)

lemma at_rolls_announce: "keeps (at_rolls g ps) (roll_announce guid choice r)"
  unfolding roll_announce_def by (intro keeps_if at_rolls_SendLootRoll keeps_ret)

lemma at_rolls_decide: "keeps (at_rolls g ps) (decide_roll env r)"
  unfolding decide_roll_def gr_SendLootRollWon_def gr_SendLootAllPassed_def
  by (auto split: option.split prod.split intro!: keeps_bindE keeps_ret at_rolls_loop at_rolls_send
        at_rolls_ifOnline at_rolls_basic at_rolls_store at_rolls_disenchant at_rolls_item simp del: ret_apply)

text \<open>A counted roll is gone, the others are as they were.\<close>

lemma CountTheRoll_erases:
  assumes run: "gr_CountTheRoll env i w = (Inr (), w')"
  shows "gw_group w' = (gw_group w)\<lparr>gr_RollId := erase_at i (gr_RollId (gw_group w))\<rparr>"
proof -
  let ?r = "gr_RollId (gw_group w) ! i"
  obtain x w1 where w1: "decide_roll env ?r w = (Inr x, w1)"
    and u: "g_upd (\<lambda>g. g\<lparr>gr_RollId := erase_at i (gr_RollId g)\<rparr>) w1 = (Inr (), w')"
    using run unfolding gr_CountTheRoll_def by (elim bindE_cases) (auto simp: g_get_def)
  have "gw_group w1 = gw_group w"
    using keepsD [OF at_rolls_decide [of "gw_group w" "gw_players w" env ?r], of w] w1 by (simp add: at_rolls_def)
  then show ?thesis using u by (auto simp: g_upd_def)
qed

section \<open>A second vote\<close>

lemma roll_index_Some: "roll_index item rs = Some i \<Longrightarrow> i < length rs"
  by (induction item rs arbitrary: i rule: roll_index.induct) (auto split: if_splits)

lemma roll_index_None: "\<forall>r \<in> set rs. ro_itemGUID r \<noteq> item \<Longrightarrow> roll_index item rs = None"
  by (induction item rs rule: roll_index.induct) auto

lemma erase_at_upd: "erase_at i (xs[i := x]) = erase_at i xs"
  by (simp add: erase_at_def)

lemma set_erase_at:
  assumes "x \<in> set (erase_at i xs)"
  shows "\<exists>j < length xs. j \<noteq> i \<and> x = xs ! j"
proof -
  have "x \<in> set (take i xs) \<or> x \<in> set (drop (Suc i) xs)" using assms by (simp add: erase_at_def)
  then show ?thesis
  proof
    assume "x \<in> set (take i xs)"
    then obtain j where "j < length (take i xs)" "x = take i xs ! j" by (auto simp: in_set_conv_nth)
    then show ?thesis by (intro exI [of _ j]) simp
  next
    assume "x \<in> set (drop (Suc i) xs)"
    then obtain j where "j < length (drop (Suc i) xs)" "x = drop (Suc i) xs ! j" by (auto simp: in_set_conv_nth)
    then show ?thesis by (intro exI [of _ "Suc i + j"]) simp
  qed
qed

lemma succ_unat: "unat (x :: uint8) + 1 \<le> unat (y :: uint8) \<Longrightarrow> unat (x + 1) = unat x + 1"
proof -
  assume a: "unat x + 1 \<le> unat y"
  have "unat y < 2 ^ LENGTH(8)" by (rule unsigned_less)
  then show ?thesis using a by (simp add: unat_word_ariths)
qed

lemma choice_complete:
  assumes "unat (ro_totalPass r) + unat (ro_totalNeed r) + unat (ro_totalGreed r) + 1 = unat (ro_totalPlayersRolling r)"
    and "choice < 4"
  shows "roll_complete (roll_choice a choice r)"
proof -
  have c: "choice = ROLL_PASS \<or> choice = ROLL_NEED \<or> choice = ROLL_GREED \<or> choice = ROLL_DISENCHANT"
  proof -
    have "unat choice < 4" using assms(2) by (simp add: word_less_nat_alt)
    then have "unat choice = 0 \<or> unat choice = 1 \<or> unat choice = 2 \<or> unat choice = 3" by auto
    then show ?thesis
      by (auto simp: ROLL_PASS_def ROLL_NEED_def ROLL_GREED_def ROLL_DISENCHANT_def word_unat_eq_iff)
  qed
  have u: "unat (ro_totalPass r + 1) = unat (ro_totalPass r) + 1" "unat (ro_totalNeed r + 1) = unat (ro_totalNeed r) + 1"
      "unat (ro_totalGreed r + 1) = unat (ro_totalGreed r) + 1"
    using assms(1) by (intro succ_unat [where y = "ro_totalPlayersRolling r"], simp)+
  show ?thesis using c u assms(1)
    by (auto simp: roll_complete_def roll_choice_def ROLL_PASS_def ROLL_NEED_def ROLL_GREED_def ROLL_DISENCHANT_def)
qed

text \<open>C25. A player whose vote is in may vote again, and the second vote is counted: when one other player
  has not voted yet, it completes the roll, whatever the choice. The roll is decided and deleted,
  and the vote of the player who was waited for no longer has any effect.\<close>
theorem second_vote_ends_roll:
  assumes roll: "roll_index item (gr_RollId (gw_group w)) = Some i" "gr_RollId (gw_group w) ! i = r"
    and loot: "ro_loot r = Some k" "gw_loots w k = Some l" "lo_items l \<noteq> []"
    and voted: "om_find a (ro_playerVote r) = Some v" "v \<noteq> NOT_EMITED_YET"
    and waiting: "om_find b (ro_playerVote r) = Some NOT_EMITED_YET"
    and missing: "unat (ro_totalPass r) + unat (ro_totalNeed r) + unat (ro_totalGreed r) + 1 = unat (ro_totalPlayersRolling r)"
    and choice: "choice < 4" and unique: "\<forall>j < length (gr_RollId (gw_group w)). j \<noteq> i \<longrightarrow> ro_itemGUID (gr_RollId (gw_group w) ! j) \<noteq> item"
    and run: "gr_CountRollVote env a item choice w = (Inr (), w')"
  shows "gr_RollId (gw_group w') = erase_at i (gr_RollId (gw_group w)) \<and> gr_CountRollVote env b item c w' = (Inr (), w')"
proof -
  let ?rs = "gr_RollId (gw_group w)" and ?r' = "roll_choice a choice r"
  have "bindE (roll_announce a choice r) (\<lambda>_.
        bindE (g_upd (\<lambda>g. g\<lparr>gr_RollId := (gr_RollId g)[i := ?r']\<rparr>)) (\<lambda>_.
        g_when (roll_complete ?r') (gr_CountTheRoll env i))) w = (Inr (), w')"
    using run roll loot voted(1) by (simp add: gr_CountRollVote_def Let_def)
  then obtain x w1 where w1: "roll_announce a choice r w = (Inr x, w1)"
    and rest: "bindE (g_upd (\<lambda>g. g\<lparr>gr_RollId := (gr_RollId g)[i := ?r']\<rparr>)) (\<lambda>_.
        g_when (roll_complete ?r') (gr_CountTheRoll env i)) w1 = (Inr (), w')"
    by (cases rule: bindE_cases) auto
  have g1: "gw_group w1 = gw_group w"
    using keepsD [OF at_rolls_announce [of "gw_group w" "gw_players w" a choice r], of w] w1 by (simp add: at_rolls_def)
  let ?w2 = "w1\<lparr>gw_group := (gw_group w)\<lparr>gr_RollId := ?rs[i := ?r']\<rparr>\<rparr>"
  have "gr_CountTheRoll env i ?w2 = (Inr (), w')"
    using rest choice_complete [OF missing choice] by (simp add: g_upd_def bindE_def g1 g_when_def)
  from CountTheRoll_erases [OF this] have erased: "gr_RollId (gw_group w') = erase_at i ?rs"
    by (simp add: erase_at_upd)
  have "roll_index item (erase_at i ?rs) = None"
    by (rule roll_index_None) (use unique in \<open>auto dest!: set_erase_at\<close>)
  then show ?thesis using erased by (simp add: gr_CountRollVote_def)
qed

definition second_roll :: roll where
  "second_roll = \<lparr>ro_itemGUID = 90, ro_itemid = 33, ro_itemRandomPropId = 0, ro_itemRandomSuffix = 0, ro_itemCount = 1,
     ro_playerVote = [(4, PASS), (5, NOT_EMITED_YET)], ro_totalPlayersRolling = 2, ro_totalNeed = 0, ro_totalGreed = 0,
     ro_totalPass = 1, ro_itemSlot = 0, ro_rollVoteMask = 7, ro_loot = Some 1\<rparr>"

definition second_loot :: loot where
  "second_loot = \<lparr>lo_items = [\<lparr>li_itemid = 33, li_randomSuffix = 0, li_randomPropertyId = 0, li_count = 1,
     li_is_looted = False, li_is_blocked = True, li_freeforall = False, li_is_underthreshold = False,
     li_follow_loot_rules = False\<rparr>], lo_quest_items = [], lo_unlootedCount = 1\<rparr>"

definition second_world :: gworld where
  "second_world = party\<lparr>gw_group := (gw_group party)\<lparr>gr_RollId := [second_roll]\<rparr>, gw_loots := [1 \<mapsto> second_loot]\<rparr>"

lemma second_value: "fst (gr_CountRollVote party_env 4 90 ROLL_PASS second_world) = Inr ()"
  by code_simp

theorem second_vote_ends_roll_witness:
  "gr_RollId (gw_group (snd (gr_CountRollVote party_env 4 90 ROLL_PASS second_world))) = []"
proof -
  have run: "gr_CountRollVote party_env 4 90 ROLL_PASS second_world
               = (Inr (), snd (gr_CountRollVote party_env 4 90 ROLL_PASS second_world))"
    using second_value by (metis prod.collapse)
  have "gr_RollId (gw_group (snd (gr_CountRollVote party_env 4 90 ROLL_PASS second_world))) = erase_at 0 [second_roll]"
    using second_vote_ends_roll [of 90 second_world 0 second_roll 1 second_loot 4 PASS 5 ROLL_PASS party_env, OF _ _ _ _ _ _ _ _ _ _ _ run]
    by (simp add: second_world_def second_roll_def second_loot_def ROLL_PASS_def)
  then show ?thesis by (simp add: erase_at_def)
qed

section \<open>The winner of a roll\<close>

text \<open>Operations that only append events\<close>

definition tells :: "unit gop \<Rightarrow> bool" where
  "tells m \<longleftrightarrow> (\<forall>w. \<exists>es. m w = (Inr (), w\<lparr>gw_events := gw_events w @ es\<rparr>))"

lemma tells_ret: "tells (ret ())"
  unfolding tells_def by (auto intro: exI [of _ "[]"])

lemma tells_bind: "tells m \<Longrightarrow> tells m' \<Longrightarrow> tells (bindE m (\<lambda>_. m'))"
  unfolding tells_def
proof (intro allI)
  fix w :: gworld
  assume m: "\<forall>w. \<exists>es. m w = (Inr (), w\<lparr>gw_events := gw_events w @ es\<rparr>)"
    and m': "\<forall>w. \<exists>es. m' w = (Inr (), w\<lparr>gw_events := gw_events w @ es\<rparr>)"
  obtain es where es: "m w = (Inr (), w\<lparr>gw_events := gw_events w @ es\<rparr>)" using m by blast
  obtain es' where "m' (w\<lparr>gw_events := gw_events w @ es\<rparr>) = (Inr (), w\<lparr>gw_events := gw_events w @ es @ es'\<rparr>)"
    using m' [rule_format, of "w\<lparr>gw_events := gw_events w @ es\<rparr>"] by auto
  then show "\<exists>es. bindE m (\<lambda>_. m') w = (Inr (), w\<lparr>gw_events := gw_events w @ es\<rparr>)"
    using es by (auto simp: bindE_ok)
qed

lemma tells_send: "tells (ro_send P opc bs r)"
proof -
  have one: "tells (g_ifOnline guid (\<lambda>_. g_when b (g_send guid opc bs)))" for guid b
    unfolding tells_def g_ifOnline_def
    by (auto simp: g_FindPlayer_def bindE_def g_when_def g_send_def g_emit_def split: option.split intro: exI [of _ "[]"])
  have "tells (forE (\<lambda>(guid, vote). g_ifOnline guid (\<lambda>_. g_when (P vote) (g_send guid opc bs))) vs)" for vs
    by (induction vs) (auto intro: tells_ret tells_bind one simp del: ret_apply)
  then show ?thesis unfolding ro_send_def .
qed

lemma tells_rolls: "tells (gr_SendLootRoll s t n k r)" "tells (gr_SendLootRollWon s t n k r)"
  unfolding gr_SendLootRoll_def gr_SendLootRollWon_def by (rule tells_send)+

lemma tellsD: "tells m \<Longrightarrow> \<exists>es. m w = (Inr (), w\<lparr>gw_events := gw_events w @ es\<rparr>)"
  by (simp add: tells_def)

text \<open>The loop over the votes, without the messages\<close>

fun best_of :: "(nat \<Rightarrow> uint8) \<Rightarrow> (uint64 \<times> roll_vote) list \<Rightarrow> nat \<Rightarrow> uint64 \<times> uint8 \<times> roll_vote \<Rightarrow> uint64 \<times> uint8 \<times> roll_vote" where
  "best_of dice [] d best = best"
| "best_of dice ((guid, vote) # vs) d best =
     best_of dice vs (Suc d) (if fst (snd best) < dice d then (guid, dice d, vote) else best)"

lemma roll_loop_best:
  "\<exists>es. roll_loop env P r vs best w =
     (Inr (best_of (ge_urand env) (filter (\<lambda>v. P (snd v)) vs) (gw_drawn w) best),
      w\<lparr>gw_drawn := gw_drawn w + length (filter (\<lambda>v. P (snd v)) vs), gw_events := gw_events w @ es\<rparr>)"
proof (induction env P r vs best arbitrary: w rule: roll_loop.induct)
  case (1 env P r best)
  show ?case by (auto intro: exI [of _ "[]"])
next
  case (2 env P r guid vote vs best)
  show ?case
  proof (cases "P vote")
    case False
    then show ?thesis using "2.IH"(1) [OF False, of w] by simp
  next
    case True
    let ?n = "ge_urand env (gw_drawn w)" and ?w = "w\<lparr>gw_drawn := gw_drawn w + 1\<rparr>"
    obtain es where es: "gr_SendLootRoll 0 guid ?n (vote_code vote) r ?w = (Inr (), ?w\<lparr>gw_events := gw_events w @ es\<rparr>)"
      using tellsD [OF tells_rolls(1) [of 0 guid ?n "vote_code vote" r], of ?w] by auto
    let ?w2 = "?w\<lparr>gw_events := gw_events w @ es\<rparr>"
    have run: "roll_loop env P r ((guid, vote) # vs) best w
        = roll_loop env P r vs (if fst (snd best) < ?n then (guid, ?n, vote) else best) ?w2"
      using True es by (simp add: g_urand_def bindE_def)
    obtain es' where "roll_loop env P r vs (if fst (snd best) < ?n then (guid, ?n, vote) else best) ?w2
        = (Inr (best_of (ge_urand env) (filter (\<lambda>v. P (snd v)) vs) (gw_drawn ?w2)
                  (if fst (snd best) < ?n then (guid, ?n, vote) else best)),
           ?w2\<lparr>gw_drawn := gw_drawn ?w2 + length (filter (\<lambda>v. P (snd v)) vs), gw_events := gw_events ?w2 @ es'\<rparr>)"
      using "2.IH"(2) [of ?n ?w2] True by auto
    then show ?thesis unfolding run using True by (intro exI [of _ "es @ es'"]) simp
  qed
qed

text \<open>The best of a list is the first with the highest number, if that beats the start.\<close>

lemma best_of_cases:
  assumes "best_of dice vs d (g0, n0, v0) = (g, n, v)"
  shows "(n = n0 \<and> g = g0 \<and> v = v0 \<and> (\<forall>j < length vs. dice (d + j) \<le> n0))
    \<or> (\<exists>j < length vs. vs ! j = (g, v) \<and> n = dice (d + j) \<and> n0 < n
         \<and> (\<forall>i < length vs. dice (d + i) \<le> n) \<and> (\<forall>i < j. dice (d + i) < n))"
  using assms
proof (induction vs arbitrary: d g0 n0 v0)
  case Nil
  then show ?case by simp
next
  case (Cons vt vs)
  obtain g1 v1 where vt: "vt = (g1, v1)" by (cases vt)
  show ?case
  proof (cases "n0 < dice d")
    case True
    then have "best_of dice vs (Suc d) (g1, dice d, v1) = (g, n, v)" using Cons.prems vt by simp
    from Cons.IH [OF this] show ?thesis
    proof (elim disjE exE conjE)
      assume "n = dice d" "g = g1" "v = v1" "\<forall>j < length vs. dice (Suc d + j) \<le> dice d"
      then show ?thesis using True vt by (intro disjI2 exI [of _ 0]) (auto simp: less_Suc_eq_0_disj)
    next
      fix j assume "j < length vs" "vs ! j = (g, v)" "n = dice (Suc d + j)" "dice d < n"
        "\<forall>i < length vs. dice (Suc d + i) \<le> n" "\<forall>i < j. dice (Suc d + i) < n"
      then show ?thesis using True vt
        by (intro disjI2 exI [of _ "Suc j"]) (auto simp: less_Suc_eq_0_disj)
    qed
  next
    case False
    then have "best_of dice vs (Suc d) (g0, n0, v0) = (g, n, v)" using Cons.prems vt by simp
    from Cons.IH [OF this] show ?thesis
    proof (elim disjE exE conjE)
      assume "n = n0" "g = g0" "v = v0" "\<forall>j < length vs. dice (Suc d + j) \<le> n0"
      then show ?thesis using False by (intro disjI1) (auto simp: less_Suc_eq_0_disj)
    next
      fix j assume "j < length vs" "vs ! j = (g, v)" "n = dice (Suc d + j)" "n0 < n"
        "\<forall>i < length vs. dice (Suc d + i) \<le> n" "\<forall>i < j. dice (Suc d + i) < n"
      then show ?thesis using False
        by (intro disjI2 exI [of _ "Suc j"]) (auto simp: less_Suc_eq_0_disj)
    qed
  qed
qed

lemma lo_item_upd:
  assumes "lo_item slot l = Some it"
  shows "lo_item slot (lo_upd_item slot f l) = Some (f it)"
  using assms by (auto simp: lo_item_def lo_upd_item_def Let_def split: if_splits)

lemma lo_item_count: "lo_item slot (l\<lparr>lo_unlootedCount := c\<rparr>) = lo_item slot l"
  by (simp add: lo_item_def Let_def)

text \<open>C23. A roll in which somebody needs the item is decided among those who need it: each draws one number
  from the dice, in the order of the votes, and when the numbers are positive, as those of
  \<^verbatim>\<open>urand(1, 100)\<close> are, the first of those with the highest number wins. If the winner is online
  and can store the item, it is marked as looted and stored for him, whatever the others voted.\<close>
theorem highest_need_wins:
  assumes loot: "ro_loot r = Some k" "gw_loots w k = Some l" "lo_item (ro_itemSlot r) l = Some it"
    and need: "ro_totalNeed r > 0" and needers: "needers = filter (\<lambda>v. snd v = NEED) (ro_playerVote r)" "needers \<noteq> []"
    and dice: "\<forall>j < length needers. ge_urand env (gw_drawn w + j) > 0"
    and online: "\<forall>v \<in> set needers. gw_players w (fst v) \<noteq> None \<and> ge_canStore env (fst v) (ro_itemid r)"
  shows "\<exists>j < length needers. \<exists>es w'. decide_roll env r w = (Inr (), w')
    \<and> (\<forall>i < length needers. ge_urand env (gw_drawn w + i) \<le> ge_urand env (gw_drawn w + j))
    \<and> (\<forall>i < j. ge_urand env (gw_drawn w + i) < ge_urand env (gw_drawn w + j))
    \<and> gw_drawn w' = gw_drawn w + length needers
    \<and> gw_events w' = es @ [GStoreNewItem (fst (needers ! j)) (ro_itemid r)]
    \<and> Option.bind (gw_loots w' k) (lo_item (ro_itemSlot r)) = Some (it\<lparr>li_is_looted := True\<rparr>)"
proof -
  let ?dice = "ge_urand env" and ?d = "gw_drawn w" and ?vs = "ro_playerVote r"
  obtain g n v where best: "best_of ?dice needers ?d (fst (hd ?vs), 0, NOT_VALID) = (g, n, v)" by (metis prod_cases3)
  obtain vt rest where "needers = vt # rest" using needers(2) by (cases needers) auto
  then have "?dice (?d + 0) > 0" using dice [rule_format, of 0] by simp
  then obtain j where j: "j < length needers" "needers ! j = (g, v)" "n = ?dice (?d + j)"
    "\<forall>i < length needers. ?dice (?d + i) \<le> n" "\<forall>i < j. ?dice (?d + i) < n"
    using best_of_cases [OF best] \<open>needers = vt # rest\<close> by (metis length_greater_0_conv list.discI not_less)
  have g: "g = fst (needers ! j)" using j(2) by simp
  obtain es where loop: "roll_loop env (\<lambda>v. v = NEED) r ?vs (fst (hd ?vs), 0, NOT_VALID) w
      = (Inr (g, n, v), w\<lparr>gw_drawn := ?d + length needers, gw_events := gw_events w @ es\<rparr>)"
    using roll_loop_best [of env "\<lambda>v. v = NEED" r ?vs "(fst (hd ?vs), 0, NOT_VALID)" w] best
    unfolding needers(1) by auto
  let ?w1 = "w\<lparr>gw_drawn := ?d + length needers, gw_events := gw_events w @ es\<rparr>"
  obtain es1 where won: "gr_SendLootRollWon 0 g n ROLL_NEED r ?w1 = (Inr (), ?w1\<lparr>gw_events := (gw_events w @ es) @ es1\<rparr>)"
    using tellsD [OF tells_rolls(2) [of 0 g n ROLL_NEED r], of ?w1] by auto
  have "(g, v) \<in> set needers" using j(1,2) nth_mem by fastforce
  then obtain p where p: "gw_players w g = Some p" and store: "ge_canStore env g (ro_itemid r)" using online by auto
  have votes: "?vs \<noteq> []" using needers by auto
  show ?thesis
    apply (intro exI [of _ j] conjI j(1))
    apply (rule exI [of _ "((gw_events w @ es) @ es1) @ [GRollAchievement g (ro_itemid r) n True, GNotifyItemRemoved k (ro_itemSlot r)]"])
    apply (rule exI [of _ "snd (decide_roll env r w)"])
    using j votes need loot loop won p store g
    by (simp add: decide_roll_def bindE_ok g_ifOnline_def g_FindPlayer_def bindE_def [of "getE _"] g_emit_def bindE_def [of "modE _"]
        store_item_def item_taken_def g_item_def g_loot_def lo_item_upd lo_item_count)
qed

definition need_roll :: roll where
  "need_roll = second_roll\<lparr>ro_playerVote := [(4, NEED), (5, NEED), (6, GREED)], ro_totalPlayersRolling := 3,
     ro_totalNeed := 2, ro_totalGreed := 1, ro_totalPass := 0\<rparr>"

theorem highest_need_wins_witness:
  "\<exists>es w'. decide_roll party_env need_roll second_world = (Inr (), w') \<and> gw_events w' = es @ [GStoreNewItem 5 33]"
proof -
  have dice: "\<forall>j < length [(4 :: uint64, NEED), (5, NEED)]. ge_urand party_env (gw_drawn second_world + j) > 0"
    by (auto simp: party_env_def second_world_def party_def less_Suc_eq)
  have online: "\<forall>v \<in> set [(4 :: uint64, NEED), (5, NEED)]. gw_players second_world (fst v) \<noteq> None
      \<and> ge_canStore party_env (fst v) (ro_itemid need_roll)"
    by (simp add: second_world_def party_def party_env_def)
  have loot: "ro_loot need_roll = Some 1" "gw_loots second_world 1 = Some second_loot"
      "lo_item (ro_itemSlot need_roll) second_loot = Some (hd (lo_items second_loot))" "ro_totalNeed need_roll > 0"
    by (simp_all add: need_roll_def second_roll_def second_world_def second_loot_def lo_item_def Let_def)
  have needers: "[(4, NEED), (5, NEED)] = filter (\<lambda>v. snd v = NEED) (ro_playerVote need_roll)" "[(4 :: uint64, NEED), (5, NEED)] \<noteq> []"
    by (simp_all add: need_roll_def)
  obtain j es w' where j: "j < length [(4 :: uint64, NEED), (5, NEED)]" and run: "decide_roll party_env need_roll second_world = (Inr (), w')"
    and max: "\<forall>i < length [(4 :: uint64, NEED), (5, NEED)]. ge_urand party_env (gw_drawn second_world + i) \<le> ge_urand party_env (gw_drawn second_world + j)"
    and events: "gw_events w' = es @ [GStoreNewItem (fst ([(4, NEED), (5, NEED)] ! j)) (ro_itemid need_roll)]"
    using highest_need_wins [OF loot needers dice online] by blast
  have "j \<noteq> 0"
  proof
    assume "j = 0"
    then show False using max [rule_format, of 1] by (simp add: party_env_def second_world_def party_def)
  qed
  then have "j = 1" using j by (simp add: less_Suc_eq)
  then show ?thesis using run events by (auto simp: need_roll_def second_roll_def)
qed

end
