(* ===== verification/Group_Loot.thy ===== *)
theory Group_Loot
  imports Group_Rolls
begin

text \<open>
  What happens when a group loots (src/Core/src/server/game/Groups/Group.cpp): \<^verbatim>\<open>GroupLoot\<close>,
  \<^verbatim>\<open>NeedBeforeGreed\<close> and \<^verbatim>\<open>MasterLoot\<close> on the loot of a corpse or chest, and the
  message who may loot. The templates of the items, who may have an item and where the players
  are come from the environment; the GUID of a new roll is the environment's for the slot.
\<close>

record item_template =
  it_Quality :: uint32
  it_Flags2 :: uint32
  it_RequiredDisenchantSkill :: uint32
  it_DisenchantID :: uint32

record l_env =
  le_template :: "uint32 \<Rightarrow> item_template option"
  le_allowed :: "uint64 \<Rightarrow> uint32 \<Rightarrow> bool"
  le_near :: "uint64 \<Rightarrow> bool"
  le_passOnLoot :: "uint64 \<Rightarrow> bool"
  le_canNeed :: "uint64 \<Rightarrow> uint32 \<Rightarrow> bool"
  le_inWorld :: "uint64 \<Rightarrow> bool"
  le_newGuid :: "uint8 \<Rightarrow> uint64"
  le_hasTimer :: bool
  le_mapId :: uint32

definition ITEM_FLAGS_EXTRA_NEED_ROLL_DISABLED :: uint32 where "ITEM_FLAGS_EXTRA_NEED_ROLL_DISABLED = 0x100"
definition SMSG_LOOT_MASTER_LIST :: uint16 where "SMSG_LOOT_MASTER_LIST = 0x2A4"
definition SMSG_LOOT_LIST :: uint16 where "SMSG_LOOT_LIST = 0x3F9"
definition ROLL_TIME :: uint32 where "ROLL_TIME = 60000"

section \<open>Who may loot\<close>

text \<open>
  The counter of the loop has eight bits: with more than 255 items it goes round for ever
  when none of the first 256 counts.
\<close>

definition lo_hasOverThresholdItem :: "loot \<Rightarrow> bool option" where
  "lo_hasOverThresholdItem l =
     (if list_ex (\<lambda>i. \<not> li_is_looted i \<and> \<not> li_is_underthreshold i \<and> \<not> li_freeforall i) (take 256 (lo_items l))
      then Some True
      else if length (lo_items l) < 256 then Some False else None)"

text \<open>The creature's GUID and the group's looter, if any; without an answer of the loop there is no packet.\<close>

definition looter_bytes :: "uint64 \<Rightarrow> bool \<Rightarrow> uint64 \<Rightarrow> uint64 option \<Rightarrow> uint8 list" where
  "looter_bytes creature master masterLooter looter =
     le_bytes 8 creature @ (if master then packGUID masterLooter else [0])
     @ (case looter of None \<Rightarrow> [0] | Some p \<Rightarrow> packGUID p)"

definition gr_SendLooter :: "uint64 \<Rightarrow> loot \<Rightarrow> uint64 option \<Rightarrow> unit gop option" where
  "gr_SendLooter creature l looter =
     map_option (\<lambda>over.
       bindE (g_get id) (\<lambda>g.
       gr_BroadcastPacket SMSG_LOOT_LIST
         (looter_bytes creature (gr_lootMethod g = MASTER_LOOT \<and> over) (gr_masterLooterGuid g) looter) False None 0))
     (lo_hasOverThresholdItem l)"

section \<open>The start of a roll\<close>

text \<open>The players who take part: near members who may have the item; those who always pass have voted.\<close>

definition roll_join :: "l_env \<Rightarrow> bool \<Rightarrow> loot_item \<Rightarrow> uint64 list \<Rightarrow> roll \<Rightarrow> roll" where
  "roll_join le autoPass li members r =
     fold (\<lambda>guid r.
       if le_allowed le guid (li_itemid li) \<and> le_near le guid
       then
         let r = r\<lparr>ro_totalPlayersRolling := ro_totalPlayersRolling r + 1\<rparr>
         in if autoPass \<and> le_passOnLoot le guid
            then r\<lparr>ro_playerVote := om_set guid PASS (ro_playerVote r), ro_totalPass := ro_totalPass r + 1\<rparr>
            else r\<lparr>ro_playerVote := om_set guid NOT_EMITED_YET (ro_playerVote r)\<rparr>
       else r) members r"

definition loot_timer :: "l_env \<Rightarrow> unit gop" where
  "loot_timer le = g_when (le_hasTimer le) (g_emit (GLootTimer ROLL_TIME))"

definition block_item :: "uint32 \<Rightarrow> uint8 \<Rightarrow> unit gop" where
  "block_item k slot = g_item k slot (\<lambda>i. i\<lparr>li_is_blocked := True\<rparr>)"

definition add_roll :: "roll \<Rightarrow> unit gop" where
  "add_roll r = g_upd (\<lambda>g. g\<lparr>gr_RollId := gr_RollId g @ [r]\<rparr>)"

definition disenchant_mask :: "item_template \<Rightarrow> roll \<Rightarrow> group \<Rightarrow> roll" where
  "disenchant_mask t r g =
     (if it_DisenchantID t \<noteq> 0 \<and> gr_maxEnchantingLevel g \<ge> it_RequiredDisenchantSkill t
      then r\<lparr>ro_rollVoteMask := ro_rollVoteMask r OR ROLL_FLAG_TYPE_DISENCHANT\<rparr> else r)"

text \<open>The passes that were made automatically, to everybody who rolls\<close>

definition tell_passes :: "roll \<Rightarrow> unit gop" where
  "tell_passes r =
     forE (\<lambda>(guid, vote). g_ifOnline guid (\<lambda>_. g_when (vote = PASS)
       (gr_SendLootRoll (ro_itemGUID r) guid 128 ROLL_PASS r))) (ro_playerVote r)"

section \<open>Group loot\<close>

definition group_item :: "l_env \<Rightarrow> uint32 \<Rightarrow> uint8 \<Rightarrow> loot_item \<Rightarrow> unit gop" where
  "group_item le k slot li =
     (if li_freeforall li then ret ()
      else case le_template le (li_itemid li) of
        None \<Rightarrow> ret ()
      | Some t \<Rightarrow>
          bindE (g_get id) (\<lambda>g.
          if unat (it_Quality t) < unat (gr_lootThreshold g)
          then g_item k slot (\<lambda>i. i\<lparr>li_is_underthreshold := True\<rparr>)
          else
            let r = roll_join le True li (gr_memberMgr g) (ro_new (le_newGuid le slot) li)
            in if ro_totalPlayersRolling r = 0 then ret ()
               else
                 let r = disenchant_mask t (r\<lparr>ro_loot := Some k, ro_itemSlot := slot\<rparr>) g
                 in bindE (block_item k slot) (\<lambda>_.
                    bindE (g_when (ro_totalPass r \<noteq> 0) (tell_passes r)) (\<lambda>_.
                    bindE (gr_SendLootStartRoll ROLL_TIME (le_mapId le) r) (\<lambda>_.
                    bindE (add_roll r) (\<lambda>_. loot_timer le))))))"

definition group_quest_item :: "l_env \<Rightarrow> uint32 \<Rightarrow> uint8 \<Rightarrow> loot_item \<Rightarrow> unit gop" where
  "group_quest_item le k slot li =
     (if \<not> li_follow_loot_rules li then ret ()
      else case le_template le (li_itemid li) of
        None \<Rightarrow> ret ()
      | Some t \<Rightarrow>
          bindE (g_get id) (\<lambda>g.
          let r = roll_join le False li (gr_memberMgr g) (ro_new (le_newGuid le slot) li)
          in if ro_totalPlayersRolling r = 0 then ret ()
             else
               let r = r\<lparr>ro_loot := Some k, ro_itemSlot := slot\<rparr>
               in bindE (block_item k slot) (\<lambda>_.
                  bindE (gr_SendLootStartRoll ROLL_TIME (le_mapId le) r) (\<lambda>_.
                  bindE (add_roll r) (\<lambda>_. loot_timer le)))))"

text \<open>The slots are counted on from the items to the quest items in eight bits.\<close>

definition loot_loop :: "(uint8 \<Rightarrow> loot_item \<Rightarrow> unit gop) \<Rightarrow> (uint8 \<Rightarrow> loot_item \<Rightarrow> unit gop) \<Rightarrow> loot \<Rightarrow> unit gop" where
  "loot_loop f q l =
     bindE (forE (\<lambda>(i, li). f (of_nat i) li) (enumerate 0 (lo_items l))) (\<lambda>_.
     forE (\<lambda>(i, li). q (of_nat i) li) (enumerate (length (lo_items l)) (lo_quest_items l)))"

definition g_with_loot :: "uint32 \<Rightarrow> (loot \<Rightarrow> unit gop) \<Rightarrow> unit gop" where
  "g_with_loot k f w = (case gw_loots w k of None \<Rightarrow> throw GroupUndefined w | Some l \<Rightarrow> f l w)"

definition gr_GroupLoot :: "l_env \<Rightarrow> uint32 \<Rightarrow> unit gop" where
  "gr_GroupLoot le k = g_with_loot k (loot_loop (group_item le k) (group_quest_item le k))"

section \<open>Need before greed\<close>

text \<open>Each player gets the automatic passes or the start of the roll, with need only if he can use the item.\<close>

definition tell_starts :: "l_env \<Rightarrow> roll \<Rightarrow> unit gop" where
  "tell_starts le r =
     forE (\<lambda>(guid, vote). g_ifOnline guid (\<lambda>_.
       if vote = PASS then gr_SendLootRoll (ro_itemGUID r) guid 128 ROLL_PASS r
       else gr_SendLootStartRollToPlayer ROLL_TIME (le_mapId le) guid (le_canNeed le guid (ro_itemid r)) r)) (ro_playerVote r)"

text \<open>Here the template is read without a check that it exists.\<close>

definition need_item :: "l_env \<Rightarrow> uint32 \<Rightarrow> uint8 \<Rightarrow> loot_item \<Rightarrow> unit gop" where
  "need_item le k slot li =
     (if li_freeforall li then ret ()
      else case le_template le (li_itemid li) of
        None \<Rightarrow> throw GroupUndefined
      | Some t \<Rightarrow>
          bindE (g_get id) (\<lambda>g.
          if unat (it_Quality t) < unat (gr_lootThreshold g)
          then g_item k slot (\<lambda>i. i\<lparr>li_is_underthreshold := True\<rparr>)
          else
            let r = roll_join le True li (gr_memberMgr g) (ro_new (le_newGuid le slot) li)
            in if ro_totalPlayersRolling r = 0 then ret ()
               else
                 let r = disenchant_mask t (r\<lparr>ro_loot := Some k, ro_itemSlot := slot\<rparr>) g;
                     r = (if it_Flags2 t AND ITEM_FLAGS_EXTRA_NEED_ROLL_DISABLED \<noteq> 0
                          then r\<lparr>ro_rollVoteMask := ro_rollVoteMask r AND NOT ROLL_FLAG_TYPE_NEED\<rparr> else r)
                 in bindE (block_item k slot) (\<lambda>_.
                    bindE (tell_starts le r) (\<lambda>_.
                    bindE (add_roll r) (\<lambda>_. loot_timer le)))))"

text \<open>
  For quest items the template is only used where the players are asked; the function that
  gets it is part of the environment.
\<close>

definition need_quest_item :: "l_env \<Rightarrow> uint32 \<Rightarrow> uint8 \<Rightarrow> loot_item \<Rightarrow> unit gop" where
  "need_quest_item le k slot li =
     (if \<not> li_follow_loot_rules li then ret ()
      else
        bindE (g_get id) (\<lambda>g.
        let r = roll_join le False li (gr_memberMgr g) (ro_new (le_newGuid le slot) li)
        in if ro_totalPlayersRolling r = 0 then ret ()
           else
             let r = r\<lparr>ro_loot := Some k, ro_itemSlot := slot\<rparr>
             in bindE (block_item k slot) (\<lambda>_.
                bindE (tell_starts le r) (\<lambda>_.
                bindE (add_roll r) (\<lambda>_. loot_timer le)))))"

definition gr_NeedBeforeGreed :: "l_env \<Rightarrow> uint32 \<Rightarrow> unit gop" where
  "gr_NeedBeforeGreed le k = g_with_loot k (loot_loop (need_item le k) (need_quest_item le k))"

section \<open>Master loot\<close>

definition master_block :: "loot \<Rightarrow> loot" where
  "master_block l = l\<lparr>
     lo_items := map (\<lambda>i. if li_freeforall i then i else i\<lparr>li_is_blocked := \<not> li_is_underthreshold i\<rparr>) (lo_items l),
     lo_quest_items := map (\<lambda>i. if \<not> li_follow_loot_rules i then i
                              else i\<lparr>li_is_blocked := \<not> li_is_underthreshold i\<rparr>) (lo_quest_items l)\<rparr>"

definition master_bytes :: "l_env \<Rightarrow> uint64 list \<Rightarrow> uint8 list" where
  "master_bytes le members =
     (let near = filter (\<lambda>guid. le_inWorld le guid \<and> le_near le guid) members
      in of_nat (length near) # concat (map (le_bytes 8) near))"

definition gr_MasterLoot :: "l_env \<Rightarrow> uint32 \<Rightarrow> unit gop" where
  "gr_MasterLoot le k =
     g_with_loot k (\<lambda>_.
     bindE (g_loot k master_block) (\<lambda>_.
     bindE (g_get gr_memberMgr) (\<lambda>members.
     forE (\<lambda>guid. g_when (le_near le guid) (g_send guid SMSG_LOOT_MASTER_LIST (master_bytes le members))) members)))"

end
