(* ===== verification/Group_Vote_Props.thy ===== *)
theory Group_Vote_Props
  imports Group_Ops Group_Loot
begin

text \<open>
  The numbers of votes a roll keeps are those of its votes as long as nobody votes twice, and
  then the roll is complete exactly when everybody has voted.
\<close>

definition votes_for :: "(roll_vote \<Rightarrow> bool) \<Rightarrow> roll \<Rightarrow> nat" where
  "votes_for P r = length (filter (\<lambda>e. P (snd e)) (ro_playerVote r))"

definition counted :: "roll \<Rightarrow> bool" where
  "counted r \<longleftrightarrow> unat (ro_totalPass r) = votes_for (\<lambda>v. v = PASS) r
     \<and> unat (ro_totalNeed r) = votes_for (\<lambda>v. v = NEED) r
     \<and> unat (ro_totalGreed r) = votes_for (\<lambda>v. v = GREED \<or> v = DISENCHANT) r
     \<and> unat (ro_totalPlayersRolling r) = length (ro_playerVote r)
     \<and> om_ok (ro_playerVote r) \<and> (\<forall>e \<in> set (ro_playerVote r). snd e \<noteq> NOT_VALID)"

text \<open>
  The life of a roll: it starts with the members who take part, gets its loot, its place and
  the kinds of votes that are allowed, then players vote who have not voted yet, and players leave.
\<close>

inductive roll_run :: "roll \<Rightarrow> bool" where
  start: "distinct members \<Longrightarrow> length members < 256 \<Longrightarrow> roll_run (roll_join le autoPass li members (ro_new guid li))"
| prepare: "roll_run r \<Longrightarrow> roll_run (r\<lparr>ro_loot := k, ro_itemSlot := slot, ro_rollVoteMask := allowed\<rparr>)"
| vote: "roll_run r \<Longrightarrow> om_find p (ro_playerVote r) = Some NOT_EMITED_YET \<Longrightarrow> choice < 4 \<Longrightarrow> roll_run (roll_choice p choice r)"
| leave: "roll_run r \<Longrightarrow> om_find p (ro_playerVote r) = Some v \<Longrightarrow> roll_run (withdraw_vote p v r)"

lemma om_length_set_new: "om_find k m = None \<Longrightarrow> length (om_set k v m) = Suc (length m)"
  using om_count_new [of m k "\<lambda>_. True" v] by simp

lemma om_length_set_old: "om_ok m \<Longrightarrow> om_find k m = Some u \<Longrightarrow> length (om_set k v m) = length m"
  using om_count_old [of m k u "\<lambda>_. True" v] by simp

lemma om_length_erase: "om_ok m \<Longrightarrow> om_find k m = Some u \<Longrightarrow> length m = Suc (length (om_erase k m))"
  using om_count_erase [of m k u "\<lambda>_. True"] by simp

lemma om_set_mem: "e \<in> set (om_set k v m) \<Longrightarrow> e = (k, v) \<or> e \<in> set m"
  by (induction k v m rule: om_set.induct) (auto split: if_splits)

lemma om_erase_mem: "e \<in> set (om_erase k m) \<Longrightarrow> e \<in> set m"
  by (simp add: om_erase_def)

lemma unat_suc: "unat (x :: uint8) < 255 \<Longrightarrow> unat (x + 1) = Suc (unat x)"
  by (simp add: unat_word_ariths)

lemma unat_pred: "0 < unat (x :: uint8) \<Longrightarrow> unat (x - 1) = unat x - 1"
  by (metis unat_1 unat_gt_0 unat_minus_one gr_implies_not0 neq0_conv unat_0)

lemma votes_for_le: "votes_for P r \<le> length (ro_playerVote r)"
  by (simp add: votes_for_def)

text \<open>The parts of the votes\<close>

lemma votes_parts:
  assumes "\<forall>e \<in> set (ro_playerVote r). snd e \<noteq> NOT_VALID"
  shows "length (ro_playerVote r) = votes_for (\<lambda>v. v = PASS) r + votes_for (\<lambda>v. v = NEED) r
     + votes_for (\<lambda>v. v = GREED \<or> v = DISENCHANT) r + votes_for (\<lambda>v. v = NOT_EMITED_YET) r"
proof -
  have "length vs = length (filter (\<lambda>e. snd e = PASS) vs) + length (filter (\<lambda>e. snd e = NEED) vs)
     + length (filter (\<lambda>e. snd e = GREED \<or> snd e = DISENCHANT) vs) + length (filter (\<lambda>e. snd e = NOT_EMITED_YET) vs)"
    if "\<forall>e \<in> set vs. snd e \<noteq> NOT_VALID" for vs :: "(uint64 \<times> roll_vote) list"
    using that
  proof (induction vs)
    case (Cons e vs)
    then show ?case by (cases "snd e") auto
  qed simp
  from this [OF assms] show ?thesis unfolding votes_for_def by simp
qed

lemma length_votes: "counted r \<Longrightarrow> length (ro_playerVote r) < 256"
proof -
  assume "counted r"
  moreover have "unat (ro_totalPlayersRolling r) < 2 ^ LENGTH(8)" by (rule unsigned_less)
  ultimately show ?thesis by (simp add: counted_def)
qed

lemma join_counted:
  assumes "distinct members" and "set members \<inter> om_keys (ro_playerVote r) = {}"
    and "length members + length (ro_playerVote r) < 256" and "counted r"
  shows "counted (roll_join le autoPass li members r)"
  using assms
proof (induction members arbitrary: r)
  case Nil
  then show ?case by (simp add: roll_join_def)
next
  case (Cons g ms)
  let ?one = "roll_join le autoPass li [g] r"
  have step: "roll_join le autoPass li (g # ms) r = roll_join le autoPass li ms ?one" by (simp add: roll_join_def)
  have new: "om_find g (ro_playerVote r) = None" using Cons.prems(2) by (auto simp: om_find_None)
  note counts = om_count_new [OF new] om_length_set_new [OF new]
  have small: "length (ro_playerVote r) < 255" using Cons.prems(3) by simp
  have pass: "votes_for P r < 255" for P using votes_for_le [of P r] small by simp
  have "counted ?one" using Cons.prems(4) small pass [of "\<lambda>v. v = PASS"]
    by (auto simp: roll_join_def counted_def Let_def votes_for_def counts unat_suc dest!: om_set_mem)
  moreover have "set ms \<inter> om_keys (ro_playerVote ?one) = {}" "length ms + length (ro_playerVote ?one) < 256"
    using Cons.prems(1,2,3) counts by (auto simp: roll_join_def Let_def)
  ultimately show ?case using Cons.IH Cons.prems(1) unfolding step by simp
qed

lemma new_counted: "counted (ro_new guid li)"
  by (simp add: counted_def ro_new_def votes_for_def)

lemma choice_cases: "choice < 4 \<Longrightarrow> choice = 0 \<or> choice = 1 \<or> choice = 2 \<or> choice = (3 :: uint8)"
proof -
  assume "choice < 4"
  then have "unat choice < 4" by (simp add: word_less_nat_alt)
  then have "unat choice = 0 \<or> unat choice = 1 \<or> unat choice = 2 \<or> unat choice = 3" by auto
  then show ?thesis by (auto simp: word_unat_eq_iff)
qed

lemma choice_counted:
  assumes c: "counted r" and u: "om_find p (ro_playerVote r) = Some NOT_EMITED_YET" and choice: "choice < 4"
  shows "counted (roll_choice p choice r)"
proof -
  have om: "om_ok (ro_playerVote r)" using c by (simp add: counted_def)
  have q: "votes_for (\<lambda>v. v = NOT_EMITED_YET) r > 0"
    using map_of_SomeD [OF u] by (force simp: votes_for_def filter_empty_conv)
  have "votes_for Q r < 255" if "Q = (\<lambda>v. v = PASS) \<or> Q = (\<lambda>v. v = NEED) \<or> Q = (\<lambda>v. v = GREED \<or> v = DISENCHANT)" for Q
    using that votes_parts [of r] c q length_votes [OF c] by (auto simp: counted_def)
  then have b: "votes_for (\<lambda>v. v = PASS) r < 255" "votes_for (\<lambda>v. v = NEED) r < 255"
      "votes_for (\<lambda>v. v = GREED \<or> v = DISENCHANT) r < 255" by blast+
  have cnt: "votes_for P (r\<lparr>ro_playerVote := om_set p v (ro_playerVote r)\<rparr>) + (if P NOT_EMITED_YET then 1 else 0)
        = votes_for P r + (if P v then 1 else 0)" for P v
    using om_count_old [OF om u, of "\<lambda>e. P (snd e)" v] by (simp add: votes_for_def)
  have vf: "votes_for P (r\<lparr>ro_totalPass := a, ro_playerVote := m\<rparr>) = votes_for P (r\<lparr>ro_playerVote := m\<rparr>)"
      "votes_for P (r\<lparr>ro_totalNeed := a, ro_playerVote := m\<rparr>) = votes_for P (r\<lparr>ro_playerVote := m\<rparr>)"
      "votes_for P (r\<lparr>ro_totalGreed := a, ro_playerVote := m\<rparr>) = votes_for P (r\<lparr>ro_playerVote := m\<rparr>)" for P a m
    by (simp_all add: votes_for_def)
  have cases: "roll_choice p choice r = r\<lparr>ro_totalPass := ro_totalPass r + 1, ro_playerVote := om_set p PASS (ro_playerVote r)\<rparr>
    \<or> roll_choice p choice r = r\<lparr>ro_totalNeed := ro_totalNeed r + 1, ro_playerVote := om_set p NEED (ro_playerVote r)\<rparr>
    \<or> roll_choice p choice r = r\<lparr>ro_totalGreed := ro_totalGreed r + 1, ro_playerVote := om_set p GREED (ro_playerVote r)\<rparr>
    \<or> roll_choice p choice r = r\<lparr>ro_totalGreed := ro_totalGreed r + 1, ro_playerVote := om_set p DISENCHANT (ro_playerVote r)\<rparr>"
    using choice_cases [OF choice]
    by (auto simp: roll_choice_def ROLL_PASS_def ROLL_NEED_def ROLL_GREED_def ROLL_DISENCHANT_def)
  show ?thesis
    using cases c b om om_length_set_old [OF om u]
      cnt [of "\<lambda>v. v = PASS"] cnt [of "\<lambda>v. v = NEED"] cnt [of "\<lambda>v. v = GREED \<or> v = DISENCHANT"]
    by (auto simp: counted_def vf unat_suc dest!: om_set_mem)
qed

lemma leave_counted:
  assumes c: "counted r" and u: "om_find p (ro_playerVote r) = Some v"
  shows "counted (withdraw_vote p v r)"
proof -
  have om: "om_ok (ro_playerVote r)" using c by (simp add: counted_def)
  have valid: "v \<noteq> NOT_VALID" using c map_of_SomeD [OF u] by (force simp: counted_def)
  have cnt: "votes_for P r = length (filter (\<lambda>e. P (snd e)) (om_erase p (ro_playerVote r))) + (if P v then 1 else 0)" for P
    using om_count_erase [OF om u, of "\<lambda>e. P (snd e)"] by (simp add: votes_for_def)
  show ?thesis
    using c om valid om_length_erase [OF om u]
      cnt [of "\<lambda>v. v = PASS"] cnt [of "\<lambda>v. v = NEED"] cnt [of "\<lambda>v. v = GREED \<or> v = DISENCHANT"]
    by (cases v) (auto simp: withdraw_vote_def counted_def Let_def votes_for_def unat_pred dest!: om_erase_mem)
qed

lemma run_counted: "roll_run r \<Longrightarrow> counted r"
proof (induction rule: roll_run.induct)
  case (start members le autoPass li guid)
  then show ?case by (intro join_counted new_counted) (simp_all add: ro_new_def)
next
  case (prepare r k slot allowed)
  then show ?case by (simp add: counted_def votes_for_def)
qed (simp_all add: choice_counted leave_counted)

text \<open>C22. As long as no player votes twice, the totals of a roll are the numbers of its votes, in eight
  bits without a wrap, through the start with the members who are near, the automatic passes, every vote and
  every departure; and the roll is complete exactly when nobody is undecided.\<close>
theorem honest_roll:
  assumes "roll_run r"
  shows "unat (ro_totalPass r) = length (filter (\<lambda>e. snd e = PASS) (ro_playerVote r))
    \<and> unat (ro_totalNeed r) = length (filter (\<lambda>e. snd e = NEED) (ro_playerVote r))
    \<and> unat (ro_totalGreed r) = length (filter (\<lambda>e. snd e = GREED \<or> snd e = DISENCHANT) (ro_playerVote r))
    \<and> unat (ro_totalPlayersRolling r) = length (ro_playerVote r)
    \<and> (roll_complete r \<longleftrightarrow> (\<forall>e \<in> set (ro_playerVote r). snd e \<noteq> NOT_EMITED_YET))"
proof -
  have c: "counted r" by (rule run_counted [OF assms])
  have parts: "length (ro_playerVote r) = votes_for (\<lambda>v. v = PASS) r + votes_for (\<lambda>v. v = NEED) r
     + votes_for (\<lambda>v. v = GREED \<or> v = DISENCHANT) r + votes_for (\<lambda>v. v = NOT_EMITED_YET) r"
    by (rule votes_parts) (use c in \<open>simp add: counted_def\<close>)
  have none: "votes_for (\<lambda>v. v = NOT_EMITED_YET) r = 0 \<longleftrightarrow> (\<forall>e \<in> set (ro_playerVote r). snd e \<noteq> NOT_EMITED_YET)"
    by (simp add: votes_for_def filter_empty_conv)
  have "roll_complete r \<longleftrightarrow> votes_for (\<lambda>v. v = NOT_EMITED_YET) r = 0"
    using c parts by (auto simp: roll_complete_def counted_def)
  then show ?thesis using c none by (simp add: counted_def votes_for_def)
qed

text \<open>Members 4 and 5 are near, 4 passes on everything; then 5 says need.\<close>

definition near_env :: l_env where
  "near_env = \<lparr>le_template = (\<lambda>_. None), le_allowed = (\<lambda>_ _. True), le_near = (\<lambda>_. True), le_passOnLoot = (\<lambda>g. g = 4),
     le_canNeed = (\<lambda>_ _. True), le_inWorld = (\<lambda>_. True), le_newGuid = (\<lambda>i. 90), le_hasTimer = True, le_mapId = 0\<rparr>"

definition sword :: loot_item where
  "sword = \<lparr>li_itemid = 33, li_randomSuffix = 0, li_randomPropertyId = 0, li_count = 1, li_is_looted = False, li_is_blocked = False,
     li_freeforall = False, li_is_underthreshold = False, li_follow_loot_rules = True\<rparr>"

theorem honest_roll_witness:
  "roll_complete (roll_choice 5 ROLL_NEED (roll_join near_env True sword [4, 5] (ro_new 90 sword)))"
proof -
  let ?r = "roll_join near_env True sword [4, 5] (ro_new 90 sword)"
  have votes: "ro_playerVote ?r = [(4, PASS), (5, NOT_EMITED_YET)]"
    by (simp add: roll_join_def near_env_def ro_new_def sword_def Let_def)
  have "roll_run ?r" by (rule roll_run.start) simp_all
  then have "roll_run (roll_choice 5 ROLL_NEED ?r)" by (rule roll_run.vote) (simp_all add: votes ROLL_NEED_def)
  from honest_roll [OF this] show ?thesis
    by (simp add: roll_choice_def ROLL_NEED_def ROLL_PASS_def votes)
qed

end
