(* ===== verification/LFG_Roles.thy ===== *)
theory LFG_Roles
  imports Std_Containers
begin

text \<open>
  The roles of the dungeon finder (src/Core/src/server/game/DungeonFinding/LFG.h) and the check
  whether a group can be formed with the roles its members have chosen,
  \<^verbatim>\<open>LFGMgr::CheckGroupRoles\<close> (LFGMgr.cpp): a search that takes roles away from members, calls
  itself on the same map and puts them back. Shown: it ends, it leaves the map as it was when it
  fails, and it succeeds exactly when every member can have one of his roles.
\<close>

definition PLAYER_ROLE_NONE :: uint8 where "PLAYER_ROLE_NONE = 0x00"
definition PLAYER_ROLE_LEADER :: uint8 where "PLAYER_ROLE_LEADER = 0x01"
definition PLAYER_ROLE_TANK :: uint8 where "PLAYER_ROLE_TANK = 0x02"
definition PLAYER_ROLE_HEALER :: uint8 where "PLAYER_ROLE_HEALER = 0x04"
definition PLAYER_ROLE_DAMAGE :: uint8 where "PLAYER_ROLE_DAMAGE = 0x08"

definition LFG_TANKS_NEEDED :: uint8 where "LFG_TANKS_NEEDED = 1"
definition LFG_HEALERS_NEEDED :: uint8 where "LFG_HEALERS_NEEDED = 1"
definition LFG_DPS_NEEDED :: uint8 where "LFG_DPS_NEEDED = 3"

type_synonym lfg_roles = "(uint64, uint8) omap"

section \<open>The check\<close>

text \<open>
  The three blocks of the loop body are its phases: the role a block looks at, how many of it a group
  needs, and where the loop goes from there. The counters \<^verbatim>\<open>damage\<close>, \<^verbatim>\<open>healer\<close> and
  \<^verbatim>\<open>tank\<close> are indexed by the phase.
\<close>

datatype role_phase = AtDamage | AtHealer | AtTank

fun phase_role :: "role_phase \<Rightarrow> uint8" where
  "phase_role AtDamage = PLAYER_ROLE_DAMAGE"
| "phase_role AtHealer = PLAYER_ROLE_HEALER"
| "phase_role AtTank = PLAYER_ROLE_TANK"

fun phase_needed :: "role_phase \<Rightarrow> uint8" where
  "phase_needed AtDamage = LFG_DPS_NEEDED"
| "phase_needed AtHealer = LFG_HEALERS_NEEDED"
| "phase_needed AtTank = LFG_TANKS_NEEDED"

fun next_phase :: "nat \<Rightarrow> role_phase \<Rightarrow> nat \<times> role_phase" where
  "next_phase i AtDamage = (i, AtHealer)"
| "next_phase i AtHealer = (i, AtTank)"
| "next_phase i AtTank = (Suc i, AtDamage)"

definition set_role :: "nat \<Rightarrow> uint8 \<Rightarrow> lfg_roles \<Rightarrow> lfg_roles" where
  "set_role i r gs = gs[i := (fst (gs ! i), r)]"

text \<open>
  The loop at the member \<open>i\<close>. The map is passed on as the code mutates it: a role is
  subtracted before the inner call and added again to what that call left.
\<close>

function roles_loop :: "lfg_roles \<Rightarrow> nat \<Rightarrow> role_phase \<Rightarrow> (role_phase \<Rightarrow> uint8) \<Rightarrow> bool \<times> lfg_roles" where
  "roles_loop gs i ph cnt =
     (if i \<ge> length gs
      then (unat (cnt AtTank) + unat (cnt AtHealer) + unat (cnt AtDamage) = unat (of_nat (length gs) :: uint8), gs)
      else
        let r = snd (gs ! i); bit = phase_role ph; next = next_phase i ph
        in if ph = AtDamage \<and> r = PLAYER_ROLE_NONE then (False, gs)
           else if r AND bit = 0 then roles_loop gs (fst next) (snd next) cnt
           else if r \<noteq> bit
           then
             let inner = roles_loop (set_role i (r - bit) gs) 0 AtDamage (\<lambda>_. 0)
             in if fst inner then inner
                else roles_loop (set_role i (snd (snd inner ! i) + bit) (snd inner)) (fst next) (snd next) cnt
           else if cnt ph = phase_needed ph then (False, gs)
           else roles_loop gs (fst next) (snd next) (cnt(ph := cnt ph + 1)))"
  by pat_completeness auto

definition roles_weight :: "lfg_roles \<Rightarrow> nat" where
  "roles_weight gs = sum_list (map (unat \<circ> snd) gs)"

lemma length_set_role [simp]: "length (set_role i r gs) = length gs"
  by (simp add: set_role_def)

lemma set_role_back: "i < length gs \<Longrightarrow> set_role i (snd (gs ! i)) (set_role i r gs) = gs"
  by (simp add: set_role_def)

lemma nth_set_role [simp]: "i < length gs \<Longrightarrow> snd (set_role i r gs ! i) = r"
  by (simp add: set_role_def)

text \<open>When the loop fails, the map is what it was.\<close>

lemma roles_loop_restores:
  "roles_loop_dom (gs, i, ph, cnt) \<Longrightarrow> \<not> fst (roles_loop gs i ph cnt) \<Longrightarrow> snd (roles_loop gs i ph cnt) = gs"
proof (induction rule: roles_loop.pinduct)
  case (1 gs i ph cnt)
  show ?case
    using 1(2-6)
    by (subst roles_loop.psimps [OF 1(1)], use 1(6) in \<open>subst (asm) roles_loop.psimps [OF 1(1)]\<close>)
       (auto simp: Let_def set_role_back simp del: fun_upd_apply split: if_splits)
qed

lemma weight_set_role:
  assumes "i < length gs" and "r < snd (gs ! i)"
  shows "roles_weight (set_role i r gs) < roles_weight gs"
proof -
  have "gs = take i gs @ gs ! i # drop (Suc i) gs" using assms(1) by (rule id_take_nth_drop)
  then have "roles_weight gs = roles_weight (take i gs) + unat (snd (gs ! i)) + roles_weight (drop (Suc i) gs)"
    unfolding roles_weight_def by (metis (no_types, lifting) add.assoc comp_apply list.simps(9) map_append sum_list.append sum_list.Cons)
  moreover have "roles_weight (set_role i r gs) = roles_weight (take i gs) + unat r + roles_weight (drop (Suc i) gs)"
    using assms(1) by (simp add: roles_weight_def set_role_def upd_conv_take_nth_drop)
  ultimately show ?thesis using assms(2) by (simp add: word_less_nat_alt)
qed

text \<open>Each role is one bit.\<close>

fun role_bit :: "role_phase \<Rightarrow> nat" where
  "role_bit AtDamage = 3"
| "role_bit AtHealer = 2"
| "role_bit AtTank = 1"

lemma phase_role_exp: "phase_role ph = 2 ^ role_bit ph"
  by (cases ph) (simp_all add: PLAYER_ROLE_DAMAGE_def PLAYER_ROLE_HEALER_def PLAYER_ROLE_TANK_def)

lemma has_role_bit: "r AND phase_role ph \<noteq> 0 \<longleftrightarrow> bit r (role_bit ph)"
  by (simp add: phase_role_exp and_exp_eq_0_iff_not_bit)

lemma has_role_and: "r AND phase_role ph \<noteq> 0 \<Longrightarrow> r AND phase_role ph = phase_role ph"
  by (drule has_role_bit [THEN iffD1], rule bit_eqI) (auto simp: phase_role_exp bit_and_iff bit_exp_iff)

lemma phase_role_pos: "phase_role ph > 0"
  by (cases ph) (simp_all add: PLAYER_ROLE_DAMAGE_def PLAYER_ROLE_HEALER_def PLAYER_ROLE_TANK_def)

lemma role_sub_less:
  assumes "r AND phase_role ph \<noteq> 0"
  shows "r - phase_role ph < r"
proof -
  have "phase_role ph \<le> r" using has_role_and [OF assms] word_and_le2 [of r "phase_role ph"] by simp
  moreover have "unat (phase_role ph) > 0" using phase_role_pos [of ph] by (simp add: word_less_nat_alt)
  ultimately show ?thesis
    using unat_sub [of "phase_role ph" r] by (simp add: word_less_nat_alt word_le_nat_alt)
qed

fun phase_rank :: "role_phase \<Rightarrow> nat" where
  "phase_rank AtDamage = 2"
| "phase_rank AtHealer = 1"
| "phase_rank AtTank = 0"

lemma next_phase_measure:
  "i < length gs \<Longrightarrow> length gs - fst (next_phase i ph) < length gs - i
     \<or> length gs - fst (next_phase i ph) = length gs - i \<and> phase_rank (snd (next_phase i ph)) < phase_rank ph"
  by (cases ph) auto

termination roles_loop
proof (relation "measures [\<lambda>(gs, i, ph, cnt). roles_weight gs, \<lambda>(gs, i, ph, cnt). length gs - i, \<lambda>(gs, i, ph, cnt). phase_rank ph]",
    goal_cases)
  case 1
  show ?case by simp
next
  case (2 gs i ph cnt r bit nxt)
  then show ?case using next_phase_measure [of i gs ph] by auto
next
  case (3 gs i ph cnt r bit nxt)
  then show ?case using weight_set_role [of i gs "r - bit"] role_sub_less [of r ph] by auto
next
  case (4 gs i ph cnt r bit nxt inner)
  then have "snd inner = set_role i (r - bit) gs" by (simp add: roles_loop_restores)
  then have "set_role i (snd (snd inner ! i) + bit) (snd inner) = gs"
    using 4 by (simp add: set_role_back)
  then show ?case using next_phase_measure [of i gs ph] 4 by auto
next
  case (5 gs i ph cnt r bit nxt)
  then show ?case using next_phase_measure [of i gs ph] by auto
qed

declare roles_loop.simps [simp del]


text \<open>\<^verbatim>\<open>LFGMgr::CheckGroupRoles\<close>\<close>

definition CheckGroupRoles :: "bool \<Rightarrow> lfg_roles \<Rightarrow> bool \<times> lfg_roles" where
  "CheckGroupRoles removeLeaderFlag gs =
     (if gs = [] then (False, gs)
      else roles_loop
        (if removeLeaderFlag then map (\<lambda>(g, r). (g, r AND NOT PLAYER_ROLE_LEADER)) gs else gs)
        0 AtDamage (\<lambda>_. 0))"

section \<open>What the check decides\<close>

text \<open>
  A member may fill one of the roles he offers, if he offers nothing but roles; a group is filled
  when every member has a role and no role has more members than the group needs.
\<close>

definition may_fill :: "uint8 \<Rightarrow> uint8 \<Rightarrow> bool" where
  "may_fill r q \<longleftrightarrow> r AND NOT 0x0E = 0 \<and> q \<in> {PLAYER_ROLE_TANK, PLAYER_ROLE_HEALER, PLAYER_ROLE_DAMAGE} \<and> r AND q = q"

definition how_many :: "uint8 \<Rightarrow> lfg_roles \<Rightarrow> nat" where
  "how_many q gs = length (filter (\<lambda>e. snd e = q) gs)"

definition fills :: "lfg_roles \<Rightarrow> lfg_roles \<Rightarrow> bool" where
  "fills gs gs' \<longleftrightarrow>
     list_all2 (\<lambda>e e'. fst e' = fst e \<and> may_fill (snd e) (snd e')) gs gs' \<and>
     how_many PLAYER_ROLE_TANK gs' \<le> 1 \<and> how_many PLAYER_ROLE_HEALER gs' \<le> 1 \<and> how_many PLAYER_ROLE_DAMAGE gs' \<le> 3"

lemma role_cases: "q \<in> {PLAYER_ROLE_TANK, PLAYER_ROLE_HEALER, PLAYER_ROLE_DAMAGE} \<longleftrightarrow> (\<exists>ph. q = phase_role ph)"
proof
  assume "q \<in> {PLAYER_ROLE_TANK, PLAYER_ROLE_HEALER, PLAYER_ROLE_DAMAGE}"
  then have "q = phase_role AtTank \<or> q = phase_role AtHealer \<or> q = phase_role AtDamage" by simp
  then show "\<exists>ph. q = phase_role ph" by blast
next
  assume "\<exists>ph. q = phase_role ph"
  then obtain ph where "q = phase_role ph" ..
  then show "q \<in> {PLAYER_ROLE_TANK, PLAYER_ROLE_HEALER, PLAYER_ROLE_DAMAGE}" by (cases ph) simp_all
qed

lemma phase_needed_simps [simp]:
  "unat (phase_needed AtTank) = 1" "unat (phase_needed AtHealer) = 1" "unat (phase_needed AtDamage) = 3"
  by (simp_all add: LFG_TANKS_NEEDED_def LFG_HEALERS_NEEDED_def LFG_DPS_NEEDED_def)

lemma all_phases: "(\<forall>ph. P ph) \<longleftrightarrow> P AtTank \<and> P AtHealer \<and> P AtDamage"
  by (metis role_phase.exhaust)

lemma fills_phases:
  "fills gs gs' \<longleftrightarrow>
     list_all2 (\<lambda>e e'. fst e' = fst e \<and> may_fill (snd e) (snd e')) gs gs' \<and>
     (\<forall>ph. how_many (phase_role ph) gs' \<le> unat (phase_needed ph))"
  unfolding fills_def all_phases phase_needed_simps by simp

lemma role_bit_inj [simp]: "role_bit ph = role_bit ph' \<longleftrightarrow> ph = ph'"
  by (cases ph; cases ph') simp_all

lemma role_bit_small [simp]: "role_bit ph < 8" "role_bit ph \<le> 7"
  by (cases ph; simp)+

lemma bit_phase_role: "bit (phase_role ph) n \<longleftrightarrow> n = role_bit ph"
  by (auto simp: phase_role_exp bit_exp_iff)

lemma phase_role_inj [simp]: "phase_role ph = phase_role ph' \<longleftrightarrow> ph = ph'"
  by (metis bit_phase_role role_bit_inj)

lemma sub_role_bit:
  assumes "bit r (role_bit ph)"
  shows "bit (r - phase_role ph) n \<longleftrightarrow> bit r n \<and> n \<noteq> role_bit ph"
proof -
  have "r - phase_role ph = r AND NOT (phase_role ph)"
    by (rule disjunctive_diff) (simp add: bit_phase_role assms)
  then show ?thesis using bit_imp_le_length [of r n] by (auto simp: bit_and_iff bit_not_iff bit_phase_role)
qed

lemma bit_0E: "bit (0x0E :: uint8) n \<longleftrightarrow> n = 1 \<or> n = 2 \<or> n = 3"
proof -
  have "(0x0E :: uint8) = 2 OR 4 OR 8" by simp
  also have "\<dots> = 2 ^ 1 OR 2 ^ 2 OR 2 ^ 3" by simp
  finally show ?thesis by (auto simp only: bit_or_iff bit_exp_iff) auto
qed

lemma known_bits: "r AND NOT 0x0E = (0 :: uint8) \<longleftrightarrow> (\<forall>n. bit r n \<longrightarrow> (\<exists>ph. n = role_bit ph))"
proof -
  have "(\<exists>ph. n = role_bit ph) \<longleftrightarrow> bit (0x0E :: uint8) n" for n
    unfolding bit_0E by (metis role_bit.simps role_bit.cases)
  moreover have "r AND NOT 0x0E = (0 :: uint8) \<longleftrightarrow> (\<forall>n. bit r n \<longrightarrow> bit (0x0E :: uint8) n)"
  proof
    assume z: "r AND NOT 0x0E = (0 :: uint8)"
    have "bit (0x0E :: uint8) n" if "bit r n" for n
    proof (rule ccontr)
      assume "\<not> bit (0x0E :: uint8) n"
      then have "bit (r AND NOT (0x0E :: uint8)) n"
        using that bit_imp_le_length [OF that] by (simp only: bit_and_iff bit_not_iff) simp
      then show False unfolding z by simp
    qed
    then show "\<forall>n. bit r n \<longrightarrow> bit (0x0E :: uint8) n" by blast
  next
    assume "\<forall>n. bit r n \<longrightarrow> bit (0x0E :: uint8) n"
    then show "r AND NOT 0x0E = (0 :: uint8)"
      by (intro bit_eqI) (simp only: bit_and_iff bit_not_iff bit_0_eq, auto)
  qed
  ultimately show ?thesis by simp
qed

lemma may_fill_bits:
  "may_fill r q \<longleftrightarrow> (\<forall>n. bit r n \<longrightarrow> (\<exists>ph. n = role_bit ph)) \<and> (\<exists>ph. q = phase_role ph \<and> bit r (role_bit ph))"
  unfolding may_fill_def role_cases known_bits using has_role_and has_role_bit phase_role_pos
  by (metis and.commute less_irrefl)


lemma may_fill_self: "may_fill (phase_role ph) (phase_role ph)"
  unfolding may_fill_bits bit_phase_role by blast

lemma may_fill_sub:
  assumes "bit r (role_bit ph)" and "may_fill (r - phase_role ph) q"
  shows "may_fill r q"
  using assms unfolding may_fill_bits sub_role_bit [OF assms(1)] by metis

lemma may_fill_drop:
  assumes "may_fill r q" and "r \<noteq> q"
  obtains ph where "bit r (role_bit ph)" "may_fill (r - phase_role ph) q"
proof -
  obtain qh where q: "q = phase_role qh" "bit r (role_bit qh)" using assms(1) unfolding may_fill_bits by blast
  from assms(2) obtain n where n: "bit r n \<noteq> bit q n" by (auto simp: bit_eq_iff)
  have "bit r n \<and> n \<noteq> role_bit qh" using n q by (auto simp: bit_phase_role)
  then obtain ph where ph: "n = role_bit ph" "ph \<noteq> qh" using assms(1) unfolding may_fill_bits by blast
  have r: "bit r (role_bit ph)" using n q ph by (auto simp: bit_phase_role)
  have "may_fill (r - phase_role ph) q"
    using assms(1) q ph unfolding may_fill_bits sub_role_bit [OF r] by auto
  with r show ?thesis by (rule that)
qed

lemma set_role_fills:
  assumes "i < length gs" and "bit (snd (gs ! i)) (role_bit ph)"
    and "fills (set_role i (snd (gs ! i) - phase_role ph) gs) gs'"
  shows "fills gs gs'"
  using assms may_fill_sub [OF assms(2)] unfolding fills_def list_all2_conv_all_nth set_role_def
  by (auto simp: nth_list_update split: if_splits)

lemma fills_set_role:
  assumes "i < length gs" and "fills gs gs'" and "\<forall>ph. snd (gs ! i) \<noteq> phase_role ph"
  obtains ph where "bit (snd (gs ! i)) (role_bit ph)" "fills (set_role i (snd (gs ! i) - phase_role ph) gs) gs'"
proof -
  have m: "may_fill (snd (gs ! i)) (snd (gs' ! i))" using assms(1,2) by (simp add: fills_def list_all2_conv_all_nth)
  moreover have "snd (gs ! i) \<noteq> snd (gs' ! i)" using m assms(3) unfolding may_fill_bits by metis
  ultimately obtain ph where ph: "bit (snd (gs ! i)) (role_bit ph)" "may_fill (snd (gs ! i) - phase_role ph) (snd (gs' ! i))"
    by (rule may_fill_drop)
  have "fills (set_role i (snd (gs ! i) - phase_role ph) gs) gs'"
    using assms(1,2) ph(2) unfolding fills_def list_all2_conv_all_nth set_role_def
    by (auto simp: nth_list_update)
  with ph(1) show ?thesis by (rule that)
qed

text \<open>
  What the counters of the loop say: how many of the members before \<open>i\<close>, and of the blocks of
  the member \<open>i\<close> already passed, have this role and no other.
\<close>

definition roles_seen :: "lfg_roles \<Rightarrow> nat \<Rightarrow> role_phase \<Rightarrow> role_phase \<Rightarrow> nat" where
  "roles_seen gs i ph q =
     how_many (phase_role q) (take i gs)
     + (if phase_rank ph < phase_rank q \<and> i < length gs \<and> snd (gs ! i) = phase_role q then 1 else 0)"

definition loop_inv :: "lfg_roles \<Rightarrow> nat \<Rightarrow> role_phase \<Rightarrow> (role_phase \<Rightarrow> uint8) \<Rightarrow> bool" where
  "loop_inv gs i ph cnt \<longleftrightarrow>
     i \<le> length gs \<and> (i = length gs \<longrightarrow> ph = AtDamage) \<and>
     (\<forall>q. unat (cnt q) = roles_seen gs i ph q \<and> roles_seen gs i ph q \<le> unat (phase_needed q))"

lemma roles_seen_next:
  "i < length gs \<Longrightarrow> roles_seen gs (fst (next_phase i ph)) (snd (next_phase i ph)) q =
     roles_seen gs i ph q + (if q = ph \<and> snd (gs ! i) = phase_role ph then 1 else 0)"
  by (cases ph; cases q) (auto simp: roles_seen_def how_many_def take_Suc_conv_app_nth)

lemma loop_inv_start: "loop_inv gs 0 AtDamage (\<lambda>_. 0)"
proof -
  have "phase_rank q \<le> 2" for q by (cases q) simp_all
  then show ?thesis by (auto simp: loop_inv_def roles_seen_def how_many_def not_less [symmetric])
qed

lemma next_phase_bounds:
  "i < length gs \<Longrightarrow> fst (next_phase i ph) \<le> length gs \<and> (fst (next_phase i ph) = length gs \<longrightarrow> snd (next_phase i ph) = AtDamage)"
  by (cases ph) auto

lemma loop_inv_skip:
  "loop_inv gs i ph cnt \<Longrightarrow> i < length gs \<Longrightarrow> snd (gs ! i) \<noteq> phase_role ph \<Longrightarrow>
   loop_inv gs (fst (next_phase i ph)) (snd (next_phase i ph)) cnt"
  using next_phase_bounds [of i gs ph] by (simp add: loop_inv_def roles_seen_next)

lemma loop_inv_count:
  assumes "loop_inv gs i ph cnt" and "i < length gs" and "snd (gs ! i) = phase_role ph" and "cnt ph \<noteq> phase_needed ph"
  shows "loop_inv gs (fst (next_phase i ph)) (snd (next_phase i ph)) (cnt(ph := cnt ph + 1))"
proof -
  have "unat (cnt ph) \<le> unat (phase_needed ph)" using assms(1) unfolding loop_inv_def by metis
  moreover have "unat (cnt ph) \<noteq> unat (phase_needed ph)" using assms(4) by (metis word_eq_iff_unsigned)
  ultimately have lt: "unat (cnt ph) < unat (phase_needed ph)" by simp
  then have "unat (cnt ph) + 1 < 2 ^ 8" using unsigned_less [of "phase_needed ph", where 'a = nat] by simp
  then have "unat (cnt ph + 1) = unat (cnt ph) + 1" by (simp add: unat_word_ariths)
  then show ?thesis
    using assms lt next_phase_bounds [of i gs ph] by (simp add: loop_inv_def roles_seen_next)
qed

lemma loop_inv_end:
  "loop_inv gs (length gs) ph cnt \<Longrightarrow> unat (cnt q) = how_many (phase_role q) gs \<and> how_many (phase_role q) gs \<le> unat (phase_needed q)"
  by (simp add: loop_inv_def roles_seen_def)

lemma how_many_sum:
  "how_many (phase_role AtTank) gs + how_many (phase_role AtHealer) gs + how_many (phase_role AtDamage) gs
     = length (filter (\<lambda>e. \<exists>ph. snd e = phase_role ph) gs)"
proof (induction gs)
  case (Cons e gs)
  have "(\<exists>ph. snd e = phase_role ph) \<longleftrightarrow> snd e = phase_role AtTank \<or> snd e = phase_role AtHealer \<or> snd e = phase_role AtDamage"
    by (metis role_phase.exhaust)
  moreover have "phase_role AtTank \<noteq> phase_role AtHealer" "phase_role AtTank \<noteq> phase_role AtDamage" "phase_role AtHealer \<noteq> phase_role AtDamage"
    unfolding phase_role_inj by simp_all
  ultimately show ?case using Cons by (auto simp: how_many_def simp del: phase_role.simps phase_role_inj)
qed (simp add: how_many_def)


lemma roles_induct:
  assumes step: "\<And>gs i ph cnt.
      (\<And>cnt'. i < length gs \<Longrightarrow> P gs (fst (next_phase i ph)) (snd (next_phase i ph)) cnt') \<Longrightarrow>
      (i < length gs \<Longrightarrow> bit (snd (gs ! i)) (role_bit ph) \<Longrightarrow>
         P (set_role i (snd (gs ! i) - phase_role ph) gs) 0 AtDamage (\<lambda>_. 0)) \<Longrightarrow> P gs i ph cnt"
  shows "P gs i ph cnt"
proof (induction "(gs, i, ph)" arbitrary: gs i ph cnt
    rule: wf_induct_rule [OF wf_measures [of "[\<lambda>(gs, i, ph). roles_weight gs, \<lambda>(gs, i, ph). length gs - i, \<lambda>(gs, i, ph). phase_rank ph]"]])
  case (1 gs i ph cnt)
  show ?case
  proof (rule step)
    fix cnt'
    assume "i < length gs"
    then show "P gs (fst (next_phase i ph)) (snd (next_phase i ph)) cnt'"
      using next_phase_measure [of i gs ph] by (intro 1) (auto simp: case_prod_beta)
  next
    assume "i < length gs" "bit (snd (gs ! i)) (role_bit ph)"
    then show "P (set_role i (snd (gs ! i) - phase_role ph) gs) 0 AtDamage (\<lambda>_. 0)"
      using weight_set_role role_sub_less [of "snd (gs ! i)" ph] has_role_bit by (intro 1) auto
  qed
qed

text \<open>One step of the loop, with a failing inner call undone.\<close>

lemma roles_loop_restored: "\<not> fst (roles_loop gs i ph cnt) \<Longrightarrow> snd (roles_loop gs i ph cnt) = gs"
  
proof (induction gs i ph cnt rule: roles_induct)
  case (1 gs i ph cnt)
  show ?case
  proof (cases "i < length gs")
    case True
    then show ?thesis
      using 1(3) 1(1) [OF True] 1(2) [OF True] has_role_bit [of "snd (gs ! i)" ph]
      by (subst roles_loop.simps, subst (asm) (3) roles_loop.simps)
         (auto simp: Let_def set_role_back simp del: fun_upd_apply split: if_splits)
  qed (simp add: roles_loop.simps)
qed

lemma roles_loop_step:
  assumes "i < length gs"
  shows "roles_loop gs i ph cnt =
     (if ph = AtDamage \<and> snd (gs ! i) = PLAYER_ROLE_NONE then (False, gs)
      else if \<not> bit (snd (gs ! i)) (role_bit ph) then roles_loop gs (fst (next_phase i ph)) (snd (next_phase i ph)) cnt
      else if snd (gs ! i) \<noteq> phase_role ph
      then
        (let inner = roles_loop (set_role i (snd (gs ! i) - phase_role ph) gs) 0 AtDamage (\<lambda>_. 0)
         in if fst inner then inner else roles_loop gs (fst (next_phase i ph)) (snd (next_phase i ph)) cnt)
      else if cnt ph = phase_needed ph then (False, gs)
      else roles_loop gs (fst (next_phase i ph)) (snd (next_phase i ph)) (cnt(ph := cnt ph + 1)))"
proof -
  obtain inner where inner: "roles_loop (set_role i (snd (gs ! i) - phase_role ph) gs) 0 AtDamage (\<lambda>_. 0) = inner"
    by simp
  have "\<not> fst inner \<Longrightarrow> snd inner = set_role i (snd (gs ! i) - phase_role ph) gs"
    using roles_loop_restored inner by blast
  then have undone: "\<not> fst inner \<Longrightarrow> set_role i (snd (snd inner ! i) + phase_role ph) (snd inner) = gs"
    using assms by (simp add: set_role_back)
  have b: "(snd (gs ! i) AND phase_role ph = 0) = (\<not> bit (snd (gs ! i)) (role_bit ph))"
    using has_role_bit by blast
  have n: "(length gs \<le> i) = False" using assms by simp
  show ?thesis
    by (subst roles_loop.simps) (simp only: Let_def inner b n undone if_False if_True not_not cong: if_cong)
qed

lemma roles_loop_end:
  "roles_loop gs (length gs) ph cnt = (unat (cnt AtTank) + unat (cnt AtHealer) + unat (cnt AtDamage) = unat (of_nat (length gs) :: uint8), gs)"
  by (subst roles_loop.simps) simp

lemma roles_loop_sound:
  "loop_inv gs i ph cnt \<Longrightarrow> length gs < 256 \<Longrightarrow> fst (roles_loop gs i ph cnt) \<Longrightarrow> fills gs (snd (roles_loop gs i ph cnt))"
proof (induction gs i ph cnt rule: roles_induct)
  case (1 gs i ph cnt)
  show ?case
  proof (cases "i < length gs")
    case False
    then have i: "i = length gs" using 1(3) by (simp add: loop_inv_def)
    have c: "unat (cnt q) = how_many (phase_role q) gs" "how_many (phase_role q) gs \<le> unat (phase_needed q)" for q
      using loop_inv_end 1(3) i by blast+
    have "length (filter (\<lambda>e. \<exists>ph. snd e = phase_role ph) gs) = length gs"
      using 1(4,5) how_many_sum [of gs] unfolding i roles_loop_end c fst_conv by (simp add: unat_of_nat)
    then have "\<exists>ph. snd e = phase_role ph" if "e \<in> set gs" for e
      using that length_filter_less [of e gs "\<lambda>e. \<exists>ph. snd e = phase_role ph"] by auto
    then have "list_all2 (\<lambda>e e'. fst e' = fst e \<and> may_fill (snd e) (snd e')) gs gs"
      using may_fill_self by (fastforce intro: list.rel_refl_strong)
    then show ?thesis unfolding i roles_loop_end snd_conv fills_phases using c by simp
  next
    case True
    note st = roles_loop_step [OF True, of ph cnt]
    let ?gs = "set_role i (snd (gs ! i) - phase_role ph) gs"
    have go: "fst (roles_loop gs (fst (next_phase i ph)) (snd (next_phase i ph)) c) \<Longrightarrow>
        fills gs (snd (roles_loop gs (fst (next_phase i ph)) (snd (next_phase i ph)) c))"
      if "loop_inv gs (fst (next_phase i ph)) (snd (next_phase i ph)) c" for c
      by (rule 1(1) [OF True that 1(4)])
    have some: "\<not> (ph = AtDamage \<and> snd (gs ! i) = PLAYER_ROLE_NONE)" using 1(5) unfolding st by (auto split: if_splits)
    consider (skip) "\<not> bit (snd (gs ! i)) (role_bit ph)"
      | (several) "bit (snd (gs ! i)) (role_bit ph)" "snd (gs ! i) \<noteq> phase_role ph"
      | (single) "snd (gs ! i) = phase_role ph"
      by blast
    then show ?thesis
    proof cases
      case skip
      then have "snd (gs ! i) \<noteq> phase_role ph" by (auto simp: bit_phase_role)
      moreover have "roles_loop gs i ph cnt = roles_loop gs (fst (next_phase i ph)) (snd (next_phase i ph)) cnt"
        by (simp only: st some skip if_False not_False_eq_True if_True)
      ultimately show ?thesis using go loop_inv_skip [OF 1(3) True] 1(5) by simp
    next
      case several
      have "fills ?gs (snd (roles_loop ?gs 0 AtDamage (\<lambda>_. 0)))" if "fst (roles_loop ?gs 0 AtDamage (\<lambda>_. 0))"
        using 1(2) [OF True several(1) loop_inv_start _ that] 1(4) by simp
      then show ?thesis
        using go loop_inv_skip [OF 1(3) True several(2)] several some 1(5) set_role_fills [OF True several(1)]
        unfolding st Let_def by auto
    next
      case single
      then have b: "bit (snd (gs ! i)) (role_bit ph)" by (simp add: bit_phase_role)
      have room: "cnt ph \<noteq> phase_needed ph"
        using single b some 1(5) unfolding st by (simp split: if_splits)
      have "roles_loop gs i ph cnt = roles_loop gs (fst (next_phase i ph)) (snd (next_phase i ph)) (cnt(ph := cnt ph + 1))"
        using some single b room unfolding st by auto
      then show ?thesis using go loop_inv_count [OF 1(3) True single room] 1(5) by simp
    qed
  qed
qed

text \<open>
  While the loop runs, a group that can be filled stays one: every member already passed offers one
  role, and a member with several offers one, not yet tried, that he need not take.
\<close>

definition still_open :: "lfg_roles \<Rightarrow> lfg_roles \<Rightarrow> nat \<Rightarrow> role_phase \<Rightarrow> bool" where
  "still_open gs gs' i ph \<longleftrightarrow>
     (\<forall>j<i. \<exists>q. snd (gs ! j) = phase_role q) \<and>
     (i < length gs \<and> (\<forall>q. snd (gs ! i) \<noteq> phase_role q) \<longrightarrow>
       (\<exists>q. phase_rank q \<le> phase_rank ph \<and> bit (snd (gs ! i)) (role_bit q) \<and>
            fills (set_role i (snd (gs ! i) - phase_role q) gs) gs'))"

lemma phase_rank_le [simp]: "phase_rank q \<le> 2"
  by (cases q) simp_all

lemma still_open_start:
  assumes "fills gs gs'" and "\<forall>j<i. \<exists>q. snd (gs ! j) = phase_role q"
  shows "still_open gs gs' i AtDamage"
  unfolding still_open_def using assms fills_set_role [OF _ assms(1)] by simp metis

lemma still_open_next:
  assumes "fills gs gs'" and "i < length gs" and "still_open gs gs' i ph"
    and "(\<forall>q. snd (gs ! i) \<noteq> phase_role q) \<Longrightarrow> bit (snd (gs ! i)) (role_bit ph) \<Longrightarrow>
           \<not> fills (set_role i (snd (gs ! i) - phase_role ph) gs) gs'"
  shows "still_open gs gs' (fst (next_phase i ph)) (snd (next_phase i ph))"
proof (cases "ph = AtTank")
  case True
  have "q = AtTank" if "phase_rank q \<le> phase_rank ph" for q using that True by (cases q) simp_all
  then have "\<exists>q. snd (gs ! i) = phase_role q"
    using assms(2-4) True unfolding still_open_def by metis
  then have "\<forall>j<Suc i. \<exists>q. snd (gs ! j) = phase_role q"
    using assms(3) unfolding still_open_def by (auto simp: less_Suc_eq)
  from still_open_start [OF assms(1) this] show ?thesis using True by simp
next
  case False
  have "phase_rank q \<le> phase_rank (snd (next_phase i ph))" if "phase_rank q \<le> phase_rank ph" "q \<noteq> ph" for q
    using that False by (cases q; cases ph) simp_all
  moreover have "fst (next_phase i ph) = i" using False by (cases ph) simp_all
  ultimately show ?thesis using assms(2-4) unfolding still_open_def by metis
qed

lemma fills_same:
  assumes "fills gs gs'" and "j < length gs" and "snd (gs ! j) = phase_role q"
  shows "gs' ! j = gs ! j"
proof -
  have m: "fst (gs' ! j) = fst (gs ! j)" "may_fill (phase_role q) (snd (gs' ! j))"
    using assms by (auto simp: fills_def list_all2_conv_all_nth)
  then have "snd (gs' ! j) = phase_role q" unfolding may_fill_bits bit_phase_role by auto
  with m assms(3) show ?thesis by (simp add: prod_eq_iff)
qed

lemma fills_room:
  assumes "fills gs gs'" and "i < length gs" and "snd (gs ! i) = phase_role ph"
    and "\<forall>j<i. \<exists>q. snd (gs ! j) = phase_role q" and "loop_inv gs i ph cnt"
  shows "cnt ph \<noteq> phase_needed ph"
proof
  assume full: "cnt ph = phase_needed ph"
  have len: "length gs' = length gs" using assms(1) by (auto simp: fills_def dest: list_all2_lengthD)
  have "take (Suc i) gs' = take (Suc i) gs"
  proof (rule nth_take_lemma)
    fix j
    have "j < Suc i \<Longrightarrow> \<exists>q. snd (gs ! j) = phase_role q" using assms(3,4) less_Suc_eq by blast
    then show "j < Suc i \<longrightarrow> gs' ! j = gs ! j" using fills_same [OF assms(1)] assms(2) by auto
  qed (use assms(2) len in simp_all)
  then have "gs' = take (Suc i) gs @ drop (Suc i) gs'" by (metis append_take_drop_id)
  then have "how_many (phase_role ph) (take (Suc i) gs) \<le> how_many (phase_role ph) gs'"
    by (metis how_many_def filter_append length_append le_add1)
  also have "\<dots> \<le> unat (phase_needed ph)" using assms(1) unfolding fills_phases by blast
  finally have "how_many (phase_role ph) (take i gs) < unat (phase_needed ph)"
    using assms(2,3) by (simp add: how_many_def take_Suc_conv_app_nth)
  moreover have "unat (cnt ph) = how_many (phase_role ph) (take i gs)"
    using assms(5) by (simp add: loop_inv_def roles_seen_def)
  ultimately show False using full by simp
qed

lemma roles_loop_complete:
  "fills gs gs' \<Longrightarrow> loop_inv gs i ph cnt \<Longrightarrow> length gs < 256 \<Longrightarrow> still_open gs gs' i ph \<Longrightarrow> fst (roles_loop gs i ph cnt)"
proof (induction gs i ph cnt rule: roles_induct)
  case (1 gs i ph cnt)
  show ?case
  proof (cases "i < length gs")
    case False
    then have i: "i = length gs" using 1(4) by (simp add: loop_inv_def)
    have c: "unat (cnt q) = how_many (phase_role q) gs" for q
      using loop_inv_end 1(4) i by blast
    have "\<exists>q. snd e = phase_role q" if "e \<in> set gs" for e
      using that 1(6) i unfolding still_open_def by (metis in_set_conv_nth)
    then have "filter (\<lambda>e. \<exists>ph. snd e = phase_role ph) gs = gs" by (simp add: filter_id_conv)
    then show ?thesis using how_many_sum [of gs] 1(5) unfolding i roles_loop_end c fst_conv by (simp add: unat_of_nat)
  next
    case True
    note st = roles_loop_step [OF True, of ph cnt]
    have go: "fst (roles_loop gs (fst (next_phase i ph)) (snd (next_phase i ph)) c)"
      if "loop_inv gs (fst (next_phase i ph)) (snd (next_phase i ph)) c"
        "(\<forall>q. snd (gs ! i) \<noteq> phase_role q) \<Longrightarrow> bit (snd (gs ! i)) (role_bit ph) \<Longrightarrow>
           \<not> fills (set_role i (snd (gs ! i) - phase_role ph) gs) gs'" for c
      by (rule 1(1) [OF True 1(3) that(1) 1(5) still_open_next [OF 1(3) True 1(6) that(2)]])
    have "may_fill (snd (gs ! i)) (snd (gs' ! i))" using 1(3) True by (simp add: fills_def list_all2_conv_all_nth)
    then have some: "snd (gs ! i) \<noteq> PLAYER_ROLE_NONE" by (auto simp: may_fill_bits PLAYER_ROLE_NONE_def)
    consider (skip) "\<not> bit (snd (gs ! i)) (role_bit ph)"
      | (several) "bit (snd (gs ! i)) (role_bit ph)" "snd (gs ! i) \<noteq> phase_role ph"
      | (single) "snd (gs ! i) = phase_role ph"
      by blast
    then show ?thesis
    proof cases
      case skip
      then have "snd (gs ! i) \<noteq> phase_role ph" by (auto simp: bit_phase_role)
      then show ?thesis using go loop_inv_skip [OF 1(4) True] skip some unfolding st by simp
    next
      case several
      let ?gs = "set_role i (snd (gs ! i) - phase_role ph) gs"
      have "fst (roles_loop ?gs 0 AtDamage (\<lambda>_. 0))" if "fills ?gs gs'"
        using 1(2) [OF True several(1) that loop_inv_start] 1(5) still_open_start [OF that] by simp
      then show ?thesis using go loop_inv_skip [OF 1(4) True several(2)] several some unfolding st Let_def by auto
    next
      case single
      have "cnt ph \<noteq> phase_needed ph"
        using fills_room [OF 1(3) True single] 1(4,6) unfolding still_open_def by blast
      then show ?thesis
        using go loop_inv_count [OF 1(4) True single] single some unfolding st by (auto simp: bit_phase_role)
    qed
  qed
qed

definition without_leader :: "lfg_roles \<Rightarrow> lfg_roles" where
  "without_leader gs = map (\<lambda>(g, r). (g, r AND NOT PLAYER_ROLE_LEADER)) gs"

lemma CheckGroupRoles_iff:
  assumes "length gs < 256" and "gs \<noteq> []"
  shows "fst (CheckGroupRoles True gs) \<longleftrightarrow> (\<exists>gs'. fills (without_leader gs) gs')"
proof -
  have "CheckGroupRoles True gs = roles_loop (without_leader gs) 0 AtDamage (\<lambda>_. 0)"
    using assms(2) by (simp add: CheckGroupRoles_def without_leader_def)
  moreover have "length (without_leader gs) < 256" using assms(1) by (simp add: without_leader_def)
  ultimately show ?thesis
    using roles_loop_sound [OF loop_inv_start] roles_loop_complete [OF _ loop_inv_start] still_open_start by fastforce
qed

lemma CheckGroupRoles_roles:
  assumes "length gs < 256" and "fst (CheckGroupRoles True gs)"
  shows "fills (without_leader gs) (snd (CheckGroupRoles True gs))"
proof -
  have "gs \<noteq> []" using assms(2) by (auto simp: CheckGroupRoles_def)
  then have "CheckGroupRoles True gs = roles_loop (without_leader gs) 0 AtDamage (\<lambda>_. 0)"
    by (simp add: CheckGroupRoles_def without_leader_def)
  moreover have "length (without_leader gs) < 256" using assms(1) by (simp add: without_leader_def)
  ultimately show ?thesis using roles_loop_sound [OF loop_inv_start] assms(2) by simp
qed

lemma CheckGroupRoles_failed:
  "\<not> fst (CheckGroupRoles True gs) \<Longrightarrow> snd (CheckGroupRoles True gs) = without_leader gs"
  using roles_loop_restored [of "without_leader gs"]
  by (simp add: CheckGroupRoles_def without_leader_def split: if_splits)

lemma fills_no_leader:
  assumes "fills gs gs'" and "e \<in> set gs'"
  shows "snd e AND PLAYER_ROLE_LEADER = 0"
proof -
  obtain r where "may_fill r (snd e)"
    using assms by (auto simp: fills_def list_all2_conv_all_nth in_set_conv_nth)
  then show ?thesis
    by (auto simp: may_fill_def PLAYER_ROLE_TANK_def PLAYER_ROLE_HEALER_def PLAYER_ROLE_DAMAGE_def PLAYER_ROLE_LEADER_def)
qed

lemma without_leader_no_leader: "e \<in> set (without_leader gs) \<Longrightarrow> snd e AND PLAYER_ROLE_LEADER = 0"
  by (auto simp: without_leader_def and.assoc bit.conj_cancel_left)

lemma keys_set_role: "i < length gs \<Longrightarrow> map fst (set_role i r gs) = map fst gs"
  by (simp add: set_role_def map_update) (metis list_update_id length_map nth_map)

text \<open>No leader flag is left by the check, whatever its answer; the members stay.\<close>

lemma CheckGroupRoles_no_leader:
  assumes "length gs < 256" and "e \<in> set (snd (CheckGroupRoles True gs))"
  shows "snd e AND PLAYER_ROLE_LEADER = 0"
  using assms CheckGroupRoles_failed CheckGroupRoles_roles fills_no_leader without_leader_no_leader by metis

lemma CheckGroupRoles_keys:
  assumes "length gs < 256"
  shows "map fst (snd (CheckGroupRoles True gs)) = map fst gs"
proof (cases "fst (CheckGroupRoles True gs)")
  case True
  then have "list_all2 (\<lambda>e e'. fst e' = fst e) (without_leader gs) (snd (CheckGroupRoles True gs))"
    using CheckGroupRoles_roles [OF assms] unfolding fills_def by (auto elim: list_all2_mono)
  then have "map fst (without_leader gs) = map fst (snd (CheckGroupRoles True gs))"
    by (auto simp: list_all2_conv_all_nth intro: nth_equalityI)
  then show ?thesis by (simp add: without_leader_def case_prod_beta comp_def)
next
  case False
  then show ?thesis by (simp add: CheckGroupRoles_failed without_leader_def case_prod_beta comp_def)
qed

text \<open>
  C27. The role check of a group of fewer than 256 members succeeds exactly when, the leader flags
  set aside, every member can be given one of the roles he offers with at most one tank, one healer
  and three damage dealers (and every member offers nothing but roles); the roles it leaves in the
  map are then such an assignment, and when it fails the map is what it was without the leader flags.
\<close>

theorem group_roles_check:
  assumes "length gs < 256"
  shows "(fst (CheckGroupRoles True gs) \<longleftrightarrow> gs \<noteq> [] \<and> (\<exists>gs'. fills (without_leader gs) gs')) \<and>
    (if fst (CheckGroupRoles True gs) then fills (without_leader gs) (snd (CheckGroupRoles True gs))
     else snd (CheckGroupRoles True gs) = without_leader gs)"
proof (cases "gs = []")
  case True
  then show ?thesis by (simp add: CheckGroupRoles_def without_leader_def)
next
  case False
  then show ?thesis
    using CheckGroupRoles_iff [OF assms] CheckGroupRoles_roles [OF assms] CheckGroupRoles_failed by simp
qed

theorem group_roles_check_witness:
  "fst (CheckGroupRoles True [(1, 0x0F), (2, 0x0A), (3, 0x02), (4, 0x08), (5, 0x08)]) \<longleftrightarrow>
     (\<exists>gs'. fills (without_leader [(1, 0x0F), (2, 0x0A), (3, 0x02), (4, 0x08), (5, 0x08)]) gs')"
  using group_roles_check [of "[(1, 0x0F), (2, 0x0A), (3, 0x02), (4, 0x08), (5, 0x08)]"] by simp

end
