(* ===== verification/LFG_Data.thy ===== *)
theory LFG_Data
  imports LFG_Roles Util_Strings
begin

text \<open>
  What the dungeon finder stores of a player and of a group
  (src/Core/src/server/game/DungeonFinding/LFGPlayerData.cpp, LFGGroupData.cpp), and the access
  functions of \<^verbatim>\<open>LFGMgr\<close> to them. The code reads both maps with \<^verbatim>\<open>operator[]\<close>,
  which makes a missing entry; so a map is a total function here, with the value of the default
  constructor where nothing has been stored.
\<close>

section \<open>Players and groups\<close>

datatype lfg_state =
    LFG_STATE_NONE | LFG_STATE_ROLECHECK | LFG_STATE_QUEUED | LFG_STATE_PROPOSAL | LFG_STATE_BOOT
  | LFG_STATE_DUNGEON | LFG_STATE_FINISHED_DUNGEON | LFG_STATE_RAIDBROWSER

definition LFG_GROUP_MAX_KICKS :: uint8 where "LFG_GROUP_MAX_KICKS = 3"

record lfg_player_data =
  pd_State :: lfg_state
  pd_OldState :: lfg_state
  pd_Team :: uint8
  pd_Group :: uint64
  pd_Roles :: uint8
  pd_Comment :: bytes
  pd_SelectedDungeons :: "uint32 list"

record lfg_group_data =
  gd_State :: lfg_state
  gd_OldState :: lfg_state
  gd_Leader :: uint64
  gd_Players :: "uint64 list"
  gd_Dungeon :: uint32
  gd_KicksLeft :: uint8

definition pd_new :: lfg_player_data where
  "pd_new = \<lparr>pd_State = LFG_STATE_NONE, pd_OldState = LFG_STATE_NONE, pd_Team = 0, pd_Group = 0, pd_Roles = 0,
     pd_Comment = [], pd_SelectedDungeons = []\<rparr>"

definition gd_new :: lfg_group_data where
  "gd_new = \<lparr>gd_State = LFG_STATE_NONE, gd_OldState = LFG_STATE_NONE, gd_Leader = 0, gd_Players = [], gd_Dungeon = 0,
     gd_KicksLeft = LFG_GROUP_MAX_KICKS\<rparr>"

text \<open>The cases of \<^verbatim>\<open>SetState\<close> fall through.\<close>

definition pd_SetState :: "lfg_state \<Rightarrow> lfg_player_data \<Rightarrow> lfg_player_data" where
  "pd_SetState st p =
     (let p1 = (if st = LFG_STATE_NONE \<or> st = LFG_STATE_FINISHED_DUNGEON
                then p\<lparr>pd_Roles := 0, pd_SelectedDungeons := [], pd_Comment := []\<rparr> else p);
          p2 = (if st = LFG_STATE_NONE \<or> st = LFG_STATE_FINISHED_DUNGEON \<or> st = LFG_STATE_DUNGEON
                then p1\<lparr>pd_OldState := st\<rparr> else p1)
      in p2\<lparr>pd_State := st\<rparr>)"

definition pd_RestoreState :: "lfg_player_data \<Rightarrow> lfg_player_data" where
  "pd_RestoreState p =
     (let p1 = (if pd_OldState p = LFG_STATE_NONE then p\<lparr>pd_SelectedDungeons := [], pd_Roles := 0\<rparr> else p)
      in p1\<lparr>pd_State := pd_OldState p\<rparr>)"

definition gd_SetState :: "lfg_state \<Rightarrow> lfg_group_data \<Rightarrow> lfg_group_data" where
  "gd_SetState st g =
     (let g1 = (if st = LFG_STATE_NONE then g\<lparr>gd_Dungeon := 0, gd_KicksLeft := LFG_GROUP_MAX_KICKS\<rparr> else g);
          g2 = (if st = LFG_STATE_NONE \<or> st = LFG_STATE_FINISHED_DUNGEON \<or> st = LFG_STATE_DUNGEON
                then g1\<lparr>gd_OldState := st\<rparr> else g1)
      in g2\<lparr>gd_State := st\<rparr>)"

definition gd_RestoreState :: "lfg_group_data \<Rightarrow> lfg_group_data" where
  "gd_RestoreState g = g\<lparr>gd_State := gd_OldState g\<rparr>"

definition gd_IsLfgGroup :: "lfg_group_data \<Rightarrow> bool" where
  "gd_IsLfgGroup g \<longleftrightarrow> gd_OldState g \<noteq> LFG_STATE_NONE"

definition gd_AddPlayer :: "uint64 \<Rightarrow> lfg_group_data \<Rightarrow> lfg_group_data" where
  "gd_AddPlayer guid g = g\<lparr>gd_Players := ss_insert guid (gd_Players g)\<rparr>"

definition gd_RemovePlayer :: "uint64 \<Rightarrow> lfg_group_data \<Rightarrow> uint8 \<times> lfg_group_data" where
  "gd_RemovePlayer guid g =
     (let ps = ss_erase guid (gd_Players g) in (of_nat (length ps), g\<lparr>gd_Players := ps\<rparr>))"

definition gd_RemoveAllPlayers :: "lfg_group_data \<Rightarrow> lfg_group_data" where
  "gd_RemoveAllPlayers g = g\<lparr>gd_Players := []\<rparr>"

definition gd_DecreaseKicksLeft :: "lfg_group_data \<Rightarrow> lfg_group_data" where
  "gd_DecreaseKicksLeft g = (if gd_KicksLeft g \<noteq> 0 then g\<lparr>gd_KicksLeft := gd_KicksLeft g - 1\<rparr> else g)"

definition gd_GetPlayerCount :: "lfg_group_data \<Rightarrow> uint8" where
  "gd_GetPlayerCount g = of_nat (length (gd_Players g))"

definition gd_GetDungeon :: "bool \<Rightarrow> lfg_group_data \<Rightarrow> uint32" where
  "gd_GetDungeon asId g = (if asId then gd_Dungeon g AND 0x00FFFFFF else gd_Dungeon g)"

section \<open>The stores\<close>

text \<open>\<^verbatim>\<open>ObjectGuid::IsGroup\<close>: the high part of the GUID\<close>

definition guid_IsGroup :: "uint64 \<Rightarrow> bool" where
  "guid_IsGroup g \<longleftrightarrow> drop_bit 48 g AND 0xFFFF = 0x1F50"

record lfg_stores =
  PlayersStore :: "uint64 \<Rightarrow> lfg_player_data"
  GroupsStore :: "uint64 \<Rightarrow> lfg_group_data"

definition lfg_GetState :: "uint64 \<Rightarrow> ('a) lfg_stores_scheme \<Rightarrow> lfg_state" where
  "lfg_GetState guid s = (if guid_IsGroup guid then gd_State (GroupsStore s guid) else pd_State (PlayersStore s guid))"

definition lfg_GetOldState :: "uint64 \<Rightarrow> ('a) lfg_stores_scheme \<Rightarrow> lfg_state" where
  "lfg_GetOldState guid s = (if guid_IsGroup guid then gd_OldState (GroupsStore s guid) else pd_OldState (PlayersStore s guid))"

definition upd_player :: "uint64 \<Rightarrow> (lfg_player_data \<Rightarrow> lfg_player_data) \<Rightarrow> ('a) lfg_stores_scheme \<Rightarrow> ('a) lfg_stores_scheme" where
  "upd_player guid f s = s\<lparr>PlayersStore := (PlayersStore s)(guid := f (PlayersStore s guid))\<rparr>"

definition upd_group :: "uint64 \<Rightarrow> (lfg_group_data \<Rightarrow> lfg_group_data) \<Rightarrow> ('a) lfg_stores_scheme \<Rightarrow> ('a) lfg_stores_scheme" where
  "upd_group guid f s = s\<lparr>GroupsStore := (GroupsStore s)(guid := f (GroupsStore s guid))\<rparr>"

definition lfg_SetState :: "uint64 \<Rightarrow> lfg_state \<Rightarrow> ('a) lfg_stores_scheme \<Rightarrow> ('a) lfg_stores_scheme" where
  "lfg_SetState guid st s =
     (if guid_IsGroup guid then upd_group guid (gd_SetState st) s else upd_player guid (pd_SetState st) s)"

definition lfg_RestoreState :: "uint64 \<Rightarrow> ('a) lfg_stores_scheme \<Rightarrow> ('a) lfg_stores_scheme" where
  "lfg_RestoreState guid s =
     (if guid_IsGroup guid then upd_group guid gd_RestoreState s else upd_player guid pd_RestoreState s)"

definition lfg_IsLfgGroup :: "uint64 \<Rightarrow> ('a) lfg_stores_scheme \<Rightarrow> bool" where
  "lfg_IsLfgGroup guid s \<longleftrightarrow> guid \<noteq> 0 \<and> guid_IsGroup guid \<and> gd_IsLfgGroup (GroupsStore s guid)"

definition lfg_AllQueued :: "uint64 list \<Rightarrow> ('a) lfg_stores_scheme \<Rightarrow> bool" where
  "lfg_AllQueued check s \<longleftrightarrow> check \<noteq> [] \<and> (\<forall>g \<in> set check. lfg_GetState g s = LFG_STATE_QUEUED)"

text \<open>
  A state to return to is one of three; and only a player who has a place to return to keeps his
  roles and dungeons when he returns.
\<close>

definition resting :: "lfg_state \<Rightarrow> bool" where
  "resting st \<longleftrightarrow> st \<in> {LFG_STATE_NONE, LFG_STATE_DUNGEON, LFG_STATE_FINISHED_DUNGEON}"

definition stores_ok :: "('a) lfg_stores_scheme \<Rightarrow> bool" where
  "stores_ok s \<longleftrightarrow> (\<forall>g. resting (pd_OldState (PlayersStore s g)) \<and> resting (gd_OldState (GroupsStore s g))
     \<and> unat (gd_KicksLeft (GroupsStore s g)) \<le> 3)"

lemma stores_ok_SetState: "stores_ok s \<Longrightarrow> stores_ok (lfg_SetState guid st s)"
  by (auto simp: stores_ok_def lfg_SetState_def upd_player_def upd_group_def pd_SetState_def gd_SetState_def resting_def
      LFG_GROUP_MAX_KICKS_def Let_def)

lemma stores_ok_RestoreState: "stores_ok s \<Longrightarrow> stores_ok (lfg_RestoreState guid s)"
  by (auto simp: stores_ok_def lfg_RestoreState_def upd_player_def upd_group_def pd_RestoreState_def gd_RestoreState_def resting_def Let_def)

lemma GetState_SetState:
  "lfg_GetState g (lfg_SetState g' st s) = (if g = g' then st else lfg_GetState g s)"
  by (auto simp: lfg_GetState_def lfg_SetState_def upd_player_def upd_group_def pd_SetState_def gd_SetState_def Let_def)

lemma GetState_RestoreState:
  "lfg_GetState g (lfg_RestoreState g' s) = (if g = g' then lfg_GetOldState g s else lfg_GetState g s)"
  by (auto simp: lfg_GetState_def lfg_GetOldState_def lfg_RestoreState_def upd_player_def upd_group_def
      pd_RestoreState_def gd_RestoreState_def Let_def)

end
