(* ===== verification/LFG_Queue.thy ===== *)
theory LFG_Queue
  imports LFG_Data "HOL-Library.List_Lexorder"
begin

text \<open>
  The queue of the dungeon finder (src/Core/src/server/game/DungeonFinding/LFGQueue.cpp): the
  players and groups that wait, the table of the combinations already checked, and the search that
  makes proposals. The search asks \<^verbatim>\<open>LFGMgr\<close> for the states of players and groups, which it
  does not change, and hands it the proposals; so it runs on the queue, the proposals and the
  number of random draws made, with the stores of the manager as an argument.
\<close>

section \<open>Keys\<close>

text \<open>The GUIDs of a combination in increasing order, in decimal, with \<^verbatim>\<open>'|'\<close> between them\<close>

definition GUID_SEPARATOR :: uint8 where "GUID_SEPARATOR = 124"

fun join_guids :: "uint64 list \<Rightarrow> bytes" where
  "join_guids [] = []"
| "join_guids [g] = decimal (unat g)"
| "join_guids (g # gs) = decimal (unat g) @ GUID_SEPARATOR # join_guids gs"

definition ConcatenateGuids :: "uint64 list \<Rightarrow> bytes" where
  "ConcatenateGuids check = join_guids (fold ss_insert check [])"

text \<open>\<^verbatim>\<open>std::string::find\<close>, as far as whether it finds\<close>

fun str_contains :: "bytes \<Rightarrow> bytes \<Rightarrow> bool" where
  "str_contains pat [] \<longleftrightarrow> pat = []"
| "str_contains pat (c # cs) \<longleftrightarrow> take (length pat) (c # cs) = pat \<or> str_contains pat cs"

section \<open>State\<close>

datatype lfg_compat =
    LFG_COMPATIBILITY_PENDING
  | LFG_INCOMPATIBLES_WRONG_GROUP_SIZE
  | LFG_INCOMPATIBLES_TOO_MUCH_PLAYERS
  | LFG_INCOMPATIBLES_MULTIPLE_LFG_GROUPS
  | LFG_INCOMPATIBLES_HAS_IGNORES
  | LFG_INCOMPATIBLES_NO_ROLES
  | LFG_INCOMPATIBLES_NO_DUNGEONS
  | LFG_COMPATIBLES_WITH_LESS_PLAYERS
  | LFG_COMPATIBLES_BAD_STATES
  | LFG_COMPATIBLES_MATCH

text \<open>The order of the enumeration counts: what is below \<^verbatim>\<open>WITH_LESS_PLAYERS\<close> is not compatible.\<close>

fun compat_code :: "lfg_compat \<Rightarrow> nat" where
  "compat_code LFG_COMPATIBILITY_PENDING = 0"
| "compat_code LFG_INCOMPATIBLES_WRONG_GROUP_SIZE = 1"
| "compat_code LFG_INCOMPATIBLES_TOO_MUCH_PLAYERS = 2"
| "compat_code LFG_INCOMPATIBLES_MULTIPLE_LFG_GROUPS = 3"
| "compat_code LFG_INCOMPATIBLES_HAS_IGNORES = 4"
| "compat_code LFG_INCOMPATIBLES_NO_ROLES = 5"
| "compat_code LFG_INCOMPATIBLES_NO_DUNGEONS = 6"
| "compat_code LFG_COMPATIBLES_WITH_LESS_PLAYERS = 7"
| "compat_code LFG_COMPATIBLES_BAD_STATES = 8"
| "compat_code LFG_COMPATIBLES_MATCH = 9"

lemma compat_code_inj: "compat_code a = compat_code b \<longleftrightarrow> a = b"
  by (cases a; cases b) simp_all

instantiation lfg_compat :: linorder
begin

definition less_eq_lfg_compat :: "lfg_compat \<Rightarrow> lfg_compat \<Rightarrow> bool" where
  "a \<le> b \<longleftrightarrow> compat_code a \<le> compat_code b"

definition less_lfg_compat :: "lfg_compat \<Rightarrow> lfg_compat \<Rightarrow> bool" where
  "a < b \<longleftrightarrow> compat_code a < compat_code b"

instance
  by standard (auto simp: less_eq_lfg_compat_def less_lfg_compat_def compat_code_inj)

end

record lfg_queue_data =
  qd_joinTime :: int
  qd_tanks :: uint8
  qd_healers :: uint8
  qd_dps :: uint8
  qd_dungeons :: "uint32 list"
  qd_roles :: lfg_roles
  qd_bestCompatible :: bytes

record lfg_compat_data =
  cd_compatibility :: lfg_compat
  cd_roles :: lfg_roles

record lfg_wait_time =
  wt_time :: int32
  wt_number :: uint32

record lfg_queue =
  QueueDataStore :: "(uint64, lfg_queue_data) omap"
  CompatibleMapStore :: "(bytes, lfg_compat_data) omap"
  waitTimesAvgStore :: "uint32 \<Rightarrow> lfg_wait_time"
  waitTimesTankStore :: "uint32 \<Rightarrow> lfg_wait_time"
  waitTimesHealerStore :: "uint32 \<Rightarrow> lfg_wait_time"
  waitTimesDpsStore :: "uint32 \<Rightarrow> lfg_wait_time"
  currentQueueStore :: "uint64 list"
  newToQueueStore :: "uint64 list"

definition qd_make :: "int \<Rightarrow> uint32 list \<Rightarrow> lfg_roles \<Rightarrow> lfg_queue_data" where
  "qd_make joinTime dungeons roles = \<lparr>qd_joinTime = joinTime, qd_tanks = LFG_TANKS_NEEDED, qd_healers = LFG_HEALERS_NEEDED,
     qd_dps = LFG_DPS_NEEDED, qd_dungeons = dungeons, qd_roles = roles, qd_bestCompatible = []\<rparr>"

definition wt_new :: lfg_wait_time where
  "wt_new = \<lparr>wt_time = - 1, wt_number = 0\<rparr>"

definition queue_new :: lfg_queue where
  "queue_new = \<lparr>QueueDataStore = [], CompatibleMapStore = [], waitTimesAvgStore = (\<lambda>_. wt_new),
     waitTimesTankStore = (\<lambda>_. wt_new), waitTimesHealerStore = (\<lambda>_. wt_new), waitTimesDpsStore = (\<lambda>_. wt_new),
     currentQueueStore = [], newToQueueStore = []\<rparr>"

section \<open>Adding and removing\<close>

definition AddToNewQueue :: "uint64 \<Rightarrow> lfg_queue \<Rightarrow> lfg_queue" where
  "AddToNewQueue guid q = q\<lparr>newToQueueStore := newToQueueStore q @ [guid]\<rparr>"

definition RemoveFromNewQueue :: "uint64 \<Rightarrow> lfg_queue \<Rightarrow> lfg_queue" where
  "RemoveFromNewQueue guid q = q\<lparr>newToQueueStore := filter (\<lambda>g. g \<noteq> guid) (newToQueueStore q)\<rparr>"

definition AddToCurrentQueue :: "uint64 \<Rightarrow> lfg_queue \<Rightarrow> lfg_queue" where
  "AddToCurrentQueue guid q = q\<lparr>currentQueueStore := currentQueueStore q @ [guid]\<rparr>"

definition RemoveFromCurrentQueue :: "uint64 \<Rightarrow> lfg_queue \<Rightarrow> lfg_queue" where
  "RemoveFromCurrentQueue guid q = q\<lparr>currentQueueStore := filter (\<lambda>g. g \<noteq> guid) (currentQueueStore q)\<rparr>"

definition AddToQueue :: "uint64 \<Rightarrow> lfg_queue \<Rightarrow> lfg_queue" where
  "AddToQueue guid q = (case om_find guid (QueueDataStore q) of None \<Rightarrow> q | Some _ \<Rightarrow> AddToNewQueue guid q)"

definition AddQueueData :: "uint64 \<Rightarrow> int \<Rightarrow> uint32 list \<Rightarrow> lfg_roles \<Rightarrow> lfg_queue \<Rightarrow> lfg_queue" where
  "AddQueueData guid joinTime dungeons rolesMap q =
     AddToQueue guid (q\<lparr>QueueDataStore := om_set guid (qd_make joinTime dungeons rolesMap) (QueueDataStore q)\<rparr>)"

definition RemoveQueueData :: "uint64 \<Rightarrow> lfg_queue \<Rightarrow> lfg_queue" where
  "RemoveQueueData guid q = q\<lparr>QueueDataStore := om_erase guid (QueueDataStore q)\<rparr>"

definition RemoveFromCompatibles :: "uint64 \<Rightarrow> lfg_queue \<Rightarrow> lfg_queue" where
  "RemoveFromCompatibles guid q =
     q\<lparr>CompatibleMapStore := filter (\<lambda>e. \<not> str_contains (decimal (unat guid)) (fst e)) (CompatibleMapStore q)\<rparr>"

text \<open>
  The best combination of a waiting entry is the one with the most members; the numbers of tanks,
  healers and damage dealers it still needs are counted down from it.
\<close>

definition count_separators :: "bytes \<Rightarrow> uint8" where
  "count_separators key = of_nat (length (filter (\<lambda>c. c = GUID_SEPARATOR) key)) + 1"

definition count_role :: "uint8 \<Rightarrow> lfg_queue_data \<Rightarrow> lfg_queue_data" where
  "count_role role d =
     (if role AND PLAYER_ROLE_TANK \<noteq> 0 then d\<lparr>qd_tanks := qd_tanks d - 1\<rparr>
      else if role AND PLAYER_ROLE_HEALER \<noteq> 0 then d\<lparr>qd_healers := qd_healers d - 1\<rparr>
      else d\<lparr>qd_dps := qd_dps d - 1\<rparr>)"

definition UpdateBestCompatible :: "bytes \<Rightarrow> lfg_roles \<Rightarrow> lfg_queue_data \<Rightarrow> lfg_queue_data" where
  "UpdateBestCompatible key roles d =
     (let storedSize = (if qd_bestCompatible d = [] then 0 else count_separators (qd_bestCompatible d))
      in if count_separators key \<le> storedSize then d
         else fold (\<lambda>(_, role). count_role role) roles
           (d\<lparr>qd_bestCompatible := key, qd_tanks := LFG_TANKS_NEEDED, qd_healers := LFG_HEALERS_NEEDED, qd_dps := LFG_DPS_NEEDED\<rparr>))"

definition FindBestCompatible :: "(bytes, lfg_compat_data) omap \<Rightarrow> uint64 \<Rightarrow> lfg_queue_data \<Rightarrow> lfg_queue_data" where
  "FindBestCompatible cm guid d =
     fold (\<lambda>(key, c) d. if cd_compatibility c = LFG_COMPATIBLES_WITH_LESS_PLAYERS \<and> str_contains (decimal (unat guid)) key
                        then UpdateBestCompatible key (cd_roles c) d else d) cm d"

definition RemoveFromQueue :: "uint64 \<Rightarrow> lfg_queue \<Rightarrow> lfg_queue" where
  "RemoveFromQueue guid q =
     (let q1 = RemoveFromCompatibles guid (RemoveFromCurrentQueue guid (RemoveFromNewQueue guid q));
          store = map (\<lambda>(g, d).
            if g \<noteq> guid \<and> str_contains (decimal (unat guid)) (qd_bestCompatible d)
            then (g, FindBestCompatible (CompatibleMapStore q1) g (d\<lparr>qd_bestCompatible := []\<rparr>))
            else (g, d)) (QueueDataStore q1)
      in q1\<lparr>QueueDataStore := om_erase guid store\<rparr>)"

definition queue_GetJoinTime :: "uint64 \<Rightarrow> int \<Rightarrow> lfg_queue \<Rightarrow> int \<times> lfg_queue" where
  "queue_GetJoinTime guid now q =
     (case om_find guid (QueueDataStore q) of
        Some d \<Rightarrow> (qd_joinTime d, q)
      | None \<Rightarrow> (now, q\<lparr>QueueDataStore := om_set guid (qd_make now [] []) (QueueDataStore q)\<rparr>))"

section \<open>Waiting times\<close>

text \<open>The new average, in unsigned arithmetic of 32 bits since one operand is a \<^verbatim>\<open>uint32\<close>\<close>

definition wt_update :: "int32 \<Rightarrow> lfg_wait_time \<Rightarrow> lfg_wait_time" where
  "wt_update waitTime wt =
     (let n = wt_number wt + 1 in \<lparr>wt_time = (wt_time wt * wt_number wt + waitTime) div n, wt_number = n\<rparr>)"

definition UpdateWaitTimeAvg :: "int32 \<Rightarrow> uint32 \<Rightarrow> lfg_queue \<Rightarrow> lfg_queue" where
  "UpdateWaitTimeAvg t d q = q\<lparr>waitTimesAvgStore := (waitTimesAvgStore q)(d := wt_update t (waitTimesAvgStore q d))\<rparr>"

definition UpdateWaitTimeTank :: "int32 \<Rightarrow> uint32 \<Rightarrow> lfg_queue \<Rightarrow> lfg_queue" where
  "UpdateWaitTimeTank t d q = q\<lparr>waitTimesTankStore := (waitTimesTankStore q)(d := wt_update t (waitTimesTankStore q d))\<rparr>"

definition UpdateWaitTimeHealer :: "int32 \<Rightarrow> uint32 \<Rightarrow> lfg_queue \<Rightarrow> lfg_queue" where
  "UpdateWaitTimeHealer t d q = q\<lparr>waitTimesHealerStore := (waitTimesHealerStore q)(d := wt_update t (waitTimesHealerStore q d))\<rparr>"

definition UpdateWaitTimeDps :: "int32 \<Rightarrow> uint32 \<Rightarrow> lfg_queue \<Rightarrow> lfg_queue" where
  "UpdateWaitTimeDps t d q = q\<lparr>waitTimesDpsStore := (waitTimesDpsStore q)(d := wt_update t (waitTimesDpsStore q d))\<rparr>"

record lfg_queue_status =
  qs_dungeonId :: uint32
  qs_waitTime :: int32
  qs_waitTimeAvg :: int32
  qs_waitTimeTank :: int32
  qs_waitTimeHealer :: int32
  qs_waitTimeDps :: int32
  qs_queuedTime :: uint32
  qs_tanks :: uint8
  qs_healers :: uint8
  qs_dps :: uint8

text \<open>
  One entry of \<^verbatim>\<open>UpdateQueueTimers\<close>; an entry has a dungeon, since one is needed to join. The
  numbers sent are those of the entry after \<^verbatim>\<open>FindBestCompatibleInQueue\<close>.
\<close>

definition status_wait :: "lfg_queue \<Rightarrow> uint32 \<Rightarrow> lfg_roles \<Rightarrow> int32" where
  "status_wait q dungeonId roles =
     (let role = fold (\<lambda>(_, r) a. a OR r) roles PLAYER_ROLE_NONE AND NOT PLAYER_ROLE_LEADER
      in if role = PLAYER_ROLE_NONE then - 1
         else if role = PLAYER_ROLE_TANK then wt_time (waitTimesTankStore q dungeonId)
         else if role = PLAYER_ROLE_HEALER then wt_time (waitTimesHealerStore q dungeonId)
         else if role = PLAYER_ROLE_DAMAGE then wt_time (waitTimesDpsStore q dungeonId)
         else wt_time (waitTimesAvgStore q dungeonId))"

definition entry_status :: "lfg_queue \<Rightarrow> int \<Rightarrow> lfg_queue_data \<Rightarrow> lfg_queue_status" where
  "entry_status q currTime d =
     (let dungeonId = hd (qd_dungeons d)
      in \<lparr>qs_dungeonId = dungeonId, qs_waitTime = status_wait q dungeonId (qd_roles d),
          qs_waitTimeAvg = wt_time (waitTimesAvgStore q dungeonId), qs_waitTimeTank = wt_time (waitTimesTankStore q dungeonId),
          qs_waitTimeHealer = wt_time (waitTimesHealerStore q dungeonId), qs_waitTimeDps = wt_time (waitTimesDpsStore q dungeonId),
          qs_queuedTime = of_int (currTime - qd_joinTime d), qs_tanks = qd_tanks d, qs_healers = qd_healers d, qs_dps = qd_dps d\<rparr>)"

definition refresh_entry :: "(bytes, lfg_compat_data) omap \<Rightarrow> uint64 \<Rightarrow> lfg_queue_data \<Rightarrow> lfg_queue_data" where
  "refresh_entry cm guid d = (if qd_bestCompatible d = [] then FindBestCompatible cm guid d else d)"

definition UpdateQueueTimers :: "int \<Rightarrow> lfg_queue \<Rightarrow> (uint64 \<times> lfg_queue_status) list \<times> lfg_queue" where
  "UpdateQueueTimers currTime q =
     (let store = map (\<lambda>(g, d). (g, refresh_entry (CompatibleMapStore q) g d)) (QueueDataStore q)
      in (concat (map (\<lambda>(g, d). map (\<lambda>(p, _). (p, entry_status q currTime d)) (qd_roles d)) store),
          q\<lparr>QueueDataStore := store\<rparr>))"

section \<open>The table of combinations\<close>

definition cd_pending :: lfg_compat_data where
  "cd_pending = \<lparr>cd_compatibility = LFG_COMPATIBILITY_PENDING, cd_roles = []\<rparr>"

definition SetCompatibles :: "bytes \<Rightarrow> lfg_compat \<Rightarrow> lfg_queue \<Rightarrow> lfg_queue" where
  "SetCompatibles key c q =
     (let d = (case om_find key (CompatibleMapStore q) of Some d \<Rightarrow> d | None \<Rightarrow> cd_pending)
      in q\<lparr>CompatibleMapStore := om_set key (d\<lparr>cd_compatibility := c\<rparr>) (CompatibleMapStore q)\<rparr>)"

definition SetCompatibilityData :: "bytes \<Rightarrow> lfg_compat_data \<Rightarrow> lfg_queue \<Rightarrow> lfg_queue" where
  "SetCompatibilityData key d q = q\<lparr>CompatibleMapStore := om_set key d (CompatibleMapStore q)\<rparr>"

definition GetCompatibles :: "bytes \<Rightarrow> lfg_queue \<Rightarrow> lfg_compat" where
  "GetCompatibles key q =
     (case om_find key (CompatibleMapStore q) of Some d \<Rightarrow> cd_compatibility d | None \<Rightarrow> LFG_COMPATIBILITY_PENDING)"

end
