(* ===== verification/LFG_Search.thy ===== *)
theory LFG_Search
  imports LFG_Queue Group_Sizes "HOL-Library.Sublist"
begin

text \<open>
  The search for groups (src/Core/src/server/game/DungeonFinding/LFGQueue.cpp:
  \<^verbatim>\<open>CheckCompatibility\<close>, \<^verbatim>\<open>FindNewGroups\<close>, \<^verbatim>\<open>FindGroups\<close>) and the proposals
  it makes (\<^verbatim>\<open>LfgProposal\<close>, LFGMgr.h).
\<close>

section \<open>Proposals\<close>

datatype lfg_answer = LFG_ANSWER_PENDING | LFG_ANSWER_DENY | LFG_ANSWER_AGREE

datatype lfg_proposal_state = LFG_PROPOSAL_INITIATING | LFG_PROPOSAL_FAILED | LFG_PROPOSAL_SUCCESS

record lfg_proposal_player =
  pp_role :: uint8
  pp_accept :: lfg_answer
  pp_group :: uint64

record lfg_proposal =
  lp_id :: uint32
  lp_dungeonId :: uint32
  lp_state :: lfg_proposal_state
  lp_group :: uint64
  lp_leader :: uint64
  lp_cancelTime :: int
  lp_isNew :: bool
  lp_queues :: "uint64 list"
  lp_players :: "(uint64, lfg_proposal_player) omap"

definition LFG_TIME_PROPOSAL :: int where "LFG_TIME_PROPOSAL = 45"

section \<open>The state of the search\<close>

text \<open>
  What the search reads and does not change: the stores of the manager, who is in the world and
  which low GUIDs a player ignores, the time and the random numbers; the draw number \<open>n\<close> of
  \<^verbatim>\<open>urand(lo, hi)\<close> is \<open>le_urand n lo hi\<close>.
\<close>

record lfg_env = lfg_stores +
  le_inWorld :: "uint64 \<Rightarrow> bool"
  le_ignoring :: "uint64 \<Rightarrow> uint32 \<Rightarrow> bool"
  le_time :: int
  le_urand :: "nat \<Rightarrow> nat \<Rightarrow> nat \<Rightarrow> nat"

definition HasIgnore :: "lfg_env \<Rightarrow> uint64 \<Rightarrow> uint64 \<Rightarrow> bool" where
  "HasIgnore env guid1 guid2 \<longleftrightarrow>
     le_inWorld env guid1 \<and> le_inWorld env guid2 \<and> (le_ignoring env guid1 (ucast guid2) \<or> le_ignoring env guid2 (ucast guid1))"

record lfg_run =
  run_queue :: lfg_queue
  run_proposals :: "(uint32, lfg_proposal) omap"
  run_id :: uint32
  run_drawn :: nat

definition on_queue :: "(lfg_queue \<Rightarrow> lfg_queue) \<Rightarrow> lfg_run \<Rightarrow> lfg_run" where
  "on_queue f s = s\<lparr>run_queue := f (run_queue s)\<rparr>"

definition on_entry :: "uint64 \<Rightarrow> (lfg_queue_data \<Rightarrow> lfg_queue_data) \<Rightarrow> lfg_queue \<Rightarrow> lfg_queue" where
  "on_entry guid f q = q\<lparr>QueueDataStore := map (\<lambda>(g, d). (g, if g = guid then f d else d)) (QueueDataStore q)\<rparr>"

definition AddProposal :: "lfg_proposal \<Rightarrow> lfg_run \<Rightarrow> lfg_run" where
  "AddProposal p s = s\<lparr>run_id := run_id s + 1, run_proposals := om_set (run_id s + 1) (p\<lparr>lp_id := run_id s + 1\<rparr>) (run_proposals s)\<rparr>"

section \<open>Checking a combination\<close>

text \<open>
  The loop that counts players and groups; it ends early once there are too many. \<open>Inl\<close> is a
  GUID that is listed as waiting without queue data.
\<close>

record lfg_counts =
  ct_players :: uint8
  ct_lfgGroups :: uint8
  ct_groups :: "(uint64, uint64) omap"
  ct_group :: uint64

definition counts_new :: lfg_counts where
  "counts_new = \<lparr>ct_players = 0, ct_lfgGroups = 0, ct_groups = [], ct_group = 0\<rparr>"

definition count_entry :: "('a) lfg_stores_scheme \<Rightarrow> uint64 \<Rightarrow> lfg_queue_data \<Rightarrow> lfg_counts \<Rightarrow> lfg_counts" where
  "count_entry st guid d c =
     (let c1 = c\<lparr>ct_groups := fold (\<lambda>(p, _). om_set p (if guid_IsGroup guid then guid else 0)) (qd_roles d) (ct_groups c),
                ct_players := ct_players c + of_nat (length (qd_roles d))\<rparr>
      in if lfg_IsLfgGroup guid st
         then c1\<lparr>ct_group := (if ct_lfgGroups c1 = 0 then guid else ct_group c1), ct_lfgGroups := ct_lfgGroups c1 + 1\<rparr>
         else c1)"

fun count_players :: "('a) lfg_stores_scheme \<Rightarrow> (uint64, lfg_queue_data) omap \<Rightarrow> uint64 list \<Rightarrow> lfg_counts \<Rightarrow> uint64 + lfg_counts" where
  "count_players st store [] c = Inr c"
| "count_players st store (guid # check) c =
     (if ct_lfgGroups c < 2 \<and> ct_players c \<le> of_nat MAXGROUPSIZE
      then (case om_find guid store of
              None \<Rightarrow> Inl guid
            | Some d \<Rightarrow> count_players st store check (count_entry st guid d c))
      else Inr c)"

text \<open>The data of an entry; it is there once the players have been counted.\<close>

definition entry :: "(uint64, lfg_queue_data) omap \<Rightarrow> uint64 \<Rightarrow> lfg_queue_data" where
  "entry store guid = (case om_find guid store of Some d \<Rightarrow> d | None \<Rightarrow> qd_make 0 [] [])"

text \<open>
  Collecting the players of a combination: one who ignores, or is ignored by, one already collected
  is left out. A player who waits twice is only reported, and then there again.
\<close>

definition collect_player :: "(uint64 \<Rightarrow> uint64 \<Rightarrow> bool) \<Rightarrow> uint64 \<times> uint8 \<Rightarrow> lfg_roles \<Rightarrow> lfg_roles" where
  "collect_player ignores e proposalRoles =
     (if \<exists>p \<in> set proposalRoles. fst e \<noteq> fst p \<and> ignores (fst e) (fst p) then proposalRoles
      else om_set (fst e) (snd e) proposalRoles)"

definition collect_players :: "(uint64 \<Rightarrow> uint64 \<Rightarrow> bool) \<Rightarrow> (uint64, lfg_queue_data) omap \<Rightarrow> uint64 list \<Rightarrow> lfg_roles" where
  "collect_players ignores store check =
     fold (\<lambda>guid roles. fold (collect_player ignores) (qd_roles (entry store guid)) roles) check []"

fun common_dungeons :: "(uint64, lfg_queue_data) omap \<Rightarrow> uint64 list \<Rightarrow> uint32 list \<Rightarrow> uint32 list" where
  "common_dungeons store [] ds = ds"
| "common_dungeons store (guid # check) ds =
     common_dungeons store check (filter (\<lambda>d. d \<in> set (qd_dungeons (entry store guid))) ds)"

text \<open>The checks of a combination of several entries, and what a single entry brings\<close>

definition check_party :: "(uint64 \<Rightarrow> uint64 \<Rightarrow> bool) \<Rightarrow> (uint64, lfg_queue_data) omap \<Rightarrow> uint64 list \<Rightarrow> uint8 \<Rightarrow> lfg_compat + lfg_roles \<times> uint32 list" where
  "check_party ignores store check numPlayers =
     (let proposalRoles = collect_players ignores store check;
          answer = CheckGroupRoles True proposalRoles;
          dungeons = common_dungeons store (tl check) (qd_dungeons (entry store (hd check)))
      in if numPlayers - of_nat (length proposalRoles) \<noteq> (0 :: uint8) then Inl LFG_INCOMPATIBLES_HAS_IGNORES
         else if \<not> fst answer then Inl LFG_INCOMPATIBLES_NO_ROLES
         else if dungeons = [] then Inl LFG_INCOMPATIBLES_NO_DUNGEONS
         else Inr (snd answer, dungeons))"

definition single_entry :: "(uint64, lfg_queue_data) omap \<Rightarrow> uint64 \<Rightarrow> lfg_roles \<times> uint32 list" where
  "single_entry store guid =
     (snd (CheckGroupRoles True (qd_roles (entry store guid))), qd_dungeons (entry store guid))"

text \<open>
  The leader: the last player drawn, those who offered to lead first; a number is drawn only
  where the condition before it does not decide.
\<close>

definition choose_leader :: "(nat \<Rightarrow> nat \<Rightarrow> nat \<Rightarrow> nat) \<Rightarrow> uint64 \<times> uint8 \<Rightarrow> bool \<times> uint64 \<times> nat \<Rightarrow> bool \<times> uint64 \<times> nat" where
  "choose_leader draw e acc =
     (case acc of (leader, chosen, n) \<Rightarrow>
        if snd e AND PLAYER_ROLE_LEADER \<noteq> 0
        then (if \<not> leader \<or> chosen = 0 then (True, fst e, n)
              else (True, (if draw n 0 1 \<noteq> 0 then fst e else chosen), Suc n))
        else if leader then acc
        else if chosen = 0 then (False, fst e, n)
        else (False, (if draw n 0 1 \<noteq> 0 then fst e else chosen), Suc n))"

definition proposal_player :: "bool \<Rightarrow> uint64 \<Rightarrow> (uint64, uint64) omap \<Rightarrow> uint64 \<times> uint8 \<Rightarrow> lfg_proposal_player" where
  "proposal_player isNew propGroup groups e =
     (let g = (case om_find (fst e) groups of Some g \<Rightarrow> g | None \<Rightarrow> 0)
      in \<lparr>pp_role = snd e, pp_accept = (if \<not> isNew \<and> g \<noteq> 0 \<and> g = propGroup then LFG_ANSWER_AGREE else LFG_ANSWER_PENDING),
          pp_group = g\<rparr>)"

definition make_proposal :: "lfg_env \<Rightarrow> uint64 list \<Rightarrow> lfg_counts \<Rightarrow> lfg_roles \<Rightarrow> uint32 list \<Rightarrow> nat \<Rightarrow> lfg_proposal \<times> nat" where
  "make_proposal env check c proposalRoles dungeons n =
     (let isNew = (ct_lfgGroups c \<noteq> 1 \<or> lfg_GetOldState (hd check) env \<noteq> LFG_STATE_DUNGEON);
          dungeon = dungeons ! le_urand env n 0 (length dungeons - 1);
          (_, leader, n') = fold (choose_leader (le_urand env)) proposalRoles (False, 0, Suc n)
      in (\<lparr>lp_id = 0, lp_dungeonId = dungeon, lp_state = LFG_PROPOSAL_INITIATING, lp_group = ct_group c,
           lp_leader = leader, lp_cancelTime = le_time env + LFG_TIME_PROPOSAL, lp_isNew = isNew, lp_queues = check,
           lp_players = fold (\<lambda>e. om_set (fst e) (proposal_player isNew (ct_group c) (ct_groups c) e)) proposalRoles []\<rparr>, n'))"

text \<open>The proposal is made, and its entries are no longer searched.\<close>

definition propose :: "lfg_env \<Rightarrow> uint64 list \<Rightarrow> lfg_counts \<Rightarrow> lfg_roles \<Rightarrow> uint32 list \<Rightarrow> lfg_run \<Rightarrow> lfg_run" where
  "propose env check c proposalRoles dungeons s =
     (let (p, n) = make_proposal env check c proposalRoles dungeons (run_drawn s);
          s1 = on_queue (fold (\<lambda>g. RemoveFromCurrentQueue g \<circ> RemoveFromNewQueue g) check) (s\<lparr>run_drawn := n\<rparr>)
      in on_queue (SetCompatibles (ConcatenateGuids check) LFG_COMPATIBLES_MATCH) (AddProposal p s1))"

text \<open>The end of \<^verbatim>\<open>CheckCompatibility\<close>, once the combination is known to fit\<close>

definition finish_check :: "lfg_env \<Rightarrow> uint64 list \<Rightarrow> lfg_counts \<Rightarrow> lfg_roles \<Rightarrow> uint32 list \<Rightarrow> lfg_run \<Rightarrow> lfg_compat \<times> lfg_run" where
  "finish_check env check c proposalRoles dungeons s =
     (let key = ConcatenateGuids check in
      if ct_players c \<noteq> of_nat MAXGROUPSIZE
      then (LFG_COMPATIBLES_WITH_LESS_PLAYERS,
            on_queue (SetCompatibilityData key \<lparr>cd_compatibility = LFG_COMPATIBLES_WITH_LESS_PLAYERS, cd_roles = proposalRoles\<rparr>
                      \<circ> fold (\<lambda>g. on_entry g (UpdateBestCompatible key proposalRoles)) check) s)
      else if \<not> lfg_AllQueued check env
      then (LFG_COMPATIBLES_BAD_STATES, on_queue (SetCompatibles key LFG_COMPATIBLES_BAD_STATES) s)
      else (LFG_COMPATIBLES_MATCH, propose env check c proposalRoles dungeons s))"

definition check_combination :: "lfg_env \<Rightarrow> uint64 list \<Rightarrow> lfg_run \<Rightarrow> lfg_compat \<times> lfg_run" where
  "check_combination env check s =
     (let key = ConcatenateGuids check;
          store = QueueDataStore (run_queue s)
      in case count_players env store check counts_new of
           Inl guid \<Rightarrow> (LFG_COMPATIBILITY_PENDING, on_queue (RemoveFromQueue guid) s)
         | Inr c \<Rightarrow>
             if length check = 1 \<and> ct_players c \<noteq> of_nat MAXGROUPSIZE
             then
               let guid = hd check;
                   roles = snd (CheckGroupRoles True (qd_roles (entry store guid)))
               in (LFG_COMPATIBLES_WITH_LESS_PLAYERS,
                   on_queue (SetCompatibilityData key \<lparr>cd_compatibility = LFG_COMPATIBLES_WITH_LESS_PLAYERS, cd_roles = roles\<rparr>
                             \<circ> on_entry guid (UpdateBestCompatible key roles)) s)
             else if ct_lfgGroups c > 1
             then (LFG_INCOMPATIBLES_MULTIPLE_LFG_GROUPS, on_queue (SetCompatibles key LFG_INCOMPATIBLES_MULTIPLE_LFG_GROUPS) s)
             else if ct_players c > of_nat MAXGROUPSIZE
             then (LFG_INCOMPATIBLES_TOO_MUCH_PLAYERS, on_queue (SetCompatibles key LFG_INCOMPATIBLES_TOO_MUCH_PLAYERS) s)
             else if length check > 1
             then (case check_party (HasIgnore env) store check (ct_players c) of
                     Inl bad \<Rightarrow> (bad, on_queue (SetCompatibles key bad) s)
                   | Inr (roles, dungeons) \<Rightarrow> finish_check env check c roles dungeons s)
             else
               let (roles, dungeons) = single_entry store (hd check)
               in finish_check env check c roles dungeons s)"

text \<open>
  \<^verbatim>\<open>LFGQueue::CheckCompatibility\<close>. The combination without its first entry is checked first,
  whatever the table says of it.
\<close>

fun CheckCompatibility :: "lfg_env \<Rightarrow> uint64 list \<Rightarrow> lfg_run \<Rightarrow> lfg_compat \<times> lfg_run" where
  "CheckCompatibility env [] s = (LFG_INCOMPATIBLES_WRONG_GROUP_SIZE, s)"
| "CheckCompatibility env (guid # check) s =
     (let key = ConcatenateGuids (guid # check)
      in if length (guid # check) > MAXGROUPSIZE then (LFG_INCOMPATIBLES_WRONG_GROUP_SIZE, s)
         else if length (guid # check) > 2
         then
           let (child, s1) = CheckCompatibility env check s
           in if child < LFG_COMPATIBLES_WITH_LESS_PLAYERS then (child, on_queue (SetCompatibles key child) s1)
              else check_combination env (guid # check) s1
         else check_combination env (guid # check) s)"

section \<open>The search\<close>

text \<open>
  \<^verbatim>\<open>LFGQueue::FindNewGroups\<close>. The list of the others is a reference: what an inner call takes
  from it is gone for the loop of the outer one.
\<close>

definition try_combination :: "lfg_env \<Rightarrow> uint64 list \<Rightarrow> lfg_run \<Rightarrow> lfg_compat \<times> lfg_run" where
  "try_combination env check s =
     (let key = ConcatenateGuids check;
          cached = GetCompatibles key (run_queue s);
          (c, s1) = (if cached = LFG_COMPATIBILITY_PENDING then CheckCompatibility env check s else (cached, s))
      in if c = LFG_COMPATIBLES_BAD_STATES \<and> lfg_AllQueued check env
         then (LFG_COMPATIBLES_MATCH, on_queue (SetCompatibles key LFG_COMPATIBLES_MATCH) s1)
         else (c, s1))"

function FindNewGroups :: "lfg_env \<Rightarrow> uint64 list \<Rightarrow> uint64 list \<Rightarrow> lfg_run \<Rightarrow> lfg_compat \<times> uint64 list \<times> lfg_run"
  and match_others :: "lfg_env \<Rightarrow> uint64 list \<Rightarrow> uint64 list \<Rightarrow> lfg_run \<Rightarrow> lfg_compat \<times> uint64 list \<times> lfg_run" where
  "FindNewGroups env check others s =
     (let (c, s1) = try_combination env check s
      in if c \<noteq> LFG_COMPATIBLES_WITH_LESS_PLAYERS then (c, others, s1) else match_others env check others s1)"
| "match_others env check others s =
     (case others of
        [] \<Rightarrow> (LFG_COMPATIBLES_WITH_LESS_PLAYERS, [], s)
      | g # rest \<Rightarrow>
          let (c, rest', s1) = FindNewGroups env (check @ [g]) rest s
          in if c = LFG_COMPATIBLES_MATCH then (LFG_COMPATIBLES_MATCH, rest', s1)
             else match_others env check rest' s1)"
  by pat_completeness auto

lemma search_shorter:
  "FindNewGroups_match_others_dom (Inl (env, check, others, s)) \<Longrightarrow>
     length (fst (snd (FindNewGroups env check others s))) \<le> length others"
  "FindNewGroups_match_others_dom (Inr (env, check, others, s)) \<Longrightarrow>
     length (fst (snd (match_others env check others s))) \<le> length others"
proof (induction rule: FindNewGroups_match_others.pinduct)
  case (1 env check others s)
  then show ?case
    by (subst FindNewGroups.psimps) (auto split: prod.split)
next
  case (2 env check others s)
  show ?case
  proof (cases others)
    case Nil
    then show ?thesis using 2(1) by (subst match_others.psimps) auto
  next
    case (Cons g rest)
    then show ?thesis
      using 2 by (subst match_others.psimps) (force simp: Let_def split: prod.split)+
  qed
qed

termination FindNewGroups
proof (relation "measure (\<lambda>x. case x of Inl (env, check, others, s) \<Rightarrow> 2 * length others + 1 | Inr (env, check, others, s) \<Rightarrow> 2 * length others)",
    goal_cases)
  case (4 env check others s g rest x c y rest' s1)
  then show ?case using search_shorter(1) [of env "check @ [g]" rest s] by (auto dest: sym)
qed auto

declare FindNewGroups.simps [simp del] match_others.simps [simp del]

subsection \<open>What every step of the search keeps\<close>

text \<open>
  A combination fits: its players have been counted and are five, at most one of its entries is a
  group of the dungeon finder, and the roles and dungeons are those found for it.
\<close>

definition fits :: "lfg_env \<Rightarrow> (uint64, lfg_queue_data) omap \<Rightarrow> uint64 list \<Rightarrow> lfg_counts \<Rightarrow> lfg_roles \<Rightarrow> uint32 list \<Rightarrow> bool" where
  "fits env store check c roles dungeons \<longleftrightarrow>
     check \<noteq> [] \<and> length check \<le> MAXGROUPSIZE \<and> count_players env store check counts_new = Inr c \<and>
     ct_lfgGroups c \<le> 1 \<and> ct_players c = of_nat MAXGROUPSIZE \<and>
     (if length check = 1 then single_entry store (hd check) = (roles, dungeons)
      else check_party (HasIgnore env) store check (ct_players c) = Inr (roles, dungeons))"

lemma count_players_unlisted: "count_players st store check c = Inl g \<Longrightarrow> om_find g store = None"
  by (induction st store check c rule: count_players.induct) (auto split: if_splits option.splits)

lemma CheckCompatibility_bad:
  "fst (CheckCompatibility env check s) = LFG_COMPATIBLES_BAD_STATES \<Longrightarrow> \<not> lfg_AllQueued check env"
proof (induction check arbitrary: s)
  case (Cons guid check)
  have f: "fst (finish_check env ch c roles dungeons s) = LFG_COMPATIBLES_BAD_STATES \<Longrightarrow> \<not> lfg_AllQueued ch env" for ch c roles dungeons s
    by (simp add: finish_check_def Let_def split: if_splits)
  have p: "check_party ig st ch n = Inl bad \<Longrightarrow> bad \<noteq> LFG_COMPATIBLES_BAD_STATES" for ig st ch n bad
    by (auto simp: check_party_def Let_def split: if_splits)
  have c: "fst (check_combination env ch s) = LFG_COMPATIBLES_BAD_STATES \<Longrightarrow> \<not> lfg_AllQueued ch env" for ch s
    using f p by (fastforce simp: check_combination_def Let_def split: if_splits sum.splits prod.splits)
  show ?case
  proof (cases "CheckCompatibility env check s")
    case (Pair v s1)
    have "\<not> v < LFG_COMPATIBLES_WITH_LESS_PLAYERS" if "v = LFG_COMPATIBLES_BAD_STATES" using that by (simp add: less_lfg_compat_def)
    then show ?thesis using Cons.prems c Pair by (auto simp: Let_def split: if_splits)
  qed
qed simp

text \<open>
  The interface between the search and what is to be shown of it: a condition kept by the few ways in
  which the search changes its state is kept by the search.
\<close>

locale search_invariant =
  fixes env :: lfg_env
    and P :: "lfg_run \<Rightarrow> bool"
  assumes keeps_verdict: "P s \<Longrightarrow> v < LFG_COMPATIBLES_BAD_STATES \<Longrightarrow> P (on_queue (SetCompatibles key v) s)"
    and keeps_less: "P s \<Longrightarrow> P (on_queue (SetCompatibilityData key \<lparr>cd_compatibility = LFG_COMPATIBLES_WITH_LESS_PLAYERS, cd_roles = roles\<rparr>) s)"
    and keeps_best: "P s \<Longrightarrow> P (on_queue (on_entry g (UpdateBestCompatible key roles)) s)"
    and keeps_unlisted: "P s \<Longrightarrow> om_find g (QueueDataStore (run_queue s)) = None \<Longrightarrow> P (on_queue (RemoveFromQueue g) s)"
    and keeps_bad: "P s \<Longrightarrow> \<not> lfg_AllQueued check env \<Longrightarrow> P (on_queue (SetCompatibles (ConcatenateGuids check) LFG_COMPATIBLES_BAD_STATES) s)"
    and keeps_promotion: "P s \<Longrightarrow> lfg_AllQueued check env \<Longrightarrow>
          GetCompatibles (ConcatenateGuids check) (run_queue s) = LFG_COMPATIBLES_BAD_STATES \<Longrightarrow>
          P (on_queue (SetCompatibles (ConcatenateGuids check) LFG_COMPATIBLES_MATCH) s)"
    and keeps_propose: "P s \<Longrightarrow> fits env (QueueDataStore (run_queue s)) check c roles dungeons \<Longrightarrow> lfg_AllQueued check env \<Longrightarrow>
          P (propose env check c roles dungeons s)"
begin

lemma keeps_all_best: "P s \<Longrightarrow> P (on_queue (fold (\<lambda>g. on_entry g (UpdateBestCompatible key roles)) check) s)"
proof (induction check arbitrary: s)
  case (Cons g check)
  then show ?case using Cons.IH [OF keeps_best [OF Cons.prems]] by (simp add: on_queue_def comp_def)
qed (simp add: on_queue_def)

lemma keeps_finish_check:
  assumes "P s" and "ct_players c = of_nat MAXGROUPSIZE \<Longrightarrow> fits env (QueueDataStore (run_queue s)) check c roles dungeons"
  shows "P (snd (finish_check env check c roles dungeons s))"
  using assms keeps_less [OF keeps_all_best] keeps_bad keeps_propose
  by (simp add: finish_check_def on_queue_def Let_def)

lemma keeps_check_combination:
  assumes "P s" and "check \<noteq> []" and "length check \<le> MAXGROUPSIZE"
  shows "P (snd (check_combination env check s))"
proof (cases "count_players env (QueueDataStore (run_queue s)) check counts_new")
  case (Inl g)
  then have "om_find g (QueueDataStore (run_queue s)) = None" by (rule count_players_unlisted)
  then show ?thesis using keeps_unlisted [OF assms(1)] Inl by (simp add: check_combination_def)
next
  case (Inr c)
  let ?store = "QueueDataStore (run_queue s)"
  have one: "length check = 1 \<Longrightarrow> ct_players c \<noteq> of_nat MAXGROUPSIZE \<Longrightarrow> ?thesis"
    using keeps_less [OF keeps_best [OF assms(1)]] Inr by (simp add: check_combination_def Let_def on_queue_def)
  have groups: "\<not> (length check = 1 \<and> ct_players c \<noteq> of_nat MAXGROUPSIZE) \<Longrightarrow> ct_lfgGroups c > 1 \<Longrightarrow> ?thesis"
    using keeps_verdict [OF assms(1)] Inr by (auto simp: check_combination_def Let_def less_lfg_compat_def)
  have many: "\<not> (length check = 1 \<and> ct_players c \<noteq> of_nat MAXGROUPSIZE) \<Longrightarrow> \<not> ct_lfgGroups c > 1 \<Longrightarrow>
      ct_players c > of_nat MAXGROUPSIZE \<Longrightarrow> ?thesis"
    using keeps_verdict [OF assms(1)] Inr by (auto simp add: check_combination_def Let_def less_lfg_compat_def)
  have party: ?thesis
    if c: "\<not> (length check = 1 \<and> ct_players c \<noteq> of_nat MAXGROUPSIZE)" "\<not> ct_lfgGroups c > 1"
      "\<not> ct_players c > of_nat MAXGROUPSIZE" "length check > 1"
  proof (cases "check_party (HasIgnore env) ?store check (ct_players c)")
    case (Inl bad)
    then have "bad < LFG_COMPATIBLES_BAD_STATES"
      by (auto simp: check_party_def Let_def less_lfg_compat_def split: if_splits)
    then show ?thesis using keeps_verdict [OF assms(1)] \<open>count_players _ _ _ _ = _\<close> Inl c by (simp add: check_combination_def Let_def)
  next
    case p: (Inr rd)
    obtain roles dungeons where rd: "rd = (roles, dungeons)" by (cases rd)
    have "fits env ?store check c roles dungeons" if "ct_players c = of_nat MAXGROUPSIZE"
      using that assms(2,3) c p Inr by (simp add: fits_def rd not_less)
    from keeps_finish_check [OF assms(1) this] show ?thesis
      using Inr p c by (simp add: check_combination_def Let_def rd)
  qed
  have single: ?thesis
    if c: "\<not> (length check = 1 \<and> ct_players c \<noteq> of_nat MAXGROUPSIZE)" "\<not> ct_lfgGroups c > 1" "\<not> length check > 1"
      "\<not> ct_players c > of_nat MAXGROUPSIZE"
  proof -
    obtain roles dungeons where rd: "single_entry ?store (hd check) = (roles, dungeons)" by fastforce
    have "length check = 1" using c(3) assms(2) by (cases check) auto
    then have "fits env ?store check c roles dungeons" if "ct_players c = of_nat MAXGROUPSIZE"
      using that assms(2,3) c Inr rd by (simp add: fits_def not_less)
    from keeps_finish_check [OF assms(1) this] show ?thesis
      using Inr c rd by (auto simp add: check_combination_def Let_def)
  qed
  show ?thesis using one groups many party single by blast
qed

lemma keeps_CheckCompatibility: "P s \<Longrightarrow> P (snd (CheckCompatibility env check s))"
proof (induction check arbitrary: s)
  case (Cons guid check)
  have child: "P (snd (CheckCompatibility env check s))" using Cons by blast
  consider (big) "length (guid # check) > MAXGROUPSIZE" | (two) "length (guid # check) \<le> MAXGROUPSIZE" "length (guid # check) > 2"
    | (one) "length (guid # check) \<le> MAXGROUPSIZE" "\<not> length (guid # check) > 2" by linarith
  then show ?case
  proof cases
    case big
    then show ?thesis using Cons.prems by (simp add: Let_def)
  next
    case two
    obtain v s1 where v: "CheckCompatibility env check s = (v, s1)" by fastforce
    have s1: "P s1" using child v by simp
    have "v < LFG_COMPATIBLES_WITH_LESS_PLAYERS \<Longrightarrow> v < LFG_COMPATIBLES_BAD_STATES" by (simp add: less_lfg_compat_def)
    then show ?thesis
      using two v keeps_verdict [OF s1, of v] keeps_check_combination [OF s1, of "guid # check"] by (simp add: Let_def)
  next
    case one
    then show ?thesis using keeps_check_combination [OF Cons.prems, of "guid # check"] by (simp add: Let_def)
  qed
qed simp

text \<open>A combination in the wrong states is one that is not all waiting.\<close>

lemma keeps_try_combination: "P s \<Longrightarrow> P (snd (try_combination env check s))"
  using keeps_CheckCompatibility [of s check] keeps_promotion [of s check] CheckCompatibility_bad [of env check s]
  by (auto simp: try_combination_def Let_def split: prod.splits if_splits)

lemma keeps_search:
  "env' = env \<Longrightarrow> P s \<Longrightarrow> P (snd (snd (FindNewGroups env' check others s)))"
  "env' = env \<Longrightarrow> P s \<Longrightarrow> P (snd (snd (match_others env' check others s)))"
proof (induction env' check others s and env' check others s rule: FindNewGroups_match_others.induct)
  case (1 env' check others s)
  obtain v s1 where v: "try_combination env' check s = (v, s1)" by fastforce
  have "P s1" using keeps_try_combination [OF 1(3), of check] v 1(2) by simp
  then show ?case using 1(1) [OF v [symmetric] refl _ 1(2)] v by (subst FindNewGroups.simps) simp
next
  case (2 env' check others s)
  show ?case
  proof (cases others)
    case Nil
    then show ?thesis using 2(4) by (subst match_others.simps) simp
  next
    case (Cons g rest)
    obtain v rest' s1 where v: "FindNewGroups env' (check @ [g]) rest s = (v, rest', s1)" by (metis prod_cases3)
    have "P s1" using 2(1) [OF Cons 2(3,4)] v by simp
    then show ?thesis using 2(2) [OF Cons v [symmetric] refl refl _ 2(3)] v Cons by (subst match_others.simps) simp
  qed
qed

lemma keeps_FindNewGroups: "P s \<Longrightarrow> P (snd (snd (FindNewGroups env check others s)))"
  by (rule keeps_search(1)) simp_all

end

subsection \<open>All new entries\<close>

text \<open>The list of the new entries only gets shorter, so the outer loop ends.\<close>

lemma on_queue_apply [simp]:
  "run_queue (on_queue f s) = f (run_queue s)" "run_proposals (on_queue f s) = run_proposals s"
  "run_id (on_queue f s) = run_id s" "run_drawn (on_queue f s) = run_drawn s"
  by (simp_all add: on_queue_def)

lemma AddProposal_apply [simp]:
  "run_queue (AddProposal p s) = run_queue s"
  "run_proposals (AddProposal p s) = om_set (run_id s + 1) (p\<lparr>lp_id := run_id s + 1\<rparr>) (run_proposals s)"
  "run_id (AddProposal p s) = run_id s + 1" "run_drawn (AddProposal p s) = run_drawn s"
  by (simp_all add: AddProposal_def)

lemma lists_simps [simp]:
  "newToQueueStore (SetCompatibles key v q) = newToQueueStore q" "currentQueueStore (SetCompatibles key v q) = currentQueueStore q"
  "newToQueueStore (SetCompatibilityData key d q) = newToQueueStore q" "currentQueueStore (SetCompatibilityData key d q) = currentQueueStore q"
  "newToQueueStore (on_entry g f q) = newToQueueStore q" "currentQueueStore (on_entry g f q) = currentQueueStore q"
  "newToQueueStore (RemoveFromNewQueue g q) = filter (\<lambda>x. x \<noteq> g) (newToQueueStore q)" "currentQueueStore (RemoveFromNewQueue g q) = currentQueueStore q"
  "newToQueueStore (RemoveFromCurrentQueue g q) = newToQueueStore q" "currentQueueStore (RemoveFromCurrentQueue g q) = filter (\<lambda>x. x \<noteq> g) (currentQueueStore q)"
  "newToQueueStore (AddToCurrentQueue g q) = newToQueueStore q" "currentQueueStore (AddToCurrentQueue g q) = currentQueueStore q @ [g]"
  "newToQueueStore (RemoveFromQueue g q) = filter (\<lambda>x. x \<noteq> g) (newToQueueStore q)" "currentQueueStore (RemoveFromQueue g q) = filter (\<lambda>x. x \<noteq> g) (currentQueueStore q)"
  by (simp_all add: SetCompatibles_def SetCompatibilityData_def on_entry_def RemoveFromNewQueue_def RemoveFromCurrentQueue_def
      AddToCurrentQueue_def RemoveFromQueue_def RemoveFromCompatibles_def Let_def)

lemma lists_fold_remove:
  "newToQueueStore (fold (\<lambda>g. RemoveFromCurrentQueue g \<circ> RemoveFromNewQueue g) check q) = filter (\<lambda>x. x \<notin> set check) (newToQueueStore q)"
  "currentQueueStore (fold (\<lambda>g. RemoveFromCurrentQueue g \<circ> RemoveFromNewQueue g) check q) = filter (\<lambda>x. x \<notin> set check) (currentQueueStore q)"
  by (induction check arbitrary: q) (auto intro!: filter_cong)

lemma propose_queue:
  "newToQueueStore (run_queue (propose env check c roles dungeons s)) = filter (\<lambda>x. x \<notin> set check) (newToQueueStore (run_queue s))"
  "currentQueueStore (run_queue (propose env check c roles dungeons s)) = filter (\<lambda>x. x \<notin> set check) (currentQueueStore (run_queue s))"
  by (simp_all add: propose_def lists_fold_remove split: prod.split)

definition new_within :: "uint64 list \<Rightarrow> lfg_run \<Rightarrow> bool" where
  "new_within gs s \<longleftrightarrow> subseq (newToQueueStore (run_queue s)) gs"

interpretation new_search: search_invariant env "new_within gs" for env gs
  by unfold_locales
    (auto simp: new_within_def propose_queue intro: subseq_order.trans [OF subseq_filter_left])

function FindGroups :: "lfg_env \<Rightarrow> lfg_run \<Rightarrow> uint8 \<Rightarrow> uint8 \<times> lfg_run" where
  "FindGroups env s proposals =
     (case newToQueueStore (run_queue s) of
        [] \<Rightarrow> (proposals, s)
      | frontguid # _ \<Rightarrow>
          let s1 = on_queue (RemoveFromNewQueue frontguid) s;
              (compatibles, _, s2) = FindNewGroups env [frontguid] (currentQueueStore (run_queue s1)) s1
          in if compatibles = LFG_COMPATIBLES_MATCH then FindGroups env s2 (proposals + 1)
             else FindGroups env (on_queue (AddToCurrentQueue frontguid) s2) proposals)"
  by pat_completeness auto

text \<open>One round of the outer loop\<close>

lemma FindNewGroups_new:
  "length (newToQueueStore (run_queue (snd (snd (FindNewGroups env check others s))))) \<le> length (newToQueueStore (run_queue s))"
  using new_search.keeps_FindNewGroups [of "newToQueueStore (run_queue s)" s env check others] list_emb_length
  by (fastforce simp: new_within_def)

termination FindGroups
proof (relation "measure (\<lambda>(env, s, n). length (newToQueueStore (run_queue s)))", goal_cases)
  case (2 env s proposals g rest s1 x v y others s2)
  have "length (newToQueueStore (run_queue s2)) \<le> length (newToQueueStore (run_queue s1))"
    using FindNewGroups_new [of env "[g]" "currentQueueStore (run_queue s1)" s1] 2 by (metis snd_conv)
  also have "\<dots> < length (newToQueueStore (run_queue s))"
    using 2(1) by (simp add: 2(2) le_imp_less_Suc)
  finally show ?case by simp
next
  case (3 env s proposals g rest s1 x v y others s2)
  have "length (newToQueueStore (run_queue s2)) \<le> length (newToQueueStore (run_queue s1))"
    using FindNewGroups_new [of env "[g]" "currentQueueStore (run_queue s1)" s1] 3 by (metis snd_conv)
  also have "\<dots> < length (newToQueueStore (run_queue s))"
    using 3(1) by (simp add: 3(2) le_imp_less_Suc)
  finally show ?case by simp
qed simp

declare FindGroups.simps [simp del]

locale groups_invariant = search_invariant +
  assumes keeps_take: "P s \<Longrightarrow> P (on_queue (RemoveFromNewQueue g) s)"
    and keeps_put: "P s \<Longrightarrow> P (on_queue (AddToCurrentQueue g) s)"
begin

lemma keeps_FindGroups: "env' = env \<Longrightarrow> P s \<Longrightarrow> P (snd (FindGroups env' s n))"
proof (induction env' s n rule: FindGroups.induct)
  case (1 env' s n)
  show ?case
  proof (cases "newToQueueStore (run_queue s)")
    case Nil
    then show ?thesis using 1(4) by (subst FindGroups.simps) simp
  next
    case (Cons g rest)
    let ?s1 = "on_queue (RemoveFromNewQueue g) s"
    obtain v rest' s2 where v: "FindNewGroups env' [g] (currentQueueStore (run_queue ?s1)) ?s1 = (v, rest', s2)"
      by (metis prod_cases3)
    have "P s2" using keeps_FindNewGroups [OF keeps_take [OF 1(4)], of "[g]" "currentQueueStore (run_queue ?s1)" g] v 1(3) by simp
    then show ?thesis
      using 1(1) [OF Cons refl v [symmetric] refl refl _ 1(3)] 1(2) [OF Cons refl v [symmetric] refl refl _ 1(3)] keeps_put v Cons
      by (subst FindGroups.simps) (simp add: Let_def)
  qed
qed

end

lemma FindGroups_empties: "newToQueueStore (run_queue (snd (FindGroups env s n))) = []"
proof (induction env s n rule: FindGroups.induct)
  case (1 env s n)
  show ?case
  proof (cases "newToQueueStore (run_queue s)")
    case Nil
    then show ?thesis by (subst FindGroups.simps) simp
  next
    case (Cons g rest)
    let ?s1 = "on_queue (RemoveFromNewQueue g) s"
    obtain v rest' s2 where v: "FindNewGroups env [g] (currentQueueStore (run_queue ?s1)) ?s1 = (v, rest', s2)"
      by (metis prod_cases3)
    then show ?thesis
      using 1(1) [OF Cons refl v [symmetric] refl refl] 1(2) [OF Cons refl v [symmetric] refl refl] Cons
      by (subst FindGroups.simps) (simp add: Let_def)
  qed
qed

end
