(* ===== verification/LFG_Manager.thy ===== *)
theory LFG_Manager
  imports LFG_Search
begin

text \<open>
  The dungeon finder's manager, \<^verbatim>\<open>LFGMgr\<close> (src/Core/src/server/game/DungeonFinding/LFGMgr.cpp):
  role checks, the queues of the teams, proposals and votes to kick. Packets to players who are in
  the world, and what other components are told to do, are appended to \<open>m_events\<close> in the order of
  the code.
\<close>

section \<open>State\<close>

datatype lfg_role_check_state =
    LFG_ROLECHECK_DEFAULT | LFG_ROLECHECK_FINISHED | LFG_ROLECHECK_INITIALITING | LFG_ROLECHECK_MISSING_ROLE
  | LFG_ROLECHECK_WRONG_ROLES | LFG_ROLECHECK_ABORTED | LFG_ROLECHECK_NO_ROLE

record lfg_role_check =
  rc_cancelTime :: int
  rc_roles :: lfg_roles
  rc_state :: lfg_role_check_state
  rc_dungeons :: "uint32 list"
  rc_rDungeonId :: uint32
  rc_leader :: uint64

record lfg_player_boot =
  pb_cancelTime :: int
  pb_inProgress :: bool
  pb_votes :: "(uint64, lfg_answer) omap"
  pb_victim :: uint64
  pb_reason :: bytes

datatype lfg_join_result =
    LFG_JOIN_OK | LFG_JOIN_FAILED | LFG_JOIN_NOT_MEET_REQS | LFG_JOIN_PARTY_NOT_MEET_REQS | LFG_JOIN_MIXED_RAID_DUNGEON
  | LFG_JOIN_DISCONNECTED | LFG_JOIN_DUNGEON_INVALID | LFG_JOIN_DESERTER | LFG_JOIN_PARTY_DESERTER
  | LFG_JOIN_RANDOM_COOLDOWN | LFG_JOIN_PARTY_RANDOM_COOLDOWN | LFG_JOIN_TOO_MUCH_MEMBERS | LFG_JOIN_USING_BG_SYSTEM

type_synonym lfg_lock_map = "(uint32, uint32) omap"
type_synonym lfg_lock_party_map = "(uint64, lfg_lock_map) omap"

record lfg_join_data =
  jd_result :: lfg_join_result
  jd_state :: lfg_role_check_state
  jd_lockmap :: lfg_lock_party_map

datatype lfg_update_type =
    LFG_UPDATETYPE_DEFAULT | LFG_UPDATETYPE_LEADER_UNK1 | LFG_UPDATETYPE_JOIN_QUEUE | LFG_UPDATETYPE_ROLECHECK_FAILED
  | LFG_UPDATETYPE_REMOVED_FROM_QUEUE | LFG_UPDATETYPE_PROPOSAL_FAILED | LFG_UPDATETYPE_PROPOSAL_DECLINED
  | LFG_UPDATETYPE_GROUP_FOUND | LFG_UPDATETYPE_ADDED_TO_QUEUE | LFG_UPDATETYPE_PROPOSAL_BEGIN

record lfg_update_data =
  ud_updateType :: lfg_update_type
  ud_dungeons :: "uint32 list"
  ud_comment :: bytes

datatype lfg_event =
    SendRoleChosen uint64 uint64 uint8
  | SendRoleCheckUpdate uint64 lfg_role_check
  | SendUpdatePlayer uint64 lfg_update_data
  | SendUpdateParty uint64 lfg_update_data
  | SendJoinResult uint64 lfg_join_data
  | SendBootProposalUpdate uint64 lfg_player_boot
  | SendUpdateProposal uint64 lfg_proposal
  | SendQueueStatus uint64 lfg_queue_status
  | KickFromGroup uint64 uint64
  | CastDeserter uint64
  | TeleportOut uint64
  | SendOfferContinue uint64 uint32
  | QueryName uint64 uint64
  | CastLuckOfTheDraw uint64
  | RemoveLuckOfTheDraw uint64
  | TeleportHome uint64

record lfg_mgr = lfg_stores +
  QueuesStore :: "(uint8, lfg_queue) omap"
  RoleChecksStore :: "(uint64, lfg_role_check) omap"
  ProposalsStore :: "(uint32, lfg_proposal) omap"
  BootsStore :: "(uint64, lfg_player_boot) omap"
  m_lfgProposalId :: uint32
  m_QueueTimer :: uint32
  m_options :: uint32
  m_drawn :: nat
  m_events :: "lfg_event list"

text \<open>
  What the manager is told by other components: who is in the world, who ignores whom, the time, the
  random numbers, and whether a group with this GUID exists; \<open>me_MakeNewGroup\<close> and
  \<open>me_RemoveFromGroup\<close> stand for \<^verbatim>\<open>LFGMgr::MakeNewGroup\<close> and
  \<^verbatim>\<open>Player::RemoveFromGroup\<close>, which work on \<^verbatim>\<open>Group\<close> and \<^verbatim>\<open>Player\<close> and call back
  through the group's scripts.
\<close>

record mgr_env =
  me_inWorld :: "uint64 \<Rightarrow> bool"
  me_ignoring :: "uint64 \<Rightarrow> uint32 \<Rightarrow> bool"
  me_time :: int
  me_urand :: "nat \<Rightarrow> nat \<Rightarrow> nat \<Rightarrow> nat"
  me_groupExists :: "uint64 \<Rightarrow> bool"
  me_MakeNewGroup :: "lfg_proposal \<Rightarrow> lfg_mgr \<Rightarrow> lfg_mgr"
  me_RemoveFromGroup :: "uint64 \<Rightarrow> uint64 \<Rightarrow> lfg_mgr \<Rightarrow> lfg_mgr"

definition LFG_TIME_ROLECHECK :: int where "LFG_TIME_ROLECHECK = 45 * 1000"
definition LFG_TIME_BOOT :: int where "LFG_TIME_BOOT = 120"
definition LFG_QUEUEUPDATE_INTERVAL :: uint32 where "LFG_QUEUEUPDATE_INTERVAL = 15 * 1000"
definition LFG_OPTION_ENABLE_DUNGEON_FINDER :: uint32 where "LFG_OPTION_ENABLE_DUNGEON_FINDER = 0x01"
definition LFG_OPTION_ENABLE_RAID_BROWSER :: uint32 where "LFG_OPTION_ENABLE_RAID_BROWSER = 0x02"

section \<open>Access functions\<close>

definition lfg_isOptionEnabled :: "uint32 \<Rightarrow> lfg_mgr \<Rightarrow> bool" where
  "lfg_isOptionEnabled option s \<longleftrightarrow> m_options s AND option \<noteq> 0"

definition lfg_emit :: "lfg_event list \<Rightarrow> lfg_mgr \<Rightarrow> lfg_mgr" where
  "lfg_emit es s = s\<lparr>m_events := m_events s @ es\<rparr>"

definition to_player :: "mgr_env \<Rightarrow> uint64 \<Rightarrow> lfg_event \<Rightarrow> lfg_mgr \<Rightarrow> lfg_mgr" where
  "to_player env guid e s = (if me_inWorld env guid then lfg_emit [e] s else s)"

definition lfg_GetGroup :: "uint64 \<Rightarrow> lfg_mgr \<Rightarrow> uint64" where
  "lfg_GetGroup guid s = pd_Group (PlayersStore s guid)"

definition lfg_SetGroup :: "uint64 \<Rightarrow> uint64 \<Rightarrow> lfg_mgr \<Rightarrow> lfg_mgr" where
  "lfg_SetGroup guid gguid = upd_player guid (\<lambda>p. p\<lparr>pd_Group := gguid\<rparr>)"

definition lfg_SetRoles :: "uint64 \<Rightarrow> uint8 \<Rightarrow> lfg_mgr \<Rightarrow> lfg_mgr" where
  "lfg_SetRoles guid roles = upd_player guid (\<lambda>p. p\<lparr>pd_Roles := roles\<rparr>)"

definition lfg_SetComment :: "uint64 \<Rightarrow> bytes \<Rightarrow> lfg_mgr \<Rightarrow> lfg_mgr" where
  "lfg_SetComment guid comment = upd_player guid (\<lambda>p. p\<lparr>pd_Comment := comment\<rparr>)"

definition lfg_SetSelectedDungeons :: "uint64 \<Rightarrow> uint32 list \<Rightarrow> lfg_mgr \<Rightarrow> lfg_mgr" where
  "lfg_SetSelectedDungeons guid dungeons = upd_player guid (\<lambda>p. p\<lparr>pd_SelectedDungeons := dungeons\<rparr>)"

definition lfg_SetTeam :: "bool \<Rightarrow> uint64 \<Rightarrow> uint8 \<Rightarrow> lfg_mgr \<Rightarrow> lfg_mgr" where
  "lfg_SetTeam twoSide guid team = upd_player guid (\<lambda>p. p\<lparr>pd_Team := (if twoSide then 0 else team)\<rparr>)"

definition lfg_SetLeader :: "uint64 \<Rightarrow> uint64 \<Rightarrow> lfg_mgr \<Rightarrow> lfg_mgr" where
  "lfg_SetLeader gguid leader = upd_group gguid (\<lambda>g. g\<lparr>gd_Leader := leader\<rparr>)"

definition lfg_SetDungeon :: "uint64 \<Rightarrow> uint32 \<Rightarrow> lfg_mgr \<Rightarrow> lfg_mgr" where
  "lfg_SetDungeon gguid dungeon = upd_group gguid (\<lambda>g. g\<lparr>gd_Dungeon := dungeon\<rparr>)"

definition lfg_AddPlayerToGroup :: "uint64 \<Rightarrow> uint64 \<Rightarrow> lfg_mgr \<Rightarrow> lfg_mgr" where
  "lfg_AddPlayerToGroup gguid guid = upd_group gguid (gd_AddPlayer guid)"

definition lfg_RemovePlayerFromGroup :: "uint64 \<Rightarrow> uint64 \<Rightarrow> lfg_mgr \<Rightarrow> uint8 \<times> lfg_mgr" where
  "lfg_RemovePlayerFromGroup gguid guid s =
     (fst (gd_RemovePlayer guid (GroupsStore s gguid)), upd_group gguid (snd \<circ> gd_RemovePlayer guid) s)"

definition lfg_DecreaseKicksLeft :: "uint64 \<Rightarrow> lfg_mgr \<Rightarrow> lfg_mgr" where
  "lfg_DecreaseKicksLeft gguid = upd_group gguid gd_DecreaseKicksLeft"

definition lfg_GetPlayers :: "uint64 \<Rightarrow> lfg_mgr \<Rightarrow> uint64 list" where
  "lfg_GetPlayers gguid s = gd_Players (GroupsStore s gguid)"

definition lfg_RemovePlayerData :: "uint64 \<Rightarrow> lfg_mgr \<Rightarrow> lfg_mgr" where
  "lfg_RemovePlayerData guid = upd_player guid (\<lambda>_. pd_new)"

definition update_only :: "lfg_update_type \<Rightarrow> lfg_update_data" where
  "update_only t = \<lparr>ud_updateType = t, ud_dungeons = [], ud_comment = []\<rparr>"

text \<open>An absent group has no players, so that removing it changes nothing.\<close>

definition lfg_RemoveGroupData :: "mgr_env \<Rightarrow> uint64 \<Rightarrow> lfg_mgr \<Rightarrow> lfg_mgr" where
  "lfg_RemoveGroupData env guid s =
     (let state = lfg_GetState guid s;
          s1 = fold (\<lambda>p s.
            let s = lfg_SetGroup p 0 s
            in if state \<noteq> LFG_STATE_PROPOSAL
               then to_player env p (SendUpdateParty p (update_only LFG_UPDATETYPE_REMOVED_FROM_QUEUE)) (lfg_SetState p LFG_STATE_NONE s)
               else s) (lfg_GetPlayers guid s) s
      in upd_group guid (\<lambda>_. gd_new) s1)"

text \<open>The queue of the team of a player, or of the first player of a group\<close>

definition queue_id :: "uint64 \<Rightarrow> lfg_mgr \<Rightarrow> uint8" where
  "queue_id guid s =
     (if guid_IsGroup guid
      then (case lfg_GetPlayers guid s of [] \<Rightarrow> 0 | p # _ \<Rightarrow> if p \<noteq> 0 then pd_Team (PlayersStore s p) else 0)
      else pd_Team (PlayersStore s guid))"

definition queue_at :: "uint8 \<Rightarrow> lfg_mgr \<Rightarrow> lfg_queue" where
  "queue_at n s = (case om_find n (QueuesStore s) of Some q \<Rightarrow> q | None \<Rightarrow> queue_new)"

definition upd_queue :: "uint8 \<Rightarrow> (lfg_queue \<Rightarrow> lfg_queue) \<Rightarrow> lfg_mgr \<Rightarrow> lfg_mgr" where
  "upd_queue n f s = s\<lparr>QueuesStore := om_set n (f (queue_at n s)) (QueuesStore s)\<rparr>"

text \<open>Only an optional call is made.\<close>

definition when_do :: "bool \<Rightarrow> ('s \<Rightarrow> 's) \<Rightarrow> 's \<Rightarrow> 's" where
  "when_do b f s = (if b then f s else s)"

definition chosen_update :: "lfg_update_type \<Rightarrow> uint64 \<Rightarrow> lfg_mgr \<Rightarrow> lfg_update_data" where
  "chosen_update t guid s =
     \<lparr>ud_updateType = t, ud_dungeons = pd_SelectedDungeons (PlayersStore s guid), ud_comment = pd_Comment (PlayersStore s guid)\<rparr>"

section \<open>Role checks\<close>

definition answer_role :: "uint64 \<Rightarrow> uint8 \<Rightarrow> lfg_role_check \<Rightarrow> lfg_role_check" where
  "answer_role guid roles rc =
     (if guid = 0 then rc\<lparr>rc_state := LFG_ROLECHECK_ABORTED\<rparr>
      else if roles < PLAYER_ROLE_TANK then rc\<lparr>rc_state := LFG_ROLECHECK_NO_ROLE\<rparr>
      else
        let chosen = om_set guid roles (rc_roles rc)
        in if \<forall>e \<in> set chosen. snd e \<noteq> PLAYER_ROLE_NONE
           then rc\<lparr>rc_roles := chosen,
                   rc_state := (if fst (CheckGroupRoles True chosen) then LFG_ROLECHECK_FINISHED else LFG_ROLECHECK_WRONG_ROLES)\<rparr>
           else rc\<lparr>rc_roles := chosen\<rparr>)"

definition role_check_dungeons :: "lfg_role_check \<Rightarrow> uint32 list" where
  "role_check_dungeons rc = (if rc_rDungeonId rc \<noteq> 0 then [rc_rDungeonId rc] else rc_dungeons rc)"

definition role_check_member :: "mgr_env \<Rightarrow> lfg_role_check \<Rightarrow> bool \<Rightarrow> uint64 \<Rightarrow> uint8 \<Rightarrow> uint64 \<times> uint8 \<Rightarrow> lfg_mgr \<Rightarrow> lfg_mgr" where
  "role_check_member env rc sendRoleChosen guid roles e s =
     (let pguid = fst e;
          s1 = to_player env pguid (SendRoleCheckUpdate pguid rc)
                 (when_do sendRoleChosen (to_player env pguid (SendRoleChosen pguid guid roles)) s)
      in if rc_state rc = LFG_ROLECHECK_INITIALITING then s1
         else if rc_state rc = LFG_ROLECHECK_FINISHED
         then
           let s2 = lfg_SetRoles pguid (snd e) (lfg_SetState pguid LFG_STATE_QUEUED s1)
           in to_player env pguid (SendUpdateParty pguid \<lparr>ud_updateType = LFG_UPDATETYPE_ADDED_TO_QUEUE,
                ud_dungeons = role_check_dungeons rc, ud_comment = pd_Comment (PlayersStore s2 pguid)\<rparr>) s2
         else
           lfg_RestoreState pguid
             (to_player env pguid (SendUpdateParty pguid (update_only LFG_UPDATETYPE_ROLECHECK_FAILED))
               (when_do (rc_leader rc = pguid)
                 (to_player env pguid (SendJoinResult pguid \<lparr>jd_result = LFG_JOIN_FAILED, jd_state = rc_state rc, jd_lockmap = []\<rparr>)) s1)))"

definition UpdateRoleCheck :: "mgr_env \<Rightarrow> uint64 \<Rightarrow> uint64 \<Rightarrow> uint8 \<Rightarrow> lfg_mgr \<Rightarrow> lfg_mgr" where
  "UpdateRoleCheck env gguid guid roles s =
     (if gguid = 0 then s
      else case om_find gguid (RoleChecksStore s) of
        None \<Rightarrow> s
      | Some rc0 \<Rightarrow>
          let sendRoleChosen = (rc_state rc0 \<noteq> LFG_ROLECHECK_DEFAULT \<and> guid \<noteq> 0);
              rc = answer_role guid roles rc0;
              s1 = fold (role_check_member env rc sendRoleChosen guid roles) (rc_roles rc)
                     (s\<lparr>RoleChecksStore := om_set gguid rc (RoleChecksStore s)\<rparr>)
          in if rc_state rc = LFG_ROLECHECK_FINISHED
             then
               let s2 = lfg_SetState gguid LFG_STATE_QUEUED s1;
                   s3 = upd_queue (queue_id gguid s2) (AddQueueData gguid (me_time env) (rc_dungeons rc) (rc_roles rc)) s2
               in s3\<lparr>RoleChecksStore := om_erase gguid (RoleChecksStore s3)\<rparr>
             else if rc_state rc \<noteq> LFG_ROLECHECK_INITIALITING
             then (let s2 = lfg_RestoreState gguid s1 in s2\<lparr>RoleChecksStore := om_erase gguid (RoleChecksStore s2)\<rparr>)
             else s1)"

end
