(* ===== verification/LFG_Proposals.thy ===== *)
theory LFG_Proposals
  imports LFG_Manager
begin

text \<open>
  The operations of \<^verbatim>\<open>LFGMgr\<close> on proposals, votes to kick and the queues
  (src/Core/src/server/game/DungeonFinding/LFGMgr.cpp): an answer to a proposal, its removal, leaving,
  and the update of the world loop.
\<close>

section \<open>Proposals\<close>

definition has_denied :: "lfg_update_type \<Rightarrow> lfg_proposal_player \<Rightarrow> bool" where
  "has_denied type pp \<longleftrightarrow> pp_accept pp \<noteq> LFG_ANSWER_AGREE \<and> (pp_accept pp = LFG_ANSWER_DENY \<or> type = LFG_UPDATETYPE_PROPOSAL_FAILED)"

definition queue_guid :: "uint64 \<Rightarrow> lfg_proposal_player \<Rightarrow> uint64" where
  "queue_guid guid pp = (if pp_group pp \<noteq> 0 then pp_group pp else guid)"

text \<open>
  The marks of \<^verbatim>\<open>RemoveProposal\<close>: who has not answered has denied when the time is up, and who
  has denied is removed, with his group.
\<close>

definition close_proposal :: "lfg_update_type \<Rightarrow> lfg_proposal \<Rightarrow> lfg_proposal" where
  "close_proposal type p =
     (let failed = (type = LFG_UPDATETYPE_PROPOSAL_FAILED);
          ps = map (\<lambda>(g, pp). (g, if failed \<and> pp_accept pp = LFG_ANSWER_PENDING then pp\<lparr>pp_accept := LFG_ANSWER_DENY\<rparr> else pp)) (lp_players p)
      in p\<lparr>lp_state := LFG_PROPOSAL_FAILED,
           lp_players := map (\<lambda>(g, pp). (g, if has_denied type pp then pp\<lparr>pp_accept := LFG_ANSWER_DENY\<rparr> else pp)) ps\<rparr>)"

definition to_remove :: "lfg_update_type \<Rightarrow> lfg_proposal \<Rightarrow> uint64 list" where
  "to_remove type p = fold (\<lambda>(g, pp). when_do (has_denied type pp) (ss_insert (queue_guid g pp))) (lp_players p) []"

definition notify_removed :: "mgr_env \<Rightarrow> lfg_update_type \<Rightarrow> lfg_proposal \<Rightarrow> uint64 list \<Rightarrow> uint64 \<times> lfg_proposal_player \<Rightarrow> lfg_mgr \<Rightarrow> lfg_mgr" where
  "notify_removed env type p removed e s =
     (let guid = fst e; pp = snd e; gguid = queue_guid guid pp;
          s1 = to_player env guid (SendUpdateProposal guid p) s
      in if gguid \<in> set removed
         then
           let updateData = update_only (if pp_accept pp = LFG_ANSWER_DENY then type else LFG_UPDATETYPE_REMOVED_FROM_QUEUE);
               s2 = lfg_RestoreState guid s1
           in if gguid \<noteq> guid
              then to_player env guid (SendUpdateParty guid updateData) (lfg_RestoreState (pp_group pp) s2)
              else to_player env guid (SendUpdatePlayer guid updateData) s2
         else
           let s2 = lfg_SetState guid LFG_STATE_QUEUED s1
           in if gguid \<noteq> guid
              then (let s3 = lfg_SetState gguid LFG_STATE_QUEUED s2
                    in to_player env guid (SendUpdateParty guid (chosen_update LFG_UPDATETYPE_ADDED_TO_QUEUE guid s3)) s3)
              else to_player env guid (SendUpdatePlayer guid (chosen_update LFG_UPDATETYPE_ADDED_TO_QUEUE guid s2)) s2)"

text \<open>\<^verbatim>\<open>LFGMgr::RemoveProposal\<close>; a proposal has players, the first of which names the queue.\<close>

definition RemoveProposal :: "mgr_env \<Rightarrow> uint32 \<Rightarrow> lfg_update_type \<Rightarrow> lfg_mgr \<Rightarrow> lfg_mgr" where
  "RemoveProposal env proposalId type s =
     (case om_find proposalId (ProposalsStore s) of
        None \<Rightarrow> s
      | Some p0 \<Rightarrow>
          let p = close_proposal type p0;
              removed = to_remove type p;
              s1 = fold (notify_removed env type p removed) (lp_players p) s;
              n = queue_id (fst (hd (lp_players p))) s1;
              s2 = upd_queue n (fold RemoveFromQueue removed) s1;
              s3 = upd_queue n (fold AddToQueue (filter (\<lambda>g. g \<notin> set removed) (lp_queues p))) s2
          in s3\<lparr>ProposalsStore := om_erase proposalId (ProposalsStore s3)\<rparr>)"

text \<open>
  The whole seconds of a wait are divided by \<^verbatim>\<open>IN_MILLISECONDS\<close>, towards zero; the result
  is an \<^verbatim>\<open>int32\<close>.
\<close>

definition wait_time :: "int \<Rightarrow> int \<Rightarrow> int32" where
  "wait_time now joined = of_int (sgn (now - joined) * (\<bar>now - joined\<bar> div 1000))"

definition role_update_wait :: "uint8 \<Rightarrow> int32 \<Rightarrow> uint32 \<Rightarrow> lfg_queue \<Rightarrow> lfg_queue" where
  "role_update_wait role =
     (if role = PLAYER_ROLE_DAMAGE then UpdateWaitTimeDps
      else if role = PLAYER_ROLE_HEALER then UpdateWaitTimeHealer
      else if role = PLAYER_ROLE_TANK then UpdateWaitTimeTank
      else UpdateWaitTimeAvg)"

text \<open>
  One player of a proposal that all have accepted, with the \<^verbatim>\<open>updateType\<close> that the loop
  carries along; he has chosen a dungeon.
\<close>

definition settle_player :: "mgr_env \<Rightarrow> lfg_proposal \<Rightarrow> bool \<Rightarrow> uint8 \<Rightarrow> uint64 \<times> lfg_proposal_player \<Rightarrow> lfg_update_type \<times> lfg_mgr \<Rightarrow> lfg_update_type \<times> lfg_mgr" where
  "settle_player env p sendUpdate n e acc =
     (let (utype, s) = acc; pguid = fst e; gguid = pp_group (snd e);
          dungeonId = hd (pd_SelectedDungeons (PlayersStore s pguid));
          s1 = when_do sendUpdate (to_player env pguid (SendUpdateProposal pguid p)) s;
          (joined, q) = queue_GetJoinTime (if gguid \<noteq> 0 then gguid else pguid) (me_time env) (queue_at n s1);
          waitTime = wait_time (me_time env) joined;
          s2 = upd_queue n (\<lambda>_. q) s1;
          s3 = to_player env pguid ((if gguid \<noteq> 0 then SendUpdateParty else SendUpdatePlayer) pguid (update_only utype)) s2;
          removed = update_only LFG_UPDATETYPE_REMOVED_FROM_QUEUE;
          s4 = to_player env pguid (SendUpdateParty pguid removed) (to_player env pguid (SendUpdatePlayer pguid removed) s3);
          role = pd_Roles (PlayersStore s4 pguid) AND NOT PLAYER_ROLE_LEADER;
          s5 = upd_queue n (role_update_wait role waitTime dungeonId) s4
      in (LFG_UPDATETYPE_REMOVED_FROM_QUEUE, lfg_SetState pguid LFG_STATE_DUNGEON s5))"

definition complete_proposal :: "mgr_env \<Rightarrow> uint32 \<Rightarrow> uint64 \<Rightarrow> lfg_proposal \<Rightarrow> lfg_mgr \<Rightarrow> lfg_mgr" where
  "complete_proposal env proposalId guid p0 s =
     (let sendUpdate = (lp_state p0 \<noteq> LFG_PROPOSAL_SUCCESS);
          p = p0\<lparr>lp_state := LFG_PROPOSAL_SUCCESS\<rparr>;
          s0 = s\<lparr>ProposalsStore := om_set proposalId p (ProposalsStore s)\<rparr>;
          n = queue_id guid s0;
          (_, s1) = fold (settle_player env p sendUpdate n) (lp_players p) (LFG_UPDATETYPE_GROUP_FOUND, s0);
          s2 = upd_queue n (fold RemoveFromQueue (lp_queues p)) s1;
          s3 = me_MakeNewGroup env p s2
      in s3\<lparr>ProposalsStore := om_erase proposalId (ProposalsStore s3)\<rparr>)"

definition UpdateProposal :: "mgr_env \<Rightarrow> uint32 \<Rightarrow> uint64 \<Rightarrow> bool \<Rightarrow> lfg_mgr \<Rightarrow> lfg_mgr" where
  "UpdateProposal env proposalId guid accept s =
     (case om_find proposalId (ProposalsStore s) of
        None \<Rightarrow> s
      | Some p0 \<Rightarrow>
         (case om_find guid (lp_players p0) of
            None \<Rightarrow> s
          | Some pp \<Rightarrow>
              let p = p0\<lparr>lp_players := om_set guid (pp\<lparr>pp_accept := (if accept then LFG_ANSWER_AGREE else LFG_ANSWER_DENY)\<rparr>) (lp_players p0)\<rparr>;
                  s1 = s\<lparr>ProposalsStore := om_set proposalId p (ProposalsStore s)\<rparr>
              in if \<not> accept then RemoveProposal env proposalId LFG_UPDATETYPE_PROPOSAL_DECLINED s1
                 else if \<exists>e \<in> set (lp_players p). pp_accept (snd e) \<noteq> LFG_ANSWER_AGREE
                 then fold (\<lambda>(g, _). to_player env g (SendUpdateProposal g p)) (lp_players p) s1
                 else complete_proposal env proposalId guid p s1))"

section \<open>Votes to kick\<close>

definition InitBoot :: "mgr_env \<Rightarrow> uint64 \<Rightarrow> uint64 \<Rightarrow> uint64 \<Rightarrow> bytes \<Rightarrow> lfg_mgr \<Rightarrow> lfg_mgr" where
  "InitBoot env gguid kicker victim reason s =
     (let s1 = lfg_SetState gguid LFG_STATE_BOOT s;
          old = (case om_find gguid (BootsStore s1) of Some b \<Rightarrow> pb_votes b | None \<Rightarrow> []);
          players = lfg_GetPlayers gguid s1;
          votes = om_set kicker LFG_ANSWER_AGREE (om_set victim LFG_ANSWER_DENY (fold (\<lambda>g. om_set g LFG_ANSWER_PENDING) players old));
          boot = \<lparr>pb_cancelTime = me_time env + LFG_TIME_BOOT, pb_inProgress = True, pb_votes = votes, pb_victim = victim, pb_reason = reason\<rparr>;
          s2 = fold (\<lambda>g. lfg_SetState g LFG_STATE_BOOT) players s1;
          s3 = s2\<lparr>BootsStore := om_set gguid boot (BootsStore s2)\<rparr>
      in fold (\<lambda>g. to_player env g (SendBootProposalUpdate g boot)) players s3)"

definition votes_num :: "(uint64, lfg_answer) omap \<Rightarrow> uint8" where
  "votes_num votes = of_nat (length (filter (\<lambda>e. snd e \<noteq> LFG_ANSWER_PENDING) votes))"

definition agree_num :: "(uint64, lfg_answer) omap \<Rightarrow> uint8" where
  "agree_num votes = of_nat (length (filter (\<lambda>e. snd e = LFG_ANSWER_AGREE) votes))"

text \<open>
  The comparison of what is not agreed is made in \<^verbatim>\<open>int\<close>. The vote of someone who is not in the
  map is made by \<^verbatim>\<open>operator[]\<close>, with the value 0, which is \<^verbatim>\<open>LFG_ANSWER_DENY\<close>.
\<close>

definition end_boot :: "mgr_env \<Rightarrow> uint64 \<Rightarrow> lfg_player_boot \<Rightarrow> lfg_mgr \<Rightarrow> lfg_mgr" where
  "end_boot env gguid boot s =
     (let agreeNum = agree_num (pb_votes boot);
          boot' = boot\<lparr>pb_inProgress := False\<rparr>;
          s1 = fold (\<lambda>(g, _). when_do (g \<noteq> pb_victim boot)
                 (\<lambda>s. to_player env g (SendBootProposalUpdate g boot') (lfg_SetState g LFG_STATE_DUNGEON s))) (pb_votes boot) s;
          s2 = lfg_SetState gguid LFG_STATE_DUNGEON s1;
          s3 = when_do (agreeNum = of_nat LFG_GROUP_KICK_VOTES_NEEDED)
                 (\<lambda>s. lfg_DecreaseKicksLeft gguid (when_do (me_groupExists env gguid)
                   (\<lambda>s. me_RemoveFromGroup env gguid (pb_victim boot) (lfg_emit [KickFromGroup gguid (pb_victim boot)] s)) s)) s2
      in s3\<lparr>BootsStore := om_erase gguid (BootsStore s3)\<rparr>)"

definition UpdateBoot :: "mgr_env \<Rightarrow> uint64 \<Rightarrow> bool \<Rightarrow> lfg_mgr \<Rightarrow> lfg_mgr" where
  "UpdateBoot env guid accept s =
     (let gguid = lfg_GetGroup guid s
      in if gguid = 0 then s
         else case om_find gguid (BootsStore s) of
           None \<Rightarrow> s
         | Some boot0 \<Rightarrow>
             (case om_find guid (pb_votes boot0) of
                None \<Rightarrow> s\<lparr>BootsStore := om_set gguid (boot0\<lparr>pb_votes := om_set guid LFG_ANSWER_DENY (pb_votes boot0)\<rparr>) (BootsStore s)\<rparr>
              | Some vote \<Rightarrow>
                  if vote \<noteq> LFG_ANSWER_PENDING then s
                  else
                    let boot = boot0\<lparr>pb_votes := om_set guid (if accept then LFG_ANSWER_AGREE else LFG_ANSWER_DENY) (pb_votes boot0)\<rparr>;
                        s1 = s\<lparr>BootsStore := om_set gguid boot (BootsStore s)\<rparr>
                    in if agree_num (pb_votes boot) < of_nat LFG_GROUP_KICK_VOTES_NEEDED
                          \<and> int (unat (votes_num (pb_votes boot))) - int (unat (agree_num (pb_votes boot))) < int LFG_GROUP_KICK_VOTES_NEEDED
                       then s1 else end_boot env gguid boot s1))"

section \<open>Leaving\<close>

definition deny_in_first :: "uint64 \<Rightarrow> (uint32, lfg_proposal) omap \<Rightarrow> (uint32 \<times> lfg_proposal) option" where
  "deny_in_first pguid ps =
     (case filter (\<lambda>e. om_find pguid (lp_players (snd e)) \<noteq> None) ps of
        [] \<Rightarrow> None
      | (i, p) # _ \<Rightarrow>
          Some (i, p\<lparr>lp_players := om_set pguid ((the (om_find pguid (lp_players p)))\<lparr>pp_accept := LFG_ANSWER_DENY\<rparr>) (lp_players p)\<rparr>))"

definition LeaveLfg :: "mgr_env \<Rightarrow> uint64 \<Rightarrow> lfg_mgr \<Rightarrow> lfg_mgr" where
  "LeaveLfg env guid s =
     (let gguid = (if guid_IsGroup guid then guid else lfg_GetGroup guid s)
      in case lfg_GetState guid s of
           LFG_STATE_QUEUED \<Rightarrow>
             if gguid \<noteq> 0
             then
               let s1 = lfg_SetState gguid LFG_STATE_NONE (upd_queue (queue_id gguid s) (RemoveFromQueue gguid) s)
               in fold (\<lambda>p s. to_player env p (SendUpdateParty p (update_only LFG_UPDATETYPE_REMOVED_FROM_QUEUE)) (lfg_SetState p LFG_STATE_NONE s))
                    (lfg_GetPlayers gguid s1) s1
             else lfg_SetState guid LFG_STATE_NONE
                    (to_player env guid (SendUpdatePlayer guid (update_only LFG_UPDATETYPE_REMOVED_FROM_QUEUE))
                      (upd_queue (queue_id guid s) (RemoveFromQueue guid) s))
         | LFG_STATE_ROLECHECK \<Rightarrow> when_do (gguid \<noteq> 0) (UpdateRoleCheck env gguid 0 PLAYER_ROLE_NONE) s
         | LFG_STATE_PROPOSAL \<Rightarrow>
             (case deny_in_first (if gguid = guid then gd_Leader (GroupsStore s gguid) else guid) (ProposalsStore s) of
                None \<Rightarrow> s
              | Some (i, p) \<Rightarrow>
                  RemoveProposal env i LFG_UPDATETYPE_PROPOSAL_DECLINED (s\<lparr>ProposalsStore := om_set i p (ProposalsStore s)\<rparr>))
         | LFG_STATE_NONE \<Rightarrow> s
         | LFG_STATE_RAIDBROWSER \<Rightarrow> s
         | _ \<Rightarrow> when_do (guid \<noteq> gguid) (lfg_SetState guid LFG_STATE_NONE) s)"

section \<open>The update of the world loop\<close>

definition expire_role_check :: "mgr_env \<Rightarrow> uint64 \<times> lfg_role_check \<Rightarrow> lfg_mgr \<Rightarrow> lfg_mgr" where
  "expire_role_check env e s =
     (if me_time env < rc_cancelTime (snd e) then s
      else
        let rc = (snd e)\<lparr>rc_state := LFG_ROLECHECK_MISSING_ROLE\<rparr>;
            s1 = fold (\<lambda>(g, _) s.
                   when_do (g = rc_leader rc)
                     (to_player env g (SendJoinResult g \<lparr>jd_result = LFG_JOIN_FAILED, jd_state = LFG_ROLECHECK_MISSING_ROLE, jd_lockmap = []\<rparr>))
                     (to_player env g (SendRoleCheckUpdate g rc) (lfg_RestoreState g s))) (rc_roles rc) s;
            s2 = lfg_RestoreState (fst e) s1
        in s2\<lparr>RoleChecksStore := om_erase (fst e) (RoleChecksStore s2)\<rparr>)"

definition expire_proposal :: "mgr_env \<Rightarrow> uint32 \<times> lfg_proposal \<Rightarrow> lfg_mgr \<Rightarrow> lfg_mgr" where
  "expire_proposal env e = when_do (lp_cancelTime (snd e) < me_time env) (RemoveProposal env (fst e) LFG_UPDATETYPE_PROPOSAL_FAILED)"

definition expire_boot :: "mgr_env \<Rightarrow> uint64 \<times> lfg_player_boot \<Rightarrow> lfg_mgr \<Rightarrow> lfg_mgr" where
  "expire_boot env e s =
     (if pb_cancelTime (snd e) < me_time env
      then
        let boot = (snd e)\<lparr>pb_inProgress := False\<rparr>;
            s1 = fold (\<lambda>(g, _) s. lfg_SetState g LFG_STATE_DUNGEON
                   (when_do (g \<noteq> pb_victim boot) (to_player env g (SendBootProposalUpdate g boot)) s)) (pb_votes boot) s;
            s2 = lfg_SetState (fst e) LFG_STATE_DUNGEON s1
        in s2\<lparr>BootsStore := om_erase (fst e) (BootsStore s2)\<rparr>
      else s)"

text \<open>The search in a queue, with what it reads of the manager and what it gives back\<close>

definition search_env :: "mgr_env \<Rightarrow> lfg_mgr \<Rightarrow> lfg_env" where
  "search_env env s = \<lparr>PlayersStore = PlayersStore s, GroupsStore = GroupsStore s, le_inWorld = me_inWorld env,
     le_ignoring = me_ignoring env, le_time = me_time env, le_urand = me_urand env\<rparr>"

definition search_queue :: "mgr_env \<Rightarrow> uint8 \<Rightarrow> lfg_mgr \<Rightarrow> lfg_mgr" where
  "search_queue env n s =
     (let r = snd (FindGroups (search_env env s)
                \<lparr>run_queue = queue_at n s, run_proposals = ProposalsStore s, run_id = m_lfgProposalId s, run_drawn = m_drawn s\<rparr> 0)
      in s\<lparr>QueuesStore := om_set n (run_queue r) (QueuesStore s), ProposalsStore := run_proposals r,
           m_lfgProposalId := run_id r, m_drawn := run_drawn r\<rparr>)"

text \<open>
  The proposals from the one with the latest number on are announced; \<^verbatim>\<open>guid\<close> is the last of the
  players after the loop.
\<close>

definition announce_player :: "mgr_env \<Rightarrow> lfg_proposal \<Rightarrow> uint64 \<Rightarrow> lfg_mgr \<Rightarrow> lfg_mgr" where
  "announce_player env p guid s =
     (let s1 = lfg_SetState guid LFG_STATE_PROPOSAL s; gguid = lfg_GetGroup guid s1
      in to_player env guid (SendUpdateProposal guid p)
          (if gguid \<noteq> 0
           then (let s2 = lfg_SetState gguid LFG_STATE_PROPOSAL s1
                 in to_player env guid (SendUpdateParty guid (chosen_update LFG_UPDATETYPE_PROPOSAL_BEGIN guid s2)) s2)
           else to_player env guid (SendUpdatePlayer guid (chosen_update LFG_UPDATETYPE_PROPOSAL_BEGIN guid s1)) s1))"

definition announce_proposal :: "mgr_env \<Rightarrow> uint32 \<times> lfg_proposal \<Rightarrow> lfg_mgr \<Rightarrow> lfg_mgr" where
  "announce_proposal env e s =
     (let p = snd e; guids = map fst (lp_players p);
          s1 = fold (announce_player env p) guids s
      in when_do (lp_state p = LFG_PROPOSAL_SUCCESS) (UpdateProposal env (fst e) (if guids = [] then 0 else last guids) True) s1)"

definition status_queue :: "mgr_env \<Rightarrow> uint8 \<Rightarrow> lfg_mgr \<Rightarrow> lfg_mgr" where
  "status_queue env n s =
     (let (es, q) = UpdateQueueTimers (me_time env) (queue_at n s)
      in fold (\<lambda>(g, st). to_player env g (SendQueueStatus g st)) es (s\<lparr>QueuesStore := om_set n q (QueuesStore s)\<rparr>))"

text \<open>The phases of \<^verbatim>\<open>LFGMgr::Update\<close>\<close>

definition expire_all :: "mgr_env \<Rightarrow> lfg_mgr \<Rightarrow> lfg_mgr" where
  "expire_all env s =
     (let s1 = fold (expire_role_check env) (RoleChecksStore s) s;
          s2 = fold (expire_proposal env) (ProposalsStore s1) s1
      in fold (expire_boot env) (BootsStore s2) s2)"

definition search_all :: "mgr_env \<Rightarrow> lfg_mgr \<Rightarrow> lfg_mgr" where
  "search_all env s = fold (search_queue env) (map fst (QueuesStore s)) s"

definition announce_new :: "mgr_env \<Rightarrow> uint32 \<Rightarrow> lfg_mgr \<Rightarrow> lfg_mgr" where
  "announce_new env lastProposalId s =
     (if lastProposalId \<noteq> m_lfgProposalId s
      then fold (announce_proposal env) (dropWhile (\<lambda>e. fst e \<noteq> m_lfgProposalId s) (ProposalsStore s)) s
      else s)"

definition lfg_Update :: "mgr_env \<Rightarrow> uint32 \<Rightarrow> lfg_mgr \<Rightarrow> lfg_mgr" where
  "lfg_Update env diff s =
     (if \<not> lfg_isOptionEnabled (LFG_OPTION_ENABLE_DUNGEON_FINDER OR LFG_OPTION_ENABLE_RAID_BROWSER) s then s
      else
        let s3 = expire_all env s;
            s5 = announce_new env (m_lfgProposalId s3) (search_all env s3)
        in if m_QueueTimer s5 > LFG_QUEUEUPDATE_INTERVAL
           then fold (status_queue env) (map fst (QueuesStore s5)) (s5\<lparr>m_QueueTimer := 0\<rparr>)
           else s5\<lparr>m_QueueTimer := m_QueueTimer s5 + diff\<rparr>)"

end
