(* ===== verification/LFG_Join.thy ===== *)
theory LFG_Join
  imports LFG_Proposals
begin

text \<open>
  Joining the dungeon finder (src/Core/src/server/game/DungeonFinding/LFGMgr.cpp:
  \<^verbatim>\<open>GetLockedDungeons\<close>, \<^verbatim>\<open>GetCompatibleDungeons\<close>, \<^verbatim>\<open>JoinLfg\<close>, and the
  functions on the dungeon data they use), and the scripts that tell the finder what happens to
  groups and players (LFGScripts.cpp).
\<close>

section \<open>Dungeons\<close>

record dungeon_data =
  dd_id :: uint32
  dd_map :: uint16
  dd_type :: uint8
  dd_expansion :: uint8
  dd_group :: uint8
  dd_minlevel :: uint8
  dd_maxlevel :: uint8
  dd_difficulty :: uint8
  dd_seasonal :: bool

definition LFG_TYPE_NONE :: uint8 where "LFG_TYPE_NONE = 0"
definition LFG_TYPE_DUNGEON :: uint8 where "LFG_TYPE_DUNGEON = 1"
definition LFG_TYPE_RAID :: uint8 where "LFG_TYPE_RAID = 2"
definition LFG_TYPE_HEROIC :: uint8 where "LFG_TYPE_HEROIC = 5"
definition LFG_TYPE_RANDOM :: uint8 where "LFG_TYPE_RANDOM = 6"

definition dd_Entry :: "dungeon_data \<Rightarrow> uint32" where
  "dd_Entry d = dd_id d + push_bit 24 (ucast (dd_type d))"

record access_requirement =
  ar_item_level :: uint16
  ar_achievement :: uint32
  ar_quest_A :: uint32
  ar_quest_H :: uint32
  ar_item :: uint32
  ar_item2 :: uint32

text \<open>What the world knows: the dungeons, the cached sets of random dungeons, the requirements and the holidays\<close>

record dungeon_env =
  de_dungeons :: "uint32 \<Rightarrow> dungeon_data option"
  de_cached :: "uint32 \<Rightarrow> uint32 list"
  de_requirement :: "uint16 \<Rightarrow> uint8 \<Rightarrow> access_requirement option"
  de_holiday :: "uint32 \<Rightarrow> bool"

text \<open>The holiday of a seasonal dungeon is named by its dungeon here.\<close>

definition IsSeasonActive :: "dungeon_env \<Rightarrow> uint32 \<Rightarrow> bool" where
  "IsSeasonActive de dungeonId \<longleftrightarrow> dungeonId \<in> {285, 286, 287, 288} \<and> de_holiday de dungeonId"

definition GetDungeonType :: "dungeon_env \<Rightarrow> uint32 \<Rightarrow> uint8" where
  "GetDungeonType de dungeonId = (case de_dungeons de dungeonId of None \<Rightarrow> LFG_TYPE_NONE | Some d \<Rightarrow> dd_type d)"

definition GetDungeonsByRandom :: "dungeon_env \<Rightarrow> uint32 \<Rightarrow> uint32 list" where
  "GetDungeonsByRandom de random = de_cached de (case de_dungeons de random of None \<Rightarrow> 0 | Some d \<Rightarrow> ucast (dd_group d))"

section \<open>Locked dungeons\<close>

definition LFG_LOCKSTATUS_INSUFFICIENT_EXPANSION :: uint32 where "LFG_LOCKSTATUS_INSUFFICIENT_EXPANSION = 1"
definition LFG_LOCKSTATUS_TOO_LOW_LEVEL :: uint32 where "LFG_LOCKSTATUS_TOO_LOW_LEVEL = 2"
definition LFG_LOCKSTATUS_TOO_HIGH_LEVEL :: uint32 where "LFG_LOCKSTATUS_TOO_HIGH_LEVEL = 3"
definition LFG_LOCKSTATUS_TOO_LOW_GEAR_SCORE :: uint32 where "LFG_LOCKSTATUS_TOO_LOW_GEAR_SCORE = 4"
definition LFG_LOCKSTATUS_RAID_LOCKED :: uint32 where "LFG_LOCKSTATUS_RAID_LOCKED = 6"
definition LFG_LOCKSTATUS_QUEST_NOT_COMPLETED :: uint32 where "LFG_LOCKSTATUS_QUEST_NOT_COMPLETED = 1022"
definition LFG_LOCKSTATUS_MISSING_ITEM :: uint32 where "LFG_LOCKSTATUS_MISSING_ITEM = 1025"
definition LFG_LOCKSTATUS_NOT_IN_SEASON :: uint32 where "LFG_LOCKSTATUS_NOT_IN_SEASON = 1031"
definition LFG_LOCKSTATUS_MISSING_ACHIEVEMENT :: uint32 where "LFG_LOCKSTATUS_MISSING_ACHIEVEMENT = 1034"

datatype player_team = ALLIANCE | HORDE

text \<open>A player in the world, as far as the finder asks, with the whole part of his average item level\<close>

record lock_player =
  lk_level :: uint8
  lk_expansion :: uint8
  lk_permission :: bool
  lk_disabled :: "uint16 \<Rightarrow> bool"
  lk_bound :: "uint16 \<Rightarrow> uint8 \<Rightarrow> bool"
  lk_itemLevel :: int
  lk_achieved :: "uint32 \<Rightarrow> bool"
  lk_quest :: "uint32 \<Rightarrow> bool"
  lk_item :: "uint32 \<Rightarrow> bool"
  lk_team :: player_team

definition lock_requirement :: "lock_player \<Rightarrow> access_requirement \<Rightarrow> uint32" where
  "lock_requirement pl ar =
     (if ar_item_level ar \<noteq> 0 \<and> lk_itemLevel pl < int (unat (ar_item_level ar)) then LFG_LOCKSTATUS_TOO_LOW_GEAR_SCORE
      else if ar_achievement ar \<noteq> 0 \<and> \<not> lk_achieved pl (ar_achievement ar) then LFG_LOCKSTATUS_MISSING_ACHIEVEMENT
      else if lk_team pl = ALLIANCE \<and> ar_quest_A ar \<noteq> 0 \<and> \<not> lk_quest pl (ar_quest_A ar) then LFG_LOCKSTATUS_QUEST_NOT_COMPLETED
      else if lk_team pl = HORDE \<and> ar_quest_H ar \<noteq> 0 \<and> \<not> lk_quest pl (ar_quest_H ar) then LFG_LOCKSTATUS_QUEST_NOT_COMPLETED
      else if ar_item ar \<noteq> 0
      then (if \<not> lk_item pl (ar_item ar) \<and> (ar_item2 ar = 0 \<or> \<not> lk_item pl (ar_item2 ar)) then LFG_LOCKSTATUS_MISSING_ITEM else 0)
      else if ar_item2 ar \<noteq> 0 \<and> \<not> lk_item pl (ar_item2 ar) then LFG_LOCKSTATUS_MISSING_ITEM else 0)"

definition lock_data :: "dungeon_env \<Rightarrow> lock_player \<Rightarrow> dungeon_data \<Rightarrow> uint32" where
  "lock_data de pl d =
     (if \<not> lk_permission pl then LFG_LOCKSTATUS_RAID_LOCKED
      else if dd_expansion d > lk_expansion pl then LFG_LOCKSTATUS_INSUFFICIENT_EXPANSION
      else if lk_disabled pl (dd_map d) then LFG_LOCKSTATUS_RAID_LOCKED
      else if dd_difficulty d > 0 \<and> lk_bound pl (dd_map d) (dd_difficulty d) then LFG_LOCKSTATUS_RAID_LOCKED
      else if dd_minlevel d > lk_level pl then LFG_LOCKSTATUS_TOO_LOW_LEVEL
      else if dd_maxlevel d < lk_level pl then LFG_LOCKSTATUS_TOO_HIGH_LEVEL
      else if dd_seasonal d \<and> \<not> IsSeasonActive de (dd_id d) then LFG_LOCKSTATUS_NOT_IN_SEASON
      else case de_requirement de (dd_map d) (dd_difficulty d) of None \<Rightarrow> 0 | Some ar \<Rightarrow> lock_requirement pl ar)"

definition GetLockedDungeons :: "dungeon_env \<Rightarrow> lock_player option \<Rightarrow> lfg_lock_map" where
  "GetLockedDungeons de player =
     (case player of
        None \<Rightarrow> []
      | Some pl \<Rightarrow>
          fold (\<lambda>i lock. case de_dungeons de i of
                  None \<Rightarrow> lock
                | Some d \<Rightarrow> if lock_data de pl d \<noteq> 0 then om_set (dd_Entry d) (lock_data de pl d) lock else lock)
            (GetDungeonsByRandom de 0) [])"

text \<open>
  \<^verbatim>\<open>GetCompatibleDungeons\<close>: both loops stop when no dungeon is left.
\<close>

definition lock_one :: "uint64 \<Rightarrow> uint32 \<times> uint32 \<Rightarrow> uint32 list \<times> lfg_lock_party_map \<Rightarrow> uint32 list \<times> lfg_lock_party_map" where
  "lock_one guid e acc =
     (let (dungeons, lockMap) = acc; dungeonId = fst e AND 0x00FFFFFF
      in if dungeons = [] then acc
         else if dungeonId \<in> set dungeons
         then (ss_erase dungeonId dungeons,
               om_set guid (om_set dungeonId (snd e) (case om_find guid lockMap of Some m \<Rightarrow> m | None \<Rightarrow> [])) lockMap)
         else acc)"

definition GetCompatibleDungeons :: "(uint64 \<Rightarrow> lfg_lock_map) \<Rightarrow> uint64 list \<Rightarrow> uint32 list \<Rightarrow> uint32 list \<times> lfg_lock_party_map" where
  "GetCompatibleDungeons locked players dungeons =
     (let (ds, lockMap) = fold (\<lambda>guid acc. if fst acc = [] then acc else fold (lock_one guid) (locked guid) acc) players (dungeons, [])
      in (ds, if ds \<noteq> [] then [] else lockMap))"

section \<open>Joining\<close>

text \<open>The player who asks, or a member of his group: \<open>None\<close> where the member is not in the world\<close>

record join_member =
  jm_guid :: uint64
  jm_permission :: bool
  jm_battleground :: bool
  jm_deserter :: bool
  jm_cooldown :: bool

record join_group =
  jg_guid :: uint64
  jg_isLFG :: bool
  jg_membersCount :: nat
  jg_members :: "join_member option list"

definition member_result :: "join_member \<Rightarrow> lfg_join_result \<Rightarrow> lfg_join_result" where
  "member_result m r =
     (let r1 = (if \<not> jm_permission m then LFG_JOIN_PARTY_NOT_MEET_REQS else r)
      in if jm_deserter m then LFG_JOIN_PARTY_DESERTER
         else if jm_cooldown m then LFG_JOIN_PARTY_RANDOM_COOLDOWN
         else if jm_battleground m then LFG_JOIN_USING_BG_SYSTEM
         else r1)"

text \<open>The loop over the members ends with the first who may not join.\<close>

fun check_members :: "join_member option list \<Rightarrow> lfg_join_result \<Rightarrow> uint8 \<Rightarrow> uint64 list \<Rightarrow> lfg_join_result \<times> uint8 \<times> uint64 list" where
  "check_members [] r n players = (r, n, players)"
| "check_members (m # ms) r n players =
     (if r \<noteq> LFG_JOIN_OK then (r, n, players)
      else case m of
        None \<Rightarrow> check_members ms r n players
      | Some p \<Rightarrow> check_members ms (member_result p r) (n + 1) (ss_insert (jm_guid p) players))"

definition join_restrictions :: "join_member \<Rightarrow> join_group option \<Rightarrow> uint32 list \<Rightarrow> lfg_join_result \<times> uint64 list" where
  "join_restrictions player grp dungeons =
     (if \<not> jm_permission player then (LFG_JOIN_NOT_MEET_REQS, [])
      else if jm_battleground player then (LFG_JOIN_USING_BG_SYSTEM, [])
      else if jm_deserter player then (LFG_JOIN_DESERTER, [])
      else if jm_cooldown player then (LFG_JOIN_RANDOM_COOLDOWN, [])
      else if dungeons = [] then (LFG_JOIN_NOT_MEET_REQS, [])
      else case grp of
        None \<Rightarrow> (LFG_JOIN_OK, [jm_guid player])
      | Some g \<Rightarrow>
          if jg_membersCount g > MAXGROUPSIZE then (LFG_JOIN_TOO_MUCH_MEMBERS, [])
          else
            let (r, n, players) = check_members (jg_members g) LFG_JOIN_OK 0 []
            in (if r = LFG_JOIN_OK \<and> unat n \<noteq> jg_membersCount g then LFG_JOIN_DISCONNECTED else r, players))"

text \<open>The kinds of the chosen dungeons; a random dungeon counts as a dungeon as well.\<close>

record dungeon_kinds =
  dk_result :: lfg_join_result
  dk_isRaid :: bool
  dk_isDungeon :: bool
  dk_random :: uint32

fun check_kinds :: "dungeon_env \<Rightarrow> nat \<Rightarrow> uint32 \<Rightarrow> uint32 list \<Rightarrow> dungeon_kinds \<Rightarrow> dungeon_kinds" where
  "check_kinds de n first [] k = k"
| "check_kinds de n first (d # ds) k =
     (if dk_result k \<noteq> LFG_JOIN_OK then k
      else
        let type = GetDungeonType de d;
            k1 = (if type = LFG_TYPE_RANDOM
                  then (if n > 1 then k\<lparr>dk_result := LFG_JOIN_DUNGEON_INVALID\<rparr> else k\<lparr>dk_random := first\<rparr>) else k);
            k2 = (if type = LFG_TYPE_RANDOM \<or> type = LFG_TYPE_HEROIC \<or> type = LFG_TYPE_DUNGEON
                  then (if dk_isRaid k1 then k1\<lparr>dk_result := LFG_JOIN_MIXED_RAID_DUNGEON, dk_isDungeon := True\<rparr> else k1\<lparr>dk_isDungeon := True\<rparr>)
                  else if type = LFG_TYPE_RAID
                  then (if dk_isDungeon k1 then k1\<lparr>dk_result := LFG_JOIN_MIXED_RAID_DUNGEON, dk_isRaid := True\<rparr> else k1\<lparr>dk_isRaid := True\<rparr>)
                  else k1\<lparr>dk_result := LFG_JOIN_DUNGEON_INVALID\<rparr>)
        in check_kinds de n first ds k2)"

text \<open>
  Everything \<^verbatim>\<open>JoinLfg\<close> decides before it changes the stores: the answer, the dungeons with the
  random one expanded, the random dungeon and whether it is the raid browser that is asked for.
\<close>

definition join_decision :: "dungeon_env \<Rightarrow> (uint64 \<Rightarrow> lfg_lock_map) \<Rightarrow> join_member \<Rightarrow> join_group option \<Rightarrow> uint32 list \<Rightarrow>
    lfg_join_result \<times> uint32 list \<times> uint32 \<times> bool \<times> lfg_lock_party_map" where
  "join_decision de locked player grp dungeons =
     (let (r, players) = join_restrictions player grp dungeons
      in if r \<noteq> LFG_JOIN_OK then (r, dungeons, 0, False, [])
         else
           let k = check_kinds de (length dungeons) (hd dungeons) dungeons
                     \<lparr>dk_result = LFG_JOIN_OK, dk_isRaid = False, dk_isDungeon = False, dk_random = 0\<rparr>
           in if dk_result k \<noteq> LFG_JOIN_OK then (dk_result k, dungeons, dk_random k, dk_isRaid k, [])
              else
                let (ds, lockmap) = GetCompatibleDungeons locked players
                      (if dk_random k \<noteq> 0 then GetDungeonsByRandom de (dk_random k) else dungeons)
                in (if ds = [] then (if grp = None then LFG_JOIN_NOT_MEET_REQS else LFG_JOIN_PARTY_NOT_MEET_REQS) else LFG_JOIN_OK,
                    ds, dk_random k, dk_isRaid k, lockmap))"

definition begin_role_check :: "mgr_env \<Rightarrow> uint64 \<Rightarrow> uint64 \<Rightarrow> uint32 list \<Rightarrow> uint32 \<Rightarrow> bool \<Rightarrow> bytes \<Rightarrow> join_member option list \<Rightarrow> lfg_mgr \<Rightarrow> lfg_mgr" where
  "begin_role_check env gguid leader ds rDungeonId isContinue comment members s =
     (let shown = (if rDungeonId \<noteq> 0 then [rDungeonId] else ds);
          old = (case om_find gguid (RoleChecksStore s) of Some rc \<Rightarrow> rc_roles rc | None \<Rightarrow> []);
          guids = map jm_guid (List.map_filter id members);
          s1 = lfg_SetState gguid LFG_STATE_ROLECHECK s;
          s2 = fold (\<lambda>g s.
                 when_do (\<not> isContinue) (lfg_SetSelectedDungeons g shown)
                   (lfg_SetState g LFG_STATE_ROLECHECK
                     (lfg_emit [SendUpdateParty g \<lparr>ud_updateType = LFG_UPDATETYPE_JOIN_QUEUE, ud_dungeons = shown, ud_comment = comment\<rparr>] s))) guids s1;
          rc = \<lparr>rc_cancelTime = me_time env + LFG_TIME_ROLECHECK, rc_roles = fold (\<lambda>g. om_set g 0) guids old,
                rc_state = LFG_ROLECHECK_INITIALITING, rc_dungeons = ds, rc_rDungeonId = rDungeonId, rc_leader = leader\<rparr>
      in s2\<lparr>RoleChecksStore := om_set gguid rc (RoleChecksStore s2)\<rparr>)"

definition JoinLfg :: "mgr_env \<Rightarrow> dungeon_env \<Rightarrow> (uint64 \<Rightarrow> lfg_lock_map) \<Rightarrow> join_member \<Rightarrow> join_group option \<Rightarrow> uint8 \<Rightarrow> uint32 list \<Rightarrow> bytes \<Rightarrow> lfg_mgr \<Rightarrow> lfg_mgr" where
  "JoinLfg env de locked player grp roles dungeons0 comment s =
     (if dungeons0 = [] then s
      else
        let guid = jm_guid player;
            gguid = (case grp of Some g \<Rightarrow> jg_guid g | None \<Rightarrow> guid);
            isContinue = (case grp of Some g \<Rightarrow> jg_isLFG g \<and> lfg_GetState gguid s \<noteq> LFG_STATE_FINISHED_DUNGEON | None \<Rightarrow> False);
            dungeons = (if isContinue then [gd_GetDungeon True (GroupsStore s gguid)] else dungeons0);
            s1 = when_do (lfg_GetState gguid s = LFG_STATE_QUEUED) (upd_queue (queue_id gguid s) (RemoveFromQueue gguid)) s;
            (r, ds, rDungeonId, isRaid, lockmap) = join_decision de locked player grp dungeons
        in if r \<noteq> LFG_JOIN_OK
           then lfg_emit [SendJoinResult guid \<lparr>jd_result = r, jd_state = LFG_ROLECHECK_DEFAULT, jd_lockmap = (if ds \<noteq> [] then [] else lockmap)\<rparr>] s1
           else
             let s2 = lfg_SetComment guid comment s1
             in if isRaid then s2
                else case grp of
                  Some g \<Rightarrow>
                    UpdateRoleCheck env gguid guid roles
                      (begin_role_check env gguid guid ds rDungeonId isContinue comment (jg_members g) s2)
                | None \<Rightarrow>
                    let shown = (if rDungeonId \<noteq> 0 then [rDungeonId] else ds);
                        s3 = upd_queue (queue_id guid s2) (AddQueueData guid (me_time env) ds [(guid, roles)]) s2;
                        s4 = lfg_SetSelectedDungeons guid shown s3;
                        s5 = lfg_emit [SendJoinResult guid \<lparr>jd_result = LFG_JOIN_OK, jd_state = LFG_ROLECHECK_DEFAULT, jd_lockmap = []\<rparr>,
                               SendUpdatePlayer guid \<lparr>ud_updateType = LFG_UPDATETYPE_JOIN_QUEUE, ud_dungeons = shown, ud_comment = comment\<rparr>] s4
                    in lfg_SetRoles guid roles (lfg_SetState gguid LFG_STATE_QUEUED s5))"

section \<open>The scripts of groups and players\<close>

definition lfg_on :: "lfg_mgr \<Rightarrow> bool" where
  "lfg_on s = lfg_isOptionEnabled (LFG_OPTION_ENABLE_DUNGEON_FINDER OR LFG_OPTION_ENABLE_RAID_BROWSER) s"

definition SetupGroupMember :: "uint64 \<Rightarrow> uint64 \<Rightarrow> lfg_mgr \<Rightarrow> lfg_mgr" where
  "SetupGroupMember guid gguid s =
     (let s1 = lfg_SetSelectedDungeons guid [gd_GetDungeon True (GroupsStore s gguid)] s;
          s2 = lfg_SetState guid (lfg_GetState gguid s1) s1
      in lfg_AddPlayerToGroup gguid guid (lfg_SetGroup guid gguid s2))"

definition OnLogout :: "mgr_env \<Rightarrow> uint64 \<Rightarrow> bool \<Rightarrow> lfg_mgr \<Rightarrow> lfg_mgr" where
  "OnLogout env guid inGroup s = when_do (lfg_on s \<and> \<not> inGroup) (LeaveLfg env guid) s"

definition OnLogin :: "bool \<Rightarrow> uint64 \<Rightarrow> uint8 \<Rightarrow> uint64 option \<Rightarrow> lfg_mgr \<Rightarrow> lfg_mgr" where
  "OnLogin twoSide guid team grp s =
     when_do (lfg_on s)
       (lfg_SetTeam twoSide guid team \<circ>
        (case grp of None \<Rightarrow> id | Some gguid2 \<Rightarrow> when_do (lfg_GetGroup guid s \<noteq> gguid2) (SetupGroupMember guid gguid2))) s"

definition OnAddMember :: "mgr_env \<Rightarrow> uint64 \<Rightarrow> uint64 \<Rightarrow> uint64 \<Rightarrow> lfg_mgr \<Rightarrow> lfg_mgr" where
  "OnAddMember env gguid leader guid s =
     when_do (lfg_on s)
       (\<lambda>s. let s1 = (if leader = guid then lfg_SetLeader gguid guid s
                       else when_do (lfg_GetState gguid s = LFG_STATE_QUEUED) (LeaveLfg env gguid)
                              (when_do (lfg_GetState guid s = LFG_STATE_QUEUED) (LeaveLfg env guid) s))
            in lfg_AddPlayerToGroup gguid guid (lfg_SetGroup guid gguid s1)) s"

text \<open>Whether a player waits for a random or seasonal dungeon, and whether he is in that of his group\<close>

definition selectedRandomLfgDungeon :: "dungeon_env \<Rightarrow> uint64 \<Rightarrow> lfg_mgr \<Rightarrow> bool" where
  "selectedRandomLfgDungeon de guid s \<longleftrightarrow>
     lfg_GetState guid s \<noteq> LFG_STATE_NONE \<and>
     (case pd_SelectedDungeons (PlayersStore s guid) of
        [] \<Rightarrow> False
      | d # _ \<Rightarrow> (case de_dungeons de d of None \<Rightarrow> False | Some dungeon \<Rightarrow> dd_type dungeon = LFG_TYPE_RANDOM \<or> dd_seasonal dungeon))"

definition inLfgDungeonMap :: "dungeon_env \<Rightarrow> uint64 \<Rightarrow> uint32 \<Rightarrow> uint8 \<Rightarrow> lfg_mgr \<Rightarrow> bool" where
  "inLfgDungeonMap de guid mapId difficulty s \<longleftrightarrow>
     (let dungeonId = gd_GetDungeon True (GroupsStore s (if guid_IsGroup guid then guid else lfg_GetGroup guid s))
      in dungeonId \<noteq> 0 \<and>
         (case de_dungeons de dungeonId of
            None \<Rightarrow> False
          | Some dungeon \<Rightarrow> ucast (dd_map dungeon) = mapId \<and> dd_difficulty dungeon = difficulty))"

text \<open>\<open>members\<close> are the members of the player's group who are in the world, if he has a group.\<close>

definition OnMapChanged :: "mgr_env \<Rightarrow> dungeon_env \<Rightarrow> uint64 \<Rightarrow> uint32 \<Rightarrow> uint8 \<Rightarrow> uint64 list option \<Rightarrow> lfg_mgr \<Rightarrow> lfg_mgr" where
  "OnMapChanged env de guid mapId difficulty members s =
     (if inLfgDungeonMap de guid mapId difficulty s
      then case members of
             None \<Rightarrow> lfg_emit [RemoveLuckOfTheDraw guid, TeleportHome guid] (LeaveLfg env guid s)
           | Some gs \<Rightarrow>
               let s1 = lfg_emit (map (QueryName guid) gs) s
               in when_do (selectedRandomLfgDungeon de guid s1) (lfg_emit [CastLuckOfTheDraw guid]) s1
      else lfg_emit [RemoveLuckOfTheDraw guid] s)"

text \<open>
  \<^verbatim>\<open>OnRemoveMember\<close>: the desertion spell, the way out of the dungeon and the offer to look for
  a replacement are events; \<open>inDungeon\<close> says whether the player is on the map of a dungeon.
\<close>

definition OnRemoveMember :: "mgr_env \<Rightarrow> uint64 \<Rightarrow> bool \<Rightarrow> bool \<Rightarrow> uint64 \<Rightarrow> remove_method \<Rightarrow> uint64 \<Rightarrow> bytes \<Rightarrow> lfg_mgr \<Rightarrow> lfg_mgr" where
  "OnRemoveMember env gguid isLFG inDungeon guid meth kicker reason s =
     (if \<not> lfg_on s then s
      else if isLFG \<and> meth = REMOVE_KICK then InitBoot env gguid kicker guid reason s
      else if lfg_GetState gguid s = LFG_STATE_PROPOSAL \<and> meth = REMOVE_DEFAULT
      then snd (lfg_RemovePlayerFromGroup gguid guid (lfg_SetGroup guid 0 s))
      else
        let state = lfg_GetState gguid s;
            (players, s1) = lfg_RemovePlayerFromGroup gguid guid (lfg_SetGroup guid 0 (LeaveLfg env guid s));
            deserts = (meth = REMOVE_LEAVE \<and> state = LFG_STATE_DUNGEON \<and> unat players \<ge> LFG_GROUP_KICK_VOTES_NEEDED);
            s2 = when_do (isLFG \<and> inDungeon) (to_player env guid (TeleportOut guid))
                   (to_player env guid (SendUpdateParty guid (update_only LFG_UPDATETYPE_LEADER_UNK1))
                     (when_do deserts (to_player env guid (CastDeserter guid)) s1));
            leader = gd_Leader (GroupsStore s2 gguid)
        in when_do (isLFG \<and> state \<noteq> LFG_STATE_FINISHED_DUNGEON)
             (to_player env leader (SendOfferContinue leader (gd_GetDungeon False (GroupsStore s2 gguid)))) s2)"

definition OnDisband :: "mgr_env \<Rightarrow> uint64 \<Rightarrow> lfg_mgr \<Rightarrow> lfg_mgr" where
  "OnDisband env gguid s = when_do (lfg_on s) (lfg_RemoveGroupData env gguid) s"

definition OnChangeLeader :: "uint64 \<Rightarrow> uint64 \<Rightarrow> lfg_mgr \<Rightarrow> lfg_mgr" where
  "OnChangeLeader gguid newLeader s = when_do (lfg_on s) (lfg_SetLeader gguid newLeader) s"

definition OnInviteMember :: "mgr_env \<Rightarrow> uint64 \<Rightarrow> uint64 \<Rightarrow> lfg_mgr \<Rightarrow> lfg_mgr" where
  "OnInviteMember env gguid leader s = when_do (lfg_on s \<and> leader \<noteq> 0 \<and> gguid = 0) (LeaveLfg env leader) s"

end
