(* ===== verification/LFG_Search_Props.thy ===== *)
theory LFG_Search_Props
  imports LFG_Search
begin

text \<open>
  What the search for groups of the dungeon finder guarantees: a proposal is a group that can play
  (\<open>proposals_sound\<close>), and what becomes of the entries that wait.
\<close>

section \<open>Containers\<close>

lemma om_set_append: "(\<And>e. e \<in> set m \<Longrightarrow> fst e < k) \<Longrightarrow> om_set k v m = m @ [(k, v)]"
proof (induction m)
  case (Cons e m)
  have "fst e < k" using Cons.prems by simp
  then have "\<not> k < fst e" "k \<noteq> fst e" by auto
  then show ?case using Cons by (cases e) simp
qed simp

lemma fold_om_set:
  "om_ok (map (\<lambda>e. (fst e, ())) acc @ map (\<lambda>e. (fst e, ())) xs) \<Longrightarrow> fold (\<lambda>e. om_set (fst e) (f e)) xs acc = acc @ map (\<lambda>e. (fst e, f e)) xs"
proof (induction xs arbitrary: acc)
  case (Cons e xs)
  have "om_set (fst e) (f e) acc = acc @ [(fst e, f e)]"
    using Cons.prems by (intro om_set_append) (fastforce simp: om_ok_def sorted_wrt_append)
  then show ?case using Cons.IH [of "acc @ [(fst e, f e)]"] Cons.prems by simp
qed simp

lemma fold_om_set_Nil: "om_ok xs \<Longrightarrow> fold (\<lambda>e. om_set (fst e) (f e)) xs [] = map (\<lambda>e. (fst e, f e)) xs"
  using fold_om_set [of "[]" xs f] by (simp add: om_ok_def comp_def)

lemma set_om_set_new: "om_find k m = None \<Longrightarrow> set (om_set k v m) = insert (k, v) (set m)"
  by (induction k v m rule: om_set.induct) (auto split: if_splits)

lemma length_om_set: "om_ok m \<Longrightarrow> length (om_set k v m) = length m + (if om_find k m = None then 1 else 0)"
  using om_count_new [where Q = "\<lambda>_. True" and k = k and m = m and v = v]
    om_count_old [where Q = "\<lambda>_. True" and k = k and m = m and v = v] by (cases "om_find k m") auto

section \<open>The data of the waiting entries\<close>

text \<open>
  What the entries offer does not change in a search; the best combination found for them does.
\<close>

definition offer :: "lfg_queue \<Rightarrow> uint64 \<Rightarrow> (lfg_roles \<times> uint32 list) option" where
  "offer q g = map_option (\<lambda>d. (qd_roles d, qd_dungeons d)) (om_find g (QueueDataStore q))"

text \<open>
  Entries as they are when they have joined: one to five players in order of their GUIDs, at least
  one dungeon, and a full group has passed its role check.
\<close>

definition offer_ok :: "lfg_roles \<times> uint32 list \<Rightarrow> bool" where
  "offer_ok o1 \<longleftrightarrow> om_ok (fst o1) \<and> fst o1 \<noteq> [] \<and> length (fst o1) \<le> MAXGROUPSIZE \<and> snd o1 \<noteq> [] \<and>
     (length (fst o1) = MAXGROUPSIZE \<longrightarrow> fst (CheckGroupRoles True (fst o1)))"

definition queue_ok :: "lfg_queue \<Rightarrow> bool" where
  "queue_ok q \<longleftrightarrow> (\<forall>g o1. offer q g = Some o1 \<longrightarrow> offer_ok o1)"

lemma UpdateBest_offers [simp]:
  "qd_roles (UpdateBestCompatible key roles d) = qd_roles d" "qd_dungeons (UpdateBestCompatible key roles d) = qd_dungeons d"
proof -
  have "qd_roles (fold (\<lambda>(_, role). count_role role) roles d) = qd_roles d \<and> qd_dungeons (fold (\<lambda>(_, role). count_role role) roles d) = qd_dungeons d" for d
    by (induction roles arbitrary: d) (auto simp: count_role_def)
  then show "qd_roles (UpdateBestCompatible key roles d) = qd_roles d" "qd_dungeons (UpdateBestCompatible key roles d) = qd_dungeons d"
    by (simp_all add: UpdateBestCompatible_def Let_def)
qed

lemma FindBest_offers [simp]:
  "qd_roles (FindBestCompatible cm g d) = qd_roles d" "qd_dungeons (FindBestCompatible cm g d) = qd_dungeons d"
proof -
  have "qd_roles (FindBestCompatible cm g d) = qd_roles d \<and> qd_dungeons (FindBestCompatible cm g d) = qd_dungeons d"
    unfolding FindBestCompatible_def by (induction cm arbitrary: d) auto
  then show "qd_roles (FindBestCompatible cm g d) = qd_roles d" "qd_dungeons (FindBestCompatible cm g d) = qd_dungeons d" by simp_all
qed

lemma find_map_entries: "om_find g (map (\<lambda>(g, d). (g, f g d)) m) = map_option (f g) (om_find g m)"
  by (induction m) auto

lemma RemoveFromQueue_data:
  "om_find g (QueueDataStore (RemoveFromQueue g' q)) =
     (if g = g' then None else map_option (\<lambda>d. if str_contains (decimal (unat g')) (qd_bestCompatible d)
        then FindBestCompatible (CompatibleMapStore (RemoveFromCompatibles g' q)) g (d\<lparr>qd_bestCompatible := []\<rparr>) else d)
        (om_find g (QueueDataStore q)))"
proof -
  have "(\<lambda>(g, d). if g \<noteq> g' \<and> str_contains (decimal (unat g')) (qd_bestCompatible d)
            then (g, FindBestCompatible cm g (d\<lparr>qd_bestCompatible := []\<rparr>)) else (g, d))
     = (\<lambda>(g, d). (g, if g \<noteq> g' \<and> str_contains (decimal (unat g')) (qd_bestCompatible d)
            then FindBestCompatible cm g (d\<lparr>qd_bestCompatible := []\<rparr>) else d))" for cm
    by auto
  then show ?thesis
    by (cases "om_find g (QueueDataStore q)")
       (simp_all add: RemoveFromQueue_def Let_def find_map_entries RemoveFromCompatibles_def RemoveFromCurrentQueue_def RemoveFromNewQueue_def)
qed

lemma offer_simps [simp]:
  "offer (SetCompatibles key v q) = offer q" "offer (SetCompatibilityData key c q) = offer q"
  "offer (on_entry g' (UpdateBestCompatible key roles) q) = offer q"
  "offer (RemoveFromNewQueue g' q) = offer q" "offer (RemoveFromCurrentQueue g' q) = offer q" "offer (AddToCurrentQueue g' q) = offer q"
  by (auto simp: offer_def SetCompatibles_def SetCompatibilityData_def on_entry_def RemoveFromNewQueue_def RemoveFromCurrentQueue_def
      AddToCurrentQueue_def find_map_entries option.map_comp comp_def intro!: ext map_option_cong)

lemma offer_RemoveFromQueue: "offer (RemoveFromQueue g' q) = (offer q)(g' := None)"
  by (rule ext) (auto simp: offer_def RemoveFromQueue_data option.map_comp comp_def intro!: map_option_cong)

lemma offer_unlisted: "om_find g (QueueDataStore q) = None \<Longrightarrow> offer (RemoveFromQueue g q) = offer q"
  unfolding offer_RemoveFromQueue by (rule fun_upd_idem) (simp add: offer_def)

lemma offer_fold_remove: "offer (fold (\<lambda>g. RemoveFromCurrentQueue g \<circ> RemoveFromNewQueue g) check q) = offer q"
  by (induction check arbitrary: q) simp_all

lemma offer_propose: "offer (run_queue (propose env check c roles dungeons s)) = offer (run_queue s)"
  by (simp add: propose_def offer_fold_remove split: prod.split)

section \<open>Counting the players\<close>

definition players_of :: "lfg_queue \<Rightarrow> uint64 \<Rightarrow> lfg_roles" where
  "players_of q g = qd_roles (entry (QueueDataStore q) g)"

definition dungeons_of :: "lfg_queue \<Rightarrow> uint64 \<Rightarrow> uint32 list" where
  "dungeons_of q g = qd_dungeons (entry (QueueDataStore q) g)"

definition party_of :: "lfg_queue \<Rightarrow> uint64 list \<Rightarrow> lfg_roles" where
  "party_of q check = concat (map (players_of q) check)"

lemma party_of_simps [simp]:
  "party_of q [] = []" "party_of q (g # check) = players_of q g @ party_of q check"
  by (simp_all add: party_of_def)

lemma offer_eq: "offer q g = Some o1 \<Longrightarrow> players_of q g = fst o1 \<and> dungeons_of q g = snd o1"
  by (auto simp: offer_def players_of_def dungeons_of_def entry_def split: option.splits)

lemma offer_cong: "offer q g = offer q' g \<Longrightarrow> players_of q g = players_of q' g"
  by (auto simp: offer_def players_of_def entry_def qd_make_def split: option.splits)

lemma queue_okD:
  assumes "queue_ok q" and "offer q g \<noteq> None"
  shows "om_ok (players_of q g)" "players_of q g \<noteq> []" "length (players_of q g) \<le> 5" "dungeons_of q g \<noteq> []"
    "length (players_of q g) = 5 \<Longrightarrow> fst (CheckGroupRoles True (players_of q g))"
  using assms offer_eq [of q g] unfolding queue_ok_def offer_ok_def MAXGROUPSIZE_def by fastforce+

definition group_guid :: "uint64 \<Rightarrow> uint64" where
  "group_guid g = (if guid_IsGroup g then g else 0)"

lemma om_find_fold_group:
  "om_find p (fold (\<lambda>(p, _). om_set p x) ps m) = (if p \<in> fst ` set ps then Some x else om_find p m)"
  by (induction ps arbitrary: m) auto

lemma count_entry_simps:
  "ct_players (count_entry st g d c) = ct_players c + of_nat (length (qd_roles d))"
  "om_find p (ct_groups (count_entry st g d c)) = (if p \<in> fst ` set (qd_roles d) then Some (group_guid g) else om_find p (ct_groups c))"
  by (simp_all add: count_entry_def Let_def om_find_fold_group group_guid_def)

lemma count_players_ok:
  assumes "queue_ok q" and "count_players st (QueueDataStore q) check c0 = Inr c" and "ct_lfgGroups c \<le> 1" and "ct_players c = 5"
  shows "(\<forall>g \<in> set check. offer q g \<noteq> None) \<and> unat (ct_players c0) + length (party_of q check) = 5 \<and>
     (\<forall>p. om_find p (ct_groups c) = om_find p (ct_groups c0) \<and> p \<notin> fst ` set (party_of q check)
        \<or> (\<exists>g \<in> set check. p \<in> fst ` set (players_of q g) \<and> om_find p (ct_groups c) = Some (group_guid g)))"
  using assms
proof (induction check arbitrary: c0)
  case (Cons g check)
  show ?case
  proof (cases "ct_lfgGroups c0 < 2 \<and> ct_players c0 \<le> of_nat MAXGROUPSIZE")
    case True
    then obtain d where d: "om_find g (QueueDataStore q) = Some d"
      "count_players st (QueueDataStore q) check (count_entry st g d c0) = Inr c"
      using Cons.prems(2) by (auto split: option.splits)
    have og: "offer q g \<noteq> None" using d(1) by (simp add: offer_def)
    have pg: "players_of q g = qd_roles d" using d(1) by (simp add: players_of_def entry_def)
    have len: "length (qd_roles d) \<le> 5" using queue_okD(3) [OF Cons.prems(1) og] pg by simp
    have "unat (ct_players c0) \<le> 5" using True by (simp add: MAXGROUPSIZE_def word_le_nat_alt)
    then have "unat (ct_players (count_entry st g d c0)) = unat (ct_players c0) + length (qd_roles d)"
      using len by (simp add: count_entry_simps unat_word_ariths unat_of_nat)
    with Cons.IH [OF Cons.prems(1) d(2) Cons.prems(3,4)] show ?thesis
      using og pg by (auto simp: count_entry_simps split: if_splits)
  next
    case False
    then have "c0 = c" using Cons.prems(2) by auto
    then have "ct_lfgGroups c < 2 \<and> ct_players c \<le> of_nat MAXGROUPSIZE"
      using Cons.prems(3,4) by (auto simp: MAXGROUPSIZE_def word_le_nat_alt word_less_nat_alt)
    then show ?thesis using False \<open>c0 = c\<close> by blast
  qed
qed simp

section \<open>Collecting the players\<close>

lemma HasIgnore_sym: "HasIgnore env a b = HasIgnore env b a"
  by (auto simp: HasIgnore_def)

definition apart :: "(uint64 \<Rightarrow> uint64 \<Rightarrow> bool) \<Rightarrow> uint64 set \<Rightarrow> bool" where
  "apart ig ks \<longleftrightarrow> (\<forall>a \<in> ks. \<forall>b \<in> ks. a \<noteq> b \<longrightarrow> \<not> ig a b)"

lemma collect_player_length:
  assumes "om_ok m"
  shows "om_ok (collect_player ig e m) \<and> length (collect_player ig e m) \<le> Suc (length m) \<and>
    (length (collect_player ig e m) = Suc (length m) \<longrightarrow>
       set (collect_player ig e m) = insert e (set m) \<and> fst e \<notin> om_keys m \<and> (\<forall>b \<in> om_keys m. fst e \<noteq> b \<longrightarrow> \<not> ig (fst e) b))"
  using assms length_om_set [OF assms, where k = "fst e" and v = "snd e"] set_om_set_new [where k = "fst e" and v = "snd e" and m = m]
  by (auto simp: collect_player_def om_find_None om_keys_def)

lemma collect_fold:
  assumes "\<And>a b. ig a b = ig b a" and "om_ok m" and "apart ig (om_keys m)"
  shows "om_ok (fold (collect_player ig) es m) \<and> length (fold (collect_player ig) es m) \<le> length m + length es \<and>
    (length (fold (collect_player ig) es m) = length m + length es \<longrightarrow>
       set (fold (collect_player ig) es m) = set es \<union> set m \<and> distinct (map fst es) \<and> fst ` set es \<inter> om_keys m = {} \<and>
       apart ig (om_keys (fold (collect_player ig) es m)))"
  using assms(2,3)
proof (induction es arbitrary: m)
  case (Cons e es)
  let ?m = "collect_player ig e m"
  note len = collect_player_length [OF Cons.prems(1), of ig e]
  have "apart ig (om_keys ?m)"
  proof (cases "\<exists>p \<in> set m. fst e \<noteq> fst p \<and> ig (fst e) (fst p)")
    case True
    then show ?thesis using Cons.prems(2) by (simp add: collect_player_def)
  next
    case False
    then have "\<forall>b \<in> om_keys m. fst e \<noteq> b \<longrightarrow> \<not> ig (fst e) b" by (auto simp: om_keys_def)
    moreover have "om_keys ?m = insert (fst e) (om_keys m)" using False by (auto simp: collect_player_def)
    ultimately show ?thesis using Cons.prems(2) assms(1) unfolding apart_def by auto
  qed
  note ih = Cons.IH [OF _ this]
  have "om_ok ?m" using len by blast
  note ih = ih [OF this]
  show ?case
  proof (cases "length ?m = Suc (length m)")
    case True
    then have "set ?m = insert e (set m)" "fst e \<notin> om_keys m" using len by blast+
    moreover have "om_keys ?m = insert (fst e) (om_keys m)" using calculation(1) by (simp add: om_keys_def)
    ultimately show ?thesis using ih True by auto
  next
    case False
    then have "length ?m \<le> length m" using len by auto
    then show ?thesis using ih by auto
  qed
qed auto

lemma collect_players_fold: "collect_players ig (QueueDataStore q) check = fold (collect_player ig) (party_of q check) []"
proof -
  have "fold (\<lambda>guid roles. fold (collect_player ig) (qd_roles (entry (QueueDataStore q) guid)) roles) check m
      = fold (collect_player ig) (party_of q check) m" for m
    by (induction check arbitrary: m) (simp_all add: players_of_def)
  then show ?thesis by (simp add: collect_players_def)
qed

lemma common_dungeons_sub: "d \<in> set (common_dungeons (QueueDataStore q) check ds) \<longleftrightarrow> d \<in> set ds \<and> (\<forall>g \<in> set check. d \<in> set (dungeons_of q g))"
  by (induction check arbitrary: ds) (auto simp: dungeons_of_def)

section \<open>A proposal is a group that can play\<close>

lemma set_without_leader: "set (without_leader rs) = (\<lambda>(g, r). (g, r AND NOT PLAYER_ROLE_LEADER)) ` set rs"
  by (simp add: without_leader_def)

lemma without_leader_fst [simp]: "map fst (without_leader rs) = map fst rs" "length (without_leader rs) = length rs"
  by (simp_all add: without_leader_def case_prod_beta comp_def)

lemma fills_mem:
  assumes "fills gs gs'" and "e' \<in> set gs'"
  shows "\<exists>e \<in> set gs. fst e' = fst e \<and> may_fill (snd e) (snd e')"
proof -
  have all: "list_all2 (\<lambda>e e'. fst e' = fst e \<and> may_fill (snd e) (snd e')) gs gs'" using assms(1) by (simp add: fills_def)
  then obtain i where i: "i < length gs'" "gs' ! i = e'" "length gs = length gs'"
    using assms(2) by (auto simp: in_set_conv_nth list_all2_lengthD)
  then show ?thesis using list_all2_nthD2 [OF all i(1)] by (intro bexI [of _ "gs ! i"]) auto
qed

lemma fills_length: "fills gs gs' \<Longrightarrow> length gs' = length gs"
  by (auto simp: fills_def dest: list_all2_lengthD)

lemma fills_five:
  assumes "fills gs gs'" and "length gs = 5"
  shows "how_many PLAYER_ROLE_TANK gs' = 1" "how_many PLAYER_ROLE_HEALER gs' = 1" "how_many PLAYER_ROLE_DAMAGE gs' = 3"
proof -
  have "\<exists>ph. snd e = phase_role ph" if "e \<in> set gs'" for e
    using fills_mem [OF assms(1) that] by (auto simp: may_fill_bits)
  then have "filter (\<lambda>e. \<exists>ph. snd e = phase_role ph) gs' = gs'" by (simp add: filter_id_conv)
  then have sum: "how_many PLAYER_ROLE_TANK gs' + how_many PLAYER_ROLE_HEALER gs' + how_many PLAYER_ROLE_DAMAGE gs' = 5"
    using how_many_sum [of gs'] assms(2) fills_length [OF assms(1)] by simp
  have "how_many PLAYER_ROLE_TANK gs' \<le> 1" "how_many PLAYER_ROLE_HEALER gs' \<le> 1" "how_many PLAYER_ROLE_DAMAGE gs' \<le> 3"
    using assms(1) by (simp_all add: fills_def)
  with sum show "how_many PLAYER_ROLE_TANK gs' = 1" "how_many PLAYER_ROLE_HEALER gs' = 1" "how_many PLAYER_ROLE_DAMAGE gs' = 3"
    by linarith+
qed

lemma fits_party:
  assumes q: "queue_ok q" and f: "fits env (QueueDataStore q) check c roles dungeons"
  shows "\<exists>rs. om_ok rs \<and> length rs = 5 \<and> set rs = set (party_of q check) \<and> distinct (map fst (party_of q check)) \<and>
     fills (without_leader rs) roles \<and> map fst roles = map fst rs \<and> dungeons \<noteq> [] \<and>
     (\<forall>d \<in> set dungeons. \<forall>g \<in> set check. d \<in> set (dungeons_of q g)) \<and>
     (length check > 1 \<longrightarrow> apart (HasIgnore env) (om_keys rs))"
proof -
  have five: "ct_players c = 5" and cp: "count_players env (QueueDataStore q) check counts_new = Inr c"
    "ct_lfgGroups c \<le> 1" and ne: "check \<noteq> []"
    using f by (auto simp: fits_def MAXGROUPSIZE_def)
  have cnt: "\<forall>g \<in> set check. offer q g \<noteq> None" "length (party_of q check) = 5"
    using count_players_ok [OF q cp five] by (simp_all add: counts_new_def)
  show ?thesis
  proof (cases "length check = 1")
    case True
    then obtain g where g: "check = [g]" by (metis One_nat_def length_0_conv length_Suc_conv)
    have ok: "om_ok (players_of q g)" "dungeons_of q g \<noteq> []" using queue_okD [OF q] cnt(1) g by auto
    have len: "length (players_of q g) = 5" using cnt(2) g by simp
    then have "fst (CheckGroupRoles True (players_of q g))" using queue_okD(5) [OF q] cnt(1) g by auto
    then have "fills (without_leader (players_of q g)) (snd (CheckGroupRoles True (players_of q g)))"
      by (rule CheckGroupRoles_roles [rotated]) (simp add: len)
    moreover have "roles = snd (CheckGroupRoles True (players_of q g))" "dungeons = dungeons_of q g"
      using f g by (auto simp: fits_def single_entry_def players_of_def dungeons_of_def)
    ultimately show ?thesis
      using g ok len CheckGroupRoles_keys [of "players_of q g"] om_ok_distinct [OF ok(1)] by (intro exI [of _ "players_of q g"]) simp
  next
    case False
    define rs where "rs = collect_players (HasIgnore env) (QueueDataStore q) check"
    define answer where "answer = CheckGroupRoles True rs"
    have cf: "om_ok rs" "length rs \<le> 5"
      "length rs = 5 \<longrightarrow> set rs = set (party_of q check) \<and> distinct (map fst (party_of q check)) \<and> apart (HasIgnore env) (om_keys rs)"
      using collect_fold [of "HasIgnore env" "[]" "party_of q check"] HasIgnore_sym [of env] cnt(2)
      by (auto simp: rs_def collect_players_fold apart_def)
    have cp: "check_party (HasIgnore env) (QueueDataStore q) check 5 = Inr (roles, dungeons)"
      using f False five by (simp add: fits_def)
    then have r: "5 - of_nat (length rs) = (0 :: uint8)" "fst answer" "roles = snd answer" "dungeons \<noteq> []"
      "dungeons = common_dungeons (QueueDataStore q) (tl check) (qd_dungeons (entry (QueueDataStore q) (hd check)))"
      by (auto simp: check_party_def Let_def rs_def answer_def split: if_splits)
    have "unat (of_nat (length rs) :: uint8) = unat (5 :: uint8)" using r(1) by simp
    then have len: "length rs = 5" using cf(2) by (simp add: unat_of_nat)
    then have "fills (without_leader rs) roles"
      using CheckGroupRoles_roles [of rs] r(2,3) by (simp add: answer_def)
    moreover have "\<forall>d \<in> set dungeons. \<forall>g \<in> set check. d \<in> set (dungeons_of q g)"
      using ne unfolding r(5) by (cases check) (auto simp: common_dungeons_sub dungeons_of_def)
    ultimately show ?thesis
      using cf len CheckGroupRoles_keys [of rs] r by (intro exI [of _ rs]) (simp add: answer_def)
  qed
qed

definition proposal_sound :: "lfg_env \<Rightarrow> lfg_queue \<Rightarrow> lfg_proposal \<Rightarrow> bool" where
  "proposal_sound env q p \<longleftrightarrow>
     lp_queues p \<noteq> [] \<and>
     (\<forall>g \<in> set (lp_queues p). lfg_GetState g env = LFG_STATE_QUEUED \<and> offer q g \<noteq> None \<and> lp_dungeonId p \<in> set (dungeons_of q g)) \<and>
     length (lp_players p) = 5 \<and> distinct (map fst (party_of q (lp_queues p))) \<and>
     om_keys (lp_players p) = fst ` set (party_of q (lp_queues p)) \<and>
     (\<forall>k pp. (k, pp) \<in> set (lp_players p) \<longrightarrow>
        (\<exists>g \<in> set (lp_queues p). \<exists>r. (k, r) \<in> set (players_of q g) \<and> may_fill (r AND NOT PLAYER_ROLE_LEADER) (pp_role pp)
           \<and> pp_group pp = group_guid g)) \<and>
     length (filter (\<lambda>e. pp_role (snd e) = PLAYER_ROLE_TANK) (lp_players p)) = 1 \<and>
     length (filter (\<lambda>e. pp_role (snd e) = PLAYER_ROLE_HEALER) (lp_players p)) = 1 \<and>
     length (filter (\<lambda>e. pp_role (snd e) = PLAYER_ROLE_DAMAGE) (lp_players p)) = 3 \<and>
     lp_leader p \<in> om_keys (lp_players p) \<and>
     (length (lp_queues p) > 1 \<longrightarrow> apart (HasIgnore env) (om_keys (lp_players p)))"

definition urand_ok :: "lfg_env \<Rightarrow> bool" where
  "urand_ok env \<longleftrightarrow> (\<forall>n lo hi. lo \<le> hi \<longrightarrow> lo \<le> le_urand env n lo hi \<and> le_urand env n lo hi \<le> hi)"

lemma choose_leader_mem:
  "rs \<noteq> [] \<Longrightarrow> fst (snd (fold (choose_leader draw) rs (False, 0, n))) \<in> om_keys rs"
proof -
  have step: "fst (snd acc) \<in> K \<Longrightarrow> fst e \<in> K \<Longrightarrow> fst (snd (choose_leader draw e acc)) \<in> K" for acc e K
    by (cases acc) (auto simp: choose_leader_def)
  have rest: "fst (snd acc) \<in> K \<Longrightarrow> om_keys es \<subseteq> K \<Longrightarrow> fst (snd (fold (choose_leader draw) es acc)) \<in> K" for acc es K
  proof (induction es arbitrary: acc)
    case (Cons e es)
    then show ?case using step [of acc K e] by (cases e) auto
  qed simp
  assume "rs \<noteq> []"
  then obtain e es where rs: "rs = e # es" by (cases rs) auto
  have "fst (snd (choose_leader draw e (False, 0, n))) = fst e" by (simp add: choose_leader_def)
  then show ?thesis using rest [of "choose_leader draw e (False, 0, n)" "om_keys rs" es] rs by (auto simp: om_keys_def)
qed

lemma make_proposal_players:
  assumes "om_ok roles"
  shows "lp_players (fst (make_proposal env check c roles dungeons n)) =
    map (\<lambda>e. (fst e, proposal_player (ct_lfgGroups c \<noteq> 1 \<or> lfg_GetOldState (hd check) env \<noteq> LFG_STATE_DUNGEON)
      (ct_group c) (ct_groups c) e)) roles"
  by (simp add: make_proposal_def Let_def case_prod_beta fold_om_set_Nil [OF assms])

lemma make_proposal_simps:
  "lp_queues (fst (make_proposal env check c roles dungeons n)) = check"
  "lp_dungeonId (fst (make_proposal env check c roles dungeons n)) = dungeons ! le_urand env n 0 (length dungeons - 1)"
  "lp_leader (fst (make_proposal env check c roles dungeons n)) = fst (snd (fold (choose_leader (le_urand env)) roles (False, 0, Suc n)))"
  by (simp_all add: make_proposal_def Let_def split: prod.split)

lemma make_proposal_sound:
  assumes q: "queue_ok q" and f: "fits env (QueueDataStore q) check c roles dungeons" and u: "urand_ok env"
    and queued: "lfg_AllQueued check env"
  shows "proposal_sound env q (fst (make_proposal env check c roles dungeons n))"
proof -
  obtain rs where rs: "om_ok rs" "length rs = 5" "set rs = set (party_of q check)" "distinct (map fst (party_of q check))"
    "fills (without_leader rs) roles" "map fst roles = map fst rs" "dungeons \<noteq> []"
    "\<forall>d \<in> set dungeons. \<forall>g \<in> set check. d \<in> set (dungeons_of q g)"
    "length check > 1 \<longrightarrow> apart (HasIgnore env) (om_keys rs)"
    using fits_party [OF q f] by blast
  have five: "ct_players c = 5" "count_players env (QueueDataStore q) check counts_new = Inr c" "ct_lfgGroups c \<le> 1" "check \<noteq> []"
    using f by (auto simp: fits_def MAXGROUPSIZE_def)
  have cnt: "\<forall>g \<in> set check. offer q g \<noteq> None"
    "\<And>p. p \<in> fst ` set (party_of q check) \<Longrightarrow> \<exists>g \<in> set check. p \<in> fst ` set (players_of q g) \<and> om_find p (ct_groups c) = Some (group_guid g)"
    using count_players_ok [OF q five(2,3,1)] by (simp_all add: counts_new_def) blast
  let ?p = "fst (make_proposal env check c roles dungeons n)"
  have ok: "om_ok roles" using rs(1,6) by (simp add: om_ok_def)
  have pl: "lp_players ?p = map (\<lambda>e. (fst e, proposal_player (ct_lfgGroups c \<noteq> 1 \<or> lfg_GetOldState (hd check) env \<noteq> LFG_STATE_DUNGEON)
      (ct_group c) (ct_groups c) e)) roles" (is "_ = map ?f roles")
    by (rule make_proposal_players [OF ok])
  have keys: "om_keys (lp_players ?p) = om_keys roles" unfolding pl om_keys_def by force
  have keys_rs: "om_keys roles = om_keys rs" using rs(6) unfolding om_keys_def by (metis set_map)
  have keys_party: "om_keys rs = fst ` set (party_of q check)" using rs(3) by (simp add: om_keys_def)
  have len: "length roles = 5" using fills_length [OF rs(5)] rs(2) by simp
  have role: "pp_role (snd (?f e)) = snd e" for e by (simp add: proposal_player_def Let_def)
  have cntr: "length (filter (\<lambda>e. pp_role (snd e) = r) (lp_players ?p)) = how_many r roles" for r
    unfolding pl filter_map length_map how_many_def comp_def role ..
  have "le_urand env n 0 (length dungeons - 1) \<le> length dungeons - 1" using u by (simp add: urand_ok_def)
  then have "lp_dungeonId ?p \<in> set dungeons" unfolding make_proposal_simps using rs(7) by (intro nth_mem) (cases dungeons; simp)
  then have dung: "\<forall>g \<in> set check. lp_dungeonId ?p \<in> set (dungeons_of q g)" using rs(8) by blast
  have member: "\<exists>g \<in> set check. \<exists>r. (k, r) \<in> set (players_of q g) \<and> may_fill (r AND NOT PLAYER_ROLE_LEADER) (pp_role pp) \<and> pp_group pp = group_guid g"
    if kp: "(k, pp) \<in> set (lp_players ?p)" for k pp
  proof -
    obtain e where e: "e \<in> set roles" "(k, pp) = ?f e" using kp unfolding pl by auto
    obtain r where r: "(k, r) \<in> set rs" "may_fill (r AND NOT PLAYER_ROLE_LEADER) (snd e)"
      using fills_mem [OF rs(5) e(1)] e(2) by (auto simp: set_without_leader)
    then have kr: "(k, r) \<in> set (party_of q check)" using rs(3) by simp
    then obtain g where g: "g \<in> set check" "k \<in> fst ` set (players_of q g)" "om_find k (ct_groups c) = Some (group_guid g)"
      using cnt(2) [of k] by force
    have "set (players_of q g) \<subseteq> set (party_of q check)" using g(1) by (auto simp: party_of_def)
    moreover obtain r' where r': "(k, r') \<in> set (players_of q g)" using g(2) by auto
    ultimately have "r' = r" using eq_key_imp_eq_value [OF rs(4) kr, of r'] by blast
    then have "(k, r) \<in> set (players_of q g)" using r' by simp
    moreover have "pp_role pp = snd e" "pp_group pp = group_guid g"
      using e(2) g(3) by (auto simp: proposal_player_def Let_def)
    ultimately show ?thesis using g(1) r(2) by auto
  qed
  have "lp_leader ?p \<in> om_keys roles"
    unfolding make_proposal_simps by (rule choose_leader_mem) (use len in auto)
  then show ?thesis
    using five(4) queued cnt(1) dung rs(2,4,9) keys keys_rs keys_party member cntr fills_five [OF rs(5)] len
    unfolding proposal_sound_def make_proposal_simps(1) by (simp add: lfg_AllQueued_def pl)
qed

text \<open>Every proposal there is after the search was there before or is sound.\<close>

lemma proposal_sound_offer: "offer q = offer q' \<Longrightarrow> proposal_sound env q p = proposal_sound env q' p"
proof -
  assume o: "offer q = offer q'"
  have "players_of q = players_of q'" using offer_cong [of q _ q'] o by (intro ext) simp
  moreover have "dungeons_of q = dungeons_of q'"
  proof
    fix g
    show "dungeons_of q g = dungeons_of q' g"
      using fun_cong [OF o, of g] by (auto simp: offer_def dungeons_of_def entry_def qd_make_def split: option.splits)
  qed
  ultimately show ?thesis by (simp add: proposal_sound_def party_of_def o)
qed

lemma proposal_sound_id: "proposal_sound env q (p\<lparr>lp_id := i\<rparr>) = proposal_sound env q p"
  by (simp add: proposal_sound_def)

definition sound_run :: "lfg_env \<Rightarrow> lfg_run \<Rightarrow> lfg_run \<Rightarrow> bool" where
  "sound_run env s0 s \<longleftrightarrow>
     (urand_ok env \<and> queue_ok (run_queue s0) \<longrightarrow>
       offer (run_queue s) = offer (run_queue s0) \<and>
       (\<forall>i p. om_find i (run_proposals s) = Some p \<longrightarrow>
          om_find i (run_proposals s0) = Some p \<or> proposal_sound env (run_queue s0) p))"

lemma sound_run_propose:
  assumes "sound_run env s0 s" and "fits env (QueueDataStore (run_queue s)) check c roles dungeons" and "lfg_AllQueued check env"
  shows "sound_run env s0 (propose env check c roles dungeons s)"
  unfolding sound_run_def
proof
  assume ok: "urand_ok env \<and> queue_ok (run_queue s0)"
  let ?p = "fst (make_proposal env check c roles dungeons (run_drawn s))"
  have s: "offer (run_queue s) = offer (run_queue s0)"
    "\<And>i p. om_find i (run_proposals s) = Some p \<Longrightarrow> om_find i (run_proposals s0) = Some p \<or> proposal_sound env (run_queue s0) p"
    using assms(1) ok by (auto simp: sound_run_def)
  have "queue_ok (run_queue s)" using ok s(1) by (simp add: queue_ok_def)
  then have p: "proposal_sound env (run_queue s0) ?p"
    using make_proposal_sound [OF _ assms(2) _ assms(3)] ok proposal_sound_offer [OF s(1)] by blast
  have "run_proposals (propose env check c roles dungeons s) = om_set (run_id s + 1) (?p\<lparr>lp_id := run_id s + 1\<rparr>) (run_proposals s)"
    by (simp add: propose_def Let_def case_prod_beta)
  then show "offer (run_queue (propose env check c roles dungeons s)) = offer (run_queue s0) \<and>
      (\<forall>i p. om_find i (run_proposals (propose env check c roles dungeons s)) = Some p \<longrightarrow>
        om_find i (run_proposals s0) = Some p \<or> proposal_sound env (run_queue s0) p)"
    using s p by (auto simp: offer_propose proposal_sound_id)
qed

interpretation sound_search: groups_invariant env "sound_run env s0" for env s0
  by unfold_locales
    (erule (2) sound_run_propose | simp add: sound_run_def offer_unlisted)+

text \<open>
  C28. Every proposal that a search adds is a group of five different players of entries that all wait:
  it has one tank, one healer and three damage dealers, each in a role he offered; its dungeon is one
  all its entries have chosen; its leader is one of its players; the original groups are recorded; and
  unless it is a single full group nobody in it ignores another. (The entries of the queue are as they
  are when they join, and the random numbers are within their bounds.)
\<close>

theorem proposals_sound:
  assumes "queue_ok (run_queue s)" and "urand_ok env" and "FindGroups env s n = (m, s')"
    and "om_find i (run_proposals s') = Some p"
  shows "om_find i (run_proposals s) = Some p \<or> proposal_sound env (run_queue s) p"
proof -
  have "sound_run env s s" by (simp add: sound_run_def)
  then have "sound_run env s (snd (FindGroups env s n))" by (rule sound_search.keeps_FindGroups [OF refl])
  then show ?thesis using assms by (auto simp: sound_run_def)
qed

definition all_queued :: lfg_env where
  "all_queued = \<lparr>PlayersStore = \<lambda>_. pd_new\<lparr>pd_State := LFG_STATE_QUEUED\<rparr>, GroupsStore = \<lambda>_. gd_new\<lparr>gd_State := LFG_STATE_QUEUED\<rparr>,
     le_inWorld = \<lambda>_. True, le_ignoring = \<lambda>_ _. False, le_time = 1000, le_urand = \<lambda>_ lo _. lo\<rparr>"

definition one_group :: lfg_run where
  "one_group = \<lparr>run_queue = AddQueueData 7 100 [18] [(1, 0x0E), (2, 0x04), (3, 0x08), (4, 0x08), (5, 0x08)] queue_new,
     run_proposals = [], run_id = 0, run_drawn = 0\<rparr>"

lemma one_group_found: "map (\<lambda>(i, p). (i, lp_queues p)) (run_proposals (snd (FindGroups all_queued one_group 0))) = [(1, [7])]"
  by code_simp

theorem proposals_sound_witness:
  "proposal_sound all_queued (run_queue one_group) (the (om_find 1 (run_proposals (snd (FindGroups all_queued one_group 0)))))"
proof -
  let ?s' = "snd (FindGroups all_queued one_group 0)"
  obtain p where p: "om_find 1 (run_proposals ?s') = Some p"
    using one_group_found by (cases "run_proposals ?s'") auto
  have o: "offer (run_queue one_group) g = (if g = 7 then Some ([(1, 0x0E), (2, 0x04), (3, 0x08), (4, 0x08), (5, 0x08)], [18]) else None)" for g
    by (simp add: offer_def one_group_def AddQueueData_def AddToQueue_def AddToNewQueue_def queue_new_def qd_make_def)
  have "fst (CheckGroupRoles True [(1, 0x0E), (2, 0x04), (3, 0x08), (4, 0x08), (5, 0x08)])" by code_simp
  then have q: "queue_ok (run_queue one_group)"
    by (simp add: queue_ok_def o offer_ok_def om_ok_def MAXGROUPSIZE_def)
  have u: "urand_ok all_queued" by (simp add: urand_ok_def all_queued_def)
  have "FindGroups all_queued one_group 0 = (fst (FindGroups all_queued one_group 0), ?s')" by simp
  from proposals_sound [OF q u this p] show ?thesis using p by (simp add: one_group_def)
qed

section \<open>What the search leaves out\<close>

text \<open>A loop over the others that does not end in a match leaves none of them.\<close>

lemma search_rest:
  "fst (FindNewGroups env check others s) \<noteq> LFG_COMPATIBLES_MATCH \<Longrightarrow>
     (if fst (try_combination env check s) = LFG_COMPATIBLES_WITH_LESS_PLAYERS
      then fst (FindNewGroups env check others s) = LFG_COMPATIBLES_WITH_LESS_PLAYERS \<and> fst (snd (FindNewGroups env check others s)) = []
      else fst (snd (FindNewGroups env check others s)) = others)"
  "fst (match_others env check others s) \<noteq> LFG_COMPATIBLES_MATCH \<Longrightarrow>
     fst (match_others env check others s) = LFG_COMPATIBLES_WITH_LESS_PLAYERS \<and> fst (snd (match_others env check others s)) = []"
proof (induction env check others s and env check others s rule: FindNewGroups_match_others.induct)
  case (1 env check others s)
  obtain v s1 where v: "try_combination env check s = (v, s1)" by fastforce
  show ?case using 1(1) [OF v [symmetric] refl] 1(2) v FindNewGroups.simps [of env check others s] by (simp split: if_splits)
next
  case (2 env check others s)
  show ?case
  proof (cases others)
    case Nil
    then show ?thesis by (simp add: match_others.simps)
  next
    case (Cons g rest)
    obtain v rest' s1 where v: "FindNewGroups env (check @ [g]) rest s = (v, rest', s1)" by (metis prod_cases3)
    show ?thesis
      using 2(2) [OF Cons v [symmetric] refl refl] 2(3) v Cons match_others.simps [of env check others s]
      by (auto simp: Let_def split: if_splits)
  qed
qed

text \<open>
  C35. Among the others, the first entry that could still be part of a group decides: if the search
  with it finds no match, it has used up all the others, and no group without that entry is tried.
\<close>

theorem search_first_partner:
  assumes "try_combination env (check @ [g]) s = (LFG_COMPATIBLES_WITH_LESS_PLAYERS, s1)"
    and "fst (match_others env (check @ [g]) rest s1) \<noteq> LFG_COMPATIBLES_MATCH"
  shows "match_others env check (g # rest) s =
    (LFG_COMPATIBLES_WITH_LESS_PLAYERS, [], snd (snd (match_others env (check @ [g]) rest s1)))"
proof -
  obtain rest' s2 where m: "match_others env (check @ [g]) rest s1 = (LFG_COMPATIBLES_WITH_LESS_PLAYERS, [], s2)"
    using search_rest(2) [OF assms(2)] by (metis prod.collapse)
  then have "FindNewGroups env (check @ [g]) rest s = (LFG_COMPATIBLES_WITH_LESS_PLAYERS, [], s2)"
    using assms(1) by (simp add: FindNewGroups.simps)
  then show ?thesis using m by (subst match_others.simps) (simp add: match_others.simps [of env check "[]"])
qed

text \<open>
  The solo tank 1 meets the solo damage dealer 2 first; the full group that he and the four of the entry 3
  would be is not tried.
\<close>

definition missed_queue :: lfg_queue where
  "missed_queue = fold (\<lambda>(g, rs). AddQueueData g 100 [18] rs)
     [(2, [(2, 0x08)]), (3, [(6, 0x04), (7, 0x08), (8, 0x08), (9, 0x08)]), (1, [(1, 0x02)])] queue_new"

definition missed_run :: lfg_run where
  "missed_run = \<lparr>run_queue = missed_queue\<lparr>currentQueueStore := [2, 3], newToQueueStore := [1]\<rparr>, run_proposals = [], run_id = 0, run_drawn = 0\<rparr>"

lemma missed_steps:
  "fst (try_combination all_queued [1, 2] missed_run) = LFG_COMPATIBLES_WITH_LESS_PLAYERS"
  "fst (match_others all_queued [1, 2] [3] (snd (try_combination all_queued [1, 2] missed_run))) = LFG_COMPATIBLES_WITH_LESS_PLAYERS"
  "fst (try_combination all_queued [1, 3] missed_run) = LFG_COMPATIBLES_MATCH"
  by code_simp+

theorem search_first_partner_witness:
  "fst (match_others all_queued [1] [2, 3] missed_run) = LFG_COMPATIBLES_WITH_LESS_PLAYERS \<and>
   fst (try_combination all_queued [1, 3] missed_run) = LFG_COMPATIBLES_MATCH"
proof -
  have "try_combination all_queued ([1] @ [2]) missed_run = (LFG_COMPATIBLES_WITH_LESS_PLAYERS, snd (try_combination all_queued [1, 2] missed_run))"
    using missed_steps(1) by (simp add: prod_eq_iff)
  from search_first_partner [OF this, of "[3]"] show ?thesis using missed_steps by simp
qed

section \<open>Proposals nobody counts, and entries nobody finds again\<close>

interpretation offer_search: groups_invariant env "\<lambda>s. offer (run_queue s) = o1" for env o1
  by unfold_locales (simp_all add: offer_unlisted offer_propose)

lemma count_players_full:
  assumes "queue_ok q" and "\<forall>g \<in> set check. offer q g \<noteq> None"
  shows "\<exists>c. count_players st (QueueDataStore q) check c0 = Inr c \<and>
    (ct_lfgGroups c \<ge> 2 \<or> ct_players c > 5 \<or> unat (ct_players c) = unat (ct_players c0) + length (party_of q check))"
  using assms(2)
proof (induction check arbitrary: c0)
  case (Cons g check)
  show ?case
  proof (cases "ct_lfgGroups c0 < 2 \<and> ct_players c0 \<le> of_nat MAXGROUPSIZE")
    case True
    obtain d where d: "om_find g (QueueDataStore q) = Some d" using Cons.prems by (auto simp: offer_def)
    have pg: "players_of q g = qd_roles d" using d by (simp add: players_of_def entry_def)
    have len: "length (qd_roles d) \<le> 5" using queue_okD(3) [OF assms(1), of g] Cons.prems pg by simp
    have "unat (ct_players c0) \<le> 5" using True by (simp add: MAXGROUPSIZE_def word_le_nat_alt)
    then have "unat (ct_players (count_entry st g d c0)) = unat (ct_players c0) + length (qd_roles d)"
      using len by (simp add: count_entry_simps unat_word_ariths unat_of_nat)
    then show ?thesis using Cons.IH [of "count_entry st g d c0"] Cons.prems True d pg by (auto simp: add.assoc)
  next
    case False
    then show ?thesis by (auto simp: MAXGROUPSIZE_def not_less not_le)
  qed
qed simp

text \<open>A match found by the check comes with a proposal.\<close>

lemma propose_proposal:
  "om_find (run_id (propose env check c roles dungeons s)) (run_proposals (propose env check c roles dungeons s)) =
     Some ((fst (make_proposal env check c roles dungeons (run_drawn s)))\<lparr>lp_id := run_id s + 1\<rparr>)"
  by (simp add: propose_def Let_def case_prod_beta)

lemma check_combination_match:
  assumes "fst (check_combination env check s) = LFG_COMPATIBLES_MATCH" and "length check \<le> MAXGROUPSIZE" and "check \<noteq> []"
  shows "\<exists>c roles dungeons. snd (check_combination env check s) = propose env check c roles dungeons s \<and>
     fits env (QueueDataStore (run_queue s)) check c roles dungeons"
proof -
  have party: "check_party ig st ch n = Inl bad \<Longrightarrow> bad \<noteq> LFG_COMPATIBLES_MATCH" for ig st ch n bad
    by (auto simp: check_party_def Let_def split: if_splits)
  have fin: "fst (finish_check env check c roles dungeons s) = LFG_COMPATIBLES_MATCH \<Longrightarrow>
      ct_players c = of_nat MAXGROUPSIZE \<and> finish_check env check c roles dungeons s = (LFG_COMPATIBLES_MATCH, propose env check c roles dungeons s)"
    for c roles dungeons by (simp add: finish_check_def Let_def split: if_splits)
  obtain c where c: "count_players env (QueueDataStore (run_queue s)) check counts_new = Inr c"
    "\<not> (length check = 1 \<and> ct_players c \<noteq> of_nat MAXGROUPSIZE)" "\<not> ct_lfgGroups c > 1"
    using assms(1) by (auto simp: check_combination_def Let_def split: sum.splits if_splits)
  show ?thesis
  proof (cases "length check > 1")
    case True
    then obtain roles dungeons where r: "check_party (HasIgnore env) (QueueDataStore (run_queue s)) check (ct_players c) = Inr (roles, dungeons)"
      "check_combination env check s = finish_check env check c roles dungeons s"
      using assms(1) c party by (fastforce simp: check_combination_def Let_def split: sum.splits if_splits)
    then show ?thesis
      using assms c True fin [of c roles dungeons] by (intro exI [of _ c] exI [of _ roles] exI [of _ dungeons]) (simp add: fits_def not_less)
  next
    case False
    then have one: "length check = 1" using assms(3) by (cases check) auto
    obtain roles dungeons where r: "single_entry (QueueDataStore (run_queue s)) (hd check) = (roles, dungeons)" by fastforce
    have "check_combination env check s = finish_check env check c roles dungeons s"
      using assms(1) c one r by (auto simp: check_combination_def Let_def split: if_splits)
    then show ?thesis
      using assms c one r fin [of c roles dungeons] by (intro exI [of _ c] exI [of _ roles] exI [of _ dungeons]) (simp add: fits_def not_less)
  qed
qed

lemma CheckCompatibility_match:
  assumes "CheckCompatibility env check s = (LFG_COMPATIBLES_MATCH, s1)"
  shows "\<exists>c roles dungeons s0. s1 = propose env check c roles dungeons s0 \<and>
     fits env (QueueDataStore (run_queue s0)) check c roles dungeons \<and> offer (run_queue s0) = offer (run_queue s)"
proof (cases check)
  case (Cons g rest)
  obtain v s' where v: "CheckCompatibility env rest s = (v, s')" by fastforce
  have "offer (run_queue s') = offer (run_queue s)"
    using offer_search.keeps_CheckCompatibility [OF refl, where env = env and check = rest] v by (metis snd_conv)
  moreover have "length check \<le> MAXGROUPSIZE" using assms Cons by (auto simp: Let_def split: if_splits)
  moreover have "check_combination env check s = (LFG_COMPATIBLES_MATCH, s1) \<or> check_combination env check s' = (LFG_COMPATIBLES_MATCH, s1)"
    using assms Cons v by (auto simp: Let_def less_lfg_compat_def split: if_splits)
  ultimately show ?thesis using check_combination_match [of env check] Cons by (metis fst_conv list.discI snd_conv)
qed (use assms in simp)

text \<open>
  The check of a combination first checks the combination without its first entry, and when that is a
  full group the proposal for it is made, although the combination asked for is refused: the search
  goes on, and does not count the proposal.
\<close>

theorem check_side_proposal:
  assumes "queue_ok (run_queue s)" and "offer (run_queue s) guid \<noteq> None"
    and "CheckCompatibility env check s = (LFG_COMPATIBLES_MATCH, s1)" and "2 \<le> length check" and "length check < 5"
  shows "\<exists>v s2 p. CheckCompatibility env (guid # check) s = (v, s2) \<and> v < LFG_COMPATIBLES_WITH_LESS_PLAYERS \<and>
    om_find (run_id s2) (run_proposals s2) = Some p \<and> lp_queues p = check"
proof -
  obtain c roles dungeons s0 where p: "s1 = propose env check c roles dungeons s0"
    "fits env (QueueDataStore (run_queue s0)) check c roles dungeons" "offer (run_queue s0) = offer (run_queue s)"
    using CheckCompatibility_match [OF assms(3)] by blast
  have o: "offer (run_queue s1) = offer (run_queue s)" using p by (simp add: offer_propose)
  have q: "queue_ok (run_queue s0)" "queue_ok (run_queue s1)" using assms(1) p(3) o by (simp_all add: queue_ok_def)
  have f: "count_players env (QueueDataStore (run_queue s0)) check counts_new = Inr c" "ct_lfgGroups c \<le> 1" "ct_players c = 5"
    using p(2) by (auto simp: fits_def MAXGROUPSIZE_def)
  have cnt: "\<forall>g \<in> set check. offer (run_queue s0) g \<noteq> None" "length (party_of (run_queue s0) check) = 5"
    using count_players_ok [OF q(1) f] by (simp_all add: counts_new_def)
  have pl: "players_of (run_queue s1) = players_of (run_queue s0)" using offer_cong o p(3) by (metis ext)
  have listed: "\<forall>g \<in> set (guid # check). offer (run_queue s1) g \<noteq> None" using cnt(1) assms(2) p(3) o by simp
  have "players_of (run_queue s1) guid \<noteq> []" using queue_okD(2) [OF q(2)] listed by simp
  then have len: "length (party_of (run_queue s1) (guid # check)) > 5"
    using cnt(2) pl by (simp add: party_of_def)
  obtain c' where c': "count_players env (QueueDataStore (run_queue s1)) (guid # check) counts_new = Inr c'"
    "ct_lfgGroups c' \<ge> 2 \<or> ct_players c' > 5 \<or> unat (ct_players c') = length (party_of (run_queue s1) (guid # check))"
    using count_players_full [OF q(2) listed, of env counts_new] by (auto simp: counts_new_def)
  then have many: "ct_lfgGroups c' > 1 \<or> ct_players c' > of_nat MAXGROUPSIZE"
    using len by (auto simp: MAXGROUPSIZE_def word_less_nat_alt word_le_nat_alt)
  have l: "length (guid # check) \<le> MAXGROUPSIZE" "length (guid # check) > 2" "length (guid # check) \<noteq> 1"
    using assms(4,5) by (auto simp: MAXGROUPSIZE_def)
  then obtain v where "check_combination env (guid # check) s1 = (v, on_queue (SetCompatibles (ConcatenateGuids (guid # check)) v) s1)"
    "v < LFG_COMPATIBLES_WITH_LESS_PLAYERS"
  proof -
    have "check_combination env (guid # check) s1 =
        (if ct_lfgGroups c' > 1
         then (LFG_INCOMPATIBLES_MULTIPLE_LFG_GROUPS, on_queue (SetCompatibles (ConcatenateGuids (guid # check)) LFG_INCOMPATIBLES_MULTIPLE_LFG_GROUPS) s1)
         else (LFG_INCOMPATIBLES_TOO_MUCH_PLAYERS, on_queue (SetCompatibles (ConcatenateGuids (guid # check)) LFG_INCOMPATIBLES_TOO_MUCH_PLAYERS) s1))"
      using many c'(1) l(3) unfolding check_combination_def Let_def by (auto simp del: count_players.simps)
    then show ?thesis using that by (simp add: less_lfg_compat_def split: if_splits)
  qed
  moreover have "CheckCompatibility env (guid # check) s = check_combination env (guid # check) s1"
    using l assms(3) by (simp add: Let_def less_lfg_compat_def)
  ultimately show ?thesis
    using propose_proposal [of env check c roles dungeons s0] p(1) by (auto simp: make_proposal_simps)
qed

theorem check_side_proposal_witness:
  "\<exists>v s2 p. CheckCompatibility all_queued [2, 3, 1] missed_run = (v, s2) \<and> v < LFG_COMPATIBLES_WITH_LESS_PLAYERS \<and>
    om_find (run_id s2) (run_proposals s2) = Some p \<and> lp_queues p = [3, 1]"
proof -
  have "fst (CheckCompatibility all_queued [3, 1] missed_run) = LFG_COMPATIBLES_MATCH" by code_simp
  then have m: "CheckCompatibility all_queued [3, 1] missed_run = (LFG_COMPATIBLES_MATCH, snd (CheckCompatibility all_queued [3, 1] missed_run))"
    by (simp add: prod_eq_iff)
  have o: "offer (run_queue missed_run) g =
      (if g = 1 then Some ([(1, 0x02)], [18]) else if g = 2 then Some ([(2, 0x08)], [18])
       else if g = 3 then Some ([(6, 0x04), (7, 0x08), (8, 0x08), (9, 0x08)], [18]) else None)" for g
    by (simp add: offer_def missed_run_def missed_queue_def AddQueueData_def AddToQueue_def AddToNewQueue_def queue_new_def qd_make_def)
  have "queue_ok (run_queue missed_run)" by (simp add: queue_ok_def o offer_ok_def om_ok_def MAXGROUPSIZE_def)
  from check_side_proposal [OF this _ m, of 2] show ?thesis by (simp add: o)
qed

text \<open>
  An entry whose combination is in the table as compatible with bad states, and that waits now,
  counts as a match: the search takes it from the new entries, makes no proposal for it and puts it
  back nowhere.
\<close>

theorem promoted_entry_lost:
  assumes "newToQueueStore (run_queue s) = [g]" and "g \<notin> set (currentQueueStore (run_queue s))"
    and "GetCompatibles (ConcatenateGuids [g]) (run_queue s) = LFG_COMPATIBLES_BAD_STATES"
    and "lfg_GetState g env = LFG_STATE_QUEUED"
  shows "\<exists>s'. FindGroups env s n = (n + 1, s') \<and> run_proposals s' = run_proposals s \<and>
    newToQueueStore (run_queue s') = [] \<and> currentQueueStore (run_queue s') = currentQueueStore (run_queue s) \<and>
    offer (run_queue s') = offer (run_queue s)"
proof -
  let ?s1 = "on_queue (RemoveFromNewQueue g) s"
  let ?s2 = "on_queue (SetCompatibles (ConcatenateGuids [g]) LFG_COMPATIBLES_MATCH) ?s1"
  have "GetCompatibles (ConcatenateGuids [g]) (run_queue ?s1) = LFG_COMPATIBLES_BAD_STATES"
    using assms(3) by (simp add: GetCompatibles_def RemoveFromNewQueue_def)
  moreover have "lfg_AllQueued [g] env" using assms(4) by (simp add: lfg_AllQueued_def)
  ultimately have "try_combination env [g] ?s1 = (LFG_COMPATIBLES_MATCH, ?s2)"
    by (simp add: try_combination_def)
  then have "FindNewGroups env [g] (currentQueueStore (run_queue ?s1)) ?s1 = (LFG_COMPATIBLES_MATCH, currentQueueStore (run_queue ?s1), ?s2)"
    by (simp add: FindNewGroups.simps)
  then have "FindGroups env s n = (n + 1, ?s2)"
    using assms(1) by (simp add: FindGroups.simps [of env s] FindGroups.simps [of env ?s2] Let_def)
  then show ?thesis using assms(1) by simp
qed

definition stuck_run :: lfg_run where
  "stuck_run = on_queue (SetCompatibles (ConcatenateGuids [7]) LFG_COMPATIBLES_BAD_STATES) one_group"

theorem promoted_entry_lost_witness:
  "\<exists>s'. FindGroups all_queued stuck_run 0 = (1, s') \<and> run_proposals s' = [] \<and> newToQueueStore (run_queue s') = []"
proof -
  have "newToQueueStore (run_queue stuck_run) = [7]" "7 \<notin> set (currentQueueStore (run_queue stuck_run))"
    "run_proposals stuck_run = []" "lfg_GetState 7 all_queued = LFG_STATE_QUEUED"
    by (simp_all add: stuck_run_def one_group_def AddQueueData_def AddToQueue_def AddToNewQueue_def queue_new_def lfg_GetState_def
        all_queued_def)
  moreover have "GetCompatibles (ConcatenateGuids [7]) (run_queue stuck_run) = LFG_COMPATIBLES_BAD_STATES"
    by (simp add: stuck_run_def GetCompatibles_def SetCompatibles_def)
  ultimately show ?thesis using promoted_entry_lost [of stuck_run 7 all_queued 0] by auto
qed


section \<open>Leaving the queue\<close>

lemma FindBest_best:
  assumes "qd_bestCompatible d = []"
  shows "qd_bestCompatible (FindBestCompatible cm g d) \<in> insert [] (fst ` set cm)"
proof -
  have u: "qd_bestCompatible (UpdateBestCompatible key roles d) \<in> {key, qd_bestCompatible d}" for key roles d
  proof -
    have "qd_bestCompatible (fold (\<lambda>(_, role). count_role role) roles d) = qd_bestCompatible d" for d
      by (induction roles arbitrary: d) (auto simp: count_role_def)
    then show ?thesis by (simp add: UpdateBestCompatible_def Let_def)
  qed
  have "qd_bestCompatible d \<in> B \<Longrightarrow> fst ` set cm \<subseteq> B \<Longrightarrow> qd_bestCompatible (FindBestCompatible cm g d) \<in> B" for B
    unfolding FindBestCompatible_def
  proof (induction cm arbitrary: d)
    case (Cons e cm)
    obtain key c where e: "e = (key, c)" by (cases e)
    have "qd_bestCompatible (UpdateBestCompatible key (cd_roles c) d) \<in> B" using u [of key "cd_roles c" d] Cons.prems e by auto
    then show ?case using Cons e by simp
  qed simp
  then show ?thesis using assms by blast
qed

text \<open>
  After an entry has left the queue no part of the queue mentions it: it is in neither list, it has
  no data, no combination in the table and no best combination of another entry has its number in it;
  what the other entries offer is what it was.
\<close>

theorem removed_from_queue:
  "let q' = RemoveFromQueue g q
   in g \<notin> set (newToQueueStore q') \<and> g \<notin> set (currentQueueStore q') \<and> om_find g (QueueDataStore q') = None \<and>
      (\<forall>e \<in> set (CompatibleMapStore q'). \<not> str_contains (decimal (unat g)) (fst e)) \<and>
      (\<forall>g' d. om_find g' (QueueDataStore q') = Some d \<longrightarrow> \<not> str_contains (decimal (unat g)) (qd_bestCompatible d)) \<and>
      (\<forall>g'. g' \<noteq> g \<longrightarrow> offer q' g' = offer q g')"
proof -
  have table: "CompatibleMapStore (RemoveFromQueue g q) = filter (\<lambda>e. \<not> str_contains (decimal (unat g)) (fst e)) (CompatibleMapStore q)"
    by (simp add: RemoveFromQueue_def RemoveFromCompatibles_def RemoveFromCurrentQueue_def RemoveFromNewQueue_def Let_def)
  let ?cm = "CompatibleMapStore (RemoveFromCompatibles g q)"
  have cm: "e \<in> set ?cm \<Longrightarrow> \<not> str_contains (decimal (unat g)) (fst e)" for e
    by (simp add: RemoveFromCompatibles_def)
  have best: "\<not> str_contains (decimal (unat g)) (qd_bestCompatible d)" if d: "om_find g' (QueueDataStore (RemoveFromQueue g q)) = Some d" for g' d
  proof -
    obtain d0 where d0: "d = (if str_contains (decimal (unat g)) (qd_bestCompatible d0)
        then FindBestCompatible ?cm g' (d0\<lparr>qd_bestCompatible := []\<rparr>) else d0)"
    proof -
      have "g' \<noteq> g" using d by (auto simp: RemoveFromQueue_data)
      then show thesis using d that unfolding RemoveFromQueue_data by (auto simp only: if_False map_option_eq_Some)
    qed
    have "qd_bestCompatible (FindBestCompatible ?cm g' (d0\<lparr>qd_bestCompatible := []\<rparr>)) \<in> insert [] (fst ` set ?cm)"
      by (rule FindBest_best) simp
    then have "\<not> str_contains (decimal (unat g)) (qd_bestCompatible (FindBestCompatible ?cm g' (d0\<lparr>qd_bestCompatible := []\<rparr>)))"
      using cm by auto
    then show ?thesis using d0 by simp
  qed
  have "g \<notin> set (newToQueueStore (RemoveFromQueue g q))" "g \<notin> set (currentQueueStore (RemoveFromQueue g q))"
    "om_find g (QueueDataStore (RemoveFromQueue g q)) = None"
    by (simp_all add: RemoveFromQueue_data)
  moreover have "\<forall>e \<in> set (CompatibleMapStore (RemoveFromQueue g q)). \<not> str_contains (decimal (unat g)) (fst e)"
    by (simp add: table)
  moreover have "\<forall>g'. g' \<noteq> g \<longrightarrow> offer (RemoveFromQueue g q) g' = offer q g'"
    by (simp add: offer_RemoveFromQueue)
  ultimately show ?thesis using best unfolding Let_def by blast
qed

theorem removed_from_queue_witness:
  "3 \<notin> set (newToQueueStore (RemoveFromQueue 3 missed_queue)) \<and> om_find 3 (QueueDataStore (RemoveFromQueue 3 missed_queue)) = None \<and>
     offer (RemoveFromQueue 3 missed_queue) 1 = offer missed_queue 1"
  using removed_from_queue [of 3 missed_queue] by (simp add: Let_def)

section \<open>Waiting times\<close>

lemma wt_update_average:
  assumes "unat (wt_number wt) + 1 < 2 ^ 32" and "unat (wt_number wt) * unat (wt_time wt) + unat t < 2 ^ 32 \<or> wt_number wt = 0"
  shows "unat (wt_number (wt_update t wt)) = unat (wt_number wt) + 1"
    "unat (wt_time (wt_update t wt)) = (unat (wt_number wt) * unat (wt_time wt) + unat t) div (unat (wt_number wt) + 1)"
proof -
  show n: "unat (wt_number (wt_update t wt)) = unat (wt_number wt) + 1"
    using assms(1) by (simp add: wt_update_def Let_def unat_word_ariths)
  have "unat (wt_time wt * wt_number wt + t) = unat (wt_number wt) * unat (wt_time wt) + unat t"
  proof (cases "wt_number wt = 0")
    case False
    then have "unat (wt_number wt) * unat (wt_time wt) + unat t < 2 ^ 32" using assms(2) by simp
    then show ?thesis by (simp add: unat_word_ariths mult.commute mod_simps)
  qed simp
  with n show "unat (wt_time (wt_update t wt)) = (unat (wt_number wt) * unat (wt_time wt) + unat t) div (unat (wt_number wt) + 1)"
    by (simp add: wt_update_def Let_def unat_div)
qed

text \<open>
  The average waiting time of a dungeon and role, over any sequence of waits between two bounds, is
  between these bounds and counts every wait, as long as the sum fits into 32 bits; the value it
  starts from, -1, has no part in it.
\<close>

theorem wait_average_bounds:
  assumes "\<forall>t \<in> set ts. lo \<le> unat t \<and> unat t \<le> hi" and "length ts * max hi 1 < 2 ^ 32" and "ts \<noteq> []"
  shows "unat (wt_number (fold wt_update ts wt_new)) = length ts \<and>
    lo \<le> unat (wt_time (fold wt_update ts wt_new)) \<and> unat (wt_time (fold wt_update ts wt_new)) \<le> hi"
  using assms
proof (induction ts rule: rev_induct)
  case (snoc t ts)
  let ?wt = "fold wt_update ts wt_new"
  have len: "Suc (length ts) * hi < 2 ^ 32" "Suc (length ts) < 2 ^ 32"
  proof -
    have "Suc (length ts) * hi \<le> Suc (length ts) * max hi 1" "Suc (length ts) * 1 \<le> Suc (length ts) * max hi 1"
      by (rule mult_le_mono2, simp)+
    then show "Suc (length ts) * hi < 2 ^ 32" "Suc (length ts) < 2 ^ 32" using snoc.prems(2) by simp_all
  qed
  have ih: "unat (wt_number ?wt) = length ts" "ts \<noteq> [] \<Longrightarrow> lo \<le> unat (wt_time ?wt) \<and> unat (wt_time ?wt) \<le> hi"
  proof -
    have "length ts * max hi 1 \<le> length (ts @ [t]) * max hi 1" by simp
    then have "length ts * max hi 1 < 2 ^ 32" using snoc.prems(2) by linarith
    then show "unat (wt_number ?wt) = length ts" "ts \<noteq> [] \<Longrightarrow> lo \<le> unat (wt_time ?wt) \<and> unat (wt_time ?wt) \<le> hi"
      using snoc.IH snoc.prems(1) by (cases "ts = []"; simp add: wt_new_def)+
  qed
  let ?n = "length ts"
  have t: "lo \<le> unat t" "unat t \<le> hi" using snoc.prems(1) by auto
  have hi: "?n * unat (wt_time ?wt) + unat t \<le> Suc ?n * hi"
  proof (cases "ts = []")
    case False
    then have "?n * unat (wt_time ?wt) \<le> ?n * hi" using ih(2) by simp
    then show ?thesis using t(2) unfolding mult_Suc by linarith
  next
    case True
    then show ?thesis using t(2) by simp
  qed
  have lo: "Suc ?n * lo \<le> ?n * unat (wt_time ?wt) + unat t"
  proof (cases "ts = []")
    case False
    then have "?n * lo \<le> ?n * unat (wt_time ?wt)" using ih(2) by simp
    then show ?thesis using t(1) unfolding mult_Suc by linarith
  next
    case True
    then show ?thesis using t(1) by simp
  qed
  have "unat (wt_number ?wt) * unat (wt_time ?wt) + unat t < 2 ^ 32 \<or> wt_number ?wt = 0"
    using hi len(1) ih(1) by simp
  note avg = wt_update_average [OF _ this]
  have num: "unat (wt_number (wt_update t ?wt)) = Suc ?n"
    and time: "unat (wt_time (wt_update t ?wt)) = (?n * unat (wt_time ?wt) + unat t) div Suc ?n"
    using avg len(2) ih(1) by simp_all
  have "lo \<le> (?n * unat (wt_time ?wt) + unat t) div Suc ?n" 
    using lo less_eq_div_iff_mult_less_eq [of "Suc ?n" lo] by (simp only: mult.commute zero_less_Suc)
  moreover have "(?n * unat (wt_time ?wt) + unat t) div Suc ?n \<le> hi" 
    using div_le_mono [OF hi, of "Suc ?n"] by (metis nonzero_mult_div_cancel_left nat.distinct(1))
  ultimately show ?case using num time by simp
qed simp

theorem wait_average_bounds_witness:
  "unat (wt_number (fold wt_update [30, 50, 41] wt_new)) = 3 \<and> 30 \<le> unat (wt_time (fold wt_update [30, 50, 41] wt_new)) \<and>
   unat (wt_time (fold wt_update [30, 50, 41] wt_new)) \<le> 50"
  using wait_average_bounds [of "[30, 50, 41]" 30 50] by simp

end
