(* ===== verification/LFG_Invariant.thy ===== *)
theory LFG_Invariant
  imports LFG_Join LFG_Search_Props
begin

text \<open>
  The invariant of the dungeon finder (\<open>finder_ok\<close>) and that every operation of the manager, its
  update and the scripts of groups and players keep it; the operations as a step relation.
\<close>

section \<open>The invariant\<close>

text \<open>
  An entry of the queue is a group or one player under his own GUID; a role check has dungeons to
  offer; the players of a proposal come from its entries.
\<close>

definition entry_ok :: "uint64 \<Rightarrow> lfg_roles \<times> uint32 list \<Rightarrow> bool" where
  "entry_ok g o1 \<longleftrightarrow> offer_ok o1 \<and> (\<not> guid_IsGroup g \<longrightarrow> map fst (fst o1) = [g])"

definition entries_ok_but :: "uint64 set \<Rightarrow> lfg_queue \<Rightarrow> bool" where
  "entries_ok_but G q \<longleftrightarrow> (\<forall>g o1. g \<notin> G \<longrightarrow> offer q g = Some o1 \<longrightarrow> entry_ok g o1)"

abbreviation entries_ok :: "lfg_queue \<Rightarrow> bool" where
  "entries_ok \<equiv> entries_ok_but {}"

definition role_check_ok :: "lfg_role_check \<Rightarrow> bool" where
  "role_check_ok rc \<longleftrightarrow> om_ok (rc_roles rc) \<and> rc_dungeons rc \<noteq> [] \<and> rc_state rc = LFG_ROLECHECK_INITIALITING"

definition proposal_ok :: "lfg_proposal \<Rightarrow> bool" where
  "proposal_ok p \<longleftrightarrow> (\<forall>e \<in> set (lp_players p). queue_guid (fst e) (snd e) \<in> set (lp_queues p))"

definition finder_ok :: "lfg_mgr \<Rightarrow> bool" where
  "finder_ok s \<longleftrightarrow> stores_ok s \<and>
     (\<forall>n q. om_find n (QueuesStore s) = Some q \<longrightarrow> entries_ok q) \<and>
     (\<forall>g rc. om_find g (RoleChecksStore s) = Some rc \<longrightarrow> role_check_ok rc) \<and>
     om_ok (ProposalsStore s) \<and> (\<forall>i p. om_find i (ProposalsStore s) = Some p \<longrightarrow> proposal_ok p)"

named_theorems finder

lemma entries_ok_queue_ok: "entries_ok q \<Longrightarrow> queue_ok q"
  by (auto simp: entries_ok_but_def queue_ok_def entry_ok_def)

lemma entries_ok_offer: "offer q = offer q' \<Longrightarrow> entries_ok_but G q = entries_ok_but G q'"
  by (simp add: entries_ok_but_def)

lemma entries_ok_new [simp]: "entries_ok_but G queue_new"
  by (simp add: entries_ok_but_def offer_def queue_new_def)

lemma entries_ok_Remove: "entries_ok_but (insert g G) q \<Longrightarrow> entries_ok_but G (RemoveFromQueue g q)"
  by (auto simp: entries_ok_but_def offer_RemoveFromQueue)

lemma entries_ok_mono: "entries_ok_but G q \<Longrightarrow> G \<subseteq> G' \<Longrightarrow> entries_ok_but G' q"
  by (auto simp: entries_ok_but_def)

lemma entries_ok_fold_Remove: "entries_ok_but (G \<union> set gs) q \<Longrightarrow> entries_ok_but G (fold RemoveFromQueue gs q)"
proof (induction gs arbitrary: q)
  case (Cons g gs)
  then have "entries_ok_but (G \<union> set gs) (RemoveFromQueue g q)" by (intro entries_ok_Remove) simp
  then show ?case using Cons.IH by simp
qed simp

lemma offer_AddToQueue [simp]: "offer (AddToQueue g q) = offer q"
  by (auto simp: AddToQueue_def AddToNewQueue_def offer_def split: option.split)

lemma offer_fold_AddToQueue [simp]: "offer (fold AddToQueue gs q) = offer q"
  by (induction gs arbitrary: q) simp_all

lemma offer_AddQueueData: "offer (AddQueueData g t ds rs q) = (offer q)(g \<mapsto> (rs, ds))"
  by (rule ext) (simp add: AddQueueData_def, simp add: offer_def qd_make_def)

lemma entries_ok_AddQueueData: "entries_ok q \<Longrightarrow> entry_ok g (rs, ds) \<Longrightarrow> entries_ok (AddQueueData g t ds rs q)"
  by (auto simp: entries_ok_but_def offer_AddQueueData)

subsection \<open>Small steps\<close>

lemma finder_emit [finder]: "finder_ok s \<Longrightarrow> finder_ok (lfg_emit es s)"
  by (simp add: finder_ok_def stores_ok_def lfg_emit_def)

lemma finder_to_player [finder]: "finder_ok s \<Longrightarrow> finder_ok (to_player env g e s)"
  by (simp add: to_player_def finder_emit)

lemma finder_when [finder]: "finder_ok s \<Longrightarrow> (b \<Longrightarrow> finder_ok (f s)) \<Longrightarrow> finder_ok (when_do b f s)"
  by (simp add: when_do_def)

lemma finder_SetState [finder]: "finder_ok s \<Longrightarrow> finder_ok (lfg_SetState g st s)"
  using stores_ok_SetState [of s g st] by (auto simp: finder_ok_def lfg_SetState_def upd_player_def upd_group_def)

lemma finder_RestoreState [finder]: "finder_ok s \<Longrightarrow> finder_ok (lfg_RestoreState g s)"
  using stores_ok_RestoreState [of s g] by (auto simp: finder_ok_def lfg_RestoreState_def upd_player_def upd_group_def)

lemma finder_upd_player: "finder_ok s \<Longrightarrow> (\<And>p. resting (pd_OldState p) \<Longrightarrow> resting (pd_OldState (f p))) \<Longrightarrow> finder_ok (upd_player g f s)"
  by (simp add: finder_ok_def stores_ok_def upd_player_def)

lemma finder_upd_group:
  "finder_ok s \<Longrightarrow> (\<And>p. resting (gd_OldState p) \<Longrightarrow> unat (gd_KicksLeft p) \<le> 3 \<Longrightarrow> resting (gd_OldState (f p)) \<and> unat (gd_KicksLeft (f p)) \<le> 3) \<Longrightarrow>
   finder_ok (upd_group g f s)"
  by (simp add: finder_ok_def stores_ok_def upd_group_def)

lemma finder_setters [finder]:
  "finder_ok s \<Longrightarrow> finder_ok (lfg_SetGroup g x s)" "finder_ok s \<Longrightarrow> finder_ok (lfg_SetRoles g r s)"
  "finder_ok s \<Longrightarrow> finder_ok (lfg_SetComment g c s)" "finder_ok s \<Longrightarrow> finder_ok (lfg_SetSelectedDungeons g ds s)"
  "finder_ok s \<Longrightarrow> finder_ok (lfg_SetTeam b g tm s)" "finder_ok s \<Longrightarrow> finder_ok (lfg_SetLeader g l s)"
  "finder_ok s \<Longrightarrow> finder_ok (lfg_AddPlayerToGroup g p s)" "finder_ok s \<Longrightarrow> finder_ok (snd (lfg_RemovePlayerFromGroup g p s))"
  by (auto simp: lfg_SetGroup_def lfg_SetRoles_def lfg_SetComment_def lfg_SetSelectedDungeons_def lfg_SetTeam_def lfg_SetLeader_def
      lfg_AddPlayerToGroup_def lfg_RemovePlayerFromGroup_def gd_AddPlayer_def gd_RemovePlayer_def Let_def
      intro!: finder_upd_player finder_upd_group)

lemma decrease_kicks: "unat k \<le> 3 \<Longrightarrow> k \<noteq> 0 \<Longrightarrow> unat (k - 1 :: uint8) \<le> 3"
  by (simp add: unat_minus_one)

lemma finder_DecreaseKicks [finder]: "finder_ok s \<Longrightarrow> finder_ok (lfg_DecreaseKicksLeft g s)"
  unfolding lfg_DecreaseKicksLeft_def by (rule finder_upd_group) (auto simp: gd_DecreaseKicksLeft_def decrease_kicks)

lemma finder_fold: "finder_ok s \<Longrightarrow> (\<And>x s. x \<in> set xs \<Longrightarrow> finder_ok s \<Longrightarrow> finder_ok (f x s)) \<Longrightarrow> finder_ok (fold f xs s)"
  by (induction xs arbitrary: s) auto

lemma finder_queue_at: "finder_ok s \<Longrightarrow> entries_ok (queue_at n s)"
  by (auto simp: finder_ok_def queue_at_def split: option.split)

lemma finder_upd_queue: "finder_ok s \<Longrightarrow> entries_ok (f (queue_at n s)) \<Longrightarrow> finder_ok (upd_queue n f s)"
  by (auto simp: finder_ok_def upd_queue_def stores_ok_def)

lemma finder_RemoveFromQueue [finder]: "finder_ok s \<Longrightarrow> finder_ok (upd_queue n (RemoveFromQueue g) s)"
  using finder_queue_at [of s n] by (intro finder_upd_queue entries_ok_Remove) (auto intro: entries_ok_mono)

lemma finder_fold_Remove [finder]: "finder_ok s \<Longrightarrow> finder_ok (upd_queue n (fold RemoveFromQueue gs) s)"
  using finder_queue_at [of s n] by (intro finder_upd_queue entries_ok_fold_Remove) (auto intro: entries_ok_mono)

lemma finder_erase [finder]:
  "finder_ok s \<Longrightarrow> finder_ok (s\<lparr>RoleChecksStore := om_erase g (RoleChecksStore s)\<rparr>)"
  "finder_ok s \<Longrightarrow> finder_ok (s\<lparr>ProposalsStore := om_erase i (ProposalsStore s)\<rparr>)"
  "finder_ok s \<Longrightarrow> finder_ok (s\<lparr>BootsStore := bs\<rparr>)"
  by (auto simp: finder_ok_def stores_ok_def)

lemma finder_set_role_check: "finder_ok s \<Longrightarrow> role_check_ok rc \<Longrightarrow> finder_ok (s\<lparr>RoleChecksStore := om_set g rc (RoleChecksStore s)\<rparr>)"
  by (auto simp: finder_ok_def stores_ok_def)

lemma finder_set_proposal: "finder_ok s \<Longrightarrow> proposal_ok p \<Longrightarrow> finder_ok (s\<lparr>ProposalsStore := om_set i p (ProposalsStore s)\<rparr>)"
  by (auto simp: finder_ok_def stores_ok_def)

subsection \<open>Role checks\<close>

text \<open>The steps for the members do not touch the role checks.\<close>

definition with_checks :: "(uint64, lfg_role_check) omap \<Rightarrow> lfg_mgr \<Rightarrow> lfg_mgr" where
  "with_checks R s = s\<lparr>RoleChecksStore := R\<rparr>"

lemma with_checks_simps [simp]:
  "RoleChecksStore (with_checks R s) = R" "with_checks R (with_checks R' s) = with_checks R s"
  "s\<lparr>RoleChecksStore := R\<rparr> = with_checks R s"
  "lfg_SetState g st (with_checks R s) = with_checks R (lfg_SetState g st s)"
  "lfg_RestoreState g (with_checks R s) = with_checks R (lfg_RestoreState g s)"
  "lfg_SetRoles g r (with_checks R s) = with_checks R (lfg_SetRoles g r s)"
  "to_player env g e (with_checks R s) = with_checks R (to_player env g e s)"
  "PlayersStore (with_checks R s) = PlayersStore s" "GroupsStore (with_checks R s) = GroupsStore s"
  "queue_id g (with_checks R s) = queue_id g s" "queue_at n (with_checks R s) = queue_at n s"
  "upd_queue n f (with_checks R s) = with_checks R (upd_queue n f s)"
  by (simp_all add: with_checks_def lfg_SetState_def lfg_RestoreState_def lfg_SetRoles_def to_player_def lfg_emit_def
      upd_player_def upd_group_def queue_id_def queue_at_def upd_queue_def lfg_GetPlayers_def split: list.split)

lemma RoleChecksStore_simps [simp]:
  "RoleChecksStore (lfg_SetState g st s) = RoleChecksStore s" "RoleChecksStore (lfg_RestoreState g s) = RoleChecksStore s"
  "RoleChecksStore (upd_queue n f s) = RoleChecksStore s"
  by (simp_all add: lfg_SetState_def lfg_RestoreState_def upd_player_def upd_group_def upd_queue_def)

lemma role_check_member_with [simp]:
  "role_check_member env rc b g r e (with_checks R s) = with_checks R (role_check_member env rc b g r e s)"
  by (simp add: role_check_member_def when_do_def Let_def)

lemma fold_member_with [simp]:
  "fold (role_check_member env rc b g r) es (with_checks R s) = with_checks R (fold (role_check_member env rc b g r) es s)"
  by (induction es arbitrary: s) simp_all

lemma finder_member [finder]: "finder_ok s \<Longrightarrow> finder_ok (role_check_member env rc b g r e s)"
  by (simp add: role_check_member_def Let_def finder)

lemma finder_with: "finder_ok s \<Longrightarrow> (\<And>g rc. om_find g R = Some rc \<Longrightarrow> role_check_ok rc) \<Longrightarrow> finder_ok (with_checks R s)"
  unfolding with_checks_def by (simp add: finder_ok_def stores_ok_def del: with_checks_simps(3))

lemma finder_ok_check: "finder_ok s \<Longrightarrow> om_find g (RoleChecksStore s) = Some rc \<Longrightarrow> role_check_ok rc"
  by (simp add: finder_ok_def)

lemma answer_role_cases:
  assumes "rc_state rc0 = LFG_ROLECHECK_INITIALITING"
  obtains (refused) "rc_state (answer_role guid roles rc0) \<in> {LFG_ROLECHECK_ABORTED, LFG_ROLECHECK_NO_ROLE, LFG_ROLECHECK_WRONG_ROLES}"
  | (finished) "guid \<noteq> 0" "rc_state (answer_role guid roles rc0) = LFG_ROLECHECK_FINISHED"
      "rc_roles (answer_role guid roles rc0) = om_set guid roles (rc_roles rc0)"
      "fst (CheckGroupRoles True (om_set guid roles (rc_roles rc0)))"
  | (pending) "answer_role guid roles rc0 = rc0\<lparr>rc_roles := om_set guid roles (rc_roles rc0)\<rparr>"
proof -
  let ?chosen = "om_set guid roles (rc_roles rc0)"
  consider "guid = 0 \<or> roles < PLAYER_ROLE_TANK" | "guid \<noteq> 0" "\<not> roles < PLAYER_ROLE_TANK" "\<forall>e \<in> set ?chosen. snd e \<noteq> PLAYER_ROLE_NONE"
    | "guid \<noteq> 0" "\<not> roles < PLAYER_ROLE_TANK" "\<not> (\<forall>e \<in> set ?chosen. snd e \<noteq> PLAYER_ROLE_NONE)" by blast
  then show thesis
  proof cases
    case 1
    then show ?thesis by (intro refused) (auto simp: answer_role_def)
  next
    case 2
    then have "rc_state (answer_role guid roles rc0) = (if fst (CheckGroupRoles True ?chosen) then LFG_ROLECHECK_FINISHED else LFG_ROLECHECK_WRONG_ROLES)"
      "rc_roles (answer_role guid roles rc0) = ?chosen"
      unfolding answer_role_def Let_def by auto
    then show ?thesis using 2 finished refused by (auto split: if_splits)
  next
    case 3
    then have "answer_role guid roles rc0 = rc0\<lparr>rc_roles := ?chosen\<rparr>" unfolding answer_role_def Let_def by auto
    then show ?thesis by (rule pending)
  qed
qed

lemma answer_role_dungeons [simp]: "rc_dungeons (answer_role guid roles rc0) = rc_dungeons rc0"
  by (simp add: answer_role_def Let_def)

lemma CheckGroupRoles_five: "length gs < 256 \<Longrightarrow> fst (CheckGroupRoles True gs) \<Longrightarrow> length gs \<le> 5"
proof -
  assume a: "length gs < 256" "fst (CheckGroupRoles True gs)"
  let ?r = "snd (CheckGroupRoles True gs)"
  have f: "fills (without_leader gs) ?r" using a by (rule CheckGroupRoles_roles)
  have "\<exists>ph. snd e = phase_role ph" if "e \<in> set ?r" for e
    using fills_mem [OF f that] by (auto simp: may_fill_bits)
  then have "filter (\<lambda>e. \<exists>ph. snd e = phase_role ph) ?r = ?r" by (simp add: filter_id_conv)
  then have "how_many PLAYER_ROLE_TANK ?r + how_many PLAYER_ROLE_HEALER ?r + how_many PLAYER_ROLE_DAMAGE ?r = length ?r"
    using how_many_sum [of ?r] by simp
  moreover have "how_many PLAYER_ROLE_TANK ?r \<le> 1" "how_many PLAYER_ROLE_HEALER ?r \<le> 1" "how_many PLAYER_ROLE_DAMAGE ?r \<le> 3"
    using f by (simp_all add: fills_def)
  moreover have "length ?r = length gs" using fills_length [OF f] by simp
  ultimately show ?thesis by linarith
qed

lemma om_set_twice [simp]: "om_set k v (om_set k v' m) = om_set k v m"
  by (induction k v' m rule: om_set.induct) auto

lemma om_set_not_Nil [simp]: "om_set k v m \<noteq> []"
  by (induction k v m rule: om_set.induct) auto

lemma role_check_entry:
  assumes "role_check_ok rc" and "guid_IsGroup gguid" and "length (rc_roles rc) < 255"
    and "fst (CheckGroupRoles True (om_set guid roles (rc_roles rc)))"
  shows "entry_ok gguid (om_set guid roles (rc_roles rc), rc_dungeons rc)"
proof -
  have "length (om_set guid roles (rc_roles rc)) < 256"
    using length_om_set [where m = "rc_roles rc" and k = guid and v = roles] assms(1,3) by (simp add: role_check_ok_def)
  then have "length (om_set guid roles (rc_roles rc)) \<le> 5" using CheckGroupRoles_five assms(4) by blast
  then show ?thesis using assms by (simp add: entry_ok_def offer_ok_def MAXGROUPSIZE_def role_check_ok_def)
qed

lemma finder_UpdateRoleCheck:
  assumes "finder_ok s" and "guid \<noteq> 0 \<Longrightarrow> guid_IsGroup gguid"
    and "\<And>rc. guid \<noteq> 0 \<Longrightarrow> om_find gguid (RoleChecksStore s) = Some rc \<Longrightarrow> length (rc_roles rc) < 255"
  shows "finder_ok (UpdateRoleCheck env gguid guid roles s)"
proof (cases "gguid = 0 \<or> om_find gguid (RoleChecksStore s) = None")
  case True
  then show ?thesis using assms(1) by (auto simp: UpdateRoleCheck_def)
next
  case False
  then obtain rc0 where rc0: "om_find gguid (RoleChecksStore s) = Some rc0" and g: "gguid \<noteq> 0" by auto
  note ok0 = finder_ok_check [OF assms(1) rc0]
  define rc where "rc = answer_role guid roles rc0"
  define b where "b \<longleftrightarrow> rc_state rc0 \<noteq> LFG_ROLECHECK_DEFAULT \<and> guid \<noteq> 0"
  define s1 where "s1 = fold (role_check_member env rc b guid roles) (rc_roles rc) s"
  let ?R = "om_set gguid rc (RoleChecksStore s)"
  have s1: "finder_ok s1" unfolding s1_def by (rule finder_fold [OF assms(1)]) (rule finder)
  have erased: "role_check_ok rc'" if "om_find g' (om_erase gguid ?R) = Some rc'" for g' rc'
    using that finder_ok_check [OF assms(1)] by (auto split: if_splits)
  have gone: "finder_ok x \<Longrightarrow> finder_ok (with_checks (om_erase gguid ?R) x)" for x
    by (rule finder_with [OF _ erased])
  have eq: "UpdateRoleCheck env gguid guid roles s =
      (if rc_state rc = LFG_ROLECHECK_FINISHED
       then with_checks (om_erase gguid ?R)
         (let s2 = lfg_SetState gguid LFG_STATE_QUEUED s1
          in upd_queue (queue_id gguid s2) (AddQueueData gguid (me_time env) (rc_dungeons rc) (rc_roles rc)) s2)
       else if rc_state rc \<noteq> LFG_ROLECHECK_INITIALITING
       then with_checks (om_erase gguid ?R) (lfg_RestoreState gguid s1)
       else with_checks ?R s1)"
    using rc0 g by (simp add: UpdateRoleCheck_def Let_def rc_def b_def s1_def)
  have "rc_state rc0 = LFG_ROLECHECK_INITIALITING" using ok0 by (simp add: role_check_ok_def)
  then show ?thesis
  proof (cases rule: answer_role_cases [where guid = guid and roles = roles])
    case refused
    then have "UpdateRoleCheck env gguid guid roles s = with_checks (om_erase gguid ?R) (lfg_RestoreState gguid s1)"
      unfolding eq rc_def by auto
    then show ?thesis using gone [OF finder_RestoreState [OF s1]] by simp
  next
    case finished
    let ?s2 = "lfg_SetState gguid LFG_STATE_QUEUED s1"
    have "entry_ok gguid (rc_roles rc, rc_dungeons rc)"
      using role_check_entry [OF ok0 assms(2) [OF finished(1)] assms(3) [OF finished(1) rc0] finished(4)] finished(3) by (simp add: rc_def)
    then have "finder_ok (upd_queue (queue_id gguid ?s2) (AddQueueData gguid (me_time env) (rc_dungeons rc) (rc_roles rc)) ?s2)"
      using finder_SetState [OF s1] by (intro finder_upd_queue entries_ok_AddQueueData finder_queue_at)
    then show ?thesis unfolding eq using gone finished(2) by (simp add: rc_def Let_def)
  next
    case pending
    have "role_check_ok rc" using ok0 pending by (simp add: rc_def role_check_ok_def)
    then have "role_check_ok rc'" if "om_find g' ?R = Some rc'" for g' rc'
      using that finder_ok_check [OF assms(1)] by (auto split: if_splits)
    moreover have "rc_state rc = LFG_ROLECHECK_INITIALITING" using pending ok0 by (simp add: rc_def role_check_ok_def)
    moreover from calculation(1) have "finder_ok (with_checks ?R s1)" by (rule finder_with [OF s1])
    ultimately show ?thesis unfolding eq by simp
  qed
qed

subsection \<open>Proposals\<close>

lemma fst_map_pair [simp]: "fst ` (\<lambda>(g, pp). (g, f g pp)) ` A = fst ` A"
  by (force simp: image_iff)

lemma close_proposal_queues [simp]: "lp_queues (close_proposal type p) = lp_queues p"
  by (simp add: close_proposal_def Let_def)

lemma finder_notify [finder]: "finder_ok s \<Longrightarrow> finder_ok (notify_removed env type p removed e s)"
  by (simp add: notify_removed_def Let_def finder)

lemma finder_AddToQueue [finder]: "finder_ok s \<Longrightarrow> finder_ok (upd_queue n (fold AddToQueue gs) s)"
  using finder_queue_at [of s n] entries_ok_offer [OF offer_fold_AddToQueue]
  by (intro finder_upd_queue) simp_all

lemma finder_RemoveProposal [finder]: "finder_ok s \<Longrightarrow> finder_ok (RemoveProposal env i type s)"
  unfolding RemoveProposal_def Let_def by (cases "om_find i (ProposalsStore s)") (auto intro!: finder_erase finder_AddToQueue finder_fold_Remove finder_fold finder_notify)

text \<open>While the players of a completed proposal are settled, its entries are about to go.\<close>

definition with_queue :: "uint8 \<Rightarrow> lfg_mgr \<Rightarrow> lfg_mgr" where
  "with_queue n s = s\<lparr>QueuesStore := om_set n queue_new (QueuesStore s)\<rparr>"

definition finder_ok_but :: "uint8 \<Rightarrow> uint64 set \<Rightarrow> lfg_mgr \<Rightarrow> bool" where
  "finder_ok_but n G s \<longleftrightarrow> finder_ok (with_queue n s) \<and> entries_ok_but G (queue_at n s)"

lemma finder_ok_but_mono: "finder_ok s \<Longrightarrow> finder_ok_but n G s"
  using finder_queue_at [of s n]
  by (auto simp: finder_ok_but_def finder_ok_def with_queue_def stores_ok_def intro: entries_ok_mono)

lemma finder_ok_but_remove:
  assumes "finder_ok_but n G s" and "G \<subseteq> set gs"
  shows "finder_ok (upd_queue n (fold RemoveFromQueue gs) s)"
proof -
  have "entries_ok (fold RemoveFromQueue gs (queue_at n s))"
    using assms entries_ok_mono [of G "queue_at n s" "set gs"] by (intro entries_ok_fold_Remove) (simp add: finder_ok_but_def)
  then show ?thesis
    using assms(1) by (auto simp: finder_ok_but_def finder_ok_def with_queue_def upd_queue_def stores_ok_def split: if_splits)
qed

lemma with_queue_simps [simp]:
  "with_queue n (to_player env g e s) = to_player env g e (with_queue n s)"
  "with_queue n (lfg_SetState g st s) = lfg_SetState g st (with_queue n s)"
  "with_queue n (upd_queue n f s) = with_queue n s"
  "queue_at n (to_player env g e s) = queue_at n s" "queue_at n (lfg_SetState g st s) = queue_at n s"
  "queue_at n (upd_queue n f s) = f (queue_at n s)"
  by (simp_all add: with_queue_def to_player_def lfg_emit_def lfg_SetState_def upd_player_def upd_group_def upd_queue_def queue_at_def
      fun_eq_iff om_set_twice)

lemma finder_ok_but_simple:
  "finder_ok_but n G s \<Longrightarrow> finder_ok_but n G (to_player env g e s)"
  "finder_ok_but n G s \<Longrightarrow> finder_ok_but n G (lfg_SetState g st s)"
  "finder_ok_but n G s \<Longrightarrow> entries_ok_but G (f (queue_at n s)) \<Longrightarrow> finder_ok_but n G (upd_queue n f s)"
  by (simp_all add: finder_ok_but_def finder)

lemma entries_ok_JoinTime: "entries_ok_but G q \<Longrightarrow> g \<in> G \<Longrightarrow> entries_ok_but G (snd (queue_GetJoinTime g now q))"
  by (auto simp: entries_ok_but_def queue_GetJoinTime_def offer_def split: option.splits if_splits)

lemma entries_ok_wait: "entries_ok_but G q \<Longrightarrow> entries_ok_but G (role_update_wait role t d q)"
  by (simp add: entries_ok_but_def role_update_wait_def offer_def UpdateWaitTimeDps_def UpdateWaitTimeHealer_def UpdateWaitTimeTank_def UpdateWaitTimeAvg_def)

lemma finder_ok_but_settle:
  assumes "finder_ok_but n G (snd acc)" and "queue_guid (fst e) (snd e) \<in> G"
  shows "finder_ok_but n G (snd (settle_player env p b n e acc))"
proof -
  obtain ut s where acc: "acc = (ut, s)" by (cases acc)
  have g: "(if pp_group (snd e) \<noteq> 0 then pp_group (snd e) else fst e) \<in> G" using assms(2) by (simp add: queue_guid_def)
  have s: "finder_ok_but n G s" using assms(1) acc by simp
  obtain joined q where q: "queue_GetJoinTime (if pp_group (snd e) \<noteq> 0 then pp_group (snd e) else fst e) (me_time env)
      (queue_at n (when_do b (to_player env (fst e) (SendUpdateProposal (fst e) p)) s)) = (joined, q)" by fastforce
  have s1: "finder_ok_but n G (when_do b (to_player env (fst e) (SendUpdateProposal (fst e) p)) s)"
    using s by (simp add: when_do_def finder_ok_but_simple)
  have "entries_ok_but G q"
    using entries_ok_JoinTime [OF _ g, of _ "me_time env"] s1 q unfolding finder_ok_but_def by (metis snd_conv)
  then have "finder_ok_but n G (upd_queue n (\<lambda>_. q) (when_do b (to_player env (fst e) (SendUpdateProposal (fst e) p)) s))"
    by (intro finder_ok_but_simple(3) [OF s1])
  moreover have "finder_ok_but n G s' \<Longrightarrow> finder_ok_but n G (upd_queue n (role_update_wait r t d) s')" for s' r t d
    by (rule finder_ok_but_simple(3)) (auto intro: entries_ok_wait simp: finder_ok_but_def)
  ultimately show ?thesis
    unfolding settle_player_def acc Let_def by (simp add: q finder_ok_but_simple split: prod.split)
qed

definition callbacks_ok :: "mgr_env \<Rightarrow> bool" where
  "callbacks_ok env \<longleftrightarrow> (\<forall>p s. finder_ok s \<longrightarrow> finder_ok (me_MakeNewGroup env p s)) \<and>
     (\<forall>g v s. finder_ok s \<longrightarrow> finder_ok (me_RemoveFromGroup env g v s)) \<and>
     (\<forall>n lo hi. lo \<le> hi \<longrightarrow> lo \<le> me_urand env n lo hi \<and> me_urand env n lo hi \<le> hi)"

lemma finder_complete:
  assumes "finder_ok s" and "proposal_ok p" and "callbacks_ok env"
  shows "finder_ok (complete_proposal env i guid p s)"
proof -
  let ?p = "p\<lparr>lp_state := LFG_PROPOSAL_SUCCESS\<rparr>"
  let ?s0 = "s\<lparr>ProposalsStore := om_set i ?p (ProposalsStore s)\<rparr>"
  let ?n = "queue_id guid ?s0"
  let ?b = "lp_state p \<noteq> LFG_PROPOSAL_SUCCESS"
  have "proposal_ok ?p" using assms(2) by (simp add: proposal_ok_def)
  then have "finder_ok ?s0" by (rule finder_set_proposal [OF assms(1)])
  then have start: "finder_ok_but ?n (set (lp_queues p)) ?s0" by (rule finder_ok_but_mono)
  have all: "finder_ok_but ?n (set (lp_queues p)) (snd (fold (settle_player env ?p ?b ?n) es (ut, s')))"
    if "finder_ok_but ?n (set (lp_queues p)) s'" "set es \<subseteq> set (lp_players p)" for es ut s'
    using that
  proof (induction es arbitrary: ut s')
    case (Cons e es)
    have "finder_ok_but ?n (set (lp_queues p)) (snd (settle_player env ?p ?b ?n e (ut, s')))"
      using Cons.prems assms(2) by (intro finder_ok_but_settle) (auto simp: proposal_ok_def)
    moreover obtain ut2 s2 where s2: "settle_player env ?p ?b ?n e (ut, s') = (ut2, s2)" by fastforce
    ultimately show ?case using Cons.IH [of s2 ut2] Cons.prems(2) by simp
  qed simp
  have "finder_ok (upd_queue ?n (fold RemoveFromQueue (lp_queues p)) (snd (fold (settle_player env ?p ?b ?n) (lp_players p) (LFG_UPDATETYPE_GROUP_FOUND, ?s0))))"
    by (rule finder_ok_but_remove [OF all [OF start]]) auto
  then show ?thesis
    using assms(3) unfolding complete_proposal_def Let_def
    by (simp add: callbacks_ok_def case_prod_beta finder_erase)
qed

lemma finder_UpdateProposal:
  assumes "finder_ok s" and "callbacks_ok env"
  shows "finder_ok (UpdateProposal env i guid accept s)"
proof (cases "om_find i (ProposalsStore s)")
  case (Some p0)
  then have ok0: "proposal_ok p0" using assms(1) by (simp add: finder_ok_def)
  show ?thesis
  proof (cases "om_find guid (lp_players p0)")
    case pp: (Some pp)
    let ?p = "p0\<lparr>lp_players := om_set guid (pp\<lparr>pp_accept := (if accept then LFG_ANSWER_AGREE else LFG_ANSWER_DENY)\<rparr>) (lp_players p0)\<rparr>"
    let ?s1 = "s\<lparr>ProposalsStore := om_set i ?p (ProposalsStore s)\<rparr>"
    have "proposal_ok ?p"
    proof -
      have mem: "(guid, pp) \<in> set (lp_players p0)" using pp by (rule map_of_SomeD)
      have "set (om_set k v m) \<subseteq> insert (k, v) (set m)" for k :: uint64 and v :: lfg_proposal_player and m
        by (induction k v m rule: om_set.induct) auto
      then show ?thesis using ok0 mem unfolding proposal_ok_def by (fastforce simp: queue_guid_def)
    qed
    then have s1: "finder_ok ?s1" by (rule finder_set_proposal [OF assms(1)])
    have notified: "finder_ok (fold (\<lambda>(g, _). to_player env g (SendUpdateProposal g ?p)) es ?s1)" for es :: "(uint64 \<times> lfg_proposal_player) list"
      by (rule finder_fold [OF s1]) (auto intro: finder)
    show ?thesis
      unfolding UpdateProposal_def Let_def Some option.case pp
      using finder_RemoveProposal [OF s1] notified finder_complete [OF s1 \<open>proposal_ok ?p\<close> assms(2)] by (cases accept) simp_all
  qed (use assms Some in \<open>simp add: UpdateProposal_def\<close>)
qed (use assms in \<open>simp add: UpdateProposal_def\<close>)

subsection \<open>Votes, leaving, joining\<close>

lemma finder_set_boot [finder]: "finder_ok s \<Longrightarrow> finder_ok (s\<lparr>BootsStore := f s\<rparr>)"
  by (rule finder_erase)

lemma finder_InitBoot: "finder_ok s \<Longrightarrow> finder_ok (InitBoot env gguid kicker victim reason s)"
  unfolding InitBoot_def Let_def by (intro finder_fold finder)

lemma finder_end_boot: "finder_ok s \<Longrightarrow> callbacks_ok env \<Longrightarrow> finder_ok (end_boot env gguid boot s)"
proof -
  assume s: "finder_ok s" and env: "callbacks_ok env"
  have told: "finder_ok (fold (\<lambda>(g, _). when_do (g \<noteq> v) (\<lambda>s. to_player env g (SendBootProposalUpdate g b) (lfg_SetState g LFG_STATE_DUNGEON s))) es s)"
    for v b and es :: "(uint64 \<times> lfg_answer) list"
    by (rule finder_fold [OF s]) (auto intro!: finder_when finder_to_player finder_SetState)
  have kicked: "finder_ok s' \<Longrightarrow> finder_ok (me_RemoveFromGroup env g v (lfg_emit es s'))" for s' g v es
    using env finder_emit by (simp add: callbacks_ok_def)
  show ?thesis
    unfolding end_boot_def Let_def by (intro finder_erase(3) finder_when finder_SetState finder_DecreaseKicks told kicked)
qed

lemma finder_UpdateBoot: "finder_ok s \<Longrightarrow> callbacks_ok env \<Longrightarrow> finder_ok (UpdateBoot env guid accept s)"
  by (auto simp: UpdateBoot_def Let_def intro!: finder_end_boot finder_erase(3) split: option.split)

lemma proposal_ok_deny:
  assumes "proposal_ok p" and "om_find g (lp_players p) = Some pp"
  shows "proposal_ok (p\<lparr>lp_players := om_set g (pp\<lparr>pp_accept := a\<rparr>) (lp_players p)\<rparr>)"
proof -
  have mem: "(g, pp) \<in> set (lp_players p)" using assms(2) by (rule map_of_SomeD)
  have "set (om_set k v m) \<subseteq> insert (k, v) (set m)" for k :: uint64 and v :: lfg_proposal_player and m
    by (induction k v m rule: om_set.induct) auto
  then show ?thesis using assms(1) mem unfolding proposal_ok_def by (fastforce simp: queue_guid_def)
qed

lemma finder_LeaveLfg: "finder_ok s \<Longrightarrow> finder_ok (LeaveLfg env guid s)"
proof -
  assume s: "finder_ok s"
  define gguid where "gguid = (if guid_IsGroup guid then guid else lfg_GetGroup guid s)"
  have queued: "finder_ok (fold (\<lambda>p s. to_player env p (SendUpdateParty p u) (lfg_SetState p LFG_STATE_NONE s)) ps s')"
    if "finder_ok s'" for u ps s'
    by (rule finder_fold [OF that]) (intro finder)
  have refused: "finder_ok (s\<lparr>ProposalsStore := om_set i p (ProposalsStore s)\<rparr>)" if d: "deny_in_first g (ProposalsStore s) = Some (i, p)" for g i p
  proof -
    from d obtain p0 pp where p0: "(i, p0) \<in> set (ProposalsStore s)" "om_find g (lp_players p0) = Some pp"
      "p = p0\<lparr>lp_players := om_set g (pp\<lparr>pp_accept := LFG_ANSWER_DENY\<rparr>) (lp_players p0)\<rparr>"
      by (auto simp: deny_in_first_def filter_eq_Cons_iff split: list.splits prod.splits)
    then have "om_find i (ProposalsStore s) = Some p0" using s om_ok_distinct map_of_is_SomeI unfolding finder_ok_def by metis
    then have "proposal_ok p0" using s by (auto simp: finder_ok_def)
    then show ?thesis using p0 proposal_ok_deny by (intro finder_set_proposal [OF s]) auto
  qed
  have left_queue: "finder_ok (if gguid \<noteq> 0
      then (let s1 = lfg_SetState gguid LFG_STATE_NONE (upd_queue (queue_id gguid s) (RemoveFromQueue gguid) s)
            in fold (\<lambda>p s. to_player env p (SendUpdateParty p (update_only LFG_UPDATETYPE_REMOVED_FROM_QUEUE)) (lfg_SetState p LFG_STATE_NONE s))
                 (lfg_GetPlayers gguid s1) s1)
      else lfg_SetState guid LFG_STATE_NONE (to_player env guid (SendUpdatePlayer guid (update_only LFG_UPDATETYPE_REMOVED_FROM_QUEUE))
             (upd_queue (queue_id guid s) (RemoveFromQueue guid) s)))"
    unfolding Let_def using finder_RemoveFromQueue [OF s] by (auto intro!: queued finder_SetState finder_to_player)
  have checked: "finder_ok (when_do (gguid \<noteq> 0) (UpdateRoleCheck env gguid 0 PLAYER_ROLE_NONE) s)"
    using finder_UpdateRoleCheck [OF s, of 0] by (simp add: when_do_def s)
  have proposed: "finder_ok (case deny_in_first x (ProposalsStore s) of None \<Rightarrow> s
      | Some (i, p) \<Rightarrow> RemoveProposal env i LFG_UPDATETYPE_PROPOSAL_DECLINED (s\<lparr>ProposalsStore := om_set i p (ProposalsStore s)\<rparr>))" for x
    using refused s by (auto intro: finder_RemoveProposal split: option.split)
  have rest: "finder_ok (when_do (guid \<noteq> gguid) (lfg_SetState guid LFG_STATE_NONE) s)"
    using s by (intro finder_when finder_SetState)
  show ?thesis
    using left_queue checked proposed rest s unfolding LeaveLfg_def gguid_def [symmetric] Let_def
    by (cases "lfg_GetState guid s") simp_all
qed

subsection \<open>The update\<close>

lemma finder_expire_all: "finder_ok s \<Longrightarrow> finder_ok (expire_all env s)"
proof -
  assume s: "finder_ok s"
  have rc: "finder_ok (expire_role_check env e s')" if "finder_ok s'" for e s'
  proof -
    have "finder_ok (fold (\<lambda>(g, _) s. when_do (g = l) (to_player env g (j g)) (to_player env g (r g) (lfg_RestoreState g s))) es s')"
      for l j r and es :: lfg_roles
      by (rule finder_fold [OF that]) (auto intro!: finder_RestoreState finder_when finder_to_player)
    then show ?thesis
      unfolding expire_role_check_def Let_def
      by (simp only: if_split) (intro conjI impI finder_erase(1) finder_RestoreState that)
  qed
  have pr: "finder_ok (expire_proposal env e s')" if "finder_ok s'" for e s'
    unfolding expire_proposal_def using that by (intro finder_when finder_RemoveProposal)
  have bt: "finder_ok (expire_boot env e s')" if "finder_ok s'" for e s'
    unfolding expire_boot_def Let_def using that
    by (auto intro!: finder_erase(3) finder_SetState finder_fold finder_when finder_to_player)
  show ?thesis unfolding expire_all_def Let_def by (intro finder_fold [OF _ rc] finder_fold [OF _ pr] finder_fold [OF _ bt] s)
qed

interpretation ordered_search: groups_invariant env "\<lambda>s. om_ok (run_proposals s)" for env
  by unfold_locales (simp_all add: propose_def split: prod.split)

lemma proposal_sound_ok:
  assumes "entries_ok q" and "proposal_sound env q p"
  shows "proposal_ok p"
  unfolding proposal_ok_def
proof
  fix e
  assume e: "e \<in> set (lp_players p)"
  obtain g r where g: "g \<in> set (lp_queues p)" "(fst e, r) \<in> set (players_of q g)" "pp_group (snd e) = group_guid g"
    using assms(2) e unfolding proposal_sound_def by (metis prod.collapse)
  then obtain o1 where o: "offer q g = Some o1" using assms(2) unfolding proposal_sound_def by blast
  show "queue_guid (fst e) (snd e) \<in> set (lp_queues p)"
  proof (cases "guid_IsGroup g")
    case True
    then have "g \<noteq> 0" by (auto simp: guid_IsGroup_def)
    then show ?thesis using True g by (simp add: queue_guid_def group_guid_def)
  next
    case False
    then have "map fst (players_of q g) = [g]"
      using assms(1) o offer_eq [OF o] unfolding entries_ok_but_def entry_ok_def by (metis empty_iff)
    then have "fst e = g" using g(2) by (cases "players_of q g") auto
    then show ?thesis using False g by (simp add: queue_guid_def group_guid_def)
  qed
qed

lemma finder_search_queue:
  assumes "finder_ok s" and "callbacks_ok env"
  shows "finder_ok (search_queue env n s)"
proof -
  let ?env = "search_env env s"
  let ?run = "\<lparr>run_queue = queue_at n s, run_proposals = ProposalsStore s, run_id = m_lfgProposalId s, run_drawn = m_drawn s\<rparr>"
  let ?r = "snd (FindGroups ?env ?run 0)"
  have q: "entries_ok (queue_at n s)" using assms(1) by (rule finder_queue_at)
  have u: "urand_ok ?env" using assms(2) by (simp add: callbacks_ok_def urand_ok_def search_env_def)
  have "offer (run_queue ?r) = offer (queue_at n s)"
    using offer_search.keeps_FindGroups [OF refl, of ?run "offer (queue_at n s)" ?env 0] by simp
  then have "entries_ok (run_queue ?r)" using q entries_ok_offer by blast
  moreover have "om_ok (run_proposals ?r)"
    using ordered_search.keeps_FindGroups [OF refl, of ?run ?env 0] assms(1) by (simp add: finder_ok_def)
  moreover have "proposal_ok p" if "om_find i (run_proposals ?r) = Some p" for i p
  proof -
    have "sound_run ?env ?run ?r" by (rule sound_search.keeps_FindGroups [OF refl]) (simp add: sound_run_def)
    then have "om_find i (ProposalsStore s) = Some p \<or> proposal_sound ?env (queue_at n s) p"
      using that u entries_ok_queue_ok [OF q] by (auto simp: sound_run_def)
    then show ?thesis using assms(1) proposal_sound_ok [OF q] by (auto simp: finder_ok_def)
  qed
  ultimately show ?thesis
    using assms(1) unfolding search_queue_def Let_def by (auto simp: finder_ok_def stores_ok_def)
qed

lemma finder_announce:
  assumes "finder_ok s" and "callbacks_ok env"
  shows "finder_ok (announce_new env i s)"
proof -
  have player: "finder_ok (announce_player env p g s')" if "finder_ok s'" for p g s'
    unfolding announce_player_def Let_def using that by (auto intro!: finder_to_player finder_SetState)
  have "finder_ok (announce_proposal env e s')" if "finder_ok s'" for e s'
    unfolding announce_proposal_def Let_def
    by (intro finder_when finder_UpdateProposal assms(2) finder_fold [OF that] player)
  then show ?thesis unfolding announce_new_def using assms(1) by (auto intro!: finder_fold)
qed

lemma offer_UpdateQueueTimers: "offer (snd (UpdateQueueTimers now q)) = offer q"
  by (rule ext) (auto simp: UpdateQueueTimers_def Let_def offer_def find_map_entries refresh_entry_def option.map_comp comp_def intro!: map_option_cong)

lemma finder_status_queue: "finder_ok s \<Longrightarrow> finder_ok (status_queue env n s)"
proof -
  assume s: "finder_ok s"
  obtain es q where q: "UpdateQueueTimers (me_time env) (queue_at n s) = (es, q)" by fastforce
  have "entries_ok q" using finder_queue_at [OF s] entries_ok_offer [OF offer_UpdateQueueTimers] q by (metis snd_conv)
  then have "finder_ok (s\<lparr>QueuesStore := om_set n q (QueuesStore s)\<rparr>)" using s by (auto simp: finder_ok_def stores_ok_def)
  then show ?thesis unfolding status_queue_def by (auto simp: q intro!: finder_fold finder_to_player)
qed

lemma finder_Update:
  assumes "finder_ok s" and "callbacks_ok env"
  shows "finder_ok (lfg_Update env diff s)"
proof -
  let ?s3 = "expire_all env s"
  let ?s5 = "announce_new env (m_lfgProposalId ?s3) (search_all env ?s3)"
  have "finder_ok ?s3" using assms(1) by (rule finder_expire_all)
  then have "finder_ok (search_all env ?s3)"
    unfolding search_all_def by (rule finder_fold) (rule finder_search_queue [OF _ assms(2)])
  then have s5: "finder_ok ?s5" using assms(2) by (rule finder_announce)
  then have "finder_ok (?s5\<lparr>m_QueueTimer := t\<rparr>)" for t by (simp add: finder_ok_def stores_ok_def)
  then have "finder_ok (fold (status_queue env) ns (?s5\<lparr>m_QueueTimer := 0\<rparr>))" "finder_ok (?s5\<lparr>m_QueueTimer := t\<rparr>)" for ns t
    by (auto intro!: finder_fold finder_status_queue)
  then show ?thesis using assms(1) by (simp add: lfg_Update_def Let_def)
qed

subsection \<open>Joining, and the scripts\<close>

lemma GetCompatible_some: "GetCompatibleDungeons locked players ds = (ds', m) \<Longrightarrow> ds' \<noteq> [] \<Longrightarrow> m = []"
  by (auto simp: GetCompatibleDungeons_def Let_def case_prod_beta)

lemma join_decision_ok: "join_decision de locked player grp ds0 = (LFG_JOIN_OK, ds, r, raid, m) \<Longrightarrow> ds \<noteq> []"
  by (auto simp: join_decision_def Let_def split: prod.splits if_splits)

lemma om_ok_fold_set: "om_ok m \<Longrightarrow> om_ok (fold (\<lambda>g. om_set g v) gs m)"
  by (induction gs arbitrary: m) simp_all

lemma length_fold_set: "om_ok m \<Longrightarrow> length (fold (\<lambda>g. om_set g v) gs m) \<le> length m + length gs"
proof (induction gs arbitrary: m)
  case (Cons g gs)
  have "length (om_set g v m) \<le> Suc (length m)" using length_om_set [OF Cons.prems, where k = g and v = v] by simp
  then show ?case using Cons.IH [of "om_set g v m"] Cons.prems by simp
qed simp

definition old_check_roles :: "uint64 \<Rightarrow> lfg_mgr \<Rightarrow> lfg_roles" where
  "old_check_roles g s = (case om_find g (RoleChecksStore s) of Some rc \<Rightarrow> rc_roles rc | None \<Rightarrow> [])"

lemma finder_begin:
  assumes "finder_ok s" and "ds \<noteq> []"
  shows "finder_ok (begin_role_check env gguid leader ds r b comment ms s)"
    "om_find gguid (RoleChecksStore (begin_role_check env gguid leader ds r b comment ms s)) = Some rc \<Longrightarrow>
       length (rc_roles rc) \<le> length (old_check_roles gguid s) + length (List.map_filter id ms)"
proof -
  have old: "om_ok (old_check_roles gguid s)"
    using assms(1) by (auto simp: old_check_roles_def finder_ok_def role_check_ok_def split: option.split)
  let ?shown = "if r \<noteq> 0 then [r] else ds"
  let ?s2 = "fold (\<lambda>g s. when_do (\<not> b) (lfg_SetSelectedDungeons g ?shown) (lfg_SetState g LFG_STATE_ROLECHECK
      (lfg_emit [SendUpdateParty g \<lparr>ud_updateType = LFG_UPDATETYPE_JOIN_QUEUE, ud_dungeons = ?shown, ud_comment = comment\<rparr>] s)))
      (map jm_guid (List.map_filter id ms)) (lfg_SetState gguid LFG_STATE_ROLECHECK s)"
  have s2: "finder_ok ?s2" by (intro finder_fold finder_SetState assms(1) finder_when finder_setters(4) finder_emit)
  let ?rc = "\<lparr>rc_cancelTime = me_time env + LFG_TIME_ROLECHECK, rc_roles = fold (\<lambda>g. om_set g 0) (map jm_guid (List.map_filter id ms)) (old_check_roles gguid s),
      rc_state = LFG_ROLECHECK_INITIALITING, rc_dungeons = ds, rc_rDungeonId = r, rc_leader = leader\<rparr>"
  have eq: "begin_role_check env gguid leader ds r b comment ms s = ?s2\<lparr>RoleChecksStore := om_set gguid ?rc (RoleChecksStore ?s2)\<rparr>"
    by (simp only: begin_role_check_def Let_def old_check_roles_def)
  have "role_check_ok ?rc" using om_ok_fold_set [OF old] assms(2) by (simp add: role_check_ok_def)
  then show "finder_ok (begin_role_check env gguid leader ds r b comment ms s)"
    unfolding eq by (rule finder_set_role_check [OF s2])
  show "length (rc_roles rc) \<le> length (old_check_roles gguid s) + length (List.map_filter id ms)"
    if "om_find gguid (RoleChecksStore (begin_role_check env gguid leader ds r b comment ms s)) = Some rc"
    using that length_fold_set [OF old, of 0 "map jm_guid (List.map_filter id ms)"] unfolding eq by auto
qed

text \<open>A group that joins has a group's GUID, and it and the members who have answered before are few.\<close>

definition group_fits :: "join_group option \<Rightarrow> lfg_mgr \<Rightarrow> bool" where
  "group_fits grp s \<longleftrightarrow>
     (case grp of None \<Rightarrow> True
      | Some g \<Rightarrow> guid_IsGroup (jg_guid g) \<and>
          length (old_check_roles (jg_guid g) s) + length (jg_members g) < 255)"

lemma length_map_filter_id: "length (List.map_filter id ms) \<le> length ms"
  by (simp add: List.map_filter_def)

lemma finder_JoinLfg:
  assumes s: "finder_ok s" and grp: "group_fits grp s" and pl: "jm_guid player \<noteq> 0"
  shows "finder_ok (JoinLfg env de locked player grp roles ds0 comment s)"
proof (cases "ds0 = []")
  case False
  define guid where "guid = jm_guid player"
  define gguid where "gguid = (case grp of Some g \<Rightarrow> jg_guid g | None \<Rightarrow> guid)"
  define cont where "cont = (case grp of Some g \<Rightarrow> jg_isLFG g \<and> lfg_GetState gguid s \<noteq> LFG_STATE_FINISHED_DUNGEON | None \<Rightarrow> False)"
  define s1 where "s1 = when_do (lfg_GetState gguid s = LFG_STATE_QUEUED) (upd_queue (queue_id gguid s) (RemoveFromQueue gguid)) s"
  obtain r ds rd raid m where d: "join_decision de locked player grp (if cont then [gd_GetDungeon True (GroupsStore s gguid)] else ds0) = (r, ds, rd, raid, m)"
    by (metis prod_cases5)
  have s1: "finder_ok s1" unfolding s1_def by (intro finder_when s finder_RemoveFromQueue)
  have rcs1: "RoleChecksStore s1 = RoleChecksStore s" by (simp add: s1_def when_do_def)
  let ?s2 = "lfg_SetComment guid comment s1"
  have s2: "finder_ok ?s2" by (rule finder_setters(3) [OF s1])
  have rcs2: "old_check_roles gguid ?s2 = old_check_roles gguid s"
    by (simp add: old_check_roles_def lfg_SetComment_def upd_player_def rcs1)
  show ?thesis
  proof (cases "r = LFG_JOIN_OK \<and> \<not> raid")
    case False
    then show ?thesis
      using \<open>ds0 \<noteq> []\<close> d finder_emit [OF s1] s2
      unfolding JoinLfg_def Let_def guid_def [symmetric] gguid_def [symmetric] cont_def [symmetric] s1_def [symmetric] by auto
  next
    case ok: True
    then have ds: "ds \<noteq> []" using join_decision_ok d by blast
    show ?thesis
    proof (cases grp)
      case None
      let ?s3 = "upd_queue (queue_id guid ?s2) (AddQueueData guid (me_time env) ds [(guid, roles)]) ?s2"
      have "entry_ok guid ([(guid, roles)], ds)" using ds by (simp add: entry_ok_def offer_ok_def om_ok_def MAXGROUPSIZE_def)
      then have "finder_ok ?s3" by (intro finder_upd_queue [OF s2] entries_ok_AddQueueData finder_queue_at [OF s2])
      then have "finder_ok (lfg_SetRoles guid roles (lfg_SetState gguid LFG_STATE_QUEUED (lfg_emit es (lfg_SetSelectedDungeons guid sh ?s3))))" for es sh
        by (intro finder_setters(2) finder_SetState finder_emit finder_setters(4))
      then show ?thesis
        using \<open>ds0 \<noteq> []\<close> d ok None
        unfolding JoinLfg_def Let_def guid_def [symmetric] gguid_def [symmetric] cont_def [symmetric] s1_def [symmetric] by simp
    next
      case (Some g)
      have gg: "guid_IsGroup gguid" "length (old_check_roles gguid ?s2) + length (jg_members g) < 255"
        using grp Some rcs2 by (simp_all add: group_fits_def gguid_def)
      let ?s3 = "begin_role_check env gguid guid ds rd cont comment (jg_members g) ?s2"
      have "length (rc_roles rc) < 255" if "om_find gguid (RoleChecksStore ?s3) = Some rc" for rc
        using finder_begin(2) [OF s2 ds that] gg(2) length_map_filter_id [of "jg_members g"] by linarith
      then have "finder_ok (UpdateRoleCheck env gguid guid roles ?s3)"
        using gg(1) by (intro finder_UpdateRoleCheck finder_begin(1) [OF s2 ds]) auto
      then show ?thesis
        using \<open>ds0 \<noteq> []\<close> d ok Some
        unfolding JoinLfg_def Let_def guid_def [symmetric] gguid_def [symmetric] cont_def [symmetric] s1_def [symmetric] by simp
    qed
  qed
qed (use s in \<open>simp add: JoinLfg_def\<close>)

lemma finder_SetupGroupMember: "finder_ok s \<Longrightarrow> finder_ok (SetupGroupMember guid gguid s)"
  unfolding SetupGroupMember_def Let_def by (intro finder)

lemma finder_RemoveGroupData: "finder_ok s \<Longrightarrow> finder_ok (lfg_RemoveGroupData env guid s)"
  unfolding lfg_RemoveGroupData_def Let_def
  by (intro finder_upd_group finder_fold) (auto intro!: finder simp: gd_new_def resting_def LFG_GROUP_MAX_KICKS_def)

lemma finder_scripts:
  assumes "finder_ok s"
  shows "finder_ok (OnLogout env guid inGroup s)" "finder_ok (OnLogin twoSide guid team grp s)"
    "finder_ok (OnAddMember env gguid leader guid s)" "finder_ok (OnRemoveMember env gguid isLFG inDungeon guid meth kicker reason s)"
    "finder_ok (OnDisband env gguid s)" "finder_ok (OnChangeLeader gguid leader s)" "finder_ok (OnInviteMember env gguid leader s)"
    "finder_ok (OnMapChanged env de guid mapId difficulty members s)"
proof -
  show "finder_ok (OnMapChanged env de guid mapId difficulty members s)"
    unfolding OnMapChanged_def Let_def using assms
    by (cases members) (auto intro!: finder_emit finder_when finder_LeaveLfg)
  show "finder_ok (OnLogout env guid inGroup s)" "finder_ok (OnDisband env gguid s)" "finder_ok (OnInviteMember env gguid leader s)"
    "finder_ok (OnChangeLeader gguid leader s)"
    unfolding OnLogout_def OnDisband_def OnInviteMember_def OnChangeLeader_def
    using assms by (auto intro!: finder_when finder_LeaveLfg finder_RemoveGroupData finder_setters)
  show "finder_ok (OnLogin twoSide guid team grp s)"
    unfolding OnLogin_def using assms
    by (cases grp) (auto intro!: finder_when finder_setters finder_SetupGroupMember simp: comp_def)
  have left: "finder_ok (lfg_AddPlayerToGroup gguid guid (lfg_SetGroup guid gguid s'))" if "finder_ok s'" for s'
    using that by (intro finder_setters)
  show "finder_ok (OnAddMember env gguid leader guid s)"
    unfolding OnAddMember_def Let_def using assms
    by (intro finder_when left) (auto intro!: finder_when finder_setters finder_LeaveLfg)
  show "finder_ok (OnRemoveMember env gguid isLFG inDungeon guid meth kicker reason s)"
    unfolding OnRemoveMember_def Let_def case_prod_beta using assms
    by (auto intro!: finder_InitBoot finder_when finder_to_player finder_setters finder_LeaveLfg)
qed

section \<open>Every sequence of operations\<close>

text \<open>
  The finder starts empty. A step is a call of the manager by a handler, a script or the world loop, or
  one of the functions it gives to the others; the parameters are whatever they are, the environment
  is one whose callbacks keep the invariant.
\<close>

definition lfg_start :: "uint32 \<Rightarrow> lfg_mgr" where
  "lfg_start options = \<lparr>PlayersStore = \<lambda>_. pd_new, GroupsStore = \<lambda>_. gd_new, QueuesStore = [], RoleChecksStore = [], ProposalsStore = [],
     BootsStore = [], m_lfgProposalId = 1, m_QueueTimer = 0, m_options = options, m_drawn = 0, m_events = []\<rparr>"

inductive finder_step :: "lfg_mgr \<Rightarrow> lfg_mgr \<Rightarrow> bool" where
  step_join: "jm_guid player \<noteq> 0 \<Longrightarrow> group_fits grp s \<Longrightarrow> finder_step s (JoinLfg env de locked player grp roles dungeons comment s)"
| step_leave: "finder_step s (LeaveLfg env guid s)"
| step_role: "guid_IsGroup gguid \<Longrightarrow> length (old_check_roles gguid s) < 255 \<Longrightarrow> finder_step s (UpdateRoleCheck env gguid guid roles s)"
| step_answer: "callbacks_ok env \<Longrightarrow> finder_step s (UpdateProposal env i guid accept s)"
| step_vote: "callbacks_ok env \<Longrightarrow> finder_step s (UpdateBoot env guid accept s)"
| step_update: "callbacks_ok env \<Longrightarrow> finder_step s (lfg_Update env diff s)"
| step_comment: "finder_step s (lfg_SetComment guid comment s)"
| step_setup: "finder_step s (SetupGroupMember guid gguid s)"
| step_logout: "finder_step s (OnLogout env guid inGroup s)"
| step_login: "finder_step s (OnLogin twoSide guid team mygroup s)"
| step_add: "finder_step s (OnAddMember env gguid leader guid s)"
| step_remove: "finder_step s (OnRemoveMember env gguid isLFG inDungeon guid meth kicker reason s)"
| step_disband: "finder_step s (OnDisband env gguid s)"
| step_leader: "finder_step s (OnChangeLeader gguid leader s)"
| step_invite: "finder_step s (OnInviteMember env gguid leader s)"
| step_map: "finder_step s (OnMapChanged env de guid mapId difficulty members s)"
| step_clean: "finder_step s (s\<lparr>QueuesStore := []\<rparr>)"
| step_options: "finder_step s (s\<lparr>m_options := options\<rparr>)"

inductive finder_reachable :: "lfg_mgr \<Rightarrow> bool" where
  reach_start: "finder_reachable (lfg_start options)"
| reach_step: "finder_reachable s \<Longrightarrow> finder_step s s' \<Longrightarrow> finder_reachable s'"

lemma finder_plain:
  "finder_ok s \<Longrightarrow> finder_ok (s\<lparr>QueuesStore := []\<rparr>)" "finder_ok s \<Longrightarrow> finder_ok (s\<lparr>m_options := opts\<rparr>)"
  by (simp_all add: finder_ok_def stores_ok_def)

lemma finder_step_ok: "finder_step s s' \<Longrightarrow> finder_ok s \<Longrightarrow> finder_ok s'"
proof (induction rule: finder_step.induct)
  case (step_role gguid s env guid roles)
  then show ?case by (intro finder_UpdateRoleCheck) (auto simp: old_check_roles_def)
qed (auto intro: finder_JoinLfg finder_LeaveLfg finder_UpdateProposal finder_UpdateBoot finder_Update finder_setters
       finder_SetupGroupMember finder_scripts finder_plain)

lemma finder_start_ok: "finder_ok (lfg_start options)"
  by (simp add: finder_ok_def stores_ok_def lfg_start_def pd_new_def gd_new_def resting_def LFG_GROUP_MAX_KICKS_def)


definition quiet_env :: mgr_env where
  "quiet_env = \<lparr>me_inWorld = \<lambda>_. True, me_ignoring = \<lambda>_ _. False, me_time = 1000, me_urand = \<lambda>_ lo _. lo, me_groupExists = \<lambda>_. True,
     me_MakeNewGroup = \<lambda>_ s. s, me_RemoveFromGroup = \<lambda>_ _ s. s\<rparr>"

definition one_dungeon :: dungeon_env where
  "one_dungeon = \<lparr>de_dungeons = [18 \<mapsto> \<lparr>dd_id = 18, dd_map = 43, dd_type = LFG_TYPE_DUNGEON, dd_expansion = 0, dd_group = 1, dd_minlevel = 15,
       dd_maxlevel = 25, dd_difficulty = 0, dd_seasonal = False\<rparr>],
     de_cached = \<lambda>_. [], de_requirement = \<lambda>_ _. None, de_holiday = \<lambda>_. False\<rparr>"

definition player_7 :: join_member where
  "player_7 = \<lparr>jm_guid = 7, jm_permission = True, jm_battleground = False, jm_deserter = False, jm_cooldown = False\<rparr>"


end
