(* ===== verification/LFG_Theorems.thy ===== *)
theory LFG_Theorems
  imports LFG_Invariant
begin

text \<open>
  What the operations of the dungeon finder do: a request to join, a role check, an answer to a
  proposal, the removal of a proposal, a vote to kick, the start of new proposals.
\<close>

section \<open>What the steps leave as it is\<close>

lemma state_simps [simp]:
  "lfg_GetState g (lfg_emit es s) = lfg_GetState g s" "lfg_GetOldState g (lfg_emit es s) = lfg_GetOldState g s"
  "lfg_GetState g (to_player env g' e s) = lfg_GetState g s" "lfg_GetOldState g (to_player env g' e s) = lfg_GetOldState g s"
  "lfg_GetState g (upd_queue n f s) = lfg_GetState g s" "lfg_GetOldState g (upd_queue n f s) = lfg_GetOldState g s"
  "lfg_GetState g (lfg_SetRoles g' r s) = lfg_GetState g s" "lfg_GetOldState g (lfg_SetRoles g' r s) = lfg_GetOldState g s"
  "lfg_GetState g (with_checks R s) = lfg_GetState g s" "lfg_GetOldState g (with_checks R s) = lfg_GetOldState g s"
  by (auto simp: lfg_GetState_def lfg_GetOldState_def lfg_emit_def to_player_def upd_queue_def lfg_SetRoles_def upd_player_def
      with_checks_def simp del: with_checks_simps(3))

lemma GetOldState_SetState: "\<not> resting st \<Longrightarrow> lfg_GetOldState g (lfg_SetState g' st s) = lfg_GetOldState g s"
  by (auto simp: lfg_GetOldState_def lfg_SetState_def upd_player_def upd_group_def pd_SetState_def gd_SetState_def resting_def Let_def
      split: lfg_state.splits)

lemma GetOldState_RestoreState [simp]: "lfg_GetOldState g (lfg_RestoreState g' s) = lfg_GetOldState g s"
  by (auto simp: lfg_GetOldState_def lfg_RestoreState_def upd_player_def upd_group_def pd_RestoreState_def gd_RestoreState_def Let_def)

lemma queue_simps [simp]:
  "queue_id g (lfg_emit es s) = queue_id g s" "queue_id g (upd_queue n f s) = queue_id g s"
  "queue_at n (lfg_emit es s) = queue_at n s" "queue_at n (upd_queue n f s) = f (queue_at n s)"
  by (auto simp: queue_id_def queue_at_def lfg_emit_def upd_queue_def lfg_GetPlayers_def split: list.split)

lemma RemoveFromQueue_lists:
  "newToQueueStore (RemoveFromQueue g q) = filter (\<lambda>x. x \<noteq> g) (newToQueueStore q)"
  "currentQueueStore (RemoveFromQueue g q) = filter (\<lambda>x. x \<noteq> g) (currentQueueStore q)"
  by (simp_all add: RemoveFromQueue_def RemoveFromCompatibles_def RemoveFromCurrentQueue_def RemoveFromNewQueue_def Let_def)

section \<open>Joining\<close>

lemma lock_one_fst: "fst (lock_one guid e acc) = filter (\<lambda>d. d \<noteq> fst e AND 0x00FFFFFF) (fst acc)"
  by (cases acc) (auto simp: lock_one_def Let_def ss_erase_def intro!: filter_True [symmetric])

lemma lock_fold_fst:
  "fst (fold (lock_one guid) es acc) = filter (\<lambda>d. \<forall>e \<in> set es. d \<noteq> fst e AND 0x00FFFFFF) (fst acc)"
  by (induction es arbitrary: acc) (auto simp: lock_one_fst intro!: filter_cong)

definition noted :: "uint32 \<Rightarrow> uint64 \<Rightarrow> lfg_lock_party_map \<Rightarrow> bool" where
  "noted d g lockMap \<longleftrightarrow> (case om_find g lockMap of None \<Rightarrow> False | Some m \<Rightarrow> om_find d m \<noteq> None)"

lemma lock_one_noted:
  "d \<in> set (fst acc) \<Longrightarrow> d \<notin> set (fst (lock_one guid e acc)) \<Longrightarrow> noted d guid (snd (lock_one guid e acc))"
  by (cases acc) (auto simp: lock_one_def Let_def noted_def split: if_splits)

lemma lock_one_keeps: "noted d g (snd acc) \<Longrightarrow> noted d g (snd (lock_one guid e acc))"
  by (cases acc) (auto simp: lock_one_def Let_def noted_def split: option.splits)

lemma lock_fold_noted:
  "noted d g (snd acc) \<Longrightarrow> noted d g (snd (fold (lock_one guid) es acc))"
  by (induction es arbitrary: acc) (simp_all add: lock_one_keeps)

lemma lock_fold_new:
  "d \<in> set (fst acc) \<Longrightarrow> d \<notin> set (fst (fold (lock_one guid) es acc)) \<Longrightarrow> noted d guid (snd (fold (lock_one guid) es acc))"
proof (induction es arbitrary: acc)
  case (Cons e es)
  show ?case
  proof (cases "d \<in> set (fst (lock_one guid e acc))")
    case True
    then show ?thesis using Cons.IH Cons.prems(2) by simp
  next
    case False
    have "noted d guid (snd (lock_one guid e acc))"
      by (rule lock_one_noted [OF Cons.prems(1) False])
    then show ?thesis by (simp add: lock_fold_noted)
  qed
qed simp

definition locked_for :: "(uint64 \<Rightarrow> lfg_lock_map) \<Rightarrow> uint64 \<Rightarrow> uint32 \<Rightarrow> bool" where
  "locked_for locked g d \<longleftrightarrow> (\<exists>e \<in> set (locked g). d = fst e AND 0x00FFFFFF)"

definition lock_player_step :: "(uint64 \<Rightarrow> lfg_lock_map) \<Rightarrow> uint64 \<Rightarrow> uint32 list \<times> lfg_lock_party_map \<Rightarrow> uint32 list \<times> lfg_lock_party_map" where
  "lock_player_step locked guid acc = (if fst acc = [] then acc else fold (lock_one guid) (locked guid) acc)"

lemma lock_players_fst:
  "fst (fold (lock_player_step locked) players acc) = filter (\<lambda>d. \<forall>g \<in> set players. \<not> locked_for locked g d) (fst acc)"
  by (induction players arbitrary: acc) (auto simp: lock_player_step_def lock_fold_fst locked_for_def intro!: filter_cong)

lemma lock_players_noted:
  "noted d g (snd acc) \<Longrightarrow> noted d g (snd (fold (lock_player_step locked) players acc))"
  by (induction players arbitrary: acc) (auto simp: lock_player_step_def lock_fold_noted)

lemma lock_players_new:
  "d \<in> set (fst acc) \<Longrightarrow> d \<notin> set (fst (fold (lock_player_step locked) players acc)) \<Longrightarrow>
     \<exists>g \<in> set players. noted d g (snd (fold (lock_player_step locked) players acc))"
proof (induction players arbitrary: acc)
  case (Cons g players)
  show ?case
  proof (cases "d \<in> set (fst (lock_player_step locked g acc))")
    case True
    then show ?thesis using Cons.IH Cons.prems(2) by fastforce
  next
    case False
    have "noted d g (snd (lock_player_step locked g acc))"
      using lock_fold_new [OF Cons.prems(1), of g "locked g"] False Cons.prems(1) by (auto simp: lock_player_step_def)
    then show ?thesis using lock_players_noted by auto
  qed
qed simp

text \<open>
  The dungeons left for a group are those chosen that are locked for none of its players, in order;
  the reasons are given only when none is left, and then for every dungeon chosen there is a player
  with a reason.
\<close>

theorem compatible_dungeons:
  "let (ds, lockMap) = GetCompatibleDungeons locked players dungeons
   in ds = filter (\<lambda>d. \<forall>g \<in> set players. \<not> locked_for locked g d) dungeons \<and>
      (if ds \<noteq> [] then lockMap = [] else (\<forall>d \<in> set dungeons. \<exists>g \<in> set players. noted d g lockMap))"
proof -
  let ?r = "fold (lock_player_step locked) players (dungeons, [])"
  have eq: "GetCompatibleDungeons locked players dungeons = (fst ?r, if fst ?r \<noteq> [] then [] else snd ?r)"
    by (simp add: GetCompatibleDungeons_def Let_def case_prod_beta lock_player_step_def [abs_def])
  have "\<exists>g \<in> set players. noted d g (snd ?r)" if "fst ?r = []" "d \<in> set dungeons" for d
    using lock_players_new [of d "(dungeons, [])" locked players] that by simp
  then show ?thesis by (simp add: eq lock_players_fst)
qed

theorem compatible_dungeons_witness:
  "fst (GetCompatibleDungeons (\<lambda>g. if g = 7 then [(0x01000012, 2)] else []) [5, 7] [18, 20]) = [20]"
  using compatible_dungeons [of "\<lambda>g. if g = 7 then [(0x01000012, 2)] else []" "[5, 7]" "[18, 20]"]
  by (simp add: Let_def case_prod_beta locked_for_def)

text \<open>
  C37. A player who waits and asks to join again in a way that is refused has left the queue, and is told
  the reason, but his state says that he is still waiting.
\<close>

theorem join_refused_drops:
  assumes "dungeons \<noteq> []" and "lfg_GetState (jm_guid player) s = LFG_STATE_QUEUED"
    and "fst (join_decision de locked player None dungeons) \<noteq> LFG_JOIN_OK"
  shows "let s' = JoinLfg env de locked player None roles dungeons comment s; q = queue_at (queue_id (jm_guid player) s') s'
    in lfg_GetState (jm_guid player) s' = LFG_STATE_QUEUED \<and> jm_guid player \<notin> set (newToQueueStore q) \<and>
       jm_guid player \<notin> set (currentQueueStore q) \<and> offer q (jm_guid player) = None"
proof -
  let ?g = "jm_guid player"
  obtain r ds rd raid m where d: "join_decision de locked player None dungeons = (r, ds, rd, raid, m)" by (metis prod_cases5)
  let ?s' = "lfg_emit [SendJoinResult ?g \<lparr>jd_result = r, jd_state = LFG_ROLECHECK_DEFAULT, jd_lockmap = (if ds \<noteq> [] then [] else m)\<rparr>]
      (upd_queue (queue_id ?g s) (RemoveFromQueue ?g) s)"
  have j: "JoinLfg env de locked player None roles dungeons comment s = ?s'"
    using assms d by (simp add: JoinLfg_def Let_def when_do_def)
  have "queue_at (queue_id ?g ?s') ?s' = RemoveFromQueue ?g (queue_at (queue_id ?g s) s)" by simp
  then show ?thesis using assms(2) unfolding j Let_def
    by (simp add: RemoveFromQueue_lists offer_RemoveFromQueue)
qed

definition waiting_7 :: lfg_mgr where
  "waiting_7 = JoinLfg quiet_env one_dungeon (\<lambda>_. []) player_7 None 8 [18] [] (lfg_start 3)"

theorem join_refused_drops_witness:
  "let s' = JoinLfg quiet_env one_dungeon (\<lambda>_. []) player_7 None 8 [99] [] waiting_7; q = queue_at (queue_id 7 s') s'
   in lfg_GetState 7 s' = LFG_STATE_QUEUED \<and> 7 \<notin> set (newToQueueStore q) \<and> 7 \<notin> set (currentQueueStore q) \<and> offer q 7 = None"
proof -
  have s: "lfg_GetState (jm_guid player_7) waiting_7 = LFG_STATE_QUEUED"
    unfolding waiting_7_def by code_simp
  have r: "fst (join_decision one_dungeon (\<lambda>_. []) player_7 None [99]) \<noteq> LFG_JOIN_OK" by code_simp
  have g: "jm_guid player_7 = 7" by (simp add: player_7_def)
  show ?thesis using join_refused_drops [OF _ s r, of quiet_env 8 "[]"] unfolding g by simp
qed

section \<open>Role checks\<close>

lemma member_states:
  "lfg_GetOldState g (role_check_member env rc b guid roles e s) = lfg_GetOldState g s"
  "lfg_GetState g (role_check_member env rc b guid roles e s) =
     (if fst e \<noteq> g \<or> rc_state rc = LFG_ROLECHECK_INITIALITING then lfg_GetState g s
      else if rc_state rc = LFG_ROLECHECK_FINISHED then LFG_STATE_QUEUED else lfg_GetOldState g s)"
  by (simp_all add: role_check_member_def Let_def when_do_def GetState_SetState GetState_RestoreState GetOldState_SetState resting_def)

lemma members_states:
  "lfg_GetOldState g (fold (role_check_member env rc b guid roles) es s) = lfg_GetOldState g s"
  "lfg_GetState g (fold (role_check_member env rc b guid roles) es s) =
     (if g \<notin> om_keys es \<or> rc_state rc = LFG_ROLECHECK_INITIALITING then lfg_GetState g s
      else if rc_state rc = LFG_ROLECHECK_FINISHED then LFG_STATE_QUEUED else lfg_GetOldState g s)"
  by (induction es arbitrary: s) (auto simp: member_states)

lemma UpdateRoleCheck_eq:
  assumes "gguid \<noteq> 0" and "om_find gguid (RoleChecksStore s) = Some rc0"
  obtains s1 where "s1 = fold (role_check_member env (answer_role guid roles rc0) (rc_state rc0 \<noteq> LFG_ROLECHECK_DEFAULT \<and> guid \<noteq> 0) guid roles)
      (rc_roles (answer_role guid roles rc0)) (s\<lparr>RoleChecksStore := om_set gguid (answer_role guid roles rc0) (RoleChecksStore s)\<rparr>)"
    and "UpdateRoleCheck env gguid guid roles s =
      (let rc = answer_role guid roles rc0
       in if rc_state rc = LFG_ROLECHECK_FINISHED
          then
            let s2 = lfg_SetState gguid LFG_STATE_QUEUED s1;
                s3 = upd_queue (queue_id gguid s2) (AddQueueData gguid (me_time env) (rc_dungeons rc) (rc_roles rc)) s2
            in s3\<lparr>RoleChecksStore := om_erase gguid (RoleChecksStore s3)\<rparr>
          else if rc_state rc \<noteq> LFG_ROLECHECK_INITIALITING
          then (let s2 = lfg_RestoreState gguid s1 in s2\<lparr>RoleChecksStore := om_erase gguid (RoleChecksStore s2)\<rparr>)
          else s1)"
  using assms by (simp add: UpdateRoleCheck_def Let_def del: with_checks_simps(3))

text \<open>The three answers to a choice of roles\<close>

definition chosen_by_all :: "lfg_roles \<Rightarrow> bool" where
  "chosen_by_all gs \<longleftrightarrow> (\<forall>e \<in> set gs. snd e \<noteq> PLAYER_ROLE_NONE)"

definition can_be_filled :: "lfg_roles \<Rightarrow> bool" where
  "can_be_filled gs \<longleftrightarrow> (\<exists>gs'. fills (without_leader gs) gs')"

definition role_refused :: "uint64 \<Rightarrow> uint8 \<Rightarrow> lfg_roles \<Rightarrow> bool" where
  "role_refused guid roles chosen \<longleftrightarrow> guid = 0 \<or> roles < PLAYER_ROLE_TANK \<or> (chosen_by_all chosen \<and> \<not> can_be_filled chosen)"

lemma answer_role_three:
  assumes "role_check_ok rc0" and "length (rc_roles rc0) < 255"
  shows "let chosen = om_set guid roles (rc_roles rc0); rc = answer_role guid roles rc0
    in if role_refused guid roles chosen then rc_state rc \<notin> {LFG_ROLECHECK_INITIALITING, LFG_ROLECHECK_FINISHED}
       else if \<not> chosen_by_all chosen then rc = rc0\<lparr>rc_roles := chosen\<rparr> \<and> rc_state rc = LFG_ROLECHECK_INITIALITING
       else rc_roles rc = chosen \<and> rc_state rc = LFG_ROLECHECK_FINISHED"
proof -
  let ?chosen = "om_set guid roles (rc_roles rc0)"
  have "length ?chosen < 256"
    using length_om_set [where m = "rc_roles rc0" and k = guid and v = roles] assms by (simp add: role_check_ok_def)
  then have "fst (CheckGroupRoles True ?chosen) \<longleftrightarrow> can_be_filled ?chosen"
    unfolding can_be_filled_def by (rule CheckGroupRoles_iff) simp
  moreover have "rc_state rc0 = LFG_ROLECHECK_INITIALITING" using assms(1) by (simp add: role_check_ok_def)
  ultimately show ?thesis unfolding Let_def role_refused_def answer_role_def chosen_by_all_def by auto
qed

text \<open>
  C32. An answer to a role check has one of three outcomes. It is refused when the leader has left,
  when no role is chosen, and when everyone has chosen but the roles cannot be given out: then the
  check is over and everyone is where he was before it. It waits while someone has not chosen. And
  when the roles can be given out, everyone and the group wait in the queue of their team, under the
  group's GUID, with the roles and the dungeons of the check.
\<close>

theorem role_check_outcome:
  assumes "gguid \<noteq> 0" and "om_find gguid (RoleChecksStore s) = Some rc" and "role_check_ok rc" and "length (rc_roles rc) < 255"
    and "guid \<in> insert 0 (om_keys (rc_roles rc))"
  shows "let chosen = om_set guid roles (rc_roles rc); all = insert gguid (om_keys (rc_roles rc));
      s' = UpdateRoleCheck env gguid guid roles s; q = queue_at (queue_id gguid s') s'
    in if role_refused guid roles chosen
       then om_find gguid (RoleChecksStore s') = None \<and>
         (\<forall>g. lfg_GetState g s' = (if g \<in> all then lfg_GetOldState g s else lfg_GetState g s))
       else if \<not> chosen_by_all chosen
       then om_find gguid (RoleChecksStore s') = Some (rc\<lparr>rc_roles := chosen\<rparr>) \<and> (\<forall>g. lfg_GetState g s' = lfg_GetState g s)
       else om_find gguid (RoleChecksStore s') = None \<and>
         (\<forall>g. lfg_GetState g s' = (if g \<in> all then LFG_STATE_QUEUED else lfg_GetState g s)) \<and>
         offer q gguid = Some (chosen, rc_dungeons rc) \<and> gguid \<in> set (newToQueueStore q)"
proof -
  let ?chosen = "om_set guid roles (rc_roles rc)"
  let ?a = "answer_role guid roles rc"
  obtain s1 where s1: "s1 = fold (role_check_member env ?a (rc_state rc \<noteq> LFG_ROLECHECK_DEFAULT \<and> guid \<noteq> 0) guid roles)
      (rc_roles ?a) (with_checks (om_set gguid ?a (RoleChecksStore s)) s)"
    and eq: "UpdateRoleCheck env gguid guid roles s =
      (if rc_state ?a = LFG_ROLECHECK_FINISHED
       then with_checks (om_erase gguid (RoleChecksStore s1))
         (let s2 = lfg_SetState gguid LFG_STATE_QUEUED s1
          in upd_queue (queue_id gguid s2) (AddQueueData gguid (me_time env) (rc_dungeons ?a) (rc_roles ?a)) s2)
       else if rc_state ?a \<noteq> LFG_ROLECHECK_INITIALITING
       then with_checks (om_erase gguid (RoleChecksStore s1)) (lfg_RestoreState gguid s1)
       else s1)"
    by (rule UpdateRoleCheck_eq [OF assms(1,2), of env guid roles]) (simp add: Let_def)
  have keys: "om_keys (rc_roles ?a) = om_keys (rc_roles rc)"
    using assms(5) by (auto simp: answer_role_def Let_def)
  have R: "RoleChecksStore s1 = om_set gguid ?a (RoleChecksStore s)" unfolding s1 by simp
  note st = members_states [where env = env and rc = ?a and guid = guid and roles = roles and es = "rc_roles ?a"]
  note three = answer_role_three [OF assms(3,4), of guid roles, unfolded Let_def]
  consider (refused) "role_refused guid roles ?chosen" "rc_state ?a \<notin> {LFG_ROLECHECK_INITIALITING, LFG_ROLECHECK_FINISHED}"
    | (waits) "\<not> role_refused guid roles ?chosen" "\<not> chosen_by_all ?chosen" "?a = rc\<lparr>rc_roles := ?chosen\<rparr>" "rc_state ?a = LFG_ROLECHECK_INITIALITING"
    | (finished) "\<not> role_refused guid roles ?chosen" "chosen_by_all ?chosen" "rc_roles ?a = ?chosen" "rc_state ?a = LFG_ROLECHECK_FINISHED"
    using three by (auto split: if_splits)
  then show ?thesis
  proof cases
    case refused
    have "lfg_GetState g (UpdateRoleCheck env gguid guid roles s) =
        (if g \<in> insert gguid (om_keys (rc_roles rc)) then lfg_GetOldState g s else lfg_GetState g s)" for g
      using refused(2) unfolding eq by (auto simp: GetState_RestoreState s1 st keys)
    then show ?thesis using refused unfolding Let_def by (simp add: eq R)
  next
    case waits
    have "lfg_GetState g (UpdateRoleCheck env gguid guid roles s) = lfg_GetState g s" for g
      using waits(4) unfolding eq by (simp add: s1 st)
    then show ?thesis using waits unfolding Let_def by (simp add: eq R)
  next
    case finished
    let ?s' = "UpdateRoleCheck env gguid guid roles s"
    have "lfg_GetState g ?s' =
        (if g \<in> insert gguid (om_keys (rc_roles rc)) then LFG_STATE_QUEUED else lfg_GetState g s)" for g
      using finished(4) unfolding eq by (auto simp: GetState_SetState Let_def s1 st keys)
    moreover have "queue_at (queue_id gguid ?s') ?s' =
        AddQueueData gguid (me_time env) (rc_dungeons rc) ?chosen
          (queue_at (queue_id gguid (lfg_SetState gguid LFG_STATE_QUEUED s1)) (lfg_SetState gguid LFG_STATE_QUEUED s1))"
      using finished(3,4) unfolding eq by (simp add: Let_def)
    moreover have "gguid \<in> set (newToQueueStore (AddQueueData gguid t ds rs q))" for t ds rs q
      by (simp add: AddQueueData_def AddToQueue_def AddToNewQueue_def)
    ultimately show ?thesis using finished unfolding Let_def by (simp add: eq R offer_AddQueueData Let_def)
  qed
qed

definition pair_check :: lfg_role_check where
  "pair_check = \<lparr>rc_cancelTime = 45100, rc_roles = [(5, 4), (7, 0)], rc_state = LFG_ROLECHECK_INITIALITING,
     rc_dungeons = [18], rc_rDungeonId = 0, rc_leader = 5\<rparr>"

definition pair_waits :: lfg_mgr where
  "pair_waits = (lfg_start 3)\<lparr>RoleChecksStore := [(0x1F50000000000001, pair_check)]\<rparr>"

theorem role_check_outcome_witness:
  "let s' = UpdateRoleCheck quiet_env 0x1F50000000000001 7 0x0A pair_waits
   in om_find 0x1F50000000000001 (RoleChecksStore s') = None \<and>
      (\<forall>g. lfg_GetState g s' = (if g \<in> {0x1F50000000000001, 5, 7} then LFG_STATE_QUEUED else lfg_GetState g pair_waits)) \<and>
      offer (queue_at (queue_id 0x1F50000000000001 s') s') 0x1F50000000000001 = Some ([(5, 4), (7, 0x0A)], [18])"
proof -
  have rc: "om_find 0x1F50000000000001 (RoleChecksStore pair_waits) = Some pair_check"
    by (simp add: pair_waits_def with_checks_def del: with_checks_simps(3))
  have ok: "role_check_ok pair_check" "length (rc_roles pair_check) < 255" "7 \<in> insert 0 (om_keys (rc_roles pair_check))"
    by (simp_all add: role_check_ok_def pair_check_def om_ok_def)
  have chosen: "om_set 7 0x0A (rc_roles pair_check) = [(5, 4), (7, 0x0A)]" "om_keys (rc_roles pair_check) = {5, 7}"
    "rc_dungeons pair_check = [18]"
    by (simp_all add: pair_check_def)
  have "fills (without_leader [(5, 4), (7, 0x0A)]) [(5, 4), (7, 8)]"
    by code_simp
  then have r: "\<not> role_refused 7 0x0A [(5, 4), (7, 0x0A)]" "chosen_by_all [(5, 4), (7, 0x0A)]"
    by (auto simp: role_refused_def can_be_filled_def chosen_by_all_def PLAYER_ROLE_TANK_def PLAYER_ROLE_NONE_def)
  show ?thesis
    using role_check_outcome [OF _ rc ok, of "0x0A" quiet_env] r unfolding chosen Let_def by simp
qed

section \<open>Removing a proposal\<close>

lemma queue_id_simps [simp]:
  "queue_id g (lfg_SetState g' st s) = queue_id g s" "queue_id g (lfg_RestoreState g' s) = queue_id g s"
  "queue_id g (to_player env g' e s) = queue_id g s"
  "queue_at n (lfg_SetState g' st s) = queue_at n s" "queue_at n (lfg_RestoreState g' s) = queue_at n s"
  "queue_at n (to_player env g' e s) = queue_at n s"
  by (auto simp: queue_id_def queue_at_def lfg_SetState_def lfg_RestoreState_def to_player_def lfg_emit_def upd_player_def upd_group_def
      lfg_GetPlayers_def pd_SetState_def gd_SetState_def pd_RestoreState_def gd_RestoreState_def Let_def split: list.split)

lemma notify_queue [simp]:
  "queue_id g (notify_removed env type p R e s) = queue_id g s" "queue_at n (notify_removed env type p R e s) = queue_at n s"
  by (simp_all add: notify_removed_def Let_def)

lemma notify_all_queue [simp]:
  "queue_id g (fold (notify_removed env type p R) es s) = queue_id g s" "queue_at n (fold (notify_removed env type p R) es s) = queue_at n s"
  by (induction es arbitrary: s) simp_all

lemma notify_states:
  "lfg_GetOldState x (notify_removed env type p R e s) = lfg_GetOldState x s"
  "lfg_GetState x (notify_removed env type p R e s) =
     (if x \<in> {fst e, queue_guid (fst e) (snd e)}
      then (if queue_guid (fst e) (snd e) \<in> set R then lfg_GetOldState x s else LFG_STATE_QUEUED)
      else lfg_GetState x s)"
  by (auto simp: notify_removed_def Let_def GetState_SetState GetState_RestoreState GetOldState_SetState resting_def queue_guid_def)

lemma notify_all_states:
  assumes "\<And>e. e \<in> set es \<Longrightarrow> x \<in> {fst e, queue_guid (fst e) (snd e)} \<Longrightarrow> (queue_guid (fst e) (snd e) \<in> set R) = b"
    and "\<exists>e \<in> set es. x \<in> {fst e, queue_guid (fst e) (snd e)}"
  shows "lfg_GetState x (fold (notify_removed env type p R) es s) = (if b then lfg_GetOldState x s else LFG_STATE_QUEUED)"
proof -
  have old: "lfg_GetOldState x (fold (notify_removed env type p R) es s) = lfg_GetOldState x s" for es s
    by (induction es arbitrary: s) (simp_all add: notify_states)
  have "lfg_GetState x (fold (notify_removed env type p R) es s) =
      (if \<exists>e \<in> set es. x \<in> {fst e, queue_guid (fst e) (snd e)} then (if b then lfg_GetOldState x s else LFG_STATE_QUEUED) else lfg_GetState x s)"
    using assms(1)
  proof (induction es rule: rev_induct)
    case (snoc e es)
    then have ih: "lfg_GetState x (fold (notify_removed env type p R) es s) =
      (if \<exists>e \<in> set es. x \<in> {fst e, queue_guid (fst e) (snd e)} then (if b then lfg_GetOldState x s else LFG_STATE_QUEUED) else lfg_GetState x s)"
      by simp
    have e: "x \<in> {fst e, queue_guid (fst e) (snd e)} \<Longrightarrow> (queue_guid (fst e) (snd e) \<in> set R) = b" by (rule snoc.prems) simp
    show ?case
      by (cases "x \<in> {fst e, queue_guid (fst e) (snd e)}") (use e ih in \<open>simp_all add: notify_states old\<close>)
  qed simp
  then show ?thesis using assms(2) by simp
qed

text \<open>Who leaves the queue with a proposal that fails\<close>

definition leaves :: "lfg_update_type \<Rightarrow> lfg_proposal \<Rightarrow> uint64 set" where
  "leaves type p = set (map (\<lambda>e. queue_guid (fst e) (snd e)) (filter (\<lambda>e. has_denied type (snd e)) (lp_players p)))"

lemma set_to_remove: "set (to_remove type p) = leaves type p"
proof -
  have "set (fold (\<lambda>(g, pp). when_do (has_denied type pp) (ss_insert (queue_guid g pp))) es acc) =
      set (map (\<lambda>e. queue_guid (fst e) (snd e)) (filter (\<lambda>e. has_denied type (snd e)) es)) \<union> set acc"
    for es :: "(uint64 \<times> lfg_proposal_player) list" and acc
    by (induction es arbitrary: acc) (auto simp: when_do_def simp del: set_map)
  then show ?thesis by (simp add: to_remove_def leaves_def)
qed

definition close_answer :: "lfg_update_type \<Rightarrow> lfg_proposal_player \<Rightarrow> lfg_proposal_player" where
  "close_answer type pp = (if has_denied type pp then pp\<lparr>pp_accept := LFG_ANSWER_DENY\<rparr> else pp)"

lemma close_proposal_players: "lp_players (close_proposal type p) = map (\<lambda>(g, pp). (g, close_answer type pp)) (lp_players p)"
  by (auto simp: close_proposal_def Let_def close_answer_def has_denied_def)

lemma close_answer_simps [simp]:
  "has_denied type (close_answer type pp) = has_denied type pp" "queue_guid g (close_answer type pp) = queue_guid g pp"
  "pp_group (close_answer type pp) = pp_group pp"
  by (auto simp: close_answer_def has_denied_def queue_guid_def)

lemma leaves_close [simp]: "leaves type (close_proposal type p) = leaves type p"
  by (simp add: leaves_def close_proposal_players filter_map comp_def case_prod_beta image_image)

lemma fold_Remove_offer: "offer (fold RemoveFromQueue gs q) = (\<lambda>g. if g \<in> set gs then None else offer q g)"
  by (induction gs arbitrary: q) (auto simp: offer_RemoveFromQueue)

lemma fold_Remove_lists:
  "newToQueueStore (fold RemoveFromQueue gs q) = filter (\<lambda>x. x \<notin> set gs) (newToQueueStore q)"
  "currentQueueStore (fold RemoveFromQueue gs q) = filter (\<lambda>x. x \<notin> set gs) (currentQueueStore q)"
  by (induction gs arbitrary: q) (auto simp: RemoveFromQueue_lists intro!: filter_cong)

lemma fold_Add_lists:
  "set (newToQueueStore (fold AddToQueue gs q)) = set (newToQueueStore q) \<union> {g \<in> set gs. offer q g \<noteq> None}"
  "currentQueueStore (fold AddToQueue gs q) = currentQueueStore q"
proof -
  have n: "set (newToQueueStore (AddToQueue g q)) = set (newToQueueStore q) \<union> {x. x = g \<and> offer q g \<noteq> None}" for g q
    by (auto simp: AddToQueue_def AddToNewQueue_def offer_def split: option.split)
  show "set (newToQueueStore (fold AddToQueue gs q)) = set (newToQueueStore q) \<union> {g \<in> set gs. offer q g \<noteq> None}"
    by (induction gs arbitrary: q) (auto simp: n)
  show "currentQueueStore (fold AddToQueue gs q) = currentQueueStore q"
    by (induction gs arbitrary: q) (auto simp: AddToQueue_def AddToNewQueue_def split: option.split)
qed

lemma RemoveProposal_eq:
  assumes "om_find i (ProposalsStore s) = Some p"
  shows "RemoveProposal env i type s =
    (let p' = close_proposal type p; s1 = fold (notify_removed env type p' (to_remove type p')) (lp_players p') s;
         n = queue_id (fst (hd (lp_players p'))) s;
         s2 = upd_queue n (fold AddToQueue (filter (\<lambda>g. g \<notin> leaves type p) (lp_queues p)))
                (upd_queue n (fold RemoveFromQueue (to_remove type p')) s1)
     in s2\<lparr>ProposalsStore := om_erase i (ProposalsStore s2)\<rparr>)"
  using assms by (simp add: RemoveProposal_def Let_def set_to_remove)

lemma ProposalsStore_state [simp]:
  "lfg_GetState g (s\<lparr>ProposalsStore := P\<rparr>) = lfg_GetState g s" "lfg_GetOldState g (s\<lparr>ProposalsStore := P\<rparr>) = lfg_GetOldState g s"
  "queue_at n (s\<lparr>ProposalsStore := P\<rparr>) = queue_at n s" "queue_id g (s\<lparr>ProposalsStore := P\<rparr>) = queue_id g s"
  by (simp_all add: lfg_GetState_def lfg_GetOldState_def queue_at_def queue_id_def lfg_GetPlayers_def split: list.split)

definition players_distinct :: "lfg_proposal \<Rightarrow> bool" where
  "players_distinct p \<longleftrightarrow> distinct (map fst (lp_players p)) \<and>
     (\<forall>e \<in> set (lp_players p). fst e \<noteq> 0 \<and> (\<forall>e' \<in> set (lp_players p). fst e \<noteq> pp_group (snd e')))"

text \<open>
  C31. A proposal that fails is gone. Whoever denied it, or was silent when its time was up, leaves the
  queue with his whole group, and everyone of that group is where he was before he joined; all the
  others, and their groups, are back in the queue, in state \<^verbatim>\<open>LFG_STATE_QUEUED\<close>; nobody else's
  entry changes.
\<close>

theorem proposal_removed:
  assumes "om_find i (ProposalsStore s) = Some p" and "players_distinct p" and "lp_players p \<noteq> []"
  shows "let s' = RemoveProposal env i type s; n = queue_id (fst (hd (lp_players p))) s; q = queue_at n s; q' = queue_at n s'
    in om_find i (ProposalsStore s') = None \<and>
       (\<forall>(g, pp) \<in> set (lp_players p). \<forall>x \<in> {g, queue_guid g pp}.
          lfg_GetState x s' = (if queue_guid g pp \<in> leaves type p then lfg_GetOldState x s else LFG_STATE_QUEUED)) \<and>
       (\<forall>g \<in> leaves type p. offer q' g = None \<and> g \<notin> set (newToQueueStore q') \<and> g \<notin> set (currentQueueStore q')) \<and>
       (\<forall>g. g \<notin> leaves type p \<longrightarrow> offer q' g = offer q g \<and> (g \<in> set (lp_queues p) \<and> offer q g \<noteq> None \<longrightarrow> g \<in> set (newToQueueStore q')))"
proof -
  let ?p = "close_proposal type p"
  let ?R = "to_remove type ?p"
  let ?s' = "RemoveProposal env i type s"
  let ?n = "queue_id (fst (hd (lp_players p))) s"
  have n: "fst (hd (lp_players ?p)) = fst (hd (lp_players p))" if "lp_players p \<noteq> []"
    using that by (simp add: close_proposal_players hd_map case_prod_beta)
  have st: "lfg_GetState x ?s' = (if queue_guid g pp \<in> leaves type p then lfg_GetOldState x s else LFG_STATE_QUEUED)"
    if e: "(g, pp) \<in> set (lp_players p)" and x: "x \<in> {g, queue_guid g pp}" for g pp x
  proof -
    have "(queue_guid (fst e') (snd e') \<in> set ?R) = (queue_guid g pp \<in> leaves type p)"
      if e': "e' \<in> set (lp_players ?p)" "x \<in> {fst e', queue_guid (fst e') (snd e')}" for e'
    proof -
      obtain g' pp' where gp': "(g', pp') \<in> set (lp_players p)" "e' = (g', close_answer type pp')"
        using e'(1) by (auto simp: close_proposal_players)
      have "queue_guid g' pp' = queue_guid g pp"
      proof (cases "g = g'")
        case True
        then show ?thesis using assms(2) e gp'(1) by (auto simp: players_distinct_def dest: eq_key_imp_eq_value)
      next
        case False
        have "g \<noteq> pp_group pp'" "g' \<noteq> pp_group pp"
          using assms(2) e gp'(1) unfolding players_distinct_def by force+
        then show ?thesis using False x e'(2) gp'(2) by (auto simp: queue_guid_def split: if_splits)
      qed
      then show ?thesis using gp'(2) by (simp add: set_to_remove)
    qed
    moreover have "\<exists>e' \<in> set (lp_players ?p). x \<in> {fst e', queue_guid (fst e') (snd e')}"
      using e x by (intro bexI [of _ "(g, close_answer type pp)"]) (auto simp: close_proposal_players)
    ultimately have "lfg_GetState x (fold (notify_removed env type ?p ?R) (lp_players ?p) s) =
        (if queue_guid g pp \<in> leaves type p then lfg_GetOldState x s else LFG_STATE_QUEUED)"
      by (rule notify_all_states)
    then show ?thesis by (simp add: RemoveProposal_eq [OF assms(1)] Let_def)
  qed
  have q: "queue_at ?n ?s' = fold AddToQueue (filter (\<lambda>g. g \<notin> leaves type p) (lp_queues p)) (fold RemoveFromQueue ?R (queue_at ?n s))"
    using n [OF assms(3)] by (simp add: RemoveProposal_eq [OF assms(1)] Let_def)
  have gone: "om_find i (ProposalsStore ?s') = None" by (simp add: RemoveProposal_eq [OF assms(1)] Let_def)
  show ?thesis
    unfolding Let_def q offer_fold_AddToQueue fold_Add_lists fold_Remove_lists fold_Remove_offer set_to_remove leaves_close
    using st gone by auto
qed

definition pair_proposal :: "lfg_answer \<Rightarrow> lfg_answer \<Rightarrow> lfg_proposal" where
  "pair_proposal a b = \<lparr>lp_id = 1, lp_dungeonId = 18, lp_state = LFG_PROPOSAL_INITIATING, lp_group = 0, lp_leader = 5,
     lp_cancelTime = 145, lp_isNew = True, lp_queues = [5, 7],
     lp_players = [(5, \<lparr>pp_role = 4, pp_accept = a, pp_group = 0\<rparr>), (7, \<lparr>pp_role = 8, pp_accept = b, pp_group = 0\<rparr>)]\<rparr>"

definition pair_found :: "lfg_answer \<Rightarrow> lfg_answer \<Rightarrow> lfg_mgr" where
  "pair_found a b = (lfg_start 3)\<lparr>ProposalsStore := [(1, pair_proposal a b)],
     QueuesStore := [(0, AddQueueData 7 100 [18] [(7, 8)] (AddQueueData 5 100 [18] [(5, 4)] queue_new))]\<rparr>"

lemma pair_found_facts:
  "om_find 1 (ProposalsStore (pair_found a b)) = Some (pair_proposal a b)" "lp_players (pair_proposal a b) \<noteq> []"
  "players_distinct (pair_proposal a b)" "om_ok (lp_players (pair_proposal a b))" "lp_queues (pair_proposal a b) = [5, 7]"
  "fst (hd (lp_players (pair_proposal a b))) = 5"
  by (simp_all add: pair_found_def pair_proposal_def players_distinct_def om_ok_def)

theorem proposal_removed_witness:
  "let s' = RemoveProposal quiet_env 1 LFG_UPDATETYPE_PROPOSAL_DECLINED (pair_found LFG_ANSWER_AGREE LFG_ANSWER_DENY); q' = queue_at 0 s'
   in om_find 1 (ProposalsStore s') = None \<and> lfg_GetState 5 s' = LFG_STATE_QUEUED \<and> lfg_GetState 7 s' = LFG_STATE_NONE \<and>
      5 \<in> set (newToQueueStore q') \<and> offer q' 7 = None"
proof -
  let ?p = "pair_proposal LFG_ANSWER_AGREE LFG_ANSWER_DENY"
  let ?s = "pair_found LFG_ANSWER_AGREE LFG_ANSWER_DENY"
  have l: "leaves LFG_UPDATETYPE_PROPOSAL_DECLINED ?p = {7}"
    by (simp add: leaves_def pair_proposal_def has_denied_def queue_guid_def)
  have n: "queue_id 5 ?s = 0" by code_simp
  have o5: "offer (queue_at 0 ?s) 5 = Some ([(5, 4)], [18])" by code_simp
  have old: "lfg_GetOldState 7 ?s = LFG_STATE_NONE" by code_simp
  have e: "(5, \<lparr>pp_role = 4, pp_accept = LFG_ANSWER_AGREE, pp_group = 0\<rparr>) \<in> set (lp_players ?p)"
    "(7, \<lparr>pp_role = 8, pp_accept = LFG_ANSWER_DENY, pp_group = 0\<rparr>) \<in> set (lp_players ?p)"
    by (simp_all add: pair_proposal_def)
  show ?thesis
    using proposal_removed [OF pair_found_facts(1) [of LFG_ANSWER_AGREE LFG_ANSWER_DENY] pair_found_facts(3,2), of quiet_env LFG_UPDATETYPE_PROPOSAL_DECLINED] e old o5
    unfolding Let_def l pair_found_facts(5,6) n by (force simp: queue_guid_def)
qed

section \<open>Answers to a proposal\<close>

lemma settle_states:
  "lfg_GetState x (snd (settle_player env p b n e (ut, s))) = (if x = fst e then LFG_STATE_DUNGEON else lfg_GetState x s)"
  by (simp add: settle_player_def Let_def case_prod_beta GetState_SetState when_do_def)

lemma settle_all_states:
  "lfg_GetState x (snd (fold (settle_player env p b n) es (ut, s))) = (if x \<in> om_keys es then LFG_STATE_DUNGEON else lfg_GetState x s)"
proof (induction es arbitrary: ut s)
  case (Cons e es)
  obtain ut' s' where s': "settle_player env p b n e (ut, s) = (ut', s')" by fastforce
  then have "lfg_GetState x s' = (if x = fst e then LFG_STATE_DUNGEON else lfg_GetState x s)"
    using settle_states [of x env p b n e ut s] by simp
  then show ?case by (auto simp: s' Cons.IH om_keys_def)
qed simp

lemma stores_to_player [simp]:
  "ProposalsStore (to_player env g e s) = ProposalsStore s" "BootsStore (to_player env g e s) = BootsStore s"
  by (simp_all add: to_player_def lfg_emit_def)

lemma told_all [simp]:
  "lfg_GetState x (fold (\<lambda>(g, _). to_player env g (ev g)) es s) = lfg_GetState x s"
  "queue_at n (fold (\<lambda>(g, _). to_player env g (ev g)) es s) = queue_at n s"
  "ProposalsStore (fold (\<lambda>(g, _). to_player env g (ev g)) es s) = ProposalsStore s"
  by (induction es arbitrary: s) (simp_all add: case_prod_beta)

lemma complete_proposal_eq:
  "\<exists>s2. complete_proposal env i guid p s =
      (let s3 = me_MakeNewGroup env (p\<lparr>lp_state := LFG_PROPOSAL_SUCCESS\<rparr>) s2 in s3\<lparr>ProposalsStore := om_erase i (ProposalsStore s3)\<rparr>) \<and>
    (\<forall>x \<in> om_keys (lp_players p). lfg_GetState x s2 = LFG_STATE_DUNGEON) \<and>
    (\<forall>g \<in> set (lp_queues p). let q = queue_at (queue_id guid s) s2
       in offer q g = None \<and> g \<notin> set (newToQueueStore q) \<and> g \<notin> set (currentQueueStore q))"
proof -
  let ?p = "p\<lparr>lp_state := LFG_PROPOSAL_SUCCESS\<rparr>"
  let ?n = "queue_id guid s"
  let ?s0 = "s\<lparr>ProposalsStore := om_set i ?p (ProposalsStore s)\<rparr>"
  let ?s2 = "upd_queue ?n (fold RemoveFromQueue (lp_queues p))
    (snd (fold (settle_player env ?p (lp_state p \<noteq> LFG_PROPOSAL_SUCCESS) ?n) (lp_players p) (LFG_UPDATETYPE_GROUP_FOUND, ?s0)))"
  have "complete_proposal env i guid p s =
      (let s3 = me_MakeNewGroup env ?p ?s2 in s3\<lparr>ProposalsStore := om_erase i (ProposalsStore s3)\<rparr>)"
    by (simp add: complete_proposal_def Let_def case_prod_beta)
  moreover have "lfg_GetState x ?s2 = LFG_STATE_DUNGEON" if "x \<in> om_keys (lp_players p)" for x
    using that by (simp add: settle_all_states)
  moreover have "let q = queue_at ?n ?s2 in offer q g = None \<and> g \<notin> set (newToQueueStore q) \<and> g \<notin> set (currentQueueStore q)"
    if "g \<in> set (lp_queues p)" for g
    using that by (simp add: fold_Remove_offer fold_Remove_lists)
  ultimately show ?thesis by blast
qed

definition answered :: "uint64 \<Rightarrow> bool \<Rightarrow> lfg_proposal \<Rightarrow> lfg_proposal" where
  "answered guid accept p = p\<lparr>lp_players := om_set guid
     ((the (om_find guid (lp_players p)))\<lparr>pp_accept := (if accept then LFG_ANSWER_AGREE else LFG_ANSWER_DENY)\<rparr>) (lp_players p)\<rparr>"

definition others_agree :: "uint64 \<Rightarrow> lfg_proposal \<Rightarrow> bool" where
  "others_agree guid p \<longleftrightarrow> (\<forall>e \<in> set (lp_players p). fst e \<noteq> guid \<longrightarrow> pp_accept (snd e) = LFG_ANSWER_AGREE)"

lemma om_set_in:
  assumes "om_ok m"
  shows "e \<in> set (om_set k v m) \<longleftrightarrow> e = (k, v) \<or> (e \<in> set m \<and> fst e \<noteq> k)"
proof -
  have d: "distinct (map fst m)" "distinct (map fst (om_set k v m))" using assms by (simp_all add: om_ok_distinct)
  show ?thesis
    using map_of_eq_Some_iff [OF d(2), of "fst e" "snd e"] map_of_eq_Some_iff [OF d(1), of "fst e" "snd e"]
    by (cases e) (auto split: if_splits)
qed

lemma others_agree_iff:
  assumes "om_ok (lp_players p)"
  shows "(\<exists>e \<in> set (lp_players (answered guid True p)). pp_accept (snd e) \<noteq> LFG_ANSWER_AGREE) \<longleftrightarrow> \<not> others_agree guid p"
  by (fastforce simp: answered_def others_agree_def om_set_in [OF assms])

lemma UpdateProposal_eq:
  assumes "om_find i (ProposalsStore s) = Some p" and "om_find guid (lp_players p) \<noteq> None" and "om_ok (lp_players p)"
  shows "UpdateProposal env i guid accept s =
    (let p' = answered guid accept p; s1 = s\<lparr>ProposalsStore := om_set i p' (ProposalsStore s)\<rparr>
     in if \<not> accept then RemoveProposal env i LFG_UPDATETYPE_PROPOSAL_DECLINED s1
        else if \<not> others_agree guid p then fold (\<lambda>(g, _). to_player env g (SendUpdateProposal g p')) (lp_players p') s1
        else complete_proposal env i guid p' s1)"
proof -
  obtain pp where pp: "om_find guid (lp_players p) = Some pp" using assms(2) by auto
  show ?thesis
    using others_agree_iff [OF assms(3), of guid] by (simp add: UpdateProposal_def Let_def assms(1) pp answered_def)
qed

text \<open>
  C30. No group is made before everyone of the proposal has agreed: an answer of one player is noted
  while another has not agreed, and changes neither states nor queues, and a denial ends the proposal.
  With the last agreement everyone is in state \<^verbatim>\<open>LFG_STATE_DUNGEON\<close> and no entry of the
  proposal waits any more when the group is made; then the proposal is gone.
\<close>

theorem proposal_answer:
  assumes "om_find i (ProposalsStore s) = Some p" and "om_find guid (lp_players p) \<noteq> None" and "om_ok (lp_players p)"
  shows "let s' = UpdateProposal env i guid accept s
    in if accept \<and> others_agree guid p
       then \<exists>s2. s' = (let s3 = me_MakeNewGroup env ((answered guid True p)\<lparr>lp_state := LFG_PROPOSAL_SUCCESS\<rparr>) s2
                      in s3\<lparr>ProposalsStore := om_erase i (ProposalsStore s3)\<rparr>) \<and>
              (\<forall>x \<in> om_keys (lp_players p). lfg_GetState x s2 = LFG_STATE_DUNGEON) \<and>
              (\<forall>g \<in> set (lp_queues p). let q = queue_at (queue_id guid s) s2
                 in offer q g = None \<and> g \<notin> set (newToQueueStore q) \<and> g \<notin> set (currentQueueStore q))
       else s' = UpdateProposal (env\<lparr>me_MakeNewGroup := f\<rparr>) i guid accept s \<and>
            (if accept
             then om_find i (ProposalsStore s') = Some (answered guid True p) \<and> (\<forall>x. lfg_GetState x s' = lfg_GetState x s) \<and>
                  (\<forall>n. queue_at n s' = queue_at n s)
             else om_find i (ProposalsStore s') = None)"
proof -
  note eq = UpdateProposal_eq [OF assms(1-3)]
  let ?s1 = "s\<lparr>ProposalsStore := om_set i (answered guid accept p) (ProposalsStore s)\<rparr>"
  consider (agreed) "accept" "others_agree guid p" | (waits) "accept" "\<not> others_agree guid p" | (denied) "\<not> accept" by blast
  then show ?thesis
  proof cases
    case agreed
    have keys: "om_keys (lp_players (answered guid True p)) = om_keys (lp_players p)" "lp_queues (answered guid True p) = lp_queues p"
      using assms(2) om_find_None [of "lp_players p" guid] by (auto simp: answered_def)
    show ?thesis
      using agreed complete_proposal_eq [of env i guid "answered guid True p" ?s1] by (simp add: eq Let_def keys)
  next
    case waits
    have "to_player (env\<lparr>me_MakeNewGroup := f\<rparr>) = to_player env" by (intro ext) (simp add: to_player_def)
    then show ?thesis using waits by (simp add: eq Let_def)
  next
    case denied
    have tp: "to_player (env\<lparr>me_MakeNewGroup := f\<rparr>) = to_player env" by (intro ext) (simp add: to_player_def)
    have "notify_removed (env\<lparr>me_MakeNewGroup := f\<rparr>) = notify_removed env" by (intro ext) (simp only: notify_removed_def tp)
    note nr = this
    have "RemoveProposal (env\<lparr>me_MakeNewGroup := f\<rparr>) = RemoveProposal env" by (intro ext) (unfold RemoveProposal_def nr, rule refl)
    moreover have "om_find i (ProposalsStore (RemoveProposal env i type ?s1)) = None" for type
      by (simp add: RemoveProposal_eq [where i = i and s = ?s1 and p = "answered guid accept p"] Let_def)
    ultimately show ?thesis using denied by (simp add: eq Let_def)
  qed
qed

theorem proposal_answer_witness:
  "let s = pair_found LFG_ANSWER_PENDING LFG_ANSWER_PENDING; s' = UpdateProposal quiet_env 1 7 True s
   in s' = UpdateProposal (quiet_env\<lparr>me_MakeNewGroup := \<lambda>_ _. lfg_start 0\<rparr>) 1 7 True s \<and>
      om_find 1 (ProposalsStore s') = Some (pair_proposal LFG_ANSWER_PENDING LFG_ANSWER_AGREE) \<and>
      (\<forall>x. lfg_GetState x s' = lfg_GetState x s) \<and> (\<forall>n. queue_at n s' = queue_at n s)"
proof -
  let ?p = "pair_proposal LFG_ANSWER_PENDING LFG_ANSWER_PENDING"
  have p: "om_find 7 (lp_players ?p) \<noteq> None" "(True \<and> others_agree 7 ?p) = False" 
    "answered 7 True ?p = pair_proposal LFG_ANSWER_PENDING LFG_ANSWER_AGREE"
    by (simp_all add: pair_proposal_def others_agree_def answered_def)
  show ?thesis
    unfolding Let_def
    by (rule proposal_answer [OF pair_found_facts(1) p(1) pair_found_facts(4), of quiet_env True "\<lambda>_ _. lfg_start 0",
          unfolded Let_def p(2,3) if_True if_False])
qed

section \<open>Votes to kick\<close>

lemma told_removed_states:
  "lfg_GetState x (fold (\<lambda>(g, _). when_do (g \<noteq> v) (\<lambda>s. to_player env g (ev g) (lfg_SetState g LFG_STATE_DUNGEON s))) es s) =
     (if x \<in> om_keys es - {v} then LFG_STATE_DUNGEON else lfg_GetState x s)"
  by (induction es arbitrary: s) (auto simp: when_do_def GetState_SetState)

lemma group_data_step:
  "\<not> guid_IsGroup g \<Longrightarrow> GroupsStore (when_do c (\<lambda>s. to_player env g e (lfg_SetState g st s)) s) = GroupsStore s"
  by (simp add: when_do_def lfg_SetState_def upd_player_def to_player_def lfg_emit_def)

lemma told_removed_groups:
  assumes "\<And>e. e \<in> set es \<Longrightarrow> \<not> guid_IsGroup (fst e)"
  shows "GroupsStore (fold (\<lambda>(g, _). when_do (g \<noteq> v) (\<lambda>s. to_player env g (ev g) (lfg_SetState g LFG_STATE_DUNGEON s))) es s) = GroupsStore s"
  using assms
proof (induction es arbitrary: s)
  case (Cons e es)
  then show ?case by (simp add: case_prod_beta group_data_step)
qed simp

lemma kicks_in_dungeon: "gd_KicksLeft (GroupsStore (lfg_SetState g LFG_STATE_DUNGEON s) g) = gd_KicksLeft (GroupsStore s g)"
  by (simp add: lfg_SetState_def upd_group_def upd_player_def gd_SetState_def Let_def)

definition voted :: "uint64 \<Rightarrow> bool \<Rightarrow> lfg_player_boot \<Rightarrow> lfg_player_boot" where
  "voted guid accept b = b\<lparr>pb_votes := om_set guid (if accept then LFG_ANSWER_AGREE else LFG_ANSWER_DENY) (pb_votes b)\<rparr>"

definition how_many_votes :: "lfg_answer \<Rightarrow> lfg_player_boot \<Rightarrow> nat" where
  "how_many_votes a b = length (filter (\<lambda>e. snd e = a) (pb_votes b))"

lemma vote_counts:
  assumes "length (pb_votes b) < 256"
  shows "unat (agree_num (pb_votes b)) = how_many_votes LFG_ANSWER_AGREE b"
    and "unat (votes_num (pb_votes b)) = how_many_votes LFG_ANSWER_AGREE b + how_many_votes LFG_ANSWER_DENY b"
proof -
  have l: "length (filter P (pb_votes b)) < 256" for P using length_filter_le [of P "pb_votes b"] assms by (rule le_less_trans)
  show "unat (agree_num (pb_votes b)) = how_many_votes LFG_ANSWER_AGREE b"
    using l by (simp add: agree_num_def how_many_votes_def unat_of_nat take_bit_nat_eq_self)
  have "length (filter (\<lambda>e. snd e \<noteq> LFG_ANSWER_PENDING) es) =
      length (filter (\<lambda>e. snd e = LFG_ANSWER_AGREE) es) + length (filter (\<lambda>e. snd e = LFG_ANSWER_DENY) es)"
    for es :: "(uint64 \<times> lfg_answer) list"
  proof (induction es)
    case (Cons e es)
    then show ?case by (cases "snd e") simp_all
  qed simp
  then have "how_many_votes LFG_ANSWER_AGREE b + how_many_votes LFG_ANSWER_DENY b = length (filter (\<lambda>e. snd e \<noteq> LFG_ANSWER_PENDING) (pb_votes b))"
    by (simp add: how_many_votes_def)
  then show "unat (votes_num (pb_votes b)) = how_many_votes LFG_ANSWER_AGREE b + how_many_votes LFG_ANSWER_DENY b"
    using l by (simp add: votes_num_def unat_of_nat take_bit_nat_eq_self)
qed

lemma unat_is_3: "unat (n :: uint8) = 3 \<longleftrightarrow> n = 3"
proof
  assume "unat n = 3"
  then have "unat n = unat (3 :: uint8)" by simp
  then show "n = 3" by (simp only: unsigned_word_eqI)
qed simp

lemma UpdateBoot_eq:
  assumes "lfg_GetGroup guid s = gguid" and "gguid \<noteq> 0" and "om_find gguid (BootsStore s) = Some b"
    and "om_find guid (pb_votes b) = Some LFG_ANSWER_PENDING" and "length (pb_votes b) < 255" and "om_ok (pb_votes b)"
  shows "UpdateBoot env guid accept s =
    (let b' = voted guid accept b; s1 = s\<lparr>BootsStore := om_set gguid b' (BootsStore s)\<rparr>
     in if how_many_votes LFG_ANSWER_AGREE b' < 3 \<and> how_many_votes LFG_ANSWER_DENY b' < 3 then s1 else end_boot env gguid b' s1)"
    (is ?eq) and "agree_num (pb_votes (voted guid accept b)) = 3 \<longleftrightarrow> how_many_votes LFG_ANSWER_AGREE (voted guid accept b) = 3" (is ?agree)
proof -
  let ?b = "voted guid accept b"
  have "length (pb_votes ?b) < 256"
    using length_om_set [OF assms(6), of guid "if accept then LFG_ANSWER_AGREE else LFG_ANSWER_DENY"] assms(5) by (simp add: voted_def)
  note n = vote_counts [OF this]
  show ?agree unfolding n(1) [symmetric] by (simp add: unat_is_3)
  have "agree_num (pb_votes ?b) < 3 \<longleftrightarrow> how_many_votes LFG_ANSWER_AGREE ?b < 3"
    using n(1) by (simp add: word_less_nat_alt)
  moreover have "int (unat (votes_num (pb_votes ?b))) - int (unat (agree_num (pb_votes ?b))) = int (how_many_votes LFG_ANSWER_DENY ?b)"
    unfolding n by simp
  ultimately show ?eq
    using assms(1-4) by (simp add: UpdateBoot_def Let_def voted_def LFG_GROUP_KICK_VOTES_NEEDED_def)
qed

lemma BootsStore_state [simp]:
  "lfg_GetState g (s\<lparr>BootsStore := P\<rparr>) = lfg_GetState g s" "lfg_GetOldState g (s\<lparr>BootsStore := P\<rparr>) = lfg_GetOldState g s"
  by (simp_all add: lfg_GetState_def lfg_GetOldState_def)

text \<open>
  C33. A vote to kick waits for three votes of one kind. With three votes against it ends: nobody is
  kicked, whatever the kick would do, the group keeps its kicks, and the group and all voters are in
  the dungeon again; but the victim is not, he keeps the state he has, which is
  \<^verbatim>\<open>LFG_STATE_BOOT\<close>. With the third vote for it the victim is removed from the group, if there is
  one, and the group has one kick less.
\<close>

theorem boot_vote:
  assumes "lfg_GetGroup guid s = gguid" and "gguid \<noteq> 0" and "om_find gguid (BootsStore s) = Some b"
    and "om_find guid (pb_votes b) = Some LFG_ANSWER_PENDING" and "length (pb_votes b) < 255" and "om_ok (pb_votes b)"
    and "guid_IsGroup gguid" and "\<forall>g \<in> om_keys (pb_votes b). \<not> guid_IsGroup g"
  shows "let b' = voted guid accept b; s' = UpdateBoot env guid accept s; yes = how_many_votes LFG_ANSWER_AGREE b';
      no = how_many_votes LFG_ANSWER_DENY b'; back = insert gguid (om_keys (pb_votes b) - {pb_victim b})
    in if yes < 3 \<and> no < 3
       then om_find gguid (BootsStore s') = Some b' \<and> (\<forall>x. lfg_GetState x s' = lfg_GetState x s)
       else om_find gguid (BootsStore s') = None \<and>
         (if yes \<noteq> 3
          then s' = UpdateBoot (env\<lparr>me_RemoveFromGroup := f\<rparr>) guid accept s \<and>
               (\<forall>x. lfg_GetState x s' = (if x \<in> back then LFG_STATE_DUNGEON else lfg_GetState x s)) \<and>
               gd_KicksLeft (GroupsStore s' gguid) = gd_KicksLeft (GroupsStore s gguid)
          else \<exists>s2. (\<forall>x. lfg_GetState x s2 = (if x \<in> back then LFG_STATE_DUNGEON else lfg_GetState x s)) \<and>
               s' = (let s3 = lfg_DecreaseKicksLeft gguid (if me_groupExists env gguid then me_RemoveFromGroup env gguid (pb_victim b) s2 else s2)
                     in s3\<lparr>BootsStore := om_erase gguid (BootsStore s3)\<rparr>))"
proof -
  let ?b = "voted guid accept b"
  let ?s1 = "s\<lparr>BootsStore := om_set gguid ?b (BootsStore s)\<rparr>"
  let ?ended = "\<lambda>env. lfg_SetState gguid LFG_STATE_DUNGEON (fold (\<lambda>(g, _). when_do (g \<noteq> pb_victim b)
      (\<lambda>s. to_player env g (SendBootProposalUpdate g (?b\<lparr>pb_inProgress := False\<rparr>)) (lfg_SetState g LFG_STATE_DUNGEON s))) (pb_votes ?b) ?s1)"
  note eq = UpdateBoot_eq [OF assms(1-6)]
  have v [simp]: "pb_victim ?b = pb_victim b" by (simp add: voted_def)
  have keys: "om_keys (pb_votes ?b) = om_keys (pb_votes b)"
    using assms(4) om_find_None [of "pb_votes b" guid] by (auto simp: voted_def)
  have st: "lfg_GetState x (?ended env) = (if x \<in> insert gguid (om_keys (pb_votes b) - {pb_victim b}) then LFG_STATE_DUNGEON else lfg_GetState x s)"
    for x env by (auto simp: GetState_SetState told_removed_states keys)
  have eb: "end_boot env gguid ?b ?s1 =
      (let s3 = when_do (how_many_votes LFG_ANSWER_AGREE ?b = 3)
         (\<lambda>s. lfg_DecreaseKicksLeft gguid (when_do (me_groupExists env gguid)
            (\<lambda>s. me_RemoveFromGroup env gguid (pb_victim b) (lfg_emit [KickFromGroup gguid (pb_victim b)] s)) s)) (?ended env)
       in s3\<lparr>BootsStore := om_erase gguid (BootsStore s3)\<rparr>)" for env
    by (simp add: end_boot_def Let_def eq(2) LFG_GROUP_KICK_VOTES_NEEDED_def)
  consider (waits) "how_many_votes LFG_ANSWER_AGREE ?b < 3 \<and> how_many_votes LFG_ANSWER_DENY ?b < 3"
    | (kept) "\<not> (how_many_votes LFG_ANSWER_AGREE ?b < 3 \<and> how_many_votes LFG_ANSWER_DENY ?b < 3)" "how_many_votes LFG_ANSWER_AGREE ?b \<noteq> 3"
    | (kicked) "\<not> (how_many_votes LFG_ANSWER_AGREE ?b < 3 \<and> how_many_votes LFG_ANSWER_DENY ?b < 3)" "how_many_votes LFG_ANSWER_AGREE ?b = 3"
    by blast
  then show ?thesis
  proof cases
    case waits
    then show ?thesis by (simp add: eq(1) Let_def)
  next
    case kept
    have "\<not> guid_IsGroup (fst e)" if "e \<in> set (pb_votes ?b)" for e
    proof -
      have "fst e \<in> om_keys (pb_votes ?b)" using that by (simp add: om_keys_def)
      then show ?thesis using assms(8) keys by simp
    qed
    then have k: "gd_KicksLeft (GroupsStore (?ended env) gguid) = gd_KicksLeft (GroupsStore s gguid)"
      unfolding kicks_in_dungeon by (subst told_removed_groups) simp_all
    have tp: "to_player (env\<lparr>me_RemoveFromGroup := f\<rparr>) = to_player env" by (intro ext) (simp add: to_player_def)
    show ?thesis
      using kept st [where env = env] k by (simp add: eq(1) Let_def eb when_do_def tp)
  next
    case kicked
    let ?s2 = "if me_groupExists env gguid then lfg_emit [KickFromGroup gguid (pb_victim b)] (?ended env) else ?ended env"
    have "lfg_GetState x ?s2 = (if x \<in> insert gguid (om_keys (pb_votes b) - {pb_victim b}) then LFG_STATE_DUNGEON else lfg_GetState x s)" for x
      using st by simp
    moreover have "UpdateBoot env guid accept s =
        (let s3 = lfg_DecreaseKicksLeft gguid (if me_groupExists env gguid then me_RemoveFromGroup env gguid (pb_victim b) ?s2 else ?s2)
         in s3\<lparr>BootsStore := om_erase gguid (BootsStore s3)\<rparr>)"
      using kicked by (simp add: eq(1) eb when_do_def Let_def)
    moreover from this have "om_find gguid (BootsStore (UpdateBoot env guid accept s)) = None" by (simp add: Let_def)
    ultimately show ?thesis using kicked by (simp only: Let_def if_False if_True simp_thms) blast
  qed
qed

definition boot_group :: uint64 where "boot_group = 0x1F50000000000001"

definition boot_votes :: "lfg_answer \<Rightarrow> lfg_player_boot" where
  "boot_votes a = \<lparr>pb_cancelTime = 220, pb_inProgress = True,
     pb_votes = [(5, LFG_ANSWER_AGREE), (7, LFG_ANSWER_DENY), (8, a), (9, LFG_ANSWER_DENY), (11, LFG_ANSWER_PENDING)],
     pb_victim = 7, pb_reason = []\<rparr>"

definition boot_running :: lfg_mgr where
  "boot_running = lfg_SetGroup 11 boot_group (lfg_SetState 7 LFG_STATE_BOOT
     ((lfg_start 3)\<lparr>BootsStore := [(boot_group, boot_votes LFG_ANSWER_PENDING)]\<rparr>))"

theorem boot_vote_witness:
  "let s' = UpdateBoot quiet_env 11 False boot_running
   in om_find boot_group (BootsStore s') = None \<and> lfg_GetState 11 s' = LFG_STATE_DUNGEON \<and> lfg_GetState boot_group s' = LFG_STATE_DUNGEON \<and>
      lfg_GetState 7 s' = LFG_STATE_BOOT"
proof -
  let ?b = "boot_votes LFG_ANSWER_PENDING"
  have g: "lfg_GetGroup 11 boot_running = boot_group" "boot_group \<noteq> 0" "om_find boot_group (BootsStore boot_running) = Some ?b"
    by (simp_all add: boot_running_def lfg_GetGroup_def lfg_SetGroup_def upd_player_def lfg_SetState_def upd_group_def boot_group_def guid_IsGroup_def)
  have b: "om_find 11 (pb_votes ?b) = Some LFG_ANSWER_PENDING" "length (pb_votes ?b) < 255" "om_ok (pb_votes ?b)"
    by (simp_all add: boot_votes_def om_ok_def)
  have i: "guid_IsGroup boot_group" "\<forall>g \<in> om_keys (pb_votes ?b). \<not> guid_IsGroup g"
    by (simp_all add: boot_group_def boot_votes_def guid_IsGroup_def)
  have n: "how_many_votes LFG_ANSWER_AGREE (voted 11 False ?b) = 1" "how_many_votes LFG_ANSWER_DENY (voted 11 False ?b) = 3"
    "om_keys (pb_votes ?b) = {5, 7, 8, 9, 11}" "pb_victim ?b = 7"
    by (simp_all add: how_many_votes_def voted_def boot_votes_def)
  have st: "lfg_GetState 7 boot_running = LFG_STATE_BOOT"
    by (simp add: boot_running_def lfg_GetState_def lfg_SetGroup_def upd_player_def lfg_SetState_def upd_group_def pd_SetState_def gd_SetState_def Let_def guid_IsGroup_def)
  have c: "((1::nat) < 3 \<and> (3::nat) < 3) = False" "((1::nat) \<noteq> 3) = True" by simp_all
  have "(7::uint64) \<noteq> boot_group" by (simp add: boot_group_def)
  moreover note boot_vote [OF g b i, of False quiet_env "\<lambda>_ _ s. s", unfolded Let_def n c if_False if_True]
  ultimately show ?thesis using st unfolding Let_def by (elim conjE) (intro conjI; simp)
qed

section \<open>New proposals\<close>

fun told_to :: "lfg_event \<Rightarrow> uint64" where
  "told_to (SendRoleChosen g _ _) = g"
| "told_to (SendRoleCheckUpdate g _) = g"
| "told_to (SendUpdatePlayer g _) = g"
| "told_to (SendUpdateParty g _) = g"
| "told_to (SendJoinResult g _) = g"
| "told_to (SendBootProposalUpdate g _) = g"
| "told_to (SendUpdateProposal g _) = g"
| "told_to (SendQueueStatus g _) = g"
| "told_to (KickFromGroup _ g) = g"
| "told_to (CastDeserter g) = g"
| "told_to (TeleportOut g) = g"
| "told_to (SendOfferContinue g _) = g"
| "told_to (QueryName g _) = g"
| "told_to (CastLuckOfTheDraw g) = g"
| "told_to (RemoveLuckOfTheDraw g) = g"
| "told_to (TeleportHome g) = g"

definition only_tells :: "uint64 set \<Rightarrow> lfg_mgr \<Rightarrow> lfg_mgr \<Rightarrow> bool" where
  "only_tells G s s' \<longleftrightarrow> (\<exists>es. m_events s' = m_events s @ es \<and> (\<forall>e \<in> set es. told_to e \<in> G))"

lemma only_tells_refl [simp]: "only_tells G s s"
  by (simp add: only_tells_def)

lemma only_tells_trans: "only_tells G s s' \<Longrightarrow> only_tells G s' s'' \<Longrightarrow> only_tells G s s''"
  by (auto simp: only_tells_def)

lemma only_tells_player: "only_tells G s s' \<Longrightarrow> told_to e \<in> G \<Longrightarrow> only_tells G s (to_player env g e s')"
  by (auto simp: only_tells_def to_player_def lfg_emit_def)

lemma only_tells_SetState: "only_tells G s s' \<Longrightarrow> only_tells G s (lfg_SetState g st s')"
  by (simp add: only_tells_def lfg_SetState_def upd_player_def upd_group_def)

lemma group_simps [simp]:
  "lfg_GetGroup g (lfg_SetState g' st s) = lfg_GetGroup g s" "lfg_GetGroup g (to_player env g' e s) = lfg_GetGroup g s"
  by (auto simp: lfg_GetGroup_def lfg_SetState_def upd_player_def upd_group_def to_player_def lfg_emit_def pd_SetState_def Let_def)

lemma ProposalsStore_SetState [simp]: "ProposalsStore (lfg_SetState g st s) = ProposalsStore s"
  by (simp add: lfg_SetState_def upd_player_def upd_group_def)

lemma announce_player_simps [simp]:
  "lfg_GetGroup g (announce_player env p guid s) = lfg_GetGroup g s"
  "ProposalsStore (announce_player env p guid s) = ProposalsStore s"
  by (simp_all add: announce_player_def Let_def)

lemma announce_player_state:
  "lfg_GetState x (announce_player env p guid s) =
     (if x = guid \<or> (x = lfg_GetGroup guid s \<and> x \<noteq> 0) then LFG_STATE_PROPOSAL else lfg_GetState x s)"
  by (simp add: announce_player_def Let_def GetState_SetState)

lemma announce_player_tells: "guid \<in> G \<Longrightarrow> only_tells G s s' \<Longrightarrow> only_tells G s (announce_player env p guid s')"
  unfolding announce_player_def Let_def by (simp add: only_tells_player only_tells_SetState)

lemma announce_players:
  "ProposalsStore (fold (announce_player env p) gs s) = ProposalsStore s"
  "lfg_GetGroup g (fold (announce_player env p) gs s) = lfg_GetGroup g s"
  by (induction gs arbitrary: s) simp_all

lemma announce_players_state:
  "lfg_GetState x (fold (announce_player env p) gs s) =
     (if x \<in> set gs \<union> ((\<lambda>g. lfg_GetGroup g s) ` set gs - {0}) then LFG_STATE_PROPOSAL else lfg_GetState x s)"
  by (induction gs arbitrary: s) (auto simp: announce_player_state)

lemma announce_players_tell: "set gs \<subseteq> G \<Longrightarrow> only_tells G s s' \<Longrightarrow> only_tells G s (fold (announce_player env p) gs s')"
  by (induction gs arbitrary: s') (auto intro: announce_player_tells)

lemma dropWhile_last:
  assumes "om_ok m" and "om_find k m = Some v" and "\<forall>k' \<in> om_keys m. k' \<le> k"
  shows "dropWhile (\<lambda>e. fst e \<noteq> k) m = [(k, v)]"
  using assms
proof (induction m)
  case (Cons e m)
  have ok: "om_ok m" using Cons.prems(1) by (simp add: om_ok_def)
  show ?case
  proof (cases "fst e = k")
    case True
    have "fst e' = k \<and> False" if "e' \<in> set m" for e'
    proof -
      have "k < fst e'" using Cons.prems(1) that True by (auto simp: om_ok_def)
      moreover have "fst e' \<le> k" using Cons.prems(3) that by (auto simp: om_keys_def)
      ultimately show ?thesis by simp
    qed
    then have "m = []" by (cases m) auto
    then show ?thesis using True Cons.prems(2) by (cases e) simp
  next
    case False
    then show ?thesis using Cons.IH [OF ok] Cons.prems(2,3) by (cases e) (simp add: om_keys_def)
  qed
qed simp

text \<open>
  C34. Of several proposals that one update has found only the latest is announced: everyone else, and
  with him the players of the others, keeps his state and is told nothing, while the others stay in
  the store until their time is up.
\<close>

theorem latest_announced:
  assumes "om_ok (ProposalsStore s)" and "om_find (m_lfgProposalId s) (ProposalsStore s) = Some p"
    and "\<forall>i \<in> om_keys (ProposalsStore s). i \<le> m_lfgProposalId s" and "lastId \<noteq> m_lfgProposalId s"
    and "lp_state p \<noteq> LFG_PROPOSAL_SUCCESS"
  shows "let s' = announce_new env lastId s; players = om_keys (lp_players p); groups = (\<lambda>g. lfg_GetGroup g s) ` players - {0}
    in (\<forall>x. lfg_GetState x s' = (if x \<in> players \<union> groups then LFG_STATE_PROPOSAL else lfg_GetState x s)) \<and>
       only_tells players s s' \<and> ProposalsStore s' = ProposalsStore s"
proof -
  have "announce_new env lastId s = fold (announce_player env p) (map fst (lp_players p)) s"
    using assms(4,5) by (simp add: announce_new_def dropWhile_last [OF assms(1-3)] announce_proposal_def Let_def when_do_def)
  moreover have "set (map fst (lp_players p)) = om_keys (lp_players p)" by (simp add: om_keys_def)
  ultimately show ?thesis
    using announce_players_tell [of "map fst (lp_players p)" "om_keys (lp_players p)" s s env p]
    unfolding Let_def by (simp only: announce_players announce_players_state only_tells_refl) simp
qed

definition two_proposals :: lfg_mgr where
  "two_proposals = (lfg_start 3)\<lparr>m_lfgProposalId := 2, ProposalsStore :=
     [(1, (pair_proposal LFG_ANSWER_PENDING LFG_ANSWER_PENDING)\<lparr>lp_players := [(8, \<lparr>pp_role = 4, pp_accept = LFG_ANSWER_PENDING, pp_group = 0\<rparr>)]\<rparr>),
      (2, pair_proposal LFG_ANSWER_PENDING LFG_ANSWER_PENDING)]\<rparr>"

theorem latest_announced_witness:
  "let s' = announce_new quiet_env 0 two_proposals
   in lfg_GetState 8 s' = lfg_GetState 8 two_proposals \<and> lfg_GetState 5 s' = LFG_STATE_PROPOSAL \<and> only_tells {5, 7} two_proposals s' \<and>
      om_find 1 (ProposalsStore s') \<noteq> None"
proof -
  let ?p = "pair_proposal LFG_ANSWER_PENDING LFG_ANSWER_PENDING"
  have "om_ok (ProposalsStore two_proposals)" "om_find (m_lfgProposalId two_proposals) (ProposalsStore two_proposals) = Some ?p"
    "\<forall>i \<in> om_keys (ProposalsStore two_proposals). i \<le> m_lfgProposalId two_proposals" "0 \<noteq> m_lfgProposalId two_proposals"
    "lp_state ?p \<noteq> LFG_PROPOSAL_SUCCESS"
    by (simp_all add: two_proposals_def om_ok_def pair_proposal_def)
  note this' = latest_announced [OF this, of quiet_env]
  have "lfg_GetGroup g two_proposals = 0" for g by (simp add: two_proposals_def lfg_GetGroup_def lfg_start_def pd_new_def)
  moreover have "om_keys (lp_players ?p) = {5, 7}" "om_find 1 (ProposalsStore two_proposals) \<noteq> None"
    by (simp_all add: pair_proposal_def two_proposals_def)
  ultimately show ?thesis using this' by (simp add: Let_def)
qed

end
