(* ===== verification/Spec2Isabelle.thy ===== *)
theory Spec2Isabelle
  imports World_Socket_Props RBAC Timers Event_Map Event_Processor Linked_List Channel_Mgr Names Text_Utils Flag96 Auth_Input_Props
    Group_Theorems Group_Member_Props Group_Loot_Props Group_Vote_Props LFG_Theorems
begin

text \<open>
  The HungerGames server: a verification development of the C++ core of the repository, the
  programs \<^verbatim>\<open>authserver\<close> and \<^verbatim>\<open>worldserver\<close> under src/Core/src/server. Everything is a shallow
  embedding: functions for the functions of the code, records for its classes, words for its
  fixed-width integers, explicit states where it mutates, and a value for every exception,
  assertion and undefined behaviour.

  \<^bold>\<open>How the parts of the program fit together.\<close> A client connects to the login server, whose
  \<^verbatim>\<open>AuthSession\<close> splits the input into packets, runs SRP6 over \<^verbatim>\<open>BigNumber\<close> and SHA-1, asks for a
  one-time password where an account has one, and sends the realm list. With the session key it
  has stored, the client connects to the world server, whose \<^verbatim>\<open>WorldSocket\<close> reads headers
  and payloads through a \<^verbatim>\<open>MessageBuffer\<close>, decrypts the headers, checks the digest over the session
  key and then queues a \<^verbatim>\<open>WorldPacket\<close> (a \<^verbatim>\<open>ByteBuffer\<close>) for the session. The handlers of the session
  drive the chat channels, the groups with their rolls for loot, and the other parts of the game.
  Names and chat lines pass the UTF-8 and wide character routines. Permissions come from
  \<^verbatim>\<open>RBACData\<close>. Time is kept by the timers, the \<^verbatim>\<open>EventMap\<close> of the scripts and the \<^verbatim>\<open>EventProcessor\<close>
  of the units; objects refer to each other through the intrusive lists of \<^verbatim>\<open>Reference\<close>.

  \<^bold>\<open>Shared theories.\<close> HG_Prelude has the integer types, the monad \<open>eff\<close> of operations that read
  and write a state and may throw (with \<open>keeps\<close>, \<open>keeps_rules\<close> for invariants), the loop \<open>forE\<close>, and the
  sorted insertion of a multimap. Std_Containers has \<^verbatim>\<open>std::set\<close> and \<^verbatim>\<open>std::map\<close> as sorted lists, with
  the locales \<open>ordered_set\<close> and \<open>ordered_map\<close> and their interpretations. Util_Strings has the tokenizer
  and decimal numbers.

  \<^bold>\<open>Packets and connections.\<close> Byte_Buffer is shared/Packets/ByteBuffer.h: reads and writes with their
  positions and exceptions; the locale \<open>codec\<close> states what a pair of write and read promises, with an
  interpretation for every integer width, strings and packed GUIDs, and \<open>map_codec\<close> extends it to containers.
  Message_Buffer is MessageBuffer.h and WorldPacket.h; the locale \<open>byte_queue\<close> is its contract.
  World_Socket is WorldSocket.cpp and Socket.h: the state \<open>ws_conn\<close> with both buffers, the ciphers, the
  write queue and the session. World_Socket_Props shows that the segmentation of the stream does not
  matter, that no input leads outside the buffers, that output keeps its order, and who gets a session.
  The loop of the read handler carries fuel computed from the bytes in the buffer, each pass
  consumes at least one, so it does not run out.

  \<^bold>\<open>Login.\<close> Big_Number and TOTP are BigNumber.cpp, SHA1.cpp and TOTP.cpp; Realm_List is AuthCodes.cpp and
  RealmList.cpp; Auth_Session is AuthSession.cpp. OpenSSL is a record of parameters with its documented
  behaviour as a predicate, instantiated by \<open>plain_ssl\<close>. Auth_Session_Props and Auth_Input_Props show that an honest
  client and the server agree on the key, that a multiple of the modulus gets in
  without the password, the order of the token check, and a packet that is handled for ever.

  \<^bold>\<open>Permissions, time, containers.\<close> RBAC is Accounts/RBAC.cpp with the loading of the tables in AccountMgr.cpp.
  Timers is Timer.h. Timed_Store states in the locale \<open>timed_store\<close> what the schedulers rely on of
  \<^verbatim>\<open>std::multimap\<close>; Event_Map (the queue of the scripts, in Util.h) and Event_Processor (EventProcessor.cpp)
  interpret it on their own queues. Linked_List is LinkedList.h and LinkedReference: a store of
  addresses, refined to sequences in the locale \<open>intrusive_list\<close>.

  \<^bold>\<open>Text.\<close> UTF8 is dep/utf8cpp, which the server relies on for every name; Wide_Chars, Names and Text_Utils are the routines of
  Util.h, Util.cpp and the name checks of ObjectMgr.cpp. Flag96 is the mask of spell families, an
  instance of \<open>linorder\<close>.

  \<^bold>\<open>Chat.\<close> Channel is Chat/Channels/Channel.cpp, Channel_Mgr is ChannelMgr.cpp. Channel_Props and Channel_Theorems have the
  invariant of the members and the owner over any sequence of commands, and the effect of each of them.

  \<^bold>\<open>Groups.\<close> Group, Group_Rolls, Group_Ops, Group_Loot are Groups/Group.cpp and Group.h, Group_Handlers is
  Handlers/GroupHandler.cpp. The state \<open>gworld\<close> has one group, the players and the loots it
  touches; other components appear as events in the order of the calls. Group_Inv has the
  invariant of the subgroup counters; the locales \<open>leader_frame\<close> and \<open>group_frame\<close> collect what every
  operation leaves alone, with an interpretation for each invariant that is carried through the operations.
  Group_Theorems has the step relation over all messages and its reachable states;
  Group_Member_Props the departure of members; Group_Loot_Props and Group_Vote_Props the rolls.

  \<^bold>\<open>Dungeon finder.\<close> LFG_Roles is \<^verbatim>\<open>LFGMgr::CheckGroupRoles\<close>, LFG_Data LFGPlayerData.cpp and LFGGroupData.cpp,
  LFG_Queue and LFG_Search LFGQueue.cpp, LFG_Manager, LFG_Proposals and LFG_Join LFGMgr.cpp and LFGScripts.cpp
  (all under game/DungeonFinding). The state \<open>lfg_mgr\<close> has the stores of \<^verbatim>\<open>LFGMgr\<close> and, as events in the
  order of the code, what is sent to the players in the world. The recursions of the role check and of the search are total functions:
  the first loses a role in each inner call, the second an entry of the shared list. LFG_Search
  carries invariants through the search in the locale \<open>search_invariant\<close>, LFG_Search_Props interprets it for
  the soundness of the proposals. LFG_Invariant has the step relation over all operations and its
  reachable states, LFG_Theorems what the operations do. Group_Sizes has what \<^verbatim>\<open>Group\<close> and the finder share.

  \<^bold>\<open>Findings.\<close> Several theorems state defects of the code: a login without the password
  (\<open>logon_without_password\<close>), an endless loop in the login server (\<open>read_loop_never_ends\<close>), an overrun in the
  conversion of names (\<open>utf8_to_wstr_overrun\<close>), a vote that counts twice (\<open>second_vote_ends_roll\<close>), a leader
  who is removed by his assistant (\<open>assistant_kicks_leader\<close>), proposals that nobody is told of
  (\<open>latest_announced\<close>), a player who is taken from the queue and not told so (\<open>join_refused_drops\<close>).

  \<^bold>\<open>Parameters.\<close> The database, the configuration, the clock, random numbers, OpenSSL and what one component asks
  of another that is not modelled are arguments of the definitions (records named \<open>..._env\<close>), never invented.

  \<^bold>\<open>Not modelled.\<close> The entities (Player, Unit, Creature, items), spells, maps, grids and collision, the AI and the scripts are simulation code over
  floating point positions and the game's data tables; single functions of Player.cpp and ObjectMgr.cpp that
  the modelled parts call are in their theories. Guilds, battlegrounds, auctions, mail, calendar, pools and
  achievements are components of their own whose state is mostly rows of the database. The database layer, logging and configuration are input and
  output. src/Core-Deprecated is an older copy of the same server; src/Core/dep is third-party code
  (except utf8cpp); LuaEngine binds the server to Lua; src/Client, src/SQL, src/Web and src/Server Scripts are assets,
  tables, web pages and Lua scripts.
\<close>

end
